(* ===== verification/Prelude.thy ===== *)
theory Prelude
  imports Complex_Main "HOL-Library.Sublist" "HOL-Library.Multiset"
begin

text \<open>
  What the console takes from ECMAScript, as HOL functions shared by every component:
  arrays, insertion-ordered \<^verbatim>\<open>Set\<close> and \<^verbatim>\<open>Map\<close> objects, strings and numbers.

  A JavaScript string is a list of code units; here it is a \<^typ>\<open>string\<close>, so the code units
  are the ones up to U+00FF.  The few source literals beyond Latin-1 (dashes and the ellipsis of
  display texts) are written as their UTF-8 bytes.  A wire number that the code only counts,
  compares or adds is an \<^typ>\<open>int\<close>; a number whose finiteness the code tests or that it divides
  is a \<open>jsnum\<close>, exact on its finite values (the rounding of IEEE doubles is not modelled).
  The value \<^verbatim>\<open>undefined\<close> or \<^verbatim>\<open>null\<close> is \<^term>\<open>None\<close>.
\<close>

named_theorems js_array \<open>arrays, sets and maps of ECMAScript\<close>
named_theorems js_text \<open>strings of ECMAScript\<close>

section \<open>Arrays\<close>

definition at_last :: "'a list \<Rightarrow> 'a option" where
  "at_last xs = (if xs = [] then None else Some (last xs))"

text \<open>\<^verbatim>\<open>xs.slice(-n)\<close>: the last \<open>n\<close> elements; \<^verbatim>\<open>slice(-0)\<close> is the whole array.\<close>

definition slice_last :: "nat \<Rightarrow> 'a list \<Rightarrow> 'a list" where
  "slice_last n xs = (if n = 0 then xs else drop (length xs - n) xs)"

text \<open>\<^verbatim>\<open>xs[i] = v\<close> extends the array with holes, which are \<^term>\<open>None\<close>.\<close>

definition array_set :: "'a option list \<Rightarrow> nat \<Rightarrow> 'a \<Rightarrow> 'a option list" where
  "array_set xs i v = (if i < length xs then xs[i := Some v]
     else xs @ replicate (i - length xs) None @ [Some v])"

section \<open>Sets and maps, in insertion order\<close>

definition set_add :: "'a \<Rightarrow> 'a list \<Rightarrow> 'a list" where
  "set_add x s = (if x \<in> set s then s else s @ [x])"

definition set_new :: "'a list \<Rightarrow> 'a list" where
  "set_new xs = foldl (\<lambda>s x. set_add x s) [] xs"

definition set_delete :: "'a \<Rightarrow> 'a list \<Rightarrow> 'a list" where
  "set_delete x s = filter (\<lambda>y. y \<noteq> x) s"

fun map_set :: "'k \<Rightarrow> 'v \<Rightarrow> ('k \<times> 'v) list \<Rightarrow> ('k \<times> 'v) list" where
  "map_set k v [] = [(k, v)]"
| "map_set k v ((k', v') # m) = (if k' = k then (k, v) # m else (k', v') # map_set k v m)"

definition map_new :: "('k \<times> 'v) list \<Rightarrow> ('k \<times> 'v) list" where
  "map_new kvs = foldl (\<lambda>m (k, v). map_set k v m) [] kvs"

definition map_delete :: "'k \<Rightarrow> ('k \<times> 'v) list \<Rightarrow> ('k \<times> 'v) list" where
  "map_delete k m = filter (\<lambda>(k', _). k' \<noteq> k) m"

section \<open>Strings\<close>

definition is_space :: "char \<Rightarrow> bool" where
  "is_space c = ((of_char c :: nat) \<in> {9, 10, 11, 12, 13, 32, 160})"

definition trim :: "string \<Rightarrow> string" where
  "trim s = rev (dropWhile is_space (rev (dropWhile is_space s)))"

definition lower_char :: "char \<Rightarrow> char" where
  "lower_char c = (let n = of_char c :: nat in
     if 65 \<le> n \<and> n \<le> 90 \<or> 192 \<le> n \<and> n \<le> 222 \<and> n \<noteq> 215 then char_of (n + 32) else c)"

definition toLowerCase :: "string \<Rightarrow> string" where
  "toLowerCase s = map lower_char s"

definition startsWith :: "string \<Rightarrow> string \<Rightarrow> bool" where
  "startsWith s p = (take (length p) s = p)"

fun str_includes :: "string \<Rightarrow> string \<Rightarrow> bool" where
  "str_includes [] n = (n = [])"
| "str_includes (c # cs) n = (startsWith (c # cs) n \<or> str_includes cs n)"

fun split_on :: "char \<Rightarrow> string \<Rightarrow> string list" where
  "split_on d [] = [[]]"
| "split_on d (c # cs) = (if c = d then [] # split_on d cs
     else (case split_on d cs of [] \<Rightarrow> [[c]] | w # ws \<Rightarrow> (c # w) # ws))"

fun join :: "string \<Rightarrow> string list \<Rightarrow> string" where
  "join d [] = []"
| "join d [w] = w"
| "join d (w # v # ws) = w @ d @ join d (v # ws)"

abbreviation newline :: char where
  "newline \<equiv> CHR 0x0A"

definition is_digit :: "char \<Rightarrow> bool" where
  "is_digit c = (48 \<le> (of_char c :: nat) \<and> (of_char c :: nat) \<le> 57)"

definition digit_char :: "nat \<Rightarrow> char" where
  "digit_char n = char_of (48 + n)"

fun show_nat :: "nat \<Rightarrow> string" where
  "show_nat n = (if n < 10 then [digit_char n] else show_nat (n div 10) @ [digit_char (n mod 10)])"

declare show_nat.simps [simp del]

definition show_int :: "int \<Rightarrow> string" where
  "show_int i = (if i < 0 then CHR ''-'' # show_nat (nat (- i)) else show_nat (nat i))"

definition digits_value :: "string \<Rightarrow> nat" where
  "digits_value s = foldl (\<lambda>a c. a * 10 + (of_char c - 48)) 0 s"

section \<open>Numbers\<close>

datatype jsnum = Fin rat | PosInf | NegInf | NaN

fun isFinite :: "jsnum \<Rightarrow> bool" where
  "isFinite (Fin _) = True"
| "isFinite _ = False"

fun num_ge0 :: "jsnum \<Rightarrow> bool" where
  "num_ge0 (Fin q) = (0 \<le> q)"
| "num_ge0 PosInf = True"
| "num_ge0 _ = False"

section \<open>Laws of arrays, sets and maps\<close>

lemma at_last_simps [simp]:
  "at_last [] = None" "at_last (xs @ [x]) = Some x" "at_last (y # ys) = Some (last (y # ys))"
  by (simp_all add: at_last_def)

lemma at_last_None_iff [simp]: "at_last xs = None \<longleftrightarrow> xs = []"
  by (simp add: at_last_def)

lemma at_last_SomeE:
  assumes "at_last xs = Some x"
  obtains ys where "xs = ys @ [x]"
  using assms by (auto simp: at_last_def split: if_splits) (metis append_butlast_last_id)

lemma length_slice_last [simp]: "length (slice_last n xs) = (if n = 0 then length xs else min n (length xs))"
  by (auto simp: slice_last_def)

lemma slice_last_short [simp]: "length xs \<le> n \<Longrightarrow> slice_last n xs = xs"
  by (auto simp: slice_last_def)

lemma set_slice_last_subset: "set (slice_last n xs) \<subseteq> set xs"
  by (auto simp: slice_last_def dest: in_set_dropD)

lemma slice_last_suffix: "suffix (slice_last n xs) xs"
  by (simp add: slice_last_def suffix_drop)

lemma slice_last_snoc: "0 < n \<Longrightarrow> slice_last (Suc n) (xs @ [x]) = slice_last n xs @ [x]"
  by (auto simp: slice_last_def)

lemma slice_last_slice_last:
  "0 < m \<Longrightarrow> m \<le> n \<Longrightarrow> slice_last m (slice_last n xs) = slice_last m xs"
  by (cases "length xs \<le> n") (auto simp: slice_last_def)

lemma at_last_slice_last [simp]: "0 < n \<Longrightarrow> at_last (slice_last n xs) = at_last xs"
  by (cases xs) (auto simp: at_last_def slice_last_def)

lemma slice_last_append_snoc:
  assumes "0 < n"
  shows "slice_last n (slice_last n xs @ [x]) = slice_last n (xs @ [x])"
proof (cases "length xs \<le> n")
  case False
  then obtain k where "length xs = n + k" "0 < k" by (metis le_add_diff_inverse less_imp_le not_le zero_less_diff)
  with assms show ?thesis by (cases n) (simp_all add: slice_last_def)
qed simp

lemma set_set_add [simp, js_array]: "set (set_add x s) = insert x (set s)"
  by (auto simp: set_add_def)

lemma distinct_set_add [simp, js_array]: "distinct (set_add x s) = distinct s"
  by (auto simp: set_add_def)

lemma set_foldl_set_add: "set (foldl (\<lambda>s x. set_add x s) s xs) = set s \<union> set xs"
  by (induction xs arbitrary: s) auto

lemma distinct_foldl_set_add: "distinct s \<Longrightarrow> distinct (foldl (\<lambda>s x. set_add x s) s xs)"
  by (induction xs arbitrary: s) auto

lemma set_set_new [simp, js_array]: "set (set_new xs) = set xs"
  by (simp add: set_new_def set_foldl_set_add)

lemma distinct_set_new [simp, js_array]: "distinct (set_new xs)"
  by (simp add: set_new_def distinct_foldl_set_add)

lemma foldl_set_add_distinct:
  "distinct (s @ xs) \<Longrightarrow> foldl (\<lambda>s x. set_add x s) s xs = s @ xs"
  by (induction xs arbitrary: s) (auto simp: set_add_def)

lemma set_new_distinct [simp, js_array]: "distinct xs \<Longrightarrow> set_new xs = xs"
  by (simp add: set_new_def foldl_set_add_distinct)

lemma set_set_delete [simp, js_array]: "set (set_delete x s) = set s - {x}"
  by (auto simp: set_delete_def)

lemma distinct_set_delete [simp, js_array]: "distinct s \<Longrightarrow> distinct (set_delete x s)"
  by (simp add: set_delete_def)

lemma map_of_map_set [simp, js_array]: "map_of (map_set k v m) = (map_of m)(k \<mapsto> v)"
  by (induction k v m rule: map_set.induct) auto

lemma keys_map_set [js_array]: "set (map fst (map_set k v m)) = insert k (set (map fst m))"
  by (induction k v m rule: map_set.induct) auto

lemma distinct_map_set [js_array]:
  "distinct (map fst m) \<Longrightarrow> distinct (map fst (map_set k v m))"
proof (induction k v m rule: map_set.induct)
  case (2 k v k' v' m)
  then show ?case using keys_map_set [of k v m] by auto
qed simp

lemma map_of_foldl_map_set:
  "map_of (foldl (\<lambda>m (k, v). map_set k v m) m kvs) = map_of m ++ map_of (rev kvs)"
  by (induction kvs arbitrary: m) (auto simp: fun_eq_iff map_add_def split: option.splits)

lemma map_of_map_new [js_array]: "map_of (map_new kvs) = map_of (rev kvs)"
  by (simp add: map_new_def map_of_foldl_map_set)

lemma distinct_map_new [js_array]: "distinct (map fst (map_new kvs))"
proof -
  have "distinct (map fst m) \<Longrightarrow> distinct (map fst (foldl (\<lambda>m (k, v). map_set k v m) m kvs))" for m
    by (induction kvs arbitrary: m) (auto simp: distinct_map_set)
  then show ?thesis by (simp add: map_new_def)
qed

lemma map_of_rev_distinct:
  assumes "distinct (map fst kvs)"
  shows "map_of (rev kvs) = map_of kvs"
  using assms by (intro map_of_eqI) (auto simp flip: rev_map simp: distinct_map)

lemma map_of_map_new_distinct [js_array]:
  "distinct (map fst kvs) \<Longrightarrow> map_of (map_new kvs) = map_of kvs"
  by (simp add: map_of_map_new map_of_rev_distinct)

lemma map_of_map_delete [simp, js_array]: "map_of (map_delete k m) = (map_of m)(k := None)"
  by (induction m) (auto simp: map_delete_def fun_eq_iff)

section \<open>Laws of strings\<close>

lemma startsWith_prefix [js_text]: "startsWith s p \<longleftrightarrow> prefix p s"
  by (metis append_eq_conv_conj prefix_def startsWith_def)

lemma includes_sublist [js_text]: "str_includes s n \<longleftrightarrow> sublist n s"
proof (induction s)
  case (Cons c cs)
  then show ?case by (auto simp: startsWith_prefix sublist_Cons_right)
qed simp

lemma includes_Nil [simp]: "str_includes s []"
  by (simp add: includes_sublist)

lemma split_on_neq_Nil [simp]: "split_on d s \<noteq> []"
  by (induction s) (auto split: list.splits)

lemma split_on_no_sep: "d \<notin> set s \<Longrightarrow> split_on d s = [s]"
  by (induction s) auto

lemma split_on_append [js_text]:
  "d \<notin> set w \<Longrightarrow> split_on d (w @ d # s) = w # split_on d s"
  by (induction w) auto

lemma join_Cons_head: "join d ((c # w) # ws) = c # join d (w # ws)"
  by (cases ws) auto

lemma join_Cons: "ws \<noteq> [] \<Longrightarrow> join d (w # ws) = w @ d @ join d ws"
  by (cases ws) auto

text \<open>Splitting undoes joining when no piece holds the separator, and joining undoes splitting.\<close>

lemma split_on_join [js_text]:
  "ws \<noteq> [] \<Longrightarrow> \<forall>w \<in> set ws. d \<notin> set w \<Longrightarrow> split_on d (join [d] ws) = ws"
proof (induction "[d]" ws rule: join.induct)
  case (3 w v ws)
  then show ?case by (simp add: split_on_append)
qed (simp_all add: split_on_no_sep)

lemma join_split_on [js_text]: "join [d] (split_on d s) = s"
proof (induction s)
  case (Cons c cs)
  then show ?case by (cases "split_on d cs") (auto simp: join_Cons join_Cons_head)
qed simp

lemma split_on_pieces: "w \<in> set (split_on d s) \<Longrightarrow> d \<notin> set w"
  by (induction s arbitrary: w) (auto split: if_splits list.splits)

lemma of_char_digit_char [simp]: "n < 10 \<Longrightarrow> of_char (digit_char n) = 48 + n"
  by (simp add: digit_char_def)

lemma is_digit_digit_char [simp]: "n < 10 \<Longrightarrow> is_digit (digit_char n)"
  by (simp add: is_digit_def)

lemma show_nat_digits: "\<forall>c \<in> set (show_nat n). is_digit c"
proof (induction n rule: show_nat.induct)
  case (1 n)
  then show ?case by (cases "n < 10") (auto simp: show_nat.simps [of n])
qed

lemma show_nat_neq_Nil [simp]: "show_nat n \<noteq> []"
  by (subst show_nat.simps) simp

lemma digits_value_snoc: "digits_value (s @ [c]) = digits_value s * 10 + (of_char c - 48)"
  by (simp add: digits_value_def)

lemma digits_value_show_nat [simp]: "digits_value (show_nat n) = n"
proof (induction n rule: show_nat.induct)
  case (1 n)
  show ?case
  proof (cases "n < 10")
    case True
    then show ?thesis by (simp add: show_nat.simps [of n] digits_value_def)
  next
    case False
    with 1 have "digits_value (show_nat (n div 10)) = n div 10" by simp
    with False show ?thesis by (simp add: show_nat.simps [of n] digits_value_snoc)
  qed
qed

lemma show_nat_inject [simp]: "show_nat m = show_nat n \<longleftrightarrow> m = n"
  by (metis digits_value_show_nat)

lemma show_int_inject [simp]: "show_int i = show_int j \<longleftrightarrow> i = j"
proof
  have minus: "c \<in> set (show_nat n) \<Longrightarrow> c \<noteq> CHR ''-''" for c n
    using show_nat_digits [of n] by (auto simp: is_digit_def)
  assume eq: "show_int i = show_int j"
  show "i = j"
  proof (cases "i < 0 \<longleftrightarrow> j < 0")
    case True
    with eq show ?thesis by (auto simp: show_int_def split: if_splits)
  next
    case False
    with eq show ?thesis using minus by (auto simp: show_int_def split: if_splits) (metis list.set_intros(1))+
  qed
qed simp

end
