(* ===== verification/Js_Sort.thy ===== *)
theory Js_Sort
  imports Prelude "HOL-Library.Product_Lexorder"
begin

text \<open>
  \<^verbatim>\<open>Array.prototype.sort\<close> with a comparison function, which ECMAScript requires to be
  stable.  The contract a caller owes is the locale \<open>comparator\<close>: the sign of the comparison is
  a total preorder.  Under it the result is sorted, a permutation, stable, and the only list with
  these properties, so the choice of insertion sort here fixes nothing the language leaves open.
  The locale \<open>key_comparator\<close> is the common special case of a comparison of keys.
\<close>

fun js_insert :: "('a \<Rightarrow> 'a \<Rightarrow> int) \<Rightarrow> 'a \<Rightarrow> 'a list \<Rightarrow> 'a list" where
  "js_insert cmp x [] = [x]"
| "js_insert cmp x (y # ys) = (if cmp x y \<le> 0 then x # y # ys else y # js_insert cmp x ys)"

definition js_sort :: "('a \<Rightarrow> 'a \<Rightarrow> int) \<Rightarrow> 'a list \<Rightarrow> 'a list" where
  "js_sort cmp xs = foldr (js_insert cmp) xs []"

lemma js_sort_simps [simp]:
  "js_sort cmp [] = []" "js_sort cmp (x # xs) = js_insert cmp x (js_sort cmp xs)"
  by (simp_all add: js_sort_def)

lemma mset_js_insert [simp]: "mset (js_insert cmp x ys) = add_mset x (mset ys)"
  by (induction ys) auto

lemma mset_js_sort [simp]: "mset (js_sort cmp xs) = mset xs"
  by (induction xs) auto

lemma set_js_insert [simp]: "set (js_insert cmp x ys) = insert x (set ys)"
  by (metis mset_js_insert set_mset_add_mset_insert set_mset_mset)

lemma set_js_sort [simp]: "set (js_sort cmp xs) = set xs"
  by (metis mset_js_sort set_mset_mset)

lemma length_js_sort [simp]: "length (js_sort cmp xs) = length xs"
  by (metis mset_js_sort size_mset)

lemma js_sort_cong:
  assumes "\<And>x y. x \<in> set xs \<Longrightarrow> y \<in> set xs \<Longrightarrow> (cmp x y \<le> 0) = (cmp' x y \<le> 0)"
  shows "js_sort cmp xs = js_sort cmp' xs"
proof -
  have ins: "\<forall>y \<in> set ys. (cmp x y \<le> 0) = (cmp' x y \<le> 0) \<Longrightarrow> js_insert cmp x ys = js_insert cmp' x ys"
    for x ys by (induction ys) auto
  show ?thesis using assms
  proof (induction xs)
    case (Cons x xs)
    then have "js_sort cmp xs = js_sort cmp' xs" by simp
    with Cons.prems show ?case by (simp add: ins)
  qed simp
qed

locale comparator =
  fixes cmp :: "'a \<Rightarrow> 'a \<Rightarrow> int"
  assumes cmp_swap: "cmp x y \<le> 0 \<longleftrightarrow> 0 \<le> cmp y x"
    and cmp_trans: "cmp x y \<le> 0 \<Longrightarrow> cmp y z \<le> 0 \<Longrightarrow> cmp x z \<le> 0"
begin

lemma cmp_total: "cmp x y \<le> 0 \<or> cmp y x \<le> 0"
  using cmp_swap [of x y] cmp_swap [of y x] by linarith

lemma cmp_refl: "cmp x x = 0"
  using cmp_swap [of x x] by linarith

lemma cmp_eq_iff: "cmp x y = 0 \<longleftrightarrow> cmp x y \<le> 0 \<and> cmp y x \<le> 0"
  using cmp_swap [of x y] cmp_swap [of y x] by linarith

lemma sorted_js_insert:
  "sorted_wrt (\<lambda>x y. cmp x y \<le> 0) ys \<Longrightarrow> sorted_wrt (\<lambda>x y. cmp x y \<le> 0) (js_insert cmp x ys)"
proof (induction ys)
  case (Cons y ys)
  show ?case
  proof (cases "cmp x y \<le> 0")
    case True
    then show ?thesis using Cons.prems cmp_trans by auto
  next
    case False
    then have "cmp y x \<le> 0" using cmp_total by blast
    with False Cons show ?thesis by auto
  qed
qed simp

lemma sorted_js_sort: "sorted_wrt (\<lambda>x y. cmp x y \<le> 0) (js_sort cmp xs)"
  by (induction xs) (auto intro: sorted_js_insert)

lemma filter_js_insert:
  assumes "sorted_wrt (\<lambda>x y. cmp x y \<le> 0) ys"
  shows "filter (\<lambda>y. cmp z y = 0) (js_insert cmp x ys) =
    (if cmp z x = 0 then [x] else []) @ filter (\<lambda>y. cmp z y = 0) ys"
  using assms
proof (induction ys)
  case (Cons y ys)
  show ?case
  proof (cases "cmp x y \<le> 0")
    case False
    have "\<not> (cmp z x = 0 \<and> cmp z y = 0)"
      using False cmp_trans [of x z y] by (auto simp: cmp_eq_iff)
    with False Cons show ?thesis by auto
  qed auto
qed simp

text \<open>Stability: elements that compare equal keep their order.\<close>

lemma stable_js_sort: "filter (\<lambda>y. cmp z y = 0) (js_sort cmp xs) = filter (\<lambda>y. cmp z y = 0) xs"
  by (induction xs) (simp_all add: filter_js_insert sorted_js_sort)

lemma sorted_hd_filter:
  assumes "sorted_wrt (\<lambda>x y. cmp x y \<le> 0) (x # xs)"
  shows "filter (\<lambda>y. cmp x y = 0) (x # xs) = x # filter (\<lambda>y. cmp x y = 0) xs"
  by (simp add: cmp_refl)

lemma sorted_stable_unique:
  assumes "sorted_wrt (\<lambda>x y. cmp x y \<le> 0) xs" "sorted_wrt (\<lambda>x y. cmp x y \<le> 0) ys"
    and "\<And>z. filter (\<lambda>y. cmp z y = 0) xs = filter (\<lambda>y. cmp z y = 0) ys"
  shows "xs = ys"
  using assms
proof (induction xs arbitrary: ys)
  case Nil
  have "ys = []"
  proof (rule ccontr)
    assume "ys \<noteq> []"
    then obtain y ys' where "ys = y # ys'" by (cases ys) auto
    with Nil.prems(3) [of y] show False by (simp add: cmp_refl)
  qed
  then show ?case by simp
next
  case (Cons x xs)
  obtain y ys' where ys: "ys = y # ys'"
    using Cons.prems(3) [of x] by (cases ys) (auto simp: cmp_refl)
  have "x \<in> set (filter (\<lambda>y. cmp x y = 0) (x # xs))" "y \<in> set (filter (\<lambda>z. cmp y z = 0) ys)"
    by (simp_all add: ys cmp_refl)
  then have "x \<in> set ys" "y \<in> set (x # xs)"
    unfolding Cons.prems(3) [of x] Cons.prems(3) [of y, symmetric] by (auto split: if_splits)
  then have "cmp y x \<le> 0" "cmp x y \<le> 0"
    using Cons.prems(1,2) ys cmp_refl by auto
  then have eq0: "cmp x y = 0" by (simp add: cmp_eq_iff)
  have "x = y"
    using Cons.prems(3) [of x] ys eq0 by (simp add: cmp_refl)
  moreover have "filter (\<lambda>y. cmp z y = 0) xs = filter (\<lambda>y. cmp z y = 0) ys'" for z
    using Cons.prems(3) [of z] ys \<open>x = y\<close> by (auto split: if_splits)
  ultimately show ?case using Cons ys by auto
qed

lemma js_sort_unique:
  assumes "sorted_wrt (\<lambda>x y. cmp x y \<le> 0) ys"
    and "\<And>z. filter (\<lambda>y. cmp z y = 0) ys = filter (\<lambda>y. cmp z y = 0) xs"
  shows "ys = js_sort cmp xs"
proof (rule sorted_stable_unique)
  show "filter (\<lambda>y. cmp z y = 0) ys = filter (\<lambda>y. cmp z y = 0) (js_sort cmp xs)" for z
    unfolding stable_js_sort by (rule assms(2))
qed (rule assms(1), rule sorted_js_sort)

end

locale key_comparator =
  fixes cmp :: "'a \<Rightarrow> 'a \<Rightarrow> int" and key :: "'a \<Rightarrow> 'b :: linorder"
  assumes cmp_le: "cmp x y \<le> 0 \<longleftrightarrow> key x \<le> key y"
    and cmp_ge: "0 \<le> cmp x y \<longleftrightarrow> key y \<le> key x"
begin

sublocale comparator cmp
  by unfold_locales (auto simp: cmp_le cmp_ge)

lemma js_insert_insort_key: "js_insert cmp x ys = insort_key key x ys"
  by (induction ys) (auto simp: cmp_le)

lemma js_sort_sort_key: "js_sort cmp xs = sort_key key xs"
  by (induction xs) (auto simp: js_insert_insort_key)

lemma sorted_keys: "sorted (map key (js_sort cmp xs))"
  by (simp add: js_sort_sort_key)

end

text \<open>Comparing numbers by their difference, the idiom of most comparison functions of the console.\<close>

definition cmp_int :: "int \<Rightarrow> int \<Rightarrow> int" where
  "cmp_int a b = a - b"

interpretation cmp_int: key_comparator cmp_int "\<lambda>x. x"
  by unfold_locales (auto simp: cmp_int_def)

end
