(* ===== verification/Results.thy ===== *)
theory Results
  imports Main
begin

text \<open>
  Steps that may fail: an error on the left, a value on the right, as a function that throws or returns an error
  early has them.  The collection \<open>result_iff\<close> reads off what it means that a sequence of steps succeeded.
\<close>

named_theorems result_iff \<open>when a sequence of steps succeeds\<close>

definition then_do :: "'e + 'a \<Rightarrow> ('a \<Rightarrow> 'e + 'b) \<Rightarrow> 'e + 'b" where
  "then_do m f = (case m of Inl e \<Rightarrow> Inl e | Inr x \<Rightarrow> f x)"

definition check :: "bool \<Rightarrow> 'e \<Rightarrow> 'e + unit" where
  "check b e = (if b then Inr () else Inl e)"

definition require :: "'a option \<Rightarrow> 'e \<Rightarrow> 'e + 'a" where
  "require m e = (case m of None \<Rightarrow> Inl e | Some x \<Rightarrow> Inr x)"

fun for_each :: "('a \<Rightarrow> 'e + unit) \<Rightarrow> 'a list \<Rightarrow> 'e + unit" where
  "for_each f [] = Inr ()"
| "for_each f (x # xs) = then_do (f x) (\<lambda>_. for_each f xs)"

fun collect_each :: "('a \<Rightarrow> 'e + 'b) \<Rightarrow> 'a list \<Rightarrow> 'e + 'b list" where
  "collect_each f [] = Inr []"
| "collect_each f (x # xs) = then_do (f x) (\<lambda>y. then_do (collect_each f xs) (\<lambda>ys. Inr (y # ys)))"

fun fold_each :: "('s \<Rightarrow> 'a \<Rightarrow> 'e + 's) \<Rightarrow> 's \<Rightarrow> 'a list \<Rightarrow> 'e + 's" where
  "fold_each f s [] = Inr s"
| "fold_each f s (x # xs) = then_do (f s x) (\<lambda>t. fold_each f t xs)"

lemma then_do_simps [simp]: "then_do (Inl e) f = Inl e" "then_do (Inr x) f = f x"
  by (simp_all add: then_do_def)

lemma then_do_iff [result_iff]: "then_do m f = Inr y \<longleftrightarrow> (\<exists>x. m = Inr x \<and> f x = Inr y)"
  by (cases m) auto

lemma check_iff [result_iff]: "check b e = Inr u \<longleftrightarrow> b"
  by (simp add: check_def)

lemma check_simps [simp]: "check True e = Inr ()" "check False e = Inl e"
  by (simp_all add: check_def)

lemma require_iff [result_iff]: "require m e = Inr x \<longleftrightarrow> m = Some x"
  by (auto simp: require_def split: option.splits)

lemma require_Some [simp]: "require (Some x) e = Inr x"
  by (simp add: require_def)

lemma for_each_iff [result_iff]: "for_each f xs = Inr u \<longleftrightarrow> (\<forall>x \<in> set xs. f x = Inr ())"
  by (induction xs) (auto simp: result_iff)

lemma collect_each_iff [result_iff]: "collect_each f xs = Inr ys \<longleftrightarrow> map f xs = map Inr ys"
  by (induction xs arbitrary: ys) (auto simp: result_iff Cons_eq_map_conv)

lemma collect_each_map: "(\<And>x. x \<in> set xs \<Longrightarrow> f x = Inr (g x)) \<Longrightarrow> collect_each f xs = Inr (map g xs)"
  by (induction xs) auto

end
