(* ===== verification/Node_Paths.thy ===== *)
theory Node_Paths
  imports Prelude Js_Sort Results "HOL-Library.List_Lexorder" "HOL-Library.Char_ord"
begin

text \<open>
  What \<^verbatim>\<open>web/scripts/assets.mjs\<close> takes from Node: POSIX paths of \<^verbatim>\<open>node:path\<close> and files of
  \<^verbatim>\<open>node:fs/promises\<close>.  An absolute path is the list of its segments; the file system is a tree.
\<close>

section \<open>Paths\<close>

definition isAbsolute :: "string \<Rightarrow> bool" where
  "isAbsolute p = startsWith p ''/''"

definition norm_step :: "string list \<Rightarrow> string \<Rightarrow> string list" where
  "norm_step acc g = (if g = [] \<or> g = ''.'' then acc else if g = ''..'' then butlast acc else acc @ [g])"

definition join_path :: "string list \<Rightarrow> string \<Rightarrow> string list" where
  "join_path base p = foldl norm_step base (split_on (CHR ''/'') p)"

definition resolve_path :: "string list \<Rightarrow> string \<Rightarrow> string list" where
  "resolve_path base p = join_path (if isAbsolute p then [] else base) p"

fun common :: "string list \<Rightarrow> string list \<Rightarrow> nat" where
  "common (x # xs) (y # ys) = (if x = y then Suc (common xs ys) else 0)"
| "common _ _ = 0"

definition relative_segs :: "string list \<Rightarrow> string list \<Rightarrow> string list" where
  "relative_segs from target = replicate (length from - common from target) ''..'' @ drop (common from target) target"

definition relative :: "string list \<Rightarrow> string list \<Rightarrow> string" where
  "relative from target = join ''/'' (relative_segs from target)"

text \<open>\<^verbatim>\<open>extname\<close> of the last segment: from its last dot, unless that is the first character or the name is two dots.\<close>

definition extname :: "string list \<Rightarrow> string" where
  "extname p = (case at_last p of None \<Rightarrow> []
     | Some name \<Rightarrow> (let tail = takeWhile (\<lambda>c. c \<noteq> CHR ''.'') (rev name) in
         if name = ''..'' \<or> Suc (length tail) \<ge> length name then [] else CHR ''.'' # rev tail))"

definition extname_text :: "string \<Rightarrow> string" where
  "extname_text p = extname (filter (\<lambda>g. g \<noteq> []) (split_on (CHR ''/'') p))"

definition path_string :: "string list \<Rightarrow> string" where
  "path_string p = ''/'' @ join ''/'' p"

definition segment_ok :: "string \<Rightarrow> bool" where
  "segment_ok g = (g \<noteq> [] \<and> g \<noteq> ''.'' \<and> g \<noteq> ''..'' \<and> CHR ''/'' \<notin> set g)"

lemma norm_steps_ok:
  "\<forall>g \<in> set acc. segment_ok g \<Longrightarrow> \<forall>g \<in> set gs. CHR ''/'' \<notin> set g \<Longrightarrow> \<forall>g \<in> set (foldl norm_step acc gs). segment_ok g"
proof (induction gs arbitrary: acc)
  case (Cons g gs)
  have "\<forall>h \<in> set (norm_step acc g). segment_ok h"
    using Cons.prems by (auto simp: norm_step_def segment_ok_def dest: in_set_butlastD)
  with Cons show ?case by simp
qed simp

lemma join_path_ok: "\<forall>g \<in> set base. segment_ok g \<Longrightarrow> \<forall>g \<in> set (join_path base p). segment_ok g"
  unfolding join_path_def by (rule norm_steps_ok) (auto dest: split_on_pieces)

lemma resolve_path_ok: "\<forall>g \<in> set base. segment_ok g \<Longrightarrow> \<forall>g \<in> set (resolve_path base p). segment_ok g"
  unfolding resolve_path_def by (intro join_path_ok) auto

lemma norm_steps_plain: "\<forall>g \<in> set gs. segment_ok g \<Longrightarrow> foldl norm_step acc gs = acc @ gs"
  by (induction gs arbitrary: acc) (auto simp: norm_step_def segment_ok_def)

lemma join_path_plain:
  assumes "\<forall>g \<in> set gs. segment_ok g" "gs \<noteq> []"
  shows "join_path base (join ''/'' gs) = base @ gs"
proof -
  have "split_on (CHR ''/'') (join ''/'' gs) = gs" using assms by (intro split_on_join) (auto simp: segment_ok_def)
  with assms(1) show ?thesis by (simp add: join_path_def norm_steps_plain)
qed

lemma common_bounds: "common xs ys \<le> length xs" "common xs ys \<le> length ys"
  by (induction xs ys rule: common.induct) auto

lemma common_prefix: "common from target = length from \<longleftrightarrow> prefix from target"
  by (induction "from" target rule: common.induct) (auto simp: prefix_Cons)

lemma relative_inside: "prefix from target \<Longrightarrow> relative from target = join ''/'' (drop (length from) target)"
  by (simp add: relative_def relative_segs_def common_prefix [THEN iffD2])

lemma startsWith_parent:
  assumes "CHR ''/'' \<notin> set g"
  shows "join ''/'' (g # gs) = ''..'' \<or> startsWith (join ''/'' (g # gs)) ''../'' \<longleftrightarrow> g = ''..''"
proof (cases gs)
  case Nil
  have "\<not> startsWith g ''../''" using assms by (auto simp: startsWith_prefix prefix_def)
  with Nil show ?thesis by simp
next
  case (Cons h hs)
  have j: "join ''/'' (g # gs) = g @ CHR ''/'' # join ''/'' gs" using Cons by (simp add: join_Cons)
  have "g = ''..''" if "prefix ''../'' (g @ CHR ''/'' # r)" for r
  proof -
    from that obtain t where "g @ CHR ''/'' # r = ''..'' @ CHR ''/'' # t" by (auto simp: prefix_def)
    with assms show ?thesis by (auto simp: append_eq_append_conv2 append_eq_Cons_conv Cons_eq_append_conv)
  qed
  moreover have "g @ CHR ''/'' # r \<noteq> ''..''" for r
  proof
    assume "g @ CHR ''/'' # r = ''..''"
    then have "CHR ''/'' \<in> set ''..''" by (metis in_set_conv_decomp)
    then show False by simp
  qed
  ultimately show ?thesis unfolding j startsWith_prefix by auto
qed

text \<open>The test of the script: the relative path is two dots or starts with them and a slash.\<close>

definition leaves :: "string list \<Rightarrow> string list \<Rightarrow> bool" where
  "leaves base target = (relative base target = ''..'' \<or> startsWith (relative base target) ''../'')"

lemma leaves_iff:
  assumes "\<forall>g \<in> set target. segment_ok g"
  shows "leaves base target \<longleftrightarrow> \<not> prefix base target"
proof (cases "prefix base target")
  case True
  then have rel: "relative base target = join ''/'' (drop (length base) target)" by (rule relative_inside)
  have "\<not> leaves base target"
  proof (cases "drop (length base) target")
    case Nil
    then show ?thesis by (simp add: leaves_def rel startsWith_def)
  next
    case (Cons g gs)
    then have "segment_ok g" using assms by (metis in_set_dropD list.set_intros(1))
    then show ?thesis using startsWith_parent [of g gs] by (simp add: leaves_def rel Cons segment_ok_def)
  qed
  with True show ?thesis by simp
next
  case False
  then have "common base target \<noteq> length base" by (simp add: common_prefix)
  then obtain n where n: "length base - common base target = Suc n"
    using common_bounds(1) [of base target] by (cases "length base - common base target") auto
  then have "relative_segs base target = ''..'' # replicate n ''..'' @ drop (common base target) target"
    by (simp add: relative_segs_def)
  then have "leaves base target" using startsWith_parent [of "''..''"] by (simp add: leaves_def relative_def)
  with False show ?thesis by simp
qed

section \<open>Files\<close>

datatype node = File string | Dir "(string \<times> node) list" | Special

fun fs_lookup :: "node \<Rightarrow> string list \<Rightarrow> node option" where
  "fs_lookup n [] = Some n"
| "fs_lookup (Dir es) (g # gs) = (case map_of es g of None \<Rightarrow> None | Some n \<Rightarrow> fs_lookup n gs)"
| "fs_lookup _ (g # gs) = None"

datatype script_error = Fs_error string | Script_error string | Type_error

type_synonym 'a script = "script_error + 'a"

text \<open>The code of a path that names nothing: a segment is missing, or goes through something that is no directory.\<close>

fun missing_code :: "node \<Rightarrow> string list \<Rightarrow> string" where
  "missing_code (Dir es) (g # gs) = (case map_of es g of None \<Rightarrow> ''ENOENT'' | Some n \<Rightarrow> missing_code n gs)"
| "missing_code _ _ = ''ENOTDIR''"

definition readFile :: "node \<Rightarrow> string list \<Rightarrow> string script" where
  "readFile fs p = (case fs_lookup fs p of None \<Rightarrow> Inl (Fs_error (missing_code fs p)) | Some (File b) \<Rightarrow> Inr b
     | Some (Dir _) \<Rightarrow> Inl (Fs_error ''EISDIR'') | Some Special \<Rightarrow> Inl (Fs_error ''EINVAL''))"

definition stat :: "node \<Rightarrow> string list \<Rightarrow> unit script" where
  "stat fs p = check (fs_lookup fs p \<noteq> None) (Fs_error (missing_code fs p))"

text \<open>\<^verbatim>\<open>mkdir\<close> with \<^verbatim>\<open>recursive\<close>, \<^verbatim>\<open>writeFile\<close>, and \<^verbatim>\<open>rm\<close> with \<^verbatim>\<open>recursive\<close> and \<^verbatim>\<open>force\<close>.\<close>

fun mkdir :: "string list \<Rightarrow> node \<Rightarrow> node script" where
  "mkdir [] (Dir es) = Inr (Dir es)"
| "mkdir (g # gs) (Dir es) = (case map_of es g of
     None \<Rightarrow> then_do (mkdir gs (Dir [])) (\<lambda>n. Inr (Dir (map_set g n es)))
   | Some n \<Rightarrow> then_do (mkdir gs n) (\<lambda>n'. Inr (Dir (map_set g n' es))))"
| "mkdir [] _ = Inl (Fs_error ''EEXIST'')"
| "mkdir _ _ = Inl (Fs_error ''ENOTDIR'')"

fun writeFile :: "string list \<Rightarrow> string \<Rightarrow> node \<Rightarrow> node script" where
  "writeFile [] b n = Inl (Fs_error ''EISDIR'')"
| "writeFile [g] b (Dir es) = (case map_of es g of
     Some (Dir _) \<Rightarrow> Inl (Fs_error ''EISDIR'') | _ \<Rightarrow> Inr (Dir (map_set g (File b) es)))"
| "writeFile (g # h # gs) b (Dir es) = (case map_of es g of
     None \<Rightarrow> Inl (Fs_error ''ENOENT'')
   | Some n \<Rightarrow> then_do (writeFile (h # gs) b n) (\<lambda>n'. Inr (Dir (map_set g n' es))))"
| "writeFile _ b n = Inl (Fs_error ''ENOTDIR'')"

fun rm_path :: "string list \<Rightarrow> node \<Rightarrow> node" where
  "rm_path [] n = n"
| "rm_path [g] (Dir es) = Dir (filter (\<lambda>(k, _). k \<noteq> g) es)"
| "rm_path (g # h # gs) (Dir es) = Dir (map (\<lambda>(k, n). if k = g then (k, rm_path (h # gs) n) else (k, n)) es)"
| "rm_path _ n = n"

text \<open>A program that writes its output into a directory replaces the directory's entries.\<close>

fun fs_put :: "string list \<Rightarrow> node \<Rightarrow> node \<Rightarrow> node script" where
  "fs_put [] m n = Inr m"
| "fs_put (g # gs) m (Dir es) = (case map_of es g of
     None \<Rightarrow> Inl (Fs_error ''ENOENT'')
   | Some n \<Rightarrow> then_do (fs_put gs m n) (\<lambda>n'. Inr (Dir (map_set g n' es))))"
| "fs_put _ m n = Inl (Fs_error ''ENOTDIR'')"

definition path_order :: "string list \<Rightarrow> string list \<Rightarrow> int" where
  "path_order p q = (if path_string p = path_string q then 0 else if path_string p < path_string q then -1 else 1)"

fun walk_node :: "string list \<Rightarrow> node \<Rightarrow> string list list" where
  "walk_node p (Dir es) = js_sort path_order (concat (map (\<lambda>(g, n). case n of
       Dir _ \<Rightarrow> walk_node (p @ [g]) n | File _ \<Rightarrow> [p @ [g]] | Special \<Rightarrow> []) es))"
| "walk_node p _ = []"

definition walkFiles :: "node \<Rightarrow> string list \<Rightarrow> string list list script" where
  "walkFiles fs p = (case fs_lookup fs p of None \<Rightarrow> Inl (Fs_error (missing_code fs p))
     | Some (Dir es) \<Rightarrow> Inr (walk_node p (Dir es)) | Some _ \<Rightarrow> Inl (Fs_error ''ENOTDIR''))"

section \<open>Laws of the file system\<close>

lemma readFile_iff [result_iff]: "readFile fs p = Inr b \<longleftrightarrow> fs_lookup fs p = Some (File b)"
  by (auto simp: readFile_def split: option.splits node.splits)

lemma lookup_written: "writeFile p b fs = Inr fs' \<Longrightarrow> fs_lookup fs' p = Some (File b)"
  by (induction p b fs arbitrary: fs' rule: writeFile.induct) (auto simp: result_iff split: option.splits node.splits)

lemma read_written: "writeFile p b fs = Inr fs' \<Longrightarrow> readFile fs' p = Inr b"
  by (simp add: result_iff lookup_written)

lemma lookup_not_written:
  "writeFile p b fs = Inr fs' \<Longrightarrow> \<not> prefix q p \<Longrightarrow> \<not> prefix p q \<Longrightarrow> fs_lookup fs' q = fs_lookup fs q"
proof (induction p b fs arbitrary: fs' q rule: writeFile.induct)
  case (2 g b es)
  then show ?case by (cases q) (auto split: option.splits node.splits)
next
  case (3 g h gs b es)
  then obtain n n' where n: "map_of es g = Some n" "writeFile (h # gs) b n = Inr n'" "fs' = Dir (map_set g n' es)"
    by (auto simp: result_iff split: option.splits)
  obtain k q' where q: "q = k # q'" using "3.prems" by (cases q) auto
  have "fs_lookup n' q' = fs_lookup n q'" if "k = g" using "3.IH" [OF n(1,2)] that "3.prems" q by auto
  with n q show ?case by auto
qed auto

fun fs_wf :: "node \<Rightarrow> bool" where
  "fs_wf (Dir es) = (distinct (map fst es) \<and> (\<forall>e \<in> set es. segment_ok (fst e) \<and> fs_wf (snd e)))"
| "fs_wf _ = True"

lemma wf_lookup: "fs_wf n \<Longrightarrow> fs_lookup n p = Some m \<Longrightarrow> fs_wf m \<and> (\<forall>g \<in> set p. segment_ok g)"
proof (induction n p rule: fs_lookup.induct)
  case (2 es g gs)
  then obtain k where k: "map_of es g = Some k" "fs_lookup k gs = Some m" by (auto split: option.splits)
  from map_of_SomeD [OF k(1)] "2.prems"(1) have "segment_ok g \<and> fs_wf k" by auto
  with "2.IH" [OF k(1)] k(2) show ?case by simp
qed auto

lemma lookup_append: "fs_lookup n (p @ q) = (case fs_lookup n p of None \<Rightarrow> None | Some m \<Rightarrow> fs_lookup m q)"
  by (induction n p rule: fs_lookup.induct) (auto split: option.splits) 

definition walk_entry :: "string list \<Rightarrow> string \<times> node \<Rightarrow> string list list" where
  "walk_entry p = (\<lambda>(g, n). case n of Dir _ \<Rightarrow> walk_node (p @ [g]) n | File _ \<Rightarrow> [p @ [g]] | Special \<Rightarrow> [])"

lemma walk_Dir: "set (walk_node p (Dir es)) = (\<Union>e \<in> set es. set (walk_entry p e))"
  by (simp add: walk_entry_def)

lemma set_walk_node:
  "fs_wf n \<Longrightarrow> q \<in> set (walk_node p n) \<longleftrightarrow> (\<exists>g gs b. q = p @ g # gs \<and> fs_lookup n (g # gs) = Some (File b))"
proof (induction n arbitrary: p q)
  case (Dir es)
note IH = Dir.IH and wf = Dir.prems
  have entry: "q \<in> set (walk_entry p (g, m)) \<longleftrightarrow> (\<exists>gs b. q = p @ g # gs \<and> fs_lookup m gs = Some (File b))"
    if "(g, m) \<in> set es" for g m
  proof (cases m)
    case (Dir ds)
    have "fs_wf m" using wf that by auto
    then have walk: "q \<in> set (walk_entry p (g, m)) \<longleftrightarrow> (\<exists>h hs b. q = p @ g # h # hs \<and> fs_lookup m (h # hs) = Some (File b))"
      using IH [OF that, of m q "p @ [g]"] Dir by (simp add: walk_entry_def del: walk_node.simps fs_lookup.simps)
    have "fs_lookup m gs = Some (File b) \<Longrightarrow> gs \<noteq> []" for gs b using Dir by auto
    then have "(\<exists>gs b. q = p @ g # gs \<and> fs_lookup m gs = Some (File b))
        \<longleftrightarrow> (\<exists>h hs b. q = p @ g # h # hs \<and> fs_lookup m (h # hs) = Some (File b))"
      by (metis neq_Nil_conv)
    then show ?thesis unfolding walk by (rule sym)
  next
    case (File b)
    have "fs_lookup (File b) gs = Some (File c) \<longleftrightarrow> gs = [] \<and> b = c" for gs c by (cases gs) auto
    then show ?thesis using File by (auto simp: walk_entry_def)
  next
    case Special
    have "fs_lookup Special gs \<noteq> Some (File c)" for gs c by (cases gs) auto
    then show ?thesis using Special by (auto simp: walk_entry_def)
  qed
  have mem: "(g, m) \<in> set es \<longleftrightarrow> map_of es g = Some m" for g m using wf by simp
  have look: "fs_lookup (Dir es) (g # gs) = Some (File b) \<longleftrightarrow> (\<exists>m. (g, m) \<in> set es \<and> fs_lookup m gs = Some (File b))" for g gs b
    unfolding mem by (simp split: option.splits)
  have "q \<in> set (walk_node p (Dir es)) \<longleftrightarrow> (\<exists>g m. (g, m) \<in> set es \<and> q \<in> set (walk_entry p (g, m)))"
    unfolding walk_Dir by auto
  also have "\<dots> \<longleftrightarrow> (\<exists>g m gs b. (g, m) \<in> set es \<and> q = p @ g # gs \<and> fs_lookup m gs = Some (File b))"
    using entry by blast
  also have "\<dots> \<longleftrightarrow> (\<exists>g gs b. q = p @ g # gs \<and> fs_lookup (Dir es) (g # gs) = Some (File b))"
    unfolding look by blast
  finally show ?case .
qed auto

end
