(* ===== verification/Json.thy ===== *)
theory Json
  imports Prelude
begin

text \<open>
  JSON values and the ECMAScript codec \<^verbatim>\<open>JSON.stringify\<close> / \<^verbatim>\<open>JSON.parse\<close>, which the
  console uses for request bodies, stream events and browser storage.  An integral number is
  \<open>JNum\<close>; a numeral with a fraction or an exponent keeps its text as \<open>JDec\<close>.  The parser
  is a recursive descent with fuel; twice the length of the text is enough, and the round trip
  \<open>JSON_parse (JSON_stringify v) = Some v\<close> is proved for every value without \<open>JDec\<close>.
\<close>

datatype json = JNull | JBool bool | JNum int | JDec string | JStr string
  | JArr "json list" | JObj "(string \<times> json) list"

definition obj_get :: "string \<Rightarrow> (string \<times> json) list \<Rightarrow> json option" where
  "obj_get k kvs = map_of (rev kvs) k"

section \<open>Printing\<close>

definition hex_char :: "nat \<Rightarrow> char" where
  "hex_char n = (if n < 10 then char_of (48 + n) else char_of (87 + n))"

definition escape_char :: "char \<Rightarrow> string" where
  "escape_char c = (let n = of_char c :: nat in
     if n = 34 then [CHR 0x5C, CHR 0x22]
     else if n = 92 then [CHR 0x5C, CHR 0x5C]
     else if n = 8 then [CHR 0x5C, CHR ''b'']
     else if n = 9 then [CHR 0x5C, CHR ''t'']
     else if n = 10 then [CHR 0x5C, CHR ''n'']
     else if n = 12 then [CHR 0x5C, CHR ''f'']
     else if n = 13 then [CHR 0x5C, CHR ''r'']
     else if n < 32 then [CHR 0x5C, CHR ''u'', CHR ''0'', CHR ''0'', hex_char (n div 16), hex_char (n mod 16)]
     else [c])"

definition quote :: "string \<Rightarrow> string" where
  "quote s = CHR 0x22 # concat (map escape_char s) @ [CHR 0x22]"

function (sequential) JSON_stringify :: "json \<Rightarrow> string"
  and stringify_elems :: "json list \<Rightarrow> string"
  and stringify_members :: "(string \<times> json) list \<Rightarrow> string" where
  "JSON_stringify JNull = ''null''"
| "JSON_stringify (JBool b) = (if b then ''true'' else ''false'')"
| "JSON_stringify (JNum i) = show_int i"
| "JSON_stringify (JDec s) = s"
| "JSON_stringify (JStr s) = quote s"
| "JSON_stringify (JArr vs) = ''['' @ stringify_elems vs"
| "JSON_stringify (JObj kvs) = ''{'' @ stringify_members kvs"
| "stringify_elems [] = '']''"
| "stringify_elems [v] = JSON_stringify v @ '']''"
| "stringify_elems (v # vs) = JSON_stringify v @ '','' @ stringify_elems vs"
| "stringify_members [] = ''}''"
| "stringify_members [(k, v)] = quote k @ '':'' @ JSON_stringify v @ ''}''"
| "stringify_members ((k, v) # kvs) =
     quote k @ '':'' @ JSON_stringify v @ '','' @ stringify_members kvs"
  by pat_completeness auto
termination
  by (relation "measure (\<lambda>x. case x of Inl v \<Rightarrow> size v
    | Inr (Inl vs) \<Rightarrow> size_list size vs
    | Inr (Inr kvs) \<Rightarrow> size_list (size_prod (\<lambda>_. 0) size) kvs)") auto

section \<open>Parsing\<close>

definition json_space :: "char \<Rightarrow> bool" where
  "json_space c = ((of_char c :: nat) \<in> {9, 10, 13, 32})"

abbreviation skip_ws :: "string \<Rightarrow> string" where
  "skip_ws s \<equiv> dropWhile json_space s"

definition hex_value :: "char \<Rightarrow> nat option" where
  "hex_value c = (let n = of_char c :: nat in
     if 48 \<le> n \<and> n \<le> 57 then Some (n - 48)
     else if 97 \<le> n \<and> n \<le> 102 then Some (n - 87)
     else if 65 \<le> n \<and> n \<le> 70 then Some (n - 55) else None)"

definition hex4 :: "char \<Rightarrow> char \<Rightarrow> char \<Rightarrow> char \<Rightarrow> char option" where
  "hex4 a b c d = (case (hex_value a, hex_value b, hex_value c, hex_value d) of
     (Some w, Some x, Some y, Some z) \<Rightarrow>
       (let n = ((w * 16 + x) * 16 + y) * 16 + z in if n < 256 then Some (char_of n) else None)
   | _ \<Rightarrow> None)"

definition unescape :: "char \<Rightarrow> char option" where
  "unescape c = map_of [(CHR 0x22, CHR 0x22), (CHR 0x5C, CHR 0x5C), (CHR ''/'', CHR ''/''),
     (CHR ''b'', CHR 0x08), (CHR ''t'', CHR 0x09), (CHR ''n'', CHR 0x0A),
     (CHR ''f'', CHR 0x0C), (CHR ''r'', CHR 0x0D)] c"

fun parse_chars :: "string \<Rightarrow> (string \<times> string) option" where
  "parse_chars [] = None"
| "parse_chars (c # cs) =
     (if c = CHR 0x22 then Some ([], cs)
      else if c = CHR 0x5C then
        (case cs of
           [] \<Rightarrow> None
         | e # r \<Rightarrow>
             if e = CHR ''u'' then
               (case r of
                  h1 # h2 # h3 # h4 # r' \<Rightarrow>
                    (case hex4 h1 h2 h3 h4 of None \<Rightarrow> None
                     | Some x \<Rightarrow> map_option (apfst (Cons x)) (parse_chars r'))
                | _ \<Rightarrow> None)
             else
               (case unescape e of None \<Rightarrow> None
                | Some x \<Rightarrow> map_option (apfst (Cons x)) (parse_chars r)))
      else if (of_char c :: nat) < 32 then None
      else map_option (apfst (Cons c)) (parse_chars cs))"

definition parse_fraction :: "string \<Rightarrow> (string \<times> string) option" where
  "parse_fraction s = (case s of
     c # cs \<Rightarrow> if c = CHR ''.'' then
         (let ds = takeWhile is_digit cs in
          if ds = [] then None else Some (CHR ''.'' # ds, dropWhile is_digit cs))
       else Some ([], s)
   | [] \<Rightarrow> Some ([], []))"

definition parse_exponent :: "string \<Rightarrow> (string \<times> string) option" where
  "parse_exponent s = (case s of
     c # cs \<Rightarrow> if c = CHR ''e'' \<or> c = CHR ''E'' then
         (let (sg, r) = (case cs of x # xs \<Rightarrow> if x = CHR ''+'' \<or> x = CHR ''-'' then ([x], xs) else ([], cs)
                         | [] \<Rightarrow> ([], []));
              ds = takeWhile is_digit r in
          if ds = [] then None else Some (c # sg @ ds, dropWhile is_digit r))
       else Some ([], s)
   | [] \<Rightarrow> Some ([], []))"

definition parse_number :: "string \<Rightarrow> (json \<times> string) option" where
  "parse_number s =
     (let (sg, r) = (case s of c # cs \<Rightarrow> if c = CHR ''-'' then ([c], cs) else ([], s) | [] \<Rightarrow> ([], []));
          ds = takeWhile is_digit r
      in if ds = [] \<or> (hd ds = CHR ''0'' \<and> tl ds \<noteq> []) then None
         else (case parse_fraction (dropWhile is_digit r) of None \<Rightarrow> None
           | Some (fr, r') \<Rightarrow> (case parse_exponent r' of None \<Rightarrow> None
             | Some (ex, r'') \<Rightarrow>
                 Some (if fr = [] \<and> ex = []
                       then JNum (if sg = [] then int (digits_value ds) else - int (digits_value ds))
                       else JDec (sg @ ds @ fr @ ex), r''))))"

definition parse_literal :: "string \<Rightarrow> (json \<times> string) option" where
  "parse_literal s =
     (if startsWith s ''null'' then Some (JNull, drop 4 s)
      else if startsWith s ''true'' then Some (JBool True, drop 4 s)
      else if startsWith s ''false'' then Some (JBool False, drop 5 s)
      else parse_number s)"

fun parse_value :: "nat \<Rightarrow> string \<Rightarrow> (json \<times> string) option"
  and parse_elems :: "nat \<Rightarrow> string \<Rightarrow> (json list \<times> string) option"
  and parse_members :: "nat \<Rightarrow> string \<Rightarrow> ((string \<times> json) list \<times> string) option" where
  "parse_value 0 s = None"
| "parse_value (Suc n) s = (case skip_ws s of
     [] \<Rightarrow> None
   | c # cs \<Rightarrow>
       if c = CHR 0x22 then map_option (apfst JStr) (parse_chars cs)
       else if c = CHR ''['' then
         (if startsWith (skip_ws cs) '']'' then Some (JArr [], tl (skip_ws cs))
          else map_option (apfst JArr) (parse_elems n cs))
       else if c = CHR ''{'' then
         (if startsWith (skip_ws cs) ''}'' then Some (JObj [], tl (skip_ws cs))
          else map_option (apfst JObj) (parse_members n cs))
       else parse_literal (c # cs))"
| "parse_elems 0 s = None"
| "parse_elems (Suc n) s = (case parse_value n s of
     None \<Rightarrow> None
   | Some (v, r) \<Rightarrow> (case skip_ws r of
       [] \<Rightarrow> None
     | c # cs \<Rightarrow> if c = CHR '','' then map_option (apfst (Cons v)) (parse_elems n cs)
                 else if c = CHR '']'' then Some ([v], cs) else None))"
| "parse_members 0 s = None"
| "parse_members (Suc n) s = (case skip_ws s of
     [] \<Rightarrow> None
   | q # qs \<Rightarrow>
       if q \<noteq> CHR 0x22 then None
       else (case parse_chars qs of
         None \<Rightarrow> None
       | Some (k, r) \<Rightarrow> (case skip_ws r of
           [] \<Rightarrow> None
         | d # ds \<Rightarrow>
             if d \<noteq> CHR '':'' then None
             else (case parse_value n ds of
               None \<Rightarrow> None
             | Some (v, r') \<Rightarrow> (case skip_ws r' of
                 [] \<Rightarrow> None
               | c # cs \<Rightarrow> if c = CHR '','' then map_option (apfst (Cons (k, v))) (parse_members n cs)
                           else if c = CHR ''}'' then Some ([(k, v)], cs) else None)))))"

definition JSON_parse :: "string \<Rightarrow> json option" where
  "JSON_parse s = (case parse_value (2 * length s) s of
     None \<Rightarrow> None
   | Some (v, r) \<Rightarrow> if skip_ws r = [] then Some v else None)"

fun json_plain :: "json \<Rightarrow> bool" where
  "json_plain (JDec _) = False"
| "json_plain (JArr vs) = (\<forall>v \<in> set vs. json_plain v)"
| "json_plain (JObj kvs) = (\<forall>kv \<in> set kvs. json_plain (snd kv))"
| "json_plain _ = True"

section \<open>The round trip\<close>

lemma hex_value_hex_char [simp]: "n < 16 \<Longrightarrow> hex_value (hex_char n) = Some n"
  by (auto simp: hex_value_def hex_char_def Let_def)

lemma hex4_low [simp]:
  assumes "n < 32"
  shows "hex4 (CHR ''0'') (CHR ''0'') (hex_char (n div 16)) (hex_char (n mod 16)) = Some (char_of n)"
proof -
  have "hex_value (CHR ''0'') = Some 0" by (simp add: hex_value_def)
  moreover have "n div 16 < 16" "n mod 16 < 16" using assms by auto
  ultimately show ?thesis using assms by (simp add: hex4_def Let_def)
qed

lemma char_by_code: "(of_char c :: nat) = of_char d \<Longrightarrow> c = d"
  by simp

lemma special_codes:
  "(of_char c :: nat) = 34 \<longleftrightarrow> c = CHR 0x22" "(of_char c :: nat) = 92 \<longleftrightarrow> c = CHR 0x5C"
  "(of_char c :: nat) = 8 \<longleftrightarrow> c = CHR 0x08" "(of_char c :: nat) = 9 \<longleftrightarrow> c = CHR 0x09"
  "(of_char c :: nat) = 10 \<longleftrightarrow> c = CHR 0x0A" "(of_char c :: nat) = 12 \<longleftrightarrow> c = CHR 0x0C"
  "(of_char c :: nat) = 13 \<longleftrightarrow> c = CHR 0x0D"
  by (auto intro!: char_by_code)

lemma parse_chars_escape:
  "parse_chars (escape_char c @ t) = map_option (apfst (Cons c)) (parse_chars t)"
proof -
  let ?n = "of_char c :: nat"
  consider "c \<in> {CHR 0x22, CHR 0x5C, CHR 0x08, CHR 0x09, CHR 0x0A, CHR 0x0C, CHR 0x0D}"
    | "?n < 32" "?n \<notin> {8, 9, 10, 12, 13}" | "32 \<le> ?n" "?n \<noteq> 34" "?n \<noteq> 92"
    by (cases "?n < 32") (auto simp: special_codes)
  then show ?thesis
  proof cases
    case 1
    then show ?thesis by (auto simp: escape_char_def unescape_def)
  next
    case 2
    then show ?thesis by (simp add: escape_char_def Let_def)
  next
    case 3
    then have "c \<noteq> CHR 0x22" "c \<noteq> CHR 0x5C" by auto
    with 3 show ?thesis by (simp add: escape_char_def Let_def)
  qed
qed

lemma parse_chars_quote [simp]:
  "parse_chars (concat (map escape_char s) @ CHR 0x22 # rest) = Some (s, rest)"
  by (induction s) (simp_all add: parse_chars_escape)

definition stop :: "string \<Rightarrow> bool" where
  "stop r = (r = [] \<or> hd r \<in> {CHR '','', CHR '']'', CHR ''}''} \<or> json_space (hd r))"

lemma stop_simps [simp]:
  "stop []" "stop (CHR '','' # r)" "stop (CHR '']'' # r)" "stop (CHR ''}'' # r)"
  by (simp_all add: stop_def)

lemma takeWhile_digits:
  assumes "\<forall>c \<in> set ds. is_digit c" "stop r"
  shows "takeWhile is_digit (ds @ r) = ds" "dropWhile is_digit (ds @ r) = r"
proof -
  have "r = [] \<or> \<not> is_digit (hd r)" using assms(2) by (auto simp: stop_def is_digit_def json_space_def)
  then have "takeWhile is_digit r = []" "dropWhile is_digit r = r" by (cases r; auto)+
  with assms(1) show "takeWhile is_digit (ds @ r) = ds" "dropWhile is_digit (ds @ r) = r" by auto
qed

lemma hd_show_nat: "0 < n \<Longrightarrow> hd (show_nat n) \<noteq> CHR ''0''"
proof (induction n rule: show_nat.induct)
  case (1 n)
  show ?case
  proof (cases "n < 10")
    case True
    then have "of_char (digit_char n) \<noteq> (48 :: nat)" using 1 by simp
    then have "digit_char n \<noteq> CHR ''0''" by auto
    with True show ?thesis by (simp add: show_nat.simps [of n])
  next
    case False
    with 1 show ?thesis by (simp add: show_nat.simps [of n])
  qed
qed

lemma show_nat_no_leading_zero: "hd (show_nat n) = CHR ''0'' \<Longrightarrow> tl (show_nat n) = []"
  using hd_show_nat [of n] by (cases "n = 0") (auto simp: show_nat.simps [of 0])

lemma parse_rest_stop:
  assumes "stop r"
  shows "parse_fraction r = Some ([], r)" "parse_exponent r = Some ([], r)"
  using assms by (auto simp: stop_def json_space_def parse_fraction_def parse_exponent_def split: list.splits)

lemma hd_show_nat_digit: "is_digit (hd (show_nat n))"
  using show_nat_digits [of n] by (cases "show_nat n") auto

lemma parse_number_show_int:
  assumes "stop r"
  shows "parse_number (show_int i @ r) = Some (JNum i, r)"
proof -
  note tw = takeWhile_digits [OF show_nat_digits assms] parse_rest_stop [OF assms]
  have nz: "\<not> (hd (show_nat n) = CHR ''0'' \<and> tl (show_nat n) \<noteq> [])" for n
    using show_nat_no_leading_zero by blast
  show ?thesis
  proof (cases "i < 0")
    case True
    then show ?thesis using nz [of "nat (- i)"] by (simp add: parse_number_def show_int_def tw Let_def)
  next
    case False
    obtain c cs where c: "show_nat (nat i) = c # cs" by (cases "show_nat (nat i)") auto
    have "c \<noteq> CHR ''-''" using hd_show_nat_digit [of "nat i"] c by (auto simp: is_digit_def)
    moreover have "int (digits_value (c # cs)) = i"
      using digits_value_show_nat [of "nat i"] c False by simp
    ultimately show ?thesis using False c nz [of "nat i"] tw(1,2) [of "nat i"] tw(3,4)
      by (simp add: parse_number_def show_int_def Let_def)
  qed
qed

lemma stringify_start:
  assumes "json_plain v"
  obtains c cs where "JSON_stringify v = c # cs" "\<not> json_space c" "c \<notin> {CHR '']'', CHR ''}''}"
proof -
  have "\<exists>c cs. JSON_stringify v = c # cs \<and> \<not> json_space c \<and> c \<notin> {CHR '']'', CHR ''}''}"
  proof (cases v)
    case (JNum i)
    have "is_digit d \<Longrightarrow> \<not> json_space d \<and> d \<notin> {CHR '']'', CHR ''}''}" for d
      by (auto simp: is_digit_def json_space_def)
    moreover obtain d ds where "show_nat (nat i) = d # ds" "is_digit d"
      using hd_show_nat_digit [of "nat i"] by (cases "show_nat (nat i)") auto
    ultimately show ?thesis using JNum by (auto simp: show_int_def json_space_def)
  qed (use assms in \<open>auto simp: quote_def json_space_def\<close>)
  with that show thesis by blast
qed

lemma skip_ws_stringify [simp]:
  assumes "json_plain v"
  shows "skip_ws (JSON_stringify v @ r) = JSON_stringify v @ r"
  using stringify_start [OF assms] by (metis append_Cons dropWhile.simps(2))

lemma skip_ws_quote [simp]: "skip_ws (quote k @ r) = quote k @ r"
  by (simp add: quote_def json_space_def)

lemma skip_ws_delim [simp]:
  "skip_ws (CHR '','' # r) = CHR '','' # r" "skip_ws (CHR '']'' # r) = CHR '']'' # r"
  "skip_ws (CHR ''}'' # r) = CHR ''}'' # r" "skip_ws (CHR '':'' # r) = CHR '':'' # r"
  by (simp_all add: json_space_def)

lemma parse_chars_quote_tl: "parse_chars (tl (quote k @ r)) = Some (k, r)" "hd (quote k) = CHR 0x22"
  by (simp_all add: quote_def)

lemma parse_literal_show_int:
  assumes "stop r"
  shows "parse_value (Suc n) (show_int i @ r) = Some (JNum i, r)"
proof -
  obtain c cs where c: "show_int i = c # cs" "c = CHR ''-'' \<or> is_digit c"
    using hd_show_nat_digit [of "nat i"]
    by (cases "i < 0"; cases "show_nat (nat i)") (auto simp: show_int_def)
  then have "\<not> json_space c" "c \<notin> {CHR 0x22, CHR ''['', CHR ''{'', CHR ''n'', CHR ''t'', CHR ''f''}"
    by (auto simp: json_space_def is_digit_def)
  then have "parse_value (Suc n) (show_int i @ r) = parse_number (show_int i @ r)"
    by (simp add: c parse_literal_def startsWith_def)
  with assms show ?thesis by (simp add: parse_number_show_int)
qed

lemma stringify_elems_start:
  assumes "json_plain v"
  shows "\<exists>c cs. stringify_elems (v # vs) = c # cs \<and> c \<noteq> CHR '']'' \<and> \<not> json_space c"
proof -
  obtain c cs where "JSON_stringify v = c # cs" "\<not> json_space c" "c \<notin> {CHR '']'', CHR ''}''}"
    using assms by (rule stringify_start)
  then show ?thesis by (cases vs) auto
qed

lemma parse_stringify_aux:
  shows "json_plain v \<Longrightarrow> stop r \<Longrightarrow> 2 * length (JSON_stringify v) \<le> n \<Longrightarrow>
      parse_value n (JSON_stringify v @ r) = Some (v, r)"
    and "\<forall>v \<in> set vs. json_plain v \<Longrightarrow> vs \<noteq> [] \<Longrightarrow> 2 * length (stringify_elems vs) < n \<Longrightarrow>
      parse_elems n (stringify_elems vs @ r) = Some (vs, r)"
    and "\<forall>kv \<in> set kvs. json_plain (snd kv) \<Longrightarrow> kvs \<noteq> [] \<Longrightarrow> 2 * length (stringify_members kvs) < n \<Longrightarrow>
      parse_members n (stringify_members kvs @ r) = Some (kvs, r)"
proof (induction v and vs and kvs arbitrary: r n and r n and r n
    rule: JSON_stringify_stringify_elems_stringify_members.induct)
  case 1
  then show ?case by (cases n) (auto simp: json_space_def parse_literal_def startsWith_def)
next
  case (2 b)
  then show ?case by (cases n; cases b) (auto simp: json_space_def parse_literal_def startsWith_def)
next
  case (3 i)
  obtain m where "n = Suc m" using 3 by (cases n) (auto simp: show_int_def split: if_splits)
  with 3 show ?case by (simp add: parse_literal_show_int del: parse_value.simps)
next
  case (5 s)
  then show ?case by (cases n) (auto simp: quote_def json_space_def)
next
  case (6 vs)
  obtain m where n: "n = Suc m" using 6 by (cases n) auto
  show ?case
  proof (cases vs)
    case Nil
    then show ?thesis using n by (simp add: json_space_def startsWith_def)
  next
    case (Cons v vs')
    obtain c cs where c: "stringify_elems vs = c # cs" "c \<noteq> CHR '']''" "\<not> json_space c"
      using stringify_elems_start [of v vs'] 6(2) Cons by auto
    with 6 Cons n show ?thesis by (simp add: json_space_def startsWith_def)
  qed
next
  case (7 kvs)
  obtain m where n: "n = Suc m" using 7 by (cases n) auto
  show ?case
  proof (cases kvs)
    case Nil
    then show ?thesis using n by (simp add: json_space_def startsWith_def)
  next
    case (Cons kv kvs')
    obtain cs where c: "stringify_members kvs = CHR 0x22 # cs"
      using Cons by (cases kvs'; cases kv) (auto simp: quote_def)
    with 7 Cons n show ?thesis by (simp add: json_space_def startsWith_def)
  qed
next
  case (9 v)
  obtain m where "n = Suc m" using 9 by (cases n) auto
  with 9 show ?case by (simp add: json_space_def)
next
  case (10 v v' vs)
  obtain m where "n = Suc m" using 10 by (cases n) auto
  with 10 show ?case by (simp add: json_space_def)
next
  case (12 k v)
  obtain m where "n = Suc m" using 12 by (cases n) auto
  with 12 show ?case by (simp add: quote_def json_space_def)
next
  case (13 k v kv kvs)
  obtain m where "n = Suc m" using 13 by (cases n) auto
  with 13 show ?case by (simp add: quote_def json_space_def)
qed simp_all

lemma JSON_roundtrip: "json_plain v \<Longrightarrow> JSON_parse (JSON_stringify v) = Some v"
  using parse_stringify_aux(1) [of v "[]" "2 * length (JSON_stringify v)"] by (simp add: JSON_parse_def)

end
