(* ===== verification/Json_Pretty.thy ===== *)
theory Json_Pretty
  imports Json
begin

text \<open>
  JSON text with line breaks, as \<^verbatim>\<open>JSON.stringify(value, null, 2)\<close> of \<^verbatim>\<open>web/scripts/assets.mjs\<close> and
  \<^verbatim>\<open>serde_json::to_vec_pretty\<close> of \<^verbatim>\<open>server/src/sandbox_clusters.rs\<close> print it: every element and member on a line of
  its own, two spaces per level, a space after the colon, empty containers without a break.
\<close>

definition line_break :: "nat \<Rightarrow> string" where
  "line_break d = CHR 0x0A # replicate (2 * d) (CHR '' '')"

function (sequential) pretty_value :: "nat \<Rightarrow> json \<Rightarrow> string"
  and pretty_elems :: "nat \<Rightarrow> json list \<Rightarrow> string"
  and pretty_members :: "nat \<Rightarrow> (string \<times> json) list \<Rightarrow> string" where
  "pretty_value d (JArr []) = ''[]''"
| "pretty_value d (JArr vs) = ''['' @ pretty_elems (Suc d) vs @ line_break d @ '']''"
| "pretty_value d (JObj []) = ''{}''"
| "pretty_value d (JObj kvs) = ''{'' @ pretty_members (Suc d) kvs @ line_break d @ ''}''"
| "pretty_value d v = JSON_stringify v"
| "pretty_elems d [] = []"
| "pretty_elems d [v] = line_break d @ pretty_value d v"
| "pretty_elems d (v # vs) = line_break d @ pretty_value d v @ '','' @ pretty_elems d vs"
| "pretty_members d [] = []"
| "pretty_members d [(k, v)] = line_break d @ quote k @ '': '' @ pretty_value d v"
| "pretty_members d ((k, v) # kvs) = line_break d @ quote k @ '': '' @ pretty_value d v @ '','' @ pretty_members d kvs"
  by pat_completeness auto
termination
  by (relation "measure (\<lambda>x. case x of Inl (d, v) \<Rightarrow> size v
    | Inr (Inl (d, vs)) \<Rightarrow> size_list size vs
    | Inr (Inr (d, kvs)) \<Rightarrow> size_list (size_prod (\<lambda>_. 0) size) kvs)") auto

definition JSON_pretty :: "json \<Rightarrow> string" where
  "JSON_pretty v = pretty_value 0 v"

section \<open>The round trip\<close>

lemma skip_line_break [simp]: "skip_ws (line_break d @ r) = skip_ws r"
proof -
  have "\<forall>c \<in> set (line_break d). json_space c" by (auto simp: line_break_def json_space_def)
  then show ?thesis by (simp add: dropWhile_append2)
qed

lemma stop_line_break [simp]: "stop (line_break d @ r)"
  by (simp add: stop_def line_break_def json_space_def)

lemma length_line_break [simp]: "0 < length (line_break d)"
  by (simp add: line_break_def)

lemma parse_value_line_break: "parse_value n (line_break d @ s) = parse_value n s"
  by (cases n) simp_all

lemma parse_value_space: "parse_value n (CHR '' '' # s) = parse_value n s"
  by (cases n) (simp_all add: json_space_def)

lemma parse_elems_line_break: "parse_elems n (line_break d @ s) = parse_elems n s"
  by (cases n) (simp_all add: parse_value_line_break)

lemma parse_members_line_break: "parse_members n (line_break d @ s) = parse_members n s"
  by (cases n) simp_all

lemma pretty_start:
  assumes "json_plain v"
  shows "\<exists>c cs. pretty_value d v = c # cs \<and> \<not> json_space c \<and> c \<notin> {CHR '']'', CHR ''}''}"
proof (cases v)
  case (JArr vs)
  then show ?thesis by (cases vs) (auto simp: json_space_def)
next
  case (JObj kvs)
  then show ?thesis by (cases kvs) (auto simp: json_space_def)
qed (use assms in \<open>metis stringify_start pretty_value.simps\<close>)+

lemma pretty_elems_start:
  assumes "json_plain v"
  shows "\<not> startsWith (skip_ws (pretty_elems d (v # vs) @ r)) '']''"
proof -
  obtain c cs where "pretty_value d v = c # cs" "\<not> json_space c" "c \<noteq> CHR '']''"
    using pretty_start [OF assms, of d] by auto
  then show ?thesis by (cases vs) (auto simp: startsWith_def)
qed

lemma pretty_members_start: "\<not> startsWith (skip_ws (pretty_members d (kv # kvs) @ r)) ''}''"
  by (cases kv; cases kvs) (auto simp: startsWith_def quote_def json_space_def)

lemma parse_pretty_aux:
  shows "json_plain v \<Longrightarrow> stop r \<Longrightarrow> 2 * length (pretty_value d v) \<le> n \<Longrightarrow>
      parse_value n (pretty_value d v @ r) = Some (v, r)"
    and "\<forall>v \<in> set vs. json_plain v \<Longrightarrow> vs \<noteq> [] \<Longrightarrow> 2 * length (pretty_elems d vs) < n \<Longrightarrow>
      parse_elems n (pretty_elems d vs @ line_break e @ CHR '']'' # r) = Some (vs, r)"
    and "\<forall>kv \<in> set kvs. json_plain (snd kv) \<Longrightarrow> kvs \<noteq> [] \<Longrightarrow> 2 * length (pretty_members d kvs) < n \<Longrightarrow>
      parse_members n (pretty_members d kvs @ line_break e @ CHR ''}'' # r) = Some (kvs, r)"
proof (induction d v and d vs and d kvs arbitrary: r n and r n e and r n e
    rule: pretty_value_pretty_elems_pretty_members.induct)
  case (1 d)
  then show ?case by (cases n) (simp_all add: json_space_def startsWith_def)
next
  case (2 d v vs)
  obtain m where n: "n = Suc m" using 2 by (cases n) auto
  have "parse_elems m (pretty_elems (Suc d) (v # vs) @ line_break d @ CHR '']'' # r) = Some (v # vs, r)"
    using 2(2-) n by (intro 2(1)) (auto simp del: pretty_elems.simps)
  then show ?case using n pretty_elems_start [of v "Suc d" vs "line_break d @ CHR '']'' # r"] 2(2)
    by (simp add: json_space_def del: pretty_elems.simps)
next
  case (3 d)
  then show ?case by (cases n) (simp_all add: json_space_def startsWith_def)
next
  case (4 d kv kvs)
  obtain m where n: "n = Suc m" using 4 by (cases n) auto
  have "parse_members m (pretty_members (Suc d) (kv # kvs) @ line_break d @ CHR ''}'' # r) = Some (kv # kvs, r)"
    using 4(2-) n by (intro 4(1)) (auto simp del: pretty_members.simps)
  then show ?case using n pretty_members_start [of "Suc d" kv kvs "line_break d @ CHR ''}'' # r"]
    by (simp add: json_space_def del: pretty_members.simps)
next
  case (7 d v)
  obtain m where "n = Suc m" using 7 by (cases n) auto
  with 7 show ?case by (simp add: parse_value_line_break json_space_def)
next
  case (8 d v v' vs)
  obtain m where "n = Suc m" using 8 by (cases n) auto
  with 8 show ?case by (simp add: parse_value_line_break json_space_def)
next
  case (10 d k v)
  obtain m where "n = Suc m" using 10 by (cases n) auto
  with 10 show ?case by (simp add: parse_value_space quote_def json_space_def)
next
  case (11 d k v kv kvs)
  obtain m where "n = Suc m" using 11 by (cases n) auto
  with 11 show ?case by (simp add: parse_value_space quote_def json_space_def)
qed (auto intro: parse_stringify_aux(1) simp del: JSON_stringify.simps parse_value.simps)

lemma JSON_pretty_roundtrip:
  assumes "json_plain v" "\<forall>c \<in> set t. json_space c"
  shows "JSON_parse (JSON_pretty v @ t) = Some v"
proof -
  have "stop t" using assms(2) by (cases t) (auto simp: stop_def)
  then have "parse_value (2 * length (JSON_pretty v @ t)) (JSON_pretty v @ t) = Some (v, t)"
    unfolding JSON_pretty_def using assms(1) by (intro parse_pretty_aux(1)) simp_all
  moreover have "skip_ws t = []" using assms(2) by simp
  ultimately show ?thesis by (simp add: JSON_parse_def)
qed

end
