(* ===== verification/Api_Types.thy ===== *)
theory Api_Types
  imports Json
begin

text \<open>
  The data of the gateway protocol: \<^verbatim>\<open>web/src/api/types.ts\<close> and the interfaces of
  \<^verbatim>\<open>web/src/api/observability.ts\<close> and \<^verbatim>\<open>web/src/api/files.ts\<close>.  A union of string
  literals is a datatype, an interface is a record whose fields carry a short prefix, an optional
  or nullable field is an \<^typ>\<open>'a option\<close>, \<^verbatim>\<open>Record<string, unknown>\<close> is a list of members.
  A field whose type is a single literal carries no information and is left out.
\<close>

section \<open>Sandboxes and commands (types.ts)\<close>

datatype SandboxState = Creating | Ready | Stopping | Stopped | Failed

record Endpoint =
  ep_host :: string
  ep_port :: int

record SharedBase =
  sb_source :: string
  sb_target :: string
  sb_root_hash :: string
  sb_readonly :: bool

record SandboxRecord =
  rec_id :: string
  rec_workspace_root :: string
  rec_state :: SandboxState
  rec_daemon :: "Endpoint option"
  rec_daemon_http :: "Endpoint option"
  rec_shared_base :: "SharedBase option"
  rec_activity_revision :: "int option"

record SandboxList =
  sl_sandboxes :: "SandboxRecord list"

datatype CommandStatus = Cmd_running | Cmd_ok | Cmd_error | Cmd_timed_out | Cmd_cancelled

record CommandOutput =
  co_status :: CommandStatus
  co_exit_code :: "int option"
  co_wall_time_seconds :: rat
  co_command_total_time_seconds :: rat
  co_start_offset :: nat
  co_end_offset :: nat
  co_total_lines :: nat
  co_original_token_count :: nat
  co_output :: string
  co_command_session_id :: "string option"
  co_workspace_session_id :: "string option"
  co_publish_rejected :: "bool option"
  co_publish_reject_class :: "string option"

datatype NetworkProfile = Shared | Isolated

record WorkspaceSessionCreated =
  wc_workspace_session_id :: string
  wc_network_profile :: NetworkProfile

record WorkspaceSessionDestroyed =
  wd_workspace_session_id :: string
  wd_evicted_upperdir_bytes :: nat

record WorkspaceSessionRevision =
  wr_manifest_version :: nat
  wr_root_hash :: string
  wr_layer_count :: nat

record WorkspaceSessionPublishSummary =
  ps_no_op :: bool
  ps_revision :: WorkspaceSessionRevision
  ps_source_count :: nat
  ps_ignored_count :: nat

record WorkspaceSessionPublished =
  wp_workspace_session_id :: string
  wp_publish :: WorkspaceSessionPublishSummary
  wp_evicted_upperdir_bytes :: nat

section \<open>Observability (observability.ts)\<close>

datatype metric = MNum jsnum | MBool bool | MStr string

record ResourceSample =
  rs_ts :: jsnum
  rs_sample_delta_ms :: "jsnum option"
  rs_metrics :: "(string \<times> metric) list"
  rs_deltas :: "(string \<times> jsnum) list"

record ResourceSeries =
  ser_latest :: "ResourceSample option"
  ser_history :: "ResourceSample list"

record ActiveExecution =
  ae_namespace_execution_id :: string
  ae_operation :: string
  ae_lifecycle_state :: string
  ae_command :: "string option"

datatype WorkspaceFinalizationState = Fin_active | Finalizing | Finalize_failed

record WorkspaceSnapshot =
  ws_workspace_id :: string
  ws_lifecycle_state :: string
  ws_finalization_state :: WorkspaceFinalizationState
  ws_network_profile :: NetworkProfile
  ws_base_root_hash :: string
  ws_layer_count :: nat
  ws_namespace_fd_count :: nat
  ws_resources :: ResourceSeries
  ws_active_namespace_executions :: "ActiveExecution list"

record StackSummary =
  st_layer_count :: nat
  st_layers_bytes :: nat
  st_active_leases :: int

record SandboxSnapshot =
  ss_sandbox_id :: string
  ss_lifecycle_state :: string
  ss_availability :: string
  ss_sampled_at_unix_ms :: int
  ss_errors :: "string list"
  ss_daemon :: "(int \<times> string) option"
  ss_resources :: ResourceSeries
  ss_workspaces :: "WorkspaceSnapshot list"
  ss_stack :: StackSummary

record SnapshotResult =
  snap_sandboxes :: "SandboxSnapshot list"

datatype Availability = Available | Partial

record FleetResourceCurrent =
  frc_availability :: Availability
  frc_errors :: "string list"
  frc_current :: "ResourceSample option"

record FleetResourcesResult =
  frr_availability :: Availability
  frr_errors :: "string list"
  frr_sandboxes :: "(string \<times> FleetResourceCurrent) list"

record DaemonProcessMetrics =
  dm_available :: bool
  dm_error :: "string option"
  dm_sampled_at_unix_ms :: int
  dm_pid :: int
  dm_name :: "string option"
  dm_state :: "string option"
  dm_virtual_memory_bytes :: "int option"
  dm_resident_memory_bytes :: "int option"
  dm_peak_resident_memory_bytes :: "int option"
  dm_proportional_set_size_bytes :: "int option"
  dm_unique_set_size_bytes :: "int option"
  dm_private_dirty_bytes :: "int option"
  dm_anonymous_huge_pages_bytes :: "int option"
  dm_anonymous_memory_bytes :: "int option"
  dm_file_memory_bytes :: "int option"
  dm_shared_memory_bytes :: "int option"
  dm_data_memory_bytes :: "int option"
  dm_swap_bytes :: "int option"
  dm_cpu_time_us :: "int option"
  dm_start_time_ticks :: "int option"
  dm_thread_count :: "int option"
  dm_file_descriptor_count :: "int option"
  dm_io_read_bytes :: "int option"
  dm_io_write_bytes :: "int option"
  dm_read_syscalls :: "int option"
  dm_write_syscalls :: "int option"
  dm_voluntary_context_switches :: "int option"
  dm_involuntary_context_switches :: "int option"
  dm_cgroup_memberships :: "string list"
  dm_cgroup_path :: "string option"
  dm_warnings :: "string list"
  dm_active_commands :: "int option"
  dm_open_workspaces :: "int option"

datatype ProcessKind = Namespace_init | Process

record WorkspaceProcess =
  pr_pid :: int
  pr_namespace_pid :: int
  pr_parent_pid :: int
  pr_name :: string
  pr_state :: string
  pr_kind :: ProcessKind
  pr_cgroup_memberships :: "string list"
  pr_resident_memory_bytes :: "int option"
  pr_cpu_time_us :: "int option"
  pr_start_time_ticks :: "int option"

datatype WorkspaceProcessesState = Wp_active | Wp_idle | Wp_partial

record WorkspaceProcesses =
  wps_workspace_id :: string
  wps_state :: WorkspaceProcessesState
  wps_holder_pid :: int
  wps_pid_namespace :: "string option"
  wps_mount_namespace :: "string option"
  wps_processes :: "WorkspaceProcess list"

record WorkspaceProcessTopology =
  tp_available :: bool
  tp_source :: "string option"
  tp_error :: "string option"
  tp_truncated :: bool
  tp_warnings :: "string list"
  tp_workspaces :: "WorkspaceProcesses list"
  tp_daemon :: "DaemonProcessMetrics option"

record CgroupSeries =
  cg_scope :: string
  cg_series :: "ResourceSample list"
  cg_topology :: WorkspaceProcessTopology

record SandboxResourcesResult =
  srr_sandbox_id :: string
  srr_availability :: Availability
  srr_errors :: "string list"
  srr_series :: "ResourceSample list"

record TraceEvent =
  te_ts :: int
  te_trace :: string
  te_parent :: "string option"
  te_name :: string
  te_attrs :: "(string \<times> json) list"

record TraceSpan =
  sp_ts :: int
  sp_trace :: string
  sp_span :: string
  sp_name :: string
  sp_dur_ms :: "rat option"
  sp_status :: string
  sp_attrs :: "(string \<times> json) list"

record TraceEventNode =
  ten_offset_ms :: rat
  ten_event :: TraceEvent

datatype TraceNode = TraceNode (tn_span: TraceSpan) (tn_offset_ms: rat)
  (tn_children: "TraceNode list") (tn_events: "TraceEventNode list")

record TraceResult =
  tr_trace :: string
  tr_spans :: "TraceNode list"

record StackLayer =
  ly_layer_id :: string
  ly_bytes :: nat
  ly_leased_by_workspaces :: nat
  ly_booked_by :: "string list"

record LayerStackResult =
  ls_manifest_version :: nat
  ls_root_hash :: string
  ls_active_lease_count :: nat
  ls_total_bytes :: nat
  ls_layers :: "StackLayer list"

record LayerStackWorkspaceMount =
  lm_layer_id :: string
  lm_shared_with :: "string list"

record LayerStackWorkspaceResult =
  lw_workspace :: string
  lw_mounts :: "LayerStackWorkspaceMount list"
  lw_upper_bytes :: "nat option"

datatype LayerStackLayerEntryKind = Le_file | Le_directory | Le_symlink | Le_delete | Le_opaque_dir

record LayerStackLayerEntry =
  le_path :: string
  le_kind :: LayerStackLayerEntryKind

record LayerStackLayerResult =
  ll_layer_id :: string
  ll_entries :: "LayerStackLayerEntry list"
  ll_truncated :: bool

definition inFlightCount :: "SandboxSnapshot \<Rightarrow> nat" where
  "inFlightCount snapshot = foldl (\<lambda>total workspace.
     total + length (ws_active_namespace_executions workspace)) 0 (ss_workspaces snapshot)"

section \<open>Files (files.ts)\<close>

datatype FileEntryKind = Kind_file | Kind_directory | Kind_symlink | Kind_other

record FileListEntry =
  fe_name :: string
  fe_kind :: FileEntryKind
  fe_size :: "nat option"

record FileListResult =
  fl_path :: string
  fl_entries :: "FileListEntry list"
  fl_truncated :: bool

record FileReadWindow =
  fw_path :: string
  fw_content :: string
  fw_start_line :: nat
  fw_num_lines :: nat
  fw_total_lines :: nat
  fw_bytes_read :: nat
  fw_total_bytes :: nat
  fw_next_offset :: "nat option"
  fw_truncated :: bool

record BlameRange =
  br_start_line :: int
  br_line_count :: int
  br_owner :: string

record BlameResult =
  bl_path :: string
  bl_ranges :: "BlameRange list"

record WholeFile =
  wf_content :: string
  wf_totalLines :: nat
  wf_totalBytes :: nat

section \<open>Facts about the data\<close>

lemma foldl_add_sum: "foldl (\<lambda>t x. t + f x) (a :: 'a :: comm_monoid_add) xs = a + sum_list (map f xs)"
  by (induction xs arbitrary: a) (auto simp: ac_simps)

lemma sum_list_pos_iff: "0 < (\<Sum>x \<leftarrow> xs. f x :: nat) \<longleftrightarrow> (\<exists>x \<in> set xs. 0 < f x)"
  by (induction xs) auto

lemma inFlightCount_sum:
  "inFlightCount s = (\<Sum>w \<leftarrow> ss_workspaces s. length (ws_active_namespace_executions w))"
  by (simp add: inFlightCount_def foldl_add_sum)

lemma inFlightCount_pos_iff:
  "0 < inFlightCount s \<longleftrightarrow> (\<exists>w \<in> set (ss_workspaces s). ws_active_namespace_executions w \<noteq> [])"
  by (simp add: inFlightCount_sum sum_list_pos_iff)

end
