(* ===== verification/Rpc.thy ===== *)
theory Rpc
  imports Api_Types
begin

text \<open>
  The client of the console server: \<^verbatim>\<open>web/src/api/rpc.ts\<close> and \<^verbatim>\<open>web/src/api/http.ts\<close>.
  What \<^verbatim>\<open>fetch\<close> answers to a request is the parameter \<open>fetch\<close>, a function from requests to
  outcomes; a rejected promise is an \<^term>\<open>Inl\<close>.  A streamed body is the list of reads its reader
  gives, already decoded (a streaming \<^verbatim>\<open>TextDecoder\<close> holds an incomplete code point back, so
  the decoded pieces concatenate to the decoded body).  \<open>sse_event\<close> is the server's side of the
  stream (\<^verbatim>\<open>server/src/rpc.rs\<close>).
\<close>

section \<open>Values of parsed bodies\<close>

fun js_string :: "json \<Rightarrow> string" where
  "js_string JNull = ''null''"
| "js_string (JBool b) = (if b then ''true'' else ''false'')"
| "js_string (JNum i) = show_int i"
| "js_string (JDec s) = s"
| "js_string (JStr s) = s"
| "js_string (JArr vs) = join '','' (map (\<lambda>v. if v = JNull then [] else js_string v) vs)"
| "js_string (JObj _) = ''[object Object]''"

definition dec_zero :: "string \<Rightarrow> bool" where
  "dec_zero s = (\<forall>c \<in> set (takeWhile (\<lambda>c. c \<noteq> CHR ''e'' \<and> c \<noteq> CHR ''E'') s).
     c \<in> {CHR ''0'', CHR ''.'', CHR ''-''})"

fun truthy :: "json \<Rightarrow> bool" where
  "truthy JNull = False"
| "truthy (JBool b) = b"
| "truthy (JNum i) = (i \<noteq> 0)"
| "truthy (JDec s) = (\<not> dec_zero s)"
| "truthy (JStr s) = (s \<noteq> [])"
| "truthy (JArr _) = True"
| "truthy (JObj _) = True"

fun js_prop :: "json \<Rightarrow> string \<Rightarrow> json option" where
  "js_prop (JObj kvs) k = obj_get k kvs"
| "js_prop _ k = None"

text \<open>\<^verbatim>\<open>v?.k\<close> and \<^verbatim>\<open>v ?? d\<close>.\<close>

definition opt_prop :: "json option \<Rightarrow> string \<Rightarrow> json option" where
  "opt_prop v k = Option.bind v (\<lambda>w. js_prop w k)"

definition nullish :: "json option \<Rightarrow> json \<Rightarrow> json" where
  "nullish v d = (case v of None \<Rightarrow> d | Some JNull \<Rightarrow> d | Some w \<Rightarrow> w)"

section \<open>Requests and errors\<close>

datatype Scope = System | Sandbox string

definition systemScope :: Scope where
  "systemScope = System"

definition sandboxScope :: "string \<Rightarrow> Scope" where
  "sandboxScope sandboxId = Sandbox sandboxId"

fun scope_json :: "Scope \<Rightarrow> json" where
  "scope_json System = JObj [(''kind'', JStr ''system'')]"
| "scope_json (Sandbox i) = JObj [(''kind'', JStr ''sandbox''), (''sandbox_id'', JStr i)]"

record RpcError =
  err_message :: string
  err_kind :: json
  err_details :: json
  err_transport :: bool
  err_status :: "nat option"

text \<open>The constructor: \<^verbatim>\<open>Error(message)\<close> converts the message to a string.\<close>

definition new_RpcError :: "json \<Rightarrow> json \<Rightarrow> json option \<Rightarrow> bool \<Rightarrow> nat option \<Rightarrow> RpcError" where
  "new_RpcError kind message details transport status =
     \<lparr>err_message = js_string message, err_kind = kind, err_details = nullish details (JObj []),
      err_transport = transport, err_status = status\<rparr>"

datatype rejection = Rejected_rpc RpcError | Rejected_syntax | Rejected_type | Rejected_read string

text \<open>What a \<^verbatim>\<open>catch\<close> receives: an \<^verbatim>\<open>RpcError\<close>, another \<^verbatim>\<open>Error\<close>, or any value as text.\<close>

datatype thrown = Thrown_rpc RpcError | Thrown_error string | Thrown_value string

fun thrown_message :: "thrown \<Rightarrow> string" where
  "thrown_message (Thrown_rpc e) = err_message e"
| "thrown_message (Thrown_error m) = m"
| "thrown_message (Thrown_value s) = s"

record http_request =
  rq_url :: string
  rq_method :: string
  rq_headers :: "(string \<times> string) list"
  rq_body :: string

datatype read_result = Chunk string | ReadFails string

record http_response =
  rsp_status :: nat
  rsp_text :: "string option"
  rsp_body :: "read_result list option"

datatype fetch_outcome = FetchFails string | Responded http_response

definition rsp_ok :: "http_response \<Rightarrow> bool" where
  "rsp_ok r = (200 \<le> rsp_status r \<and> rsp_status r \<le> 299)"

text \<open>\<^verbatim>\<open>response.json().catch(() => null)\<close>.\<close>

definition rsp_json :: "http_response \<Rightarrow> json" where
  "rsp_json r = (case rsp_text r of None \<Rightarrow> JNull
     | Some t \<Rightarrow> (case JSON_parse t of None \<Rightarrow> JNull | Some v \<Rightarrow> v))"

definition network_error :: "string \<Rightarrow> RpcError" where
  "network_error e = new_RpcError (JStr ''network_error'')
     (JStr (''console unreachable: '' @ e)) None True None"

definition status_error :: "json \<Rightarrow> nat \<Rightarrow> RpcError" where
  "status_error body status = (let e = js_prop body ''error'' in
     new_RpcError (nullish (opt_prop e ''kind'') (JStr ''transport_error''))
       (nullish (opt_prop e ''message'') (JStr (''console answered HTTP '' @ show_nat status)))
       (opt_prop e ''details'') True (Some status))"

definition protocolError :: "json \<Rightarrow> RpcError" where
  "protocolError body = (let e = js_prop body ''error'' in
     new_RpcError (nullish (opt_prop e ''kind'') (JStr ''unknown_error''))
       (nullish (opt_prop e ''message'') (JStr ''operation failed''))
       (opt_prop e ''details'') False None)"

definition has_error :: "json \<Rightarrow> bool" where
  "has_error body = (case js_prop body ''error'' of None \<Rightarrow> False | Some e \<Rightarrow> truthy e)"

definition rpc_request :: "string \<Rightarrow> Scope \<Rightarrow> (string \<times> json) list \<Rightarrow> bool \<Rightarrow> http_request" where
  "rpc_request op scope args stream =
     \<lparr>rq_url = ''/api/rpc'', rq_method = ''POST'',
      rq_headers = (''content-type'', ''application/json'') #
        (if stream then [(''accept'', ''text/event-stream'')] else []),
      rq_body = JSON_stringify (JObj [(''op'', JStr op), (''scope'', scope_json scope),
        (''args'', JObj args)])\<rparr>"

definition settle :: "fetch_outcome \<Rightarrow> RpcError + json" where
  "settle out = (case out of
     FetchFails e \<Rightarrow> Inl (network_error e)
   | Responded r \<Rightarrow> (let body = rsp_json r in
       if \<not> rsp_ok r then Inl (status_error body (rsp_status r))
       else if has_error body then Inl (protocolError body)
       else Inr body))"

definition rpc :: "(http_request \<Rightarrow> fetch_outcome) \<Rightarrow> string \<Rightarrow> Scope \<Rightarrow> (string \<times> json) list \<Rightarrow> RpcError + json" where
  "rpc fetch op scope args = settle (fetch (rpc_request op scope args False))"

definition postJson :: "(http_request \<Rightarrow> fetch_outcome) \<Rightarrow> string \<Rightarrow> (string \<times> json) list \<Rightarrow> RpcError + json" where
  "postJson fetch url args = settle (fetch
     \<lparr>rq_url = url, rq_method = ''POST'', rq_headers = [(''content-type'', ''application/json'')],
      rq_body = JSON_stringify (JObj args)\<rparr>)"

definition startGateway :: "(http_request \<Rightarrow> fetch_outcome) \<Rightarrow> RpcError + json" where
  "startGateway fetch = postJson fetch ''/api/gateway/start'' []"

section \<open>Event streams\<close>

record SseEvent =
  sse_name :: string
  sse_data :: string

definition sse_line :: "string \<times> string list \<Rightarrow> string \<Rightarrow> string \<times> string list" where
  "sse_line = (\<lambda>(ev, dataLines) line.
     if startsWith line ''event:'' then (trim (drop 6 line), dataLines)
     else if startsWith line ''data:'' then (ev, dataLines @ [trim (drop 5 line)])
     else (ev, dataLines))"

definition parseSseChunk :: "string \<Rightarrow> SseEvent option" where
  "parseSseChunk chunk = (case foldl sse_line (''message'', []) (split_on newline chunk) of
     (ev, dataLines) \<Rightarrow> if dataLines = [] then None
       else Some \<lparr>sse_name = ev, sse_data = join [newline] dataLines\<rparr>)"

text \<open>The text before and after the first blank line (\<^verbatim>\<open>indexOf\<close> and the two slices).\<close>

fun cut_event :: "string \<Rightarrow> (string \<times> string) option" where
  "cut_event (a # b # s) = (if a = newline \<and> b = newline then Some ([], s)
     else map_option (apfst (Cons a)) (cut_event (b # s)))"
| "cut_event _ = None"

datatype event_step = Next_event | Log_line json | Settled "rejection + json"

definition stream_event :: "SseEvent option \<Rightarrow> event_step" where
  "stream_event parsed = (case parsed of None \<Rightarrow> Next_event
   | Some p \<Rightarrow>
       if sse_name p = ''log'' then
         (case JSON_parse (sse_data p) of None \<Rightarrow> Settled (Inl Rejected_syntax)
          | Some JNull \<Rightarrow> Settled (Inl Rejected_type)
          | Some v \<Rightarrow> Log_line (nullish (js_prop v ''line'') (JStr [])))
       else if sse_name p = ''error'' then
         (case JSON_parse (sse_data p) of None \<Rightarrow> Settled (Inl Rejected_syntax)
          | Some JNull \<Rightarrow> Settled (Inl Rejected_type)
          | Some v \<Rightarrow> Settled (Inl (Rejected_rpc (new_RpcError
              (nullish (js_prop v ''kind'') (JStr ''transport_error''))
              (nullish (js_prop v ''message'') (JStr ''gateway stream failed'')) None True None))))
       else if sse_name p = ''result'' then
         (case JSON_parse (sse_data p) of None \<Rightarrow> Settled (Inl Rejected_syntax)
          | Some v \<Rightarrow> if has_error v then Settled (Inl (Rejected_rpc (protocolError v)))
                     else Settled (Inr v))
       else Next_event)"

lemma cut_event_shorter: "cut_event s = Some (c, r) \<Longrightarrow> length r < length s"
  by (induction s arbitrary: c r rule: cut_event.induct) (fastforce split: if_splits)+

text \<open>
  The inner loop over the events in the buffer: the lines passed to \<^verbatim>\<open>onLog\<close>, and either the
  rest of the buffer or the settled result.
\<close>

function drain :: "string \<Rightarrow> json list \<times> (string + (rejection + json))" where
  "drain buffer = (case cut_event buffer of
     None \<Rightarrow> ([], Inl buffer)
   | Some (chunk, rest) \<Rightarrow> (case stream_event (parseSseChunk chunk) of
       Next_event \<Rightarrow> drain rest
     | Log_line l \<Rightarrow> (case drain rest of (logs, x) \<Rightarrow> (l # logs, x))
     | Settled r \<Rightarrow> ([], Inr r)))"
  by pat_completeness auto
termination
  by (relation "measure length") (auto dest: cut_event_shorter)

declare drain.simps [simp del]

definition stream_ended :: RpcError where
  "stream_ended = new_RpcError (JStr ''transport_error'')
     (JStr ''stream ended without a result event'') None True None"

fun stream_loop :: "string \<Rightarrow> read_result list \<Rightarrow> json list \<times> (rejection + json)" where
  "stream_loop buffer [] = ([], Inl (Rejected_rpc stream_ended))"
| "stream_loop buffer (ReadFails e # _) = ([], Inl (Rejected_read e))"
| "stream_loop buffer (Chunk c # reads) = (case drain (buffer @ c) of
     (logs, Inr r) \<Rightarrow> (logs, r)
   | (logs, Inl buffer') \<Rightarrow> (case stream_loop buffer' reads of (ls, x) \<Rightarrow> (logs @ ls, x)))"

definition rpcStream :: "(http_request \<Rightarrow> fetch_outcome) \<Rightarrow> string \<Rightarrow> Scope \<Rightarrow> (string \<times> json) list
    \<Rightarrow> json list \<times> (rejection + json)" where
  "rpcStream fetch op scope args = (case fetch (rpc_request op scope args True) of
     FetchFails e \<Rightarrow> ([], Inl (Rejected_rpc (network_error e)))
   | Responded r \<Rightarrow> (case rsp_body r of
       None \<Rightarrow> ([], Inl (Rejected_rpc (status_error (rsp_json r) (rsp_status r))))
     | Some reads \<Rightarrow>
         if \<not> rsp_ok r then ([], Inl (Rejected_rpc (status_error (rsp_json r) (rsp_status r))))
         else stream_loop [] reads))"

text \<open>The server's writer.\<close>

definition sse_event :: "string \<Rightarrow> json \<Rightarrow> string" where
  "sse_event ev data = ''event: '' @ ev @ [newline] @ ''data: '' @ JSON_stringify data @ [newline, newline]"

definition server_stream :: "string list \<Rightarrow> (string \<times> string) + json \<Rightarrow> string" where
  "server_stream lines result =
     concat (map (\<lambda>line. sse_event ''log'' (JObj [(''line'', JStr line)])) lines) @
     (case result of
        Inr body \<Rightarrow> sse_event ''result'' body
      | Inl (kind, message) \<Rightarrow>
          sse_event ''error'' (JObj [(''kind'', JStr kind), (''message'', JStr message)]))"

section \<open>The stream does not depend on how it is cut\<close>

lemma cut_event_append: "cut_event p = Some (c, r) \<Longrightarrow> cut_event (p @ s) = Some (c, r @ s)"
  by (induction p arbitrary: c r rule: cut_event.induct) (auto split: if_splits)

lemma drain_append:
  "drain (p @ s) = (case drain p of
     (logs, Inr r) \<Rightarrow> (logs, Inr r)
   | (logs, Inl b) \<Rightarrow> (case drain (b @ s) of (ls, x) \<Rightarrow> (logs @ ls, x)))"
proof (induction p rule: drain.induct)
  case (1 p)
  show ?case
  proof (cases "cut_event p")
    case None
    then show ?thesis by (cases "drain (p @ s)") (simp add: drain.simps [of p])
  next
    case (Some cr)
    obtain c r where cr: "cut_event p = Some (c, r)" using Some by (cases cr) auto
    show ?thesis
      using 1 cr by (cases "stream_event (parseSseChunk c)")
        (auto simp: drain.simps [of p] drain.simps [of "p @ s"] cut_event_append
          split: prod.splits sum.splits)
  qed
qed

lemma drain_remainder: "drain p = (logs, Inl b) \<Longrightarrow> drain b = ([], Inl b)"
proof (induction p arbitrary: logs rule: drain.induct)
  case (1 p)
  show ?case
  proof (cases "cut_event p")
    case None
    then show ?thesis using 1 by (auto simp: drain.simps [of p] drain.simps [of b])
  next
    case (Some cr)
    obtain c r where cr: "cut_event p = Some (c, r)" using Some by (cases cr) auto
    show ?thesis
      using 1 cr by (cases "stream_event (parseSseChunk c)")
        (auto simp: drain.simps [of p] split: prod.splits)
  qed
qed

lemma stream_loop_chunks:
  "drain buffer = ([], Inl buffer) \<Longrightarrow>
   stream_loop buffer (map Chunk cs) = (case drain (buffer @ concat cs) of
     (logs, Inr r) \<Rightarrow> (logs, r)
   | (logs, Inl _) \<Rightarrow> (logs, Inl (Rejected_rpc stream_ended)))"
proof (induction cs arbitrary: buffer)
  case (Cons c cs)
  show ?case
  proof (cases "drain (buffer @ c)")
    case (Pair logs res)
    show ?thesis
    proof (cases res)
      case (Inl b)
      with Pair have "drain b = ([], Inl b)" by (auto dest: drain_remainder)
      with Cons.IH [of b] Inl Pair show ?thesis
        by (simp add: drain_append [of "buffer @ c" "concat cs", simplified]
            split: prod.splits sum.splits)
    next
      case (Inr r)
      with Pair show ?thesis
        by (simp add: drain_append [of "buffer @ c" "concat cs", simplified])
    qed
  qed
qed (auto split: prod.splits sum.splits)

lemma drain_Nil [simp]: "drain [] = ([], Inl [])"
  by (simp add: drain.simps)

section \<open>The server's stream is read back\<close>

lemma cut_event_lines:
  assumes "newline \<notin> set w" "w \<noteq> []"
  shows "newline \<notin> set u \<Longrightarrow> cut_event (u @ newline # w @ newline # newline # s) = Some (u @ newline # w, s)"
proof -
  have w: "cut_event (w @ newline # newline # s) = Some (w, s)"
    using assms
  proof (induction w)
    case (Cons c w)
    then show ?case by (cases w) auto
  qed simp
  show "newline \<notin> set u \<Longrightarrow> cut_event (u @ newline # w @ newline # newline # s) = Some (u @ newline # w, s)"
  proof (induction u)
    case Nil
    then show ?case using assms w by (cases w) auto
  next
    case (Cons c u)
    then show ?case by (cases u) auto
  qed
qed

lemma hex_char_not_newline: "n < 16 \<Longrightarrow> hex_char n \<noteq> newline"
  using hex_value_hex_char [of n] by (auto simp: hex_value_def)

lemma newline_not_escape: "newline \<notin> set (escape_char c)"
proof -
  have "(of_char c :: nat) = 10" if "c = newline" using that by simp
  moreover have "newline \<noteq> hex_char (of_char c div 16)" "newline \<noteq> hex_char (of_char c mod 16)"
    if "(of_char c :: nat) < 32"
    using that hex_char_not_newline [of "of_char c div 16"] hex_char_not_newline [of "of_char c mod 16"]
    by fastforce+
  ultimately show ?thesis by (auto simp: escape_char_def Let_def)
qed

lemma newline_not_quote: "newline \<notin> set (quote s)"
  using newline_not_escape by (auto simp: quote_def)

lemma newline_not_show_int: "newline \<notin> set (show_int i)"
proof -
  have "newline \<notin> set (show_nat n)" for n
    using show_nat_digits [of n] by (auto simp: is_digit_def)
  then show ?thesis by (simp add: show_int_def)
qed

lemma newline_not_stringify:
  "json_plain v \<Longrightarrow> newline \<notin> set (JSON_stringify v)"
  "\<forall>v \<in> set vs. json_plain v \<Longrightarrow> newline \<notin> set (stringify_elems vs)"
  "\<forall>kv \<in> set kvs. json_plain (snd kv) \<Longrightarrow> newline \<notin> set (stringify_members kvs)"
  by (induction v and vs and kvs rule: JSON_stringify_stringify_elems_stringify_members.induct)
    (auto simp: newline_not_quote newline_not_show_int)

lemma last_stringify_elems: "stringify_elems vs \<noteq> [] \<and> last (stringify_elems vs) = CHR '']''"
proof (induction vs)
  case (Cons v vs)
  then show ?case by (cases vs) auto
qed simp

lemma last_stringify_members: "stringify_members kvs \<noteq> [] \<and> last (stringify_members kvs) = CHR ''}''"
proof (induction kvs)
  case (Cons kv kvs)
  then show ?case by (cases kv; cases kvs) auto
qed simp

lemma show_nat_ends: "is_digit (hd (show_nat n))" "is_digit (last (show_nat n))"
  using show_nat_digits [of n] hd_in_set [OF show_nat_neq_Nil] last_in_set [OF show_nat_neq_Nil] by blast+

lemma stringify_ends:
  assumes "json_plain v"
  shows "JSON_stringify v \<noteq> [] \<and> \<not> is_space (hd (JSON_stringify v)) \<and> \<not> is_space (last (JSON_stringify v))"
proof (cases v)
  case (JNum i)
  have "is_digit c \<Longrightarrow> \<not> is_space c" for c by (auto simp: is_digit_def is_space_def)
  then show ?thesis using JNum show_nat_ends by (auto simp: show_int_def is_space_def)
qed (use assms last_stringify_elems last_stringify_members in
    \<open>auto simp: quote_def is_space_def\<close>)

lemma dropWhile_hd: "s \<noteq> [] \<Longrightarrow> \<not> P (hd s) \<Longrightarrow> dropWhile P s = s"
  by (cases s) auto

lemma trim_padded:
  assumes "s \<noteq> []" "\<not> is_space (hd s)" "\<not> is_space (last s)"
  shows "trim (CHR '' '' # s) = s"
proof -
  have "dropWhile is_space (CHR '' '' # s) = s"
    using assms by (simp add: dropWhile_hd is_space_def [of "CHR '' ''"])
  moreover have "dropWhile is_space (rev s) = rev s"
    using assms by (simp add: dropWhile_hd hd_rev)
  ultimately show ?thesis by (simp add: trim_def)
qed

lemma parseSseChunk_event:
  assumes "json_plain v" "newline \<notin> set ev" "ev \<noteq> []" "\<not> is_space (hd ev)" "\<not> is_space (last ev)"
  shows "parseSseChunk (''event: '' @ ev @ newline # ''data: '' @ JSON_stringify v) =
    Some \<lparr>sse_name = ev, sse_data = JSON_stringify v\<rparr>"
proof -
  have "split_on newline ((''event: '' @ ev) @ newline # ''data: '' @ JSON_stringify v) =
      [''event: '' @ ev, ''data: '' @ JSON_stringify v]"
    using assms newline_not_stringify(1) by (subst split_on_append) (auto simp: split_on_no_sep)
  then show ?thesis
    using assms stringify_ends [of v] by (simp add: parseSseChunk_def sse_line_def startsWith_def trim_padded)
qed

lemma drain_sse_event:
  assumes "json_plain v" "newline \<notin> set ev" "ev \<noteq> []" "\<not> is_space (hd ev)" "\<not> is_space (last ev)"
  shows "drain (sse_event ev v @ s) = (case stream_event (Some \<lparr>sse_name = ev, sse_data = JSON_stringify v\<rparr>) of
       Next_event \<Rightarrow> drain s
     | Log_line l \<Rightarrow> (case drain s of (logs, x) \<Rightarrow> (l # logs, x))
     | Settled r \<Rightarrow> ([], Inr r))"
proof -
  have "cut_event ((''event: '' @ ev) @ newline # (''data: '' @ JSON_stringify v) @ newline # newline # s) =
      Some ((''event: '' @ ev) @ newline # ''data: '' @ JSON_stringify v, s)"
    using assms newline_not_stringify(1) by (intro cut_event_lines) auto
  then show ?thesis using parseSseChunk_event [OF assms]
    by (subst drain.simps) (simp add: sse_event_def)
qed

lemma drain_log_lines:
  "drain (concat (map (\<lambda>line. sse_event ''log'' (JObj [(''line'', JStr line)])) lines) @ s) =
     (case drain s of (logs, x) \<Rightarrow> (map JStr lines @ logs, x))"
proof (induction lines)
  case (Cons l lines)
  then show ?case
    by (simp add: drain_sse_event is_space_def stream_event_def JSON_roundtrip obj_get_def nullish_def
        del: JSON_stringify.simps split: prod.splits)
qed (simp split: prod.splits)

lemma drain_server_stream_result:
  assumes "json_plain v"
  shows "drain (server_stream lines (Inr v)) = (map JStr lines,
    Inr (if has_error v then Inl (Rejected_rpc (protocolError v)) else Inr v))"
  using assms by (simp add: server_stream_def drain_log_lines
      drain_sse_event [of _ _ "[]", simplified] is_space_def stream_event_def JSON_roundtrip
      del: JSON_stringify.simps)

lemma drain_server_stream_error:
  "drain (server_stream lines (Inl (kind, message))) = (map JStr lines,
    Inr (Inl (Rejected_rpc (new_RpcError (JStr kind) (JStr message) None True None))))"
  by (simp add: server_stream_def drain_log_lines drain_sse_event [of _ _ "[]", simplified]
      is_space_def stream_event_def JSON_roundtrip obj_get_def nullish_def
      del: JSON_stringify.simps)

section \<open>Properties\<close>

text \<open>
  C1: The client reads back what the server's stream writer sends, however the network cuts the
  bytes into chunks: the progress lines reach \<^verbatim>\<open>onLog\<close> in order and exactly once, and the
  promise settles with the result body, with the protocol error a body carries, or with the
  transport error of the server's terminal \<^verbatim>\<open>error\<close> event.
\<close>

theorem rpcStream_reads_server_stream:
  assumes "fetch (rpc_request op scope args True) = Responded r" "rsp_ok r"
    and "rsp_body r = Some (map Chunk cs)"
    and "concat cs = server_stream lines result"
    and "case result of Inr v \<Rightarrow> json_plain v | Inl _ \<Rightarrow> True"
  shows "rpcStream fetch op scope args = (map JStr lines, (case result of
     Inr v \<Rightarrow> (if has_error v then Inl (Rejected_rpc (protocolError v)) else Inr v)
   | Inl (kind, message) \<Rightarrow>
       Inl (Rejected_rpc (new_RpcError (JStr kind) (JStr message) None True None))))"
  using assms drain_server_stream_result drain_server_stream_error
  by (auto simp: rpcStream_def stream_loop_chunks split: sum.splits)

theorem rpcStream_reads_server_stream_witness:
  "let body = server_stream [''pull''] (Inr (JObj [(''id'', JStr ''s1'')]));
       fetch = (\<lambda>_. Responded \<lparr>rsp_status = 200, rsp_text = None,
         rsp_body = Some (map Chunk [take 9 body, drop 9 body])\<rparr>)
   in rpcStream fetch ''create_sandbox'' System [] =
     ([JStr ''pull''], Inr (JObj [(''id'', JStr ''s1'')]))"
  using rpcStream_reads_server_stream [where fetch = "\<lambda>_. Responded \<lparr>rsp_status = 200, rsp_text = None,
      rsp_body = Some (map Chunk [take 9 (server_stream [''pull''] (Inr (JObj [(''id'', JStr ''s1'')]))),
        drop 9 (server_stream [''pull''] (Inr (JObj [(''id'', JStr ''s1'')])))])\<rparr>"
      and op = "''create_sandbox''" and scope = System and args = "[]" and lines = "[''pull'']"
      and result = "Inr (JObj [(''id'', JStr ''s1'')])"
      and cs = "[take 9 (server_stream [''pull''] (Inr (JObj [(''id'', JStr ''s1'')]))),
        drop 9 (server_stream [''pull''] (Inr (JObj [(''id'', JStr ''s1'')])))]"]
  by (simp add: rsp_ok_def has_error_def obj_get_def)

text \<open>
  On any body at all, malformed ones included, the lines logged and the way the promise
  settles depend only on the concatenated text of a stream, not on the sizes of its chunks.
\<close>

lemma rpcStream_chunking:
  assumes "fetch (rpc_request op scope args True) = Responded r"
    and "fetch' (rpc_request op scope args True) = Responded r'"
    and "rsp_ok r" "rsp_ok r'"
    and "rsp_body r = Some (map Chunk cs)" "rsp_body r' = Some (map Chunk ds)"
    and "concat cs = concat ds"
  shows "rpcStream fetch op scope args = rpcStream fetch' op scope args"
  using assms by (simp add: rpcStream_def stream_loop_chunks)

lemma rpcStream_chunking_witness:
  "rpcStream (\<lambda>_. Responded \<lparr>rsp_status = 200, rsp_text = None, rsp_body = Some [Chunk ''event'', Chunk '': x'']\<rparr>) ''op'' System [] =
   rpcStream (\<lambda>_. Responded \<lparr>rsp_status = 200, rsp_text = None, rsp_body = Some [Chunk ''ev'', Chunk ''ent: x'']\<rparr>) ''op'' System []"
  using rpcStream_chunking [where op = "''op''" and scope = System and args = "[]"
      and fetch = "\<lambda>_. Responded \<lparr>rsp_status = 200, rsp_text = None, rsp_body = Some [Chunk ''event'', Chunk '': x'']\<rparr>"
      and fetch' = "\<lambda>_. Responded \<lparr>rsp_status = 200, rsp_text = None, rsp_body = Some [Chunk ''ev'', Chunk ''ent: x'']\<rparr>"
      and cs = "[''event'', '': x'']" and ds = "[''ev'', ''ent: x'']"]
  by (simp add: rsp_ok_def)


end
