(* ===== verification/Js_Number.thy ===== *)
theory Js_Number
  imports Prelude
begin

text \<open>
  \<^verbatim>\<open>Number(text)\<close>, \<^verbatim>\<open>toFixed\<close> and \<^verbatim>\<open>Math.round\<close> of ECMAScript, and the display formats of
  \<^verbatim>\<open>web/src/lib/format.ts\<close> built on them.  A finite value is exact; a magnitude that rounds above the
  largest double is an infinity, as in the language.
\<close>

section \<open>Number(text)\<close>

definition max_double_bound :: rat where
  "max_double_bound = 2 ^ 1024 - 2 ^ 970"

definition double_range :: "rat \<Rightarrow> jsnum" where
  "double_range q = (if max_double_bound \<le> q then PosInf else if q \<le> - max_double_bound then NegInf else Fin q)"

definition digits_rat :: "string \<Rightarrow> rat" where
  "digits_rat ds = of_nat (digits_value ds)"

text \<open>A decimal literal without sign: digits, optional fraction, optional exponent.\<close>

definition exponent_part :: "string \<Rightarrow> int option" where
  "exponent_part s = (case s of [] \<Rightarrow> Some 0
     | e # r \<Rightarrow> if e \<noteq> CHR ''e'' \<and> e \<noteq> CHR ''E'' then None
         else (let (neg, ds) = (case r of x # xs \<Rightarrow> if x = CHR ''-'' then (True, xs)
                   else if x = CHR ''+'' then (False, xs) else (False, r) | [] \<Rightarrow> (False, []))
               in if ds = [] \<or> (\<exists>c \<in> set ds. \<not> is_digit c) then None
                  else Some (if neg then - int (digits_value ds) else int (digits_value ds))))"

definition scale10 :: "rat \<Rightarrow> int \<Rightarrow> rat" where
  "scale10 q e = (if 0 \<le> e then q * 10 ^ nat e else q / 10 ^ nat (- e))"

definition unsigned_decimal :: "string \<Rightarrow> rat option" where
  "unsigned_decimal s =
     (let ip = takeWhile is_digit s; r = dropWhile is_digit s;
          (fp, r') = (case r of c # cs \<Rightarrow> if c = CHR ''.'' then (takeWhile is_digit cs, dropWhile is_digit cs) else ([], r)
            | [] \<Rightarrow> ([], []))
      in if ip = [] \<and> fp = [] then None
         else map_option (scale10 (digits_rat ip + digits_rat fp / 10 ^ length fp)) (exponent_part r'))"

definition digit_in_base :: "nat \<Rightarrow> char \<Rightarrow> nat option" where
  "digit_in_base b c = (let n = of_char c :: nat;
       v = (if 48 \<le> n \<and> n \<le> 57 then n - 48 else if 97 \<le> n \<and> n \<le> 102 then n - 87
            else if 65 \<le> n \<and> n \<le> 70 then n - 55 else 99)
     in if v < b then Some v else None)"

fun based_value :: "nat \<Rightarrow> nat \<Rightarrow> string \<Rightarrow> nat option" where
  "based_value b acc [] = Some acc"
| "based_value b acc (c # cs) = (case digit_in_base b c of None \<Rightarrow> None | Some d \<Rightarrow> based_value b (acc * b + d) cs)"

definition based_literal :: "string \<Rightarrow> jsnum option" where
  "based_literal s = (case s of
     z # p # ds \<Rightarrow>
       if z \<noteq> CHR ''0'' then None
       else (let b = (if p \<in> {CHR ''x'', CHR ''X''} then 16 else if p \<in> {CHR ''o'', CHR ''O''} then 8
                      else if p \<in> {CHR ''b'', CHR ''B''} then 2 else 0)
             in if b = 0 then None
                else Some (if ds = [] then NaN else (case based_value b 0 ds of None \<Rightarrow> NaN
                  | Some n \<Rightarrow> double_range (of_nat n))))
   | _ \<Rightarrow> None)"

definition js_Number :: "string \<Rightarrow> jsnum" where
  "js_Number text =
     (let s = trim text in
      if s = [] then Fin 0
      else (case based_literal s of Some v \<Rightarrow> v
        | None \<Rightarrow>
            (let (neg, u) = (if startsWith s ''-'' then (True, tl s) else if startsWith s ''+'' then (False, tl s) else (False, s))
             in if u = ''Infinity'' then (if neg then NegInf else PosInf)
                else (case unsigned_decimal u of None \<Rightarrow> NaN
                  | Some q \<Rightarrow> double_range (if neg then - q else q)))))"

text \<open>\<^verbatim>\<open>Number.isInteger(n)\<close> as a conversion.\<close>

fun to_integer :: "jsnum \<Rightarrow> int option" where
  "to_integer (Fin q) = (if of_int (floor q) = q then Some (floor q) else None)"
| "to_integer _ = None"

section \<open>Rounding\<close>

definition math_round :: "rat \<Rightarrow> int" where
  "math_round q = floor (q + 1 / 2)"

definition pad_left :: "nat \<Rightarrow> string \<Rightarrow> string" where
  "pad_left n s = replicate (n - length s) (CHR ''0'') @ s"

text \<open>\<^verbatim>\<open>q.toFixed(d)\<close> for a number that is not negative.\<close>

definition toFixed :: "nat \<Rightarrow> rat \<Rightarrow> string" where
  "toFixed d q =
     (let n = nat (floor (q * 10 ^ d + 1 / 2)); s = pad_left (Suc d) (show_nat n)
      in if d = 0 then show_nat n
         else take (length s - d) s @ ''.'' @ drop (length s - d) s)"

section \<open>Display formats (format.ts)\<close>

definition dash :: string where
  "dash = [CHR 0xE2, CHR 0x80, CHR 0x93]"

text \<open>
  The text of a byte count below 1024: \<^verbatim>\<open>${bytes}\<close>.  Counts are integers; \<open>show\<close> stands for the
  conversion of a number to text.
\<close>

fun scale_units :: "rat \<Rightarrow> string \<Rightarrow> string list \<Rightarrow> rat \<times> string" where
  "scale_units v u [] = (v, u)"
| "scale_units v u (n # ns) = (if v < 1024 then (v, u) else scale_units (v / 1024) n ns)"

definition formatBytes :: "(rat \<Rightarrow> string) \<Rightarrow> jsnum \<Rightarrow> string" where
  "formatBytes show bytes = (case bytes of
     Fin q \<Rightarrow> if q < 0 then dash
       else if q < 1024 then show q @ ''B''
       else (case scale_units q ''B'' [''KiB'', ''MiB'', ''GiB'', ''TiB''] of (v, u) \<Rightarrow>
         (if 10 \<le> v then show_int (math_round v) else toFixed 1 v) @ u)
   | _ \<Rightarrow> dash)"

definition formatMegabytes :: "jsnum \<Rightarrow> string" where
  "formatMegabytes bytes = (case bytes of
     Fin q \<Rightarrow> if q < 0 then dash
       else (let mb = q / 1000000 in toFixed (if 10 \<le> mb then 1 else 2) mb @ '' MB'')
   | _ \<Rightarrow> dash)"

definition rat_mod60 :: "rat \<Rightarrow> rat" where
  "rat_mod60 q = q - 60 * of_int (floor (q / 60))"

definition formatDuration :: "jsnum \<Rightarrow> string" where
  "formatDuration seconds = (case seconds of
     Fin q \<Rightarrow> if q < 0 then dash
       else if q < 60 then toFixed (if q < 10 then 1 else 0) q @ ''s''
       else (let minutes = floor (q / 60); rest = math_round (rat_mod60 q) in
         if minutes < 60 then show_int minutes @ ''m '' @ show_int rest @ ''s''
         else (let hours = minutes div 60 in show_int hours @ ''h '' @ show_int (minutes mod 60) @ ''m''))
   | _ \<Rightarrow> dash)"

definition shortHash :: "string \<Rightarrow> nat \<Rightarrow> string" where
  "shortHash hash n = (if n < length hash then take n hash @ [CHR 0xE2, CHR 0x80, CHR 0xA6] else hash)"

section \<open>Laws\<close>

lemma double_range_finite: "isFinite (double_range q) \<longleftrightarrow> \<bar>q\<bar> < max_double_bound"
  by (auto simp: double_range_def)

lemma to_integer_Some: "to_integer n = Some i \<Longrightarrow> n = Fin (of_int i)"
  by (cases n) (auto split: if_splits)

section \<open>Properties\<close>

text \<open>
  A duration of at least a minute can be shown with sixty seconds: the minutes are rounded down
  and the seconds to the nearest, so whenever the remainder is half a second or less below a full
  minute (up to an hour) the text ends in ``60s'' instead of carrying into the minutes.
\<close>

lemma formatDuration_sixty_seconds:
  assumes "1 \<le> m" "m < 60" "0 < d" "d \<le> 1 / 2"
  shows "formatDuration (Fin (of_int (m + 1) * 60 - d)) = show_int m @ ''m 60s''"
proof -
  define q where "q = of_int (m + 1) * 60 - d"
  have fl: "floor (q / 60) = m"
    using assms(3,4) by (intro floor_unique) (simp_all add: field_simps q_def)
  have minute: "\<not> x * 60 - d < 0 \<and> \<not> x * 60 - d < 60" if "2 \<le> x" for x :: rat
    using that assms(4) by auto
  have "(2::rat) \<le> of_int (m + 1)" 
    using of_int_le_iff [where 'a = rat, of 2 "m + 1"] assms(1) by simp
  then have b: "\<not> q < 0" "\<not> q < 60" by (simp_all only: minute q_def not_False_eq_True)
  have "rat_mod60 q = 60 - d" unfolding rat_mod60_def fl by (simp add: q_def)
  moreover have "math_round (60 - d) = 60"
    unfolding math_round_def using assms(3,4) by (intro floor_unique) simp_all
  moreover have "show_int 60 = ''60''"
    by code_simp
  ultimately have "formatDuration (Fin q) = show_int m @ ''m 60s''"
    using assms(2) b by (simp add: formatDuration_def Let_def fl)
  then show ?thesis by (simp only: q_def)
qed

lemma formatDuration_sixty_seconds_witness:
  "formatDuration (Fin (239 / 2)) = ''1m 60s''"
  using formatDuration_sixty_seconds [of 1 "1 / 2"]
  by (simp add: show_int_def show_nat.simps digit_char_def char_of_def bit_0)

end
