(* ===== verification/Asset_Script.thy ===== *)
theory Asset_Script
  imports Node_Paths Json_Pretty Rpc Js_Number
begin

text \<open>
  The asset script \<^verbatim>\<open>web/scripts/assets.mjs\<close>: it generates the brand images, fonts and packaging icons, pins them
  in \<^verbatim>\<open>shared/assets/manifest.json\<close> and verifies the repository and the built bundle against that manifest.  The file
  system is explicit (\<^verbatim>\<open>Node_Paths\<close>); what the script takes from outside the repository (SHA-256, the image
  library, the icon generator) is the record \<open>asset_tools\<close>.  Where \<^verbatim>\<open>Promise.all\<close> runs several steps the model runs
  them in list order: they read, or write different directories, and the first failure is reported.
\<close>

section \<open>Constants and tools\<close>

record image_metadata =
  im_width :: nat
  im_height :: nat
  im_channels :: nat
  im_space :: string
  im_format :: string
  im_depth :: string
  im_hasAlpha :: bool

text \<open>
  \<open>at_icons\<close> is the icon generator on the bytes of the source image: the exit status (none after a signal), what it
  printed, and the entries it leaves in the output directory.
\<close>

record asset_tools =
  at_root :: "string list"
  at_sha256 :: "string \<Rightarrow> string"
  at_metadata :: "string \<Rightarrow> image_metadata option"
  at_png :: "string \<Rightarrow> string option"
  at_webp :: "string \<Rightarrow> string option"
  at_icons :: "string \<Rightarrow> nat option \<times> string \<times> (string \<times> node) list"
  at_sharp_version :: string
  at_vips_version :: string

record font_spec =
  fs_family :: string
  fs_packageName :: string
  fs_version :: string
  fs_sourceFile :: string
  fs_outputFile :: string
  fs_weight :: string
  fs_subset :: string
  fs_licenseFile :: string

definition fromRoot :: "asset_tools \<Rightarrow> string \<Rightarrow> string list" where
  "fromRoot t p = join_path (at_root t) p"

definition sourcePath :: "asset_tools \<Rightarrow> string list" where
  "sourcePath t = fromRoot t ''shared/assets/source/ephemeral-sandbox-mascot.png''"

definition manifestPath :: "asset_tools \<Rightarrow> string list" where
  "manifestPath t = fromRoot t ''shared/assets/manifest.json''"

definition brandDirectory :: "asset_tools \<Rightarrow> string list" where
  "brandDirectory t = fromRoot t ''shared/public/brand''"

definition fontDirectory :: "asset_tools \<Rightarrow> string list" where
  "fontDirectory t = fromRoot t ''shared/public/fonts''"

definition licenseDirectory :: "asset_tools \<Rightarrow> string list" where
  "licenseDirectory t = fromRoot t ''shared/assets/licenses''"

definition iconDirectory :: "asset_tools \<Rightarrow> string list" where
  "iconDirectory t = fromRoot t ''desktop/src-tauri/icons''"

definition distDirectory :: "asset_tools \<Rightarrow> string list" where
  "distDirectory t = fromRoot t ''web/dist''"

definition expected_sha256 :: string where
  "expected_sha256 = ''b940877050866fb52b9e9e1142e7cffebfc5d5c77dfca26f0da5a82e00612bd3''"

definition expected_size :: nat where
  "expected_size = 1024"

definition publicImages :: "(string \<times> string) list" where
  "publicImages = [(''png'', ''shared/public/brand/ephemeral-sandbox-mascot-b9408770.png''),
     (''webp'', ''shared/public/brand/ephemeral-sandbox-mascot-b9408770.webp'')]"

definition fonts :: "font_spec list" where
  "fonts = [\<lparr>fs_family = ''Inter'', fs_packageName = ''@fontsource-variable/inter'', fs_version = ''5.2.8'',
      fs_sourceFile = ''files/inter-latin-wght-normal.woff2'', fs_outputFile = ''inter-latin-100-900-v5.2.8.woff2'',
      fs_weight = ''100 900'', fs_subset = ''latin'', fs_licenseFile = ''Inter-OFL-1.1.txt''\<rparr>,
    \<lparr>fs_family = ''JetBrains Mono'', fs_packageName = ''@fontsource-variable/jetbrains-mono'', fs_version = ''5.2.8'',
      fs_sourceFile = ''files/jetbrains-mono-latin-wght-normal.woff2'', fs_outputFile = ''jetbrains-mono-latin-100-800-v5.2.8.woff2'',
      fs_weight = ''100 800'', fs_subset = ''latin'', fs_licenseFile = ''JetBrains-Mono-OFL-1.1.txt''\<rparr>]"

section \<open>Values of a parsed document\<close>

text \<open>\<^verbatim>\<open>v.k\<close> throws on null and undefined; \<^verbatim>\<open>Object.entries\<close> lists index keys first, in order.\<close>

definition member :: "json option \<Rightarrow> string \<Rightarrow> json option script" where
  "member v k = (case v of None \<Rightarrow> Inl Type_error | Some JNull \<Rightarrow> Inl Type_error | Some w \<Rightarrow> Inr (js_prop w k))"

definition index_key :: "string \<Rightarrow> bool" where
  "index_key k = (list_all is_digit k \<and> k = show_nat (digits_value k) \<and> digits_value k < 4294967295)"

fun object_entries :: "json \<Rightarrow> (string \<times> json) list script" where
  "object_entries JNull = Inl Type_error"
| "object_entries (JObj kvs) = (let m = map_new kvs in
     Inr (js_sort (\<lambda>a b. int (digits_value (fst a)) - int (digits_value (fst b))) (filter (\<lambda>kv. index_key (fst kv)) m)
       @ filter (\<lambda>kv. \<not> index_key (fst kv)) m))"
| "object_entries (JArr vs) = Inr (zip (map show_nat [0..<length vs]) vs)"
| "object_entries (JStr s) = Inr (zip (map show_nat [0..<length s]) (map (\<lambda>c. JStr [c]) s))"
| "object_entries _ = Inr []"

definition object_values :: "json option \<Rightarrow> json list script" where
  "object_values v = then_do (require v Type_error) (\<lambda>w. then_do (object_entries w) (\<lambda>es. Inr (map snd es)))"

definition iterate_array :: "json option \<Rightarrow> json list script" where
  "iterate_array v = (case v of Some (JArr vs) \<Rightarrow> Inr vs | Some (JStr s) \<Rightarrow> Inr (map (\<lambda>c. JStr [c]) s) | _ \<Rightarrow> Inl Type_error)"

definition text_of :: "json option \<Rightarrow> string script" where
  "text_of v = (case v of Some (JStr s) \<Rightarrow> Inr s | _ \<Rightarrow> Inl Type_error)"

definition is_string :: "json \<Rightarrow> bool" where
  "is_string v = (v = JStr (js_string v))"

definition is_number :: "json option \<Rightarrow> nat \<Rightarrow> bool" where
  "is_number v n = (case v of Some (JNum i) \<Rightarrow> i = int n | Some (JDec s) \<Rightarrow> js_Number s = Fin (of_nat n) | _ \<Rightarrow> False)"

definition parse_document :: "string \<Rightarrow> json script" where
  "parse_document s = require (JSON_parse s) (Script_error ''SyntaxError'')"

section \<open>Paths inside the repository\<close>

definition toRootPath :: "asset_tools \<Rightarrow> string list \<Rightarrow> string" where
  "toRootPath t p = relative (at_root t) p"

definition assertRepositoryPath :: "asset_tools \<Rightarrow> string \<Rightarrow> string \<Rightarrow> string list script" where
  "assertRepositoryPath t p label =
     (let resolved = resolve_path (at_root t) p in
      if isAbsolute p \<or> leaves (at_root t) resolved
      then Inl (Script_error (label @ '' must remain inside the repository: '' @ p))
      else Inr resolved)"

definition readPackage :: "asset_tools \<Rightarrow> node \<Rightarrow> string \<Rightarrow> (string list \<times> json) script" where
  "readPackage t fs packageName =
     (let packagePath = join_path (fromRoot t ''web/node_modules'') packageName in
      then_do (readFile fs (join_path packagePath ''package.json'')) (\<lambda>text'.
      then_do (parse_document text') (\<lambda>metadata. Inr (packagePath, metadata))))"

section \<open>The source image\<close>

definition colorMode_of :: "image_metadata \<Rightarrow> string" where
  "colorMode_of m = (if im_channels m = 4 then ''RGBA'' else ''undefined'')"

definition colorSpace_of :: "image_metadata \<Rightarrow> string" where
  "colorSpace_of m = (if im_space m = ''srgb'' then ''sRGB'' else im_space m)"

definition source_fields :: "image_metadata \<Rightarrow> (string \<times> string \<times> string) list" where
  "source_fields m = [(''width'', show_nat expected_size, show_nat (im_width m)),
     (''height'', show_nat expected_size, show_nat (im_height m)), (''channels'', show_nat 4, show_nat (im_channels m)),
     (''colorMode'', ''RGBA'', colorMode_of m), (''colorSpace'', ''sRGB'', colorSpace_of m)]"

definition sourceMetadata :: "asset_tools \<Rightarrow> node \<Rightarrow> (string \<times> image_metadata \<times> string) script" where
  "sourceMetadata t fs =
     then_do (readFile fs (sourcePath t)) (\<lambda>bytes.
     let digest = at_sha256 t bytes in
     then_do (check (digest = expected_sha256)
       (Script_error (''canonical mascot SHA-256 mismatch: expected '' @ expected_sha256 @ '', received '' @ digest))) (\<lambda>_.
     then_do (require (at_metadata t bytes) (Script_error ''sharp'')) (\<lambda>metadata.
     then_do (for_each (\<lambda>(key, value, actual). check (actual = value)
         (Script_error (''canonical mascot '' @ key @ '' mismatch: expected '' @ value @ '', received '' @ actual)))
       (source_fields metadata)) (\<lambda>_.
     then_do (check (im_format metadata = ''png'' \<and> im_depth metadata = ''uchar'' \<and> im_hasAlpha metadata)
       (Script_error ''canonical mascot must be an 8-bit RGBA PNG'')) (\<lambda>_.
     Inr (bytes, metadata, digest))))))"

section \<open>Generation\<close>

definition generatePublicImages :: "asset_tools \<Rightarrow> string \<Rightarrow> node \<Rightarrow> node script" where
  "generatePublicImages t sourceBytes fs =
     then_do (mkdir (brandDirectory t) fs) (\<lambda>fs1.
     then_do (require (at_png t sourceBytes) (Script_error ''sharp'')) (\<lambda>pngBytes.
     then_do (require (at_webp t sourceBytes) (Script_error ''sharp'')) (\<lambda>webpBytes.
     then_do (writeFile (fromRoot t ''shared/public/brand/ephemeral-sandbox-mascot-b9408770.png'') pngBytes fs1) (\<lambda>fs2.
     writeFile (fromRoot t ''shared/public/brand/ephemeral-sandbox-mascot-b9408770.webp'') webpBytes fs2))))"

definition cp :: "string list \<Rightarrow> string list \<Rightarrow> node \<Rightarrow> node script" where
  "cp source target fs = then_do (readFile fs source) (\<lambda>bytes. writeFile target bytes fs)"

definition generateFont :: "asset_tools \<Rightarrow> node \<Rightarrow> font_spec \<Rightarrow> node script" where
  "generateFont t fs font =
     then_do (readPackage t fs (fs_packageName font)) (\<lambda>(packagePath, metadata).
     then_do (member (Some metadata) ''version'') (\<lambda>version.
     then_do (member (Some metadata) ''license'') (\<lambda>license.
     then_do (check (version = Some (JStr (fs_version font)) \<and> license = Some (JStr ''OFL-1.1''))
       (Script_error (fs_packageName font @ '' provenance mismatch: expected '' @ fs_version font @ '' / OFL-1.1''))) (\<lambda>_.
     then_do (cp (join_path packagePath (fs_sourceFile font)) (join_path (fontDirectory t) (fs_outputFile font)) fs) (\<lambda>fs1.
     cp (join_path packagePath ''LICENSE'') (join_path (licenseDirectory t) (fs_licenseFile font)) fs1)))))"

definition generateFonts :: "asset_tools \<Rightarrow> node \<Rightarrow> node script" where
  "generateFonts t fs =
     then_do (mkdir (fontDirectory t) fs) (\<lambda>fs1.
     then_do (mkdir (licenseDirectory t) fs1) (\<lambda>fs2. fold_each (generateFont t) fs2 fonts))"

definition generateTauriIcons :: "asset_tools \<Rightarrow> node \<Rightarrow> node script" where
  "generateTauriIcons t fs =
     then_do (mkdir (iconDirectory t) (rm_path (iconDirectory t) fs)) (\<lambda>fs1.
     then_do (readFile fs1 (sourcePath t)) (\<lambda>bytes.
     let (status, printed, entries) = at_icons t bytes in
     if status \<noteq> Some 0
     then Inl (Script_error (''Tauri icon generation failed ('' @ (case status of None \<Rightarrow> ''signal'' | Some n \<Rightarrow> show_nat n) @ ''):'' @ [newline] @ printed))
     else fs_put (iconDirectory t) (Dir entries) fs1))"

section \<open>The manifest\<close>

definition mimeTypeFor :: "string list \<Rightarrow> string" where
  "mimeTypeFor p = (let e = toLowerCase (extname p) in
     if e = ''.png'' then ''image/png'' else if e = ''.webp'' then ''image/webp''
     else if e = ''.ico'' then ''image/x-icon'' else if e = ''.icns'' then ''image/icns''
     else if e = ''.woff2'' then ''font/woff2'' else if e = ''.json'' then ''application/json''
     else if e = ''.xml'' then ''application/xml'' else ''application/octet-stream'')"

definition fileRecord :: "asset_tools \<Rightarrow> node \<Rightarrow> string list \<Rightarrow> (string \<times> json) list \<Rightarrow> json script" where
  "fileRecord t fs p extra =
     then_do (readFile fs p) (\<lambda>bytes.
     let record' = [(''path'', JStr (toRootPath t p)), (''sha256'', JStr (at_sha256 t bytes)),
           (''bytes'', JNum (int (length bytes))), (''mimeType'', JStr (mimeTypeFor p))] @ extra in
     if toLowerCase (extname p) \<in> {''.png'', ''.webp''}
     then then_do (require (at_metadata t bytes) (Script_error ''sharp'')) (\<lambda>metadata.
       Inr (JObj (record' @ [(''width'', JNum (int (im_width metadata))), (''height'', JNum (int (im_height metadata)))])))
     else Inr (JObj record'))"

definition fontRecord :: "asset_tools \<Rightarrow> node \<Rightarrow> font_spec \<Rightarrow> json script" where
  "fontRecord t fs font = fileRecord t fs (join_path (fontDirectory t) (fs_outputFile font))
     [(''family'', JStr (fs_family font)), (''style'', JStr ''normal''), (''weight'', JStr (fs_weight font)),
      (''subset'', JStr (fs_subset font)), (''version'', JStr (fs_version font)), (''package'', JStr (fs_packageName font)),
      (''license'', JStr (''shared/assets/licenses/'' @ fs_licenseFile font))]"

definition importedFilename :: string where
  "importedFilename = ''ChatGPT Image 2026'' @ [CHR 0xE5, CHR 0xB9, CHR 0xB4] @ ''7'' @ [CHR 0xE6, CHR 0x9C, CHR 0x88]
     @ ''13'' @ [CHR 0xE6, CHR 0x97, CHR 0xA5] @ '' 20_45_46.png''"

definition manifest_source :: "asset_tools \<Rightarrow> string \<times> image_metadata \<times> string \<Rightarrow> json" where
  "manifest_source t = (\<lambda>(bytes, metadata, digest). JObj
     [(''path'', JStr (toRootPath t (sourcePath t))), (''filename'', JStr ''ephemeral-sandbox-mascot.png''),
      (''importedFilename'', JStr importedFilename), (''sha256'', JStr digest), (''bytes'', JNum (int (length bytes))),
      (''width'', JNum (int (im_width metadata))), (''height'', JNum (int (im_height metadata))), (''bitDepth'', JNum 8),
      (''colorMode'', JStr ''RGBA''), (''colorSpace'', JStr ''sRGB''), (''mimeType'', JStr ''image/png'')])"

definition manifest_json :: "asset_tools \<Rightarrow> json \<Rightarrow> json \<Rightarrow> json \<Rightarrow> json list \<Rightarrow> json list \<Rightarrow> json option \<Rightarrow> json" where
  "manifest_json t source png webp fontRecords iconRecords tauriVersion = JObj
     [(''schemaVersion'', JNum 1), (''product'', JStr ''Ephemeral Sandbox''), (''source'', source),
      (''derivatives'', JObj [(''web'', JObj [(''png'', png), (''webp'', webp)]), (''fonts'', JArr fontRecords),
         (''tauriIcons'', JArr iconRecords)]),
      (''generators'', JObj ([(''sharp'', JStr (at_sharp_version t)), (''libvips'', JStr (at_vips_version t))]
         @ (case tauriVersion of None \<Rightarrow> [] | Some v \<Rightarrow> [(''tauriCli'', v)])))]"

definition createManifest :: "asset_tools \<Rightarrow> string \<times> image_metadata \<times> string \<Rightarrow> node \<Rightarrow> node script" where
  "createManifest t source fs =
     then_do (fileRecord t fs (fromRoot t ''shared/public/brand/ephemeral-sandbox-mascot-b9408770.png'') []) (\<lambda>png.
     then_do (fileRecord t fs (fromRoot t ''shared/public/brand/ephemeral-sandbox-mascot-b9408770.webp'') []) (\<lambda>webp.
     then_do (collect_each (fontRecord t fs) fonts) (\<lambda>fontRecords.
     then_do (walkFiles fs (iconDirectory t)) (\<lambda>icons.
     then_do (collect_each (\<lambda>p. fileRecord t fs p []) icons) (\<lambda>iconRecords.
     then_do (readPackage t fs ''@tauri-apps/cli'') (\<lambda>(_, metadata).
     then_do (member (Some metadata) ''version'') (\<lambda>version.
     writeFile (manifestPath t)
       (JSON_pretty (manifest_json t (manifest_source t source) png webp fontRecords iconRecords version) @ [newline]) fs)))))))"

section \<open>Verification\<close>

text \<open>Node decodes \<^verbatim>\<open>ascii\<close> by clearing the high bit of every byte.\<close>

definition ascii :: "string \<Rightarrow> nat \<Rightarrow> nat \<Rightarrow> string" where
  "ascii bytes start end' = map (\<lambda>c. char_of (of_char c mod 128 :: nat)) (take (end' - start) (drop start bytes))"

definition magic_ok :: "string \<Rightarrow> string \<Rightarrow> bool" where
  "magic_ok bytes mimeType =
     (\<not> (mimeType = ''image/png'' \<and> ascii bytes 1 4 \<noteq> ''PNG''
       \<or> mimeType = ''image/webp'' \<and> \<not> (ascii bytes 0 4 = ''RIFF'' \<and> ascii bytes 8 12 = ''WEBP'')
       \<or> mimeType = ''font/woff2'' \<and> ascii bytes 0 4 \<noteq> ''wOF2''))"

definition assertMagic :: "string \<Rightarrow> string \<Rightarrow> string \<Rightarrow> unit script" where
  "assertMagic bytes mimeType p = check (magic_ok bytes mimeType)
     (Script_error (p @ '' does not match its declared '' @ mimeType @ '' format''))"

definition verifyRecord :: "asset_tools \<Rightarrow> node \<Rightarrow> json \<Rightarrow> unit script" where
  "verifyRecord t fs record' =
     then_do (member (Some record') ''path'') (\<lambda>path.
     then_do (text_of path) (\<lambda>recorded.
     then_do (assertRepositoryPath t recorded ''manifest derivative path'') (\<lambda>p.
     then_do (readFile fs p) (\<lambda>bytes.
     then_do (check (js_prop record' ''sha256'' = Some (JStr (at_sha256 t bytes)) \<and> is_number (js_prop record' ''bytes'') (length bytes))
       (Script_error (recorded @ '' does not match its manifest hash/size''))) (\<lambda>_.
     then_do (check (js_prop record' ''mimeType'' = Some (JStr (mimeTypeFor p)))
       (Script_error (recorded @ '' has an incorrect MIME declaration''))) (\<lambda>_.
     then_do (assertMagic bytes (mimeTypeFor p) recorded) (\<lambda>_.
     if js_prop record' ''width'' \<noteq> None \<or> js_prop record' ''height'' \<noteq> None
     then then_do (require (at_metadata t bytes) (Script_error ''sharp'')) (\<lambda>metadata.
       check (is_number (js_prop record' ''width'') (im_width metadata) \<and> is_number (js_prop record' ''height'') (im_height metadata))
         (Script_error (recorded @ '' does not match its manifest dimensions'')))
     else Inr ())))))))"

definition user_path :: "string \<Rightarrow> bool" where
  "user_path s = (str_includes (toLowerCase s) ''/users/''
     \<or> str_includes (toLowerCase s) ([CHR 0x5C] @ ''users'' @ [CHR 0x5C]))"

definition verify_head :: "asset_tools \<Rightarrow> string \<Rightarrow> json \<Rightarrow> unit script" where
  "verify_head t digest manifest =
     then_do (member (Some manifest) ''schemaVersion'') (\<lambda>schemaVersion.
     then_do (check (is_number schemaVersion 1 \<and> js_prop manifest ''product'' = Some (JStr ''Ephemeral Sandbox''))
       (Script_error ''asset manifest schema or product name is incorrect'')) (\<lambda>_.
     let source = js_prop manifest ''source'' in
     then_do (member source ''path'') (\<lambda>path.
     check (path = Some (JStr (toRootPath t (sourcePath t)))
         \<and> opt_prop source ''sha256'' = Some (JStr digest)
         \<and> is_number (opt_prop source ''width'') expected_size
         \<and> is_number (opt_prop source ''height'') expected_size
         \<and> opt_prop source ''colorMode'' = Some (JStr ''RGBA'')
         \<and> opt_prop source ''colorSpace'' = Some (JStr ''sRGB''))
       (Script_error ''asset manifest canonical source metadata is incorrect''))))"

definition verify_pins :: "json option \<Rightarrow> unit script" where
  "verify_pins web = for_each (\<lambda>(format, p). then_do (member web format) (\<lambda>image.
     check (opt_prop image ''path'' = Some (JStr p)) (Script_error (''asset manifest must pin '' @ p)))) publicImages"

definition json_array :: "json option \<Rightarrow> json list script" where
  "json_array v = (case v of Some (JArr vs) \<Rightarrow> Inr vs | _ \<Rightarrow> Inl Type_error)"

definition path_entry :: "json \<Rightarrow> json script" where
  "path_entry record' = then_do (member (Some record') ''path'') (\<lambda>p. Inr (case p of None \<Rightarrow> JNull | Some v \<Rightarrow> v))"

definition verify_icons :: "asset_tools \<Rightarrow> node \<Rightarrow> json option \<Rightarrow> unit script" where
  "verify_icons t fs tauriIcons =
     then_do (walkFiles fs (iconDirectory t)) (\<lambda>files.
     then_do (json_array tauriIcons) (\<lambda>records.
     then_do (collect_each path_entry records) (\<lambda>listed.
     check (JSON_stringify (JArr (map (\<lambda>p. JStr (toRootPath t p)) files)) = JSON_stringify (JArr listed))
       (Script_error ''Tauri icon directory and manifest entries have drifted''))))"

text \<open>\<^verbatim>\<open>s.replace(p, "")\<close> with a string pattern drops its first occurrence.\<close>

fun drop_first :: "string \<Rightarrow> string \<Rightarrow> string" where
  "drop_first p [] = []"
| "drop_first p (c # cs) = (if startsWith (c # cs) p then drop (length p) (c # cs) else c # drop_first p cs)"

definition verify_font :: "asset_tools \<Rightarrow> node \<Rightarrow> string \<Rightarrow> json \<Rightarrow> unit script" where
  "verify_font t fs fontCss font =
     then_do (member (Some font) ''path'') (\<lambda>path.
     then_do (text_of path) (\<lambda>recorded.
     let publicUrl = ''/'' @ drop_first ''shared/public/'' recorded in
     then_do (check (str_includes fontCss publicUrl \<and> str_includes fontCss ''font-display: swap'')
       (Script_error (''web/src/index.css does not self-host '' @ publicUrl))) (\<lambda>_.
     then_do (text_of (js_prop font ''license'')) (\<lambda>license.
     then_do (assertRepositoryPath t license ''font license path'') (\<lambda>p. stat fs p)))))"

definition verify_logo :: "asset_tools \<Rightarrow> node \<Rightarrow> unit script" where
  "verify_logo t fs = (case stat fs (fromRoot t ''web/public/assets/images/logo.png'') of
     Inr _ \<Rightarrow> Inl (Script_error ''the retired robot logo must not remain a second brand source'')
   | Inl e \<Rightarrow> if e = Fs_error ''ENOENT'' then Inr () else Inl e)"

text \<open>The records a manifest lists, in the order of the code: web images, fonts, icons.\<close>

definition public_records :: "json \<Rightarrow> json list script" where
  "public_records manifest =
     then_do (member (js_prop manifest ''derivatives'') ''web'') (\<lambda>web.
     then_do (object_values web) (\<lambda>images.
     then_do (iterate_array (opt_prop (js_prop manifest ''derivatives'') ''fonts'')) (\<lambda>fontRecords. Inr (images @ fontRecords))))"

definition manifest_records :: "json \<Rightarrow> json list script" where
  "manifest_records manifest =
     then_do (public_records manifest) (\<lambda>public.
     then_do (iterate_array (opt_prop (js_prop manifest ''derivatives'') ''tauriIcons'')) (\<lambda>icons. Inr (public @ icons)))"

definition verify :: "asset_tools \<Rightarrow> node \<Rightarrow> string script" where
  "verify t fs =
     then_do (sourceMetadata t fs) (\<lambda>(_, _, digest).
     then_do (readFile fs (manifestPath t)) (\<lambda>manifestText.
     then_do (check (\<not> user_path manifestText)
       (Script_error ''asset manifest must not depend on a user-specific absolute path'')) (\<lambda>_.
     then_do (parse_document manifestText) (\<lambda>manifest.
     then_do (verify_head t digest manifest) (\<lambda>_.
     let derivatives = js_prop manifest ''derivatives'' in
     then_do (member derivatives ''web'') (\<lambda>web.
     then_do (verify_pins web) (\<lambda>_.
     then_do (manifest_records manifest) (\<lambda>records.
     then_do (for_each (verifyRecord t fs) records) (\<lambda>_.
     then_do (verify_icons t fs (opt_prop derivatives ''tauriIcons'')) (\<lambda>_.
     then_do (readFile fs (fromRoot t ''web/src/index.css'')) (\<lambda>fontCss.
     then_do (iterate_array (opt_prop derivatives ''fonts'')) (\<lambda>fontRecords.
     then_do (for_each (verify_font t fs fontCss) fontRecords) (\<lambda>_.
     then_do (verify_logo t fs) (\<lambda>_.
     Inr (''verified '' @ show_nat (length records) @ '' derivatives from '' @ digest @ [newline])))))))))))))))"

section \<open>Verification of the built bundle\<close>

text \<open>\<^verbatim>\<open>replace(/^shared\/public\//, "")\<close>.\<close>

definition public_part :: "string \<Rightarrow> string" where
  "public_part p = (if startsWith p ''shared/public/'' then drop (length ''shared/public/'') p else p)"

definition verify_packaged :: "asset_tools \<Rightarrow> node \<Rightarrow> json \<Rightarrow> unit script" where
  "verify_packaged t fs record' =
     then_do (member (Some record') ''path'') (\<lambda>path.
     then_do (text_of path) (\<lambda>recorded.
     then_do (readFile fs (join_path (distDirectory t) (public_part recorded))) (\<lambda>bytes.
     check (Some (JStr (at_sha256 t bytes)) = js_prop record' ''sha256'')
       (Script_error (''web/dist/'' @ public_part recorded @ '' does not match the shared asset manifest'')))))"

definition chunk_field :: "string \<Rightarrow> json \<Rightarrow> string list \<Rightarrow> string \<Rightarrow> string list script" where
  "chunk_field key chunk outputs field = (case js_prop chunk field of
     None \<Rightarrow> Inr outputs
   | Some (JArr vs) \<Rightarrow> if \<forall>v \<in> set vs. is_string v
       then Inr (foldl (\<lambda>s v. set_add (js_string v) s) outputs vs)
       else Inl (Script_error (''web/dist/.vite/manifest.json has an invalid '' @ key @ ''.'' @ field))
   | Some _ \<Rightarrow> Inl (Script_error (''web/dist/.vite/manifest.json has an invalid '' @ key @ ''.'' @ field)))"

definition chunk_outputs :: "string list \<Rightarrow> string \<times> json \<Rightarrow> string list script" where
  "chunk_outputs outputs = (\<lambda>(key, chunk). case js_prop chunk ''file'' of
     Some (JStr file) \<Rightarrow> fold_each (chunk_field key chunk) (set_add file outputs) [''css'', ''assets'']
   | _ \<Rightarrow> Inl (Script_error (''web/dist/.vite/manifest.json has an invalid '' @ key @ '' entry'')))"

definition verify_output :: "asset_tools \<Rightarrow> node \<Rightarrow> string \<Rightarrow> unit script" where
  "verify_output t fs output = (let builtPath = resolve_path (distDirectory t) output in
     if isAbsolute output \<or> leaves (distDirectory t) builtPath
     then Inl (Script_error (''Vite manifest output escapes web/dist: '' @ output))
     else stat fs builtPath)"

definition forbidden_hosts :: "string list" where
  "forbidden_hosts = [''fonts.googleapis.com'', ''fonts.gstatic.com'', ''cdn.tailwindcss.com'', ''fonts.google.com/icons'',
     ''stitch.withgoogle.com'']"

definition verify_text :: "asset_tools \<Rightarrow> node \<Rightarrow> string list \<Rightarrow> unit script" where
  "verify_text t fs p =
     (if extname p \<notin> {''.html'', ''.css'', ''.js'', ''.mjs'', ''.json'', ''.map''} then Inr ()
      else then_do (readFile fs p) (\<lambda>content.
        check (\<not> (\<exists>host \<in> set forbidden_hosts. str_includes (toLowerCase content) host))
          (Script_error (toRootPath t p @ '' contains a forbidden runtime asset dependency''))))"

definition verifyDist :: "asset_tools \<Rightarrow> node \<Rightarrow> string script" where
  "verifyDist t fs =
     then_do (verify t fs) (\<lambda>_.
     then_do (readFile fs (manifestPath t)) (\<lambda>canonical.
     then_do (readFile fs (join_path (distDirectory t) ''.vite/shared-assets-manifest.json'')) (\<lambda>packaged.
     then_do (check (canonical = packaged)
       (Script_error ''web/dist/.vite/shared-assets-manifest.json must exactly match shared/assets/manifest.json'')) (\<lambda>_.
     then_do (parse_document canonical) (\<lambda>manifest.
     then_do (public_records manifest) (\<lambda>publicRecords.
     then_do (for_each (verify_packaged t fs) publicRecords) (\<lambda>_.
     then_do (readFile fs (join_path (distDirectory t) ''.vite/manifest.json'')) (\<lambda>viteText.
     then_do (parse_document viteText) (\<lambda>viteManifest.
     then_do (object_entries viteManifest) (\<lambda>chunks.
     then_do (fold_each chunk_outputs [] chunks) (\<lambda>viteOutputs.
     then_do (check (\<exists>p \<in> set viteOutputs. startsWith p ''assets/'' \<and> extname_text p = ''.js'')
       (Script_error ''Vite manifest does not identify the built JavaScript output'')) (\<lambda>_.
     then_do (for_each (verify_output t fs) viteOutputs) (\<lambda>_.
     then_do (walkFiles fs (distDirectory t)) (\<lambda>files.
     then_do (for_each (verify_text t fs) files) (\<lambda>_.
     Inr (''verified '' @ show_nat (length publicRecords) @ '' packaged public assets and '' @ show_nat (length viteOutputs)
       @ '' Vite outputs'' @ [newline]))))))))))))))))"

section \<open>Commands\<close>

definition generate :: "asset_tools \<Rightarrow> node \<Rightarrow> (string \<times> node) script" where
  "generate t fs =
     then_do (sourceMetadata t fs) (\<lambda>source.
     then_do (generatePublicImages t (fst source) fs) (\<lambda>fs1.
     then_do (generateFonts t fs1) (\<lambda>fs2.
     then_do (generateTauriIcons t fs2) (\<lambda>fs3.
     then_do (createManifest t source fs3) (\<lambda>fs4.
     then_do (verify t fs4) (\<lambda>printed. Inr (printed, fs4)))))))"

definition asset_command :: "asset_tools \<Rightarrow> string option \<Rightarrow> node \<Rightarrow> (string \<times> node) script" where
  "asset_command t argument fs = (let command = (case argument of None \<Rightarrow> ''verify'' | Some c \<Rightarrow> c) in
     if command = ''generate'' then generate t fs
     else if command = ''verify'' then map_sum id (\<lambda>printed. (printed, fs)) (verify t fs)
     else if command = ''verify-dist'' then map_sum id (\<lambda>printed. (printed, fs)) (verifyDist t fs)
     else Inl (Script_error (''unknown asset command: '' @ command)))"

section \<open>Paths stay inside\<close>

abbreviation root_ok :: "asset_tools \<Rightarrow> bool" where
  "root_ok t \<equiv> \<forall>g \<in> set (at_root t). segment_ok g"

lemma member_iff [result_iff]: "member v k = Inr w \<longleftrightarrow> (\<exists>u. v = Some u \<and> u \<noteq> JNull \<and> w = js_prop u k)"
  by (auto simp: member_def split: option.splits json.splits)

lemma text_of_iff [result_iff]: "text_of v = Inr s \<longleftrightarrow> v = Some (JStr s)"
  by (auto simp: text_of_def split: option.splits json.splits)

lemma json_array_iff [result_iff]: "json_array v = Inr vs \<longleftrightarrow> v = Some (JArr vs)"
  by (auto simp: json_array_def split: option.splits json.splits)

lemma parse_document_iff [result_iff]: "parse_document s = Inr v \<longleftrightarrow> JSON_parse s = Some v"
  by (simp add: parse_document_def result_iff)

lemma stat_iff [result_iff]: "stat fs p = Inr u \<longleftrightarrow> fs_lookup fs p \<noteq> None"
  by (simp add: stat_def result_iff)

lemma confined_iff:
  assumes "\<forall>g \<in> set base. segment_ok g"
  shows "\<not> (isAbsolute p \<or> leaves base (resolve_path base p)) \<longleftrightarrow> \<not> isAbsolute p \<and> prefix base (join_path base p)"
  using leaves_iff [OF resolve_path_ok [OF assms]] by (auto simp: resolve_path_def)

lemma assertRepositoryPath_iff [result_iff]:
  assumes "root_ok t"
  shows "assertRepositoryPath t p label = Inr q
    \<longleftrightarrow> \<not> isAbsolute p \<and> prefix (at_root t) (join_path (at_root t) p) \<and> q = join_path (at_root t) p"
  using confined_iff [OF assms, of p] by (auto simp: assertRepositoryPath_def Let_def resolve_path_def)

lemma dist_ok: "root_ok t \<Longrightarrow> \<forall>g \<in> set (distDirectory t). segment_ok g"
  unfolding distDirectory_def fromRoot_def by (rule join_path_ok)

lemma verify_output_iff [result_iff]:
  assumes "root_ok t"
  shows "verify_output t fs p = Inr u \<longleftrightarrow> \<not> isAbsolute p \<and> prefix (distDirectory t) (join_path (distDirectory t) p)
    \<and> fs_lookup fs (join_path (distDirectory t) p) \<noteq> None"
  using confined_iff [OF dist_ok [OF assms], of p] by (auto simp: verify_output_def Let_def resolve_path_def result_iff)

section \<open>What an accepted record says\<close>

definition record_holds :: "asset_tools \<Rightarrow> node \<Rightarrow> json \<Rightarrow> bool" where
  "record_holds t fs r = (case js_prop r ''path'' of
     Some (JStr p) \<Rightarrow> \<not> isAbsolute p \<and> prefix (at_root t) (join_path (at_root t) p)
       \<and> (case fs_lookup fs (join_path (at_root t) p) of
            Some (File bytes) \<Rightarrow> js_prop r ''sha256'' = Some (JStr (at_sha256 t bytes))
              \<and> is_number (js_prop r ''bytes'') (length bytes)
              \<and> js_prop r ''mimeType'' = Some (JStr (mimeTypeFor (join_path (at_root t) p)))
              \<and> magic_ok bytes (mimeTypeFor (join_path (at_root t) p))
          | _ \<Rightarrow> False)
   | _ \<Rightarrow> False)"

lemma verifyRecord_holds:
  assumes "root_ok t" "verifyRecord t fs r = Inr u"
  shows "record_holds t fs r"
proof -
  from assms obtain p bytes where "js_prop r ''path'' = Some (JStr p)" "\<not> isAbsolute p" "prefix (at_root t) (join_path (at_root t) p)"
    "fs_lookup fs (join_path (at_root t) p) = Some (File bytes)"
    "js_prop r ''sha256'' = Some (JStr (at_sha256 t bytes))" "is_number (js_prop r ''bytes'') (length bytes)"
    "js_prop r ''mimeType'' = Some (JStr (mimeTypeFor (join_path (at_root t) p)))"
    "magic_ok bytes (mimeTypeFor (join_path (at_root t) p))"
    unfolding verifyRecord_def assertMagic_def then_do_iff by (auto simp: result_iff)
  then show ?thesis by (simp add: record_holds_def)
qed

lemma JSON_stringify_inject: "json_plain u \<Longrightarrow> json_plain v \<Longrightarrow> JSON_stringify u = JSON_stringify v \<Longrightarrow> u = v"
  by (metis JSON_roundtrip option.inject)

lemma record_holds_path: "record_holds t fs r \<Longrightarrow> \<exists>p. js_prop r ''path'' = Some (JStr p)"
  by (auto simp: record_holds_def split: option.splits json.splits)

lemma path_entries:
  assumes "\<forall>r \<in> set records. \<exists>p. js_prop r ''path'' = Some (JStr p)" "collect_each path_entry records = Inr listed"
  shows "map Some listed = map (\<lambda>r. js_prop r ''path'') records \<and> (\<forall>v \<in> set listed. json_plain v)"
  using assms
proof (induction records arbitrary: listed)
  case (Cons r records)
  then obtain v vs where "listed = v # vs" "path_entry r = Inr v" "collect_each path_entry records = Inr vs"
    by (auto simp del: collect_each.simps simp: collect_each.simps(2) then_do_iff)
  with Cons show ?case by (auto simp: path_entry_def result_iff)
qed simp

lemma verify_icons_exact:
  assumes "verify_icons t fs (Some (JArr records)) = Inr u" "\<forall>r \<in> set records. record_holds t fs r"
  obtains files where "walkFiles fs (iconDirectory t) = Inr files"
    "map (\<lambda>r. js_prop r ''path'') records = map (\<lambda>p. Some (JStr (toRootPath t p))) files"
proof -
  from assms(1) obtain files listed where f: "walkFiles fs (iconDirectory t) = Inr files" "collect_each path_entry records = Inr listed"
    "JSON_stringify (JArr (map (\<lambda>p. JStr (toRootPath t p)) files)) = JSON_stringify (JArr listed)"
    unfolding verify_icons_def then_do_iff json_array_iff check_iff by blast
  have l: "map Some listed = map (\<lambda>r. js_prop r ''path'') records" "\<forall>v \<in> set listed. json_plain v"
    using path_entries [OF _ f(2)] assms(2) record_holds_path by blast+
  have "JArr (map (\<lambda>p. JStr (toRootPath t p)) files) = JArr listed"
    using f(3) l(2) by (intro JSON_stringify_inject) auto
  then have "map Some listed = map (\<lambda>p. Some (JStr (toRootPath t p))) files" by auto
  with l(1) have "map (\<lambda>r. js_prop r ''path'') records = map (\<lambda>p. Some (JStr (toRootPath t p))) files" by argo
  with f(1) show thesis by (rule that)
qed

lemma set_walkFiles:
  assumes "fs_wf fs" "walkFiles fs d = Inr files"
  shows "set files = {d @ q |q. \<exists>b. fs_lookup fs (d @ q) = Some (File b)}"
proof -
  from assms(2) obtain es where es: "fs_lookup fs d = Some (Dir es)" "files = walk_node d (Dir es)"
    by (auto simp: walkFiles_def split: option.splits node.splits)
  have wf: "fs_wf (Dir es)" using wf_lookup [OF assms(1) es(1)] by simp
  have look: "fs_lookup fs (d @ q) = fs_lookup (Dir es) q" for q by (simp add: lookup_append es(1) del: fs_lookup.simps)
  have ne: "fs_lookup (Dir es) q = Some (File b) \<Longrightarrow> \<exists>g gs. q = g # gs" for q b by (cases q) auto
  have "p \<in> set files \<longleftrightarrow> (\<exists>q b. p = d @ q \<and> fs_lookup (Dir es) q = Some (File b))" for p
    unfolding es(2) set_walk_node [OF wf] using ne by blast
  then show ?thesis unfolding look by blast
qed

lemma verifyE:
  assumes "verify t fs = Inr printed"
  obtains content m records fontCss digest where
    "fs_lookup fs (manifestPath t) = Some (File content)" "JSON_parse content = Some m" "\<not> user_path content"
    "verify_head t digest m = Inr ()" "verify_pins (opt_prop (js_prop m ''derivatives'') ''web'') = Inr ()"
    "manifest_records m = Inr records" "\<forall>r \<in> set records. verifyRecord t fs r = Inr ()"
    "verify_icons t fs (opt_prop (js_prop m ''derivatives'') ''tauriIcons'') = Inr ()"
    "verify_logo t fs = Inr ()" "printed = ''verified '' @ show_nat (length records) @ '' derivatives from '' @ digest @ [newline]"
    "digest = expected_sha256"
proof -
  from assms obtain bytes metadata digest where s: "sourceMetadata t fs = Inr (bytes, metadata, digest)"
    and rest: "then_do (readFile fs (manifestPath t)) (\<lambda>manifestText.
     then_do (check (\<not> user_path manifestText)
       (Script_error ''asset manifest must not depend on a user-specific absolute path'')) (\<lambda>_.
     then_do (parse_document manifestText) (\<lambda>manifest.
     then_do (verify_head t digest manifest) (\<lambda>_.
     let derivatives = js_prop manifest ''derivatives'' in
     then_do (member derivatives ''web'') (\<lambda>web.
     then_do (verify_pins web) (\<lambda>_.
     then_do (manifest_records manifest) (\<lambda>records.
     then_do (for_each (verifyRecord t fs) records) (\<lambda>_.
     then_do (verify_icons t fs (opt_prop derivatives ''tauriIcons'')) (\<lambda>_.
     then_do (readFile fs (fromRoot t ''web/src/index.css'')) (\<lambda>fontCss.
     then_do (iterate_array (opt_prop derivatives ''fonts'')) (\<lambda>fontRecords.
     then_do (for_each (verify_font t fs fontCss) fontRecords) (\<lambda>_.
     then_do (verify_logo t fs) (\<lambda>_.
     Inr (''verified '' @ show_nat (length records) @ '' derivatives from '' @ digest @ [newline])))))))))))))) = Inr printed"
    unfolding verify_def then_do_iff [of "sourceMetadata t fs"] by auto
  have "digest = expected_sha256" using s by (auto simp: sourceMetadata_def Let_def result_iff)
  with rest show thesis
    unfolding then_do_iff check_iff parse_document_iff readFile_iff for_each_iff Let_def member_iff
    by (auto intro!: that simp: opt_prop_def)
qed

lemma manifest_icons:
  assumes "manifest_records m = Inr records" "opt_prop (js_prop m ''derivatives'') ''tauriIcons'' = Some (JArr icons)"
  shows "set icons \<subseteq> set records"
  using assms by (auto simp: manifest_records_def result_iff iterate_array_def)

text \<open>
  C30: A repository that \<^verbatim>\<open>verify\<close> accepts is what its manifest says: the manifest parses, every record it lists names
  an existing file inside the repository with the recorded hash, size, type and magic number, the icon records are
  exactly the files below the icon directory, and the retired logo is gone.
\<close>

theorem verify_sound:
  assumes "root_ok t" "fs_wf fs" "verify t fs = Inr printed"
  shows "\<exists>content m records icons files. fs_lookup fs (manifestPath t) = Some (File content) \<and> JSON_parse content = Some m
    \<and> manifest_records m = Inr records \<and> (\<forall>r \<in> set records. record_holds t fs r)
    \<and> opt_prop (js_prop m ''derivatives'') ''tauriIcons'' = Some (JArr icons)
    \<and> map (\<lambda>r. js_prop r ''path'') icons = map (\<lambda>p. Some (JStr (toRootPath t p))) files
    \<and> set files = {iconDirectory t @ q |q. \<exists>b. fs_lookup fs (iconDirectory t @ q) = Some (File b)}
    \<and> fs_lookup fs (fromRoot t ''web/public/assets/images/logo.png'') = None"
proof -
  from assms(3) obtain content m records where m: "fs_lookup fs (manifestPath t) = Some (File content)" "JSON_parse content = Some m"
    "manifest_records m = Inr records" "\<forall>r \<in> set records. verifyRecord t fs r = Inr ()"
    and i: "verify_icons t fs (opt_prop (js_prop m ''derivatives'') ''tauriIcons'') = Inr ()" and l: "verify_logo t fs = Inr ()"
    by (rule verifyE)
  have holds: "\<forall>r \<in> set records. record_holds t fs r" using m(4) verifyRecord_holds [OF assms(1)] by blast
  from i obtain icons where icons: "opt_prop (js_prop m ''derivatives'') ''tauriIcons'' = Some (JArr icons)"
    unfolding verify_icons_def then_do_iff json_array_iff by blast
  have "\<forall>r \<in> set icons. record_holds t fs r" using manifest_icons [OF m(3) icons] holds by blast
  with i obtain files where f: "walkFiles fs (iconDirectory t) = Inr files"
    "map (\<lambda>r. js_prop r ''path'') icons = map (\<lambda>p. Some (JStr (toRootPath t p))) files"
    unfolding icons by (rule verify_icons_exact)
  have "fs_lookup fs (fromRoot t ''web/public/assets/images/logo.png'') = None"
    using l by (auto simp: verify_logo_def stat_def check_def split: if_splits)
  with m(1-3) holds icons f(2) set_walkFiles [OF assms(2) f(1)] show ?thesis by blast
qed

section \<open>The built bundle\<close>

text \<open>The shape \<^verbatim>\<open>verifyDist\<close> demands of an entry of the Vite manifest, and the outputs such an entry names.\<close>

definition optional_strings :: "json option \<Rightarrow> string list option" where
  "optional_strings v = (case v of None \<Rightarrow> Some []
     | Some (JArr vs) \<Rightarrow> if list_all is_string vs then Some (map js_string vs) else None | Some _ \<Rightarrow> None)"

definition chunk_type :: "json \<Rightarrow> string list option" where
  "chunk_type chunk = (case (js_prop chunk ''file'', optional_strings (js_prop chunk ''css''), optional_strings (js_prop chunk ''assets'')) of
     (Some (JStr file), Some css, Some assets) \<Rightarrow> Some (file # css @ assets) | _ \<Rightarrow> None)"

lemma chunk_field_iff:
  "chunk_field key chunk outputs field = Inr outputs'
    \<longleftrightarrow> (\<exists>ss. optional_strings (js_prop chunk field) = Some ss \<and> outputs' = foldl (\<lambda>s x. set_add x s) outputs ss)"
  by (auto simp: chunk_field_def optional_strings_def list_all_iff foldl_map split: option.splits json.splits if_splits)

lemma chunk_outputs_iff:
  "chunk_outputs outputs (key, chunk) = Inr outputs'
    \<longleftrightarrow> (\<exists>ss. chunk_type chunk = Some ss \<and> outputs' = foldl (\<lambda>s x. set_add x s) outputs ss)"
  by (auto simp: chunk_outputs_def chunk_type_def result_iff chunk_field_iff split: option.splits json.splits)

lemma all_chunk_outputs:
  "fold_each chunk_outputs outputs chunks = Inr outputs' \<Longrightarrow>
    (\<forall>kc \<in> set chunks. chunk_type (snd kc) \<noteq> None)
    \<and> set outputs' = set outputs \<union> (\<Union>kc \<in> set chunks. set (the (chunk_type (snd kc))))"
proof (induction chunks arbitrary: outputs)
  case (Cons kc chunks)
  obtain k c where kc: "kc = (k, c)" by fastforce
  from Cons.prems obtain ss where "chunk_type c = Some ss"
    "fold_each chunk_outputs (foldl (\<lambda>s x. set_add x s) outputs ss) chunks = Inr outputs'"
    by (auto simp: kc result_iff chunk_outputs_iff)
  with Cons.IH [of "foldl (\<lambda>s x. set_add x s) outputs ss"] show ?case by (auto simp: kc set_foldl_set_add)
qed simp

text \<open>
  C0: A bundle that \<^verbatim>\<open>verifyDist\<close> accepts has a typed Vite manifest: every entry is an object with a string \<^verbatim>\<open>file\<close>
  and, where present, string arrays \<^verbatim>\<open>css\<close> and \<^verbatim>\<open>assets\<close>; every output these name exists inside
  \<^verbatim>\<open>web/dist\<close>, one of them is the JavaScript, and the packaged asset manifest is the repository's.
\<close>

theorem verifyDist_typed:
  assumes "root_ok t" "verifyDist t fs = Inr printed"
  shows "\<exists>content vite chunks. fs_lookup fs (join_path (distDirectory t) ''.vite/manifest.json'') = Some (File content)
    \<and> JSON_parse content = Some vite \<and> object_entries vite = Inr chunks
    \<and> (\<forall>kc \<in> set chunks. \<exists>outputs. chunk_type (snd kc) = Some outputs
        \<and> (\<forall>p \<in> set outputs. \<not> isAbsolute p \<and> prefix (distDirectory t) (join_path (distDirectory t) p)
             \<and> fs_lookup fs (join_path (distDirectory t) p) \<noteq> None))
    \<and> (\<exists>kc \<in> set chunks. \<exists>p \<in> set (the (chunk_type (snd kc))). startsWith p ''assets/'' \<and> extname_text p = ''.js'')
    \<and> fs_lookup fs (join_path (distDirectory t) ''.vite/shared-assets-manifest.json'') = fs_lookup fs (manifestPath t)"
proof -
  from assms(2) obtain canonical content vite chunks outputs where v:
    "fs_lookup fs (manifestPath t) = Some (File canonical)"
    "fs_lookup fs (join_path (distDirectory t) ''.vite/shared-assets-manifest.json'') = Some (File canonical)"
    "fs_lookup fs (join_path (distDirectory t) ''.vite/manifest.json'') = Some (File content)"
    "JSON_parse content = Some vite" "object_entries vite = Inr chunks" "fold_each chunk_outputs [] chunks = Inr outputs"
    "\<exists>p \<in> set outputs. startsWith p ''assets/'' \<and> extname_text p = ''.js''"
    "\<forall>p \<in> set outputs. verify_output t fs p = Inr ()"
    unfolding verifyDist_def then_do_iff check_iff parse_document_iff readFile_iff for_each_iff by blast
  have o: "\<forall>kc \<in> set chunks. chunk_type (snd kc) \<noteq> None" "set outputs = (\<Union>kc \<in> set chunks. set (the (chunk_type (snd kc))))"
    using all_chunk_outputs [OF v(6)] by simp_all
  have each: "\<not> isAbsolute p \<and> prefix (distDirectory t) (join_path (distDirectory t) p)
      \<and> fs_lookup fs (join_path (distDirectory t) p) \<noteq> None"
    if "kc \<in> set chunks" "p \<in> set (the (chunk_type (snd kc)))" for kc p
    using that v(8) o(2) verify_output_iff [OF assms(1)] by blast
  have typed: "\<forall>kc \<in> set chunks. \<exists>outputs. chunk_type (snd kc) = Some outputs
        \<and> (\<forall>p \<in> set outputs. \<not> isAbsolute p \<and> prefix (distDirectory t) (join_path (distDirectory t) p)
             \<and> fs_lookup fs (join_path (distDirectory t) p) \<noteq> None)"
  proof
    fix kc assume kc: "kc \<in> set chunks"
    then obtain ss where "chunk_type (snd kc) = Some ss" using o(1) by blast
    with each [OF kc] show "\<exists>outputs. chunk_type (snd kc) = Some outputs
        \<and> (\<forall>p \<in> set outputs. \<not> isAbsolute p \<and> prefix (distDirectory t) (join_path (distDirectory t) p)
             \<and> fs_lookup fs (join_path (distDirectory t) p) \<noteq> None)" by simp
  qed
  have "\<exists>kc \<in> set chunks. \<exists>p \<in> set (the (chunk_type (snd kc))). startsWith p ''assets/'' \<and> extname_text p = ''.js''"
    using v(7) unfolding o(2) by blast
  with typed v(1-5) show ?thesis by simp
qed

section \<open>A fresh manifest verifies\<close>

lemma obj_get_append: "obj_get k (xs @ ys) = (case obj_get k ys of None \<Rightarrow> obj_get k xs | Some v \<Rightarrow> Some v)"
  by (simp add: obj_get_def map_add_def split: option.splits)

lemma obj_get_Nil: "obj_get k [] = None"
  by (simp add: obj_get_def)

lemma obj_get_Cons: "obj_get k ((l, v) # kvs) = (case obj_get k kvs of None \<Rightarrow> if k = l then Some v else None | Some w \<Rightarrow> Some w)"
  by (auto simp: obj_get_def map_add_def split: option.splits)

lemmas obj_get_simps = obj_get_append obj_get_Nil obj_get_Cons

definition record_keys :: "string list" where
  "record_keys = [''path'', ''sha256'', ''bytes'', ''mimeType'', ''width'', ''height'']"

lemma rooted_path:
  assumes "\<forall>g \<in> set gs. segment_ok g" "gs \<noteq> []"
  shows "toRootPath t (at_root t @ gs) = join ''/'' gs" "join_path (at_root t) (join ''/'' gs) = at_root t @ gs"
    "\<not> isAbsolute (join ''/'' gs)"
proof -
  show "toRootPath t (at_root t @ gs) = join ''/'' gs" by (simp add: toRootPath_def relative_inside)
  show "join_path (at_root t) (join ''/'' gs) = at_root t @ gs" using assms by (rule join_path_plain)
  obtain g hs where g: "gs = g # hs" using assms(2) by (cases gs) auto
  then obtain c cs where "g = c # cs" "c \<noteq> CHR ''/''" using assms(1) by (cases g) (auto simp: segment_ok_def)
  then show "\<not> isAbsolute (join ''/'' gs)" by (cases hs) (auto simp: isAbsolute_def startsWith_def g)
qed

lemma fileRecord_verifies:
  assumes "fileRecord t fs (at_root t @ gs) extra = Inr r" "root_ok t" "\<forall>g \<in> set gs. segment_ok g" "gs \<noteq> []"
    and "\<forall>k \<in> set record_keys. obj_get k extra = None"
    and "\<And>b. fs_lookup fs (at_root t @ gs) = Some (File b) \<Longrightarrow> magic_ok b (mimeTypeFor (at_root t @ gs))"
    and "fs_lookup fs' (at_root t @ gs) = fs_lookup fs (at_root t @ gs)"
  shows "verifyRecord t fs' r = Inr ()"
proof -
  note rooted = rooted_path [OF assms(3,4)]
  from assms(1) obtain b where b: "fs_lookup fs (at_root t @ gs) = Some (File b)" by (auto simp: fileRecord_def result_iff)
  have read: "readFile fs (at_root t @ gs) = Inr b" "readFile fs' (at_root t @ gs) = Inr b" using b assms(7) by (simp_all add: result_iff)
  have inside: "assertRepositoryPath t (join ''/'' gs) l = Inr (at_root t @ gs)" for l
    using rooted(2,3) by (subst assertRepositoryPath_iff [OF assms(2)]) simp
  define base where "base = [(''path'', JStr (join ''/'' gs)), (''sha256'', JStr (at_sha256 t b)),
      (''bytes'', JNum (int (length b))), (''mimeType'', JStr (mimeTypeFor (at_root t @ gs)))]"
  have keys: "obj_get ''path'' (base @ extra) = Some (JStr (join ''/'' gs))"
    "obj_get ''sha256'' (base @ extra) = Some (JStr (at_sha256 t b))" "obj_get ''bytes'' (base @ extra) = Some (JNum (int (length b)))"
    "obj_get ''mimeType'' (base @ extra) = Some (JStr (mimeTypeFor (at_root t @ gs)))"
    "obj_get ''width'' (base @ extra) = None" "obj_get ''height'' (base @ extra) = None"
    using assms(5) by (simp_all add: obj_get_simps base_def record_keys_def)
  have magic: "assertMagic b (mimeTypeFor (at_root t @ gs)) l = Inr ()" for l using assms(6) [OF b] by (simp add: assertMagic_def)
  show ?thesis
  proof (cases "toLowerCase (extname (at_root t @ gs)) \<in> {''.png'', ''.webp''}")
    case True
    then obtain m where "at_metadata t b = Some m" and r: "r = JObj ((base @ extra) @
        [(''width'', JNum (int (im_width m))), (''height'', JNum (int (im_height m)))])"
      using assms(1) by (auto simp: fileRecord_def read Let_def result_iff rooted(1) base_def)
    then show ?thesis
      by (simp add: verifyRecord_def member_def text_of_def r obj_get_append [of _ "base @ extra"] obj_get_Cons obj_get_Nil
          keys inside read magic is_number_def del: append_assoc)
  next
    case False
    then have r: "r = JObj (base @ extra)" using assms(1) by (auto simp: fileRecord_def read Let_def rooted(1) base_def)
    show ?thesis
      by (simp add: verifyRecord_def member_def text_of_def r keys inside read magic is_number_def)
  qed
qed

lemma fileRecord_shape:
  assumes "fileRecord t fs p extra = Inr r" "obj_get ''path'' extra = None" "\<forall>kv \<in> set extra. json_plain (snd kv)"
  shows "js_prop r ''path'' = Some (JStr (toRootPath t p)) \<and> r \<noteq> JNull \<and> json_plain r"
  using assms by (auto simp: fileRecord_def result_iff Let_def obj_get_simps split: if_splits)

lemma root_paths:
  "manifestPath t = at_root t @ [''shared'', ''assets'', ''manifest.json'']"
  "iconDirectory t = at_root t @ [''desktop'', ''src-tauri'', ''icons'']"
  "fontDirectory t = at_root t @ [''shared'', ''public'', ''fonts'']"
  "sourcePath t = at_root t @ [''shared'', ''assets'', ''source'', ''ephemeral-sandbox-mascot.png'']"
  "distDirectory t = at_root t @ [''web'', ''dist'']"
  "fromRoot t ''shared/public'' = at_root t @ [''shared'', ''public'']"
  by (simp_all add: manifestPath_def iconDirectory_def fontDirectory_def sourcePath_def distDirectory_def fromRoot_def join_path_def norm_step_def)

lemma image_paths:
  "fromRoot t ''shared/public/brand/ephemeral-sandbox-mascot-b9408770.png''
    = at_root t @ [''shared'', ''public'', ''brand'', ''ephemeral-sandbox-mascot-b9408770.png'']"
  "fromRoot t ''shared/public/brand/ephemeral-sandbox-mascot-b9408770.webp''
    = at_root t @ [''shared'', ''public'', ''brand'', ''ephemeral-sandbox-mascot-b9408770.webp'']"
  by (simp_all add: fromRoot_def join_path_def norm_step_def)

lemma font_path:
  "font \<in> set fonts \<Longrightarrow> join_path (fontDirectory t) (fs_outputFile font)
     = at_root t @ [''shared'', ''public'', ''fonts'', fs_outputFile font] \<and> segment_ok (fs_outputFile font)"
  by (auto simp: fonts_def join_path_def norm_step_def root_paths segment_ok_def)

text \<open>A file the manifest records keeps its content when the manifest is written, and its record verifies.\<close>

lemma recorded_after_write:
  assumes w: "writeFile (manifestPath t) content fs = Inr fs'" and r: "fileRecord t fs (at_root t @ gs) extra = Inr r"
    and ok: "root_ok t" "\<forall>g \<in> set gs. segment_ok g"
    and dir: "prefix [''shared'', ''public''] gs \<or> prefix [''desktop'', ''src-tauri'', ''icons''] gs"
    and extra: "\<forall>k \<in> set record_keys. obj_get k extra = None"
    and magic: "\<And>b. fs_lookup fs (at_root t @ gs) = Some (File b) \<Longrightarrow> magic_ok b (mimeTypeFor (at_root t @ gs))"
  shows "verifyRecord t fs' r = Inr ()"
proof (rule fileRecord_verifies [OF r ok _ extra magic])
  show "gs \<noteq> []" using dir by auto
  have "\<not> prefix (at_root t @ gs) (manifestPath t)" using dir by (auto simp: root_paths prefix_Cons)
  moreover have "\<not> prefix (manifestPath t) (at_root t @ gs)" using dir by (auto simp: root_paths prefix_def)
  ultimately show "fs_lookup fs' (at_root t @ gs) = fs_lookup fs (at_root t @ gs)" by (rule lookup_not_written [OF w])
qed

lemma createManifestE:
  assumes "createManifest t source fs = Inr fs'"
  obtains png webp fontRecords icons iconRecords q md where
    "fileRecord t fs (fromRoot t ''shared/public/brand/ephemeral-sandbox-mascot-b9408770.png'') [] = Inr png"
    "fileRecord t fs (fromRoot t ''shared/public/brand/ephemeral-sandbox-mascot-b9408770.webp'') [] = Inr webp"
    "map (fontRecord t fs) fonts = map Inr fontRecords" "walkFiles fs (iconDirectory t) = Inr icons"
    "map (\<lambda>p. fileRecord t fs p []) icons = map Inr iconRecords" "readPackage t fs ''@tauri-apps/cli'' = Inr (q, md)"
    "writeFile (manifestPath t) (JSON_pretty (manifest_json t (manifest_source t source) png webp fontRecords iconRecords
       (js_prop md ''version'')) @ [newline]) fs = Inr fs'"
  using assms unfolding createManifest_def by (auto simp: result_iff intro: that)

lemma fresh_images:
  assumes "writeFile (manifestPath t) content fs = Inr fs'" "root_ok t"
    and magic: "\<forall>p b. fs_lookup fs p = Some (File b) \<and> prefix (fromRoot t ''shared/public'') p \<longrightarrow> magic_ok b (mimeTypeFor p)"
    and "name = ''ephemeral-sandbox-mascot-b9408770.png'' \<or> name = ''ephemeral-sandbox-mascot-b9408770.webp''"
    and "fileRecord t fs (at_root t @ [''shared'', ''public'', ''brand'', name]) [] = Inr r"
  shows "verifyRecord t fs' r = Inr ()"
proof (rule recorded_after_write [OF assms(1,5,2)])
  show "\<forall>g \<in> set [''shared'', ''public'', ''brand'', name]. segment_ok g" using assms(4) by (auto simp: segment_ok_def)
qed (use magic in \<open>auto simp: obj_get_Nil root_paths\<close>)

lemma fresh_fonts:
  assumes "writeFile (manifestPath t) content fs = Inr fs'" "root_ok t"
    and magic: "\<forall>p b. fs_lookup fs p = Some (File b) \<and> prefix (fromRoot t ''shared/public'') p \<longrightarrow> magic_ok b (mimeTypeFor p)"
    and "font \<in> set fonts" "fontRecord t fs font = Inr r"
  shows "verifyRecord t fs' r = Inr ()"
proof -
  note p = font_path [OF assms(4), of t]
  show ?thesis
  proof (rule recorded_after_write [OF assms(1) _ assms(2)])
    show "fileRecord t fs (at_root t @ [''shared'', ''public'', ''fonts'', fs_outputFile font])
        [(''family'', JStr (fs_family font)), (''style'', JStr ''normal''), (''weight'', JStr (fs_weight font)),
         (''subset'', JStr (fs_subset font)), (''version'', JStr (fs_version font)), (''package'', JStr (fs_packageName font)),
         (''license'', JStr (''shared/assets/licenses/'' @ fs_licenseFile font))] = Inr r"
      using assms(5) p by (simp add: fontRecord_def)
    show "\<forall>g \<in> set [''shared'', ''public'', ''fonts'', fs_outputFile font]. segment_ok g" using p by (auto simp: segment_ok_def)
  qed (use magic in \<open>auto simp: obj_get_Nil obj_get_Cons record_keys_def root_paths\<close>)
qed

lemma fresh_icons:
  assumes "writeFile (manifestPath t) content fs = Inr fs'" "root_ok t" "fs_wf fs"
    and magic: "\<forall>p b. fs_lookup fs p = Some (File b) \<and> prefix (iconDirectory t) p \<longrightarrow> magic_ok b (mimeTypeFor p)"
    and "walkFiles fs (iconDirectory t) = Inr icons" "p \<in> set icons" "fileRecord t fs p [] = Inr r"
  shows "verifyRecord t fs' r = Inr ()"
proof -
  from assms(5,6) set_walkFiles [OF assms(3,5)] obtain q b where q: "p = at_root t @ [''desktop'', ''src-tauri'', ''icons''] @ q"
    and b: "fs_lookup fs p = Some (File b)" by (auto simp: root_paths)
  show ?thesis
  proof (rule recorded_after_write [OF assms(1) _ assms(2)])
    show "fileRecord t fs (at_root t @ [''desktop'', ''src-tauri'', ''icons''] @ q) [] = Inr r" using assms(7) q by simp
    show "\<forall>g \<in> set ([''desktop'', ''src-tauri'', ''icons''] @ q). segment_ok g" using wf_lookup [OF assms(3) b] q by auto
  qed (use magic in \<open>auto simp: obj_get_Nil root_paths\<close>)
qed

lemma manifest_json_props:
  "js_prop (manifest_json t source png webp fontRecords iconRecords version) ''derivatives''
     = Some (JObj [(''web'', JObj [(''png'', png), (''webp'', webp)]), (''fonts'', JArr fontRecords), (''tauriIcons'', JArr iconRecords)])"
  "js_prop (manifest_json t source png webp fontRecords iconRecords version) ''source'' = Some source"
  "js_prop (manifest_json t source png webp fontRecords iconRecords version) ''schemaVersion'' = Some (JNum 1)"
  "js_prop (manifest_json t source png webp fontRecords iconRecords version) ''product'' = Some (JStr ''Ephemeral Sandbox'')"
  by (simp_all add: manifest_json_def obj_get_simps)

lemma manifest_json_records:
  "manifest_records (manifest_json t source png webp fontRecords iconRecords version) = Inr ([png, webp] @ fontRecords @ iconRecords)"
proof -
  have "object_entries (JObj [(''png'', png), (''webp'', webp)]) = Inr [(''png'', png), (''webp'', webp)]"
    by (simp add: map_new_def index_key_def is_digit_def)
  then show ?thesis
    by (simp add: manifest_records_def public_records_def manifest_json_props member_def object_values_def iterate_array_def opt_prop_def
        obj_get_simps del: object_entries.simps)
qed

lemma fresh_head:
  assumes "sourceMetadata t fs = Inr source"
  shows "verify_head t (snd (snd source)) (manifest_json t (manifest_source t source) png webp fontRecords iconRecords version) = Inr ()"
proof -
  obtain bytes m d where s: "source = (bytes, m, d)" by (cases source)
  have "im_width m = expected_size" "im_height m = expected_size"
    using assms by (auto simp: s sourceMetadata_def Let_def result_iff source_fields_def)
  moreover have "manifest_json t (manifest_source t source) png webp fontRecords iconRecords version \<noteq> JNull"
    by (simp add: manifest_json_def)
  ultimately show ?thesis
    by (auto simp: verify_head_def Let_def result_iff manifest_json_props manifest_source_def s obj_get_simps opt_prop_def is_number_def)
qed

lemma fresh_pins:
  assumes "js_prop png ''path'' = Some (JStr ''shared/public/brand/ephemeral-sandbox-mascot-b9408770.png'')"
    "js_prop webp ''path'' = Some (JStr ''shared/public/brand/ephemeral-sandbox-mascot-b9408770.webp'')"
  shows "verify_pins (Some (JObj [(''png'', png), (''webp'', webp)])) = Inr ()"
  using assms by (simp add: verify_pins_def publicImages_def member_def obj_get_simps opt_prop_def)

lemma fontRecords_shape: "fontRecord t fs font = Inr r \<Longrightarrow> json_plain r"
  unfolding fontRecord_def by (drule fileRecord_shape) (auto simp: obj_get_simps)

lemma fresh_plain:
  assumes "json_plain png" "json_plain webp" "\<forall>r \<in> set fontRecords. json_plain r" "\<forall>r \<in> set iconRecords. json_plain r"
    "is_string (nullish version (JStr []))"
  shows "json_plain (manifest_json t (manifest_source t source) png webp fontRecords iconRecords version)"
proof -
  obtain v where "version = None \<or> version = Some JNull \<or> version = Some (JStr v)"
    using assms(5) by (auto simp: nullish_def is_string_def split: option.splits json.splits)
  then show ?thesis using assms(1-4) by (auto simp: manifest_json_def manifest_source_def split: prod.splits)
qed

lemma fresh_icon_list:
  assumes "writeFile (manifestPath t) content fs = Inr fs'" "walkFiles fs (iconDirectory t) = Inr icons"
    "map (\<lambda>p. fileRecord t fs p []) icons = map Inr iconRecords"
  shows "verify_icons t fs' (Some (JArr iconRecords)) = Inr ()"
proof -
  have "fs_lookup fs' (iconDirectory t) = fs_lookup fs (iconDirectory t)"
    using assms(1) by (rule lookup_not_written) (simp_all add: root_paths)
  then have walk: "walkFiles fs' (iconDirectory t) = Inr icons"
    using assms(2) by (auto simp: walkFiles_def split: option.splits)
  have "map path_entry iconRecords = map (\<lambda>p. Inr (JStr (toRootPath t p))) icons"
    using assms(3)
  proof (induction icons arbitrary: iconRecords)
    case (Cons p icons)
    then obtain r rs where r: "iconRecords = r # rs" "fileRecord t fs p [] = Inr r" "map (\<lambda>p. fileRecord t fs p []) icons = map Inr rs"
      by (auto simp: Cons_eq_map_conv)
    with fileRecord_shape [OF r(2)] Cons.IH [OF r(3)] show ?case by (auto simp: path_entry_def result_iff obj_get_Nil)
  qed simp
  then have "collect_each path_entry iconRecords = Inr (map (\<lambda>p. JStr (toRootPath t p)) icons)"
    by (simp add: collect_each_iff)
  with walk show ?thesis by (simp add: verify_icons_def json_array_def del: JSON_stringify.simps)
qed


section \<open>A sample repository\<close>

definition sample_record :: "string \<Rightarrow> nat \<Rightarrow> string \<Rightarrow> json" where
  "sample_record p n mime = JObj [(''path'', JStr p), (''sha256'', JStr expected_sha256), (''bytes'', JNum (int n)), (''mimeType'', JStr mime)]"

definition sample_manifest :: json where
  "sample_manifest = JObj [(''schemaVersion'', JNum 1), (''product'', JStr ''Ephemeral Sandbox''),
     (''source'', JObj [(''path'', JStr ''shared/assets/source/ephemeral-sandbox-mascot.png''), (''sha256'', JStr expected_sha256),
        (''width'', JNum 1024), (''height'', JNum 1024), (''colorMode'', JStr ''RGBA''), (''colorSpace'', JStr ''sRGB'')]),
     (''derivatives'', JObj [(''web'', JObj
        [(''png'', sample_record ''shared/public/brand/ephemeral-sandbox-mascot-b9408770.png'' 4 ''image/png''),
         (''webp'', sample_record ''shared/public/brand/ephemeral-sandbox-mascot-b9408770.webp'' 12 ''image/webp'')]),
        (''fonts'', JArr []), (''tauriIcons'', JArr [])])]"

definition sample_vite :: json where
  "sample_vite = JObj [(''index.html'', JObj [(''file'', JStr ''assets/index.js''), (''css'', JArr [JStr ''assets/index.css''])])]"

definition sample_tools :: asset_tools where
  "sample_tools = \<lparr>at_root = [''repo''], at_sha256 = (\<lambda>_. expected_sha256),
     at_metadata = (\<lambda>_. Some \<lparr>im_width = 1024, im_height = 1024, im_channels = 4, im_space = ''srgb'', im_format = ''png'',
       im_depth = ''uchar'', im_hasAlpha = True\<rparr>), at_png = Some, at_webp = Some, at_icons = (\<lambda>_. (Some 0, [], [])),
     at_sharp_version = ''0.34'', at_vips_version = ''8.17''\<rparr>"

definition sample_brand :: node where
  "sample_brand = Dir [(''ephemeral-sandbox-mascot-b9408770.png'', File ''xPNG''), (''ephemeral-sandbox-mascot-b9408770.webp'', File ''RIFF....WEBP'')]"

definition sample_fs :: node where
  "sample_fs = Dir [(''repo'', Dir
    [(''shared'', Dir
       [(''assets'', Dir [(''source'', Dir [(''ephemeral-sandbox-mascot.png'', File ''xPNG'')]),
           (''manifest.json'', File (JSON_stringify sample_manifest))]),
        (''public'', Dir [(''brand'', sample_brand), (''fonts'', Dir [(''inter-latin-100-900-v5.2.8.woff2'', File ''wOF2''),
           (''jetbrains-mono-latin-100-800-v5.2.8.woff2'', File ''wOF2'')])])]),
     (''desktop'', Dir [(''src-tauri'', Dir [(''icons'', Dir [])])]),
     (''web'', Dir [(''src'', Dir [(''index.css'', File [])]),
        (''node_modules'', Dir [(''@tauri-apps'', Dir [(''cli'', Dir [(''package.json'',
           File (JSON_stringify (JObj [(''version'', JStr ''2'')])))])])]),
        (''dist'', Dir [(''brand'', sample_brand), (''assets'', Dir [(''index.js'', File []), (''index.css'', File [])]),
           (''.vite'', Dir [(''manifest.json'', File (JSON_stringify sample_vite)),
              (''shared-assets-manifest.json'', File (JSON_stringify sample_manifest))])])])])]"

lemma startsWith_eval:
  "startsWith s [] = True" "startsWith [] (d # ds) = False" "startsWith (c # cs) (d # ds) = (c = d \<and> startsWith cs ds)"
  by (auto simp: startsWith_def)

lemmas text_eval = quote_def escape_char_def show_int_def show_nat.simps digit_char_def char_of_def toLowerCase_def
  lower_char_def startsWith_eval

lemma sample_text: "\<not> user_path (JSON_stringify sample_manifest)"
  unfolding sample_manifest_def sample_record_def expected_sha256_def user_path_def by (simp add: text_eval)

lemma sample_roundtrip:
  "JSON_parse (JSON_stringify sample_manifest) = Some sample_manifest" "JSON_parse (JSON_stringify sample_vite) = Some sample_vite"
  by (rule JSON_roundtrip, simp add: sample_manifest_def sample_record_def sample_vite_def)+

lemma sample_root: "root_ok sample_tools" "at_root sample_tools = [''repo'']" "at_sha256 sample_tools b = expected_sha256"
  by (simp_all add: sample_tools_def segment_ok_def)

lemma sample_wf: "fs_wf sample_fs"
  by (simp add: sample_fs_def sample_brand_def segment_ok_def)

lemma sample_files:
  "readFile sample_fs (sourcePath sample_tools) = Inr ''xPNG''"
  "readFile sample_fs (manifestPath sample_tools) = Inr (JSON_stringify sample_manifest)"
  "fs_lookup sample_fs [''repo'', ''shared'', ''public'', ''brand'', ''ephemeral-sandbox-mascot-b9408770.png''] = Some (File ''xPNG'')"
  "fs_lookup sample_fs [''repo'', ''shared'', ''public'', ''brand'', ''ephemeral-sandbox-mascot-b9408770.webp''] = Some (File ''RIFF....WEBP'')"
  "walkFiles sample_fs (iconDirectory sample_tools) = Inr []"
  "readFile sample_fs (fromRoot sample_tools ''web/src/index.css'') = Inr []"
  "verify_logo sample_tools sample_fs = Inr ()"
  unfolding root_paths readFile_iff sample_root
  by (simp_all add: sample_fs_def sample_brand_def walkFiles_def verify_logo_def stat_def check_def fromRoot_def sample_root join_path_def
      norm_step_def result_iff)

lemma sample_source: "\<exists>m. sourceMetadata sample_tools sample_fs = Inr (''xPNG'', m, expected_sha256)"
  unfolding sourceMetadata_def sample_files
  by (simp add: sample_tools_def source_fields_def colorMode_of_def colorSpace_of_def expected_size_def)

lemma sample_verified: "\<exists>printed. verify sample_tools sample_fs = Inr printed"
proof -
  obtain m where s: "sourceMetadata sample_tools sample_fs = Inr (''xPNG'', m, expected_sha256)" using sample_source by blast
  have head: "verify_head sample_tools expected_sha256 sample_manifest = Inr ()"
    by (simp add: verify_head_def member_def sample_manifest_def obj_get_simps opt_prop_def is_number_def expected_size_def root_paths toRootPath_def
        relative_inside)
  have records: "manifest_records sample_manifest = Inr [sample_record ''shared/public/brand/ephemeral-sandbox-mascot-b9408770.png'' 4 ''image/png'',
      sample_record ''shared/public/brand/ephemeral-sandbox-mascot-b9408770.webp'' 12 ''image/webp'']"
    by (simp add: manifest_records_def public_records_def sample_manifest_def member_def opt_prop_def obj_get_simps object_values_def iterate_array_def
        map_new_def index_key_def is_digit_def)
  have path: "assertRepositoryPath sample_tools ''shared/public/brand/ephemeral-sandbox-mascot-b9408770.png'' l
        = Inr [''repo'', ''shared'', ''public'', ''brand'', ''ephemeral-sandbox-mascot-b9408770.png'']"
      "assertRepositoryPath sample_tools ''shared/public/brand/ephemeral-sandbox-mascot-b9408770.webp'' l
        = Inr [''repo'', ''shared'', ''public'', ''brand'', ''ephemeral-sandbox-mascot-b9408770.webp'']" for l
    by (simp_all only: assertRepositoryPath_iff [OF sample_root(1)]) (simp_all add: sample_root isAbsolute_def startsWith_def join_path_def norm_step_def)
  have each: "\<forall>r \<in> set [sample_record ''shared/public/brand/ephemeral-sandbox-mascot-b9408770.png'' 4 ''image/png'',
      sample_record ''shared/public/brand/ephemeral-sandbox-mascot-b9408770.webp'' 12 ''image/webp''].
      verifyRecord sample_tools sample_fs r = Inr ()"
    by (simp add: verifyRecord_def sample_record_def member_def text_of_def obj_get_simps path readFile_def sample_files sample_root is_number_def
        mimeTypeFor_def extname_def toLowerCase_def lower_char_def assertMagic_def magic_ok_def ascii_def char_of_def at_last_def bit_Suc_0_iff)
  have icons: "verify_icons sample_tools sample_fs (Some (JArr [])) = Inr ()"
    by (simp add: verify_icons_def sample_files json_array_def)
  have pins: "verify_pins (Some (JObj [(''png'', sample_record ''shared/public/brand/ephemeral-sandbox-mascot-b9408770.png'' 4 ''image/png''),
      (''webp'', sample_record ''shared/public/brand/ephemeral-sandbox-mascot-b9408770.webp'' 12 ''image/webp'')])) = Inr ()"
    by (rule fresh_pins) (simp_all add: sample_record_def obj_get_simps)
  have parts: "member (js_prop sample_manifest ''derivatives'') ''web'' = Inr (Some (JObj [(''png'', sample_record ''shared/public/brand/ephemeral-sandbox-mascot-b9408770.png'' 4 ''image/png''),
      (''webp'', sample_record ''shared/public/brand/ephemeral-sandbox-mascot-b9408770.webp'' 12 ''image/webp'')]))"
    "opt_prop (js_prop sample_manifest ''derivatives'') ''tauriIcons'' = Some (JArr [])"
    "opt_prop (js_prop sample_manifest ''derivatives'') ''fonts'' = Some (JArr [])"
    by (simp_all add: sample_manifest_def obj_get_simps opt_prop_def member_def)
  have all: "for_each (verifyRecord sample_tools sample_fs) [sample_record ''shared/public/brand/ephemeral-sandbox-mascot-b9408770.png'' 4 ''image/png'',
      sample_record ''shared/public/brand/ephemeral-sandbox-mascot-b9408770.webp'' 12 ''image/webp''] = Inr ()"
    unfolding for_each_iff by (rule each)
  show ?thesis
    by (simp add: verify_def s sample_files sample_text parse_document_def sample_roundtrip head Let_def parts pins records all icons iterate_array_def
        del: for_each.simps) simp
qed

theorem verify_sound_witness:
  "\<exists>content m records icons files. fs_lookup sample_fs (manifestPath sample_tools) = Some (File content) \<and> JSON_parse content = Some m
    \<and> manifest_records m = Inr records \<and> (\<forall>r \<in> set records. record_holds sample_tools sample_fs r)
    \<and> opt_prop (js_prop m ''derivatives'') ''tauriIcons'' = Some (JArr icons)
    \<and> map (\<lambda>r. js_prop r ''path'') icons = map (\<lambda>p. Some (JStr (toRootPath sample_tools p))) files
    \<and> set files = {iconDirectory sample_tools @ q |q. \<exists>b. fs_lookup sample_fs (iconDirectory sample_tools @ q) = Some (File b)}
    \<and> fs_lookup sample_fs (fromRoot sample_tools ''web/public/assets/images/logo.png'') = None"
proof -
  obtain printed where "verify sample_tools sample_fs = Inr printed" using sample_verified by blast
  then show ?thesis by (rule verify_sound [OF sample_root(1) sample_wf])
qed

lemma sample_packaged:
  assumes "public_records sample_manifest = Inr records"
  shows "for_each (verify_packaged sample_tools sample_fs) records = Inr ()"
proof -
  have "records = [sample_record ''shared/public/brand/ephemeral-sandbox-mascot-b9408770.png'' 4 ''image/png'',
      sample_record ''shared/public/brand/ephemeral-sandbox-mascot-b9408770.webp'' 12 ''image/webp'']"
    using assms by (simp add: public_records_def sample_manifest_def member_def opt_prop_def obj_get_simps object_values_def iterate_array_def
        map_new_def index_key_def is_digit_def)
  moreover have "readFile sample_fs [''repo'', ''web'', ''dist'', ''brand'', ''ephemeral-sandbox-mascot-b9408770.png''] = Inr ''xPNG''"
    "readFile sample_fs [''repo'', ''web'', ''dist'', ''brand'', ''ephemeral-sandbox-mascot-b9408770.webp''] = Inr ''RIFF....WEBP''"
    by (simp_all add: readFile_def sample_fs_def sample_brand_def)
  ultimately show ?thesis
    by (simp add: verify_packaged_def sample_record_def member_def text_of_def obj_get_simps root_paths sample_root public_part_def
        startsWith_eval join_path_def norm_step_def)
qed

lemma no_host:
  assumes "\<not> str_includes (toLowerCase content) ''.com''"
  shows "\<not> (\<exists>host \<in> set forbidden_hosts. str_includes (toLowerCase content) host)"
proof -
  have "str_includes host ''.com''" if "host \<in> set forbidden_hosts" for host
    using that by (auto simp: forbidden_hosts_def startsWith_eval)
  with assms show ?thesis unfolding includes_sublist by (meson sublist_order.order_trans)
qed

lemma sample_dist_files:
  assumes "walkFiles sample_fs (distDirectory sample_tools) = Inr files"
  shows "for_each (verify_text sample_tools sample_fs) files = Inr ()"
proof -
  have set: "set files = {[''repo'', ''web'', ''dist'', ''brand'', ''ephemeral-sandbox-mascot-b9408770.png''],
      [''repo'', ''web'', ''dist'', ''brand'', ''ephemeral-sandbox-mascot-b9408770.webp''],
      [''repo'', ''web'', ''dist'', ''assets'', ''index.js''], [''repo'', ''web'', ''dist'', ''assets'', ''index.css''],
      [''repo'', ''web'', ''dist'', ''.vite'', ''manifest.json''],
      [''repo'', ''web'', ''dist'', ''.vite'', ''shared-assets-manifest.json'']}"
    using assms by (auto simp: walkFiles_def root_paths sample_root sample_fs_def sample_brand_def simp del: js_sort_simps js_insert.simps)
  have texts: "readFile sample_fs [''repo'', ''web'', ''dist'', ''assets'', ''index.js''] = Inr []"
    "readFile sample_fs [''repo'', ''web'', ''dist'', ''assets'', ''index.css''] = Inr []"
    "readFile sample_fs [''repo'', ''web'', ''dist'', ''.vite'', ''manifest.json''] = Inr (JSON_stringify sample_vite)"
    "readFile sample_fs [''repo'', ''web'', ''dist'', ''.vite'', ''shared-assets-manifest.json''] = Inr (JSON_stringify sample_manifest)"
    by (simp_all add: readFile_def sample_fs_def)
  have clean: "\<not> str_includes (toLowerCase (JSON_stringify sample_vite)) ''.com''" "\<not> str_includes (toLowerCase []) ''.com''"
    "\<not> str_includes (toLowerCase (JSON_stringify sample_manifest)) ''.com''"
    unfolding sample_vite_def sample_manifest_def sample_record_def expected_sha256_def by (simp_all add: text_eval)
  show ?thesis
    unfolding for_each_iff set verify_text_def
    by (simp add: texts no_host [OF clean(1)] no_host [OF clean(2)] no_host [OF clean(3)] check_def extname_def at_last_def)
qed

lemma sample_dist: "\<exists>printed. verifyDist sample_tools sample_fs = Inr printed"
proof -
  obtain printed where v: "verify sample_tools sample_fs = Inr printed" using sample_verified by blast
  obtain records where r: "public_records sample_manifest = Inr records"
    by (simp add: public_records_def sample_manifest_def member_def opt_prop_def obj_get_simps object_values_def iterate_array_def Let_def)
  have files: "readFile sample_fs [''repo'', ''web'', ''dist'', ''.vite'', ''shared-assets-manifest.json''] = Inr (JSON_stringify sample_manifest)"
    "readFile sample_fs [''repo'', ''web'', ''dist'', ''.vite'', ''manifest.json''] = Inr (JSON_stringify sample_vite)"
    by (simp_all add: readFile_def sample_fs_def)
  have paths: "join_path (distDirectory sample_tools) ''.vite/shared-assets-manifest.json'' = [''repo'', ''web'', ''dist'', ''.vite'', ''shared-assets-manifest.json'']"
    "join_path (distDirectory sample_tools) ''.vite/manifest.json'' = [''repo'', ''web'', ''dist'', ''.vite'', ''manifest.json'']"
    by (simp_all add: root_paths sample_root join_path_def norm_step_def)
  have chunks: "object_entries sample_vite = Inr [(''index.html'', JObj [(''file'', JStr ''assets/index.js''), (''css'', JArr [JStr ''assets/index.css''])])]"
    by (simp add: sample_vite_def map_new_def index_key_def is_digit_def)
  have outputs: "fold_each chunk_outputs [] [(''index.html'', JObj [(''file'', JStr ''assets/index.js''), (''css'', JArr [JStr ''assets/index.css''])])]
      = Inr [''assets/index.js'', ''assets/index.css'']"
    by (simp add: chunk_outputs_def chunk_field_def obj_get_simps is_string_def set_add_def)
  have out: "for_each (verify_output sample_tools sample_fs) [''assets/index.js'', ''assets/index.css''] = Inr ()"
    unfolding for_each_iff by (simp add: verify_output_iff [OF sample_root(1)] isAbsolute_def startsWith_eval root_paths sample_root
        join_path_def norm_step_def) (simp add: sample_fs_def)
  have js: "extname_text ''assets/index.js'' = ''.js''" by (simp add: extname_text_def extname_def at_last_def)
  obtain files' where w: "walkFiles sample_fs (distDirectory sample_tools) = Inr files'"
    by (simp add: walkFiles_def root_paths sample_root sample_fs_def)
  show ?thesis
    by (simp add: verifyDist_def v sample_files parse_document_def sample_roundtrip r sample_packaged [OF r] files paths chunks outputs out js w
      sample_dist_files [OF w] startsWith_eval del: for_each.simps fold_each.simps)
qed

theorem verifyDist_typed_witness:
  "\<exists>content vite chunks. fs_lookup sample_fs (join_path (distDirectory sample_tools) ''.vite/manifest.json'') = Some (File content)
    \<and> JSON_parse content = Some vite \<and> object_entries vite = Inr chunks
    \<and> (\<forall>kc \<in> set chunks. \<exists>outputs. chunk_type (snd kc) = Some outputs
        \<and> (\<forall>p \<in> set outputs. \<not> isAbsolute p \<and> prefix (distDirectory sample_tools) (join_path (distDirectory sample_tools) p)
             \<and> fs_lookup sample_fs (join_path (distDirectory sample_tools) p) \<noteq> None))
    \<and> (\<exists>kc \<in> set chunks. \<exists>p \<in> set (the (chunk_type (snd kc))). startsWith p ''assets/'' \<and> extname_text p = ''.js'')
    \<and> fs_lookup sample_fs (join_path (distDirectory sample_tools) ''.vite/shared-assets-manifest.json'')
      = fs_lookup sample_fs (manifestPath sample_tools)"
proof -
  obtain printed where "verifyDist sample_tools sample_fs = Inr printed" using sample_dist by blast
  then show ?thesis by (rule verifyDist_typed [OF sample_root(1)])
qed

lemma sample_package:
  "readPackage sample_tools sample_fs ''@tauri-apps/cli''
    = Inr ([''repo'', ''web'', ''node_modules'', ''@tauri-apps'', ''cli''], JObj [(''version'', JStr ''2'')])"
proof -
  have "readFile sample_fs [''repo'', ''web'', ''node_modules'', ''@tauri-apps'', ''cli'', ''package.json'']
      = Inr (JSON_stringify (JObj [(''version'', JStr ''2'')]))" by (simp add: readFile_def sample_fs_def del: JSON_stringify.simps)
  moreover have "JSON_parse (JSON_stringify (JObj [(''version'', JStr ''2'')])) = Some (JObj [(''version'', JStr ''2'')])"
    by (rule JSON_roundtrip) simp
  ultimately show ?thesis
    by (simp add: readPackage_def parse_document_def fromRoot_def sample_root join_path_def norm_step_def del: JSON_stringify.simps)
qed

lemma sample_created: "\<exists>fs'. createManifest sample_tools source sample_fs = Inr fs'"
proof -
  have brand: "readFile sample_fs (fromRoot sample_tools ''shared/public/brand/ephemeral-sandbox-mascot-b9408770.png'') = Inr ''xPNG''"
    "readFile sample_fs (fromRoot sample_tools ''shared/public/brand/ephemeral-sandbox-mascot-b9408770.webp'') = Inr ''RIFF....WEBP''"
    by (simp_all add: image_paths sample_root result_iff sample_files)
  have font: "\<exists>b. readFile sample_fs (join_path (fontDirectory sample_tools) (fs_outputFile font)) = Inr b" if "font \<in> set fonts" for font
    using that unfolding font_path [OF that, THEN conjunct1] readFile_iff sample_root by (auto simp: fonts_def sample_fs_def)
  have recorded: "\<exists>r. fileRecord sample_tools sample_fs p extra = Inr r" if "readFile sample_fs p = Inr b" for p extra b
    using that by (auto simp: fileRecord_def Let_def sample_tools_def)
  obtain png webp where images: "fileRecord sample_tools sample_fs (fromRoot sample_tools ''shared/public/brand/ephemeral-sandbox-mascot-b9408770.png'') [] = Inr png"
    "fileRecord sample_tools sample_fs (fromRoot sample_tools ''shared/public/brand/ephemeral-sandbox-mascot-b9408770.webp'') [] = Inr webp"
    using recorded brand by metis
  have "\<forall>font \<in> set fonts. \<exists>r. fontRecord sample_tools sample_fs font = Inr r" using font recorded unfolding fontRecord_def by blast
  then have "collect_each (fontRecord sample_tools sample_fs) fonts = Inr (map (\<lambda>font. projr (fontRecord sample_tools sample_fs font)) fonts)"
    by (intro collect_each_map) (metis sum.sel(2))
  moreover have "\<exists>fs'. writeFile (manifestPath sample_tools) content sample_fs = Inr fs'" for content
    by (simp add: root_paths sample_root sample_fs_def del: JSON_stringify.simps)
  ultimately show ?thesis
    by (simp add: createManifest_def images sample_files sample_package member_def del: collect_each.simps(2))
qed

lemma sample_magic:
  assumes "fs_lookup sample_fs p = Some (File b)" "prefix (fromRoot sample_tools ''shared/public'') p \<or> prefix (iconDirectory sample_tools) p"
  shows "magic_ok b (mimeTypeFor p)"
proof -
  consider q where "p = [''repo'', ''shared'', ''public''] @ q" | q where "p = [''repo'', ''desktop'', ''src-tauri'', ''icons''] @ q"
    using assms(2) unfolding root_paths sample_root by (auto simp: prefix_def)
  then show ?thesis
  proof cases
    case 1
    with assms(1) have "fs_lookup (Dir [(''brand'', sample_brand), (''fonts'', Dir [(''inter-latin-100-900-v5.2.8.woff2'', File ''wOF2''),
           (''jetbrains-mono-latin-100-800-v5.2.8.woff2'', File ''wOF2'')])]) q = Some (File b)" by (simp add: sample_fs_def)
    then obtain d name where "q = [d, name]" and "(name, b) \<in> {(''inter-latin-100-900-v5.2.8.woff2'', ''wOF2''),
           (''jetbrains-mono-latin-100-800-v5.2.8.woff2'', ''wOF2''), (''ephemeral-sandbox-mascot-b9408770.png'', ''xPNG''),
           (''ephemeral-sandbox-mascot-b9408770.webp'', ''RIFF....WEBP'')}"
      unfolding sample_brand_def by (cases q; cases "tl q"; cases "tl (tl q)") (auto split: if_splits)
    with 1 show ?thesis
      by (auto simp: mimeTypeFor_def extname_def toLowerCase_def lower_char_def magic_ok_def ascii_def char_of_def at_last_def bit_Suc_0_iff)
  next
    case 2
    with assms(1) show ?thesis by (cases q) (simp_all add: sample_fs_def)
  qed
qed


end
