(* ===== verification/Server_Http.thy ===== *)
theory Server_Http
  imports Json Results
begin

text \<open>
  What the console server takes from HTTP: header maps, requests and the response builders of
  \<^verbatim>\<open>server/src/response.rs\<close>.  A header map is the list of its entries with lower-case names; \<open>header_insert\<close>
  replaces every value of a name.  A request's body is \<^term>\<open>None\<close> when reading it failed or exceeded its limit.
\<close>

type_synonym header_map = "(string \<times> string) list"

definition headers_all :: "string \<Rightarrow> header_map \<Rightarrow> string list" where
  "headers_all name hs = map snd (filter (\<lambda>h. fst h = name) hs)"

definition header_get :: "string \<Rightarrow> header_map \<Rightarrow> string option" where
  "header_get name hs = (case headers_all name hs of [] \<Rightarrow> None | v # _ \<Rightarrow> Some v)"

definition header_remove :: "string \<Rightarrow> header_map \<Rightarrow> header_map" where
  "header_remove name hs = filter (\<lambda>h. fst h \<noteq> name) hs"

definition header_insert :: "string \<Rightarrow> string \<Rightarrow> header_map \<Rightarrow> header_map" where
  "header_insert name v hs = header_remove name hs @ [(name, v)]"

text \<open>\<^verbatim>\<open>HeaderValue::to_str\<close>: visible ASCII, space and tab.\<close>

definition header_text :: "string \<Rightarrow> string option" where
  "header_text v = (if \<forall>c \<in> set v. (of_char c :: nat) = 9 \<or> 32 \<le> (of_char c :: nat) \<and> (of_char c :: nat) < 127 then Some v else None)"

record srv_request =
  srq_method :: string
  srq_path :: string
  srq_query :: "string option"
  srq_headers :: header_map
  srq_body :: "string option"

record srv_response =
  srs_status :: nat
  srs_headers :: header_map
  srs_body :: string

definition with_content_type :: "nat \<Rightarrow> string \<Rightarrow> string \<Rightarrow> srv_response" where
  "with_content_type status content_type body = \<lparr>srs_status = status, srs_headers = [(''content-type'', content_type)], srs_body = body\<rparr>"

definition text_response :: "nat \<Rightarrow> string \<Rightarrow> srv_response" where
  "text_response status message = with_content_type status ''text/plain; charset=utf-8'' message"

definition json_response :: "nat \<Rightarrow> json \<Rightarrow> srv_response" where
  "json_response status v = with_content_type status ''application/json'' (JSON_stringify v)"

definition html_response :: "nat \<Rightarrow> string \<Rightarrow> srv_response" where
  "html_response status body = with_content_type status ''text/html; charset=utf-8'' body"

definition no_store :: "srv_response \<Rightarrow> srv_response" where
  "no_store r = r\<lparr>srs_headers := header_insert ''cache-control'' ''no-store'' (srs_headers r)\<rparr>"

section \<open>Laws of header maps\<close>

lemma headers_all_append [simp]: "headers_all n (xs @ ys) = headers_all n xs @ headers_all n ys"
  by (simp add: headers_all_def)

lemma headers_all_remove [simp]: "headers_all n (header_remove m hs) = (if n = m then [] else headers_all n hs)"
  by (induction hs) (auto simp: headers_all_def header_remove_def)

lemma headers_all_insert [simp]: "headers_all n (header_insert m v hs) = (if n = m then [v] else headers_all n hs)"
  by (simp add: header_insert_def) (simp add: headers_all_def)

lemma headers_all_Nil [simp]: "headers_all n [] = []"
  by (simp add: headers_all_def)

lemma headers_all_Cons: "headers_all n (h # hs) = (if fst h = n then snd h # headers_all n hs else headers_all n hs)"
  by (simp add: headers_all_def)

lemma header_get_all: "header_get n hs = Some v \<Longrightarrow> v \<in> set (headers_all n hs)"
  by (auto simp: header_get_def split: list.splits)

lemma response_simps [simp]:
  "srs_status (text_response st m) = st" "srs_body (text_response st m) = m" "srs_status (json_response st v) = st"
  "srs_body (json_response st v) = JSON_stringify v" "srs_status (no_store r) = srs_status r" "srs_body (no_store r) = srs_body r"
  "srs_status (html_response st m) = st" "srs_body (html_response st m) = m"
  by (simp_all add: text_response_def json_response_def html_response_def with_content_type_def no_store_def)

text \<open>White space as Rust's \<^verbatim>\<open>str::trim\<close> sees it, within Latin-1, and ASCII case folding.\<close>

definition rust_space :: "char \<Rightarrow> bool" where
  "rust_space c = ((of_char c :: nat) \<in> {9, 10, 11, 12, 13, 32, 133, 160})"

definition rust_trim :: "string \<Rightarrow> string" where
  "rust_trim s = rev (dropWhile rust_space (rev (dropWhile rust_space s)))"

definition ascii_lower :: "string \<Rightarrow> string" where
  "ascii_lower s = map (\<lambda>c. let n = of_char c :: nat in if 65 \<le> n \<and> n \<le> 90 then char_of (n + 32) else c) s"

end
