(* ===== verification/Activity.thy ===== *)
theory Activity
  imports Api_Types
begin

text \<open>
  Sandbox activity and its presentation: \<^verbatim>\<open>web/src/core/activity.ts\<close> and
  \<^verbatim>\<open>web/src/core/status.ts\<close>.  The argument \<open>lastSnapshotRevision\<close> of the request gate is
  \<^verbatim>\<open>undefined\<close> (no attempt yet, \<^term>\<open>None\<close>), \<^verbatim>\<open>null\<close> (an attempt without a revision,
  \<^term>\<open>Some None\<close>) or a number.
\<close>

section \<open>Activity\<close>

datatype PollMode = Fast | Slow

definition snapshotForSandbox :: "SnapshotResult option \<Rightarrow> string \<Rightarrow> SandboxSnapshot option" where
  "snapshotForSandbox snapshot sandboxId = Option.bind snapshot (\<lambda>s.
     find (\<lambda>entry. ss_sandbox_id entry = sandboxId) (snap_sandboxes s))"

definition is_ready :: "SandboxRecord option \<Rightarrow> bool" where
  "is_ready r = (map_option rec_state r = Some Ready)"

fun snapshotHasActivity :: "SandboxRecord option \<Rightarrow> SnapshotResult option \<Rightarrow> bool" where
  "snapshotHasActivity None snapshot = False"
| "snapshotHasActivity (Some r) snapshot =
     (if rec_state r \<noteq> Ready then False
      else (case snapshotForSandbox snapshot (rec_id r) of
        None \<Rightarrow> False
      | Some sandbox \<Rightarrow> 0 < st_active_leases (ss_stack sandbox) \<or> 0 < inFlightCount sandbox))"

text \<open>\<^verbatim>\<open>typeof revision === "number" && revision !== last\<close>.\<close>

definition new_revision :: "int option \<Rightarrow> int option option \<Rightarrow> bool" where
  "new_revision revision lastRev = (case revision of None \<Rightarrow> False | Some n \<Rightarrow> lastRev \<noteq> Some (Some n))"

fun shouldRequestSandboxSnapshot ::
    "SandboxRecord option \<Rightarrow> SnapshotResult option \<Rightarrow> int option option \<Rightarrow> bool" where
  "shouldRequestSandboxSnapshot None snapshot lastRev = False"
| "shouldRequestSandboxSnapshot (Some r) snapshot lastRev =
     (if rec_state r \<noteq> Ready then False
      else (case snapshot of
        None \<Rightarrow> if lastRev = None then True else new_revision (rec_activity_revision r) lastRev
      | Some s \<Rightarrow> if snapshotHasActivity (Some r) (Some s) then True
                  else new_revision (rec_activity_revision r) lastRev))"

definition snapshotPollingMode :: "SandboxRecord option \<Rightarrow> SnapshotResult option \<Rightarrow> PollMode" where
  "snapshotPollingMode r snapshot = (if snapshotHasActivity r snapshot then Fast else Slow)"

definition snapshotActiveCommandCount :: "SandboxRecord \<Rightarrow> SnapshotResult option \<Rightarrow> nat option" where
  "snapshotActiveCommandCount r snapshot = (if rec_state r \<noteq> Ready then None
     else map_option inFlightCount (snapshotForSandbox snapshot (rec_id r)))"

section \<open>Status\<close>

datatype SandboxDisplayState = Lifecycle SandboxState | Active

datatype SandboxStatusTone = Tone_active | Tone_success | Tone_warning | Tone_walnut | Tone_neutral | Tone_danger

record SandboxStatusPresentation =
  pr_display :: SandboxDisplayState
  pr_lifecycle :: SandboxState
  pr_label :: string
  pr_tone :: SandboxStatusTone
  pr_pulse :: bool

fun LIFECYCLE_PRESENTATION :: "SandboxState \<Rightarrow> string \<times> SandboxStatusTone" where
  "LIFECYCLE_PRESENTATION Creating = (''Creating'', Tone_warning)"
| "LIFECYCLE_PRESENTATION Ready = (''Ready'', Tone_success)"
| "LIFECYCLE_PRESENTATION Stopping = (''Stopping'', Tone_walnut)"
| "LIFECYCLE_PRESENTATION Stopped = (''Stopped'', Tone_neutral)"
| "LIFECYCLE_PRESENTATION Failed = (''Failed'', Tone_danger)"

fun num_pos :: "jsnum \<Rightarrow> bool" where
  "num_pos (Fin q) = (0 < q)"
| "num_pos PosInf = True"
| "num_pos _ = False"

definition displayStateFor :: "SandboxState \<Rightarrow> jsnum option \<Rightarrow> SandboxDisplayState" where
  "displayStateFor lifecycleState activeCommands =
     (if lifecycleState = Ready \<and> (case activeCommands of None \<Rightarrow> False
          | Some n \<Rightarrow> isFinite n \<and> num_pos n)
      then Active else Lifecycle lifecycleState)"

definition sandboxStatus :: "SandboxState \<Rightarrow> jsnum option \<Rightarrow> SandboxStatusPresentation" where
  "sandboxStatus lifecycleState activeCommands =
     (if displayStateFor lifecycleState activeCommands = Active
      then \<lparr>pr_display = Active, pr_lifecycle = lifecycleState, pr_label = ''Active'',
            pr_tone = Tone_active, pr_pulse = True\<rparr>
      else (case LIFECYCLE_PRESENTATION lifecycleState of (label, tone) \<Rightarrow>
           \<lparr>pr_display = Lifecycle lifecycleState, pr_lifecycle = lifecycleState, pr_label = label,
            pr_tone = tone, pr_pulse = False\<rparr>))"

section \<open>Laws\<close>

lemma snapshotHasActivity_iff:
  "snapshotHasActivity r snapshot \<longleftrightarrow> (\<exists>rec s. r = Some rec \<and> rec_state rec = Ready \<and>
     snapshotForSandbox snapshot (rec_id rec) = Some s \<and>
     (0 < st_active_leases (ss_stack s) \<or>
      (\<exists>w \<in> set (ss_workspaces s). ws_active_namespace_executions w \<noteq> [])))"
  by (cases r) (auto simp: inFlightCount_pos_iff split: option.splits)

lemma snapshotForSandbox_SomeD:
  "snapshotForSandbox snapshot i = Some s \<Longrightarrow> ss_sandbox_id s = i"
  by (auto simp: snapshotForSandbox_def find_Some_iff split: bind_splits)

text \<open>The presentation is pulsing and active together, and only on a ready record with live commands.\<close>

lemma sandboxStatus_pulse_iff:
  "pr_pulse (sandboxStatus st n) \<longleftrightarrow> st = Ready \<and> (\<exists>q. n = Some (Fin q) \<and> 0 < q)"
  by (cases n; cases "the n"; cases st) (auto simp: sandboxStatus_def displayStateFor_def)

lemma sandboxStatus_lifecycle [simp]: "pr_lifecycle (sandboxStatus st n) = st"
  by (simp add: sandboxStatus_def split: prod.splits)

lemma sandboxStatus_label_inj:
  "pr_label (sandboxStatus st n) = pr_label (sandboxStatus st' n') \<longleftrightarrow>
   pr_display (sandboxStatus st n) = pr_display (sandboxStatus st' n')"
  by (cases st; cases st') (auto simp: sandboxStatus_def displayStateFor_def)

end
