(* ===== verification/Machine.thy ===== *)
theory Machine
  imports Prelude
begin

text \<open>
  React components and hooks as state machines.  A component's state is a record; an event is a
  user action, an effect that the renderer runs, or the arrival of an asynchronous answer; one
  function gives the next state.  A renderer handles one event at a time, so a run is a list of
  events.  The locale \<open>event_machine\<close> states what a step function promises (it keeps an
  invariant), and gives what follows for every run; it is an \<open>environment_machine\<close>, whose events may
  be constrained by what the environment can send; \<open>guarded_machine\<close> adds a measure of work
  in flight that no step takes above a bound.
\<close>

fun run :: "('s \<Rightarrow> 'e \<Rightarrow> 's) \<Rightarrow> 's \<Rightarrow> 'e list \<Rightarrow> 's" where
  "run step s [] = s"
| "run step s (e # es) = run step (step s e) es"

lemma run_append: "run step s (es @ fs) = run step (run step s es) fs"
  by (induction es arbitrary: s) auto

lemma run_snoc: "run step s (es @ [e]) = step (run step s es) e"
  by (simp add: run_append)

locale environment_machine =
  fixes step :: "'s \<Rightarrow> 'e \<Rightarrow> 's" and inv :: "'s \<Rightarrow> bool" and possible :: "'e \<Rightarrow> bool"
  assumes inv_possible_step: "inv s \<Longrightarrow> possible e \<Longrightarrow> inv (step s e)"
begin

lemma inv_possible_run: "inv s \<Longrightarrow> \<forall>e \<in> set es. possible e \<Longrightarrow> inv (run step s es)"
  by (induction es arbitrary: s) (auto intro: inv_possible_step)

end

locale event_machine =
  fixes step :: "'s \<Rightarrow> 'e \<Rightarrow> 's" and inv :: "'s \<Rightarrow> bool"
  assumes inv_step: "inv s \<Longrightarrow> inv (step s e)"

sublocale event_machine \<subseteq> environment_machine step inv "\<lambda>_. True"
  by unfold_locales (rule inv_step)

context event_machine
begin

lemma inv_run: "inv s \<Longrightarrow> inv (run step s es)"
  by (simp add: inv_possible_run)

end

locale guarded_machine = event_machine step inv
  for step :: "'s \<Rightarrow> 'e \<Rightarrow> 's" and inv :: "'s \<Rightarrow> bool" +
  fixes in_flight :: "'s \<Rightarrow> nat" and cap :: nat
  assumes in_flight_bound: "inv s \<Longrightarrow> in_flight s \<le> cap"
begin

lemma in_flight_run: "inv s \<Longrightarrow> in_flight (run step s es) \<le> cap"
  by (simp add: in_flight_bound inv_run)

end

end
