(* ===== verification/Poll.thy ===== *)
theory Poll
  imports Activity Machine
begin

text \<open>
  Polling: \<^verbatim>\<open>web/src/poll/\<close>.  The scheduler (TanStack Query) is not modelled; what the console
  gives it is: the interval of a poll, and for every hook the condition under which a request is
  made and what an attempt records.  The locale \<open>revision_gate\<close> is the contract of
  \<^verbatim>\<open>docs/polling-contract.md\<close>: a ready sandbox is resolved once, again after a new manager
  revision, and continuously only while it is active.  It is interpreted for the three gates of
  the console, and gives each of them the bound on the requests an idle sandbox costs.
\<close>

section \<open>usePoll\<close>

definition FAST_POLL_MS :: int where "FAST_POLL_MS = 400"
definition SLOW_POLL_MS :: int where "SLOW_POLL_MS = 2000"
definition IDLE_AFTER_MS :: int where "IDLE_AFTER_MS = 15000"
definition IDLE_MULTIPLIER :: int where "IDLE_MULTIPLIER = 4"
definition MAX_IDLE_MS :: int where "MAX_IDLE_MS = 8000"

record PollTracking =
  tk_at :: int
  tk_fingerprint :: string

definition base_ms :: "PollMode \<Rightarrow> int" where
  "base_ms mode = (if mode = Fast then FAST_POLL_MS else SLOW_POLL_MS)"

text \<open>The result is the interval (\<^term>\<open>None\<close> for \<^verbatim>\<open>false\<close>) and the updated tracking.\<close>

definition pollInterval ::
    "json option \<Rightarrow> PollMode \<Rightarrow> PollTracking \<Rightarrow> int \<Rightarrow> bool \<Rightarrow> int option \<times> PollTracking" where
  "pollInterval data mode tracking now hidden =
     (if hidden then (None, tracking)
      else let base = base_ms mode;
               fingerprint = (case data of None \<Rightarrow> [] | Some v \<Rightarrow> JSON_stringify v)
           in if fingerprint \<noteq> tk_fingerprint tracking
              then (Some base, tracking\<lparr>tk_fingerprint := fingerprint, tk_at := now\<rparr>)
              else if IDLE_AFTER_MS < now - tk_at tracking
              then (Some (min (base * IDLE_MULTIPLIER) MAX_IDLE_MS), tracking)
              else (Some base, tracking))"

text \<open>A sequence of scheduler callbacks: what each one sees, and the interval it gives.\<close>

fun pollIntervals :: "PollTracking \<Rightarrow> (json option \<times> PollMode \<times> int \<times> bool) list \<Rightarrow> int option list" where
  "pollIntervals tracking [] = []"
| "pollIntervals tracking ((data, mode, now, hidden) # cs) =
     (case pollInterval data mode tracking now hidden of (i, tracking') \<Rightarrow> i # pollIntervals tracking' cs)"

section \<open>Revision gates\<close>

record 'd gate =
  g_data :: "'d option"
  g_last :: "int option option"
  g_requests :: nat

text \<open>
  An attempt records the revision before its I/O; a failed one (\<^term>\<open>None\<close>) leaves the data.
\<close>

definition gate_attempt :: "SandboxRecord \<Rightarrow> 'd option \<Rightarrow> 'd gate \<Rightarrow> 'd gate" where
  "gate_attempt r outcome g = g\<lparr>g_last := Some (rec_activity_revision r),
     g_data := (case outcome of None \<Rightarrow> g_data g | Some d \<Rightarrow> Some d),
     g_requests := Suc (g_requests g)\<rparr>"

definition gate_step :: "(SandboxRecord option \<Rightarrow> 'd option \<Rightarrow> int option option \<Rightarrow> bool)
    \<Rightarrow> 'd gate \<Rightarrow> SandboxRecord \<times> 'd option \<Rightarrow> 'd gate" where
  "gate_step want g = (\<lambda>(r, outcome).
     if want (Some r) (g_data g) (g_last g) then gate_attempt r outcome g else g)"

definition fresh_gate :: "'d option \<Rightarrow> 'd gate" where
  "fresh_gate cached = \<lparr>g_data = cached, g_last = None, g_requests = 0\<rparr>"

lemma gate_step_simps [simp]:
  "want (Some r) (g_data g) (g_last g) \<Longrightarrow> gate_step want g (r, out) = gate_attempt r out g"
  "\<not> want (Some r) (g_data g) (g_last g) \<Longrightarrow> gate_step want g (r, out) = g"
  by (simp_all add: gate_step_def)

lemma gate_attempt_simps [simp]:
  "g_last (gate_attempt r out g) = Some (rec_activity_revision r)"
  "g_data (gate_attempt r out g) = (case out of None \<Rightarrow> g_data g | Some d \<Rightarrow> Some d)"
  "g_requests (gate_attempt r out g) = Suc (g_requests g)"
  by (simp_all add: gate_attempt_def)

lemma length_remdups_adj_Cons: "length (remdups_adj xs) \<le> length (remdups_adj (x # xs))"
  "length (remdups_adj (x # xs)) \<le> Suc (length (remdups_adj xs))"
  by (cases xs; simp)+

text \<open>No record of the run is active in the cached data or in any data the run fetches.\<close>

definition gate_idle :: "(SandboxRecord \<Rightarrow> 'd \<Rightarrow> bool) \<Rightarrow> (SandboxRecord \<times> 'd option) list \<Rightarrow> 'd option \<Rightarrow> bool" where
  "gate_idle active es cached = (\<forall>r \<in> set (map fst es). \<forall>d \<in> set (cached # map snd es).
     case d of None \<Rightarrow> True | Some x \<Rightarrow> \<not> active r x)"

lemma gate_idle_Cons:
  assumes "gate_idle active ((r, out) # es) d"
  shows "\<And>x. d = Some x \<Longrightarrow> \<not> active r x" "gate_idle active es d"
    "gate_idle active es (case out of None \<Rightarrow> d | Some x \<Rightarrow> Some x)"
  using assms by (fastforce simp: gate_idle_def split: option.splits)+

locale revision_gate =
  fixes want :: "SandboxRecord option \<Rightarrow> 'd option \<Rightarrow> int option option \<Rightarrow> bool"
    and active :: "SandboxRecord \<Rightarrow> 'd \<Rightarrow> bool"
  assumes want_ready: "want (Some r) d lastRev \<Longrightarrow> rec_state r = Ready"
    and want_idle: "want (Some r) d lastRev \<Longrightarrow> (\<And>x. d = Some x \<Longrightarrow> \<not> active r x) \<Longrightarrow>
      lastRev \<noteq> Some (rec_activity_revision r)"
    and want_new: "rec_state r = Ready \<Longrightarrow> rec_activity_revision r = Some n \<Longrightarrow>
      lastRev \<noteq> Some (Some n) \<Longrightarrow> want (Some r) d lastRev"
    and want_active: "active r x \<Longrightarrow> want (Some r) (Some x) lastRev"
begin

text \<open>With an attempt at revision \<open>p\<close> behind it, an idle gate asks at most once per change of revision.\<close>

lemma requests_after:
  "gate_idle active es (g_data g) \<Longrightarrow> g_last g = Some p \<Longrightarrow>
   Suc (g_requests (run (gate_step want) g es)) \<le>
     g_requests g + length (remdups_adj (p # map (\<lambda>e. rec_activity_revision (fst e)) es))"
proof (induction es arbitrary: g p)
  case (Cons e es)
  obtain r out where e: "e = (r, out)" by (cases e)
  let ?rev = "rec_activity_revision r"
  show ?case
  proof (cases "want (Some r) (g_data g) (g_last g)")
    case True
    have "\<And>x. g_data g = Some x \<Longrightarrow> \<not> active r x"
      using gate_idle_Cons(1) [of active r out es "g_data g"] Cons.prems(1) unfolding e by blast
    with want_idle [OF True] Cons.prems(2) have "p \<noteq> ?rev" by auto
    moreover have "Suc (g_requests (run (gate_step want) (gate_attempt r out g) es)) \<le>
        g_requests (gate_attempt r out g) + length (remdups_adj (?rev # map (\<lambda>e. rec_activity_revision (fst e)) es))"
      using Cons.prems e by (intro Cons.IH) (auto dest: gate_idle_Cons(3))
    ultimately show ?thesis using True e by simp
  next
    case False
    have "Suc (g_requests (run (gate_step want) g es)) \<le>
        g_requests g + length (remdups_adj (p # map (\<lambda>e. rec_activity_revision (fst e)) es))"
      using Cons.prems e by (intro Cons.IH) (auto dest: gate_idle_Cons(2))
    moreover have "length (remdups_adj (p # map (\<lambda>e. rec_activity_revision (fst e)) es)) \<le>
        length (remdups_adj (p # ?rev # map (\<lambda>e. rec_activity_revision (fst e)) es))"
      using length_remdups_adj_Cons(1) [of "map (\<lambda>e. rec_activity_revision (fst e)) es" ?rev]
        length_remdups_adj_Cons(2) [of p "map (\<lambda>e. rec_activity_revision (fst e)) es"]
      by (cases "p = ?rev") auto
    ultimately show ?thesis using False e by simp
  qed
qed simp

lemma requests_fresh:
  "gate_idle active es cached \<Longrightarrow> g_last g = None \<Longrightarrow> g_data g = cached \<Longrightarrow>
   g_requests (run (gate_step want) g es) \<le>
     g_requests g + length (remdups_adj (map (\<lambda>e. rec_activity_revision (fst e)) es))"
proof (induction es arbitrary: g)
  case (Cons e es)
  obtain r out where e: "e = (r, out)" by (cases e)
  show ?case
  proof (cases "want (Some r) (g_data g) (g_last g)")
    case True
    have "Suc (g_requests (run (gate_step want) (gate_attempt r out g) es)) \<le>
        g_requests (gate_attempt r out g) +
        length (remdups_adj (rec_activity_revision r # map (\<lambda>e. rec_activity_revision (fst e)) es))"
      using Cons.prems e by (intro requests_after) (auto dest: gate_idle_Cons(3))
    then show ?thesis using True e by simp
  next
    case False
    have "g_requests (run (gate_step want) g es) \<le>
        g_requests g + length (remdups_adj (map (\<lambda>e. rec_activity_revision (fst e)) es))"
      using Cons.prems e by (intro Cons.IH) (auto dest: gate_idle_Cons(2))
    then show ?thesis using False e
        length_remdups_adj_Cons(1) [of "map (\<lambda>e. rec_activity_revision (fst e)) es" "rec_activity_revision r"]
      by simp
  qed
qed simp

lemma idle_requests:
  "gate_idle active es cached \<Longrightarrow> g_requests (run (gate_step want) (fresh_gate cached) es) \<le>
     length (remdups_adj (map (\<lambda>e. rec_activity_revision (fst e)) es))"
  using requests_fresh [of es cached "fresh_gate cached"] by (simp add: fresh_gate_def)

text \<open>After an attempt that failed or found the sandbox idle, the same record asks for nothing more.\<close>

lemma settled:
  assumes "\<And>x. out = Some x \<Longrightarrow> \<not> active r x" "\<And>x. g_data g = Some x \<Longrightarrow> \<not> active r x"
  shows "gate_step want (gate_attempt r out g) (r, out') = gate_attempt r out g"
  using assms want_idle [of r "g_data (gate_attempt r out g)" "g_last (gate_attempt r out g)"]
  by (cases "want (Some r) (g_data (gate_attempt r out g)) (g_last (gate_attempt r out g))")
    (auto split: option.splits)

end

section \<open>useSandboxSnapshot\<close>

definition snapshot_wanted :: "string \<Rightarrow> SandboxRecord option \<Rightarrow> SnapshotResult option \<Rightarrow> int option option \<Rightarrow> bool" where
  "snapshot_wanted sandboxId r data lastSnapshotRevision =
     (sandboxId \<noteq> [] \<and> shouldRequestSandboxSnapshot r data lastSnapshotRevision)"

definition useSandboxSnapshot :: "string \<Rightarrow> SnapshotResult gate \<Rightarrow> SandboxRecord \<times> SnapshotResult option \<Rightarrow> SnapshotResult gate" where
  "useSandboxSnapshot sandboxId = gate_step (snapshot_wanted sandboxId)"

lemma snapshotHasActivity_ready: "snapshotHasActivity (Some r) s \<Longrightarrow> rec_state r = Ready"
  by (auto split: if_splits)

interpretation sandbox_gate: revision_gate shouldRequestSandboxSnapshot
  "\<lambda>r s. snapshotHasActivity (Some r) (Some s)"
  by unfold_locales
    (auto simp: new_revision_def simp del: snapshotHasActivity.simps
      dest: snapshotHasActivity_ready split: if_splits option.splits)

section \<open>useFleetSnapshots\<close>

text \<open>
  One gate per record.  \<open>requested\<close> is the entry of the \<^verbatim>\<open>requestedRevisions\<close> map: absent
  (\<^term>\<open>None\<close>), \<^verbatim>\<open>null\<close> or a revision.
\<close>

fun fleet_wanted :: "SandboxRecord option \<Rightarrow> SnapshotResult option \<Rightarrow> int option option \<Rightarrow> bool" where
  "fleet_wanted None data requested = False"
| "fleet_wanted (Some r) data requested =
     (if rec_state r \<noteq> Ready then False
      else (case data of
        None \<Rightarrow> requested = None \<or> requested \<noteq> Some (rec_activity_revision r)
      | Some d \<Rightarrow> shouldRequestSandboxSnapshot (Some r) (Some d)
          (Some (case requested of None \<Rightarrow> None | Some q \<Rightarrow> q))))"

definition fleet_refetchInterval :: "SandboxRecord \<Rightarrow> SnapshotResult option \<Rightarrow> int option" where
  "fleet_refetchInterval r data = (if snapshotHasActivity (Some r) data then Some FAST_POLL_MS else None)"

interpretation fleet_gate: revision_gate fleet_wanted "\<lambda>r s. snapshotHasActivity (Some r) (Some s)"
  by unfold_locales
    (auto simp: new_revision_def simp del: snapshotHasActivity.simps
      dest: snapshotHasActivity_ready split: if_splits option.splits)

text \<open>The hook's own state: the query data per sandbox and the revisions requested.\<close>

record fleet_snapshots =
  fs_data :: "(string \<times> SnapshotResult) list"
  fs_requested :: "(string \<times> int option) list"

definition fleet_prune :: "SandboxRecord list \<Rightarrow> fleet_snapshots \<Rightarrow> fleet_snapshots" where
  "fleet_prune records s = s\<lparr>fs_requested :=
     filter (\<lambda>(k, _). k \<in> set (map rec_id records)) (fs_requested s)\<rparr>"

definition fleet_query :: "SandboxRecord \<Rightarrow> SnapshotResult option \<Rightarrow> fleet_snapshots \<Rightarrow> fleet_snapshots" where
  "fleet_query r outcome s =
     (if fleet_wanted (Some r) (map_of (fs_data s) (rec_id r)) (map_of (fs_requested s) (rec_id r))
      then \<lparr>fs_data = (case outcome of None \<Rightarrow> fs_data s | Some d \<Rightarrow> map_set (rec_id r) d (fs_data s)),
            fs_requested = map_set (rec_id r) (rec_activity_revision r) (fs_requested s)\<rparr>
      else s)"

definition fleet_data :: "SandboxRecord list \<Rightarrow> fleet_snapshots \<Rightarrow> SnapshotResult" where
  "fleet_data records s = \<lparr>snap_sandboxes = concat (map (\<lambda>r.
     case map_of (fs_data s) (rec_id r) of None \<Rightarrow> [] | Some d \<Rightarrow> snap_sandboxes d) records)\<rparr>"

section \<open>useProcessTopology\<close>

definition topologyHasActivity :: "WorkspaceProcessTopology option \<Rightarrow> bool" where
  "topologyHasActivity topology = (case topology of None \<Rightarrow> False
     | Some t \<Rightarrow> tp_available t \<and> (\<exists>w \<in> set (tp_workspaces t). wps_state w = Wp_active))"

fun shouldRequestProcessTopology ::
    "SandboxRecord option \<Rightarrow> WorkspaceProcessTopology option \<Rightarrow> int option option \<Rightarrow> bool" where
  "shouldRequestProcessTopology None result lastRev = False"
| "shouldRequestProcessTopology (Some r) result lastRev =
     (if rec_state r \<noteq> Ready then False
      else (case result of
        None \<Rightarrow> if lastRev = None then True else new_revision (rec_activity_revision r) lastRev
      | Some t \<Rightarrow> if topologyHasActivity (Some t) then True
                  else new_revision (rec_activity_revision r) lastRev))"

interpretation topology_gate: revision_gate shouldRequestProcessTopology
  "\<lambda>r t. rec_state r = Ready \<and> topologyHasActivity (Some t)"
  by unfold_locales (auto simp: new_revision_def split: if_splits option.splits)

record DocumentVisibility =
  dv_visible :: bool
  dv_managerCheckFloor :: "int option"

definition visibility_init :: "bool \<Rightarrow> int option \<Rightarrow> DocumentVisibility" where
  "visibility_init hidden recordUpdatedAt = \<lparr>dv_visible = \<not> hidden,
     dv_managerCheckFloor = (if \<not> hidden then None
       else Some (case recordUpdatedAt of None \<Rightarrow> 0 | Some t \<Rightarrow> t))\<rparr>"

text \<open>A \<^verbatim>\<open>visibilitychange\<close> event, with the manager timestamp at that moment.\<close>

definition visibility_update :: "DocumentVisibility \<Rightarrow> bool \<times> int option \<Rightarrow> DocumentVisibility" where
  "visibility_update current = (\<lambda>(hidden, recordUpdatedAt).
     if (\<not> hidden) = dv_visible current then current
     else \<lparr>dv_visible = \<not> hidden,
           dv_managerCheckFloor = (if \<not> hidden then Some (case recordUpdatedAt of None \<Rightarrow> 0 | Some t \<Rightarrow> t)
             else dv_managerCheckFloor current)\<rparr>)"

definition managerCheckedSinceFocus :: "DocumentVisibility \<Rightarrow> int option \<Rightarrow> bool" where
  "managerCheckedSinceFocus v recordUpdatedAt = (case dv_managerCheckFloor v of
     None \<Rightarrow> True
   | Some checkFloor \<Rightarrow> (case recordUpdatedAt of None \<Rightarrow> False | Some t \<Rightarrow> checkFloor < t))"

definition lastRequestedRevision :: "(string \<times> int option) option \<Rightarrow> string \<Rightarrow> int option option" where
  "lastRequestedRevision lastRequest sandboxId = (case lastRequest of None \<Rightarrow> None
     | Some (i, revision) \<Rightarrow> if i = sandboxId then Some revision else None)"

definition topology_enabled :: "DocumentVisibility \<Rightarrow> int option \<Rightarrow> string \<Rightarrow> SandboxRecord option
    \<Rightarrow> WorkspaceProcessTopology option \<Rightarrow> (string \<times> int option) option \<Rightarrow> bool" where
  "topology_enabled v recordUpdatedAt sandboxId r data lastRequest =
     (dv_visible v \<and> managerCheckedSinceFocus v recordUpdatedAt \<and> sandboxId \<noteq> [] \<and>
      map_option rec_id r = Some sandboxId \<and>
      shouldRequestProcessTopology r data (lastRequestedRevision lastRequest sandboxId))"

definition topology_refetchInterval :: "DocumentVisibility \<Rightarrow> int option \<Rightarrow> WorkspaceProcessTopology option \<Rightarrow> int option" where
  "topology_refetchInterval v recordUpdatedAt data =
     (if dv_visible v \<and> managerCheckedSinceFocus v recordUpdatedAt \<and> topologyHasActivity data
      then Some FAST_POLL_MS else None)"

definition topology_canRefresh :: "DocumentVisibility \<Rightarrow> int option \<Rightarrow> string \<Rightarrow> SandboxRecord option \<Rightarrow> bool" where
  "topology_canRefresh v recordUpdatedAt sandboxId r =
     (dv_visible v \<and> managerCheckedSinceFocus v recordUpdatedAt \<and>
      (case r of None \<Rightarrow> False | Some x \<Rightarrow> rec_id x = sandboxId \<and> rec_state x = Ready))"

section \<open>The fleet's gates, one per sandbox\<close>

definition gate_view :: "string \<Rightarrow> fleet_snapshots \<Rightarrow> nat \<Rightarrow> SnapshotResult gate" where
  "gate_view i s n = \<lparr>g_data = map_of (fs_data s) i, g_last = map_of (fs_requested s) i, g_requests = n\<rparr>"

text \<open>The requests that a sequence of query callbacks sends to the daemon of sandbox \<open>i\<close>.\<close>

fun fleet_requests :: "string \<Rightarrow> fleet_snapshots \<Rightarrow> (SandboxRecord \<times> SnapshotResult option) list \<Rightarrow> nat" where
  "fleet_requests i s [] = 0"
| "fleet_requests i s ((r, out) # es) =
     (if rec_id r = i \<and> fleet_wanted (Some r) (map_of (fs_data s) i) (map_of (fs_requested s) i) then 1 else 0)
     + fleet_requests i (fleet_query r out s) es"

lemma fleet_query_other: "rec_id r \<noteq> i \<Longrightarrow> gate_view i (fleet_query r out s) n = gate_view i s n"
  by (auto simp: gate_view_def fleet_query_def split: option.splits)

lemma fleet_query_own:
  "gate_view (rec_id r) (fleet_query r out s)
     (n + (if fleet_wanted (Some r) (map_of (fs_data s) (rec_id r)) (map_of (fs_requested s) (rec_id r)) then 1 else 0)) =
   gate_step fleet_wanted (gate_view (rec_id r) s n) (r, out)"
  by (auto simp: gate_view_def fleet_query_def gate_step_def gate_attempt_def
      simp del: fleet_wanted.simps split: option.splits)

lemma fleet_requests_gate:
  "n + fleet_requests i s es =
   g_requests (run (gate_step fleet_wanted) (gate_view i s n) (filter (\<lambda>(r, _). rec_id r = i) es))"
proof (induction es arbitrary: s n)
  case (Cons e es)
  obtain r out where e: "e = (r, out)" by (cases e)
  show ?case
  proof (cases "rec_id r = i")
    case True
    then show ?thesis
      using Cons [of "n + (if fleet_wanted (Some r) (map_of (fs_data s) i) (map_of (fs_requested s) i) then 1 else 0)"
          "fleet_query r out s"] fleet_query_own [of r out s n] e
      by (simp del: fleet_wanted.simps split del: if_split)
  next
    case False
    then show ?thesis using Cons [of n "fleet_query r out s"] e by (simp add: fleet_query_other)
  qed
qed (simp add: gate_view_def)

section \<open>Concrete records for the witnesses\<close>

definition sample_record :: "string \<Rightarrow> SandboxState \<Rightarrow> int option \<Rightarrow> SandboxRecord" where
  "sample_record i st revision = \<lparr>rec_id = i, rec_workspace_root = ''/w'', rec_state = st, rec_daemon = None,
     rec_daemon_http = None, rec_shared_base = None, rec_activity_revision = revision\<rparr>"

section \<open>Properties\<close>

text \<open>
  A poll backs off and recovers as documented.  When the payload changes the interval is the
  base interval of the mode at once; while the payload stays the same it is the base interval for
  15 seconds after the change and the decayed one (four times the base, at most 8 seconds) later.
\<close>

lemma pollInterval_decay:
  assumes "tk_fingerprint tracking \<noteq> JSON_stringify v"
  shows "pollIntervals tracking (map (\<lambda>t. (Some v, mode, t, False)) (t0 # ts)) =
    Some (base_ms mode) # map (\<lambda>t. Some (if 15000 < t - t0
        then (case mode of Fast \<Rightarrow> 1600 | Slow \<Rightarrow> 8000) else base_ms mode)) ts"
proof -
  have "tk_fingerprint tk = JSON_stringify v \<Longrightarrow> tk_at tk = t0 \<Longrightarrow>
      pollIntervals tk (map (\<lambda>t. (Some v, mode, t, False)) ts) =
      map (\<lambda>t. Some (if 15000 < t - t0 then (case mode of Fast \<Rightarrow> 1600 | Slow \<Rightarrow> 8000) else base_ms mode)) ts"
    for tk
    by (induction ts) (auto simp: pollInterval_def base_ms_def FAST_POLL_MS_def SLOW_POLL_MS_def
        IDLE_AFTER_MS_def IDLE_MULTIPLIER_def MAX_IDLE_MS_def split: PollMode.splits)
  with assms show ?thesis by (simp add: pollInterval_def Let_def)
qed

lemma pollInterval_decay_witness:
  "pollIntervals \<lparr>tk_at = 0, tk_fingerprint = []\<rparr>
     [(Some JNull, Fast, 1000, False), (Some JNull, Fast, 16000, False), (Some JNull, Fast, 16001, False)] =
   [Some 400, Some 400, Some 1600]"
  using pollInterval_decay [where tracking = "\<lparr>tk_at = 0, tk_fingerprint = []\<rparr>" and v = JNull
      and mode = Fast and ?t0.0 = 1000 and ts = "[16000, 16001]"]
  by (simp add: base_ms_def FAST_POLL_MS_def)

text \<open>
  Whatever a poll has seen, a hidden document pauses it and nothing else does, its interval is
  never below the base interval of its mode and never above 8 seconds, and a payload that differs
  from the last one recorded gives the base interval.
\<close>

lemma pollInterval_bounds:
  "case pollInterval data mode tracking now hidden of (i, tracking') \<Rightarrow>
     (i = None \<longleftrightarrow> hidden) \<and>
     (case i of None \<Rightarrow> tracking' = tracking
      | Some n \<Rightarrow> base_ms mode \<le> n \<and> n \<le> 8000 \<and>
          tk_fingerprint tracking' = (case data of None \<Rightarrow> [] | Some v \<Rightarrow> JSON_stringify v) \<and>
          (tk_fingerprint tracking' = tk_fingerprint tracking \<or> n = base_ms mode \<and> tk_at tracking' = now))"
  by (auto simp: pollInterval_def base_ms_def FAST_POLL_MS_def SLOW_POLL_MS_def
      IDLE_MULTIPLIER_def MAX_IDLE_MS_def Let_def)

text \<open>
  C4: The polling contract of one sandbox page: over any sequence of query callbacks in which the
  sandbox is never seen active, the daemon is asked at most once per run of equal manager
  revisions, however many callbacks there are and however many of the requests fail.
\<close>

theorem idle_snapshot_requests:
  assumes "gate_idle (\<lambda>r s. snapshotHasActivity (Some r) (Some s)) es cached"
  shows "g_requests (run (useSandboxSnapshot sandboxId) (fresh_gate cached) es) \<le>
    length (remdups_adj (map (\<lambda>e. rec_activity_revision (fst e)) es))"
proof (cases "sandboxId = []")
  case True
  have "run (useSandboxSnapshot []) g es = g" for g
    by (induction es) (auto simp: useSandboxSnapshot_def gate_step_def snapshot_wanted_def)
  with True show ?thesis by (simp add: fresh_gate_def)
next
  case False
  then have "snapshot_wanted sandboxId = shouldRequestSandboxSnapshot"
    by (auto simp: snapshot_wanted_def fun_eq_iff)
  then show ?thesis using sandbox_gate.idle_requests [OF assms] by (simp add: useSandboxSnapshot_def)
qed

theorem idle_snapshot_requests_witness:
  "g_requests (run (useSandboxSnapshot ''a'') (fresh_gate None)
     [(sample_record ''a'' Ready (Some 1), None), (sample_record ''a'' Ready (Some 1), None),
      (sample_record ''a'' Ready (Some 2), None)]) \<le> 2"
  using idle_snapshot_requests [where sandboxId = "''a''" and cached = None and
      es = "[(sample_record ''a'' Ready (Some 1), None), (sample_record ''a'' Ready (Some 1), None),
        (sample_record ''a'' Ready (Some 2), None)]"]
  by (simp add: gate_idle_def sample_record_def)

text \<open>
  On the fleet page every sandbox has a gate of its own: the requests that a sequence of
  query callbacks sends to one daemon are bounded by the changes of that sandbox's own revision,
  whatever the other sandboxes of the fleet do.
\<close>

lemma idle_fleet_requests:
  assumes "gate_idle (\<lambda>r s. snapshotHasActivity (Some r) (Some s))
      (filter (\<lambda>(r, _). rec_id r = i) es) (map_of (fs_data s) i)"
    and "map_of (fs_requested s) i = None"
  shows "fleet_requests i s es \<le>
    length (remdups_adj (map (\<lambda>e. rec_activity_revision (fst e)) (filter (\<lambda>(r, _). rec_id r = i) es)))"
  using fleet_requests_gate [of 0 i s es] fleet_gate.idle_requests [OF assms(1)] assms(2)
  by (simp add: gate_view_def fresh_gate_def)

lemma idle_fleet_requests_witness:
  "fleet_requests ''a'' \<lparr>fs_data = [], fs_requested = []\<rparr>
     [(sample_record ''a'' Ready (Some 1), None), (sample_record ''b'' Ready (Some 9), None),
      (sample_record ''a'' Ready (Some 1), None)] \<le> 1"
  using idle_fleet_requests [where i = "''a''" and s = "\<lparr>fs_data = [], fs_requested = []\<rparr>" and
      es = "[(sample_record ''a'' Ready (Some 1), None), (sample_record ''b'' Ready (Some 9), None),
        (sample_record ''a'' Ready (Some 1), None)]"]
  by (simp add: gate_idle_def sample_record_def)

text \<open>
  A failed or idle answer never turns into a retry loop and a new revision is never missed:
  after an attempt for a record, the same record wants nothing more unless it was seen active,
  and a ready record with another revision wants a request.
\<close>

lemma topology_gate_contract:
  assumes "rec_state r = Ready"
    and "\<forall>t \<in> set_option out \<union> set_option (g_data g). \<not> topologyHasActivity (Some t)"
    and "rec_activity_revision r' = Some n" "rec_activity_revision r \<noteq> Some n" "rec_state r' = Ready"
  shows "gate_step shouldRequestProcessTopology (gate_attempt r out g) (r, out') = gate_attempt r out g \<and>
    g_requests (gate_step shouldRequestProcessTopology (gate_attempt r out g) (r', out')) =
      Suc (g_requests (gate_attempt r out g))"
proof
  show "gate_step shouldRequestProcessTopology (gate_attempt r out g) (r, out') = gate_attempt r out g"
    using assms(1,2) by (intro topology_gate.settled) auto
  show "g_requests (gate_step shouldRequestProcessTopology (gate_attempt r out g) (r', out')) =
      Suc (g_requests (gate_attempt r out g))"
    using assms(3-5) by (subst gate_step_simps(1)) (auto intro!: topology_gate.want_new
        simp del: shouldRequestProcessTopology.simps)
qed

lemma topology_gate_contract_witness:
  "gate_step shouldRequestProcessTopology (gate_attempt (sample_record ''a'' Ready (Some 1)) None (fresh_gate None))
     (sample_record ''a'' Ready (Some 1), None) =
   gate_attempt (sample_record ''a'' Ready (Some 1)) None (fresh_gate None)"
  using topology_gate_contract [where r = "sample_record ''a'' Ready (Some 1)" and out = None
      and g = "fresh_gate None" and r' = "sample_record ''a'' Ready (Some 2)" and n = 2 and out' = None]
  by (simp add: sample_record_def fresh_gate_def)

text \<open>
  While the document is hidden no topology request is made, and after it is shown again none is
  made until the manager record has been refreshed after that moment: a record fetched before or at
  the moment of return does not count.
\<close>

lemma topology_waits_for_manager:
  assumes "\<not> dv_visible v"
    and "topology_enabled (visibility_update v (hidden, returnedAt)) recordUpdatedAt sandboxId r data lastRequest"
  shows "\<not> hidden \<and> (\<exists>t. recordUpdatedAt = Some t \<and> (case returnedAt of None \<Rightarrow> 0 | Some u \<Rightarrow> u) < t)"
  using assms by (auto simp: topology_enabled_def visibility_update_def managerCheckedSinceFocus_def
      split: if_splits option.splits)

lemma topology_waits_for_manager_witness:
  "topology_enabled (visibility_update \<lparr>dv_visible = False, dv_managerCheckFloor = None\<rparr> (False, Some 5))
     (Some 7) ''a'' (Some (sample_record ''a'' Ready (Some 1))) None None \<and> (\<exists>t. Some 7 = Some t \<and> (5 :: int) < t)"
  using topology_waits_for_manager [where v = "\<lparr>dv_visible = False, dv_managerCheckFloor = None\<rparr>"
      and hidden = False and returnedAt = "Some 5" and recordUpdatedAt = "Some 7" and sandboxId = "''a''"
      and r = "Some (sample_record ''a'' Ready (Some 1))" and data = None and lastRequest = None]
  by (simp add: topology_enabled_def visibility_update_def managerCheckedSinceFocus_def
      lastRequestedRevision_def sample_record_def)

end
