(* ===== verification/Resources.thy ===== *)
theory Resources
  imports Poll
begin

text \<open>
  Current resource usage: \<^verbatim>\<open>web/src/core/resources.ts\<close> and
  \<^verbatim>\<open>web/src/poll/useFleetCurrentUsage.ts\<close>.  A loop that walks a series backwards and stops at
  the first usable sample is a search in the reversed list.
\<close>

definition MIN_CPU_SAMPLE_MS :: rat where "MIN_CPU_SAMPLE_MS = 250"

record SandboxCurrentUsage =
  us_cpuPercent :: "rat option"
  us_memoryBytes :: "rat option"
  us_sampledAt :: "rat option"

text \<open>\<^verbatim>\<open>isFiniteNonNegative\<close> as a conversion: the number when it is one, finite and not negative.\<close>

fun isFiniteNonNegative :: "jsnum option \<Rightarrow> rat option" where
  "isFiniteNonNegative (Some (Fin q)) = (if 0 \<le> q then Some q else None)"
| "isFiniteNonNegative _ = None"

definition metric_num :: "metric option \<Rightarrow> jsnum option" where
  "metric_num m = (case m of Some (MNum n) \<Rightarrow> Some n | _ \<Rightarrow> None)"

definition sample_memory :: "ResourceSample \<Rightarrow> rat option" where
  "sample_memory s = isFiniteNonNegative (metric_num (map_of (rs_metrics s) ''mem_cur''))"

definition sample_cpu :: "ResourceSample \<Rightarrow> rat option" where
  "sample_cpu s = (case (isFiniteNonNegative (map_of (rs_deltas s) ''cpu_usec''),
                         isFiniteNonNegative (rs_sample_delta_ms s)) of
     (Some cpuDelta, Some sampleDeltaMs) \<Rightarrow>
       if MIN_CPU_SAMPLE_MS \<le> sampleDeltaMs then Some (cpuDelta / (sampleDeltaMs * 1000) * 100) else None
   | _ \<Rightarrow> None)"

fun first_some :: "('a \<Rightarrow> 'b option) \<Rightarrow> 'a list \<Rightarrow> 'b option" where
  "first_some f [] = None"
| "first_some f (x # xs) = (case f x of None \<Rightarrow> first_some f xs | Some y \<Rightarrow> Some y)"

definition currentUsageFromSeries :: "ResourceSample list \<Rightarrow> SandboxCurrentUsage" where
  "currentUsageFromSeries samples =
     \<lparr>us_cpuPercent = first_some sample_cpu (rev samples),
      us_memoryBytes = first_some sample_memory (rev samples),
      us_sampledAt = isFiniteNonNegative (map_option rs_ts (at_last samples))\<rparr>"

text \<open>The gauges of a usage record are finite by construction; the test that is left is the sign.\<close>

definition currentMemoryBytes :: "SandboxCurrentUsage option \<Rightarrow> rat option" where
  "currentMemoryBytes usage = isFiniteNonNegative (map_option Fin (Option.bind usage us_memoryBytes))"

definition averageMemoryBytes :: "SandboxRecord list \<Rightarrow> (string \<times> SandboxCurrentUsage) list \<Rightarrow> rat option" where
  "averageMemoryBytes records usage =
     (let (total, sampleCount) = foldl (\<lambda>(total, sampleCount) r.
            case currentMemoryBytes (map_of usage (rec_id r)) of
              None \<Rightarrow> (total, sampleCount)
            | Some memoryBytes \<Rightarrow> (total + memoryBytes, sampleCount + 1)) (0, 0 :: nat) records
      in if sampleCount = 0 then None else Some (total / of_nat sampleCount))"

definition fleet_usage_enabled :: "SandboxRecord list \<Rightarrow> bool" where
  "fleet_usage_enabled records = (\<exists>r \<in> set records. rec_state r = Ready)"

definition useFleetCurrentUsage :: "SandboxRecord list \<Rightarrow> FleetResourcesResult option \<Rightarrow> (string \<times> SandboxCurrentUsage) list" where
  "useFleetCurrentUsage records data = foldl (\<lambda>m r.
     if rec_state r \<noteq> Ready then m
     else (case Option.bind data (\<lambda>d. Option.bind (map_of (frr_sandboxes d) (rec_id r)) frc_current) of
       None \<Rightarrow> m
     | Some current \<Rightarrow> map_set (rec_id r) (currentUsageFromSeries [current]) m)) [] records"

section \<open>Laws\<close>

lemma isFiniteNonNegative_Some_iff: "isFiniteNonNegative n = Some q \<longleftrightarrow> n = Some (Fin q) \<and> 0 \<le> q"
  by (cases n rule: isFiniteNonNegative.cases) auto

lemma first_some_SomeD:
  "first_some f xs = Some y \<Longrightarrow>
   \<exists>pre x post. xs = pre @ x # post \<and> f x = Some y \<and> (\<forall>z \<in> set pre. f z = None)"
proof (induction xs)
  case (Cons x xs)
  show ?case
  proof (cases "f x")
    case None
    with Cons obtain pre z post where "xs = pre @ z # post" "f z = Some y" "\<forall>z \<in> set pre. f z = None" by auto
    with None have "x # xs = (x # pre) @ z # post \<and> f z = Some y \<and> (\<forall>z \<in> set (x # pre). f z = None)" by simp
    then show ?thesis by blast
  next
    case (Some _)
    with Cons.prems have "x # xs = [] @ x # xs \<and> f x = Some y \<and> (\<forall>z \<in> set []. f z = None)" by simp
    then show ?thesis by blast
  qed
qed simp

lemma first_some_rev_SomeD:
  assumes "first_some f (rev xs) = Some y"
  shows "\<exists>older x newer. xs = older @ x # newer \<and> f x = Some y \<and> (\<forall>z \<in> set newer. f z = None)"
proof -
  obtain pre x post where "rev xs = pre @ x # post" "f x = Some y" "\<forall>z \<in> set pre. f z = None"
    using first_some_SomeD [OF assms] by blast
  then have "xs = rev post @ x # rev pre \<and> f x = Some y \<and> (\<forall>z \<in> set (rev pre). f z = None)"
    by (simp add: rev_swap)
  then show ?thesis by blast
qed

lemma first_some_None_iff: "first_some f xs = None \<longleftrightarrow> (\<forall>x \<in> set xs. f x = None)"
  by (induction xs) (auto split: option.splits)

lemma sample_cpu_nonneg: "sample_cpu s = Some p \<Longrightarrow> 0 \<le> p"
  by (auto simp: sample_cpu_def isFiniteNonNegative_Some_iff MIN_CPU_SAMPLE_MS_def
      split: option.splits if_splits)

definition memory_samples :: "SandboxRecord list \<Rightarrow> (string \<times> SandboxCurrentUsage) list \<Rightarrow> rat list" where
  "memory_samples records usage = concat (map (\<lambda>r.
     case currentMemoryBytes (map_of usage (rec_id r)) of None \<Rightarrow> [] | Some b \<Rightarrow> [b]) records)"

lemma averageMemoryBytes_mean:
  "averageMemoryBytes records usage = (let ms = memory_samples records usage in
     if ms = [] then None else Some (sum_list ms / of_nat (length ms)))"
proof -
  have "foldl (\<lambda>(total, n) r. case currentMemoryBytes (map_of usage (rec_id r)) of
          None \<Rightarrow> (total, n) | Some b \<Rightarrow> (total + b, n + 1)) (t, c) records =
        (t + sum_list (memory_samples records usage), c + length (memory_samples records usage))"
    for t :: rat and c :: nat
    by (induction records arbitrary: t c) (auto simp: memory_samples_def split: option.splits)
  then show ?thesis by (simp add: averageMemoryBytes_def Let_def)
qed

lemma mean_bounds:
  fixes ms :: "rat list"
  assumes "ms \<noteq> []"
  shows "Min (set ms) \<le> sum_list ms / of_nat (length ms)" "sum_list ms / of_nat (length ms) \<le> Max (set ms)"
proof -
  have "of_nat (length ms) * Min (set ms) \<le> sum_list ms" "sum_list ms \<le> of_nat (length ms) * Max (set ms)"
    using sum_list_mono [of ms "\<lambda>_. Min (set ms)" "\<lambda>x. x"] sum_list_mono [of ms "\<lambda>x. x" "\<lambda>_. Max (set ms)"]
    by (simp_all add: sum_list_triv)
  with assms show "Min (set ms) \<le> sum_list ms / of_nat (length ms)" "sum_list ms / of_nat (length ms) \<le> Max (set ms)"
    by (simp_all add: field_simps)
qed

section \<open>Properties\<close>

text \<open>
  The CPU gauge is the rate of the newest sample whose interval is at least 250 ms and whose
  counters are usable, never a noisier newer one; it is absent exactly when there is no such
  sample, and it is never negative.
\<close>

lemma currentUsage_cpu:
  "case us_cpuPercent (currentUsageFromSeries samples) of
     None \<Rightarrow> (\<forall>i < length samples. sample_cpu (samples ! i) = None)
   | Some p \<Rightarrow> 0 \<le> p \<and> (\<exists>older s newer. samples = older @ s # newer \<and> sample_cpu s = Some p \<and>
       (\<forall>i < length newer. sample_cpu (newer ! i) = None))"
proof (cases "us_cpuPercent (currentUsageFromSeries samples)")
  case None
  then have "\<forall>x \<in> set samples. sample_cpu x = None"
    by (simp add: currentUsageFromSeries_def first_some_None_iff)
  with None show ?thesis by simp
next
  case (Some p)
  then obtain older s newer where "samples = older @ s # newer" "sample_cpu s = Some p"
    "\<forall>z \<in> set newer. sample_cpu z = None"
    using first_some_rev_SomeD [of sample_cpu samples p] by (auto simp: currentUsageFromSeries_def)
  moreover then have "0 \<le> p" "\<forall>i < length newer. sample_cpu (newer ! i) = None"
    by (simp_all add: sample_cpu_nonneg)
  ultimately have "\<exists>older s newer. samples = older @ s # newer \<and> sample_cpu s = Some p \<and>
      (\<forall>i < length newer. sample_cpu (newer ! i) = None)" by blast
  with Some \<open>0 \<le> p\<close> show ?thesis by simp
qed

lemma currentUsage_cpu_witness:
  "us_cpuPercent (currentUsageFromSeries
     [\<lparr>rs_ts = Fin 1, rs_sample_delta_ms = Some (Fin 1000), rs_metrics = [], rs_deltas = [(''cpu_usec'', Fin 500000)]\<rparr>,
      \<lparr>rs_ts = Fin 2, rs_sample_delta_ms = Some (Fin 10), rs_metrics = [], rs_deltas = [(''cpu_usec'', Fin 9000)]\<rparr>]) = Some 50 \<and> (0 :: rat) \<le> 50"
  using currentUsage_cpu [of "[\<lparr>rs_ts = Fin 1, rs_sample_delta_ms = Some (Fin 1000), rs_metrics = [], rs_deltas = [(''cpu_usec'', Fin 500000)]\<rparr>,
      \<lparr>rs_ts = Fin 2, rs_sample_delta_ms = Some (Fin 10), rs_metrics = [], rs_deltas = [(''cpu_usec'', Fin 9000)]\<rparr>]"]
  by (simp add: currentUsageFromSeries_def sample_cpu_def MIN_CPU_SAMPLE_MS_def)

text \<open>
  The average memory of a fleet is the mean of exactly the samples that exist: unknown values
  are neither counted nor taken as zero, so the average lies between the smallest and the largest
  known value, and it is absent exactly when no record has a known value.
\<close>

lemma averageMemoryBytes_truthful:
  "case averageMemoryBytes records usage of
     None \<Rightarrow> memory_samples records usage = []
   | Some a \<Rightarrow> a * of_nat (length (memory_samples records usage)) = sum_list (memory_samples records usage) \<and>
       Min (set (memory_samples records usage)) \<le> a \<and> a \<le> Max (set (memory_samples records usage))"
  using mean_bounds [of "memory_samples records usage"]
  by (simp add: averageMemoryBytes_mean Let_def)

end
