(* ===== verification/Fleet.thy ===== *)
theory Fleet
  imports Resources Js_Sort
begin

text \<open>
  The fleet read model: \<^verbatim>\<open>web/src/core/fleet.ts\<close>.  A \<^verbatim>\<open>Map\<close> built from entries is
  \<open>map_new\<close>, so a later entry of the same key wins.
\<close>

definition state_name :: "SandboxState \<Rightarrow> string" where
  "state_name st = (case st of Creating \<Rightarrow> ''creating'' | Ready \<Rightarrow> ''ready'' | Stopping \<Rightarrow> ''stopping''
     | Stopped \<Rightarrow> ''stopped'' | Failed \<Rightarrow> ''failed'')"

definition display_name :: "SandboxDisplayState \<Rightarrow> string" where
  "display_name d = (case d of Active \<Rightarrow> ''active'' | Lifecycle st \<Rightarrow> state_name st)"

record FleetSummary =
  fsum_total :: "nat option"
  fsum_ready :: "nat option"
  fsum_activeCommands :: "nat option"
  fsum_averageMemoryBytes :: "rat option"

datatype SandboxPrimaryActionKind = Open_action | Inspect_action

record SandboxPrimaryAction =
  act_kind :: SandboxPrimaryActionKind
  act_label :: string
  act_disabled :: bool

record SandboxCardViewModel =
  card_id :: string
  card_workspaceRoot :: string
  card_lifecycleState :: SandboxState
  card_displayState :: SandboxDisplayState
  card_status :: SandboxStatusPresentation
  card_cpuPercent :: "rat option"
  card_memoryBytes :: "rat option"
  card_sessions :: "nat option"
  card_activeCommands :: "nat option"
  card_primaryAction :: "SandboxPrimaryAction option"

definition snapshotsBySandbox :: "SnapshotResult option \<Rightarrow> (string \<times> SandboxSnapshot) list" where
  "snapshotsBySandbox snapshot = map_new (map (\<lambda>entry. (ss_sandbox_id entry, entry))
     (case snapshot of None \<Rightarrow> [] | Some s \<Rightarrow> snap_sandboxes s))"

definition currentFleetList :: "SandboxList option \<Rightarrow> SandboxList option \<Rightarrow> bool \<Rightarrow> SandboxList option" where
  "currentFleetList slow fast lifecycleActive =
     (if lifecycleActive then (case fast of None \<Rightarrow> slow | Some f \<Rightarrow> Some f) else slow)"

text \<open>Positions of ids: the map from the elements of a list to their (last) index.\<close>

definition positions :: "string list \<Rightarrow> (string \<times> nat) list" where
  "positions ids = map_new (zip ids [0..<length ids])"

definition stabilize_cmp :: "(string \<times> nat) list \<Rightarrow> (string \<times> nat) list \<Rightarrow> SandboxRecord \<Rightarrow> SandboxRecord \<Rightarrow> int" where
  "stabilize_cmp previousPositions incomingPositions left right =
     (case (map_of previousPositions (rec_id left), map_of previousPositions (rec_id right)) of
        (Some leftPrevious, Some rightPrevious) \<Rightarrow> int leftPrevious - int rightPrevious
      | (Some _, None) \<Rightarrow> -1
      | (None, Some _) \<Rightarrow> 1
      | (None, None) \<Rightarrow>
          int (case map_of incomingPositions (rec_id left) of None \<Rightarrow> 0 | Some n \<Rightarrow> n) -
          int (case map_of incomingPositions (rec_id right) of None \<Rightarrow> 0 | Some n \<Rightarrow> n))"

definition stabilizeFleetList :: "SandboxList option \<Rightarrow> string list \<Rightarrow> SandboxList option" where
  "stabilizeFleetList fleet previousOrder = (case fleet of
     None \<Rightarrow> None
   | Some l \<Rightarrow> if previousOrder = [] then fleet
       else Some (l\<lparr>sl_sandboxes := js_sort
         (stabilize_cmp (positions previousOrder) (positions (map rec_id (sl_sandboxes l))))
         (sl_sandboxes l)\<rparr>))"

definition list_records :: "SandboxList option \<Rightarrow> SandboxRecord list" where
  "list_records fleet = (case fleet of None \<Rightarrow> [] | Some l \<Rightarrow> sl_sandboxes l)"

definition hasFleetActivity :: "SandboxList option \<Rightarrow> SnapshotResult option \<Rightarrow> string list option \<Rightarrow> bool" where
  "hasFleetActivity fleet snapshot createLogs =
     (if createLogs \<noteq> None then True
      else let records = list_records fleet in
        if \<exists>r \<in> set records. rec_state r = Creating \<or> rec_state r = Stopping then True
        else let readyIds = set_new (map rec_id (filter (\<lambda>r. rec_state r = Ready) records)) in
          \<exists>entry \<in> set (case snapshot of None \<Rightarrow> [] | Some s \<Rightarrow> snap_sandboxes s).
            ss_sandbox_id entry \<in> set readyIds \<and> 0 < inFlightCount entry)"

definition activeCommandsForRecord :: "SandboxRecord \<Rightarrow> SandboxSnapshot option \<Rightarrow> nat option" where
  "activeCommandsForRecord r snapshot = (case snapshot of None \<Rightarrow> None
     | Some s \<Rightarrow> if rec_state r \<noteq> Ready \<or> ss_sandbox_id s \<noteq> rec_id r then None else Some (inFlightCount s))"

definition count_num :: "nat option \<Rightarrow> jsnum option" where
  "count_num n = map_option (\<lambda>k. Fin (of_nat k)) n"

definition fleetRecordMatches :: "SandboxRecord \<Rightarrow> string \<Rightarrow> SandboxSnapshot option \<Rightarrow> bool" where
  "fleetRecordMatches r query snapshot =
     (let needle = toLowerCase (trim query) in
      if needle = [] then True
      else let status = sandboxStatus (rec_state r) (count_num (activeCommandsForRecord r snapshot)) in
        \<exists>v \<in> set [rec_id r, rec_workspace_root r, state_name (rec_state r),
            display_name (pr_display status), pr_label status].
          str_includes (toLowerCase v) needle)"

definition filterFleetRecords :: "SandboxRecord list \<Rightarrow> string \<Rightarrow> SnapshotResult option \<Rightarrow> SandboxRecord list" where
  "filterFleetRecords records query snapshot =
     (if trim query = [] then records
      else let snapshots = snapshotsBySandbox snapshot in
        filter (\<lambda>r. fleetRecordMatches r query (map_of snapshots (rec_id r))) records)"

fun command_sum :: "(string \<times> SandboxSnapshot) list \<Rightarrow> nat \<Rightarrow> SandboxRecord list \<Rightarrow> nat option" where
  "command_sum snapshots acc [] = Some acc"
| "command_sum snapshots acc (r # rs) = (case map_of snapshots (rec_id r) of
     None \<Rightarrow> None
   | Some entry \<Rightarrow> command_sum snapshots (acc + inFlightCount entry) rs)"

definition activeCommandTotal :: "SandboxList option \<Rightarrow> SnapshotResult option \<Rightarrow> nat option" where
  "activeCommandTotal fleet snapshot = (case fleet of
     None \<Rightarrow> None
   | Some l \<Rightarrow> (let readyRecords = filter (\<lambda>r. rec_state r = Ready) (sl_sandboxes l) in
       if readyRecords = [] then Some 0
       else if snapshot = None then None
       else command_sum (snapshotsBySandbox snapshot) 0 readyRecords))"

definition dashboardSummary :: "SandboxList option \<Rightarrow> SnapshotResult option
    \<Rightarrow> (string \<times> SandboxCurrentUsage) list \<Rightarrow> FleetSummary" where
  "dashboardSummary fleet snapshot usage = (case fleet of
     None \<Rightarrow> \<lparr>fsum_total = None, fsum_ready = None, fsum_activeCommands = None, fsum_averageMemoryBytes = None\<rparr>
   | Some l \<Rightarrow> \<lparr>fsum_total = Some (length (sl_sandboxes l)),
       fsum_ready = Some (length (filter (\<lambda>r. rec_state r = Ready) (sl_sandboxes l))),
       fsum_activeCommands = activeCommandTotal fleet snapshot,
       fsum_averageMemoryBytes = averageMemoryBytes (sl_sandboxes l) usage\<rparr>)"

fun primaryActionFor :: "SandboxState \<Rightarrow> SandboxPrimaryAction option" where
  "primaryActionFor Ready = Some \<lparr>act_kind = Open_action, act_label = ''Open'', act_disabled = False\<rparr>"
| "primaryActionFor Stopping = Some \<lparr>act_kind = Open_action, act_label = ''Open'', act_disabled = True\<rparr>"
| "primaryActionFor Stopped = Some \<lparr>act_kind = Inspect_action, act_label = ''Inspect'', act_disabled = False\<rparr>"
| "primaryActionFor Failed = Some \<lparr>act_kind = Inspect_action, act_label = ''Inspect'', act_disabled = False\<rparr>"
| "primaryActionFor Creating = None"

definition sandboxCardViewModel :: "SandboxRecord \<Rightarrow> SandboxSnapshot option \<Rightarrow> SandboxCurrentUsage option \<Rightarrow> SandboxCardViewModel" where
  "sandboxCardViewModel r snapshot usage =
     (let activeCommands = activeCommandsForRecord r snapshot;
          hasCurrentData = (rec_state r = Ready);
          status = sandboxStatus (rec_state r) (count_num activeCommands)
      in \<lparr>card_id = rec_id r, card_workspaceRoot = rec_workspace_root r,
          card_lifecycleState = rec_state r, card_displayState = pr_display status, card_status = status,
          card_cpuPercent = (if hasCurrentData then Option.bind usage us_cpuPercent else None),
          card_memoryBytes = (if hasCurrentData then Option.bind usage us_memoryBytes else None),
          card_sessions = (if hasCurrentData \<and> map_option ss_sandbox_id snapshot = Some (rec_id r)
             then map_option (\<lambda>s. length (ss_workspaces s)) snapshot else None),
          card_activeCommands = activeCommands,
          card_primaryAction = primaryActionFor (rec_state r)\<rparr>)"

section \<open>The order of the cards\<close>

definition stabilize_key :: "(string \<times> nat) list \<Rightarrow> (string \<times> nat) list \<Rightarrow> string \<Rightarrow> nat \<times> nat" where
  "stabilize_key prev inc i = (case map_of prev i of
     Some n \<Rightarrow> (0, n)
   | None \<Rightarrow> (1, case map_of inc i of None \<Rightarrow> 0 | Some n \<Rightarrow> n))"

interpretation stabilize: key_comparator "stabilize_cmp prev inc" "\<lambda>r. stabilize_key prev inc (rec_id r)" for prev inc
  by unfold_locales (auto simp: stabilize_cmp_def stabilize_key_def split: option.splits)

lemma map_of_positions:
  assumes "distinct ids"
  shows "map_of (positions ids) i = Some n \<longleftrightarrow> n < length ids \<and> ids ! n = i"
proof -
  have "map_of (positions ids) i = Some n \<longleftrightarrow> (i, n) \<in> set (zip ids [0..<length ids])"
    using assms by (simp add: positions_def map_of_map_new_distinct)
  then show ?thesis by (auto simp: in_set_zip)
qed

lemma nth_positions:
  "distinct ids \<Longrightarrow> n < length ids \<Longrightarrow> map_of (positions ids) (ids ! n) = Some n"
  by (simp add: map_of_positions)

lemma positions_inj:
  "distinct ids \<Longrightarrow> map_of (positions ids) i = Some n \<Longrightarrow> map_of (positions ids) j = Some n \<Longrightarrow> i = j"
  by (auto simp: map_of_positions)

lemma map_of_positions_None_iff: "map_of (positions ids) i = None \<longleftrightarrow> i \<notin> set ids"
proof -
  have "map_of (positions ids) i = None \<longleftrightarrow> i \<notin> fst ` set (zip ids [0..<length ids])"
    by (simp add: positions_def map_of_map_new map_of_eq_None_iff)
  then show ?thesis by (metis length_map map_fst_zip list.set_map map_nth length_upt minus_nat.diff_0)
qed

lemma map_sort_key: "map f (sort_key (\<lambda>x. g (f x)) xs) = sort_key g (map f xs)"
proof -
  have "map f (insort_key (\<lambda>x. g (f x)) x ys) = insort_key g (f x) (map f ys)" for x ys
    by (induction ys) auto
  then show ?thesis by (induction xs) auto
qed

lemma stabilize_key_previous:
  "distinct prev \<Longrightarrow> n < length prev \<Longrightarrow> stabilize_key (positions prev) inc (prev ! n) = (0, n)"
  using map_of_positions [of prev "prev ! n" n] by (simp add: stabilize_key_def)

lemma stabilize_key_incoming:
  "distinct ids \<Longrightarrow> n < length ids \<Longrightarrow> ids ! n \<notin> set prev \<Longrightarrow>
   stabilize_key (positions prev) (positions ids) (ids ! n) = (1, n)"
  using map_of_positions [of ids "ids ! n" n] map_of_positions_None_iff [of prev "ids ! n"]
  by (simp add: stabilize_key_def)

lemma sorted_stabilize_previous:
  assumes "distinct prev"
  shows "sorted (map (stabilize_key (positions prev) inc) prev)"
  using assms by (simp add: sorted_iff_nth_mono stabilize_key_previous)

lemma sorted_stabilize_incoming:
  assumes "distinct ids"
  shows "sorted (map (stabilize_key (positions prev) (positions ids)) (filter (\<lambda>i. i \<notin> set prev) ids))"
proof -
  let ?p = "\<lambda>i. (1 :: nat, the (map_of (positions ids) i))"
  have "sorted (map ?p ids)"
    using assms by (simp add: sorted_iff_nth_mono nth_positions)
  then have "sorted (map ?p (filter (\<lambda>i. i \<notin> set prev) ids))" by (rule sorted_filter)
  moreover have "map (stabilize_key (positions prev) (positions ids)) (filter (\<lambda>i. i \<notin> set prev) ids) =
      map ?p (filter (\<lambda>i. i \<notin> set prev) ids)"
    by (auto simp: stabilize_key_def map_of_positions_None_iff [of prev, THEN iffD2]
        map_of_positions_None_iff [of ids] split: option.splits)
  ultimately show ?thesis by (simp only:)
qed

lemma inj_stabilize_key:
  assumes "distinct prev" "distinct ids"
  shows "inj_on (stabilize_key (positions prev) (positions ids)) (set ids)"
proof (rule inj_onI)
  fix i j
  assume "i \<in> set ids" "j \<in> set ids"
    and eq: "stabilize_key (positions prev) (positions ids) i = stabilize_key (positions prev) (positions ids) j"
  moreover obtain m n where "map_of (positions ids) i = Some m" "map_of (positions ids) j = Some n"
    using calculation(1,2) map_of_positions_None_iff [of ids] by (metis not_Some_eq)
  ultimately show "i = j"
    using positions_inj [OF assms(1), of i _ j] positions_inj [OF assms(2), of i m j]
    by (auto simp: stabilize_key_def split: option.splits)
qed

lemma stabilized_order:
  assumes "distinct prev" "distinct ids"
  shows "sort_key (stabilize_key (positions prev) (positions ids)) ids =
    filter (\<lambda>i. i \<in> set ids) prev @ filter (\<lambda>i. i \<notin> set prev) ids" (is "_ = ?order")
proof (rule sort_key_inj_key_eq)
  show "mset ids = mset ?order"
    using assms by (intro set_eq_iff_mset_eq_distinct [THEN iffD1]) auto
  show "inj_on (stabilize_key (positions prev) (positions ids)) (set ids)"
    using assms by (rule inj_stabilize_key)
  have "fst (stabilize_key (positions prev) (positions ids) i) = (if i \<in> set prev then 0 else 1)" for i
    by (auto simp: stabilize_key_def map_of_positions_None_iff split: option.splits)
      (metis map_of_positions_None_iff option.distinct(1))+
  then have "stabilize_key (positions prev) (positions ids) i \<le> stabilize_key (positions prev) (positions ids) j"
    if "i \<in> set prev" "j \<notin> set prev" for i j
    using that by (auto simp: less_eq_prod_def)
  then show "sorted (map (stabilize_key (positions prev) (positions ids)) ?order)"
    using sorted_stabilize_previous [OF assms(1)] sorted_stabilize_incoming [OF assms(2), of prev]
    by (auto simp: sorted_append sorted_filter)
qed

section \<open>Commands and activity\<close>

lemma map_of_snapshotsBySandbox_SomeD:
  "map_of (snapshotsBySandbox snapshot) i = Some s \<Longrightarrow>
   ss_sandbox_id s = i \<and> s \<in> set (case snapshot of None \<Rightarrow> [] | Some r \<Rightarrow> snap_sandboxes r)"
  by (auto simp: snapshotsBySandbox_def map_of_map_new dest!: map_of_SomeD)

lemma command_sum_iff:
  "command_sum snapshots acc rs = Some n \<longleftrightarrow>
   (\<forall>r \<in> set rs. map_of snapshots (rec_id r) \<noteq> None) \<and>
   n = acc + (\<Sum>r \<leftarrow> rs. inFlightCount (the (map_of snapshots (rec_id r))))"
  by (induction rs arbitrary: acc) (auto split: option.splits)

section \<open>Properties\<close>

text \<open>
  A refresh never moves a card.  With distinct ids, the stabilised list holds the same
  records; those already on the board keep their previous relative order, and the new ones follow
  in the order the manager lists them.
\<close>

lemma stabilizeFleetList_order:
  assumes "distinct (map rec_id (sl_sandboxes l))" "distinct previousOrder"
    and "stabilizeFleetList (Some l) previousOrder = Some l'"
  shows "mset (sl_sandboxes l') = mset (sl_sandboxes l) \<and>
    map rec_id (sl_sandboxes l') =
      filter (\<lambda>i. i \<in> set (map rec_id (sl_sandboxes l))) previousOrder @
      filter (\<lambda>i. i \<notin> set previousOrder) (map rec_id (sl_sandboxes l))"
proof (cases "previousOrder = []")
  case False
  with assms(3) have l': "sl_sandboxes l' = sort_key (\<lambda>r. stabilize_key (positions previousOrder)
      (positions (map rec_id (sl_sandboxes l))) (rec_id r)) (sl_sandboxes l)"
    by (auto simp: stabilizeFleetList_def stabilize.js_sort_sort_key)
  then show ?thesis
    using stabilized_order [OF assms(2,1)] by (simp only: map_sort_key mset_sort simp_thms)
qed (use assms in \<open>simp add: stabilizeFleetList_def\<close>)

lemma stabilizeFleetList_order_witness:
  "\<exists>l'. stabilizeFleetList (Some \<lparr>sl_sandboxes = map (\<lambda>i. sample_record i Ready None) [''n'', ''b'', ''a'']\<rparr>) [''a'', ''x'', ''b''] = Some l' \<and>
     map rec_id (sl_sandboxes l') = [''a'', ''b'', ''n'']"
proof -
  obtain l' where "stabilizeFleetList (Some \<lparr>sl_sandboxes = map (\<lambda>i. sample_record i Ready None) [''n'', ''b'', ''a'']\<rparr>)
      [''a'', ''x'', ''b''] = Some l'" by (simp add: stabilizeFleetList_def)
  from this stabilizeFleetList_order [OF _ _ this] show ?thesis by (simp add: sample_record_def)
qed

text \<open>
  The fleet's command total is confirmed or absent: it is a number exactly when every ready
  sandbox has a snapshot, and then it is the sum of the commands in flight over the ready
  sandboxes; one missing snapshot makes it unknown instead of too small.
\<close>

lemma activeCommandTotal_confirmed:
  assumes "ready = filter (\<lambda>r. rec_state r = Ready) (sl_sandboxes l)"
  shows "activeCommandTotal (Some l) snapshot = Some n \<longleftrightarrow>
    (\<forall>r \<in> set ready. map_of (snapshotsBySandbox snapshot) (rec_id r) \<noteq> None) \<and>
    n = (\<Sum>r \<leftarrow> ready. inFlightCount (the (map_of (snapshotsBySandbox snapshot) (rec_id r))))"
proof -
  have total: "activeCommandTotal (Some l) snapshot = (if ready = [] then Some 0 else if snapshot = None then None
      else command_sum (snapshotsBySandbox snapshot) 0 ready)"
    by (simp add: activeCommandTotal_def Let_def assms)
  have none: "map_of (snapshotsBySandbox None) i = None" for i
    by (simp add: snapshotsBySandbox_def map_new_def)
  show ?thesis
  proof (cases "snapshot = None \<or> ready = []")
    case True
    then show ?thesis using none unfolding total by (cases ready) auto
  next
    case False
    then show ?thesis unfolding total by (auto simp: command_sum_iff)
  qed
qed

lemma activeCommandTotal_confirmed_witness:
  "activeCommandTotal (Some \<lparr>sl_sandboxes = [sample_record ''a'' Ready None]\<rparr>) None \<noteq> Some 0"
  using activeCommandTotal_confirmed [of "[sample_record ''a'' Ready None]"
      "\<lparr>sl_sandboxes = [sample_record ''a'' Ready None]\<rparr>" None 0]
  by (simp add: sample_record_def snapshotsBySandbox_def map_new_def)

text \<open>
  The board polls fast whenever it shows something that moves: if a card of the list pulses, or
  its action is missing or disabled because the sandbox is in transition, then fleet activity is
  reported.
\<close>

lemma moving_card_is_activity:
  assumes "r \<in> set (sl_sandboxes l)"
    and "view = sandboxCardViewModel r (map_of (snapshotsBySandbox snapshot) (rec_id r)) usage"
    and "pr_pulse (card_status view) \<or>
      (case card_primaryAction view of None \<Rightarrow> True | Some a \<Rightarrow> act_disabled a)"
  shows "hasFleetActivity (Some l) snapshot createLogs"
proof (cases "pr_pulse (card_status view)")
  case True
  with assms(2) obtain s where "map_of (snapshotsBySandbox snapshot) (rec_id r) = Some s"
    "rec_state r = Ready" "0 < inFlightCount s"
    by (auto simp: sandboxCardViewModel_def Let_def sandboxStatus_pulse_iff count_num_def
        activeCommandsForRecord_def split: option.splits if_splits)
  with assms(1) show ?thesis
    using map_of_snapshotsBySandbox_SomeD [of snapshot "rec_id r" s]
    by (auto simp: hasFleetActivity_def list_records_def Let_def intro!: bexI [of _ s])
next
  case False
  with assms(2,3) have "rec_state r = Creating \<or> rec_state r = Stopping"
    by (cases "rec_state r") (auto simp: sandboxCardViewModel_def Let_def)
  with assms(1) show ?thesis by (auto simp: hasFleetActivity_def list_records_def Let_def)
qed

lemma moving_card_is_activity_witness:
  "hasFleetActivity (Some \<lparr>sl_sandboxes = [sample_record ''a'' Stopping None]\<rparr>) None None"
  using moving_card_is_activity [of "sample_record ''a'' Stopping None"
      "\<lparr>sl_sandboxes = [sample_record ''a'' Stopping None]\<rparr>" _ None None None, OF _ refl]
  by (simp add: sandboxCardViewModel_def sample_record_def Let_def)

end
