(* ===== verification/Storage.thy ===== *)
theory Storage
  imports Json
begin

text \<open>
  What a client of browser storage relies on.  Two components keep a list of records as JSON text:
  the cluster registry and the command ledger.  The locale \<open>stored_list\<close> is their shared contract:
  reading what was written gives back the kept part of the list, and a list that was read is kept
  whole.  Both components interpret it.
\<close>

locale stored_list =
  fixes encode :: "'a list \<Rightarrow> string" and decode :: "string option \<Rightarrow> 'a list"
    and keep :: "'a list \<Rightarrow> 'a list"
  assumes decode_encode: "decode (Some (encode xs)) = keep xs"
    and keep_keep: "keep (keep xs) = keep xs"
begin

text \<open>A load after a save is stable: saving what was loaded changes nothing.\<close>

lemma reload: "decode (Some (encode (decode (Some (encode xs))))) = decode (Some (encode xs))"
  by (simp add: decode_encode keep_keep)

text \<open>Sequences of saves: the last one counts.\<close>

fun saves :: "string option \<Rightarrow> 'a list list \<Rightarrow> string option" where
  "saves item [] = item"
| "saves item (xs # xss) = saves (Some (encode xs)) xss"

lemma decode_saves: "xss \<noteq> [] \<Longrightarrow> decode (saves item xss) = keep (last xss)"
  by (induction item xss rule: saves.induct) (auto simp: decode_encode)

end

end
