(* ===== verification/Clusters.thy ===== *)
theory Clusters
  imports Rpc Fleet Storage
begin

text \<open>
  Sandbox clusters: \<^verbatim>\<open>web/src/core/sandboxClusters.ts\<close>.  The browser's storage is a record
  (whether reading and writing throw, and the item under the registry's key); the server's registry
  is the outcome of the fetches, given as arguments.  Stored values are JSON text, so the codec of
  \<open>Json\<close> is used as it stands.
\<close>

record SandboxClusterRecord =
  cl_id :: string
  cl_memberIds :: "string list"
  cl_workspaceRoot :: string
  cl_createdAt :: string

record ResolvedSandboxCluster = SandboxClusterRecord +
  cl_members :: "SandboxRecord list"

section \<open>Decoding\<close>

fun as_string :: "json option \<Rightarrow> string option" where
  "as_string (Some (JStr s)) = Some s"
| "as_string _ = None"

fun as_array :: "json option \<Rightarrow> json list" where
  "as_array (Some (JArr vs)) = vs"
| "as_array _ = []"

fun all_strings :: "json list \<Rightarrow> string list option" where
  "all_strings [] = Some []"
| "all_strings (v # vs) = (case (as_string (Some v), all_strings vs) of
     (Some s, Some ss) \<Rightarrow> Some (s # ss) | _ \<Rightarrow> None)"

text \<open>\<^verbatim>\<open>isSandboxRecord\<close> gives the fields the caller uses: the id and the workspace root.\<close>

definition isSandboxRecord :: "json \<Rightarrow> (string \<times> string) option" where
  "isSandboxRecord v = (case (as_string (js_prop v ''id''), as_string (js_prop v ''workspace_root''),
        as_string (js_prop v ''state'')) of
     (Some i, Some w, Some _) \<Rightarrow> Some (i, w) | _ \<Rightarrow> None)"

text \<open>\<^verbatim>\<open>"sandboxes" in result\<close> throws on a value that is not an object (\<^term>\<open>None\<close>).\<close>

definition recordsFromCreateResult :: "json \<Rightarrow> (string \<times> string) list option" where
  "recordsFromCreateResult result = (case result of
     JObj kvs \<Rightarrow> (case obj_get ''sandboxes'' kvs of
         Some (JArr vs) \<Rightarrow> Some (List.map_filter isSandboxRecord vs)
       | _ \<Rightarrow> Some (case isSandboxRecord result of None \<Rightarrow> [] | Some r \<Rightarrow> [r]))
   | JArr _ \<Rightarrow> Some []
   | _ \<Rightarrow> None)"

definition clusterSuffix :: "string \<Rightarrow> string" where
  "clusterSuffix sandboxId =
     (let normalized = (if startsWith sandboxId ''eos-'' then drop 4 sandboxId else sandboxId);
          first = hd (split_on (CHR ''-'') normalized)
      in if first \<noteq> [] then first
         else if take 8 normalized \<noteq> [] then take 8 normalized else ''batch'')"

definition clusterFromCreateResult :: "json \<Rightarrow> string \<Rightarrow> bool \<Rightarrow> SandboxClusterRecord option option" where
  "clusterFromCreateResult result createdAt allowSingleMember =
     (case recordsFromCreateResult result of None \<Rightarrow> None
      | Some records \<Rightarrow> Some (
          if length records < (if allowSingleMember then 1 else 2) then None
          else Some \<lparr>cl_id = ''cluster-'' @ clusterSuffix (fst (hd records)),
                     cl_memberIds = map fst records,
                     cl_workspaceRoot = snd (hd records), cl_createdAt = createdAt\<rparr>))"

definition isClusterRecord :: "json \<Rightarrow> SandboxClusterRecord option" where
  "isClusterRecord v = (case (as_string (js_prop v ''id''), js_prop v ''memberIds'',
        as_string (js_prop v ''workspaceRoot''), as_string (js_prop v ''createdAt'')) of
     (Some i, Some (JArr ms), Some w, Some c) \<Rightarrow>
       if ms = [] then None
       else map_option (\<lambda>ids. \<lparr>cl_id = i, cl_memberIds = ids, cl_workspaceRoot = w, cl_createdAt = c\<rparr>)
         (all_strings ms)
   | _ \<Rightarrow> None)"

definition parseSandboxClusters :: "string option \<Rightarrow> SandboxClusterRecord list" where
  "parseSandboxClusters value = (case value of None \<Rightarrow> []
     | Some t \<Rightarrow> if t = [] then []
         else List.map_filter isClusterRecord (as_array (JSON_parse t)))"

definition cluster_json :: "SandboxClusterRecord \<Rightarrow> json" where
  "cluster_json c = JObj [(''id'', JStr (cl_id c)), (''memberIds'', JArr (map JStr (cl_memberIds c))),
     (''workspaceRoot'', JStr (cl_workspaceRoot c)), (''createdAt'', JStr (cl_createdAt c))]"

section \<open>Storage and registry\<close>

record local_storage =
  st_readable :: bool
  st_writable :: bool
  st_item :: "string option"

definition readSandboxClusters :: "local_storage \<Rightarrow> SandboxClusterRecord list" where
  "readSandboxClusters storage = (if st_readable storage then parseSandboxClusters (st_item storage) else [])"

definition writeSandboxClusters :: "SandboxClusterRecord list \<Rightarrow> local_storage \<Rightarrow> local_storage" where
  "writeSandboxClusters cs storage = (if st_writable storage
     then storage\<lparr>st_item := Some (JSON_stringify (JArr (map cluster_json cs)))\<rparr> else storage)"

definition mergeSandboxClusters :: "SandboxClusterRecord list \<Rightarrow> SandboxClusterRecord list \<Rightarrow> SandboxClusterRecord list" where
  "mergeSandboxClusters xs ys = foldl (\<lambda>clusters cluster.
     filter (\<lambda>candidate. cl_id candidate \<noteq> cl_id cluster \<and>
       \<not> (\<exists>m \<in> set (cl_memberIds candidate). m \<in> set (set_new (cl_memberIds cluster)))) clusters @ [cluster]) xs ys"

text \<open>The result of a listing, and the clusters posted to the registry on the way.\<close>

definition listSandboxClusters :: "local_storage \<Rightarrow> fetch_outcome \<Rightarrow> SandboxClusterRecord list \<times> SandboxClusterRecord list" where
  "listSandboxClusters storage outcome =
     (let local = readSandboxClusters storage in
      case outcome of
        FetchFails _ \<Rightarrow> (local, [])
      | Responded r \<Rightarrow>
          if \<not> rsp_ok r then (local, [])
          else (case Option.bind (rsp_text r) JSON_parse of
            None \<Rightarrow> (local, [])
          | Some JNull \<Rightarrow> (local, [])
          | Some body \<Rightarrow>
              (let remote = parseSandboxClusters (Some (JSON_stringify (nullish (js_prop body ''clusters'') (JArr []))))
               in (mergeSandboxClusters remote local, local))))"

definition registerSandboxCluster :: "json \<Rightarrow> string \<Rightarrow> bool \<Rightarrow> local_storage
    \<Rightarrow> (SandboxClusterRecord option \<times> local_storage \<times> SandboxClusterRecord list) option" where
  "registerSandboxCluster result now allowSingleMember storage =
     (case clusterFromCreateResult result now allowSingleMember of
        None \<Rightarrow> None
      | Some None \<Rightarrow> Some (None, storage, [])
      | Some (Some cluster) \<Rightarrow> Some (Some cluster,
          writeSandboxClusters (mergeSandboxClusters (readSandboxClusters storage) [cluster]) storage, [cluster]))"

definition removeSandboxCluster :: "string \<Rightarrow> fetch_outcome \<Rightarrow> local_storage \<Rightarrow> string + local_storage" where
  "removeSandboxCluster clusterId outcome storage = (case outcome of
     FetchFails e \<Rightarrow> Inl e
   | Responded r \<Rightarrow>
       if \<not> rsp_ok r then Inl (''Could not remove sandbox cluster (HTTP '' @ show_nat (rsp_status r) @ '')'')
       else Inr (writeSandboxClusters
         (filter (\<lambda>c. cl_id c \<noteq> clusterId) (readSandboxClusters storage)) storage))"

section \<open>Resolution\<close>

record resolution =
  rz_clusters :: "ResolvedSandboxCluster list"
  rz_clusteredIds :: "string list"

definition resolve_step :: "(string \<times> SandboxRecord) list \<Rightarrow> resolution \<Rightarrow> SandboxClusterRecord \<Rightarrow> resolution" where
  "resolve_step recordsById st cluster =
     (let members = filter (\<lambda>r. rec_id r \<notin> set (rz_clusteredIds st))
            (List.map_filter (map_of recordsById) (set_new (cl_memberIds cluster)))
      in if members = [] then st
         else \<lparr>rz_clusters = rz_clusters st @ [SandboxClusterRecord.extend cluster \<lparr>cl_members = members\<rparr>],
               rz_clusteredIds = foldl (\<lambda>ids m. set_add (rec_id m) ids) (rz_clusteredIds st) members\<rparr>)"

definition resolveSandboxClusters :: "SandboxRecord list \<Rightarrow> SandboxClusterRecord list
    \<Rightarrow> ResolvedSandboxCluster list \<times> SandboxRecord list" where
  "resolveSandboxClusters records registry =
     (let recordsById = map_new (map (\<lambda>r. (rec_id r, r)) records);
          st = foldl (resolve_step recordsById) \<lparr>rz_clusters = [], rz_clusteredIds = []\<rparr> registry
      in (rz_clusters st, filter (\<lambda>r. rec_id r \<notin> set (rz_clusteredIds st)) records))"

section \<open>The registry as stored text\<close>

lemma all_strings_JStr [simp]: "all_strings (map JStr ss) = Some ss"
  by (induction ss) auto

lemma isClusterRecord_json:
  "isClusterRecord (cluster_json c) = (if cl_memberIds c = [] then None else Some c)"
  by (simp add: isClusterRecord_def cluster_json_def obj_get_def)

lemma json_plain_clusters: "json_plain (JArr (map cluster_json cs))"
  by (auto simp: cluster_json_def)

lemma map_filter_clusters:
  "List.map_filter isClusterRecord (map cluster_json cs) = filter (\<lambda>c. cl_memberIds c \<noteq> []) cs"
  by (induction cs) (auto simp: List.map_filter_simps isClusterRecord_json)

lemma set_map_filter: "set (List.map_filter f xs) = {y. \<exists>x \<in> set xs. f x = Some y}"
  by (induction xs) (auto simp: List.map_filter_simps split: option.splits)

lemma length_all_strings: "all_strings vs = Some ss \<Longrightarrow> length ss = length vs"
  by (induction vs arbitrary: ss) (auto split: option.splits)

lemma isClusterRecord_members:
  assumes "isClusterRecord v = Some c"
  shows "cl_memberIds c \<noteq> []"
proof -
  obtain ms ids where "ms \<noteq> []" "all_strings ms = Some ids" "cl_memberIds c = ids"
    using assms by (auto simp: isClusterRecord_def split: option.splits json.splits if_splits)
  then show ?thesis using length_all_strings by fastforce
qed

lemma readSandboxClusters_members:
  assumes "c \<in> set (readSandboxClusters storage)"
  shows "cl_memberIds c \<noteq> []"
proof -
  have "c \<in> set (parseSandboxClusters item) \<Longrightarrow> \<exists>v. isClusterRecord v = Some c" for item
    by (auto simp: parseSandboxClusters_def set_map_filter split: option.splits if_splits)
  with assms isClusterRecord_members show ?thesis
    unfolding readSandboxClusters_def by (metis empty_iff list.set(1))
qed

interpretation registry: stored_list "\<lambda>cs. JSON_stringify (JArr (map cluster_json cs))" parseSandboxClusters
  "filter (\<lambda>c. cl_memberIds c \<noteq> [])"
proof
  show "parseSandboxClusters (Some (JSON_stringify (JArr (map cluster_json cs)))) =
      filter (\<lambda>c. cl_memberIds c \<noteq> []) cs" for cs
    using JSON_roundtrip [OF json_plain_clusters, of cs]
    by (auto simp: parseSandboxClusters_def map_filter_clusters)
qed simp

section \<open>Disjoint registries\<close>

definition cluster_apart :: "SandboxClusterRecord \<Rightarrow> SandboxClusterRecord \<Rightarrow> bool" where
  "cluster_apart c d = (cl_id c \<noteq> cl_id d \<and> set (cl_memberIds c) \<inter> set (cl_memberIds d) = {})"

definition clusters_disjoint :: "SandboxClusterRecord list \<Rightarrow> bool" where
  "clusters_disjoint cs = sorted_wrt cluster_apart cs"

lemma mergeSandboxClusters_Nil [simp]: "mergeSandboxClusters xs [] = xs"
  by (simp add: mergeSandboxClusters_def)

lemma mergeSandboxClusters_snoc:
  "mergeSandboxClusters xs (ys @ [y]) = filter (\<lambda>c. cluster_apart c y) (mergeSandboxClusters xs ys) @ [y]"
  by (auto simp: mergeSandboxClusters_def cluster_apart_def intro!: filter_cong)

lemma merge_disjoint: "clusters_disjoint xs \<Longrightarrow> clusters_disjoint (mergeSandboxClusters xs ys)"
proof (induction ys rule: rev_induct)
  case (snoc y ys)
  then show ?case
    by (simp add: mergeSandboxClusters_snoc clusters_disjoint_def sorted_wrt_append sorted_wrt_filter)
qed simp

lemma merge_local_disjoint: "clusters_disjoint ys \<Longrightarrow>
  mergeSandboxClusters xs ys = filter (\<lambda>c. \<forall>y \<in> set ys. cluster_apart c y) xs @ ys"
proof (induction ys rule: rev_induct)
  case (snoc y ys)
  then have "clusters_disjoint ys" "\<forall>c \<in> set ys. cluster_apart c y"
    by (auto simp: clusters_disjoint_def sorted_wrt_append)
  with snoc.IH show ?case by (auto simp: mergeSandboxClusters_snoc intro!: filter_cong)
qed simp

section \<open>Resolution\<close>

definition resolved_members :: "resolution \<Rightarrow> SandboxRecord list" where
  "resolved_members st = concat (map cl_members (rz_clusters st))"

lemma set_foldl_set_add_map: "set (foldl (\<lambda>ids m. set_add (f m) ids) ids ms) = set ids \<union> f ` set ms"
  by (induction ms arbitrary: ids) auto

definition resolution_inv :: "SandboxRecord list \<Rightarrow> SandboxClusterRecord list \<Rightarrow> resolution \<Rightarrow> bool" where
  "resolution_inv records registry st =
     (distinct (map rec_id (resolved_members st)) \<and>
      set (rz_clusteredIds st) = rec_id ` set (resolved_members st) \<and>
      set (resolved_members st) = {r \<in> set records. \<exists>c \<in> set registry. rec_id r \<in> set (cl_memberIds c)})"

lemma map_of_records:
  assumes "distinct (map rec_id records)"
  shows "map_of (map_new (map (\<lambda>r. (rec_id r, r)) records)) i = Some r \<longleftrightarrow> r \<in> set records \<and> rec_id r = i"
proof -
  have "map fst (map (\<lambda>r. (rec_id r, r)) records) = map rec_id records" by simp
  with assms show ?thesis by (auto simp: map_of_map_new_distinct map_of_eq_Some_iff simp del: map_map)
qed

lemma distinct_map_filter_ids:
  assumes "distinct ids" "\<And>i r. m i = Some r \<Longrightarrow> rec_id r = i"
  shows "distinct (map rec_id (List.map_filter m ids))"
  using assms(1)
proof (induction ids)
  case (Cons i ids)
  have "rec_id r \<in> set ids" if "r \<in> set (List.map_filter m ids)" for r
    using that assms(2) by (auto simp: set_map_filter)
  with Cons assms(2) show ?case by (auto simp: List.map_filter_simps split: option.splits)
qed (simp add: List.map_filter_simps)

lemma resolve_step_inv:
  assumes inv: "resolution_inv records cs st" and dist: "distinct (map rec_id records)"
  shows "resolution_inv records (cs @ [c])
    (resolve_step (map_new (map (\<lambda>r. (rec_id r, r)) records)) st c)"
proof -
  let ?m = "map_of (map_new (map (\<lambda>r. (rec_id r, r)) records))"
  let ?members = "filter (\<lambda>r. rec_id r \<notin> set (rz_clusteredIds st)) (List.map_filter ?m (set_new (cl_memberIds c)))"
  have members: "set ?members = {r \<in> set records. rec_id r \<in> set (cl_memberIds c) \<and> rec_id r \<notin> set (rz_clusteredIds st)}"
    by (auto simp: set_map_filter map_of_records [OF dist])
  have dm: "distinct (map rec_id ?members)"
    using distinct_map_filter_ids [of "set_new (cl_memberIds c)" ?m]
    by (auto simp: map_of_records [OF dist] distinct_map_filter)
  have old: "r \<in> set (resolved_members st)"
    if "r \<in> set records" "rec_id r \<in> set (rz_clusteredIds st)" for r
    using that inv dist by (auto simp: resolution_inv_def distinct_map inj_on_def)
  show ?thesis
  proof (cases "?members = []")
    case True
    then have "resolve_step (map_new (map (\<lambda>r. (rec_id r, r)) records)) st c = st"
      by (simp only: resolve_step_def Let_def simp_thms if_True)
    moreover have "r \<in> set (resolved_members st)" if "r \<in> set records" "rec_id r \<in> set (cl_memberIds c)" for r
      using that members old unfolding True by auto
    ultimately show ?thesis using inv by (auto simp: resolution_inv_def)
  next
    case False
    define ms where "ms = ?members"
    have step: "resolve_step (map_new (map (\<lambda>r. (rec_id r, r)) records)) st c =
        \<lparr>rz_clusters = rz_clusters st @ [SandboxClusterRecord.extend c \<lparr>cl_members = ms\<rparr>],
         rz_clusteredIds = foldl (\<lambda>ids m. set_add (rec_id m) ids) (rz_clusteredIds st) ms\<rparr>"
      using False by (simp only: resolve_step_def Let_def if_False ms_def)
    have "resolved_members (resolve_step (map_new (map (\<lambda>r. (rec_id r, r)) records)) st c) = resolved_members st @ ms"
      by (simp add: step resolved_members_def SandboxClusterRecord.defs)
    moreover have "set ms = {r \<in> set records. rec_id r \<in> set (cl_memberIds c) \<and> rec_id r \<notin> set (rz_clusteredIds st)}"
      "distinct (map rec_id ms)"
      using members dm by (simp_all only: ms_def)
    ultimately show ?thesis
      unfolding resolution_inv_def
    proof (intro conjI)
      let ?st = "resolve_step (map_new (map (\<lambda>r. (rec_id r, r)) records)) st c"
      assume rm: "resolved_members ?st = resolved_members st @ ms"
        and ms: "set ms = {r \<in> set records. rec_id r \<in> set (cl_memberIds c) \<and> rec_id r \<notin> set (rz_clusteredIds st)}"
        and dms: "distinct (map rec_id ms)"
      have i: "distinct (map rec_id (resolved_members st))"
        "set (rz_clusteredIds st) = rec_id ` set (resolved_members st)"
        "set (resolved_members st) = {r \<in> set records. \<exists>c \<in> set cs. rec_id r \<in> set (cl_memberIds c)}"
        using inv by (simp_all add: resolution_inv_def)
      have "rec_id ` set (resolved_members st) \<inter> rec_id ` set ms = {}"
        unfolding i(2) [symmetric] ms by blast
      then show "distinct (map rec_id (resolved_members ?st))"
        using i(1) dms by (simp add: rm)
      show "set (rz_clusteredIds ?st) = rec_id ` set (resolved_members ?st)"
        unfolding rm by (simp add: step set_foldl_set_add_map i(2) image_Un)
      have "set (resolved_members ?st) = set (resolved_members st) \<union> set ms" by (simp add: rm)
      also have "\<dots> = set (resolved_members st) \<union> {r \<in> set records. rec_id r \<in> set (cl_memberIds c)}"
        unfolding ms using old by blast
      finally show "set (resolved_members ?st) =
          {r \<in> set records. \<exists>c \<in> set (cs @ [c]). rec_id r \<in> set (cl_memberIds c)}"
        unfolding i(3) by auto
    qed
  qed
qed

lemma resolve_inv:
  assumes "distinct (map rec_id records)"
  shows "resolution_inv records registry
    (foldl (resolve_step (map_new (map (\<lambda>r. (rec_id r, r)) records))) \<lparr>rz_clusters = [], rz_clusteredIds = []\<rparr> registry)"
proof (induction registry rule: rev_induct)
  case Nil
  then show ?case by (simp add: resolution_inv_def resolved_members_def)
next
  case (snoc c cs)
  then show ?case using resolve_step_inv [OF snoc assms] by simp
qed

section \<open>Properties\<close>

text \<open>
  C3: The board shows every sandbox exactly once.  For records with distinct ids and any registry,
  overlapping or stale ones included, the members of the resolved clusters and the individuals
  together are the records, none twice; a record is an individual exactly when no cluster names it.
\<close>

theorem resolveSandboxClusters_partition:
  assumes "distinct (map rec_id records)"
    and "resolveSandboxClusters records registry = (clusters, individuals)"
  shows "mset (concat (map cl_members clusters) @ individuals) = mset records \<and>
    set individuals = {r \<in> set records. \<forall>c \<in> set registry. rec_id r \<notin> set (cl_memberIds c)}"
proof -
  define st where "st = foldl (resolve_step (map_new (map (\<lambda>r. (rec_id r, r)) records)))
    \<lparr>rz_clusters = [], rz_clusteredIds = []\<rparr> registry"
  have inv: "resolution_inv records registry st" unfolding st_def using assms(1) by (rule resolve_inv)
  have eqs: "concat (map cl_members clusters) = resolved_members st"
    "individuals = filter (\<lambda>r. rec_id r \<notin> set (rz_clusteredIds st)) records"
    using assms(2) by (auto simp: resolveSandboxClusters_def st_def resolved_members_def Let_def)
  have d: "distinct records" "distinct (resolved_members st)"
    using assms(1) inv by (auto simp: resolution_inv_def distinct_map)
  have clustered: "rec_id r \<in> set (rz_clusteredIds st) \<longleftrightarrow> r \<in> set (resolved_members st)" if "r \<in> set records" for r
    using that inv assms(1) by (auto simp: resolution_inv_def distinct_map inj_on_def)
  have "set (resolved_members st @ individuals) = set records"
    using inv clustered by (auto simp: eqs resolution_inv_def)
  moreover have "distinct (resolved_members st @ individuals)"
    using d inv clustered by (auto simp: eqs resolution_inv_def)
  ultimately have "mset (resolved_members st @ individuals) = mset records"
    using d(1) set_eq_iff_mset_eq_distinct by blast
  moreover have "set individuals = {r \<in> set records. \<forall>c \<in> set registry. rec_id r \<notin> set (cl_memberIds c)}"
    using inv clustered by (auto simp: eqs resolution_inv_def)
  ultimately show ?thesis by (simp add: eqs(1))
qed

definition sample_cluster :: "string \<Rightarrow> string list \<Rightarrow> SandboxClusterRecord" where
  "sample_cluster i ids = \<lparr>cl_id = i, cl_memberIds = ids, cl_workspaceRoot = ''/w'', cl_createdAt = ''t''\<rparr>"

theorem resolveSandboxClusters_partition_witness:
  "let records = [sample_record ''a'' Ready None, sample_record ''b'' Ready None, sample_record ''c'' Ready None];
       (clusters, individuals) = resolveSandboxClusters records
         [sample_cluster ''x'' [''b'', ''a'', ''gone''], sample_cluster ''y'' [''a'']]
   in mset (concat (map cl_members clusters) @ individuals) = mset records"
  using resolveSandboxClusters_partition
    [of "[sample_record ''a'' Ready None, sample_record ''b'' Ready None, sample_record ''c'' Ready None]"
      "[sample_cluster ''x'' [''b'', ''a'', ''gone''], sample_cluster ''y'' [''a'']]"]
  by (cases "resolveSandboxClusters [sample_record ''a'' Ready None, sample_record ''b'' Ready None, sample_record ''c'' Ready None]
      [sample_cluster ''x'' [''b'', ''a'', ''gone''], sample_cluster ''y'' [''a'']]")
    (simp add: sample_record_def)

text \<open>
  Registering a cluster keeps the stored registry well formed and readable: with writable
  storage, the registry read back is the old one without the clusters that share the new id or a
  member, followed by the new cluster; if the old registry had no two overlapping clusters, neither
  has the new one, and the new cluster is also posted to the server.
\<close>

lemma registerSandboxCluster_stored:
  assumes "registerSandboxCluster result now allowSingle storage = Some (Some c, storage', posts)"
    and "st_readable storage" "st_writable storage"
  shows "readSandboxClusters storage' = filter (\<lambda>d. cluster_apart d c) (readSandboxClusters storage) @ [c] \<and>
    (clusters_disjoint (readSandboxClusters storage) \<longrightarrow> clusters_disjoint (readSandboxClusters storage')) \<and>
    posts = [c] \<and> cl_memberIds c \<noteq> []"
proof -
  from assms(1) have c: "cl_memberIds c \<noteq> []" "posts = [c]"
    and storage': "storage' = writeSandboxClusters (mergeSandboxClusters (readSandboxClusters storage) [c]) storage"
    by (auto simp: registerSandboxCluster_def clusterFromCreateResult_def split: option.splits if_splits)
  have merge: "mergeSandboxClusters (readSandboxClusters storage) [c] =
      filter (\<lambda>d. cluster_apart d c) (readSandboxClusters storage) @ [c]"
    using mergeSandboxClusters_snoc [of "readSandboxClusters storage" "[]" c] by simp
  have "readSandboxClusters storage' =
      filter (\<lambda>d. cl_memberIds d \<noteq> []) (mergeSandboxClusters (readSandboxClusters storage) [c])"
    using assms(2,3) registry.decode_encode
    by (simp add: storage' writeSandboxClusters_def readSandboxClusters_def del: JSON_stringify.simps)
  then have read: "readSandboxClusters storage' = mergeSandboxClusters (readSandboxClusters storage) [c]"
    using readSandboxClusters_members c(1) by (auto simp: merge intro!: filter_cong)
  show ?thesis using c merge_disjoint [of "readSandboxClusters storage" "[c]"] by (auto simp: read merge)
qed

lemma registerSandboxCluster_stored_witness:
  "let result = JObj [(''sandboxes'', JArr [JObj [(''id'', JStr ''eos-a1-x''), (''workspace_root'', JStr ''/w''), (''state'', JStr ''ready'')],
          JObj [(''id'', JStr ''eos-a2-x''), (''workspace_root'', JStr ''/w''), (''state'', JStr ''ready'')]])];
       c = \<lparr>cl_id = ''cluster-a1'', cl_memberIds = [''eos-a1-x'', ''eos-a2-x''], cl_workspaceRoot = ''/w'', cl_createdAt = ''t''\<rparr>;
       storage = \<lparr>st_readable = True, st_writable = True, st_item = None\<rparr>
   in readSandboxClusters (writeSandboxClusters (mergeSandboxClusters (readSandboxClusters storage) [c]) storage) = [c]"
proof -
  let ?result = "JObj [(''sandboxes'', JArr [JObj [(''id'', JStr ''eos-a1-x''), (''workspace_root'', JStr ''/w''), (''state'', JStr ''ready'')],
          JObj [(''id'', JStr ''eos-a2-x''), (''workspace_root'', JStr ''/w''), (''state'', JStr ''ready'')]])]"
  let ?c = "\<lparr>cl_id = ''cluster-a1'', cl_memberIds = [''eos-a1-x'', ''eos-a2-x''], cl_workspaceRoot = ''/w'', cl_createdAt = ''t''\<rparr>"
  let ?st = "\<lparr>st_readable = True, st_writable = True, st_item = None\<rparr>"
  have "registerSandboxCluster ?result ''t'' False ?st =
      Some (Some ?c, writeSandboxClusters (mergeSandboxClusters (readSandboxClusters ?st) [?c]) ?st, [?c])"
    by (simp add: registerSandboxCluster_def clusterFromCreateResult_def recordsFromCreateResult_def obj_get_def
        isSandboxRecord_def List.map_filter_simps clusterSuffix_def startsWith_def)
  from registerSandboxCluster_stored [OF this]
  show ?thesis by (simp add: readSandboxClusters_def [of ?st] parseSandboxClusters_def)
qed

text \<open>
  A successful listing is the server's registry overridden by this browser's: the local
  clusters come last, whole, and a remote cluster is dropped when it shares the id or a member of a
  local one.  Every local cluster is posted to the server on every such listing, so a cluster that
  was removed from the registry elsewhere comes back as long as this browser remembers it.
\<close>

lemma listSandboxClusters_local_wins:
  assumes "rsp_ok r" "rsp_text r = Some (JSON_stringify (JObj [(''clusters'', JArr (map cluster_json remote))]))"
    and "clusters_disjoint (readSandboxClusters storage)" "\<forall>c \<in> set remote. cl_memberIds c \<noteq> []"
  shows "listSandboxClusters storage (Responded r) =
    (filter (\<lambda>c. \<forall>y \<in> set (readSandboxClusters storage). cluster_apart c y) remote @ readSandboxClusters storage,
     readSandboxClusters storage)"
proof -
  have "JSON_parse (JSON_stringify (JObj [(''clusters'', JArr (map cluster_json remote))])) =
      Some (JObj [(''clusters'', JArr (map cluster_json remote))])"
    using json_plain_clusters [of remote] by (intro JSON_roundtrip) simp
  moreover have "parseSandboxClusters (Some (JSON_stringify (JArr (map cluster_json remote)))) = remote"
    using assms(4) unfolding registry.decode_encode by simp
  ultimately show ?thesis
    using assms(1,2) merge_local_disjoint [OF assms(3), of remote]
    by (simp add: listSandboxClusters_def Let_def obj_get_def nullish_def del: JSON_stringify.simps)
qed

lemma listSandboxClusters_local_wins_witness:
  "listSandboxClusters \<lparr>st_readable = True, st_writable = True,
       st_item = Some (JSON_stringify (JArr (map cluster_json [sample_cluster ''x'' [''a'']])))\<rparr>
     (Responded \<lparr>rsp_status = 200, rsp_text = Some (JSON_stringify (JObj [(''clusters'', JArr (map cluster_json []))])), rsp_body = None\<rparr>) =
   ([sample_cluster ''x'' [''a'']], [sample_cluster ''x'' [''a'']])"
proof -
  let ?st = "\<lparr>st_readable = True, st_writable = True,
       st_item = Some (JSON_stringify (JArr (map cluster_json [sample_cluster ''x'' [''a'']])))\<rparr>"
  have "readSandboxClusters ?st = [sample_cluster ''x'' [''a'']]"
    using registry.decode_encode [of "[sample_cluster ''x'' [''a'']]"]
    by (simp add: readSandboxClusters_def sample_cluster_def del: JSON_stringify.simps)
  then show ?thesis
    using listSandboxClusters_local_wins [where r = "\<lparr>rsp_status = 200, rsp_text = Some (JSON_stringify (JObj [(''clusters'', JArr (map cluster_json []))])), rsp_body = None\<rparr>"
        and remote = "[]" and storage = ?st]
    by (simp add: rsp_ok_def clusters_disjoint_def del: JSON_stringify.simps)
qed

text \<open>
  Removing a cluster changes the stored registry only when the server confirmed the removal, and
  then it takes out exactly the clusters with that id and keeps the others in their order.
\<close>

lemma removeSandboxCluster_confirmed:
  assumes "st_readable storage" "st_writable storage"
  shows "case removeSandboxCluster i outcome storage of
     Inr storage' \<Rightarrow> (\<exists>r. outcome = Responded r \<and> rsp_ok r) \<and>
       readSandboxClusters storage' = filter (\<lambda>c. cl_id c \<noteq> i) (readSandboxClusters storage)
   | Inl _ \<Rightarrow> (\<nexists>r. outcome = Responded r \<and> rsp_ok r)"
proof -
  have "readSandboxClusters (writeSandboxClusters (filter (\<lambda>c. cl_id c \<noteq> i) (readSandboxClusters storage)) storage) =
      filter (\<lambda>c. cl_memberIds c \<noteq> []) (filter (\<lambda>c. cl_id c \<noteq> i) (readSandboxClusters storage))"
    using assms registry.decode_encode
    by (simp add: writeSandboxClusters_def readSandboxClusters_def del: JSON_stringify.simps)
  also have "\<dots> = filter (\<lambda>c. cl_id c \<noteq> i) (readSandboxClusters storage)"
    using readSandboxClusters_members [of _ storage] by (auto intro!: filter_cong)
  finally show ?thesis by (auto simp: removeSandboxCluster_def split: fetch_outcome.splits)
qed

lemma removeSandboxCluster_confirmed_witness:
  "case removeSandboxCluster ''x'' (Responded \<lparr>rsp_status = 404, rsp_text = None, rsp_body = None\<rparr>)
       \<lparr>st_readable = True, st_writable = True, st_item = None\<rparr> of
     Inr _ \<Rightarrow> False | Inl _ \<Rightarrow> True"
  using removeSandboxCluster_confirmed [where storage = "\<lparr>st_readable = True, st_writable = True, st_item = None\<rparr>"
      and i = "''x''" and outcome = "Responded \<lparr>rsp_status = 404, rsp_text = None, rsp_body = None\<rparr>"]
  by (auto simp: rsp_ok_def split: sum.splits)

end
