(* ===== verification/Server_Registry.thy ===== *)
theory Server_Registry
  imports Server_Http Clusters Json_Pretty Machine
begin

text \<open>
  The server's cluster registry: \<^verbatim>\<open>server/src/sandbox_clusters.rs\<close>.  The store is the vector in memory and the file;
  a request holds the write lock until its file operations have ended, so requests are handled one after the other.
  Whether the file operations of \<^verbatim>\<open>persist\<close> succeed is an argument (the error's text if not); the file changes only by
  the final rename.  A restart forgets the memory and loads the file.  Texts of the parser's errors are a parameter.
\<close>

section \<open>Records\<close>

definition MAX_REGISTRY_REQUEST_BYTES :: nat where
  "MAX_REGISTRY_REQUEST_BYTES = 64 * 1024"

definition valid_record :: "SandboxClusterRecord \<Rightarrow> bool" where
  "valid_record cluster =
     (if rust_trim (cl_id cluster) = [] \<or> rust_trim (cl_createdAt cluster) = [] \<or> cl_memberIds cluster = []
        \<or> (\<exists>i \<in> set (cl_memberIds cluster). rust_trim i = []) then False
      else length (set_new (cl_memberIds cluster)) = length (cl_memberIds cluster))"

text \<open>
  Decoding as serde derives it: an object with each field exactly once (others are ignored), or an array of the fields
  in their order.
\<close>

definition field_once :: "string \<Rightarrow> (string \<times> json) list \<Rightarrow> json option" where
  "field_once k kvs = (case filter (\<lambda>kv. fst kv = k) kvs of [(_, v)] \<Rightarrow> Some v | _ \<Rightarrow> None)"

definition cluster_of_fields :: "json option \<Rightarrow> json option \<Rightarrow> json option \<Rightarrow> json option \<Rightarrow> SandboxClusterRecord option" where
  "cluster_of_fields i ms w c = (case (as_string i, ms, as_string w, as_string c) of
     (Some i', Some (JArr ms'), Some w', Some c') \<Rightarrow>
       map_option (\<lambda>ids. \<lparr>cl_id = i', cl_memberIds = ids, cl_workspaceRoot = w', cl_createdAt = c'\<rparr>) (all_strings ms')
   | _ \<Rightarrow> None)"

definition cluster_from_json :: "json \<Rightarrow> SandboxClusterRecord option" where
  "cluster_from_json v = (case v of
     JObj kvs \<Rightarrow> cluster_of_fields (field_once ''id'' kvs) (field_once ''memberIds'' kvs) (field_once ''workspaceRoot'' kvs)
       (field_once ''createdAt'' kvs)
   | JArr [i, ms, w, c] \<Rightarrow> cluster_of_fields (Some i) (Some ms) (Some w) (Some c)
   | _ \<Rightarrow> None)"

fun all_clusters :: "json list \<Rightarrow> SandboxClusterRecord list option" where
  "all_clusters [] = Some []"
| "all_clusters (v # vs) = (case (cluster_from_json v, all_clusters vs) of (Some c, Some cs) \<Rightarrow> Some (c # cs) | _ \<Rightarrow> None)"

definition registry_from_json :: "json \<Rightarrow> SandboxClusterRecord list option" where
  "registry_from_json v = (case v of
     JObj kvs \<Rightarrow> (case field_once ''clusters'' kvs of Some (JArr vs) \<Rightarrow> all_clusters vs | _ \<Rightarrow> None)
   | JArr [JArr vs] \<Rightarrow> all_clusters vs
   | _ \<Rightarrow> None)"

definition removal_from_json :: "json \<Rightarrow> string option" where
  "removal_from_json v = (case v of JObj kvs \<Rightarrow> as_string (field_once ''id'' kvs) | JArr [i] \<Rightarrow> as_string (Some i) | _ \<Rightarrow> None)"

definition registry_json :: "SandboxClusterRecord list \<Rightarrow> json" where
  "registry_json cs = JObj [(''clusters'', JArr (map cluster_json cs))]"

section \<open>The store\<close>

record cluster_store =
  sc_file :: "string option"
  sc_clusters :: "SandboxClusterRecord list"

definition load_clusters :: "string option \<Rightarrow> SandboxClusterRecord list" where
  "load_clusters file = (case Option.bind (Option.bind file JSON_parse) registry_from_json of
     None \<Rightarrow> [] | Some cs \<Rightarrow> filter valid_record cs)"

definition load_store :: "string option \<Rightarrow> cluster_store" where
  "load_store file = \<lparr>sc_file = file, sc_clusters = load_clusters file\<rparr>"

definition persist :: "string option \<Rightarrow> cluster_store \<Rightarrow> (string + unit) \<times> cluster_store" where
  "persist io s = (case io of
     Some e \<Rightarrow> (Inl e, s)
   | None \<Rightarrow> (Inr (), s\<lparr>sc_file := Some (JSON_pretty (registry_json (sc_clusters s)))\<rparr>))"

definition store_register :: "string option \<Rightarrow> SandboxClusterRecord \<Rightarrow> cluster_store \<Rightarrow> (string + unit) \<times> cluster_store" where
  "store_register io cluster s =
     (let kept = filter (\<lambda>candidate. cl_id candidate \<noteq> cl_id cluster
            \<and> \<not> (\<exists>m \<in> set (cl_memberIds candidate). m \<in> set (cl_memberIds cluster))) (sc_clusters s)
      in persist io (s\<lparr>sc_clusters := kept @ [cluster]\<rparr>))"

definition store_remove :: "string option \<Rightarrow> string \<Rightarrow> cluster_store \<Rightarrow> (string + bool) \<times> cluster_store" where
  "store_remove io i s =
     (let kept = filter (\<lambda>c. cl_id c \<noteq> i) (sc_clusters s) in
      if length kept = length (sc_clusters s) then (Inr False, s\<lparr>sc_clusters := kept\<rparr>)
      else (case persist io (s\<lparr>sc_clusters := kept\<rparr>) of
              (Inl e, t) \<Rightarrow> (Inl e, t) | (Inr _, t) \<Rightarrow> (Inr True, t)))"

section \<open>Requests\<close>

definition limited_body :: "srv_request \<Rightarrow> string option" where
  "limited_body req = (case srq_body req of None \<Rightarrow> None
     | Some b \<Rightarrow> if length b \<le> MAX_REGISTRY_REQUEST_BYTES then Some b else None)"

definition register_request :: "(string \<Rightarrow> string) \<Rightarrow> string option \<Rightarrow> srv_request \<Rightarrow> cluster_store \<Rightarrow> srv_response \<times> cluster_store" where
  "register_request serde_error io req s = (case limited_body req of
     None \<Rightarrow> (text_response 400 ''cluster request exceeded the size limit'', s)
   | Some bytes \<Rightarrow> (case Option.bind (JSON_parse bytes) cluster_from_json of
        None \<Rightarrow> (text_response 400 (''cluster request is not valid json: '' @ serde_error bytes), s)
      | Some cluster \<Rightarrow>
          if \<not> valid_record cluster
          then (text_response 400 ''cluster requires an id, createdAt, and at least one unique memberId'', s)
          else (case store_register io cluster s of
              (Inl e, t) \<Rightarrow> (text_response 500 (''could not persist sandbox cluster: '' @ e), t)
            | (Inr _, t) \<Rightarrow> (no_store (json_response 200 (cluster_json cluster)), t))))"

definition remove_request :: "(string \<Rightarrow> string) \<Rightarrow> string option \<Rightarrow> srv_request \<Rightarrow> cluster_store \<Rightarrow> srv_response \<times> cluster_store" where
  "remove_request serde_error io req s = (case limited_body req of
     None \<Rightarrow> (text_response 400 ''cluster request exceeded the size limit'', s)
   | Some bytes \<Rightarrow> (case Option.bind (JSON_parse bytes) removal_from_json of
        None \<Rightarrow> (text_response 400 (''cluster request is not valid json: '' @ serde_error bytes), s)
      | Some i \<Rightarrow>
          if rust_trim i = [] then (text_response 400 ''cluster id is required'', s)
          else (case store_remove io i s of
              (Inl e, t) \<Rightarrow> (text_response 500 (''could not persist sandbox clusters: '' @ e), t)
            | (Inr removed, t) \<Rightarrow> (no_store (json_response 200 (JObj [(''id'', JStr i), (''removed'', JBool removed)])), t))))"

definition clusters_handle :: "(string \<Rightarrow> string) \<Rightarrow> string option \<Rightarrow> srv_request \<Rightarrow> cluster_store \<Rightarrow> srv_response \<times> cluster_store" where
  "clusters_handle serde_error io req s =
     (if srq_method req = ''GET'' then (no_store (json_response 200 (registry_json (sc_clusters s))), s)
      else if srq_method req = ''POST'' then register_request serde_error io req s
      else if srq_method req = ''DELETE'' then remove_request serde_error io req s
      else (text_response 405 ''use GET, POST, or DELETE'', s))"

text \<open>The requests the browser sends (\<^verbatim>\<open>web/src/core/sandboxClusters.ts\<close>).\<close>

definition cluster_get :: srv_request where
  "cluster_get = \<lparr>srq_method = ''GET'', srq_path = ''/api/sandbox-clusters'', srq_query = None, srq_headers = [], srq_body = Some []\<rparr>"

definition cluster_post :: "SandboxClusterRecord \<Rightarrow> srv_request" where
  "cluster_post cluster = \<lparr>srq_method = ''POST'', srq_path = ''/api/sandbox-clusters'', srq_query = None,
     srq_headers = [(''content-type'', ''application/json'')], srq_body = Some (JSON_stringify (cluster_json cluster))\<rparr>"

definition cluster_delete :: "string \<Rightarrow> srv_request" where
  "cluster_delete clusterId = \<lparr>srq_method = ''DELETE'', srq_path = ''/api/sandbox-clusters'', srq_query = None,
     srq_headers = [(''content-type'', ''application/json'')], srq_body = Some (JSON_stringify (JObj [(''id'', JStr clusterId)]))\<rparr>"

datatype registry_event = Registry_request "string option" srv_request | Registry_restart

fun registry_step :: "(string \<Rightarrow> string) \<Rightarrow> cluster_store \<Rightarrow> registry_event \<Rightarrow> cluster_store" where
  "registry_step serde_error s (Registry_request io req) = snd (clusters_handle serde_error io req s)"
| "registry_step serde_error s Registry_restart = load_store (sc_file s)"

section \<open>Files and answers read back\<close>

lemma field_once_simps [simp]:
  "field_once k [] = None"
  "field_once k ((l, v) # kvs) = (if l = k then if \<exists>w. (k, w) \<in> set kvs then None else Some v else field_once k kvs)"
proof -
  have "filter (\<lambda>kv. fst kv = k) kvs = [] \<longleftrightarrow> \<not> (\<exists>w. (k, w) \<in> set kvs)" by (force simp: filter_empty_conv)
  then show "field_once k ((l, v) # kvs) = (if l = k then if \<exists>w. (k, w) \<in> set kvs then None else Some v else field_once k kvs)"
    by (auto simp: field_once_def split: list.splits)
qed (simp add: field_once_def)

lemma cluster_from_json_json [simp]: "cluster_from_json (cluster_json c) = Some c"
  by (simp add: cluster_from_json_def cluster_json_def cluster_of_fields_def)

lemma all_clusters_json [simp]: "all_clusters (map cluster_json cs) = Some cs"
  by (induction cs) simp_all

lemma registry_from_json_json [simp]: "registry_from_json (registry_json cs) = Some cs"
  by (simp add: registry_from_json_def registry_json_def)

lemma registry_plain [simp]: "json_plain (registry_json cs)"
  by (auto simp: registry_json_def cluster_json_def)

lemma load_written: "load_clusters (Some (JSON_pretty (registry_json cs))) = filter valid_record cs"
  using JSON_pretty_roundtrip [of "registry_json cs" "[]"] by (simp add: load_clusters_def)

lemma filter_valid [simp]: "\<forall>c \<in> set cs. valid_record c \<Longrightarrow> filter valid_record cs = cs"
  by (simp add: filter_id_conv)

lemma valid_members: "valid_record c \<Longrightarrow> cl_memberIds c \<noteq> []"
  by (auto simp: valid_record_def split: if_splits)

lemma register_merges: "sc_clusters (snd (store_register io c s)) = mergeSandboxClusters (sc_clusters s) [c]"
  by (simp add: store_register_def persist_def mergeSandboxClusters_def Let_def split: option.splits)

text \<open>The answer to a listing, as the browser receives it.\<close>

definition received :: "srv_response \<Rightarrow> http_response" where
  "received r = \<lparr>rsp_status = srs_status r, rsp_text = Some (srs_body r), rsp_body = None\<rparr>"

lemma received_list:
  assumes "\<forall>c \<in> set cs. valid_record c"
  shows "listSandboxClusters storage (Responded (received (no_store (json_response 200 (registry_json cs)))))
    = (mergeSandboxClusters cs (readSandboxClusters storage), readSandboxClusters storage)"
proof -
  have "JSON_parse (JSON_stringify (registry_json cs)) = Some (registry_json cs)" by (rule JSON_roundtrip) simp
  moreover have "parseSandboxClusters (Some (JSON_stringify (JArr (map cluster_json cs)))) = cs"
  proof -
    have "filter (\<lambda>c. cl_memberIds c \<noteq> []) cs = cs" using assms valid_members by (auto simp: filter_id_conv)
    then show ?thesis
      using JSON_roundtrip [OF json_plain_clusters, of cs]
      by (simp add: parseSandboxClusters_def map_filter_clusters)
  qed
  ultimately show ?thesis
    unfolding registry_json_def
    by (simp add: listSandboxClusters_def received_def rsp_ok_def nullish_def Let_def obj_get_def del: JSON_stringify.simps)
qed

section \<open>Durability\<close>

text \<open>As long as the file operations succeed, memory and file agree.\<close>

definition healthy :: "registry_event \<Rightarrow> bool" where
  "healthy e = (case e of Registry_request io _ \<Rightarrow> io = None | Registry_restart \<Rightarrow> True)"

definition registry_inv :: "cluster_store \<Rightarrow> bool" where
  "registry_inv s = (load_clusters (sc_file s) = sc_clusters s \<and> (\<forall>c \<in> set (sc_clusters s). valid_record c))"

lemma load_valid: "\<forall>c \<in> set (load_clusters file). valid_record c"
  by (auto simp: load_clusters_def split: option.splits)

lemma registry_inv_load: "registry_inv (load_store file)"
  using load_valid by (simp add: registry_inv_def load_store_def)

lemma persisted_inv: "\<forall>c \<in> set (sc_clusters s). valid_record c \<Longrightarrow> registry_inv (snd (persist None s))"
  by (simp add: persist_def registry_inv_def load_written)

lemma registered_inv: "registry_inv s \<Longrightarrow> valid_record c \<Longrightarrow> registry_inv (snd (store_register None c s))"
  unfolding store_register_def Let_def by (rule persisted_inv) (auto simp: registry_inv_def)

lemma removed_inv: "registry_inv s \<Longrightarrow> registry_inv (snd (store_remove None i s))"
proof -
  assume inv: "registry_inv s"
  let ?kept = "filter (\<lambda>c. cl_id c \<noteq> i) (sc_clusters s)"
  show ?thesis
  proof (cases "length ?kept = length (sc_clusters s)")
    case True
    then have "?kept = sc_clusters s" by (metis length_filter_less filter_id_conv less_irrefl)
    with inv show ?thesis by (simp add: store_remove_def Let_def)
  next
    case False
    have "registry_inv (snd (persist None (s\<lparr>sc_clusters := ?kept\<rparr>)))"
      by (rule persisted_inv) (use inv in \<open>auto simp: registry_inv_def\<close>)
    with False show ?thesis by (simp add: store_remove_def Let_def persist_def)
  qed
qed

lemma registry_inv_step:
  assumes "registry_inv s" "healthy e"
  shows "registry_inv (registry_step err s e)"
proof (cases e)
  case (Registry_request io req)
  then have io: "io = None" using assms(2) by (simp add: healthy_def)
  have "registry_inv (snd (register_request err None req s))" "registry_inv (snd (remove_request err None req s))"
    using assms(1) registered_inv [OF assms(1)] removed_inv [OF assms(1)]
    by (auto simp: register_request_def remove_request_def split: option.splits prod.splits sum.splits) (metis snd_conv)+
  then show ?thesis using assms(1) by (simp add: Registry_request io clusters_handle_def)
qed (simp add: registry_inv_load)

interpretation registry: environment_machine "registry_step err" registry_inv healthy
  by unfold_locales (rule registry_inv_step)

section \<open>The abstract registry\<close>

text \<open>
  What the registry promises: a list of clusters, in which registering replaces the clusters that share the id or a member
  and removing drops an id.  \<open>registry_op\<close> reads the operation off a request.
\<close>

datatype registry_op = Op_register SandboxClusterRecord | Op_remove string | Op_none

definition op_of_request :: "srv_request \<Rightarrow> registry_op" where
  "op_of_request req = (case Option.bind (limited_body req) JSON_parse of None \<Rightarrow> Op_none
     | Some v \<Rightarrow>
         if srq_method req = ''POST'' then (case cluster_from_json v of Some c \<Rightarrow> if valid_record c then Op_register c else Op_none | None \<Rightarrow> Op_none)
         else if srq_method req = ''DELETE'' then (case removal_from_json v of Some i \<Rightarrow> if rust_trim i = [] then Op_none else Op_remove i | None \<Rightarrow> Op_none)
         else Op_none)"

fun registry_op_of :: "registry_event \<Rightarrow> registry_op" where
  "registry_op_of (Registry_request _ req) = op_of_request req"
| "registry_op_of Registry_restart = Op_none"

fun registry_spec :: "SandboxClusterRecord list \<Rightarrow> registry_op \<Rightarrow> SandboxClusterRecord list" where
  "registry_spec cs (Op_register c) = mergeSandboxClusters cs [c]"
| "registry_spec cs (Op_remove i) = filter (\<lambda>c. cl_id c \<noteq> i) cs"
| "registry_spec cs Op_none = cs"

lemma store_remove_clusters: "sc_clusters (snd (store_remove io i s)) = filter (\<lambda>c. cl_id c \<noteq> i) (sc_clusters s)"
  by (auto simp: store_remove_def persist_def Let_def split: option.splits)

lemma registry_simulates:
  assumes "registry_inv s"
  shows "sc_clusters (registry_step err s e) = registry_spec (sc_clusters s) (registry_op_of e)"
proof (cases e)
  case (Registry_request io req)
  show ?thesis
    using register_merges [of io _ s] store_remove_clusters [of io _ s]
    by (auto simp: Registry_request clusters_handle_def register_request_def remove_request_def op_of_request_def
        split: option.splits prod.splits sum.splits) (metis snd_conv)+
next
  case Registry_restart
  with assms show ?thesis by (simp add: load_store_def registry_inv_def)
qed

lemma spec_disjoint: "clusters_disjoint cs \<Longrightarrow> clusters_disjoint (registry_spec cs p)"
  by (cases p) (simp_all add: merge_disjoint, simp add: clusters_disjoint_def sorted_wrt_filter)

section \<open>Properties\<close>

lemma registry_run_inv: "\<forall>e \<in> set es. healthy e \<Longrightarrow> registry_inv (run (registry_step err) (load_store file) es)"
  by (rule registry.inv_possible_run [OF registry_inv_load])

text \<open>
  C32: While its file operations succeed the server's registry implements the abstract one: over any sequence of requests
  and restarts its clusters are the fold of the requests' operations, no two of them share an id or a member if the
  file had none that do, and the file always reloads to exactly what is in memory.
\<close>

theorem registry_refines:
  assumes "\<forall>e \<in> set es. healthy e"
  shows "let s = run (registry_step err) (load_store file) es in
    sc_clusters s = foldl registry_spec (load_clusters file) (map registry_op_of es)
    \<and> (clusters_disjoint (load_clusters file) \<longrightarrow> clusters_disjoint (sc_clusters s))
    \<and> load_store (sc_file s) = s"
proof -
  have "sc_clusters (run (registry_step err) (load_store file) es) = foldl registry_spec (load_clusters file) (map registry_op_of es)
    \<and> (clusters_disjoint (load_clusters file) \<longrightarrow> clusters_disjoint (sc_clusters (run (registry_step err) (load_store file) es)))"
    using assms
  proof (induction es rule: rev_induct)
    case Nil
    show ?case by (simp add: load_store_def)
  next
    case (snoc e es)
    then have "registry_inv (run (registry_step err) (load_store file) es)" by (intro registry_run_inv) simp
    from registry_simulates [OF this, of err e] snoc show ?case by (simp add: run_snoc) (metis spec_disjoint)
  qed
  moreover have "load_store (sc_file s) = s" if "registry_inv s" for s using that by (simp add: registry_inv_def load_store_def)
  ultimately show ?thesis using registry_run_inv [OF assms] unfolding Let_def by blast
qed

lemma post_handled:
  assumes "registry_inv s" "valid_record c" "length (JSON_stringify (cluster_json c)) \<le> MAX_REGISTRY_REQUEST_BYTES"
  shows "clusters_handle err None (cluster_post c) s = (no_store (json_response 200 (cluster_json c)), snd (store_register None c s))"
proof -
  have "JSON_parse (JSON_stringify (cluster_json c)) = Some (cluster_json c)" by (rule JSON_roundtrip) (simp add: cluster_json_def)
  with assms show ?thesis
    by (simp add: clusters_handle_def register_request_def cluster_post_def limited_body_def store_register_def persist_def Let_def
        del: JSON_stringify.simps)
qed

text \<open>
  C33: A cluster that one browser registers is the same for every browser, also after the server restarts: the POST is
  answered with success and a later listing is, in any browser, the registry with the cluster merged in, as the
  browser itself would have merged it, overridden by that browser's own clusters.
\<close>

theorem registered_cluster_shared:
  assumes "\<forall>e \<in> set es. healthy e" "s = run (registry_step err) (load_store file) es"
    and "valid_record c" "length (JSON_stringify (cluster_json c)) \<le> MAX_REGISTRY_REQUEST_BYTES"
  shows "let (answer, t) = clusters_handle err None (cluster_post c) s;
             (listing, _) = clusters_handle err io cluster_get (registry_step err t Registry_restart)
         in srs_status answer = 200
          \<and> listSandboxClusters storage (Responded (received listing))
            = (mergeSandboxClusters (mergeSandboxClusters (sc_clusters s) [c]) (readSandboxClusters storage), readSandboxClusters storage)"
proof -
  have inv: "registry_inv s" unfolding assms(2) using assms(1) by (rule registry_run_inv)
  let ?t = "snd (store_register None c s)"
  have t: "registry_inv ?t" using inv assms(3) by (rule registered_inv)
  then have "registry_step err ?t Registry_restart = ?t" by (simp add: registry_inv_def load_store_def)
  moreover have "\<forall>c \<in> set (sc_clusters ?t). valid_record c" using t by (simp add: registry_inv_def)
  ultimately show ?thesis
    using post_handled [OF inv assms(3,4), of err] received_list [of "sc_clusters ?t" storage] register_merges [of None c s]
    by (simp add: clusters_handle_def cluster_get_def)
qed

section \<open>A failed write\<close>

text \<open>
  \<^verbatim>\<open>remove\<close> changes the memory before it writes the file.  When the write fails the browser is told so (500) and keeps
  its own record; when the user asks again, the server finds nothing to remove, answers with success and writes
  nothing, so the browser forgets the cluster, and the next restart of the server brings it back.
\<close>

definition sample_cluster :: SandboxClusterRecord where
  "sample_cluster = \<lparr>cl_id = ''c'', cl_memberIds = [''a''], cl_workspaceRoot = ''/w'', cl_createdAt = ''t''\<rparr>"

lemma sample_cluster_valid: "valid_record sample_cluster"
  by (simp add: sample_cluster_def valid_record_def rust_trim_def rust_space_def set_new_def set_add_def)

lemma delete_handled:
  assumes "rust_trim i \<noteq> []" "length (JSON_stringify (JObj [(''id'', JStr i)])) \<le> MAX_REGISTRY_REQUEST_BYTES"
  shows "clusters_handle err io (cluster_delete i) s = (case store_remove io i s of
      (Inl e, t) \<Rightarrow> (text_response 500 (''could not persist sandbox clusters: '' @ e), t)
    | (Inr removed, t) \<Rightarrow> (no_store (json_response 200 (JObj [(''id'', JStr i), (''removed'', JBool removed)])), t))"
proof -
  have "JSON_parse (JSON_stringify (JObj [(''id'', JStr i)])) = Some (JObj [(''id'', JStr i)])" by (rule JSON_roundtrip) simp
  with assms show ?thesis
    by (simp add: clusters_handle_def remove_request_def cluster_delete_def limited_body_def removal_from_json_def del: JSON_stringify.simps)
qed

lemma failed_removal_returns:
  "let s = snd (persist None \<lparr>sc_file = None, sc_clusters = [sample_cluster]\<rparr>);
       (first, t) = clusters_handle err (Some ''disk full'') (cluster_delete ''c'') s;
       (second, u) = clusters_handle err None (cluster_delete ''c'') t
   in srs_status first = 500 \<and> srs_status second = 200 \<and> sc_clusters u = []
      \<and> sc_clusters (registry_step err u Registry_restart) = [sample_cluster]"
proof -
  have "length (JSON_stringify (JObj [(''id'', JStr ''c'')])) \<le> MAX_REGISTRY_REQUEST_BYTES"
    by (simp add: MAX_REGISTRY_REQUEST_BYTES_def quote_def escape_char_def)
  moreover have "rust_trim ''c'' \<noteq> []" by (simp add: rust_trim_def rust_space_def)
  ultimately show ?thesis
    by (simp add: delete_handled Let_def store_remove_def persist_def sample_cluster_def [unfolded sample_cluster_def] load_store_def)
      (use load_written [of "[sample_cluster]"] sample_cluster_valid in \<open>simp add: sample_cluster_def\<close>)
qed

theorem registry_refines_witness:
  "sc_clusters (run (registry_step (\<lambda>_. [])) (load_store None) [Registry_request None (cluster_post sample_cluster), Registry_restart])
    = [sample_cluster]"
proof -
  have "JSON_parse (JSON_stringify (cluster_json sample_cluster)) = Some (cluster_json sample_cluster)"
    by (rule JSON_roundtrip) (simp add: cluster_json_def)
  moreover have "length (JSON_stringify (cluster_json sample_cluster)) \<le> MAX_REGISTRY_REQUEST_BYTES"
    by (simp add: sample_cluster_def cluster_json_def MAX_REGISTRY_REQUEST_BYTES_def quote_def escape_char_def)
  ultimately have "op_of_request (cluster_post sample_cluster) = Op_register sample_cluster"
    by (simp add: op_of_request_def cluster_post_def limited_body_def sample_cluster_valid del: JSON_stringify.simps)
  moreover have "load_clusters None = []" by (simp add: load_clusters_def)
  ultimately show ?thesis
    using registry_refines [of "[Registry_request None (cluster_post sample_cluster), Registry_restart]" "\<lambda>_. []" None]
    by (simp add: healthy_def Let_def mergeSandboxClusters_def del: run.simps)
qed

theorem registered_cluster_shared_witness:
  "let (answer, t) = clusters_handle (\<lambda>_. []) None (cluster_post sample_cluster) (load_store None);
       (listing, _) = clusters_handle (\<lambda>_. []) None cluster_get (registry_step (\<lambda>_. []) t Registry_restart)
   in srs_status answer = 200 \<and>
      listSandboxClusters \<lparr>st_readable = True, st_writable = True, st_item = None\<rparr> (Responded (received listing)) = ([sample_cluster], [])"
proof -
  have "length (JSON_stringify (cluster_json sample_cluster)) \<le> MAX_REGISTRY_REQUEST_BYTES"
    by (simp add: sample_cluster_def cluster_json_def MAX_REGISTRY_REQUEST_BYTES_def quote_def escape_char_def)
  moreover have "sc_clusters (load_store None) = []" by (simp add: load_store_def load_clusters_def)
  moreover have "readSandboxClusters \<lparr>st_readable = True, st_writable = True, st_item = None\<rparr> = []"
    by (simp add: readSandboxClusters_def parseSandboxClusters_def)
  ultimately show ?thesis
    using registered_cluster_shared [of "[]" "load_store None" "\<lambda>_. []" None sample_cluster None "\<lparr>st_readable = True, st_writable = True, st_item = None\<rparr>"]
      sample_cluster_valid
    by (simp add: mergeSandboxClusters_def del: JSON_stringify.simps registry_step.simps)
qed

end
