(* ===== verification/Server_Auth.thy ===== *)
theory Server_Auth
  imports Server_Http "HOL-Library.Word"
begin

unbundle bit_operations_syntax

text \<open>
  Authentication of the desktop server: \<^verbatim>\<open>server/src/auth.rs\<close>.  The parser of authorities belongs to the \<^verbatim>\<open>http\<close>
  crate and is a parameter (the host and the port it finds).  The flag \<^verbatim>\<open>bootstrap_consumed\<close> changes by one atomic
  compare-and-exchange, so the requests that reach it are ordered and each sees the flag the previous one left.
\<close>

section \<open>Credentials\<close>

definition DESKTOP_BOOTSTRAP_PATH :: string where
  "DESKTOP_BOOTSTRAP_PATH = ''/__ephemeral_sandbox/bootstrap''"

definition DESKTOP_SESSION_COOKIE :: string where
  "DESKTOP_SESSION_COOKIE = ''ephemeral_sandbox_session''"

definition MIN_SECRET_LENGTH :: nat where
  "MIN_SECRET_LENGTH = 32"

record desktop_auth =
  dx_authority :: string
  dx_origin :: string
  dx_nonce :: string
  dx_token :: string
  dx_consumed :: bool

definition alphanumeric :: "char \<Rightarrow> bool" where
  "alphanumeric c = (let n = of_char c :: nat in 48 \<le> n \<and> n \<le> 57 \<or> 65 \<le> n \<and> n \<le> 90 \<or> 97 \<le> n \<and> n \<le> 122)"

definition desktop_auth_new :: "(string \<Rightarrow> (string \<times> nat option) option) \<Rightarrow> string \<Rightarrow> string \<Rightarrow> string \<Rightarrow> string + desktop_auth" where
  "desktop_auth_new parse_authority authority nonce token =
     then_do (require (parse_authority authority) ''invalid desktop BFF authority'') (\<lambda>(host, port).
     then_do (check (host = ''127.0.0.1'' \<and> port \<noteq> None \<and> port \<noteq> Some 0)
       ''desktop BFF authority must be an ephemeral IPv4 loopback address'') (\<lambda>_.
     then_do (check (MIN_SECRET_LENGTH \<le> length nonce \<and> MIN_SECRET_LENGTH \<le> length token)
       ''desktop BFF credentials must contain at least 32 characters'') (\<lambda>_.
     then_do (check (list_all alphanumeric nonce \<and> list_all alphanumeric token)
       ''desktop BFF credentials must be ASCII alphanumeric'') (\<lambda>_.
     Inr \<lparr>dx_authority = authority, dx_origin = ''http://'' @ authority, dx_nonce = nonce, dx_token = token, dx_consumed = False\<rparr>))))"

text \<open>The comparison that takes the same time wherever two secrets differ: bytes are combined by OR of XOR.\<close>

definition byte_of :: "char \<Rightarrow> 8 word" where
  "byte_of c = word_of_nat (of_char c)"

definition secrets_equal :: "string \<Rightarrow> string \<Rightarrow> bool" where
  "secrets_equal left right =
     (if length left \<noteq> length right then False
      else foldl (\<lambda>difference (l, r). difference OR (byte_of l XOR byte_of r)) 0 (zip left right) = 0)"

section \<open>Checks of a request\<close>

definition has_expected_host :: "desktop_auth \<Rightarrow> header_map \<Rightarrow> bool" where
  "has_expected_host a hs = (case headers_all ''host'' hs of [] \<Rightarrow> False | host # rest \<Rightarrow> rest = [] \<and> host = dx_authority a)"

definition has_allowed_origin :: "desktop_auth \<Rightarrow> header_map \<Rightarrow> bool" where
  "has_allowed_origin a hs = (case headers_all ''origin'' hs of [] \<Rightarrow> True | origin # rest \<Rightarrow> rest = [] \<and> origin = dx_origin a)"

text \<open>\<^verbatim>\<open>split_once\<close>: around the first occurrence of a character.\<close>

definition split_once :: "char \<Rightarrow> string \<Rightarrow> (string \<times> string) option" where
  "split_once c s = (if c \<in> set s then Some (takeWhile (\<lambda>x. x \<noteq> c) s, tl (dropWhile (\<lambda>x. x \<noteq> c) s)) else None)"

definition strip_prefix :: "string \<Rightarrow> string \<Rightarrow> string option" where
  "strip_prefix p s = (if startsWith s p then Some (drop (length p) s) else None)"

definition session_cookie :: "desktop_auth \<Rightarrow> string \<Rightarrow> bool" where
  "session_cookie a cookie = (case split_once (CHR ''='') (rust_trim cookie) of None \<Rightarrow> False
     | Some (name, v) \<Rightarrow> name = DESKTOP_SESSION_COOKIE \<and> secrets_equal v (dx_token a))"

definition has_session :: "desktop_auth \<Rightarrow> header_map \<Rightarrow> bool" where
  "has_session a hs = (\<exists>header \<in> set (headers_all ''cookie'' hs). case header_text header of None \<Rightarrow> False
     | Some cookies \<Rightarrow> \<exists>cookie \<in> set (split_on (CHR '';'') cookies). session_cookie a cookie)"

definition session_redirect :: "desktop_auth \<Rightarrow> srv_response" where
  "session_redirect a = \<lparr>srs_status = 303, srs_headers = [(''location'', ''/''),
     (''set-cookie'', DESKTOP_SESSION_COOKIE @ ''='' @ dx_token a @ ''; HttpOnly; SameSite=Strict; Path=/''),
     (''cache-control'', ''no-store''), (''referrer-policy'', ''no-referrer'')], srs_body = []\<rparr>"

definition bootstrap_response :: "desktop_auth \<Rightarrow> string option \<Rightarrow> srv_response \<times> desktop_auth" where
  "bootstrap_response a query =
     (let supplied = (case Option.bind query (strip_prefix ''nonce='') of None \<Rightarrow> None
            | Some nonce \<Rightarrow> if CHR ''&'' \<in> set nonce then None else Some nonce);
          valid = (case supplied of None \<Rightarrow> False | Some nonce \<Rightarrow> secrets_equal nonce (dx_nonce a) \<and> \<not> dx_consumed a)
      in if \<not> valid then (no_store (text_response 403 ''invalid or expired desktop bootstrap nonce''), a)
         else (session_redirect a, a\<lparr>dx_consumed := True\<rparr>))"

section \<open>The comparison is equality\<close>

lemma strip_prefix_iff: "strip_prefix p s = Some r \<longleftrightarrow> s = p @ r"
  by (auto simp: strip_prefix_def startsWith_def) (metis append_take_drop_id)

lemma split_once_SomeD: "split_once c s = Some (a, b) \<Longrightarrow> s = a @ c # b"
proof (induction s arbitrary: a)
  case (Cons x s)
  then show ?case by (cases "x = c") (auto simp: split_once_def split: if_splits)
qed (simp add: split_once_def)

lemma byte_of_inject [simp]: "byte_of c = byte_of d \<longleftrightarrow> c = d"
proof
  assume "byte_of c = byte_of d"
  then have "unat (byte_of c) = unat (byte_of d)" by simp
  moreover have "unat (byte_of x) = of_char x" for x
    by (simp add: byte_of_def unat_of_nat)
  ultimately show "c = d" by simp
qed simp

lemma or_word_zero: "a OR b = 0 \<longleftrightarrow> a = 0 \<and> b = 0" for a b :: "8 word"
  by (rule or_eq_0_iff)

lemma xor_word_zero: "a XOR b = 0 \<longleftrightarrow> a = b" for a b :: "8 word"
  by (metis bit.xor_left_self xor.right_neutral xor_self_eq)

lemma folded_difference:
  "foldl (\<lambda>difference (l, r). difference OR (byte_of l XOR byte_of r)) d ps = 0 \<longleftrightarrow> d = 0 \<and> (\<forall>(l, r) \<in> set ps. l = r)"
  by (induction ps arbitrary: d) (auto simp: or_word_zero xor_word_zero)

lemma secrets_equal_iff [simp]: "secrets_equal left right \<longleftrightarrow> left = right"
proof (cases "length left = length right")
  case True
  then have "(\<forall>(l, r) \<in> set (zip left right). l = r) \<longleftrightarrow> left = right"
    by (induction left right rule: list_induct2) auto
  with True show ?thesis by (simp add: secrets_equal_def folded_difference)
qed (auto simp: secrets_equal_def)

section \<open>Sessions\<close>

lemma bootstrap_consumes:
  "bootstrap_response a q = (r, a') \<Longrightarrow> srs_status r = 303 \<Longrightarrow> \<not> dx_consumed a \<and> dx_consumed a' \<and> q = Some (''nonce='' @ dx_nonce a)"
proof -
  assume b: "bootstrap_response a q = (r, a')" and "srs_status r = 303"
  then obtain nonce where q: "Option.bind q (strip_prefix ''nonce='') = Some nonce" and "nonce = dx_nonce a" "\<not> dx_consumed a" "dx_consumed a'"
    by (auto simp: bootstrap_response_def Let_def split: if_splits option.splits)
  moreover have "q = Some (''nonce='' @ nonce)" using q by (cases q) (simp_all add: strip_prefix_iff)
  ultimately show ?thesis by simp
qed

lemma bootstrap_keeps: "bootstrap_response a q = (r, a') \<Longrightarrow> a'\<lparr>dx_consumed := dx_consumed a\<rparr> = a"
  by (auto simp: bootstrap_response_def Let_def split: if_splits)

text \<open>What a session takes: one cookie header names the session and carries the token.\<close>

lemma has_session_token:
  assumes "has_session a hs"
  obtains header cookie where "header \<in> set (headers_all ''cookie'' hs)" "cookie \<in> set (split_on (CHR '';'') header)"
    "rust_trim cookie = DESKTOP_SESSION_COOKIE @ ''='' @ dx_token a"
proof -
  from assms obtain header cookie where h: "header \<in> set (headers_all ''cookie'' hs)" "cookie \<in> set (split_on (CHR '';'') header)"
    "session_cookie a cookie" by (auto simp: has_session_def header_text_def split: option.splits if_splits)
  then have "rust_trim cookie = DESKTOP_SESSION_COOKIE @ ''='' @ dx_token a"
    by (auto simp: session_cookie_def dest!: split_once_SomeD split: option.splits)
  with h show thesis by (intro that)
qed

lemma alphanumeric_plain: "alphanumeric c \<Longrightarrow> \<not> rust_space c \<and> c \<noteq> CHR '';'' \<and> c \<noteq> CHR ''&'' \<and> 32 \<le> (of_char c :: nat) \<and> (of_char c :: nat) < 127"
  by (auto simp: alphanumeric_def rust_space_def Let_def)

lemma rust_trim_plain: "\<forall>c \<in> set s. \<not> rust_space c \<Longrightarrow> rust_trim s = s"
proof -
  assume "\<forall>c \<in> set s. \<not> rust_space c"
  then have "dropWhile rust_space s = s" "dropWhile rust_space (rev s) = rev s"
    by (auto simp: dropWhile_eq_self_iff hd_rev)
  then show ?thesis by (simp add: rust_trim_def)
qed

text \<open>The cookie the bootstrap sets is the one a browser sends back, and it opens the session.\<close>

lemma issued_cookie_accepted:
  assumes "list_all alphanumeric (dx_token a)"
  shows "has_session a [(''cookie'', DESKTOP_SESSION_COOKIE @ ''='' @ dx_token a)]"
proof -
  let ?c = "DESKTOP_SESSION_COOKIE @ ''='' @ dx_token a"
  have plain: "\<forall>c \<in> set (dx_token a). \<not> rust_space c \<and> c \<noteq> CHR '';'' \<and> 32 \<le> (of_char c :: nat) \<and> (of_char c :: nat) < 127"
    using assms alphanumeric_plain by (auto simp: list_all_iff)
  have "header_text ?c = Some ?c" using plain by (auto simp: header_text_def DESKTOP_SESSION_COOKIE_def)
  moreover have "split_on (CHR '';'') ?c = [?c]" using plain by (intro split_on_no_sep) (auto simp: DESKTOP_SESSION_COOKIE_def)
  moreover have "rust_trim ?c = ?c" using plain by (intro rust_trim_plain) (auto simp: DESKTOP_SESSION_COOKIE_def rust_space_def)
  moreover have "split_once (CHR ''='') ?c = Some (DESKTOP_SESSION_COOKIE, dx_token a)" by (simp add: split_once_def DESKTOP_SESSION_COOKIE_def)
  ultimately show ?thesis by (simp add: has_session_def headers_all_def session_cookie_def)
qed

end
