(* ===== verification/Server_Router.thy ===== *)
theory Server_Router
  imports Server_Auth
begin

text \<open>
  The routes of the console server: \<^verbatim>\<open>server/src/router.rs\<close>.  \<open>route\<close> gives where a request goes, an answer of the
  router itself or one of the handlers, and the authentication state afterwards.
\<close>

datatype destination = Answer srv_response | To_rpc | To_catalog | To_gateway_start | To_clusters | To_files string | To_health string
  | To_proxy | To_assets

definition has_opaque_origin :: "header_map \<Rightarrow> bool" where
  "has_opaque_origin hs = (\<exists>origin \<in> set (headers_all ''origin'' hs). origin = ''null'')"

definition has_json_content_type :: "header_map \<Rightarrow> bool" where
  "has_json_content_type hs = (case Option.bind (header_get ''content-type'' hs) header_text of None \<Rightarrow> False
     | Some v \<Rightarrow> ascii_lower (rust_trim (hd (split_on (CHR '';'') v))) = ''application/json'')"

definition strip_suffix :: "string \<Rightarrow> string \<Rightarrow> string option" where
  "strip_suffix e s = map_option rev (strip_prefix (rev e) (rev s))"

definition sandbox_route :: "string \<Rightarrow> string \<Rightarrow> string option" where
  "sandbox_route e p = (case Option.bind (strip_prefix ''/api/sandboxes/'' p) (strip_suffix e) of None \<Rightarrow> None
     | Some i \<Rightarrow> if i = [] \<or> CHR ''/'' \<in> set i then None else Some i)"

definition daemon_route :: "string \<Rightarrow> string option" where
  "daemon_route p = sandbox_route ''/files/list'' p"

definition health_route :: "string \<Rightarrow> string option" where
  "health_route p = sandbox_route ''/health'' p"

text \<open>The checks of the desktop server: an answer, or the request may go on.\<close>

definition desktop_guard :: "desktop_auth \<Rightarrow> srv_request \<Rightarrow> (srv_response \<times> desktop_auth) option" where
  "desktop_guard a req = (let path = srq_path req; hs = srq_headers req in
     if \<not> has_expected_host a hs then Some (no_store (text_response 421 ''request authority does not match the desktop BFF''), a)
     else if path = DESKTOP_BOOTSTRAP_PATH
     then (if srq_method req \<noteq> ''GET'' then Some (no_store (text_response 405 ''use GET''), a) else Some (bootstrap_response a (srq_query req)))
     else if \<not> has_session a hs then Some (no_store (text_response 401 ''desktop session required''), a)
     else if startsWith path ''/api/'' \<and> has_opaque_origin hs
     then Some (no_store (text_response 403 ''opaque origins cannot call console APIs''), a)
     else let guarded_route = startsWith path ''/api/'' \<or> startsWith path ''/s/'';
              allowed_preview_origin = startsWith path ''/s/'' \<and> has_opaque_origin hs
          in if guarded_route \<and> \<not> allowed_preview_origin \<and> \<not> has_allowed_origin a hs
             then Some (no_store (text_response 403 ''cross-origin requests cannot call desktop BFF routes''), a) else None)"

definition dispatch :: "srv_request \<Rightarrow> destination" where
  "dispatch req = (let path = srq_path req; m = srq_method req; hs = srq_headers req in
     if startsWith path ''/api/'' \<and> has_opaque_origin hs then Answer (text_response 403 ''opaque origins cannot call console APIs'')
     else if path = ''/api/rpc'' then (if m \<noteq> ''POST'' then Answer (text_response 405 ''use POST'') else To_rpc)
     else if path = ''/api/catalog'' then (if m \<noteq> ''GET'' then Answer (text_response 405 ''use GET'') else To_catalog)
     else if path = ''/api/gateway/start''
     then (if m \<noteq> ''POST'' then Answer (text_response 405 ''use POST'')
           else if \<not> has_json_content_type hs then Answer (text_response 415 ''use application/json'') else To_gateway_start)
     else if path = ''/api/sandbox-clusters'' then To_clusters
     else (case daemon_route path of
        Some i \<Rightarrow> if m \<noteq> ''POST'' then Answer (text_response 405 ''use POST'') else To_files i
      | None \<Rightarrow> (case health_route path of
          Some i \<Rightarrow> if m \<noteq> ''GET'' then Answer (text_response 405 ''use GET'') else To_health i
        | None \<Rightarrow>
            if startsWith path ''/s/'' then To_proxy
            else if startsWith path ''/api/'' then Answer (text_response 404 ''unknown api route'')
            else if m \<noteq> ''GET'' \<and> m \<noteq> ''HEAD'' then Answer (text_response 405 ''use GET'')
            else To_assets)))"

definition route :: "desktop_auth option \<Rightarrow> srv_request \<Rightarrow> destination \<times> desktop_auth option" where
  "route auth req = (case auth of
     None \<Rightarrow> (dispatch req, None)
   | Some a \<Rightarrow> (case desktop_guard a req of
        Some (answer, a') \<Rightarrow> (Answer answer, Some a')
      | None \<Rightarrow> (dispatch req, Some a)))"

fun route_all :: "desktop_auth option \<Rightarrow> srv_request list \<Rightarrow> destination list" where
  "route_all auth [] = []"
| "route_all auth (req # reqs) = (let (d, auth') = route auth req in d # route_all auth' reqs)"

section \<open>Guards\<close>

definition forwarded :: "destination \<Rightarrow> bool" where
  "forwarded d = (case d of Answer _ \<Rightarrow> False | _ \<Rightarrow> True)"

definition sets_cookie :: "destination \<Rightarrow> bool" where
  "sets_cookie d = (case d of Answer r \<Rightarrow> headers_all ''set-cookie'' (srs_headers r) \<noteq> [] | _ \<Rightarrow> False)"

text \<open>What a forwarded request has shown: its host, the session's token, and where the origin matters, the origin.\<close>

definition admitted :: "desktop_auth \<Rightarrow> srv_request \<Rightarrow> bool" where
  "admitted a req = (let hs = srq_headers req; path = srq_path req; origins = headers_all ''origin'' hs in
     headers_all ''host'' hs = [dx_authority a]
     \<and> (\<exists>header \<in> set (headers_all ''cookie'' hs). \<exists>cookie \<in> set (split_on (CHR '';'') header).
          rust_trim cookie = DESKTOP_SESSION_COOKIE @ ''='' @ dx_token a)
     \<and> (startsWith path ''/api/'' \<longrightarrow> origins = [] \<or> origins = [dx_origin a])
     \<and> (startsWith path ''/s/'' \<longrightarrow> ''null'' \<in> set origins \<or> origins = [] \<or> origins = [dx_origin a]))"

lemma allowed_originD: "has_allowed_origin a hs \<Longrightarrow> headers_all ''origin'' hs = [] \<or> headers_all ''origin'' hs = [dx_origin a]"
  by (auto simp: has_allowed_origin_def split: list.splits)

lemma desktop_guard_None:
  assumes "desktop_guard a req = None"
  shows "admitted a req \<and> (startsWith (srq_path req) ''/api/'' \<longrightarrow> \<not> has_opaque_origin (srq_headers req))"
proof -
  have g: "has_expected_host a (srq_headers req)" "has_session a (srq_headers req)"
    "startsWith (srq_path req) ''/api/'' \<longrightarrow> \<not> has_opaque_origin (srq_headers req)"
    "startsWith (srq_path req) ''/api/'' \<or> startsWith (srq_path req) ''/s/'' \<longrightarrow>
      (startsWith (srq_path req) ''/s/'' \<and> has_opaque_origin (srq_headers req)) \<or> has_allowed_origin a (srq_headers req)"
    using assms by (auto simp: desktop_guard_def Let_def split: if_splits)
  have "headers_all ''host'' (srq_headers req) = [dx_authority a]"
    using g(1) by (auto simp: has_expected_host_def split: list.splits)
  moreover obtain header cookie where "header \<in> set (headers_all ''cookie'' (srq_headers req))" "cookie \<in> set (split_on (CHR '';'') header)"
    "rust_trim cookie = DESKTOP_SESSION_COOKIE @ ''='' @ dx_token a" using g(2) by (rule has_session_token)
  moreover have "\<not> (startsWith (srq_path req) ''/api/'' \<and> startsWith (srq_path req) ''/s/'')"
    by (auto simp: startsWith_prefix prefix_def)
  ultimately show ?thesis using g(3,4) allowed_originD [of a "srq_headers req"]
    unfolding admitted_def Let_def by (auto simp: has_opaque_origin_def)
qed

lemma plain_answer [simp]: "headers_all ''set-cookie'' (srs_headers (no_store (text_response st m))) = []"
  "headers_all ''set-cookie'' (srs_headers (text_response st m)) = []"
  by (simp_all add: no_store_def text_response_def with_content_type_def headers_all_Cons)

lemma bootstrap_cookie:
  assumes "bootstrap_response a q = (r, a')" "headers_all ''set-cookie'' (srs_headers r) \<noteq> []"
  shows "srs_status r = 303"
  using assms by (auto simp: bootstrap_response_def Let_def session_redirect_def split: if_splits)

lemma desktop_guard_Some:
  assumes "desktop_guard a req = Some (r, a')"
  shows "(headers_all ''set-cookie'' (srs_headers r) = [] \<and> a' = a)
    \<or> (srq_path req = DESKTOP_BOOTSTRAP_PATH \<and> bootstrap_response a (srq_query req) = (r, a'))"
  using assms by (auto simp: desktop_guard_def Let_def split: if_splits)

lemma guard_cookie:
  assumes "desktop_guard a req = Some (r, a')" "headers_all ''set-cookie'' (srs_headers r) \<noteq> []"
  shows "\<not> dx_consumed a \<and> dx_consumed a' \<and> srq_query req = Some (''nonce='' @ dx_nonce a) \<and> srq_path req = DESKTOP_BOOTSTRAP_PATH"
  using desktop_guard_Some [OF assms(1)] assms(2) bootstrap_consumes bootstrap_cookie by blast

text \<open>The credentials never change, and a consumed nonce stays consumed.\<close>

definition same_credentials :: "desktop_auth \<Rightarrow> desktop_auth \<Rightarrow> bool" where
  "same_credentials a b = (b\<lparr>dx_consumed := dx_consumed a\<rparr> = a \<and> (dx_consumed a \<longrightarrow> dx_consumed b))"

lemma same_credentials_refl [simp]: "same_credentials a a"
  by (simp add: same_credentials_def)

lemma same_credentials_fields:
  "same_credentials a b \<Longrightarrow> dx_token b = dx_token a \<and> dx_nonce b = dx_nonce a \<and> (admitted b req \<longleftrightarrow> admitted a req)"
  by (cases a; cases b) (auto simp: same_credentials_def admitted_def)

lemma bootstrap_same: "bootstrap_response a q = (r, a') \<Longrightarrow> same_credentials a a'"
  by (auto simp: bootstrap_response_def Let_def same_credentials_def split: if_splits)

lemma route_Some:
  obtains d a' where "route (Some a) req = (d, Some a')" "same_credentials a a'"
    "forwarded d \<longrightarrow> admitted a req" "sets_cookie d \<longrightarrow> \<not> dx_consumed a \<and> dx_consumed a' \<and> srq_query req = Some (''nonce='' @ dx_nonce a)"
proof (cases "desktop_guard a req")
  case None
  have "\<not> sets_cookie (dispatch req)"
    by (auto simp: dispatch_def sets_cookie_def Let_def split: option.splits)
  with None desktop_guard_None [OF None] show thesis by (intro that [of "dispatch req" a]) (auto simp: route_def)
next
  case (Some ra)
  obtain r a' where ra: "ra = (r, a')" by fastforce
  have "same_credentials a a'" using desktop_guard_Some [of a req r a'] Some ra bootstrap_same by auto
  moreover have "sets_cookie (Answer r) \<Longrightarrow> \<not> dx_consumed a \<and> dx_consumed a' \<and> srq_query req = Some (''nonce='' @ dx_nonce a)"
    using guard_cookie [of a req r a'] Some ra by (simp add: sets_cookie_def)
  ultimately show thesis using Some ra by (intro that [of "Answer r" a']) (auto simp: route_def forwarded_def)
qed

section \<open>Properties\<close>

lemma route_all_guarded:
  "(\<forall>(req, d) \<in> set (zip reqs (route_all (Some a) reqs)).
      (forwarded d \<longrightarrow> admitted a req) \<and> (sets_cookie d \<longrightarrow> srq_query req = Some (''nonce='' @ dx_nonce a)))
    \<and> length (filter sets_cookie (route_all (Some a) reqs)) \<le> (if dx_consumed a then 0 else 1)"
proof (induction reqs arbitrary: a)
  case (Cons req reqs)
  obtain d a' where r: "route (Some a) req = (d, Some a')" "same_credentials a a'"
    "forwarded d \<longrightarrow> admitted a req" "sets_cookie d \<longrightarrow> \<not> dx_consumed a \<and> dx_consumed a' \<and> srq_query req = Some (''nonce='' @ dx_nonce a)"
    by (rule route_Some [of a req])
  have "length (filter sets_cookie (route_all (Some a) (req # reqs))) \<le> (if dx_consumed a then 0 else 1)"
    using Cons [of a'] r by (auto simp: same_credentials_def split: if_splits)
  moreover have "\<forall>(req', d') \<in> set (zip (req # reqs) (route_all (Some a) (req # reqs))).
      (forwarded d' \<longrightarrow> admitted a req') \<and> (sets_cookie d' \<longrightarrow> srq_query req' = Some (''nonce='' @ dx_nonce a))"
    using Cons [of a'] r same_credentials_fields [OF r(2)] by auto
  ultimately show ?case by blast
qed simp

text \<open>A document in a preview frame, whose origin is opaque, reaches no handler of an API route, with or without authentication.\<close>

lemma opaque_origin_stopped:
  assumes "startsWith (srq_path req) ''/api/''" "has_opaque_origin (srq_headers req)"
  shows "\<not> forwarded (fst (route auth req))"
proof (cases auth)
  case None
  with assms show ?thesis by (simp add: route_def dispatch_def forwarded_def)
next
  case (Some a)
  show ?thesis
  proof (cases "desktop_guard a req")
    case None
    with desktop_guard_None [OF None] assms show ?thesis by blast
  qed (auto simp: Some route_def forwarded_def)
qed

definition bootstrap_get :: "desktop_auth \<Rightarrow> srv_request" where
  "bootstrap_get a = \<lparr>srq_method = ''GET'', srq_path = DESKTOP_BOOTSTRAP_PATH, srq_query = Some (''nonce='' @ dx_nonce a),
     srq_headers = [(''host'', dx_authority a)], srq_body = None\<rparr>"

definition page_get :: "desktop_auth \<Rightarrow> srv_request" where
  "page_get a = \<lparr>srq_method = ''GET'', srq_path = ''/'', srq_query = None,
     srq_headers = [(''host'', dx_authority a), (''cookie'', DESKTOP_SESSION_COOKIE @ ''='' @ dx_token a)], srq_body = None\<rparr>"

lemma bootstrap_opens:
  assumes "list_all alphanumeric (dx_nonce a)" "list_all alphanumeric (dx_token a)" "\<not> dx_consumed a"
  shows "route_all (Some a) [bootstrap_get a, page_get a, bootstrap_get a]
    = [Answer (session_redirect a), To_assets, Answer (no_store (text_response 403 ''invalid or expired desktop bootstrap nonce''))]"
proof -
  have "CHR ''&'' \<notin> set (dx_nonce a)" using assms(1) alphanumeric_plain by (auto simp: list_all_iff)
  then have boot: "bootstrap_response a (Some (''nonce='' @ dx_nonce a)) = (session_redirect a, a\<lparr>dx_consumed := True\<rparr>)"
    "bootstrap_response (a\<lparr>dx_consumed := True\<rparr>) (Some (''nonce='' @ dx_nonce a))
      = (no_store (text_response 403 ''invalid or expired desktop bootstrap nonce''), a\<lparr>dx_consumed := True\<rparr>)"
    using assms(3) by (simp_all add: bootstrap_response_def strip_prefix_def startsWith_def)
  have cookies: "has_session (a\<lparr>dx_consumed := True\<rparr>) [(''host'', dx_authority a), (''cookie'', DESKTOP_SESSION_COOKIE @ ''='' @ dx_token a)]"
    using issued_cookie_accepted [of "a\<lparr>dx_consumed := True\<rparr>"] assms(2) by (simp add: has_session_def headers_all_def)
  have host: "has_expected_host b [(''host'', dx_authority a)]" "has_expected_host b [(''host'', dx_authority a), (''cookie'', c)]"
    if "dx_authority b = dx_authority a" for b c using that by (simp_all add: has_expected_host_def headers_all_def)
  have page: "desktop_guard (a\<lparr>dx_consumed := True\<rparr>) (page_get a) = None"
    using host(2) [of "a\<lparr>dx_consumed := True\<rparr>"] cookies
    by (simp add: desktop_guard_def page_get_def DESKTOP_BOOTSTRAP_PATH_def startsWith_def)
  have "dispatch (page_get a) = To_assets"
    by (simp add: dispatch_def page_get_def startsWith_def daemon_route_def health_route_def sandbox_route_def strip_prefix_def)
  with page boot show ?thesis
    by (simp add: route_def bootstrap_get_def desktop_guard_def host)
qed

text \<open>
  C36: The desktop server lets nobody in without its session.  Whatever requests arrive in whatever order, one that reaches a
  handler named the server's own authority once, carried the session token in a cookie and, on API and preview routes,
  came from the server's own origin (or, on preview routes, from a preview's opaque origin); the token is handed out at most once,
  to the request that carried the nonce; and that request opens the session for the page that follows it.
\<close>

theorem desktop_access_guarded:
  assumes "desktop_auth_new parse_authority authority nonce token = Inr a"
  shows "(\<forall>(req, d) \<in> set (zip reqs (route_all (Some a) reqs)).
      (forwarded d \<longrightarrow> admitted a req) \<and> (sets_cookie d \<longrightarrow> srq_query req = Some (''nonce='' @ nonce)))
    \<and> length (filter sets_cookie (route_all (Some a) reqs)) \<le> 1
    \<and> route_all (Some a) [bootstrap_get a, page_get a, bootstrap_get a]
      = [Answer (session_redirect a), To_assets, Answer (no_store (text_response 403 ''invalid or expired desktop bootstrap nonce''))]"
proof -
  have a: "dx_nonce a = nonce" "\<not> dx_consumed a" "list_all alphanumeric (dx_nonce a)" "list_all alphanumeric (dx_token a)"
    using assms by (auto simp: desktop_auth_new_def result_iff)
  from route_all_guarded [of reqs a] bootstrap_opens [OF a(3,4,2)] show ?thesis by (simp add: a(1,2))
qed

theorem desktop_access_guarded_witness:
  "\<exists>a. desktop_auth_new (\<lambda>_. Some (''127.0.0.1'', Some 49152)) ''127.0.0.1:49152'' (replicate 32 (CHR ''a'')) (replicate 32 (CHR ''b'')) = Inr a
    \<and> length (filter sets_cookie (route_all (Some a) [bootstrap_get a, page_get a])) \<le> 1"
proof -
  obtain a where a: "desktop_auth_new (\<lambda>_. Some (''127.0.0.1'', Some 49152)) ''127.0.0.1:49152'' (replicate 32 (CHR ''a'')) (replicate 32 (CHR ''b'')) = Inr a"
    by (simp add: desktop_auth_new_def MIN_SECRET_LENGTH_def alphanumeric_def list_all_iff)
  show ?thesis using a desktop_access_guarded [OF a, of "[bootstrap_get a, page_get a]"] by blast
qed

end
