(* ===== verification/Sandbox_Pages.thy ===== *)
theory Sandbox_Pages
  imports Api_Types Rpc Machine Js_Number Activity
begin

text \<open>
  The frame of a sandbox page: \<^verbatim>\<open>SandboxDetail.tsx\<close>, \<^verbatim>\<open>SandboxHeader.tsx\<close>, \<^verbatim>\<open>ObservabilityTab.tsx\<close>,
  \<^verbatim>\<open>PortPreview.tsx\<close>, \<^verbatim>\<open>PreviewTab.tsx\<close> and \<^verbatim>\<open>FilesTab.tsx\<close>.  \<^verbatim>\<open>encodeURIComponent\<close> is a parameter; search
  parameters are records of optional strings.
\<close>

section \<open>Tabs\<close>

definition TABS :: "string list" where
  "TABS = [''terminal'', ''files'', ''observability'', ''preview'']"

definition base_path :: "(string \<Rightarrow> string) \<Rightarrow> string \<Rightarrow> string" where
  "base_path encodeURIComponent sandboxId = ''/sandboxes/'' @ encodeURIComponent sandboxId"

definition currentTab :: "string \<Rightarrow> string \<Rightarrow> string" where
  "currentTab pathname basePath = (case find (\<lambda>tab. pathname = basePath @ ''/'' @ tab \<or> startsWith pathname (basePath @ ''/'' @ tab @ ''/'')) TABS of
     Some tab \<Rightarrow> tab | None \<Rightarrow> ''terminal'')"

definition VIEWS :: "(string \<times> string) list" where
  "VIEWS = [(''resources'', ''Resources''), (''daemon'', ''Daemon''), (''cgroup'', ''Processes''), (''traces'', ''Traces''),
     (''events'', ''Events''), (''layerstack'', ''Layers'')]"

definition endsWith :: "string \<Rightarrow> string \<Rightarrow> bool" where
  "endsWith s t = (length t \<le> length s \<and> drop (length s - length t) s = t)"

definition currentView :: "string \<Rightarrow> string" where
  "currentView pathname = (case find (\<lambda>v. endsWith pathname (''/'' @ fst v) \<or> str_includes pathname (''/'' @ fst v @ ''/'')) VIEWS of
     Some v \<Rightarrow> fst v | None \<Rightarrow> ''resources'')"

text \<open>One notification per run of failures of the record poll.\<close>

fun record_toasts :: "bool \<Rightarrow> 'e option list \<Rightarrow> 'e list" where
  "record_toasts toastShown [] = []"
| "record_toasts toastShown (Some e # es) = (if toastShown then [] else [e]) @ record_toasts True es"
| "record_toasts toastShown (None # es) = record_toasts False es"

section \<open>The header\<close>

record preview_scope =
  sc_id :: string
  sc_label :: string
  sc_isolated :: bool

definition snapshot_workspaces :: "SnapshotResult option \<Rightarrow> WorkspaceSnapshot list" where
  "snapshot_workspaces snapshot = (case snapshot of None \<Rightarrow> []
     | Some r \<Rightarrow> (case snap_sandboxes r of [] \<Rightarrow> [] | s # _ \<Rightarrow> ss_workspaces s))"

definition previewScopes :: "SnapshotResult option \<Rightarrow> preview_scope list" where
  "previewScopes snapshot = \<lparr>sc_id = ''shared'', sc_label = ''shared network'', sc_isolated = False\<rparr> #
     map (\<lambda>w. \<lparr>sc_id = ws_workspace_id w, sc_label = ''isolated '' @ [CHR 0xB7] @ '' '' @ ws_workspace_id w, sc_isolated = True\<rparr>)
       (filter (\<lambda>w. ws_network_profile w = Isolated) (snapshot_workspaces snapshot))"

datatype header_item = Show_state SandboxState | Show_health bool | Show_root string | Show_rpc string int | Show_http string int
  | Show_base string | Offer_preview | Offer_squash "nat option" | Offer_destroy

definition SandboxHeader :: "SandboxRecord option \<Rightarrow> SnapshotResult option \<Rightarrow> header_item list" where
  "SandboxHeader rec snapshot = (case rec of None \<Rightarrow> [] | Some r \<Rightarrow>
       [Show_state (rec_state r)] @
       (if rec_state r = Ready then [Show_health (rec_daemon_http r \<noteq> None)] else []) @
       [Show_root (rec_workspace_root r)] @
       (case rec_daemon r of None \<Rightarrow> [] | Some e \<Rightarrow> [Show_rpc (ep_host e) (ep_port e)]) @
       (case rec_daemon_http r of None \<Rightarrow> [] | Some e \<Rightarrow> [Show_http (ep_host e) (ep_port e)]) @
       (case rec_shared_base r of None \<Rightarrow> [] | Some b \<Rightarrow> [Show_base (shortHash (sb_root_hash b) 8)]) @
       (if rec_state r = Ready then [Offer_preview, Offer_squash (case snapshot of None \<Rightarrow> None
          | Some x \<Rightarrow> (case snap_sandboxes x of [] \<Rightarrow> None | s # _ \<Rightarrow> Some (st_layer_count (ss_stack s))))] else [])) @
     [Offer_destroy]"

section \<open>Previews\<close>

text \<open>\<^verbatim>\<open>/^\d+$/.test(port) && Number(port) >= 1 && Number(port) <= 65535\<close>.\<close>

definition portValid :: "string \<Rightarrow> bool" where
  "portValid port = (port \<noteq> [] \<and> list_all is_digit port \<and> 1 \<le> digits_value port \<and> digits_value port \<le> 65535)"

definition previewPath :: "(string \<Rightarrow> string) \<Rightarrow> ((string \<times> string) list \<Rightarrow> string) \<Rightarrow> string \<Rightarrow> string \<Rightarrow> string \<Rightarrow> string \<Rightarrow> string" where
  "previewPath encodeURIComponent searchParams sandboxId scope port path =
     ''/sandboxes/'' @ encodeURIComponent sandboxId @ ''/preview?'' @ searchParams [(''scope'', scope), (''port'', port), (''path'', path)]"

text \<open>The launcher: its state and the page it opens.\<close>

record port_preview =
  pp_open :: bool
  pp_scope :: string
  pp_port :: string
  pp_opened :: "(string \<times> string) list"

datatype launcher_event = Launcher_toggle bool | Launcher_scope string "string option" | Launcher_port string | Launcher_submit

fun launcher_step :: "port_preview \<Rightarrow> launcher_event \<Rightarrow> port_preview" where
  "launcher_step s (Launcher_toggle b) = s\<lparr>pp_open := b\<rparr>"
| "launcher_step s (Launcher_scope defaultScope v) = s\<lparr>pp_scope := (case v of None \<Rightarrow> defaultScope | Some i \<Rightarrow> i)\<rparr>"
| "launcher_step s (Launcher_port t) = s\<lparr>pp_port := t\<rparr>"
| "launcher_step s Launcher_submit = (if \<not> portValid (pp_port s) then s
     else s\<lparr>pp_open := False, pp_opened := pp_opened s @ [(pp_scope s, pp_port s)]\<rparr>)"

definition isolated_hint :: "preview_scope list \<Rightarrow> string \<Rightarrow> bool" where
  "isolated_hint scopes scope = (case find (\<lambda>e. sc_id e = scope) scopes of None \<Rightarrow> False | Some e \<Rightarrow> sc_isolated e)"

text \<open>The preview tab.\<close>

record preview_tab =
  pv_scope :: "string option"
  pv_port :: "string option"
  pv_path :: "string option"
  pv_pathDraft :: string
  pv_portDraft :: string
  pv_reloadKey :: nat
  pv_isLoading :: bool

definition pv_scope_of :: "preview_tab \<Rightarrow> string" where
  "pv_scope_of s = (case pv_scope s of None \<Rightarrow> ''shared'' | Some v \<Rightarrow> v)"

definition pv_port_of :: "preview_tab \<Rightarrow> string" where
  "pv_port_of s = (case pv_port s of None \<Rightarrow> [] | Some v \<Rightarrow> v)"

definition pv_path_of :: "preview_tab \<Rightarrow> string" where
  "pv_path_of s = (case pv_path s of None \<Rightarrow> ''/'' | Some v \<Rightarrow> v)"

definition previewUrl :: "(string \<Rightarrow> string) \<Rightarrow> string \<Rightarrow> preview_tab \<Rightarrow> string option" where
  "previewUrl encodeURIComponent sandboxId s =
     (if \<not> portValid (pv_port_of s) then None
      else let scopeSegment = (if pv_scope_of s = ''shared'' then ''shared'' else ''isolated='' @ pv_scope_of s);
               cleanPath = (if startsWith (pv_path_of s) ''/'' then tl (pv_path_of s) else pv_path_of s)
           in Some (''/s/'' @ encodeURIComponent sandboxId @ ''/'' @ scopeSegment @ ''/'' @ pv_port_of s @ ''/'' @ cleanPath))"

datatype preview_event = Pv_scope "string option" | Pv_port_draft string | Pv_path_draft string | Pv_port_submit | Pv_path_submit
  | Pv_reload | Pv_loaded | Pv_params "string option" "string option" "string option"

fun preview_handle :: "preview_tab \<Rightarrow> preview_event \<Rightarrow> preview_tab" where
  "preview_handle s (Pv_scope v) = s\<lparr>pv_scope := Some (case v of None \<Rightarrow> ''shared'' | Some i \<Rightarrow> i)\<rparr>"
| "preview_handle s (Pv_port_draft t) = s\<lparr>pv_portDraft := t\<rparr>"
| "preview_handle s (Pv_path_draft t) = s\<lparr>pv_pathDraft := t\<rparr>"
| "preview_handle s Pv_port_submit = s\<lparr>pv_port := Some (trim (pv_portDraft s))\<rparr>"
| "preview_handle s Pv_path_submit = s\<lparr>pv_path := Some (if trim (pv_pathDraft s) = [] then ''/'' else trim (pv_pathDraft s))\<rparr>"
| "preview_handle s Pv_reload = s\<lparr>pv_reloadKey := pv_reloadKey s + 1\<rparr>"
| "preview_handle s Pv_loaded = s\<lparr>pv_isLoading := False\<rparr>"
| "preview_handle s (Pv_params scope port path) = s\<lparr>pv_scope := scope, pv_port := port, pv_path := path\<rparr>"

text \<open>The effects: drafts follow the parameters, and a new address or a reload is loading.\<close>

definition preview_step :: "(string \<Rightarrow> string) \<Rightarrow> string \<Rightarrow> preview_tab \<Rightarrow> preview_event \<Rightarrow> preview_tab" where
  "preview_step enc sandboxId s e =
     (let t = preview_handle s e;
          t1 = (if pv_path_of t \<noteq> pv_path_of s then t\<lparr>pv_pathDraft := pv_path_of t\<rparr> else t);
          t2 = (if pv_port_of t1 \<noteq> pv_port_of s then t1\<lparr>pv_portDraft := pv_port_of t1\<rparr> else t1)
      in if previewUrl enc sandboxId t2 \<noteq> previewUrl enc sandboxId s \<or> pv_reloadKey t2 \<noteq> pv_reloadKey s
         then t2\<lparr>pv_isLoading := (previewUrl enc sandboxId t2 \<noteq> None)\<rparr> else t2)"

definition preview_init :: "(string \<Rightarrow> string) \<Rightarrow> string \<Rightarrow> string option \<Rightarrow> string option \<Rightarrow> string option \<Rightarrow> preview_tab" where
  "preview_init enc sandboxId scope port path =
     (let s = \<lparr>pv_scope = scope, pv_port = port, pv_path = path, pv_pathDraft = (case path of None \<Rightarrow> ''/'' | Some v \<Rightarrow> v),
        pv_portDraft = (case port of None \<Rightarrow> [] | Some v \<Rightarrow> v), pv_reloadKey = 0, pv_isLoading = False\<rparr>
      in s\<lparr>pv_isLoading := (previewUrl enc sandboxId s \<noteq> None)\<rparr>)"

section \<open>Files\<close>

record files_tab =
  ft_path :: "string option"
  ft_session :: "string option"
  ft_snapshot :: "SnapshotResult option"
  ft_navigatorOpen :: bool

definition files_session :: "files_tab \<Rightarrow> string option" where
  "files_session s = (case find (\<lambda>w. Some (ws_workspace_id w) = ft_session s) (snapshot_workspaces (ft_snapshot s)) of
     None \<Rightarrow> None | Some w \<Rightarrow> if ws_finalization_state w = Fin_active then ft_session s else None)"

definition fileWorkspaces :: "files_tab \<Rightarrow> string list" where
  "fileWorkspaces s = map ws_workspace_id (filter (\<lambda>w. ws_finalization_state w = Fin_active) (snapshot_workspaces (ft_snapshot s)))"

definition files_path :: "files_tab \<Rightarrow> string" where
  "files_path s = (case ft_path s of None \<Rightarrow> [] | Some p \<Rightarrow> p)"

text \<open>\<^verbatim>\<open>apply\<close>: an empty value removes the parameter.\<close>

definition files_apply_path :: "string \<Rightarrow> files_tab \<Rightarrow> files_tab" where
  "files_apply_path p s = s\<lparr>ft_path := (if p \<noteq> [] then Some p else None)\<rparr>"

definition files_apply_session :: "string option \<Rightarrow> files_tab \<Rightarrow> files_tab" where
  "files_apply_session v s = s\<lparr>ft_session := (case v of None \<Rightarrow> None | Some i \<Rightarrow> if i \<noteq> [] then Some i else None)\<rparr>"

definition PUBLISHED :: string where "PUBLISHED = ''__published__''"

definition session_effect :: "files_tab \<Rightarrow> files_tab" where
  "session_effect s = (if ft_snapshot s = None \<or> ft_session s = None \<or> ft_session s = Some [] \<or> ft_session s = files_session s then s
     else s\<lparr>ft_session := None\<rparr>)"

datatype files_event = Files_snapshot "SnapshotResult option" | Files_scope "string option" | Files_select string
  | Files_params "string option" "string option" | Navigator_open bool

fun files_handle :: "files_tab \<Rightarrow> files_event \<Rightarrow> files_tab" where
  "files_handle s (Files_snapshot r) = s\<lparr>ft_snapshot := r\<rparr>"
| "files_handle s (Files_scope v) = files_apply_session (if v = Some PUBLISHED then None else v) s"
| "files_handle s (Files_select p) = (files_apply_path p s)\<lparr>ft_navigatorOpen := False\<rparr>"
| "files_handle s (Files_params p i) = s\<lparr>ft_path := p, ft_session := i\<rparr>"
| "files_handle s (Navigator_open b) = s\<lparr>ft_navigatorOpen := b\<rparr>"

definition files_step :: "files_tab \<Rightarrow> files_event \<Rightarrow> files_tab" where
  "files_step s e = session_effect (files_handle s e)"

definition files_init :: "string option \<Rightarrow> string option \<Rightarrow> SnapshotResult option \<Rightarrow> files_tab" where
  "files_init p i r = session_effect \<lparr>ft_path = p, ft_session = i, ft_snapshot = r, ft_navigatorOpen = False\<rparr>"

text \<open>The open file: with blame for published files, and with the key that decides whether the view is a new one.\<close>

datatype files_screen = Pick_a_file bool | Open_file string "string option" bool string

definition files_screen_of :: "files_tab \<Rightarrow> files_screen" where
  "files_screen_of s = (if files_path s = [] then Pick_a_file (files_session s \<noteq> None)
     else Open_file (files_path s) (files_session s) (files_session s = None)
       ((case files_session s of None \<Rightarrow> ''published'' | Some i \<Rightarrow> i) @ '':'' @ files_path s))"

definition files_crumbs :: "files_tab \<Rightarrow> string list" where
  "files_crumbs s = [''Files'', case files_session s of Some i \<Rightarrow> ''live '' @ [CHR 0xB7] @ '' '' @ i | None \<Rightarrow> ''published snapshot''] @
     filter (\<lambda>x. x \<noteq> []) (split_on (CHR ''/'') (files_path s))"

section \<open>Tabs by path segments\<close>

text \<open>A path of segments that hold no slash.\<close>

definition path_of :: "string list \<Rightarrow> string" where
  "path_of segs = concat (map (\<lambda>g. CHR ''/'' # g) segs)"

lemma split_on_append_any: "split_on d (s @ d # t) = split_on d s @ split_on d t"
proof (induction s)
  case (Cons c s)
  then show ?case by (cases "split_on d s") (auto split: list.splits)
qed simp

lemma split_path: "\<forall>g \<in> set segs. CHR ''/'' \<notin> set g \<Longrightarrow> split_on (CHR ''/'') (path_of segs) = [] # segs"
proof (induction segs rule: rev_induct)
  case (snoc g segs)
  then show ?case by (simp add: path_of_def split_on_append_any split_on_no_sep)
qed (simp add: path_of_def)

lemma endsWith_suffix: "endsWith s t \<longleftrightarrow> suffix t s"
  by (auto simp: endsWith_def suffix_def) (metis append_take_drop_id)

lemma segment_match:
  assumes "\<forall>g \<in> set segs. CHR ''/'' \<notin> set g" "CHR ''/'' \<notin> set v" "v \<noteq> []"
  shows "endsWith (path_of segs) (''/'' @ v) \<or> str_includes (path_of segs) (''/'' @ v @ ''/'') \<longleftrightarrow> v \<in> set segs"
proof
  assume "endsWith (path_of segs) (''/'' @ v) \<or> str_includes (path_of segs) (''/'' @ v @ ''/'')"
  then have "v \<in> set (split_on (CHR ''/'') (path_of segs))"
  proof
    assume "endsWith (path_of segs) (''/'' @ v)"
    then obtain a where "path_of segs = a @ CHR ''/'' # v" by (auto simp: endsWith_suffix suffix_def)
    then show ?thesis by (simp add: split_on_append_any split_on_no_sep [OF assms(2)])
  next
    assume "str_includes (path_of segs) (''/'' @ v @ ''/'')"
    then obtain a b where "path_of segs = a @ CHR ''/'' # v @ CHR ''/'' # b" by (auto simp: includes_sublist sublist_def)
    then show ?thesis by (simp add: split_on_append_any split_on_no_sep [OF assms(2)])
  qed
  then show "v \<in> set segs" using split_path [OF assms(1)] assms(3) by auto
next
  assume "v \<in> set segs"
  then obtain xs ys where segs: "segs = xs @ v # ys" by (meson split_list)
  show "endsWith (path_of segs) (''/'' @ v) \<or> str_includes (path_of segs) (''/'' @ v @ ''/'')"
  proof (cases ys)
    case Nil
    then show ?thesis by (simp add: segs path_of_def endsWith_suffix suffix_def)
  next
    case (Cons y zs)
    then have "path_of segs = path_of xs @ (''/'' @ v @ ''/'') @ y @ path_of zs" by (simp add: segs path_of_def)
    then show ?thesis unfolding includes_sublist sublist_def by blast
  qed
qed

definition view_names :: "string list" where
  "view_names = map fst VIEWS"

lemma find_cong_on: "(\<And>x. x \<in> set xs \<Longrightarrow> P x = Q x) \<Longrightarrow> find P xs = find Q xs"
  by (induction xs) auto

lemma currentView_segments:
  assumes "\<forall>g \<in> set segs. CHR ''/'' \<notin> set g"
  shows "currentView (path_of segs) = (case find (\<lambda>v. fst v \<in> set segs) VIEWS of Some v \<Rightarrow> fst v | None \<Rightarrow> ''resources'')"
proof -
  have "find (\<lambda>v. endsWith (path_of segs) (''/'' @ fst v) \<or> str_includes (path_of segs) (''/'' @ fst v @ ''/'')) VIEWS = find (\<lambda>v. fst v \<in> set segs) VIEWS"
  proof (rule find_cong_on)
    fix x assume "x \<in> set VIEWS"
    then have "CHR ''/'' \<notin> set (fst x)" "fst x \<noteq> []" by (auto simp: VIEWS_def)
    then show "(endsWith (path_of segs) (''/'' @ fst x) \<or> str_includes (path_of segs) (''/'' @ fst x @ ''/'')) = (fst x \<in> set segs)"
      by (rule segment_match [OF assms])
  qed
  then show ?thesis by (simp add: currentView_def)
qed

lemma find_unique: "v \<in> set xs \<Longrightarrow> P v \<Longrightarrow> \<forall>x \<in> set xs. P x \<longrightarrow> f x = f v \<Longrightarrow> \<exists>w. find P xs = Some w \<and> f w = f v"
proof (cases "find P xs")
  case None
  assume "v \<in> set xs" "P v"
  with None show ?thesis by (auto simp: find_None_iff)
next
  case (Some w)
  assume "\<forall>x \<in> set xs. P x \<longrightarrow> f x = f v"
  moreover from Some have "w \<in> set xs" "P w" by (auto simp: find_Some_iff)
  ultimately show ?thesis using Some by blast
qed

section \<open>Files and sessions\<close>

lemma files_session_active:
  "files_session s = Some i \<Longrightarrow> i \<in> set (fileWorkspaces s)"
  by (auto simp: files_session_def fileWorkspaces_def find_Some_iff split: option.splits if_splits)

lemma session_effect_settled:
  "ft_snapshot (session_effect s) \<noteq> None \<Longrightarrow> ft_session (session_effect s) \<in> {None, Some [], files_session (session_effect s)}"
  by (auto simp: session_effect_def)

lemma files_step_settled: "ft_snapshot (files_step s e) \<noteq> None \<Longrightarrow> ft_session (files_step s e) \<in> {None, Some [], files_session (files_step s e)}"
  unfolding files_step_def by (rule session_effect_settled)

section \<open>Previews\<close>

lemma previewUrl_cong:
  "pv_scope s = pv_scope t \<Longrightarrow> pv_port s = pv_port t \<Longrightarrow> pv_path s = pv_path t \<Longrightarrow> previewUrl enc i s = previewUrl enc i t"
  by (simp add: previewUrl_def pv_port_of_def pv_scope_of_def pv_path_of_def)

lemma preview_step_loading:
  assumes "pv_isLoading t \<longrightarrow> previewUrl enc i t \<noteq> None"
  shows "pv_isLoading (preview_step enc i t e) \<longrightarrow> previewUrl enc i (preview_step enc i t e) \<noteq> None"
proof -
  define u where "u = (let t0 = preview_handle t e;
      t1 = (if pv_path_of t0 \<noteq> pv_path_of t then t0\<lparr>pv_pathDraft := pv_path_of t0\<rparr> else t0)
    in if pv_port_of t1 \<noteq> pv_port_of t then t1\<lparr>pv_portDraft := pv_port_of t1\<rparr> else t1)"
  have load: "pv_isLoading u \<longrightarrow> pv_isLoading t" by (cases e) (simp_all add: u_def Let_def)
  have url: "previewUrl enc i (u\<lparr>pv_isLoading := b\<rparr>) = previewUrl enc i u" for b by (rule previewUrl_cong) simp_all
  have "preview_step enc i t e = (if previewUrl enc i u \<noteq> previewUrl enc i t \<or> pv_reloadKey u \<noteq> pv_reloadKey t
      then u\<lparr>pv_isLoading := (previewUrl enc i u \<noteq> None)\<rparr> else u)"
    unfolding preview_step_def u_def Let_def ..
  then show ?thesis using assms load url by auto
qed

interpretation preview_loading: event_machine "preview_step enc i" "\<lambda>s. pv_isLoading s \<longrightarrow> previewUrl enc i s \<noteq> None" for enc i
  by unfold_locales (rule preview_step_loading)

lemma launcher_opens_valid:
  "\<forall>x \<in> set (pp_opened u). portValid (snd x) \<Longrightarrow> \<forall>x \<in> set (pp_opened (run launcher_step u es)). portValid (snd x)"
proof (induction es arbitrary: u)
  case (Cons e es)
  have "\<forall>x \<in> set (pp_opened (launcher_step u e)). portValid (snd x)" using Cons.prems by (cases e) auto
  then show ?case using Cons.IH by simp
qed simp

section \<open>Properties\<close>

text \<open>
  The highlighted observability tab is the one of the page: on a path of the observability routes
  of a sandbox, with the view and possibly a trace after it, it is that view, provided that neither
  the encoded sandbox id nor the encoded trace id is itself the name of a view.
\<close>

lemma currentView_matches_route:
  assumes "v \<in> set view_names" "rest = [] \<or> rest = [t]"
    and "CHR ''/'' \<notin> set i" "\<forall>g \<in> set rest. CHR ''/'' \<notin> set g" "i \<notin> set view_names" "set rest \<inter> set view_names = {}"
  shows "currentView (path_of ([''sandboxes'', i, ''observability'', v] @ rest)) = v"
proof -
  let ?segs = "[''sandboxes'', i, ''observability'', v] @ rest"
  have slash: "\<forall>g \<in> set ?segs. CHR ''/'' \<notin> set g" using assms(1,3,4) by (auto simp: view_names_def VIEWS_def)
  obtain l where l: "(v, l) \<in> set VIEWS" using assms(1) by (auto simp: view_names_def)
  have "\<forall>x \<in> set VIEWS. fst x \<in> set ?segs \<longrightarrow> fst x = v"
  proof (intro ballI impI)
    fix x assume x: "x \<in> set VIEWS" "fst x \<in> set ?segs"
    then have "fst x \<in> set view_names" by (simp add: view_names_def)
    moreover have "''sandboxes'' \<notin> set view_names" "''observability'' \<notin> set view_names" by (simp_all add: view_names_def VIEWS_def)
    ultimately show "fst x = v" using x(2) assms(5,6) by auto
  qed
  moreover have "v \<in> set ?segs" by simp
  ultimately obtain w where "find (\<lambda>x. fst x \<in> set ?segs) VIEWS = Some w" "fst w = v"
    using find_unique [OF l, of "\<lambda>x. fst x \<in> set ?segs" fst] unfolding fst_conv by blast
  then show ?thesis unfolding currentView_segments [OF slash] by simp
qed

lemma currentView_matches_route_witness:
  "currentView (path_of [''sandboxes'', ''sb'', ''observability'', ''traces'', ''t1'']) = ''traces''"
  using currentView_matches_route [of "''traces''" "[''t1'']" "''t1''" "''sb''"] by (simp add: view_names_def VIEWS_def)

text \<open>A sandbox whose id is the name of a view takes the highlight from the other tabs.\<close>

lemma currentView_sandbox_named_daemon:
  "currentView (path_of [''sandboxes'', ''daemon'', ''observability'', ''events'']) = ''daemon''"
  by (subst currentView_segments) (auto simp: VIEWS_def)

text \<open>
  Files are never read or written through a session that is not active.  In every reachable state
  of the files tab a session in use is an active workspace of the snapshot, the scope that is offered
  is one of them, and once there is a snapshot a session that is not active has left the address; blame
  is shown exactly for published files.
\<close>

lemma files_sessions_active:
  assumes "s = run files_step (files_init p i r) es"
  shows "(\<forall>j. files_session s = Some j \<longrightarrow> (\<exists>w \<in> set (snapshot_workspaces (ft_snapshot s)). ws_workspace_id w = j \<and> ws_finalization_state w = Fin_active)) \<and>
    (ft_snapshot s \<noteq> None \<longrightarrow> ft_session s = None \<or> ft_session s = Some [] \<or> ft_session s = files_session s) \<and>
    (\<forall>path session blame key. files_screen_of s = Open_file path session blame key \<longrightarrow> session = files_session s \<and> (blame \<longleftrightarrow> session = None))"
proof -
  have "ft_snapshot s \<noteq> None \<longrightarrow> ft_session s \<in> {None, Some [], files_session s}"
  proof (cases es rule: rev_cases)
    case Nil
    then show ?thesis using session_effect_settled by (simp add: assms files_init_def)
  next
    case (snoc fs e)
    then show ?thesis using files_step_settled by (simp add: assms run_snoc)
  qed
  then show ?thesis
    using files_session_active by (auto simp: fileWorkspaces_def files_screen_of_def split: if_splits)
qed

lemma files_sessions_active_witness:
  "ft_session (run files_step (files_init None (Some ''gone'') (Some \<lparr>snap_sandboxes = []\<rparr>)) []) = None"
  using files_sessions_active [OF refl, of None "Some ''gone''" "Some \<lparr>snap_sandboxes = []\<rparr>" "[]"]
  by (auto simp: files_init_def session_effect_def files_session_def snapshot_workspaces_def)

text \<open>
  A session that stops being active turns the open file into the published one, a new view: the view
  with the draft is gone.
\<close>

lemma inactive_session_reopens_file:
  assumes "files_session s = Some i" "files_path s \<noteq> []" "i \<noteq> ''published''" "i \<notin> set (fileWorkspaces (s\<lparr>ft_snapshot := r\<rparr>))"
  shows "\<exists>k k'. files_screen_of s = Open_file (files_path s) (Some i) False k \<and>
    files_screen_of (files_step s (Files_snapshot r)) = Open_file (files_path s) None True k' \<and> k \<noteq> k'"
proof -
  have "files_session (s\<lparr>ft_snapshot := r\<rparr>) = None"
  proof (rule ccontr)
    assume "files_session (s\<lparr>ft_snapshot := r\<rparr>) \<noteq> None"
    then obtain j where j: "files_session (s\<lparr>ft_snapshot := r\<rparr>) = Some j" by blast
    then have "ft_session s = Some j" by (auto simp: files_session_def split: option.splits if_splits)
    moreover have "ft_session s = Some i" using assms(1) by (auto simp: files_session_def split: option.splits if_splits)
    ultimately show False using files_session_active [OF j] assms(4) by simp
  qed
  then have "files_session (files_step s (Files_snapshot r)) = None"
    by (auto simp: files_step_def session_effect_def files_session_def split: option.splits)
  moreover have "files_path (files_step s (Files_snapshot r)) = files_path s" by (simp add: files_step_def session_effect_def files_path_def)
  ultimately show ?thesis using assms(1,2,3) by (simp add: files_screen_of_def)
qed

text \<open>
  A preview is opened for valid ports only: there is an address exactly if the port is a decimal
  number from 1 to 65535, it lies under the sandbox's prefix as text and names the scope and the port,
  the launcher opens nothing else, and the tab shows the loading notice only when there is an address.
\<close>

lemma preview_needs_port:
  assumes "s = run (preview_step enc i) (preview_init enc i scope port path) es" "u = run launcher_step u0 fs" "pp_opened u0 = []"
  shows "(previewUrl enc i s \<noteq> None \<longleftrightarrow> pv_port_of s \<noteq> [] \<and> (\<forall>c \<in> set (pv_port_of s). is_digit c) \<and>
       1 \<le> digits_value (pv_port_of s) \<and> digits_value (pv_port_of s) \<le> 65535) \<and>
    (\<forall>url. previewUrl enc i s = Some url \<longrightarrow> prefix (''/s/'' @ enc i @ ''/'') url) \<and>
    (\<forall>x \<in> set (pp_opened u). portValid (snd x)) \<and>
    (pv_isLoading s \<longrightarrow> previewUrl enc i s \<noteq> None)"
proof -
  have "pv_isLoading s \<longrightarrow> previewUrl enc i s \<noteq> None"
    unfolding assms(1) by (rule preview_loading.inv_run) (simp add: preview_init_def previewUrl_def pv_port_of_def Let_def)
  moreover have "\<forall>x \<in> set (pp_opened u). portValid (snd x)"
    using launcher_opens_valid [of u0 fs] assms(2,3) by simp
  ultimately show ?thesis
    by (auto simp: previewUrl_def portValid_def list_all_iff prefix_def Let_def split: if_splits)
qed

lemma preview_needs_port_witness:
  "previewUrl (\<lambda>x. x) ''sb'' (run (preview_step (\<lambda>x. x) ''sb'') (preview_init (\<lambda>x. x) ''sb'' None (Some ''70000'') None) []) = None"
  using preview_needs_port [OF refl refl, of "\<lparr>pp_open = False, pp_scope = ''shared'', pp_port = [], pp_opened = []\<rparr>"
      "\<lambda>x. x" "''sb''" None "Some ''70000''" None "[]"]
  by (simp add: preview_init_def pv_port_of_def digits_value_def Let_def)

text \<open>Neither the path nor the scope is encoded: dot segments reach the address as they are.\<close>

lemma preview_path_dots:
  "previewUrl (\<lambda>x. x) ''sb'' (preview_init (\<lambda>x. x) ''sb'' None (Some ''80'') (Some ''/../../../../api'')) =
     Some ''/s/sb/shared/80/../../../../api''"
  by (simp add: previewUrl_def preview_init_def portValid_def pv_port_of_def pv_path_of_def pv_scope_of_def digits_value_def
      is_digit_def startsWith_def Let_def)

end
