(* ===== verification/Server_Proxy.thy ===== *)
theory Server_Proxy
  imports Server_Auth Node_Paths Sandbox_Pages
begin

text \<open>
  The preview proxy and the resolution of a sandbox's endpoint: \<^verbatim>\<open>server/src/proxy.rs\<close> and \<^verbatim>\<open>server/src/endpoint.rs\<close>.  A
  request's URI has its path and query split (\<open>srv_request\<close>).  What happens on the connection to the daemon is an argument
  (\<open>upstream\<close>); the bytes of an upgraded connection are not modelled.  Which targets parse as a URI is a parameter of
  \<open>build_request\<close>.
\<close>

section \<open>The preview route\<close>

definition HOP_BY_HOP :: "string list" where
  "HOP_BY_HOP = [''connection'', ''keep-alive'', ''proxy-connection'', ''transfer-encoding'', ''te'', ''trailer'', ''upgrade'']"

record preview_policy =
  pr_prefix :: string
  pr_path :: string

record preview_route =
  pr_sandbox :: string
  pr_target :: string
  pr_policy :: preview_policy

text \<open>\<^verbatim>\<open>str::parse::<u16>\<close>: an optional plus sign and digits, without overflow.\<close>

definition parse_u16 :: "string \<Rightarrow> nat option" where
  "parse_u16 s = (let ds = (if startsWith s ''+'' then tl s else s) in
     if ds \<noteq> [] \<and> list_all is_digit ds \<and> digits_value ds < 65536 then Some (digits_value ds) else None)"

definition validate_scope :: "string \<Rightarrow> string + unit" where
  "validate_scope scope_rest =
     then_do (case strip_prefix ''shared/'' scope_rest of
        Some shared \<Rightarrow> Inr shared
      | None \<Rightarrow> (case strip_prefix ''isolated='' scope_rest of
          Some isolated \<Rightarrow> (case split_once (CHR ''/'') isolated of
              None \<Rightarrow> Inl ''invalid preview route''
            | Some (workspace_id, after) \<Rightarrow> if workspace_id = [] then Inl ''invalid preview route'' else Inr after)
        | None \<Rightarrow> Inl ''invalid preview route'')) (\<lambda>port_segment.
     check (case parse_u16 (hd (split_on (CHR ''/'') port_segment)) of None \<Rightarrow> False | Some port \<Rightarrow> 1 \<le> port) ''invalid preview port'')"

definition preview_parse :: "string \<Rightarrow> string option \<Rightarrow> string + preview_route" where
  "preview_parse path query =
     then_do (require (strip_prefix ''/s/'' path) ''invalid preview route'') (\<lambda>rest.
     then_do (require (split_once (CHR ''/'') rest) ''invalid preview route'') (\<lambda>(sandbox_id, scope_rest).
     then_do (check (sandbox_id \<noteq> []) ''invalid preview route'') (\<lambda>_.
     then_do (validate_scope scope_rest) (\<lambda>_.
     case split_on (CHR ''/'') scope_rest of
       scope # port # _ \<Rightarrow> Inr \<lparr>pr_sandbox = sandbox_id,
         pr_target = ''/forward/'' @ scope_rest @ (case query of None \<Rightarrow> [] | Some q \<Rightarrow> ''?'' @ q),
         pr_policy = \<lparr>pr_prefix = ''/s/'' @ sandbox_id @ ''/'' @ scope @ ''/'' @ port, pr_path = path\<rparr>\<rparr>
     | _ \<Rightarrow> Inl ''invalid preview route''))))"

section \<open>Headers\<close>

definition is_preview_request_header :: "string \<Rightarrow> bool" where
  "is_preview_request_header name =
     (name \<in> {''authorization'', ''cookie'', ''origin'', ''proxy-authorization'', ''referer''} \<or> startsWith name ''x-forwarded-'')"

definition is_hop_by_hop :: "string \<Rightarrow> bool" where
  "is_hop_by_hop name = (name \<in> set HOP_BY_HOP)"

definition is_upgrade :: "header_map \<Rightarrow> bool" where
  "is_upgrade hs = (headers_all ''upgrade'' hs \<noteq> [] \<and>
     (case Option.bind (header_get ''connection'' hs) header_text of None \<Rightarrow> False
      | Some v \<Rightarrow> \<exists>token \<in> set (split_on (CHR '','') v). ascii_lower (rust_trim token) = ''upgrade''))"

record outbound =
  ob_method :: string
  ob_uri :: string
  ob_headers :: header_map

definition build_request :: "(string \<Rightarrow> bool) \<Rightarrow> string \<Rightarrow> string \<Rightarrow> header_map \<Rightarrow> string option \<Rightarrow> bool \<Rightarrow> bool \<Rightarrow> outbound" where
  "build_request uri_ok m target src_headers peer upgrade preview =
     (let kept = filter (\<lambda>(name, _). (\<not> preview \<or> \<not> is_preview_request_header name) \<and> (upgrade \<or> \<not> is_hop_by_hop name)) src_headers
      in \<lparr>ob_method = m, ob_uri = (if uri_ok target then target else ''/''),
          ob_headers = (case peer of None \<Rightarrow> kept | Some ip \<Rightarrow> header_insert ''x-forwarded-for'' ip kept)\<rparr>)"

definition PREVIEW_CSP :: string where
  "PREVIEW_CSP = ''sandbox allow-scripts; default-src 'self'; base-uri 'self'; object-src 'none'; script-src 'self' 'unsafe-inline' 'unsafe-eval' blob:; style-src 'self' 'unsafe-inline'; img-src 'self' data: blob:; font-src 'self' data:; connect-src 'self'; media-src 'self' data: blob:; frame-src 'self'; worker-src 'self' blob:; frame-ancestors 'self'; form-action 'self'' @ [CHR 0x27]"

definition PREVIEW_PERMISSIONS_POLICY :: string where
  "PREVIEW_PERMISSIONS_POLICY = ''accelerometer=(), autoplay=(), camera=(), clipboard-read=(), clipboard-write=(), display-capture=(), geolocation=(), gyroscope=(), magnetometer=(), microphone=(), payment=(), picture-in-picture=(), usb=(), web-share=()''"

definition apply_preview_headers :: "header_map \<Rightarrow> header_map" where
  "apply_preview_headers hs =
     header_insert ''x-content-type-options'' ''nosniff'' (
     header_insert ''referrer-policy'' ''no-referrer'' (
     header_insert ''permissions-policy'' PREVIEW_PERMISSIONS_POLICY (
     header_remove ''service-worker-allowed'' (header_remove ''clear-site-data'' (header_remove ''set-cookie'' hs))
       @ [(''content-security-policy'', PREVIEW_CSP)])))"

section \<open>Redirects\<close>

definition redirect_refused :: "string \<Rightarrow> bool" where
  "redirect_refused location = (startsWith location ''//'' \<or> CHR 0x5C \<in> set location
     \<or> str_includes (ascii_lower location) ''%2e'' \<or> str_includes (ascii_lower location) ''%2f'' \<or> str_includes (ascii_lower location) ''%5c''
     \<or> (case split_once (CHR '':'') location of None \<Rightarrow> False
        | Some (scheme, _) \<Rightarrow> CHR ''/'' \<notin> set scheme \<and> CHR ''?'' \<notin> set scheme \<and> CHR ''#'' \<notin> set scheme))"

definition path_of_location :: "string \<Rightarrow> string" where
  "path_of_location location = takeWhile (\<lambda>c. c \<noteq> CHR ''?'' \<and> c \<noteq> CHR ''#'') location"

definition suffix_of_location :: "string \<Rightarrow> string" where
  "suffix_of_location location = dropWhile (\<lambda>c. c \<noteq> CHR ''?'' \<and> c \<noteq> CHR ''#'') location"

text \<open>The part before the last slash, nothing without one; and the segments of a path without its leading slashes.\<close>

definition parent_of :: "string \<Rightarrow> string" where
  "parent_of p = (if CHR ''/'' \<in> set p then rev (tl (dropWhile (\<lambda>c. c \<noteq> CHR ''/'') (rev p))) else [])"

definition trim_slashes :: "string \<Rightarrow> string" where
  "trim_slashes p = dropWhile (\<lambda>c. c = CHR ''/'') p"

definition path_segments :: "string \<Rightarrow> string list" where
  "path_segments p = filter (\<lambda>g. g \<noteq> []) (split_on (CHR ''/'') (trim_slashes p))"

fun redirect_segments :: "nat \<Rightarrow> string list \<Rightarrow> string list \<Rightarrow> string list option" where
  "redirect_segments min_segments segments [] = Some segments"
| "redirect_segments min_segments segments (g # gs) =
     (if g = [] \<or> g = ''.'' then redirect_segments min_segments segments gs
      else if g = ''..'' then (if min_segments < length segments then redirect_segments min_segments (butlast segments) gs else None)
      else redirect_segments min_segments (segments @ [g]) gs)"

text \<open>\<^verbatim>\<open>HeaderValue::from_str\<close>: no control characters but the tab.\<close>

definition header_value :: "string \<Rightarrow> string option" where
  "header_value v = (if \<forall>c \<in> set v. (of_char c :: nat) = 9 \<or> 32 \<le> (of_char c :: nat) \<and> (of_char c :: nat) \<noteq> 127 then Some v else None)"

definition preview_redirect_location :: "string \<Rightarrow> preview_policy \<Rightarrow> string option" where
  "preview_redirect_location location preview =
     (if redirect_refused location then None
      else let path = path_of_location location;
               min_segments = length (split_on (CHR ''/'') (trim_slashes (pr_prefix preview)));
               base = (if path = [] then pr_path preview else if startsWith path ''/'' then pr_prefix preview else parent_of (pr_path preview))
           in case redirect_segments min_segments (path_segments base) (split_on (CHR ''/'') path) of
                None \<Rightarrow> None
              | Some segments \<Rightarrow>
                  (let rewritten = ''/'' @ join ''/'' segments;
                       slashed = (if path \<noteq> [] \<and> last path = CHR ''/'' \<and> last rewritten \<noteq> CHR ''/'' then rewritten @ ''/'' else rewritten)
                   in header_value (slashed @ suffix_of_location location)))"

definition rewrite_preview_redirect :: "preview_policy \<Rightarrow> header_map \<Rightarrow> header_map option" where
  "rewrite_preview_redirect preview hs = (case header_get ''location'' hs of
     None \<Rightarrow> Some hs
   | Some v \<Rightarrow> (case Option.bind (header_text v) (\<lambda>location. preview_redirect_location location preview) of
        None \<Rightarrow> None | Some location \<Rightarrow> Some (header_insert ''location'' location hs)))"

definition relay_response :: "preview_policy option \<Rightarrow> srv_response \<Rightarrow> srv_response" where
  "relay_response preview upstream =
     (let hs = foldl (\<lambda>hs name. header_remove name hs) (srs_headers upstream) HOP_BY_HOP in
      case preview of
        None \<Rightarrow> upstream\<lparr>srs_headers := hs\<rparr>
      | Some policy \<Rightarrow> (case rewrite_preview_redirect policy hs of
          None \<Rightarrow> text_response 403 ''preview redirects must stay within the selected preview route''
        | Some hs' \<Rightarrow> upstream\<lparr>srs_headers := apply_preview_headers hs'\<rparr>))"

section \<open>Forwarding\<close>

datatype upstream = Connect_failed | Connect_timeout | Handshake_failed | Request_failed | Response_timeout | Upstream srv_response

text \<open>The request sent to the daemon, if the connection stands, and the answer to the browser.\<close>

definition forward_to_endpoint :: "(string \<Rightarrow> bool) \<Rightarrow> string \<Rightarrow> srv_request \<Rightarrow> string option \<Rightarrow> preview_policy option \<Rightarrow> upstream
    \<Rightarrow> outbound option \<times> srv_response" where
  "forward_to_endpoint uri_ok target req peer preview result =
     (let upgrade = is_upgrade (srq_headers req);
          sent = build_request uri_ok (srq_method req) target (srq_headers req) peer upgrade (preview \<noteq> None) in
      case result of
        Connect_failed \<Rightarrow> (None, text_response 502 ''daemon_http connection failed'')
      | Connect_timeout \<Rightarrow> (None, text_response 504 ''daemon_http timed out'')
      | Handshake_failed \<Rightarrow> (None, text_response 502 ''daemon_http handshake failed'')
      | Request_failed \<Rightarrow> (Some sent, text_response 502 ''daemon_http request failed'')
      | Response_timeout \<Rightarrow> (Some sent, text_response 504 ''daemon_http timed out'')
      | Upstream r \<Rightarrow> (Some sent,
          if upgrade \<and> srs_status r = 101
          then r\<lparr>srs_headers := (if preview = None then srs_headers r else apply_preview_headers (srs_headers r)), srs_body := []\<rparr>
          else relay_response preview r))"

section \<open>Endpoints\<close>

record http_endpoint =
  he_host :: string
  he_port :: nat

datatype resolve_error = UnknownSandbox string | NotReady string | Gateway_failed string

text \<open>\<^verbatim>\<open>error_response_with_details\<close> and the kind of an invalid request belong to the operation contract: parameters.\<close>

definition resolve_error_response :: "(string \<Rightarrow> string \<Rightarrow> json) \<Rightarrow> resolve_error \<Rightarrow> srv_response" where
  "resolve_error_response error_body e = (case e of
     UnknownSandbox i \<Rightarrow> json_response 404 (error_body ''unknown_sandbox'' (''unknown sandbox id: '' @ i))
   | NotReady i \<Rightarrow> json_response 503 (error_body ''sandbox_not_ready'' (''sandbox '' @ i @ '' has no daemon_http endpoint yet''))
   | Gateway_failed message \<Rightarrow> json_response 502 (error_body ''gateway_error'' message))"

definition str_or_empty :: "json option \<Rightarrow> string" where
  "str_or_empty v = (case v of Some (JStr s) \<Rightarrow> s | _ \<Rightarrow> [])"

definition endpoint_from_record :: "string \<Rightarrow> string \<Rightarrow> json \<Rightarrow> resolve_error + http_endpoint" where
  "endpoint_from_record invalid_request sandbox_id response = (case js_prop response ''error'' of
     Some err \<Rightarrow> (let kind = str_or_empty (js_prop err ''kind''); message = str_or_empty (js_prop err ''message'') in
       if kind = invalid_request \<and> str_includes message ''sandbox not found'' then Inl (UnknownSandbox sandbox_id)
       else Inl (Gateway_failed (''inspect_sandbox failed: '' @ message)))
   | None \<Rightarrow> (case js_prop response ''daemon_http'' of
        Some (JObj kvs) \<Rightarrow> (case (obj_get ''host'' kvs, obj_get ''port'' kvs) of
            (Some (JStr host), Some (JNum port)) \<Rightarrow>
              if host \<noteq> [] \<and> 1 \<le> port \<and> port < 65536 then Inr \<lparr>he_host = host, he_port = nat port\<rparr> else Inl (NotReady sandbox_id)
          | _ \<Rightarrow> Inl (NotReady sandbox_id))
      | _ \<Rightarrow> Inl (NotReady sandbox_id)))"

text \<open>The cache: entries with the time they were stored; \<open>now\<close> and the answer of the gateway are arguments.\<close>

type_synonym endpoint_cache = "(string \<times> int \<times> http_endpoint) list"

definition cache_get :: "int \<Rightarrow> int \<Rightarrow> string \<Rightarrow> endpoint_cache \<Rightarrow> http_endpoint option" where
  "cache_get ttl now i cache = (case map_of cache i of None \<Rightarrow> None
     | Some (stored_at, endpoint) \<Rightarrow> if ttl < now - stored_at then None else Some endpoint)"

definition resolve_endpoint :: "string \<Rightarrow> int \<Rightarrow> int \<Rightarrow> (string \<Rightarrow> string + json) \<Rightarrow> string \<Rightarrow> endpoint_cache
    \<Rightarrow> (resolve_error + http_endpoint) \<times> endpoint_cache" where
  "resolve_endpoint invalid_request ttl now inspect_sandbox i cache = (case cache_get ttl now i cache of
     Some endpoint \<Rightarrow> (Inr endpoint, cache)
   | None \<Rightarrow> (case inspect_sandbox i of
        Inl failure \<Rightarrow> (Inl (Gateway_failed failure), cache)
      | Inr response \<Rightarrow> (case endpoint_from_record invalid_request i response of
          Inl e \<Rightarrow> (Inl e, cache)
        | Inr endpoint \<Rightarrow> (Inr endpoint, map_set i (now, endpoint) cache))))"

definition proxy_handle :: "(string \<Rightarrow> string \<Rightarrow> json) \<Rightarrow> string \<Rightarrow> (string \<Rightarrow> bool) \<Rightarrow> int \<Rightarrow> int \<Rightarrow> (string \<Rightarrow> string + json)
    \<Rightarrow> (http_endpoint \<Rightarrow> outbound \<Rightarrow> upstream) \<Rightarrow> string option \<Rightarrow> srv_request \<Rightarrow> endpoint_cache \<Rightarrow> srv_response \<times> endpoint_cache" where
  "proxy_handle error_body invalid_request uri_ok ttl now inspect_sandbox connect peer req cache =
     (case preview_parse (srq_path req) (srq_query req) of
        Inl message \<Rightarrow> (text_response 400 message, cache)
      | Inr parsed \<Rightarrow> (case resolve_endpoint invalid_request ttl now inspect_sandbox (pr_sandbox parsed) cache of
          (Inl e, cache') \<Rightarrow> (resolve_error_response error_body e, cache')
        | (Inr endpoint, cache') \<Rightarrow>
            (let sent = build_request uri_ok (srq_method req) (pr_target parsed) (srq_headers req) peer (is_upgrade (srq_headers req)) True
             in (snd (forward_to_endpoint uri_ok (pr_target parsed) req peer (Some (pr_policy parsed)) (connect endpoint sent)), cache'))))"

section \<open>What crosses the preview boundary\<close>

lemma removed_all [simp]: "headers_all n (foldl (\<lambda>hs name. header_remove name hs) hs names) = (if n \<in> set names then [] else headers_all n hs)"
  by (induction names arbitrary: hs) auto

lemma preview_headers_all:
  "headers_all ''set-cookie'' (apply_preview_headers hs) = []" "headers_all ''clear-site-data'' (apply_preview_headers hs) = []"
  "headers_all ''service-worker-allowed'' (apply_preview_headers hs) = []"
  "PREVIEW_CSP \<in> set (headers_all ''content-security-policy'' (apply_preview_headers hs))"
  "headers_all ''permissions-policy'' (apply_preview_headers hs) = [PREVIEW_PERMISSIONS_POLICY]"
  "headers_all ''referrer-policy'' (apply_preview_headers hs) = [''no-referrer'']"
  "headers_all ''location'' (apply_preview_headers hs) = headers_all ''location'' hs"
  by (simp_all add: apply_preview_headers_def headers_all_Cons)

definition shielded :: "srv_response \<Rightarrow> bool" where
  "shielded r = (headers_all ''set-cookie'' (srs_headers r) = [] \<and> headers_all ''clear-site-data'' (srs_headers r) = []
     \<and> headers_all ''service-worker-allowed'' (srs_headers r) = []
     \<and> PREVIEW_CSP \<in> set (headers_all ''content-security-policy'' (srs_headers r))
     \<and> headers_all ''permissions-policy'' (srs_headers r) = [PREVIEW_PERMISSIONS_POLICY]
     \<and> headers_all ''referrer-policy'' (srs_headers r) = [''no-referrer''])"

lemma shielded_headers: "srs_headers r = apply_preview_headers hs \<Longrightarrow> shielded r"
  by (simp add: shielded_def preview_headers_all)

lemma relayed_shielded:
  "shielded (relay_response (Some policy) u) \<or>
    relay_response (Some policy) u = text_response 403 ''preview redirects must stay within the selected preview route''"
  by (auto simp: relay_response_def Let_def intro: shielded_headers split: option.splits)

text \<open>
  C38: A preview shares nothing with the console.  The request a preview sends on to the sandbox carries no credential, origin or
  referrer of the browser and no forwarding header but the server's own; every other end-to-end header is passed on; and a
  response of the sandbox reaches the browser only without cookies, site-data and worker headers and with the policies that
  make its origin opaque, or not at all.
\<close>

theorem preview_boundary:
  "let (sent, answer) = forward_to_endpoint uri_ok target req peer (Some policy) (Upstream u) in
    (\<exists>out. sent = Some out
      \<and> (\<forall>(n, v) \<in> set (ob_headers out). n \<notin> {''authorization'', ''cookie'', ''origin'', ''proxy-authorization'', ''referer''}
          \<and> (startsWith n ''x-forwarded-'' \<longrightarrow> n = ''x-forwarded-for'' \<and> peer = Some v)
          \<and> (\<not> is_upgrade (srq_headers req) \<longrightarrow> \<not> is_hop_by_hop n))
      \<and> (\<forall>(n, v) \<in> set (srq_headers req). \<not> is_preview_request_header n \<and> \<not> is_hop_by_hop n \<longrightarrow> (n, v) \<in> set (ob_headers out)))
    \<and> (shielded answer \<or> answer = text_response 403 ''preview redirects must stay within the selected preview route'')"
proof -
  have hop: "\<not> is_hop_by_hop ''x-forwarded-for''" by (simp add: is_hop_by_hop_def HOP_BY_HOP_def)
  have xff: "is_preview_request_header ''x-forwarded-for''" by (simp add: is_preview_request_header_def startsWith_def)
  let ?out = "build_request uri_ok (srq_method req) target (srq_headers req) peer (is_upgrade (srq_headers req)) True"
  have "\<forall>(n, v) \<in> set (ob_headers ?out). n \<notin> {''authorization'', ''cookie'', ''origin'', ''proxy-authorization'', ''referer''}
          \<and> (startsWith n ''x-forwarded-'' \<longrightarrow> n = ''x-forwarded-for'' \<and> peer = Some v)
          \<and> (\<not> is_upgrade (srq_headers req) \<longrightarrow> \<not> is_hop_by_hop n)"
    using hop by (auto simp: build_request_def Let_def header_insert_def header_remove_def is_preview_request_header_def split: option.splits)
  moreover have "\<forall>(n, v) \<in> set (srq_headers req). \<not> is_preview_request_header n \<and> \<not> is_hop_by_hop n \<longrightarrow> (n, v) \<in> set (ob_headers ?out)"
    using xff by (auto simp: build_request_def Let_def header_insert_def header_remove_def split: option.splits)
  moreover have "shielded (u\<lparr>srs_headers := apply_preview_headers (srs_headers u), srs_body := []\<rparr>)" by (rule shielded_headers) simp
  ultimately show ?thesis using relayed_shielded [of policy u] by (simp add: forward_to_endpoint_def Let_def)
qed

theorem preview_boundary_witness:
  "let (sent, answer) = forward_to_endpoint (\<lambda>_. True) ''/forward/shared/80/'' \<lparr>srq_method = ''GET'', srq_path = ''/s/a/shared/80/'', srq_query = None,
       srq_headers = [(''cookie'', ''secret''), (''accept'', ''x'')], srq_body = None\<rparr> (Some ''127.0.0.1'')
       (Some \<lparr>pr_prefix = ''/s/a/shared/80'', pr_path = ''/s/a/shared/80/''\<rparr>) (Upstream (text_response 200 [])) in
    (\<exists>out. sent = Some out \<and> (''accept'', ''x'') \<in> set (ob_headers out) \<and> headers_all ''cookie'' (ob_headers out) = [])"
proof -
  let ?req = "\<lparr>srq_method = ''GET'', srq_path = ''/s/a/shared/80/'', srq_query = None,
       srq_headers = [(''cookie'', ''secret''), (''accept'', ''x'')], srq_body = None\<rparr>"
  have "\<not> is_preview_request_header ''accept''" "\<not> is_hop_by_hop ''accept''"
    by (simp_all add: is_preview_request_header_def is_hop_by_hop_def HOP_BY_HOP_def startsWith_def)
  moreover have "headers_all n hs = []" if "\<forall>(m, v) \<in> set hs. m \<noteq> n" for n hs
    using that by (auto simp: headers_all_def filter_empty_conv)
  moreover obtain out where "fst (forward_to_endpoint (\<lambda>_. True) ''/forward/shared/80/'' ?req (Some ''127.0.0.1'')
      (Some \<lparr>pr_prefix = ''/s/a/shared/80'', pr_path = ''/s/a/shared/80/''\<rparr>) (Upstream (text_response 200 []))) = Some out"
      "\<forall>(n, v) \<in> set (ob_headers out). n \<noteq> ''cookie''"
      "\<forall>(n, v) \<in> set (srq_headers ?req). \<not> is_preview_request_header n \<and> \<not> is_hop_by_hop n \<longrightarrow> (n, v) \<in> set (ob_headers out)"
    using preview_boundary [of "\<lambda>_. True" "''/forward/shared/80/''" ?req "Some ''127.0.0.1''"
        "\<lparr>pr_prefix = ''/s/a/shared/80'', pr_path = ''/s/a/shared/80/''\<rparr>" "text_response 200 []"]
    by (auto simp: case_prod_beta simp del: srv_request.simps)
  ultimately show ?thesis by (auto simp: case_prod_beta)
qed

section \<open>Redirects stay below the route\<close>

definition plain_path :: "string \<Rightarrow> bool" where
  "plain_path p = (\<forall>g \<in> set (split_on (CHR ''/'') p). g \<noteq> ''.'' \<and> g \<noteq> ''..'')"

lemma redirect_segments_below:
  "redirect_segments (length P) (P @ Q) gs = Some segs \<Longrightarrow> \<forall>g \<in> set Q. segment_ok g \<Longrightarrow> \<forall>g \<in> set gs. CHR ''/'' \<notin> set g
    \<Longrightarrow> \<exists>R. segs = P @ R \<and> (\<forall>g \<in> set R. segment_ok g)"
proof (induction gs arbitrary: Q)
  case (Cons g gs)
  consider "g = [] \<or> g = ''.''" | "g = ''..''" | "segment_ok g" using Cons.prems(3) by (auto simp: segment_ok_def)
  then show ?case
  proof cases
    case 1
    then show ?thesis using Cons.prems Cons.IH [of Q] by auto
  next
    case 2
    then have "Q \<noteq> []" "redirect_segments (length P) (P @ butlast Q) gs = Some segs"
      using Cons.prems(1) by (auto simp: butlast_append split: if_splits)
    then show ?thesis using Cons.prems(2,3) Cons.IH [of "butlast Q"] by (auto dest: in_set_butlastD)
  next
    case 3
    then have "redirect_segments (length P) (P @ (Q @ [g])) gs = Some segs" using Cons.prems(1) by (auto simp: segment_ok_def)
    then show ?thesis using Cons.prems(2,3) Cons.IH [of "Q @ [g]"] 3 by auto
  qed
qed auto

lemma split_on_at: "split_on d (a @ d # b) = split_on d a @ split_on d b"
proof (induction a)
  case (Cons c a)
  then show ?case by (cases "split_on d a") auto
qed simp

lemma trim_slash [simp]: "trim_slashes (CHR ''/'' # p) = trim_slashes p"
  by (simp add: trim_slashes_def)

lemma trim_slashes_segs: "segs \<noteq> [] \<Longrightarrow> \<forall>g \<in> set segs. segment_ok g \<Longrightarrow> trim_slashes (join ''/'' segs @ r) = join ''/'' segs @ r"
proof -
  assume segs: "segs \<noteq> []" "\<forall>g \<in> set segs. segment_ok g"
  then obtain g gs where gs: "segs = g # gs" by (cases segs) auto
  with segs(2) obtain c cs where "g = c # cs" "c \<noteq> CHR ''/''" by (cases g) (auto simp: segment_ok_def)
  then show ?thesis by (simp add: gs trim_slashes_def join_Cons_head)
qed

lemma split_join_ok: "segs \<noteq> [] \<Longrightarrow> \<forall>g \<in> set segs. segment_ok g \<Longrightarrow> split_on (CHR ''/'') (join ''/'' segs) = segs"
  by (rule split_on_join) (auto simp: segment_ok_def)

lemma path_segments_prefix:
  assumes "segs \<noteq> []" "\<forall>g \<in> set segs. segment_ok g" "plain_path r"
  obtains Q where "path_segments (''/'' @ join ''/'' segs @ ''/'' @ r) = segs @ Q" "\<forall>g \<in> set Q. segment_ok g"
proof -
  have "split_on (CHR ''/'') (join ''/'' segs @ CHR ''/'' # r) = segs @ split_on (CHR ''/'') r"
    using split_join_ok [OF assms(1,2)] by (simp add: split_on_at)
  moreover have "filter (\<lambda>g. g \<noteq> []) segs = segs" using assms(2) by (auto simp: filter_id_conv segment_ok_def)
  ultimately have "path_segments (''/'' @ join ''/'' segs @ ''/'' @ r) = segs @ filter (\<lambda>g. g \<noteq> []) (split_on (CHR ''/'') r)"
    using trim_slashes_segs [OF assms(1,2), of "CHR ''/'' # r"] by (simp add: path_segments_def)
  moreover have "\<forall>g \<in> set (filter (\<lambda>g. g \<noteq> []) (split_on (CHR ''/'') r)). segment_ok g"
    using assms(3) by (auto simp: plain_path_def segment_ok_def dest: split_on_pieces)
  ultimately show thesis by (rule that)
qed

lemma path_segments_plain: "segs \<noteq> [] \<Longrightarrow> \<forall>g \<in> set segs. segment_ok g \<Longrightarrow> path_segments (''/'' @ join ''/'' segs) = segs"
  using trim_slashes_segs [of segs "[]"] split_join_ok [of segs]
  by (auto simp: path_segments_def filter_id_conv segment_ok_def)

lemma split_once_no_sep: "split_once c s = Some (a, b) \<Longrightarrow> c \<notin> set a"
  by (auto simp: split_once_def dest: set_takeWhileD split: if_splits)

lemma parse_u16_nonempty: "parse_u16 p = Some n \<Longrightarrow> p \<noteq> []"
  by (auto simp: parse_u16_def Let_def startsWith_def split: if_splits)

lemma validate_scope_split:
  assumes "validate_scope scope_rest = Inr u"
  obtains scope port rest where "split_on (CHR ''/'') scope_rest = scope # port # rest" "scope \<noteq> []" "port \<noteq> []"
proof -
  from assms obtain seg where m: "(case strip_prefix ''shared/'' scope_rest of
        Some shared \<Rightarrow> Inr shared
      | None \<Rightarrow> (case strip_prefix ''isolated='' scope_rest of
          Some isolated \<Rightarrow> (case split_once (CHR ''/'') isolated of
              None \<Rightarrow> Inl ''invalid preview route''
            | Some (workspace_id, after) \<Rightarrow> if workspace_id = [] then Inl ''invalid preview route'' else Inr after)
        | None \<Rightarrow> Inl ''invalid preview route'')) = Inr seg"
    and seg: "(case parse_u16 (hd (split_on (CHR ''/'') seg)) of None \<Rightarrow> False | Some port \<Rightarrow> 1 \<le> port)"
    unfolding validate_scope_def then_do_iff check_iff by blast
  from m have cases: "strip_prefix ''shared/'' scope_rest = Some seg \<or>
      (\<exists>isolated w. strip_prefix ''isolated='' scope_rest = Some isolated \<and> split_once (CHR ''/'') isolated = Some (w, seg))"
    by (auto split: option.splits if_splits)
  have port: "hd (split_on (CHR ''/'') seg) \<noteq> []" using seg parse_u16_nonempty by (auto split: option.splits)
  obtain p rest where p: "split_on (CHR ''/'') seg = p # rest" using split_on_neq_Nil by (metis list.exhaust)
  from cases show thesis
  proof
    assume "strip_prefix ''shared/'' scope_rest = Some seg"
    then have "scope_rest = ''shared'' @ CHR ''/'' # seg" by (simp add: strip_prefix_iff)
    then have "split_on (CHR ''/'') scope_rest = ''shared'' # p # rest" using p by (simp add: split_on_at split_on_no_sep)
    with port p show thesis by (intro that [of "''shared''" p rest]) auto
  next
    assume "\<exists>isolated w. strip_prefix ''isolated='' scope_rest = Some isolated \<and> split_once (CHR ''/'') isolated = Some (w, seg)"
    then obtain isolated w where i: "scope_rest = ''isolated='' @ isolated" "split_once (CHR ''/'') isolated = Some (w, seg)"
      unfolding strip_prefix_iff by blast
    have w: "scope_rest = (''isolated='' @ w) @ CHR ''/'' # seg" "CHR ''/'' \<notin> set w"
      using i(1) split_once_SomeD [OF i(2)] split_once_no_sep [OF i(2)] by simp_all
    then have "split_on (CHR ''/'') scope_rest = (''isolated='' @ w) # p # rest"
      using p by (simp only: split_on_at) (simp add: split_on_no_sep)
    with port p show thesis by (intro that [of "''isolated='' @ w" p rest]) auto
  qed
qed

lemma preview_parseE:
  assumes "preview_parse path query = Inr r"
  obtains i scope_rest where "path = ''/s/'' @ i @ CHR ''/'' # scope_rest" "CHR ''/'' \<notin> set i" "i \<noteq> []" "validate_scope scope_rest = Inr ()"
    "(case split_on (CHR ''/'') scope_rest of scope # port # _ \<Rightarrow> Inr \<lparr>pr_sandbox = i,
         pr_target = ''/forward/'' @ scope_rest @ (case query of None \<Rightarrow> [] | Some q \<Rightarrow> ''?'' @ q),
         pr_policy = \<lparr>pr_prefix = ''/s/'' @ i @ ''/'' @ scope @ ''/'' @ port, pr_path = path\<rparr>\<rparr>
     | _ \<Rightarrow> Inl ''invalid preview route'') = Inr r"
proof -
  from assms obtain rest sr where rest: "strip_prefix ''/s/'' path = Some rest" "split_once (CHR ''/'') rest = Some sr"
    and steps: "(case sr of (sandbox_id, scope_rest) \<Rightarrow> then_do (check (sandbox_id \<noteq> []) ''invalid preview route'') (\<lambda>_.
     then_do (validate_scope scope_rest) (\<lambda>_.
     case split_on (CHR ''/'') scope_rest of
       scope # port # _ \<Rightarrow> Inr \<lparr>pr_sandbox = sandbox_id,
         pr_target = ''/forward/'' @ scope_rest @ (case query of None \<Rightarrow> [] | Some q \<Rightarrow> ''?'' @ q),
         pr_policy = \<lparr>pr_prefix = ''/s/'' @ sandbox_id @ ''/'' @ scope @ ''/'' @ port, pr_path = path\<rparr>\<rparr>
     | _ \<Rightarrow> Inl ''invalid preview route''))) = Inr r"
    unfolding preview_parse_def then_do_iff [of "require m e" for m e] require_iff by blast
  obtain i scope_rest where sr: "sr = (i, scope_rest)" by fastforce
  have "path = ''/s/'' @ i @ CHR ''/'' # scope_rest" "CHR ''/'' \<notin> set i"
    using rest sr split_once_SomeD split_once_no_sep by (auto simp: strip_prefix_iff)
  with steps show thesis unfolding sr prod.case then_do_iff check_iff by (auto intro: that)
qed

lemma preview_parse_split:
  assumes "preview_parse path query = Inr r"
  obtains i scope port rest where "split_on (CHR ''/'') path = [[], ''s'', i, scope, port] @ rest" "i \<noteq> []" "scope \<noteq> []" "port \<noteq> []"
    "pr_sandbox r = i" "pr_prefix (pr_policy r) = ''/'' @ join ''/'' [''s'', i, scope, port]" "pr_path (pr_policy r) = path"
proof -
  from assms obtain i scope_rest where p: "path = ''/s/'' @ i @ CHR ''/'' # scope_rest" "CHR ''/'' \<notin> set i" "i \<noteq> []" "validate_scope scope_rest = Inr ()"
    and r: "(case split_on (CHR ''/'') scope_rest of scope # port # _ \<Rightarrow> Inr \<lparr>pr_sandbox = i,
         pr_target = ''/forward/'' @ scope_rest @ (case query of None \<Rightarrow> [] | Some q \<Rightarrow> ''?'' @ q),
         pr_policy = \<lparr>pr_prefix = ''/s/'' @ i @ ''/'' @ scope @ ''/'' @ port, pr_path = path\<rparr>\<rparr>
     | _ \<Rightarrow> Inl ''invalid preview route'') = Inr r"
    by (rule preview_parseE)
  obtain scope port rest where s: "split_on (CHR ''/'') scope_rest = scope # port # rest" "scope \<noteq> []" "port \<noteq> []"
    using p(4) by (rule validate_scope_split)
  have "split_on (CHR ''/'') path = [[], ''s'', i, scope, port] @ rest"
    using s(1) p(2) by (simp add: p(1) split_on_at split_on_no_sep)
  with s p(3) r show thesis by (intro that [of i scope port rest]) auto
qed

lemma join_append: "xs \<noteq> [] \<Longrightarrow> ys \<noteq> [] \<Longrightarrow> join d (xs @ ys) = join d xs @ d @ join d ys"
  by (induction xs rule: induct_list012) (simp_all add: join_Cons)

lemma join_slashes: "segs \<noteq> [] \<Longrightarrow> ''/'' @ join ''/'' segs = concat (map (\<lambda>g. CHR ''/'' # g) segs)"
  by (induction segs rule: induct_list012) auto

text \<open>The base of a relative reference: what stands before the last slash of a path below the prefix.\<close>

lemma parent_below:
  "\<exists>q. parent_of (p @ CHR ''/'' # r) = p @ q \<and> (q = [] \<or> (\<exists>r'. q = CHR ''/'' # r' \<and> set (split_on (CHR ''/'') r') \<subseteq> set (split_on (CHR ''/'') r)))"
proof (cases "CHR ''/'' \<in> set r")
  case False
  then have "dropWhile (\<lambda>c. c \<noteq> CHR ''/'') (rev r @ CHR ''/'' # rev p) = CHR ''/'' # rev p" by (subst dropWhile_append2) auto
  then show ?thesis by (simp add: parent_of_def)
next
  case True
  then obtain x y where r: "r = x @ CHR ''/'' # y" "CHR ''/'' \<notin> set y" using split_list_last by fastforce
  then have "dropWhile (\<lambda>c. c \<noteq> CHR ''/'') (rev y @ CHR ''/'' # rev x @ CHR ''/'' # rev p) = CHR ''/'' # rev x @ CHR ''/'' # rev p"
    by (subst dropWhile_append2) auto
  then have "parent_of (p @ CHR ''/'' # r) = p @ CHR ''/'' # x" by (simp add: parent_of_def r(1))
  moreover have "set (split_on (CHR ''/'') x) \<subseteq> set (split_on (CHR ''/'') r)" by (simp add: r(1) split_on_at)
  ultimately show ?thesis by blast
qed

lemma redirect_base_segments:
  assumes "segs \<noteq> []" "\<forall>g \<in> set segs. segment_ok g" "plain_path r"
    and "base = ''/'' @ join ''/'' segs \<or> base = ''/'' @ join ''/'' segs @ ''/'' @ r \<or> base = parent_of (''/'' @ join ''/'' segs @ ''/'' @ r)"
  obtains Q where "path_segments base = segs @ Q" "\<forall>g \<in> set Q. segment_ok g"
proof -
  obtain q where q: "parent_of (''/'' @ join ''/'' segs @ ''/'' @ r) = (''/'' @ join ''/'' segs) @ q"
    "q = [] \<or> (\<exists>r'. q = CHR ''/'' # r' \<and> set (split_on (CHR ''/'') r') \<subseteq> set (split_on (CHR ''/'') r))"
    using parent_below [of "''/'' @ join ''/'' segs" r] by auto
  from assms(4) q consider "base = ''/'' @ join ''/'' segs" | r' where "base = ''/'' @ join ''/'' segs @ ''/'' @ r'" "plain_path r'"
    using assms(3) by (auto simp: plain_path_def)
  then show thesis
  proof cases
    case 1
    with path_segments_plain [OF assms(1,2)] show thesis by (intro that [of "[]"]) simp_all
  next
    case 2
    obtain Q where "path_segments (''/'' @ join ''/'' segs @ ''/'' @ r') = segs @ Q" "\<forall>g \<in> set Q. segment_ok g"
      using path_segments_prefix [OF assms(1,2) 2(2)] by blast
    with 2(1) show thesis by (intro that) simp_all
  qed
qed


lemma preview_parse_sample:
  "preview_parse ''/s/a/shared/80/x'' None = Inr \<lparr>pr_sandbox = ''a'', pr_target = ''/forward/shared/80/x'',
     pr_policy = \<lparr>pr_prefix = ''/s/a/shared/80'', pr_path = ''/s/a/shared/80/x''\<rparr>\<rparr>"
  "preview_parse ''/s/a/shared/80'' None = Inr \<lparr>pr_sandbox = ''a'', pr_target = ''/forward/shared/80'',
     pr_policy = \<lparr>pr_prefix = ''/s/a/shared/80'', pr_path = ''/s/a/shared/80''\<rparr>\<rparr>"
  by (simp_all add: preview_parse_def strip_prefix_def startsWith_def split_once_def validate_scope_def parse_u16_def is_digit_def digits_value_def)


text \<open>
  Without anything below the port the last segment that is dropped is the port itself: a relative location then leads to any other
  port of the sandbox, outside the selected route.
\<close>

lemma preview_redirect_leaves_port:
  "\<exists>parsed. preview_parse ''/s/a/shared/80'' None = Inr parsed \<and> pr_prefix (pr_policy parsed) = ''/s/a/shared/80''
    \<and> preview_redirect_location ''81/'' (pr_policy parsed) = Some ''/s/a/shared/81/''"
  unfolding preview_parse_sample
  by (simp add: preview_redirect_location_def redirect_refused_def startsWith_def ascii_lower_def split_once_def path_of_location_def
        suffix_of_location_def parent_of_def trim_slashes_def path_segments_def header_value_def)

section \<open>The console's own preview addresses\<close>

lemma split_once_at: "c \<notin> set a \<Longrightarrow> split_once c (a @ c # b) = Some (a, b)"
  by (induction a) (auto simp: split_once_def)

lemma digits_plain: "list_all is_digit p \<Longrightarrow> CHR ''/'' \<notin> set p \<and> CHR ''?'' \<notin> set p \<and> CHR ''#'' \<notin> set p \<and> CHR ''+'' \<notin> set p"
  by (auto simp: list_all_iff is_digit_def)

definition url_plain :: "string \<Rightarrow> bool" where
  "url_plain s = (s \<noteq> [] \<and> CHR ''/'' \<notin> set s \<and> CHR ''?'' \<notin> set s \<and> CHR ''#'' \<notin> set s)"



end
