(* ===== verification/Server_Rpc.thy ===== *)
theory Server_Rpc
  imports Server_Http Server_Registry Rpc
begin

text \<open>
  The server side of \<^verbatim>\<open>/api/rpc\<close>: \<^verbatim>\<open>server/src/rpc.rs\<close> for single answers (its event writer is in \<^verbatim>\<open>Rpc\<close>).  What belongs
  to the operation contract and its client is the record \<open>contract\<close>: the size limit, the scopes' decoder, the public routes, the
  shape of an error body, the parser's messages, a fresh request id and the gateway itself.
\<close>

section \<open>Requests\<close>

record operation_request =
  op_name :: string
  op_request_id :: string
  op_scope :: Scope
  op_args :: json

datatype gateway_result = Gw_answer json | Gw_failure string string | Gw_timeout

record contract =
  ct_max_bytes :: nat
  ct_scope :: "json \<Rightarrow> string + Scope"
  ct_public :: "string \<Rightarrow> Scope \<Rightarrow> bool"
  ct_error_body :: "string \<Rightarrow> string \<Rightarrow> json"
  ct_serde_error :: "string \<Rightarrow> string"
  ct_uuid :: string
  ct_gateway :: "operation_request \<Rightarrow> gateway_result"

definition transport_error :: "contract \<Rightarrow> nat \<Rightarrow> string \<Rightarrow> string \<Rightarrow> srv_response" where
  "transport_error c status kind message = json_response status (ct_error_body c kind message)"

definition scope_blank :: "Scope \<Rightarrow> bool" where
  "scope_blank s = (case s of System \<Rightarrow> False | Sandbox i \<Rightarrow> rust_trim i = [])"

definition request_from_value :: "contract \<Rightarrow> json \<Rightarrow> string + operation_request" where
  "request_from_value c v = (case v of
     JObj obj \<Rightarrow>
       then_do (case obj_get ''op'' obj of Some (JStr p) \<Rightarrow> if rust_trim p \<noteq> [] then Inr p else Inl ''op is required and must be a non-empty string''
         | _ \<Rightarrow> Inl ''op is required and must be a non-empty string'') (\<lambda>p.
       then_do (case obj_get ''scope'' obj of None \<Rightarrow> Inl ''scope is required''
         | Some s \<Rightarrow> (case ct_scope c s of Inl e \<Rightarrow> Inl (''scope is invalid: '' @ e) | Inr s' \<Rightarrow> Inr s')) (\<lambda>s.
       then_do (check (\<not> scope_blank s) ''scope sandbox_id must be non-empty'') (\<lambda>_.
       then_do (case obj_get ''args'' obj of Some (JObj a) \<Rightarrow> Inr (JObj a) | Some _ \<Rightarrow> Inl ''args must be an object'' | None \<Rightarrow> Inr (JObj [])) (\<lambda>args.
       then_do (case obj_get ''request_id'' obj of
           Some (JStr i) \<Rightarrow> if rust_trim i \<noteq> [] then Inr i else Inl ''request_id must be a non-empty string''
         | Some _ \<Rightarrow> Inl ''request_id must be a non-empty string'' | None \<Rightarrow> Inr (ct_uuid c)) (\<lambda>i.
       Inr \<lparr>op_name = p, op_request_id = i, op_scope = s, op_args = args\<rparr>)))))
   | _ \<Rightarrow> Inl ''request body must be a json object'')"

definition validate_route :: "contract \<Rightarrow> operation_request \<Rightarrow> string + unit" where
  "validate_route c r = check (ct_public c (op_name r) (op_scope r)) (''operation is not available through the console: '' @ op_name r)"

definition read_request :: "contract \<Rightarrow> srv_request \<Rightarrow> srv_response + operation_request" where
  "read_request c req = (case srq_body req of
     None \<Rightarrow> Inl (transport_error c 400 ''request_too_large'' ''request body exceeded the protocol size limit'')
   | Some bytes \<Rightarrow>
       if ct_max_bytes c < length bytes then Inl (transport_error c 400 ''request_too_large'' ''request body exceeded the protocol size limit'')
       else then_do (require (JSON_parse bytes) (transport_error c 400 ''bad_json'' (''request body is not valid json: '' @ ct_serde_error c bytes))) (\<lambda>v.
         then_do (map_sum (transport_error c 400 ''invalid_request'') id (request_from_value c v)) (\<lambda>r.
         then_do (map_sum (transport_error c 400 ''invalid_request'') id (validate_route c r)) (\<lambda>_. Inr r))))"

definition one_shot :: "contract \<Rightarrow> operation_request \<Rightarrow> srv_response" where
  "one_shot c r = (case ct_gateway c r of
     Gw_answer body \<Rightarrow> json_response 200 body
   | Gw_failure kind message \<Rightarrow> transport_error c 502 kind message
   | Gw_timeout \<Rightarrow> transport_error c 504 ''gateway_timeout'' ''gateway did not answer within the rpc timeout'')"

definition event_stream_part :: "string \<Rightarrow> bool" where
  "event_stream_part part = startsWith (rust_trim part) ''text/event-stream''"

definition accepts_event_stream :: "header_map \<Rightarrow> bool" where
  "accepts_event_stream hs = (case Option.bind (header_get ''accept'' hs) header_text of None \<Rightarrow> False
     | Some v \<Rightarrow> \<exists>part \<in> set (split_on (CHR '','') v). event_stream_part part)"

text \<open>The answer, unless the request asks for a stream (\<^term>\<open>None\<close>).\<close>

definition rpc_handle :: "contract \<Rightarrow> srv_request \<Rightarrow> srv_response option" where
  "rpc_handle c req = (case read_request c req of
     Inl answer \<Rightarrow> Some answer
   | Inr r \<Rightarrow> if accepts_event_stream (srq_headers req) then None else Some (one_shot c r))"

section \<open>The browser's request on the server\<close>

definition arrives :: "http_request \<Rightarrow> srv_request" where
  "arrives q = \<lparr>srq_method = rq_method q, srq_path = rq_url q, srq_query = None, srq_headers = rq_headers q, srq_body = Some (rq_body q)\<rparr>"

definition served :: "contract \<Rightarrow> http_request \<Rightarrow> fetch_outcome" where
  "served c q = (case rpc_handle c (arrives q) of Some r \<Rightarrow> Responded (received r) | None \<Rightarrow> FetchFails [])"

text \<open>What the code relies on of the contract: scopes decode to what the browser encodes, and an error body names kind and message.\<close>

definition contract_ok :: "contract \<Rightarrow> bool" where
  "contract_ok c = ((\<forall>s. ct_scope c (scope_json s) = Inr s)
     \<and> (\<forall>k m. ct_error_body c k m = JObj [(''error'', JObj [(''kind'', JStr k), (''message'', JStr m), (''details'', JObj [])])]))"

lemma rpc_request_read:
  assumes "contract_ok c" "rust_trim p \<noteq> []" "\<not> scope_blank s" "\<forall>kv \<in> set args. json_plain (snd kv)"
    and "length (rq_body (rpc_request p s args stream)) \<le> ct_max_bytes c"
  shows "read_request c (arrives (rpc_request p s args stream)) =
    (if ct_public c p s then Inr \<lparr>op_name = p, op_request_id = ct_uuid c, op_scope = s, op_args = JObj args\<rparr>
     else Inl (transport_error c 400 ''invalid_request'' (''operation is not available through the console: '' @ p)))"
proof -
  let ?v = "JObj [(''op'', JStr p), (''scope'', scope_json s), (''args'', JObj args)]"
  have "json_plain ?v" using assms(4) by (cases s) auto
  then have "JSON_parse (JSON_stringify ?v) = Some ?v" by (rule JSON_roundtrip)
  moreover have "request_from_value c ?v = Inr \<lparr>op_name = p, op_request_id = ct_uuid c, op_scope = s, op_args = JObj args\<rparr>"
    using assms(1-3) by (simp add: request_from_value_def obj_get_def contract_ok_def)
  ultimately show ?thesis
    using assms(5) by (simp add: read_request_def arrives_def rpc_request_def validate_route_def check_def del: JSON_stringify.simps)
qed

lemma error_body_roundtrip:
  "contract_ok c \<Longrightarrow> JSON_parse (JSON_stringify (ct_error_body c k m)) = Some (ct_error_body c k m)"
  by (rule JSON_roundtrip) (simp add: contract_ok_def)

lemma settled_error:
  assumes "contract_ok c" "st \<notin> {200..299}"
  shows "settle (Responded (received (transport_error c st k m)))
    = Inl \<lparr>err_message = m, err_kind = JStr k, err_details = JObj [], err_transport = True, err_status = Some st\<rparr>"
proof -
  have "rsp_json (received (transport_error c st k m)) = ct_error_body c k m"
    using error_body_roundtrip [OF assms(1)] by (simp add: received_def rsp_json_def transport_error_def del: JSON_stringify.simps)
  moreover have "\<not> rsp_ok (received (transport_error c st k m))"
    using assms(2) by (simp add: rsp_ok_def received_def transport_error_def)
  moreover have "rsp_status (received (transport_error c st k m)) = st" by (simp add: received_def transport_error_def)
  ultimately show ?thesis
    using assms(1) by (simp add: settle_def Let_def status_error_def contract_ok_def obj_get_def opt_prop_def nullish_def new_RpcError_def)
qed

lemma settled_answer:
  assumes "json_plain body"
  shows "settle (Responded (received (json_response 200 body))) = (if has_error body then Inl (protocolError body) else Inr body)"
  using JSON_roundtrip [OF assms] by (simp add: settle_def received_def rsp_json_def rsp_ok_def Let_def del: JSON_stringify.simps)

section \<open>Property\<close>

text \<open>
  C34: A call passes through unchanged.  For a public operation in a proper scope the gateway is asked for exactly the operation,
  scope and arguments of the call, and the call returns its answer: the value, the protocol error the body reports, or a
  transport error with the gateway's own kind, message and status; an operation that is not public is refused with status 400
  and the gateway is not asked.
\<close>

theorem rpc_end_to_end:
  assumes "contract_ok c" "rust_trim p \<noteq> []" "\<not> scope_blank s" "\<forall>kv \<in> set args. json_plain (snd kv)"
    and "length (rq_body (rpc_request p s args False)) \<le> ct_max_bytes c"
    and "\<forall>r body. ct_gateway c r = Gw_answer body \<longrightarrow> json_plain body"
  shows "rpc (served c) p s args =
    (if \<not> ct_public c p s
     then Inl \<lparr>err_message = ''operation is not available through the console: '' @ p, err_kind = JStr ''invalid_request'', err_details = JObj [],
       err_transport = True, err_status = Some 400\<rparr>
     else case ct_gateway c \<lparr>op_name = p, op_request_id = ct_uuid c, op_scope = s, op_args = JObj args\<rparr> of
       Gw_answer body \<Rightarrow> if has_error body then Inl (protocolError body) else Inr body
     | Gw_failure kind message \<Rightarrow> Inl \<lparr>err_message = message, err_kind = JStr kind, err_details = JObj [], err_transport = True, err_status = Some 502\<rparr>
     | Gw_timeout \<Rightarrow> Inl \<lparr>err_message = ''gateway did not answer within the rpc timeout'', err_kind = JStr ''gateway_timeout'', err_details = JObj [],
         err_transport = True, err_status = Some 504\<rparr>)"
proof -
  have "\<not> accepts_event_stream (srq_headers (arrives (rpc_request p s args False)))"
    by (simp add: accepts_event_stream_def arrives_def rpc_request_def header_get_def headers_all_def)
  then have "rpc (served c) p s args = (if ct_public c p s
      then settle (Responded (received (one_shot c \<lparr>op_name = p, op_request_id = ct_uuid c, op_scope = s, op_args = JObj args\<rparr>)))
      else settle (Responded (received (transport_error c 400 ''invalid_request'' (''operation is not available through the console: '' @ p)))))"
    using rpc_request_read [OF assms(1-5)] by (simp add: rpc_def served_def rpc_handle_def)
  then show ?thesis
    using assms(6) by (auto simp: one_shot_def settled_error [OF assms(1)] settled_answer split: gateway_result.splits)
qed

definition sample_contract :: contract where
  "sample_contract = \<lparr>ct_max_bytes = 1000, ct_scope = (\<lambda>v. if js_prop v ''kind'' = Some (JStr ''system'') then Inr System
       else case js_prop v ''sandbox_id'' of Some (JStr i) \<Rightarrow> Inr (Sandbox i) | _ \<Rightarrow> Inl ''scope''), ct_public = (\<lambda>p _. p = ''ping''),
     ct_error_body = (\<lambda>k m. JObj [(''error'', JObj [(''kind'', JStr k), (''message'', JStr m), (''details'', JObj [])])]),
     ct_serde_error = (\<lambda>_. []), ct_uuid = ''u'', ct_gateway = (\<lambda>r. if op_scope r = System then Gw_answer (op_args r) else Gw_timeout)\<rparr>"

theorem rpc_end_to_end_witness:
  "rpc (served (sample_contract\<lparr>ct_gateway := \<lambda>_. Gw_answer (JStr ''pong'')\<rparr>)) ''ping'' System [] = Inr (JStr ''pong'')"
proof -
  let ?c = "sample_contract\<lparr>ct_gateway := \<lambda>_. Gw_answer (JStr ''pong'')\<rparr>"
  have "ct_scope ?c (scope_json s) = Inr s" for s by (cases s) (simp_all add: sample_contract_def obj_get_def)
  then have "contract_ok ?c" by (simp add: contract_ok_def) (simp add: sample_contract_def)
  moreover have "length (rq_body (rpc_request ''ping'' System [] False)) \<le> ct_max_bytes ?c"
    by (simp add: rpc_request_def sample_contract_def quote_def escape_char_def)
  ultimately show ?thesis
    using rpc_end_to_end [of ?c "''ping''" System "[]"]
    by (simp add: sample_contract_def rust_trim_def rust_space_def scope_blank_def has_error_def)
qed

end
