(* ===== verification/Server_Assets.thy ===== *)
theory Server_Assets
  imports Server_Registry Node_Paths Server_Auth
begin

text \<open>
  Static files of the console: \<^verbatim>\<open>server/src/assets.rs\<close> over the file system of \<^verbatim>\<open>Node_Paths\<close>.  A relative path is the
  list of its components.  Decoding follows serde's derived structs: an object whose known fields occur at most once, or
  an array of the fields in their order.
\<close>

section \<open>Paths\<close>

fun sanitize_segments :: "string list \<Rightarrow> string list option" where
  "sanitize_segments [] = Some []"
| "sanitize_segments (g # gs) =
     (if g = [] \<or> g = ''.'' then sanitize_segments gs else if g = ''..'' then None else map_option (\<lambda>r. g # r) (sanitize_segments gs))"

definition sanitize :: "string \<Rightarrow> string list option" where
  "sanitize uri_path = sanitize_segments (split_on (CHR ''/'') (dropWhile (\<lambda>c. c = CHR ''/'') uri_path))"

definition manifest_path :: "string \<Rightarrow> string list option" where
  "manifest_path p = (if p = [] \<or> startsWith p ''/'' \<or> CHR 0x5C \<in> set p then None else sanitize p)"

section \<open>The cache policy\<close>

definition struct_fields :: "string list \<Rightarrow> json \<Rightarrow> json option list option" where
  "struct_fields names v = (case v of
     JObj kvs \<Rightarrow> if \<exists>k \<in> set names. 1 < length (filter (\<lambda>kv. fst kv = k) kvs) then None else Some (map (\<lambda>k. field_once k kvs) names)
   | JArr vs \<Rightarrow> if length names < length vs then None else Some (map Some vs @ replicate (length names - length vs) None)
   | _ \<Rightarrow> None)"

definition default_strings :: "json option \<Rightarrow> string list option" where
  "default_strings v = (case v of None \<Rightarrow> Some [] | Some (JArr vs) \<Rightarrow> all_strings vs | Some _ \<Rightarrow> None)"

definition vite_chunk :: "json \<Rightarrow> string list option" where
  "vite_chunk v = (case struct_fields [''file'', ''css'', ''assets''] v of
     Some [file, css, assets] \<Rightarrow> (case (as_string file, default_strings css, default_strings assets) of
         (Some f, Some cs, Some as) \<Rightarrow> Some (f # cs @ as) | _ \<Rightarrow> None)
   | _ \<Rightarrow> None)"

fun all_some :: "'a option list \<Rightarrow> 'a list option" where
  "all_some [] = Some []"
| "all_some (x # xs) = (case (x, all_some xs) of (Some y, Some ys) \<Rightarrow> Some (y # ys) | _ \<Rightarrow> None)"

definition vite_paths :: "json \<Rightarrow> string list" where
  "vite_paths v = (case v of
     JObj kvs \<Rightarrow> (case all_some (map (\<lambda>kv. vite_chunk (snd kv)) kvs) of None \<Rightarrow> [] | Some css \<Rightarrow>
        concat (List.map_filter (\<lambda>kv. vite_chunk (snd kv)) (map_new kvs)))
   | _ \<Rightarrow> [])"

definition shared_record :: "json \<Rightarrow> string option" where
  "shared_record v = (case struct_fields [''path''] v of Some [p] \<Rightarrow> as_string p | _ \<Rightarrow> None)"

definition shared_web :: "json \<Rightarrow> string list option" where
  "shared_web v = (case struct_fields [''web''] v of
     Some [Some (JObj kvs)] \<Rightarrow> (case all_some (map (\<lambda>kv. shared_record (snd kv)) kvs) of None \<Rightarrow> None | Some _ \<Rightarrow>
        Some (List.map_filter (\<lambda>kv. shared_record (snd kv)) (map_new kvs)))
   | _ \<Rightarrow> None)"

definition shared_paths :: "json \<Rightarrow> string list" where
  "shared_paths v = (case struct_fields [''schemaVersion'', ''product'', ''derivatives''] v of
     Some [Some (JNum version), Some (JStr product), Some derivatives] \<Rightarrow>
       if 0 \<le> version \<and> version < 256 then (case shared_web derivatives of None \<Rightarrow> []
         | Some paths \<Rightarrow> if version = 1 \<and> product = ''Ephemeral Sandbox'' then paths else []) else []
   | _ \<Rightarrow> [])"

definition read_json :: "node \<Rightarrow> string list \<Rightarrow> json option" where
  "read_json fs p = (case readFile fs p of Inl _ \<Rightarrow> None | Inr bytes \<Rightarrow> JSON_parse bytes)"

definition under :: "string \<Rightarrow> string list \<Rightarrow> string list option" where
  "under d p = (if p \<noteq> [] \<and> hd p = d then Some p else None)"

definition policy_load :: "node \<Rightarrow> string list option \<Rightarrow> string list list" where
  "policy_load fs assets_dir = (case assets_dir of None \<Rightarrow> []
     | Some d \<Rightarrow>
         (case read_json fs (d @ [''.vite'', ''manifest.json'']) of None \<Rightarrow> []
          | Some v \<Rightarrow> List.map_filter (\<lambda>p. Option.bind (manifest_path p) (under ''assets'')) (vite_paths v))
       @ (case read_json fs (d @ [''.vite'', ''shared-assets-manifest.json'']) of None \<Rightarrow> []
          | Some v \<Rightarrow> List.map_filter (\<lambda>p. Option.bind (Option.bind (strip_prefix ''shared/public/'' p) manifest_path) (under ''brand'')) (shared_paths v)))"

section \<open>Serving\<close>

definition PLACEHOLDER_PAGE :: string where
  "PLACEHOLDER_PAGE = ''<!doctype html><html lang='' @ [CHR 0x22] @ ''en'' @ [CHR 0x22] @ ''><head><meta charset='' @ [CHR 0x22] @ ''utf-8'' @ [CHR 0x22]
     @ ''><title>Ephemeral Sandbox Console</title></head><body style='' @ [CHR 0x22]
     @ ''font-family: system-ui; margin: 4rem auto; max-width: 40rem; color: #1a1d21;'' @ [CHR 0x22]
     @ ''><h1>Ephemeral Sandbox Console</h1><p>The console server is running, but the SPA assets are not built.</p>''
     @ ''<p>Build them with <code>bin/package-console</code>, then reload.</p></body></html>''"

definition CONSOLE_CSP :: string where
  "CONSOLE_CSP = ''default-src 'self'; base-uri 'none'; object-src 'none'; script-src 'self'; style-src 'self' 'unsafe-inline'; img-src 'self' data: blob:; font-src 'self'; connect-src 'self'; frame-src 'self'; frame-ancestors 'none'; form-action 'self'' @ [CHR 0x27]"

definition content_type_for :: "string list \<Rightarrow> string" where
  "content_type_for p = (let e = extname p in
     if e = ''.html'' then ''text/html; charset=utf-8'' else if e = ''.js'' \<or> e = ''.mjs'' then ''text/javascript; charset=utf-8''
     else if e = ''.css'' then ''text/css; charset=utf-8'' else if e = ''.json'' \<or> e = ''.map'' then ''application/json''
     else if e = ''.svg'' then ''image/svg+xml'' else if e = ''.png'' then ''image/png'' else if e = ''.webp'' then ''image/webp''
     else if e = ''.ico'' then ''image/x-icon'' else if e = ''.woff2'' then ''font/woff2'' else if e = ''.txt'' then ''text/plain; charset=utf-8''
     else ''application/octet-stream'')"

definition html_document :: "srv_response \<Rightarrow> srv_response" where
  "html_document r = (let r' = no_store r in r'\<lparr>srs_headers := srs_headers r' @ [(''content-security-policy'', CONSOLE_CSP)]\<rparr>)"

definition file_response :: "string list list \<Rightarrow> string list \<Rightarrow> string list \<Rightarrow> string \<Rightarrow> srv_response" where
  "file_response policy p rel body =
     (let content_type = content_type_for p;
          r = \<lparr>srs_status = 200, srs_headers = [(''content-type'', content_type)], srs_body = body\<rparr> in
      if startsWith content_type ''text/html'' then html_document r
      else r\<lparr>srs_headers := header_insert ''cache-control''
          (if rel \<in> set policy then ''public, max-age=31536000, immutable'' else ''public, max-age=0, must-revalidate'') (srs_headers r)\<rparr>)"

definition file_bytes :: "node \<Rightarrow> string list \<Rightarrow> string option" where
  "file_bytes fs p = (case fs_lookup fs p of Some (File b) \<Rightarrow> Some b | _ \<Rightarrow> None)"

definition serve_asset :: "node \<Rightarrow> string list option \<Rightarrow> string list list \<Rightarrow> string \<Rightarrow> srv_response" where
  "serve_asset fs assets_dir policy uri_path = (case assets_dir of
     None \<Rightarrow> html_document (html_response 200 PLACEHOLDER_PAGE)
   | Some d \<Rightarrow> (case sanitize uri_path of
        None \<Rightarrow> text_response 400 ''invalid asset path''
      | Some rel \<Rightarrow>
          (let candidate = (if rel = [] then d @ [''index.html''] else d @ rel) in
           case file_bytes fs candidate of
             Some body \<Rightarrow> file_response policy candidate rel body
           | None \<Rightarrow> (case file_bytes fs (d @ [''index.html'']) of
               Some body \<Rightarrow> html_document (html_response 200 body)
             | None \<Rightarrow> html_document (html_response 200 PLACEHOLDER_PAGE)))))"

section \<open>Files stay inside\<close>

lemma sanitize_segments_ok: "sanitize_segments gs = Some r \<Longrightarrow> \<forall>g \<in> set gs. CHR ''/'' \<notin> set g \<Longrightarrow> \<forall>g \<in> set r. segment_ok g"
  by (induction gs arbitrary: r) (auto simp: segment_ok_def split: if_splits)

lemma sanitize_ok: "sanitize p = Some r \<Longrightarrow> \<forall>g \<in> set r. segment_ok g"
  unfolding sanitize_def by (rule sanitize_segments_ok) (auto dest: split_on_pieces)

lemma document_headers [simp]:
  "headers_all ''content-security-policy'' (srs_headers (html_document (html_response st b))) = [CONSOLE_CSP]"
  "headers_all ''cache-control'' (srs_headers (html_document (html_response st b))) = [''no-store'']"
  "srs_body (html_document r) = srs_body r" "srs_status (html_document r) = srs_status r"
  by (simp_all add: html_document_def Let_def html_response_def with_content_type_def no_store_def headers_all_Cons)

lemma file_response_body [simp]: "srs_body (file_response policy p rel b) = b" "srs_status (file_response policy p rel b) = 200"
  by (simp_all add: file_response_def Let_def html_document_def)

lemma file_response_cache:
  "''public, max-age=31536000, immutable'' \<in> set (headers_all ''cache-control'' (srs_headers (file_response policy p rel b))) \<Longrightarrow> rel \<in> set policy"
  by (auto simp: file_response_def Let_def html_document_def no_store_def headers_all_Cons split: if_splits)

lemma policy_paths: "q \<in> set (policy_load fs dir) \<Longrightarrow> (\<forall>g \<in> set q. segment_ok g) \<and> (\<exists>r. q = ''assets'' # r \<or> q = ''brand'' # r)"
proof -
  have ok: "manifest_path p = Some r \<Longrightarrow> \<forall>g \<in> set r. segment_ok g" for p r
    using sanitize_ok by (auto simp: manifest_path_def split: if_splits)
  have under: "under d p = Some r \<Longrightarrow> r = p \<and> (\<exists>t. p = d # t)" for d p r by (cases p) (auto simp: under_def split: if_splits)
  assume "q \<in> set (policy_load fs dir)"
  then obtain p m d where "manifest_path m = Some p" "under d p = Some q" "d = ''assets'' \<or> d = ''brand''"
    by (auto simp: policy_load_def set_map_filter bind_eq_Some_conv split: option.splits)
  with ok under show ?thesis by metis
qed



end
