(* ===== verification/Terminal_Text.thy ===== *)
theory Terminal_Text
  imports Prelude
begin

text \<open>
  Removal of terminal control sequences: \<^verbatim>\<open>web/src/lib/terminalText.ts\<close>.  A global regular
  expression is a matcher that gives the length of its match at the start of a text, and
  \<^verbatim>\<open>replace(re, "")\<close> scans from the left, dropping each match.  The three expressions with
  repetition are written out: the character classes of the control and escape sequences are
  disjoint, so there matching is deterministic; the operating-system command is greedy, so it ends
  at the first BEL if there is one and at the last string terminator otherwise.
\<close>

abbreviation ESC :: char where "ESC \<equiv> CHR 0x1B"
abbreviation BEL :: char where "BEL \<equiv> CHR 0x07"
abbreviation BSL :: char where "BSL \<equiv> CHR 0x5C"

definition code_in :: "nat \<Rightarrow> nat \<Rightarrow> char \<Rightarrow> bool" where
  "code_in a b c = (a \<le> of_char c \<and> of_char c \<le> b)"

fun replace_all :: "(string \<Rightarrow> nat option) \<Rightarrow> string \<Rightarrow> nat \<Rightarrow> string" where
  "replace_all m [] skip = []"
| "replace_all m (c # cs) (Suc k) = replace_all m cs k"
| "replace_all m (c # cs) 0 = (case m (c # cs) of
     Some (Suc n) \<Rightarrow> replace_all m cs n
   | _ \<Rightarrow> c # replace_all m cs 0)"

text \<open>The index of the last string terminator (ESC, backslash) of a text.\<close>

fun last_terminator :: "string \<Rightarrow> nat option" where
  "last_terminator (a # b # s) = (case last_terminator (b # s) of
     Some k \<Rightarrow> Some (Suc k)
   | None \<Rightarrow> if a = ESC \<and> b = BSL then Some 0 else None)"
| "last_terminator _ = None"

definition OPERATING_SYSTEM_COMMAND :: "string \<Rightarrow> nat option" where
  "OPERATING_SYSTEM_COMMAND s = (case s of
     a # b # r \<Rightarrow> if a = ESC \<and> b = CHR '']'' then
         (let body = takeWhile (\<lambda>c. c \<noteq> BEL) r in
          if length body < length r then Some (length body + 3)
          else map_option (\<lambda>k. k + 4) (last_terminator r))
       else None
   | _ \<Rightarrow> None)"

definition control_tail :: "string \<Rightarrow> nat option" where
  "control_tail r =
     (let ps = takeWhile (code_in 0x30 0x3F) r; r1 = dropWhile (code_in 0x30 0x3F) r;
          is = takeWhile (code_in 0x20 0x2F) r1; r2 = dropWhile (code_in 0x20 0x2F) r1
      in case r2 of c # _ \<Rightarrow> if code_in 0x40 0x7E c then Some (length ps + length is + 1) else None
         | [] \<Rightarrow> None)"

definition CONTROL_SEQUENCE :: "string \<Rightarrow> nat option" where
  "CONTROL_SEQUENCE s = (case s of
     [] \<Rightarrow> None
   | a # r \<Rightarrow> if a = CHR 0x9B then map_option Suc (control_tail r)
       else if a = ESC \<and> startsWith r ''['' then map_option (\<lambda>k. k + 2) (control_tail (tl r))
       else None)"

definition ESCAPE_SEQUENCE :: "string \<Rightarrow> nat option" where
  "ESCAPE_SEQUENCE s = (case s of
     [] \<Rightarrow> None
   | a # r \<Rightarrow> if a = ESC then
         (let is = takeWhile (code_in 0x20 0x2F) r in
          case dropWhile (code_in 0x20 0x2F) r of
            c # _ \<Rightarrow> if code_in 0x30 0x7E c then Some (length is + 2) else None
          | [] \<Rightarrow> None)
       else None)"

definition non_text :: "char \<Rightarrow> bool" where
  "non_text c = (code_in 0x00 0x08 c \<or> code_in 0x0B 0x0C c \<or> code_in 0x0E 0x1F c \<or> code_in 0x7F 0x9F c)"

definition NON_TEXT_CONTROL :: "string \<Rightarrow> nat option" where
  "NON_TEXT_CONTROL s = (case s of [] \<Rightarrow> None | c # _ \<Rightarrow> if non_text c then Some 1 else None)"

definition stripTerminalControlSequences :: "string \<Rightarrow> string" where
  "stripTerminalControlSequences out =
     replace_all NON_TEXT_CONTROL
       (replace_all ESCAPE_SEQUENCE
         (replace_all CONTROL_SEQUENCE
           (replace_all OPERATING_SYSTEM_COMMAND out 0) 0) 0) 0"

section \<open>Laws\<close>

lemma replace_all_subset: "set (replace_all m s k) \<subseteq> set s"
  by (induction m s k rule: replace_all.induct) (auto split: option.splits nat.splits)

lemma replace_all_id: "(\<And>n. n < length s \<Longrightarrow> m (drop n s) = None) \<Longrightarrow> replace_all m s 0 = s"
proof (induction s)
  case (Cons c cs)
  have "m (c # cs) = None" using Cons.prems [of 0] by simp
  moreover have "replace_all m cs 0 = cs" using Cons.prems [of "Suc _"] by (intro Cons.IH) auto
  ultimately show ?case by simp
qed simp

lemma replace_all_skip: "replace_all m s n = (if n \<le> length s then replace_all m (drop n s) 0 else [])"
  by (induction m s n rule: replace_all.induct) auto

lemma replace_all_match:
  assumes "m s = Some n" "0 < n" "n \<le> length s"
  shows "replace_all m s 0 = replace_all m (drop n s) 0"
proof -
  obtain c cs k where "s = c # cs" "n = Suc k" using assms by (cases s; cases n) auto
  with assms show ?thesis by (simp add: replace_all_skip [of m cs k])
qed

lemma replace_non_text: "replace_all NON_TEXT_CONTROL s 0 = filter (\<lambda>c. \<not> non_text c) s"
  by (induction s) (auto simp: NON_TEXT_CONTROL_def)

lemma non_text_ESC [simp]: "non_text ESC" "non_text (CHR 0x9B)"
  by (simp_all add: non_text_def code_in_def)

lemma no_match:
  assumes "ESC \<notin> set s" "CHR 0x9B \<notin> set s"
  shows "OPERATING_SYSTEM_COMMAND (drop n s) = None" "CONTROL_SEQUENCE (drop n s) = None"
    "ESCAPE_SEQUENCE (drop n s) = None"
  using assms in_set_dropD [of _ n s]
  by (auto simp: OPERATING_SYSTEM_COMMAND_def CONTROL_SEQUENCE_def ESCAPE_SEQUENCE_def split: list.splits)

lemma strip_plain:
  assumes "\<forall>c \<in> set s. \<not> non_text c"
  shows "stripTerminalControlSequences s = s"
proof -
  have s: "ESC \<notin> set s" "CHR 0x9B \<notin> set s" using assms non_text_ESC by blast+
  then have "replace_all OPERATING_SYSTEM_COMMAND s 0 = s" "replace_all CONTROL_SEQUENCE s 0 = s"
    "replace_all ESCAPE_SEQUENCE s 0 = s"
    by (simp_all add: replace_all_id no_match)
  with assms show ?thesis by (simp add: stripTerminalControlSequences_def replace_non_text filter_id_conv)
qed

lemma strip_no_control: "\<forall>c \<in> set (stripTerminalControlSequences s). \<not> non_text c"
  by (simp add: stripTerminalControlSequences_def replace_non_text)

lemma last_terminator_append: "last_terminator (s @ [ESC, BSL]) = Some (length s)"
proof (induction s)
  case (Cons c cs)
  then show ?case by (cases cs) auto
qed simp

section \<open>Properties\<close>

text \<open>
  No control sequence reaches a text view: whatever a command prints, the stripped output has no
  C0 or C1 control character other than tab, newline and carriage return, only characters of the
  original output, a second strip changes nothing, and output without control characters is kept as
  it is.
\<close>

lemma strip_safe:
  "(\<forall>i < length (stripTerminalControlSequences s). \<not> non_text (stripTerminalControlSequences s ! i)) \<and>
   set (stripTerminalControlSequences s) \<subseteq> set s \<and>
   stripTerminalControlSequences (stripTerminalControlSequences s) = stripTerminalControlSequences s \<and>
   ((\<exists>i < length s. non_text (s ! i)) \<or> stripTerminalControlSequences s = s)"
proof (intro conjI)
  show "\<forall>i < length (stripTerminalControlSequences s). \<not> non_text (stripTerminalControlSequences s ! i)"
    using strip_no_control by (meson nth_mem)
  show "set (stripTerminalControlSequences s) \<subseteq> set s"
    using replace_all_subset unfolding stripTerminalControlSequences_def by (meson subset_trans)
  show "stripTerminalControlSequences (stripTerminalControlSequences s) = stripTerminalControlSequences s"
    using strip_no_control by (rule strip_plain)
  show "(\<exists>i < length s. non_text (s ! i)) \<or> stripTerminalControlSequences s = s"
    using strip_plain [of s] by (metis in_set_conv_nth)
qed

lemma strip_safe_witness:
  "stripTerminalControlSequences (stripTerminalControlSequences ''ab'') = stripTerminalControlSequences ''ab''"
  using strip_safe [of "''ab''"] by blast

text \<open>
  The pattern for operating-system commands is greedy across them: the text between two commands
  that end with a string terminator, such as the label of a terminal hyperlink, is removed together
  with them, newlines included.
\<close>

lemma strip_swallows_hyperlink_text:
  assumes "BEL \<notin> set (url @ label)"
  shows "stripTerminalControlSequences
     ([ESC, CHR '']''] @ ''8;;'' @ url @ [ESC, BSL] @ label @ [ESC, CHR '']''] @ ''8;;'' @ [ESC, BSL]) = []"
    (is "stripTerminalControlSequences ?s = []")
proof -
  let ?r = "''8;;'' @ url @ [ESC, BSL] @ label @ [ESC, CHR '']''] @ ''8;;''"
  have s: "?s = ESC # CHR '']'' # (?r @ [ESC, BSL])" by simp
  have "takeWhile (\<lambda>c. c \<noteq> BEL) (?r @ [ESC, BSL]) = ?r @ [ESC, BSL]"
    using assms by (subst takeWhile_eq_all_conv) auto
  then have "OPERATING_SYSTEM_COMMAND ?s = Some (length ?s)"
    unfolding s OPERATING_SYSTEM_COMMAND_def list.case Let_def last_terminator_append by simp
  then have "replace_all OPERATING_SYSTEM_COMMAND ?s 0 = replace_all OPERATING_SYSTEM_COMMAND (drop (length ?s) ?s) 0"
    by (rule replace_all_match) simp_all
  then show ?thesis by (simp add: stripTerminalControlSequences_def)
qed

lemma strip_swallows_hyperlink_text_witness:
  "stripTerminalControlSequences
     ([ESC, CHR '']''] @ ''8;;'' @ ''u'' @ [ESC, BSL] @ ''label'' @ [ESC, CHR '']''] @ ''8;;'' @ [ESC, BSL]) = []"
  by (rule strip_swallows_hyperlink_text) simp

end
