(* ===== verification/Ledger.thy ===== *)
theory Ledger
  imports Rpc Storage Terminal_Text "HOL-Library.Monad_Syntax"
begin

text \<open>
  The command ledger and the transcript cache: \<^verbatim>\<open>web/src/pages/sandbox/terminal/ledger.ts\<close>, and the
  paging loop of \<^verbatim>\<open>TranscriptViewer.tsx\<close>.  \<^verbatim>\<open>crypto.randomUUID()\<close> and \<^verbatim>\<open>Date.now()\<close> are
  arguments.  A stored ledger is read back as the JSON values it holds (the code does not validate
  them); an array with holes is a list of options.  The paging loop may not end, so it is a
  \<^theory_text>\<open>partial_function\<close> into \<^typ>\<open>'a option\<close>.
\<close>

record LedgerEntry =
  en_localId :: string
  en_commandSessionId :: "string option"
  en_cmd :: string
  en_workspaceSessionId :: "string option"
  en_autoPublish :: bool
  en_startedAt :: int
  en_status :: CommandStatus
  en_exitCode :: "int option"
  en_endedAt :: "int option"
  en_inlineOutput :: "string option"
  en_publishRejected :: bool
  en_publishRejectClass :: "string option"

definition LEDGER_CAP :: nat where "LEDGER_CAP = 200"

definition storageKey :: "string \<Rightarrow> string" where
  "storageKey sandboxId = ''eos-console:ledger:'' @ sandboxId"

definition status_string :: "CommandStatus \<Rightarrow> string" where
  "status_string st = (case st of Cmd_running \<Rightarrow> ''running'' | Cmd_ok \<Rightarrow> ''ok'' | Cmd_error \<Rightarrow> ''error''
     | Cmd_timed_out \<Rightarrow> ''timed_out'' | Cmd_cancelled \<Rightarrow> ''cancelled'')"

definition json_opt :: "('a \<Rightarrow> json) \<Rightarrow> 'a option \<Rightarrow> json" where
  "json_opt f x = (case x of None \<Rightarrow> JNull | Some v \<Rightarrow> f v)"

definition entry_json :: "LedgerEntry \<Rightarrow> json" where
  "entry_json e = JObj [
     (''localId'', JStr (en_localId e)),
     (''commandSessionId'', json_opt JStr (en_commandSessionId e)),
     (''cmd'', JStr (en_cmd e)),
     (''workspaceSessionId'', json_opt JStr (en_workspaceSessionId e)),
     (''autoPublish'', JBool (en_autoPublish e)),
     (''startedAt'', JNum (en_startedAt e)),
     (''status'', JStr (status_string (en_status e))),
     (''exitCode'', json_opt JNum (en_exitCode e)),
     (''endedAt'', json_opt JNum (en_endedAt e)),
     (''inlineOutput'', json_opt JStr (en_inlineOutput e)),
     (''publishRejected'', JBool (en_publishRejected e)),
     (''publishRejectClass'', json_opt JStr (en_publishRejectClass e))]"

text \<open>Reading an entry back: the code casts, here a value of another shape is no entry.\<close>

fun as_string :: "json \<Rightarrow> string option" where
  "as_string (JStr s) = Some s"
| "as_string _ = None"

fun as_number :: "json \<Rightarrow> int option" where
  "as_number (JNum i) = Some i"
| "as_number _ = None"

fun as_bool :: "json \<Rightarrow> bool option" where
  "as_bool (JBool b) = Some b"
| "as_bool _ = None"

definition as_opt :: "(json \<Rightarrow> 'a option) \<Rightarrow> json \<Rightarrow> 'a option option" where
  "as_opt f v = (if v = JNull then Some None else map_option Some (f v))"

definition as_status :: "json \<Rightarrow> CommandStatus option" where
  "as_status v = find (\<lambda>st. v = JStr (status_string st)) [Cmd_running, Cmd_ok, Cmd_error, Cmd_timed_out, Cmd_cancelled]"

fun decode_entry :: "json \<Rightarrow> LedgerEntry option" where
  "decode_entry (JObj kvs) = do {
     localId \<leftarrow> obj_get ''localId'' kvs \<bind> as_string;
     csid \<leftarrow> obj_get ''commandSessionId'' kvs \<bind> as_opt as_string;
     cmd \<leftarrow> obj_get ''cmd'' kvs \<bind> as_string;
     wsid \<leftarrow> obj_get ''workspaceSessionId'' kvs \<bind> as_opt as_string;
     auto \<leftarrow> obj_get ''autoPublish'' kvs \<bind> as_bool;
     startedAt \<leftarrow> obj_get ''startedAt'' kvs \<bind> as_number;
     status \<leftarrow> obj_get ''status'' kvs \<bind> as_status;
     exitCode \<leftarrow> obj_get ''exitCode'' kvs \<bind> as_opt as_number;
     endedAt \<leftarrow> obj_get ''endedAt'' kvs \<bind> as_opt as_number;
     inlineOutput \<leftarrow> obj_get ''inlineOutput'' kvs \<bind> as_opt as_string;
     rejected \<leftarrow> obj_get ''publishRejected'' kvs \<bind> as_bool;
     rejectClass \<leftarrow> obj_get ''publishRejectClass'' kvs \<bind> as_opt as_string;
     Some \<lparr>en_localId = localId, en_commandSessionId = csid, en_cmd = cmd, en_workspaceSessionId = wsid,
       en_autoPublish = auto, en_startedAt = startedAt, en_status = status, en_exitCode = exitCode,
       en_endedAt = endedAt, en_inlineOutput = inlineOutput, en_publishRejected = rejected,
       en_publishRejectClass = rejectClass\<rparr> }"
| "decode_entry _ = None"

definition ledger_entries :: "json list \<Rightarrow> LedgerEntry list" where
  "ledger_entries vs = List.map_filter decode_entry vs"

text \<open>Browser storage: a map from keys to items; reading and writing can throw.\<close>

record browser_storage =
  bs_readable :: bool
  bs_writable :: bool
  bs_items :: "(string \<times> string) list"

fun array_or_empty :: "json option \<Rightarrow> json list" where
  "array_or_empty (Some (JArr vs)) = vs"
| "array_or_empty _ = []"

definition parse_ledger :: "string option \<Rightarrow> json list" where
  "parse_ledger raw = (case raw of None \<Rightarrow> [] | Some t \<Rightarrow> if t = [] then [] else array_or_empty (JSON_parse t))"

definition loadLedger :: "string \<Rightarrow> browser_storage \<Rightarrow> json list" where
  "loadLedger sandboxId bs =
     (if bs_readable bs then parse_ledger (map_of (bs_items bs) (storageKey sandboxId)) else [])"

definition saveLedger :: "string \<Rightarrow> json list \<Rightarrow> browser_storage \<Rightarrow> browser_storage" where
  "saveLedger sandboxId entries bs = (if bs_writable bs
     then bs\<lparr>bs_items := map_set (storageKey sandboxId)
            (JSON_stringify (JArr (slice_last LEDGER_CAP entries))) (bs_items bs)\<rparr>
     else bs)"

definition truthy_id :: "string option \<Rightarrow> bool" where
  "truthy_id x = (x \<noteq> None \<and> x \<noteq> Some [])"

definition entryFromExec :: "string \<Rightarrow> int \<Rightarrow> string \<Rightarrow> string option \<Rightarrow> CommandOutput \<Rightarrow> LedgerEntry" where
  "entryFromExec uuid now cmd workspaceSessionId out =
     \<lparr>en_localId = uuid,
      en_commandSessionId = co_command_session_id out,
      en_cmd = cmd,
      en_workspaceSessionId = (case co_workspace_session_id out of None \<Rightarrow> workspaceSessionId | Some w \<Rightarrow> Some w),
      en_autoPublish = (workspaceSessionId = None),
      en_startedAt = now,
      en_status = co_status out,
      en_exitCode = co_exit_code out,
      en_endedAt = (if co_status out = Cmd_running then None else Some now),
      en_inlineOutput = (if truthy_id (co_command_session_id out) then None
        else Some (stripTerminalControlSequences (co_output out))),
      en_publishRejected = (co_publish_rejected out = Some True),
      en_publishRejectClass = co_publish_reject_class out\<rparr>"

definition entryFromSnapshot :: "string \<Rightarrow> int \<Rightarrow> string \<Rightarrow> string \<Rightarrow> string option \<Rightarrow> LedgerEntry" where
  "entryFromSnapshot uuid now commandSessionId workspaceSessionId command =
     \<lparr>en_localId = uuid,
      en_commandSessionId = Some commandSessionId,
      en_cmd = (if truthy_id command then the command
        else ''(running command '' @ commandSessionId @ '' '' @ [CHR 0xE2, CHR 0x80, CHR 0x94] @
             '' started outside this browser)''),
      en_workspaceSessionId = Some workspaceSessionId,
      en_autoPublish = False,
      en_startedAt = now,
      en_status = Cmd_running,
      en_exitCode = None,
      en_endedAt = None,
      en_inlineOutput = None,
      en_publishRejected = False,
      en_publishRejectClass = None\<rparr>"

section \<open>Transcripts\<close>

record TranscriptState =
  ts_lines :: "string option list"
  ts_fetchedTo :: nat
  ts_totalLines :: nat
  ts_status :: CommandStatus
  ts_exitCode :: "int option"
  ts_publishRejected :: bool
  ts_publishRejectClass :: "string option"
  ts_error :: "string option"
  ts_tailPinned :: bool

definition new_transcript :: TranscriptState where
  "new_transcript = \<lparr>ts_lines = [], ts_fetchedTo = 0, ts_totalLines = 0, ts_status = Cmd_running,
     ts_exitCode = None, ts_publishRejected = False, ts_publishRejectClass = None, ts_error = None,
     ts_tailPinned = True\<rparr>"

definition transcript_key :: "string \<Rightarrow> string \<Rightarrow> string" where
  "transcript_key commandSessionId sandboxId = JSON_stringify (JArr [JStr sandboxId, JStr commandSessionId])"

definition transcriptFor :: "string \<Rightarrow> string \<Rightarrow> (string \<times> TranscriptState) list
    \<Rightarrow> TranscriptState \<times> (string \<times> TranscriptState) list" where
  "transcriptFor commandSessionId sandboxId transcripts =
     (let key = transcript_key commandSessionId sandboxId in
      case map_of transcripts key of
        Some state \<Rightarrow> (state, transcripts)
      | None \<Rightarrow> (new_transcript, map_set key new_transcript transcripts))"

fun set_lines :: "string option list \<Rightarrow> nat \<Rightarrow> string list \<Rightarrow> string option list" where
  "set_lines ls i [] = ls"
| "set_lines ls i (x # xs) = set_lines (array_set ls i x) (Suc i) xs"

definition absorbOutput :: "TranscriptState \<Rightarrow> CommandOutput \<Rightarrow> TranscriptState" where
  "absorbOutput state out =
     (let st1 = (if co_start_offset out < co_end_offset out \<and> co_output out \<noteq> []
            then state\<lparr>ts_lines := set_lines (ts_lines state) (co_start_offset out)
                         (split_on newline (stripTerminalControlSequences (co_output out))),
                       ts_fetchedTo := max (ts_fetchedTo state) (co_end_offset out)\<rparr>
            else state);
          st2 = st1\<lparr>ts_totalLines := co_total_lines out, ts_status := co_status out, ts_exitCode := co_exit_code out\<rparr>
      in if co_publish_rejected out = Some True
         then st2\<lparr>ts_publishRejected := True, ts_publishRejectClass := co_publish_reject_class out\<rparr>
         else st2)"

text \<open>
  The loop of \<^verbatim>\<open>fetchPages\<close>: \<open>read\<close> is the answer of \<^verbatim>\<open>read_command_lines\<close> at a start offset,
  \<open>terminal\<close> the outputs passed to \<^verbatim>\<open>onTerminal\<close> so far.
\<close>

partial_function (option) fetchPages :: "(nat \<Rightarrow> RpcError + CommandOutput) \<Rightarrow> TranscriptState
    \<Rightarrow> CommandOutput list \<Rightarrow> (TranscriptState \<times> CommandOutput list) option" where
  "fetchPages read state terminal = (case read (ts_fetchedTo state) of
     Inl e \<Rightarrow> Some (state\<lparr>ts_error := Some (err_message e)\<rparr>, terminal)
   | Inr out \<Rightarrow>
       (let state' = absorbOutput state out;
            terminal' = (if co_status out \<noteq> Cmd_running then terminal @ [out] else terminal)
        in if ts_fetchedTo state' < ts_totalLines state' then fetchPages read state' terminal'
           else Some (state'\<lparr>ts_error := None\<rparr>, terminal')))"

section \<open>The stored ledger\<close>

lemma json_opt_inject [simp]:
  "json_opt JStr x = json_opt JStr y \<longleftrightarrow> x = y" "json_opt JNum a = json_opt JNum b \<longleftrightarrow> a = b"
  by (cases x; cases y; simp add: json_opt_def) (cases a; cases b; simp add: json_opt_def)

lemma status_string_inject [simp]: "status_string a = status_string b \<longleftrightarrow> a = b"
  by (cases a; cases b) (simp_all add: status_string_def)

lemma entry_json_inject: "entry_json e = entry_json e' \<longleftrightarrow> e = e'"
  by (auto simp: entry_json_def)

lemma as_opt_json [simp]: "as_opt as_string (json_opt JStr x) = Some x" "as_opt as_number (json_opt JNum y) = Some y"
  by (cases x; simp add: as_opt_def json_opt_def) (cases y; simp add: as_opt_def json_opt_def)

lemma as_status_string [simp]: "as_status (JStr (status_string st)) = Some st"
  by (cases st) (simp_all add: as_status_def status_string_def)

lemma decode_entry_json: "decode_entry (entry_json e) = Some e"
  by (simp add: entry_json_def obj_get_def)

lemma json_plain_opt [simp]: "json_plain (json_opt JStr x)" "json_plain (json_opt JNum y)"
  by (cases x; simp add: json_opt_def) (cases y; simp add: json_opt_def)

lemma json_plain_entry [simp]: "json_plain (entry_json e)"
  by (simp add: entry_json_def)

definition ledger_text :: "LedgerEntry list \<Rightarrow> string" where
  "ledger_text es = JSON_stringify (JArr (slice_last LEDGER_CAP (map entry_json es)))"

text \<open>The entries of a stored ledger: the values that have the shape of an entry.\<close>

lemma ledger_entries_json [simp]: "ledger_entries (map entry_json es) = es"
  by (induction es) (simp_all add: ledger_entries_def map_filter_def decode_entry_json)

lemma slice_last_map: "slice_last n (map f xs) = map f (slice_last n xs)"
  by (simp add: slice_last_def drop_map)

lemma parse_ledger_text: "parse_ledger (Some (ledger_text es)) = map entry_json (slice_last LEDGER_CAP es)"
proof -
  have "json_plain (JArr (slice_last LEDGER_CAP (map entry_json es)))" by (auto simp: slice_last_map)
  from JSON_roundtrip [OF this] show ?thesis by (simp add: parse_ledger_def ledger_text_def slice_last_map)
qed

interpretation ledger: stored_list ledger_text "\<lambda>raw. ledger_entries (parse_ledger raw)" "slice_last LEDGER_CAP"
  by unfold_locales (simp_all add: parse_ledger_text LEDGER_CAP_def slice_last_slice_last)

lemma saved_ledger_loads:
  "bs_readable bs \<Longrightarrow> bs_writable bs \<Longrightarrow>
   loadLedger i (saveLedger i (map entry_json es) bs) = map entry_json (slice_last LEDGER_CAP es)"
  using parse_ledger_text [of es]
  by (simp add: loadLedger_def saveLedger_def ledger_text_def del: JSON_stringify.simps)

lemma saved_ledger_other: "i \<noteq> j \<Longrightarrow> loadLedger j (saveLedger i vs bs) = loadLedger j bs"
  by (simp add: loadLedger_def saveLedger_def storageKey_def del: JSON_stringify.simps)

section \<open>Catching up with a transcript\<close>

lemma set_lines_append: "set_lines ls (length ls) xs = ls @ map Some xs"
proof (induction xs arbitrary: ls)
  case (Cons x xs)
  have "array_set ls (length ls) x = ls @ [Some x]" by (simp add: array_set_def)
  with Cons [of "ls @ [Some x]"] show ?case by simp
qed simp

definition clean_line :: "string \<Rightarrow> bool" where
  "clean_line l = (newline \<notin> set l \<and> (\<forall>c \<in> set l. \<not> non_text c))"

lemma newline_text [simp]: "\<not> non_text newline"
  by (simp add: non_text_def code_in_def)

lemma join_chars: "set (join d ws) \<subseteq> set d \<union> \<Union> (set ` set ws)"
  by (induction d ws rule: join.induct) auto

lemma absorbed_lines:
  assumes "\<forall>l \<in> set ls. clean_line l" "ls \<noteq> []"
  shows "split_on newline (stripTerminalControlSequences (join [newline] ls)) = ls"
proof -
  have "\<forall>c \<in> set (join [newline] ls). \<not> non_text c"
    using assms(1) join_chars [of "[newline]" ls] by (auto simp: clean_line_def)
  then show ?thesis using assms by (simp add: strip_plain split_on_join clean_line_def)
qed

lemma join_Nil_iff: "join d ws = [] \<longleftrightarrow> ws = [] \<or> ws = [[]] \<or> (d = [] \<and> (\<forall>w \<in> set ws. w = []))"
  by (induction d ws rule: join.induct) auto

text \<open>
  What the code relies on of \<^verbatim>\<open>read_command_lines\<close>: at every offset a page of whole lines from
  there, joined by newlines, never empty before the end.
\<close>

definition page_lines :: "string list \<Rightarrow> (nat \<Rightarrow> nat) \<Rightarrow> nat \<Rightarrow> string list" where
  "page_lines doc page k = take (page k) (drop k doc)"

definition serves_lines :: "(nat \<Rightarrow> RpcError + CommandOutput) \<Rightarrow> string list \<Rightarrow> (nat \<Rightarrow> nat) \<Rightarrow> bool" where
  "serves_lines read doc page = (\<forall>k \<le> length doc. k + page k \<le> length doc \<and> (k = length doc \<or> 0 < page k) \<and>
     (case read k of Inl _ \<Rightarrow> False
      | Inr out \<Rightarrow> co_start_offset out = k \<and> co_end_offset out = k + page k \<and>
          co_total_lines out = length doc \<and> co_output out = join [newline] (page_lines doc page k)))"

lemma serves_linesD:
  assumes "serves_lines read doc page" "k \<le> length doc"
  obtains out where "read k = Inr out" "co_start_offset out = k" "co_end_offset out = k + page k"
    "co_total_lines out = length doc" "co_output out = join [newline] (page_lines doc page k)"
    "k + page k \<le> length doc" "k = length doc \<or> 0 < page k"
proof -
  have "k + page k \<le> length doc \<and> (k = length doc \<or> 0 < page k) \<and> (case read k of Inl _ \<Rightarrow> False
      | Inr out \<Rightarrow> co_start_offset out = k \<and> co_end_offset out = k + page k \<and>
          co_total_lines out = length doc \<and> co_output out = join [newline] (page_lines doc page k))"
    by (rule mp [OF spec [OF assms(1) [unfolded serves_lines_def]] assms(2)])
  note page = this
  then obtain out where out: "read k = Inr out" by (cases "read k") simp_all
  show thesis by (rule that [of out]) (use page out in simp_all)
qed

lemma page_lines_clean: "\<forall>l \<in> set doc. clean_line l \<Longrightarrow> \<forall>l \<in> set (page_lines doc page k). clean_line l"
  by (auto simp: page_lines_def dest!: in_set_takeD in_set_dropD)

lemma take_page: "k + page k \<le> length doc \<Longrightarrow> take k doc @ page_lines doc page k = take (k + page k) doc"
  by (simp add: page_lines_def take_add)

lemma absorb_page:
  assumes "\<forall>l \<in> set doc. clean_line l" "ts_lines st = map Some (take k doc)" "ts_fetchedTo st = k" "k < length doc"
    and "co_start_offset out = k" "co_end_offset out = k + page k" "co_total_lines out = length doc"
    and "co_output out = join [newline] (page_lines doc page k)" "k + page k \<le> length doc" "0 < page k"
    and "page_lines doc page k \<noteq> [[]]"
  shows "ts_lines (absorbOutput st out) = map Some (take (k + page k) doc) \<and>
    ts_fetchedTo (absorbOutput st out) = k + page k \<and> ts_totalLines (absorbOutput st out) = length doc"
proof -
  have ne: "page_lines doc page k \<noteq> []" using assms by (simp add: page_lines_def)
  then have out: "co_output out \<noteq> []" using assms(8,11) by (simp add: join_Nil_iff)
  have "set_lines (ts_lines st) k (split_on newline (stripTerminalControlSequences (co_output out))) =
      map Some (take (k + page k) doc)"
    using set_lines_append [of "ts_lines st"] absorbed_lines [OF page_lines_clean [OF assms(1)] ne] assms(2,4,8)
      take_page [of k page doc] assms(9) by (simp flip: map_append)
  then show ?thesis using assms out by (simp add: absorbOutput_def Let_def)
qed

lemma fetchPages_step:
  assumes "read (ts_fetchedTo st) = Inr out"
  shows "fetchPages read st tm = (let st' = absorbOutput st out;
       tm' = (if co_status out \<noteq> Cmd_running then tm @ [out] else tm)
     in if ts_fetchedTo st' < ts_totalLines st' then fetchPages read st' tm'
        else Some (st'\<lparr>ts_error := None\<rparr>, tm'))"
  using assms by (subst fetchPages.simps) simp

lemma fetchPages_catch_up:
  assumes "serves_lines read doc page" "\<forall>l \<in> set doc. clean_line l"
    and "\<forall>k < length doc. page_lines doc page k \<noteq> [[]]"
  shows "ts_lines st = map Some (take k doc) \<Longrightarrow> ts_fetchedTo st = k \<Longrightarrow> k \<le> length doc \<Longrightarrow>
    \<exists>st' tm'. fetchPages read st tm = Some (st', tm') \<and> ts_lines st' = map Some doc \<and>
      ts_fetchedTo st' = length doc \<and> ts_totalLines st' = length doc \<and> ts_error st' = None"
proof (induction "length doc - k" arbitrary: k st tm rule: less_induct)
  case less
  obtain out where out: "read k = Inr out" "co_start_offset out = k" "co_end_offset out = k + page k"
    "co_total_lines out = length doc" "co_output out = join [newline] (page_lines doc page k)"
    "k + page k \<le> length doc" "k = length doc \<or> 0 < page k"
    using serves_linesD [OF assms(1) less.prems(3)] by blast
  let ?st = "absorbOutput st out"
  show ?case
  proof (cases "k = length doc")
    case True
    with out less.prems have "ts_lines ?st = map Some doc" "ts_fetchedTo ?st = length doc" "ts_totalLines ?st = length doc"
      by (auto simp: absorbOutput_def Let_def)
    with out less.prems True show ?thesis by (subst fetchPages_step) (auto simp: Let_def)
  next
    case False
    with less.prems(3) out(7) have k: "k < length doc" "0 < page k" by auto
    have abs: "ts_lines ?st = map Some (take (k + page k) doc)" "ts_fetchedTo ?st = k + page k" "ts_totalLines ?st = length doc"
      using absorb_page [OF assms(2) less.prems(1,2) k(1) out(2-6) k(2)] assms(3) k(1) by auto
    show ?thesis
    proof (cases "k + page k < length doc")
      case True
      have "\<exists>st' tm'. fetchPages read ?st (if co_status out \<noteq> Cmd_running then tm @ [out] else tm) = Some (st', tm') \<and>
          ts_lines st' = map Some doc \<and> ts_fetchedTo st' = length doc \<and> ts_totalLines st' = length doc \<and> ts_error st' = None"
        using k abs True by (intro less.hyps [of "k + page k"]) auto
      then show ?thesis using out(1) less.prems(2) abs True by (subst fetchPages_step) (auto simp: Let_def)
    next
      case False
      then have "k + page k = length doc" using out(6) by simp
      with abs show ?thesis using out(1) less.prems(2) by (subst fetchPages_step) (auto simp: Let_def)
    qed
  qed
qed

lemma absorb_blank_page:
  assumes "co_output out = []"
  shows "ts_fetchedTo (absorbOutput st out) = ts_fetchedTo st" "ts_totalLines (absorbOutput st out) = co_total_lines out"
  using assms by (auto simp: absorbOutput_def Let_def)

lemma fetchPages_blank_page:
  assumes "read k = Inr out" "co_output out = []" "k < co_total_lines out"
  shows "ts_fetchedTo st = k \<Longrightarrow> fetchPages read st tm = None"
proof (rule ccontr)
  assume k: "ts_fetchedTo st = k" and "fetchPages read st tm \<noteq> None"
  then obtain r where "fetchPages read st tm = Some r" by auto
  then have "read = read \<longrightarrow> ts_fetchedTo st \<noteq> k"
  proof (rule fetchPages.raw_induct [where P = "\<lambda>rd st tm r. rd = read \<longrightarrow> ts_fetchedTo st \<noteq> k", rotated], goal_cases)
    case (1 f rd st tm r)
    have "rd = read \<Longrightarrow> ts_fetchedTo st = k \<Longrightarrow>
        f rd (absorbOutput st out) (if co_status out \<noteq> Cmd_running then tm @ [out] else tm) = Some r"
      using 1(2) assms by (simp add: absorb_blank_page Let_def)
    with 1(1) have "rd = read \<Longrightarrow> ts_fetchedTo st = k \<Longrightarrow> ts_fetchedTo (absorbOutput st out) \<noteq> k" by blast
    then show ?case using assms(2) by (auto simp: absorb_blank_page)
  qed
  with k show False by simp
qed

section \<open>Properties\<close>

text \<open>
  C8: The ledger of a sandbox survives a reload: what is loaded after a save is exactly the last 200
  entries, in order, with every field, and saving one sandbox's ledger changes no other's.
\<close>

theorem ledger_roundtrip:
  assumes "bs_readable bs" "bs_writable bs" "i \<noteq> j"
  shows "loadLedger i (saveLedger i (map entry_json es) bs) = map entry_json (slice_last LEDGER_CAP es) \<and>
    ledger_entries (loadLedger i (saveLedger i (map entry_json es) bs)) = slice_last LEDGER_CAP es \<and>
    loadLedger j (saveLedger i (map entry_json es) bs) = loadLedger j bs"
  using assms by (simp add: saved_ledger_loads saved_ledger_other)

definition sample_entry :: "string \<Rightarrow> LedgerEntry" where
  "sample_entry c = entryFromSnapshot ''u'' 5 c ''w'' None"

theorem ledger_roundtrip_witness:
  "ledger_entries (loadLedger ''a'' (saveLedger ''a'' (map entry_json [sample_entry ''c''])
     \<lparr>bs_readable = True, bs_writable = True, bs_items = []\<rparr>)) = [sample_entry ''c'']"
  using ledger_roundtrip [of "\<lparr>bs_readable = True, bs_writable = True, bs_items = []\<rparr>" "''a''" "''b''" "[sample_entry ''c'']"]
    ledger_entries_json [of "[sample_entry ''c'']"]
  by (simp add: LEDGER_CAP_def)

text \<open>
  A transcript catches up completely.  From any fetched prefix, if the daemon serves the lines in
  pages and no page is a single empty line, paging ends, the transcript holds exactly the lines of
  the output in order without holes, nothing is left to fetch and the error is cleared.
\<close>

lemma transcript_catches_up:
  assumes "serves_lines read doc page" "\<forall>l \<in> set doc. clean_line l"
    and "\<forall>k < length doc. page_lines doc page k \<noteq> [[]]"
    and "ts_lines st = map Some (take k doc)" "ts_fetchedTo st = k" "k \<le> length doc"
  shows "\<exists>st' tm'. fetchPages read st tm = Some (st', tm') \<and> ts_lines st' = map Some doc \<and>
    ts_fetchedTo st' = length doc \<and> ts_totalLines st' = length doc \<and> ts_error st' = None"
  by (rule fetchPages_catch_up [OF assms])

definition sample_read :: "string list \<Rightarrow> nat \<Rightarrow> nat \<Rightarrow> RpcError + CommandOutput" where
  "sample_read doc limit k = Inr \<lparr>co_status = Cmd_ok, co_exit_code = Some 0, co_wall_time_seconds = 0,
     co_command_total_time_seconds = 0, co_start_offset = k, co_end_offset = min (k + limit) (length doc),
     co_total_lines = length doc, co_original_token_count = 0,
     co_output = join [newline] (take limit (drop k doc)), co_command_session_id = None,
     co_workspace_session_id = None, co_publish_rejected = None, co_publish_reject_class = None\<rparr>"

lemma sample_read_serves: "0 < limit \<Longrightarrow> serves_lines (sample_read doc limit) doc (\<lambda>k. min limit (length doc - k))"
  by (auto simp: serves_lines_def sample_read_def page_lines_def min_def)

lemma transcript_catches_up_witness:
  "\<exists>st' tm'. fetchPages (sample_read [''a'', ''b'', ''c''] 2) new_transcript [] = Some (st', tm') \<and>
     ts_lines st' = [Some ''a'', Some ''b'', Some ''c'']"
proof -
  let ?doc = "[''a'', ''b'', ''c'']"
  have "\<forall>k < length ?doc. page_lines ?doc (\<lambda>k. min 2 (length ?doc - k)) k \<noteq> [[]]"
    by (auto simp: page_lines_def less_Suc_eq)
  moreover have "\<forall>l \<in> set ?doc. clean_line l" by (simp add: clean_line_def non_text_def code_in_def)
  moreover have "serves_lines (sample_read ?doc 2) ?doc (\<lambda>k. min 2 (length ?doc - k))"
    by (rule sample_read_serves) simp
  ultimately obtain st' tm' where "fetchPages (sample_read ?doc 2) new_transcript [] = Some (st', tm')"
    "ts_lines st' = map Some ?doc"
    using transcript_catches_up [of "sample_read ?doc 2" ?doc "\<lambda>k. min 2 (length ?doc - k)" new_transcript 0 "[]"]
    by (auto simp: new_transcript_def)
  then show ?thesis by auto
qed

text \<open>
  A page that is one empty line is never absorbed: its text is empty, so the fetched offset stays
  while more lines are announced, and the paging loop asks for the same page without end.
\<close>

lemma transcript_blank_page_diverges:
  assumes "serves_lines read doc page" "k < length doc" "page_lines doc page k = [[]]" "ts_fetchedTo st = k"
  shows "fetchPages read st tm = None"
proof -
  obtain out where "read k = Inr out" "co_total_lines out = length doc"
    "co_output out = join [newline] (page_lines doc page k)"
    using serves_linesD [OF assms(1), of k] assms(2) by auto
  with assms show ?thesis by (intro fetchPages_blank_page [of read k out]) auto
qed

lemma transcript_blank_page_diverges_witness:
  "fetchPages (sample_read [[]] 1000) new_transcript [] = None"
  using transcript_blank_page_diverges [of "sample_read [[]] 1000" "[[]]" "\<lambda>k. min 1000 (length [[]] - k)" 0 new_transcript "[]"]
    sample_read_serves [of 1000 "[[]]"]
  by (simp add: page_lines_def new_transcript_def)

end
