(* ===== verification/Transcript_View.thy ===== *)
theory Transcript_View
  imports Ledger Machine
begin

text \<open>
  The transcript of one command: \<^verbatim>\<open>web/src/pages/sandbox/terminal/TranscriptViewer.tsx\<close> as an event machine.  Its
  state is the cached transcript, the page in flight (\<^verbatim>\<open>fetchingRef\<close> is set exactly while there is one), the pending
  scroll timer and the dependencies of the scroll effect.  The virtualizer is not modelled but for the calls of
  \<^verbatim>\<open>scrollToIndex\<close>; the position of the pane arrives with the event of the timer.
\<close>

section \<open>State and operations\<close>

record transcript_view =
  tv_sandboxId :: string
  tv_commandSessionId :: string
  tv_running :: bool
  tv_state :: TranscriptState
  tv_fetching :: "nat option"
  tv_terminal :: "CommandOutput list"
  tv_settle :: bool
  tv_deps :: "(nat \<times> bool) option"
  tv_scrolls :: "nat list"

definition PAGE_LIMIT :: int where
  "PAGE_LIMIT = 1000"

text \<open>The request of a page, and a call of \<^verbatim>\<open>fetchPages\<close>: nothing while another is running.\<close>

definition page_args :: "string \<Rightarrow> nat \<Rightarrow> (string \<times> json) list" where
  "page_args commandSessionId offset = [(''command_session_id'', JStr commandSessionId), (''start_offset'', JNum (int offset)),
     (''limit'', JNum PAGE_LIMIT)]"

definition fetch_call :: "transcript_view \<Rightarrow> transcript_view" where
  "fetch_call s = (if tv_fetching s \<noteq> None then s else s\<lparr>tv_fetching := Some (ts_fetchedTo (tv_state s))\<rparr>)"

definition page_answered :: "RpcError + CommandOutput \<Rightarrow> transcript_view \<Rightarrow> transcript_view" where
  "page_answered answer s = (case answer of
     Inl e \<Rightarrow> s\<lparr>tv_state := (tv_state s)\<lparr>ts_error := Some (err_message e)\<rparr>, tv_fetching := None\<rparr>
   | Inr out \<Rightarrow>
       (let state = absorbOutput (tv_state s) out;
            s1 = s\<lparr>tv_state := state, tv_terminal := (if co_status out \<noteq> Cmd_running then tv_terminal s @ [out] else tv_terminal s)\<rparr>
        in if ts_fetchedTo state < ts_totalLines state then s1\<lparr>tv_fetching := Some (ts_fetchedTo state)\<rparr>
           else s1\<lparr>tv_state := state\<lparr>ts_error := None\<rparr>, tv_fetching := None\<rparr>))"

text \<open>The timer reads the pane as it is when it fires; without a pane it does nothing.\<close>

definition tail_near :: "int \<times> int \<times> int \<Rightarrow> bool" where
  "tail_near = (\<lambda>(scrollHeight, scrollTop, clientHeight). scrollHeight - scrollTop - clientHeight < 40)"

definition scroll_settled :: "(int \<times> int \<times> int) option \<Rightarrow> transcript_view \<Rightarrow> transcript_view" where
  "scroll_settled pane s = (let s1 = s\<lparr>tv_settle := False\<rparr> in case pane of
     None \<Rightarrow> s1
   | Some p \<Rightarrow> s1\<lparr>tv_state := (tv_state s)\<lparr>ts_tailPinned := tail_near p\<rparr>\<rparr>)"

definition scroll_effect :: "transcript_view \<Rightarrow> transcript_view" where
  "scroll_effect s = (let count' = length (ts_lines (tv_state s)); pinned = ts_tailPinned (tv_state s) in
     if tv_deps s = Some (count', pinned) then s
     else s\<lparr>tv_deps := Some (count', pinned),
            tv_scrolls := (if pinned \<and> 0 < count' then tv_scrolls s @ [count' - 1] else tv_scrolls s)\<rparr>)"

text \<open>
  \<open>Tv_fetch\<close> is every call of \<^verbatim>\<open>fetchPages\<close>: its effect, the poll coordinator and the nudge of the input bar;
  \<open>Tv_unmount\<close> clears the timer.
\<close>

datatype transcript_event = Tv_fetch | Tv_answer "RpcError + CommandOutput" | Tv_scroll bool | Tv_settled "(int \<times> int \<times> int) option"
  | Tv_running bool | Tv_unmount

fun transcript_handle :: "transcript_view \<Rightarrow> transcript_event \<Rightarrow> transcript_view" where
  "transcript_handle s Tv_fetch = fetch_call s"
| "transcript_handle s (Tv_answer a) = (if tv_fetching s = None then s else page_answered a s)"
| "transcript_handle s (Tv_scroll pane) = (if pane then s\<lparr>tv_settle := True\<rparr> else s)"
| "transcript_handle s (Tv_settled pane) = (if tv_settle s then scroll_settled pane s else s)"
| "transcript_handle s (Tv_running r) = s\<lparr>tv_running := r\<rparr>"
| "transcript_handle s Tv_unmount = s\<lparr>tv_settle := False\<rparr>"

definition transcript_step :: "transcript_view \<Rightarrow> transcript_event \<Rightarrow> transcript_view" where
  "transcript_step s e = scroll_effect (transcript_handle s e)"

definition transcript_init :: "string \<Rightarrow> string \<Rightarrow> bool \<Rightarrow> TranscriptState \<Rightarrow> transcript_view" where
  "transcript_init sandboxId commandSessionId running state =
     scroll_effect (fetch_call \<lparr>tv_sandboxId = sandboxId, tv_commandSessionId = commandSessionId, tv_running = running, tv_state = state,
       tv_fetching = None, tv_terminal = [], tv_settle = False, tv_deps = None, tv_scrolls = []\<rparr>)"

section \<open>What is shown\<close>

definition stale_alert :: "transcript_view \<Rightarrow> bool" where
  "stale_alert s = (ts_error (tv_state s) \<noteq> None \<and> ts_error (tv_state s) \<noteq> Some [])"

definition line_text :: "transcript_view \<Rightarrow> nat \<Rightarrow> string" where
  "line_text s i = (let ls = ts_lines (tv_state s) in if i < length ls then (case ls ! i of None \<Rightarrow> [] | Some l \<Rightarrow> l) else [])"

definition empty_note :: "transcript_view \<Rightarrow> string option" where
  "empty_note s = (if ts_lines (tv_state s) = []
     then Some (if tv_running s then ''waiting for output'' @ [CHR 0xE2, CHR 0x80, CHR 0xA6] else ''no output'') else None)"

definition transcript_footer :: "transcript_view \<Rightarrow> string" where
  "transcript_footer s = ''lines '' @ show_nat (ts_fetchedTo (tv_state s)) @ '' of '' @ show_nat (ts_totalLines (tv_state s)) @
     (if tv_running s then [CHR '' '', CHR 0xB7] @ '' tailing'' else [])"

section \<open>Invariant\<close>

text \<open>
  The page in flight starts where the transcript ends, and after every event the pane has been scrolled to the last
  line if it follows the tail.
\<close>

definition transcript_inv :: "transcript_view \<Rightarrow> bool" where
  "transcript_inv s = ((\<forall>k. tv_fetching s = Some k \<longrightarrow> k = ts_fetchedTo (tv_state s))
    \<and> tv_deps s = Some (length (ts_lines (tv_state s)), ts_tailPinned (tv_state s))
    \<and> (ts_tailPinned (tv_state s) \<and> ts_lines (tv_state s) \<noteq> [] \<longrightarrow> at_last (tv_scrolls s) = Some (length (ts_lines (tv_state s)) - 1)))"

lemma scroll_effect_simps [simp]:
  "tv_state (scroll_effect s) = tv_state s" "tv_fetching (scroll_effect s) = tv_fetching s" "tv_terminal (scroll_effect s) = tv_terminal s"
  "tv_running (scroll_effect s) = tv_running s" "tv_settle (scroll_effect s) = tv_settle s"
  "tv_sandboxId (scroll_effect s) = tv_sandboxId s" "tv_commandSessionId (scroll_effect s) = tv_commandSessionId s"
  by (simp_all add: scroll_effect_def Let_def)

lemma scroll_effect_follows:
  assumes "tv_deps s = Some (length (ts_lines (tv_state s)), ts_tailPinned (tv_state s)) \<Longrightarrow>
    ts_tailPinned (tv_state s) \<and> ts_lines (tv_state s) \<noteq> [] \<Longrightarrow> at_last (tv_scrolls s) = Some (length (ts_lines (tv_state s)) - 1)"
  shows "tv_deps (scroll_effect s) = Some (length (ts_lines (tv_state s)), ts_tailPinned (tv_state s))
    \<and> (ts_tailPinned (tv_state s) \<and> ts_lines (tv_state s) \<noteq> [] \<longrightarrow>
         at_last (tv_scrolls (scroll_effect s)) = Some (length (ts_lines (tv_state s)) - 1))"
  using assms by (auto simp: scroll_effect_def Let_def)

lemma handle_effects [simp]:
  "tv_deps (transcript_handle s e) = tv_deps s" "tv_scrolls (transcript_handle s e) = tv_scrolls s"
  by (cases e; simp add: fetch_call_def page_answered_def scroll_settled_def Let_def split: sum.splits option.splits)+

lemma handle_fetching:
  "\<forall>k. tv_fetching s = Some k \<longrightarrow> k = ts_fetchedTo (tv_state s) \<Longrightarrow>
   \<forall>k. tv_fetching (transcript_handle s e) = Some k \<longrightarrow> k = ts_fetchedTo (tv_state (transcript_handle s e))"
  by (cases e) (auto simp: fetch_call_def page_answered_def scroll_settled_def Let_def split: sum.splits option.splits)

lemma transcript_inv_step: "transcript_inv s \<Longrightarrow> transcript_inv (transcript_step s e)"
  unfolding transcript_inv_def transcript_step_def
  using handle_fetching [of s e] scroll_effect_follows [of "transcript_handle s e"] by auto

interpretation transcript: event_machine transcript_step transcript_inv
  by unfold_locales (rule transcript_inv_step)

lemma transcript_inv_init: "transcript_inv (transcript_init i c r state)"
  unfolding transcript_inv_def transcript_init_def
  using scroll_effect_follows [of "fetch_call \<lparr>tv_sandboxId = i, tv_commandSessionId = c, tv_running = r, tv_state = state,
       tv_fetching = None, tv_terminal = [], tv_settle = False, tv_deps = None, tv_scrolls = []\<rparr>"]
  by (auto simp: fetch_call_def)

section \<open>The machine runs the loop\<close>

text \<open>The machine with a daemon that answers every request: as long as a page is in flight, its answer arrives.\<close>

fun transcript_serve :: "nat \<Rightarrow> (nat \<Rightarrow> RpcError + CommandOutput) \<Rightarrow> transcript_view \<Rightarrow> transcript_view" where
  "transcript_serve 0 read s = s"
| "transcript_serve (Suc n) read s = (case tv_fetching s of None \<Rightarrow> s
     | Some k \<Rightarrow> transcript_serve n read (transcript_step s (Tv_answer (read k))))"

lemma serve_is_run: "\<exists>es. transcript_serve n read s = run transcript_step s es"
proof (induction n arbitrary: s)
  case 0
  show ?case by (rule exI [of _ "[]"]) simp
next
  case (Suc n)
  show ?case
  proof (cases "tv_fetching s")
    case None
    then show ?thesis by (intro exI [of _ "[]"]) simp
  next
    case (Some k)
    obtain es where "transcript_serve n read (transcript_step s (Tv_answer (read k))) = run transcript_step (transcript_step s (Tv_answer (read k))) es"
      using Suc by blast
    with Some show ?thesis by (intro exI [of _ "Tv_answer (read k) # es"]) simp
  qed
qed

lemma serve_fetchPages:
  assumes "fetchPages read st tm = Some r"
  shows "\<forall>s. tv_state s = st \<and> tv_fetching s = Some (ts_fetchedTo st) \<and> tv_terminal s = tm \<longrightarrow>
    (\<exists>n. tv_fetching (transcript_serve n read s) = None \<and> tv_state (transcript_serve n read s) = fst r
       \<and> tv_terminal (transcript_serve n read s) = snd r)"
  using assms
proof (rule fetchPages.raw_induct [rotated], goal_cases)
  case (1 f read st tm r)
  show ?case
  proof (intro allI impI, elim conjE)
    fix s :: transcript_view assume s: "tv_state s = st" "tv_fetching s = Some (ts_fetchedTo st)" "tv_terminal s = tm"
    let ?s = "transcript_step s (Tv_answer (read (ts_fetchedTo st)))"
    show "\<exists>n. tv_fetching (transcript_serve n read s) = None \<and> tv_state (transcript_serve n read s) = fst r
       \<and> tv_terminal (transcript_serve n read s) = snd r"
    proof (cases "\<exists>out. read (ts_fetchedTo st) = Inr out \<and> ts_fetchedTo (absorbOutput st out) < ts_totalLines (absorbOutput st out)")
      case True
      then obtain out where out: "read (ts_fetchedTo st) = Inr out" "ts_fetchedTo (absorbOutput st out) < ts_totalLines (absorbOutput st out)"
        by blast
      let ?tm = "if co_status out \<noteq> Cmd_running then tm @ [out] else tm"
      have rest: "f read (absorbOutput st out) ?tm = Some r" using 1(2) out by (simp add: Let_def)
      have "tv_state ?s = absorbOutput st out" "tv_fetching ?s = Some (ts_fetchedTo (absorbOutput st out))" "tv_terminal ?s = ?tm"
        using s out by (simp_all add: transcript_step_def page_answered_def Let_def)
      then obtain n where "tv_fetching (transcript_serve n read ?s) = None \<and> tv_state (transcript_serve n read ?s) = fst r
          \<and> tv_terminal (transcript_serve n read ?s) = snd r" using 1(1) [OF rest] by blast
      then show ?thesis using s(2) by (intro exI [of _ "Suc n"]) simp
    next
      case False
      then show ?thesis using 1(2) s
        by (intro exI [of _ "Suc 0"]) (auto simp: transcript_step_def page_answered_def Let_def split: sum.splits)
    qed
  qed
qed

section \<open>Properties\<close>

lemma fetch_call_idle: "tv_fetching s = None \<Longrightarrow> tv_fetching (transcript_step s Tv_fetch) = Some (ts_fetchedTo (tv_state s))
    \<and> tv_state (transcript_step s Tv_fetch) = tv_state s \<and> tv_running (transcript_step s Tv_fetch) = tv_running s \<and> tv_terminal (transcript_step s Tv_fetch) = tv_terminal s"
  by (simp add: transcript_step_def fetch_call_def)

lemma serve_keeps:
  "tv_running (transcript_serve n read s) = tv_running s \<and> ts_tailPinned (tv_state (transcript_serve n read s)) = ts_tailPinned (tv_state s)"
proof (induction n arbitrary: s)
  case (Suc n)
  have "tv_running (transcript_step s (Tv_answer a)) = tv_running s
      \<and> ts_tailPinned (tv_state (transcript_step s (Tv_answer a))) = ts_tailPinned (tv_state s)" for a
    by (simp add: transcript_step_def page_answered_def absorbOutput_def Let_def split: sum.splits)
  then show ?case using Suc by (simp split: option.splits)
qed simp



text \<open>
  A failed page changes nothing of the transcript but the notice, and the next call asks for the same page again.
\<close>

lemma transcript_failure_retries:
  assumes "tv_fetching s = Some k" "transcript_inv s"
  shows "let t = transcript_step s (Tv_answer (Inl e)) in
    ts_lines (tv_state t) = ts_lines (tv_state s) \<and> ts_error (tv_state t) = Some (err_message e)
    \<and> tv_fetching (transcript_step t Tv_fetch) = Some k \<and> tv_terminal t = tv_terminal s"
  using assms by (simp add: Let_def transcript_step_def page_answered_def fetch_call_def transcript_inv_def)

end
