(* ===== verification/Daemon_Metrics.thy ===== *)
theory Daemon_Metrics
  imports Api_Types
begin

text \<open>
  The history of daemon samples: \<^verbatim>\<open>web/src/core/daemonMetrics.ts\<close>.  A point is a sample with
  the rates derived from its predecessor, as a record extension.  The history is well formed when
  it is within its limit, strictly ordered in time, of one process, and every rate in it is the
  rate over the step from the point before.
\<close>

definition DAEMON_HISTORY_LIMIT :: nat where "DAEMON_HISTORY_LIMIT = 900"

record DaemonMetricPoint = DaemonProcessMetrics +
  dp_sample_period_ms :: "int option"
  dp_cpu_percent :: "rat option"
  dp_io_read_bytes_per_second :: "rat option"
  dp_io_write_bytes_per_second :: "rat option"
  dp_context_switches_per_second :: "rat option"

definition rate :: "int option \<Rightarrow> int option \<Rightarrow> int option \<Rightarrow> rat \<Rightarrow> rat option" where
  "rate previous current periodMs scale = (case (previous, current, periodMs) of
     (Some p, Some c, Some ms) \<Rightarrow>
       if ms \<le> 0 then None
       else let delta = c - p in if 0 \<le> delta then Some (of_int delta * scale / of_int ms) else None
   | _ \<Rightarrow> None)"

definition contextSwitches :: "'a DaemonProcessMetrics_scheme \<Rightarrow> int option" where
  "contextSwitches sample = (case (dm_voluntary_context_switches sample, dm_involuntary_context_switches sample) of
     (Some v, Some i) \<Rightarrow> Some (v + i) | _ \<Rightarrow> None)"

definition sameProcess :: "DaemonMetricPoint option \<Rightarrow> DaemonProcessMetrics \<Rightarrow> bool" where
  "sameProcess previous sample = (case previous of None \<Rightarrow> False
     | Some p \<Rightarrow> dm_pid p = dm_pid sample \<and> dm_start_time_ticks p = dm_start_time_ticks sample)"

definition deriveDaemonMetric :: "DaemonMetricPoint option \<Rightarrow> DaemonProcessMetrics \<Rightarrow> DaemonMetricPoint" where
  "deriveDaemonMetric previous sample =
     (let samplePeriodMs = map_option (\<lambda>p. dm_sampled_at_unix_ms sample - dm_sampled_at_unix_ms p) previous
      in DaemonProcessMetrics.extend sample
        \<lparr>dp_sample_period_ms = (case samplePeriodMs of None \<Rightarrow> None | Some ms \<Rightarrow> if 0 < ms then Some ms else None),
         dp_cpu_percent = rate (Option.bind previous dm_cpu_time_us) (dm_cpu_time_us sample) samplePeriodMs (1 / 10),
         dp_io_read_bytes_per_second =
           rate (Option.bind previous dm_io_read_bytes) (dm_io_read_bytes sample) samplePeriodMs 1000,
         dp_io_write_bytes_per_second =
           rate (Option.bind previous dm_io_write_bytes) (dm_io_write_bytes sample) samplePeriodMs 1000,
         dp_context_switches_per_second =
           rate (Option.bind previous contextSwitches) (contextSwitches sample) samplePeriodMs 1000\<rparr>)"

definition appendDaemonMetric :: "DaemonMetricPoint list \<Rightarrow> DaemonProcessMetrics \<Rightarrow> nat \<Rightarrow> DaemonMetricPoint list" where
  "appendDaemonMetric history sample limit =
     (if \<not> dm_available sample \<or> limit < 1 then history
      else let last_point = at_last history in
        if (case last_point of None \<Rightarrow> False
            | Some p \<Rightarrow> dm_sampled_at_unix_ms sample \<le> dm_sampled_at_unix_ms p) then history
        else let previous = (if sameProcess last_point sample then last_point else None);
                 point = deriveDaemonMetric previous sample;
                 next = (if previous = None \<and> last_point \<noteq> None then [point] else history @ [point])
             in if limit < length next then drop (length next - limit) next else next)"

section \<open>Well-formed histories\<close>

definition same_daemon :: "DaemonMetricPoint \<Rightarrow> DaemonMetricPoint \<Rightarrow> bool" where
  "same_daemon p q = (dm_pid p = dm_pid q \<and> dm_start_time_ticks p = dm_start_time_ticks q)"

definition derived_from :: "DaemonMetricPoint \<Rightarrow> DaemonMetricPoint \<Rightarrow> bool" where
  "derived_from p q = (dm_sampled_at_unix_ms p < dm_sampled_at_unix_ms q \<and> same_daemon p q \<and>
     q = deriveDaemonMetric (Some p) (DaemonProcessMetrics.truncate q))"

definition history_ok :: "nat \<Rightarrow> DaemonMetricPoint list \<Rightarrow> bool" where
  "history_ok limit h = (length h \<le> limit \<and> (\<forall>p \<in> set h. dm_available p) \<and> successively derived_from h)"

lemma derive_fields [simp]:
  "dm_sampled_at_unix_ms (deriveDaemonMetric previous sample) = dm_sampled_at_unix_ms sample"
  "dm_pid (deriveDaemonMetric previous sample) = dm_pid sample"
  "dm_start_time_ticks (deriveDaemonMetric previous sample) = dm_start_time_ticks sample"
  "dm_available (deriveDaemonMetric previous sample) = dm_available sample"
  "DaemonProcessMetrics.truncate (deriveDaemonMetric previous sample) = sample"
  by (simp_all add: deriveDaemonMetric_def Let_def DaemonProcessMetrics.defs)

lemma truncate_fields:
  "dm_sampled_at_unix_ms (DaemonProcessMetrics.truncate p) = dm_sampled_at_unix_ms p"
  "dm_pid (DaemonProcessMetrics.truncate p) = dm_pid p"
  "dm_start_time_ticks (DaemonProcessMetrics.truncate p) = dm_start_time_ticks p"
  by (simp_all add: DaemonProcessMetrics.defs)

lemma derived_from_derive:
  "dm_sampled_at_unix_ms p < dm_sampled_at_unix_ms sample \<Longrightarrow> sameProcess (Some p) sample \<Longrightarrow>
   derived_from p (deriveDaemonMetric (Some p) sample)"
  by (simp add: derived_from_def same_daemon_def sameProcess_def)

lemma successively_suffix: "successively P (xs @ ys) \<Longrightarrow> successively P ys"
  by (simp add: successively_append_iff)

lemma history_ok_drop: "successively derived_from h \<Longrightarrow> successively derived_from (drop n h)"
  by (metis append_take_drop_id successively_suffix)

lemma history_ok_append:
  assumes "history_ok limit h"
  shows "history_ok limit (appendDaemonMetric h sample limit)"
proof (cases "at_last h")
  case None
  with assms show ?thesis by (auto simp: history_ok_def appendDaemonMetric_def Let_def)
next
  case (Some p)
  then obtain h0 where h: "h = h0 @ [p]" by (rule at_last_SomeE)
  consider (skip) "appendDaemonMetric h sample limit = h"
    | (restart) "dm_available sample" "1 \<le> limit"
        "appendDaemonMetric h sample limit = [deriveDaemonMetric None sample]"
    | (extend) "dm_available sample" "1 \<le> limit"
        "dm_sampled_at_unix_ms p < dm_sampled_at_unix_ms sample" "sameProcess (Some p) sample"
        "appendDaemonMetric h sample limit = drop (Suc (length h) - limit) (h @ [deriveDaemonMetric (Some p) sample])"
    using Some by (fastforce simp: appendDaemonMetric_def Let_def split: if_splits)
  then show ?thesis
  proof cases
    case extend
    have "successively derived_from (h @ [deriveDaemonMetric (Some p) sample])"
      using assms extend h by (auto simp: history_ok_def successively_append_iff derived_from_derive)
    then have "successively derived_from (appendDaemonMetric h sample limit)"
      unfolding extend(5) by (rule history_ok_drop)
    moreover have "\<forall>q \<in> set (appendDaemonMetric h sample limit). dm_available q"
      unfolding extend(5) using assms extend(1) by (auto simp: history_ok_def dest!: in_set_dropD)
    ultimately show ?thesis using extend(2) by (simp add: history_ok_def extend(5))
  qed (use assms in \<open>auto simp: history_ok_def\<close>)
qed

lemma derived_from_trans_time:
  "successively derived_from h \<Longrightarrow> sorted_wrt (\<lambda>p q. dm_sampled_at_unix_ms p < dm_sampled_at_unix_ms q) h"
proof -
  assume "successively derived_from h"
  then have "successively (\<lambda>p q. dm_sampled_at_unix_ms p < dm_sampled_at_unix_ms q) h"
    by (rule successively_mono) (auto simp: derived_from_def)
  then show ?thesis by (subst (asm) successively_iff_sorted_wrt_strong) auto
qed

lemma rate_nonneg: "rate a b c s = Some r \<Longrightarrow> 0 \<le> s \<Longrightarrow> 0 \<le> r"
  by (auto simp: rate_def Let_def split: option.splits if_splits)

lemma history_ok_fold:
  "history_ok limit h \<Longrightarrow> history_ok limit (foldl (\<lambda>h s. appendDaemonMetric h s limit) h samples)"
  by (induction samples arbitrary: h) (auto intro: history_ok_append)

lemma same_daemon_history:
  assumes "successively derived_from h" "p \<in> set h" "q \<in> set h"
  shows "same_daemon p q"
proof -
  have "successively same_daemon h"
    using assms(1) by (rule successively_mono) (auto simp: derived_from_def)
  then have "sorted_wrt same_daemon h"
    by (subst (asm) successively_iff_sorted_wrt_strong) (auto simp: same_daemon_def)
  then have "i \<le> j \<Longrightarrow> j < length h \<Longrightarrow> same_daemon (h ! i) (h ! j)" for i j
    by (cases "i = j") (auto simp: sorted_wrt_iff_nth_less same_daemon_def)
  moreover obtain i j where "i < length h" "j < length h" "p = h ! i" "q = h ! j"
    using assms(2,3) by (auto simp: in_set_conv_nth)
  ultimately show ?thesis by (metis nle_le same_daemon_def)
qed

lemma derived_period:
  assumes "derived_from p q"
  shows "dp_sample_period_ms q = Some (dm_sampled_at_unix_ms q - dm_sampled_at_unix_ms p)"
proof -
  let ?s = "DaemonProcessMetrics.truncate q"
  have q: "q = deriveDaemonMetric (Some p) ?s" using assms by (simp add: derived_from_def)
  have "dm_sampled_at_unix_ms ?s = dm_sampled_at_unix_ms q" by (simp add: DaemonProcessMetrics.defs)
  moreover have "dm_sampled_at_unix_ms p < dm_sampled_at_unix_ms q" using assms by (simp add: derived_from_def)
  ultimately show ?thesis
    by (subst q) (simp add: deriveDaemonMetric_def Let_def DaemonProcessMetrics.defs)
qed

lemma derived_cpu_nonneg: "derived_from p q \<Longrightarrow> dp_cpu_percent q = Some c \<Longrightarrow> 0 \<le> c"
proof -
  assume "derived_from p q" and c: "dp_cpu_percent q = Some c"
  then have "q = deriveDaemonMetric (Some p) (DaemonProcessMetrics.truncate q)" by (simp add: derived_from_def)
  then have "dp_cpu_percent q = dp_cpu_percent (deriveDaemonMetric (Some p) (DaemonProcessMetrics.truncate q))"
    by simp
  also have "\<dots> = rate (dm_cpu_time_us p) (dm_cpu_time_us (DaemonProcessMetrics.truncate q))
      (Some (dm_sampled_at_unix_ms (DaemonProcessMetrics.truncate q) - dm_sampled_at_unix_ms p)) (1 / 10)"
    by (simp add: deriveDaemonMetric_def Let_def DaemonProcessMetrics.extend_def)
  finally show "0 \<le> c" using c rate_nonneg by fastforce
qed

lemma append_increasing:
  assumes "dm_available sample" "0 < limit"
    and "\<And>p. at_last h = Some p \<Longrightarrow> dm_sampled_at_unix_ms p < dm_sampled_at_unix_ms sample \<and> sameProcess (Some p) sample"
  shows "map DaemonProcessMetrics.truncate (appendDaemonMetric h sample limit) =
      slice_last limit (map DaemonProcessMetrics.truncate h @ [sample])"
proof (cases "at_last h")
  case None
  with assms show ?thesis by (simp add: appendDaemonMetric_def Let_def)
next
  case (Some p)
  with assms show ?thesis
    by (auto simp: appendDaemonMetric_def Let_def slice_last_def drop_map [symmetric] not_le)
qed

section \<open>Properties\<close>


definition sample_metrics :: "int \<Rightarrow> int \<Rightarrow> int \<Rightarrow> DaemonProcessMetrics" where
  "sample_metrics t pid cpu = \<lparr>dm_available = True, dm_error = None, dm_sampled_at_unix_ms = t, dm_pid = pid,
     dm_name = None, dm_state = None, dm_virtual_memory_bytes = None, dm_resident_memory_bytes = None,
     dm_peak_resident_memory_bytes = None, dm_proportional_set_size_bytes = None,
     dm_unique_set_size_bytes = None, dm_private_dirty_bytes = None, dm_anonymous_huge_pages_bytes = None,
     dm_anonymous_memory_bytes = None, dm_file_memory_bytes = None, dm_shared_memory_bytes = None,
     dm_data_memory_bytes = None, dm_swap_bytes = None, dm_cpu_time_us = Some cpu, dm_start_time_ticks = None,
     dm_thread_count = None, dm_file_descriptor_count = None, dm_io_read_bytes = None, dm_io_write_bytes = None,
     dm_read_syscalls = None, dm_write_syscalls = None, dm_voluntary_context_switches = None,
     dm_involuntary_context_switches = None, dm_cgroup_memberships = [], dm_cgroup_path = None,
     dm_warnings = [], dm_active_commands = None, dm_open_workspaces = None\<rparr>"


text \<open>
  Nothing is lost that should be kept: available samples of one process with increasing
  timestamps give a history that holds exactly the last \<open>limit\<close> of them.
\<close>

lemma daemon_history_complete:
  assumes "0 < limit" "\<forall>s \<in> set samples. dm_available s"
    and "sorted_wrt (\<lambda>s t. dm_sampled_at_unix_ms s < dm_sampled_at_unix_ms t \<and> dm_pid s = dm_pid t \<and>
      dm_start_time_ticks s = dm_start_time_ticks t) samples"
  shows "map DaemonProcessMetrics.truncate (foldl (\<lambda>h s. appendDaemonMetric h s limit) [] samples) =
    slice_last limit samples"
  using assms(2,3)
proof (induction samples rule: rev_induct)
  case (snoc s samples)
  let ?h = "foldl (\<lambda>h s. appendDaemonMetric h s limit) [] samples"
  have IH: "map DaemonProcessMetrics.truncate ?h = slice_last limit samples"
    using snoc by (simp add: sorted_wrt_append)
  have "dm_sampled_at_unix_ms p < dm_sampled_at_unix_ms s \<and> sameProcess (Some p) s" if "at_last ?h = Some p" for p
  proof -
    have "DaemonProcessMetrics.truncate p \<in> set (map DaemonProcessMetrics.truncate ?h)"
      using that by (auto elim: at_last_SomeE)
    then have "DaemonProcessMetrics.truncate p \<in> set samples"
      unfolding IH by (rule subsetD [OF set_slice_last_subset])
    moreover have "\<forall>x \<in> set samples. dm_sampled_at_unix_ms x < dm_sampled_at_unix_ms s \<and> dm_pid x = dm_pid s \<and>
        dm_start_time_ticks x = dm_start_time_ticks s"
      using snoc.prems(2) by (simp add: sorted_wrt_append)
    ultimately have "dm_sampled_at_unix_ms (DaemonProcessMetrics.truncate p) < dm_sampled_at_unix_ms s \<and>
        dm_pid (DaemonProcessMetrics.truncate p) = dm_pid s \<and>
        dm_start_time_ticks (DaemonProcessMetrics.truncate p) = dm_start_time_ticks s" by blast
    then show ?thesis by (simp add: sameProcess_def truncate_fields)
  qed
  then have "map DaemonProcessMetrics.truncate (appendDaemonMetric ?h s limit) =
      slice_last limit (slice_last limit samples @ [s])"
    using snoc.prems(1) assms(1) append_increasing [of s limit ?h] by (simp add: IH)
  also have "\<dots> = slice_last limit (samples @ [s])"
    using assms(1) by (rule slice_last_append_snoc)
  finally show ?case by simp
qed simp

lemma daemon_history_complete_witness:
  "map DaemonProcessMetrics.truncate (foldl (\<lambda>h s. appendDaemonMetric h s 2) []
     [sample_metrics 1 7 10, sample_metrics 5 7 50, sample_metrics 9 7 90]) = [sample_metrics 5 7 50, sample_metrics 9 7 90]"
  using daemon_history_complete [of 2 "[sample_metrics 1 7 10, sample_metrics 5 7 50, sample_metrics 9 7 90]"]
  by (simp add: sample_metrics_def slice_last_def)

end
