(* ===== verification/Capture_Store.thy ===== *)
theory Capture_Store
  imports Daemon_Metrics
begin

text \<open>
  The browser database of daemon captures: \<^verbatim>\<open>web/src/core/daemonCaptureStore.ts\<close>.  An object
  store is a list of records with distinct keys; its index gives the records of one sandbox in
  ascending time, which is what IndexedDB specifies for a cursor.  A transaction is atomic: an
  operation either runs as a whole or fails and leaves the database.  The locale \<open>capture_log\<close> is
  what the capture hook relies on, and the database interprets it.
\<close>

record StoredDaemonMetric =
  sd_sandbox_id :: string
  sd_sampled_at_unix_ms :: int
  sd_point :: DaemonMetricPoint

type_synonym capture_db = "StoredDaemonMetric list"

definition MAX_SAFE_INTEGER :: int where "MAX_SAFE_INTEGER = 2 ^ 53 - 1"

definition stored_key :: "StoredDaemonMetric \<Rightarrow> string \<times> int" where
  "stored_key m = (sd_sandbox_id m, sd_sampled_at_unix_ms m)"

definition store_put :: "StoredDaemonMetric \<Rightarrow> capture_db \<Rightarrow> capture_db" where
  "store_put m db = filter (\<lambda>x. stored_key x \<noteq> stored_key m) db @ [m]"

definition sandboxRange :: "string \<Rightarrow> StoredDaemonMetric \<Rightarrow> bool" where
  "sandboxRange sandboxId m = (sd_sandbox_id m = sandboxId \<and>
     0 \<le> sd_sampled_at_unix_ms m \<and> sd_sampled_at_unix_ms m \<le> MAX_SAFE_INTEGER)"

text \<open>The records a cursor in direction \<^verbatim>\<open>next\<close> visits.\<close>

definition index_records :: "string \<Rightarrow> capture_db \<Rightarrow> StoredDaemonMetric list" where
  "index_records sandboxId db = sort_key sd_sampled_at_unix_ms (filter (sandboxRange sandboxId) db)"

fun cursorPoints :: "StoredDaemonMetric list \<Rightarrow> nat \<Rightarrow> DaemonMetricPoint list \<Rightarrow> DaemonMetricPoint list" where
  "cursorPoints [] limit points = points"
| "cursorPoints (cursor # rest) limit points =
     (if length points = limit then points else cursorPoints rest limit (points @ [sd_point cursor]))"

text \<open>\<open>None\<close> is the limit \<^verbatim>\<open>Number.POSITIVE_INFINITY\<close>.\<close>

fun deleteOldest :: "StoredDaemonMetric list \<Rightarrow> nat option \<Rightarrow> nat \<Rightarrow> capture_db \<Rightarrow> capture_db" where
  "deleteOldest [] limit deleted db = db"
| "deleteOldest (cursor # rest) limit deleted db =
     (if limit = Some deleted then db
      else deleteOldest rest limit (deleted + 1) (filter (\<lambda>x. stored_key x \<noteq> stored_key cursor) db))"

definition readDaemonCapture :: "string \<Rightarrow> nat \<Rightarrow> capture_db \<Rightarrow> DaemonMetricPoint list" where
  "readDaemonCapture sandboxId limit db = (if limit < 1 then []
     else rev (cursorPoints (rev (index_records sandboxId db)) limit []))"

definition appendDaemonCapture :: "string \<Rightarrow> DaemonMetricPoint \<Rightarrow> nat \<Rightarrow> capture_db \<Rightarrow> capture_db" where
  "appendDaemonCapture sandboxId point limit db =
     (let db1 = store_put \<lparr>sd_sandbox_id = sandboxId, sd_sampled_at_unix_ms = dm_sampled_at_unix_ms point,
                           sd_point = point\<rparr> db;
          count = length (index_records sandboxId db1);
          excess = count - limit
      in if 0 < excess then deleteOldest (index_records sandboxId db1) (Some excess) 0 db1 else db1)"

definition clearDaemonCapture :: "string \<Rightarrow> capture_db \<Rightarrow> capture_db" where
  "clearDaemonCapture sandboxId db = deleteOldest (index_records sandboxId db) None 0 db"

text \<open>Opening the database can fail, and so can any request; then nothing is changed.\<close>

definition with_database :: "string option \<Rightarrow> (capture_db \<Rightarrow> 'r \<times> capture_db) \<Rightarrow> capture_db \<Rightarrow> (string + 'r) \<times> capture_db" where
  "with_database failure f db = (case failure of Some e \<Rightarrow> (Inl e, db) | None \<Rightarrow> (case f db of (r, db') \<Rightarrow> (Inr r, db')))"

section \<open>Laws\<close>

definition db_ok :: "capture_db \<Rightarrow> bool" where
  "db_ok db = (distinct (map stored_key db) \<and>
     (\<forall>m \<in> set db. sd_sampled_at_unix_ms m = dm_sampled_at_unix_ms (sd_point m)))"

definition captured :: "string \<Rightarrow> capture_db \<Rightarrow> DaemonMetricPoint list" where
  "captured i db = map sd_point (index_records i db)"

lemma cursorPoints_take:
  "length points \<le> limit \<Longrightarrow> cursorPoints cs limit points = points @ take (limit - length points) (map sd_point cs)"
proof (induction cs arbitrary: points)
  case (Cons c cs)
  then show ?case by (cases "length points = limit") (auto simp: take_Cons')
qed simp

lemma readDaemonCapture_slice: "0 < limit \<Longrightarrow> readDaemonCapture i limit db = slice_last limit (captured i db)"
  by (simp add: readDaemonCapture_def cursorPoints_take captured_def slice_last_def take_rev flip: rev_map)

lemma deleteOldest_filter:
  "deleteOldest cs limit deleted db = filter (\<lambda>x. stored_key x \<notin> stored_key ` set
     (case limit of None \<Rightarrow> cs | Some n \<Rightarrow> if n < deleted then cs else take (n - deleted) cs)) db"
proof (induction cs limit deleted db rule: deleteOldest.induct)
  case (2 c cs limit deleted db)
  show ?case
  proof (cases "limit = Some deleted")
    case False
    then have "limit = None \<or> (\<exists>n. limit = Some n \<and> (n < deleted \<or> deleted < n))" by (cases limit) auto
    with 2 False show ?thesis
      by (auto simp: take_Cons' Suc_diff_Suc intro!: filter_cong)
  qed simp
qed (simp split: option.splits)

lemma index_records_perm: "mset (index_records i db) = mset (filter (sandboxRange i) db)"
  by (simp add: index_records_def)

lemma set_index_records: "set (index_records i db) = {m \<in> set db. sandboxRange i m}"
  by (auto simp: index_records_def)

lemma inj_time_in_range:
  "distinct (map stored_key db) \<Longrightarrow> inj_on sd_sampled_at_unix_ms {m \<in> set db. sandboxRange i m}"
  by (auto simp: inj_on_def distinct_map stored_key_def sandboxRange_def)

lemma sorted_index_records:
  assumes "distinct (map stored_key db)"
  shows "sorted_wrt (\<lambda>m n. sd_sampled_at_unix_ms m < sd_sampled_at_unix_ms n) (index_records i db)"
proof -
  have "distinct (index_records i db)" using assms by (simp add: index_records_def distinct_map)
  moreover have "inj_on sd_sampled_at_unix_ms (set (index_records i db))"
    using inj_time_in_range [OF assms] by (simp add: set_index_records)
  ultimately have "distinct (map sd_sampled_at_unix_ms (index_records i db))" by (simp add: distinct_map)
  moreover have "sorted (map sd_sampled_at_unix_ms (index_records i db))" by (simp add: index_records_def)
  ultimately show ?thesis by (metis strict_sorted_iff sorted_wrt_map)
qed

lemma index_records_eqI:
  assumes "sorted_wrt (\<lambda>m n. sd_sampled_at_unix_ms m < sd_sampled_at_unix_ms n) ms"
    and "mset (filter (sandboxRange i) db) = mset ms"
  shows "index_records i db = ms"
  unfolding index_records_def
proof (rule sort_key_inj_key_eq)
  have "sorted_wrt (<) (map sd_sampled_at_unix_ms ms)" using assms(1) by (simp add: sorted_wrt_map)
  then show "sorted (map sd_sampled_at_unix_ms ms)" "inj_on sd_sampled_at_unix_ms (set (filter (sandboxRange i) db))"
    using mset_eq_setD [OF assms(2)] by (auto simp: strict_sorted_iff distinct_map)
qed (rule assms(2))

lemma db_ok_filter: "db_ok db \<Longrightarrow> db_ok (filter P db)"
  by (auto simp: db_ok_def distinct_map_filter)

lemma db_ok_put: "db_ok db \<Longrightarrow> sd_sampled_at_unix_ms m = dm_sampled_at_unix_ms (sd_point m) \<Longrightarrow> db_ok (store_put m db)"
  by (auto simp: db_ok_def store_put_def distinct_map_filter)

lemma index_records_put_newer:
  assumes "db_ok db" "sandboxRange i m" "\<forall>x \<in> set (index_records i db). sd_sampled_at_unix_ms x < sd_sampled_at_unix_ms m"
  shows "index_records i (store_put m db) = index_records i db @ [m]"
proof (rule index_records_eqI)
  have "stored_key x \<noteq> stored_key m" if "x \<in> set db" "sandboxRange i x" for x
    using that assms(3) by (auto simp: set_index_records stored_key_def)
  then have "filter (sandboxRange i) (filter (\<lambda>x. stored_key x \<noteq> stored_key m) db) = filter (sandboxRange i) db"
    by (auto intro!: filter_cong)
  then show "mset (filter (sandboxRange i) (store_put m db)) = mset (index_records i db @ [m])"
    using assms(2) by (simp add: store_put_def index_records_perm)
  show "sorted_wrt (\<lambda>m n. sd_sampled_at_unix_ms m < sd_sampled_at_unix_ms n) (index_records i db @ [m])"
    using assms sorted_index_records by (auto simp: db_ok_def sorted_wrt_append)
qed

lemma filter_suffix_distinct: "distinct (xs @ ys) \<Longrightarrow> filter (\<lambda>x. x \<in> set ys) (xs @ ys) = ys"
  by (auto simp: filter_empty_conv)

lemma index_records_drop:
  assumes "db_ok db"
  shows "index_records i (filter (\<lambda>x. stored_key x \<notin> stored_key ` set (take n (index_records i db))) db) =
    drop n (index_records i db)"
proof (rule index_records_eqI)
  let ?r = "index_records i db"
  have keys: "distinct (map stored_key ?r)"
    using assms by (auto simp: db_ok_def index_records_def distinct_map intro: inj_on_subset)
  have dist: "distinct ?r" using keys by (simp add: distinct_map)
  have sep: "stored_key x \<notin> stored_key ` set (take n ?r) \<longleftrightarrow> x \<in> set (drop n ?r)" if "x \<in> set ?r" for x
  proof -
    have "x \<in> set (take n ?r) \<or> x \<in> set (drop n ?r)"
      using that by (metis Un_iff append_take_drop_id set_append)
    moreover have "stored_key ` set (take n ?r) \<inter> stored_key ` set (drop n ?r) = {}"
      using keys by (metis append_take_drop_id distinct_append map_append list.set_map)
    ultimately show ?thesis by blast
  qed
  have "mset (filter (sandboxRange i) (filter (\<lambda>x. stored_key x \<notin> stored_key ` set (take n ?r)) db)) =
      filter_mset (\<lambda>x. stored_key x \<notin> stored_key ` set (take n ?r)) (mset ?r)"
    by (simp add: index_records_perm filter_filter_mset conj_commute)
  also have "\<dots> = mset (filter (\<lambda>x. x \<in> set (drop n ?r)) ?r)"
    unfolding mset_filter [symmetric] by (rule arg_cong [where f = mset], rule filter_cong) (auto simp: sep)
  also have "filter (\<lambda>x. x \<in> set (drop n ?r)) ?r = drop n ?r"
    using filter_suffix_distinct [of "take n ?r" "drop n ?r"] dist by simp
  finally show "mset (filter (sandboxRange i) (filter (\<lambda>x. stored_key x \<notin> stored_key ` set (take n ?r)) db)) =
      mset (drop n ?r)" .
  show "sorted_wrt (\<lambda>m n. sd_sampled_at_unix_ms m < sd_sampled_at_unix_ms n) (drop n ?r)"
    using assms sorted_index_records by (auto simp: db_ok_def intro: sorted_wrt_drop)
qed

lemma index_records_other:
  assumes "i \<noteq> j" "\<And>x. x \<in> set cs \<Longrightarrow> sd_sandbox_id x = i"
  shows "index_records j (filter (\<lambda>x. stored_key x \<notin> stored_key ` set cs) db) = index_records j db"
proof -
  have "filter (sandboxRange j) (filter (\<lambda>x. stored_key x \<notin> stored_key ` set cs) db) = filter (sandboxRange j) db"
    using assms by (auto simp: stored_key_def sandboxRange_def intro!: filter_cong)
  then show ?thesis by (simp only: index_records_def)
qed

lemma deleteOldest_other:
  assumes "i \<noteq> j" "\<And>x. x \<in> set cs \<Longrightarrow> sd_sandbox_id x = i"
  shows "index_records j (deleteOldest cs limit n db) = index_records j db"
  unfolding deleteOldest_filter
  using assms by (intro index_records_other [of i]) (auto dest: in_set_takeD split: option.splits if_splits)

lemma index_sandbox: "x \<in> set (index_records i db) \<Longrightarrow> sd_sandbox_id x = i"
  by (auto simp: set_index_records sandboxRange_def)

lemma captured_append:
  assumes "db_ok db" "0 < limit" "0 \<le> dm_sampled_at_unix_ms p" "dm_sampled_at_unix_ms p \<le> MAX_SAFE_INTEGER"
    and "\<forall>q \<in> set (captured i db). dm_sampled_at_unix_ms q < dm_sampled_at_unix_ms p"
  shows "captured i (appendDaemonCapture i p limit db) = slice_last limit (captured i db @ [p])"
proof -
  let ?m = "\<lparr>sd_sandbox_id = i, sd_sampled_at_unix_ms = dm_sampled_at_unix_ms p, sd_point = p\<rparr>"
  let ?db1 = "store_put ?m db"
  have ok1: "db_ok ?db1" using assms(1) by (simp add: db_ok_put)
  have idx: "index_records i ?db1 = index_records i db @ [?m]"
    using assms by (intro index_records_put_newer)
      (auto simp: sandboxRange_def captured_def set_index_records db_ok_def)
  show ?thesis
  proof (cases "0 < length (index_records i ?db1) - limit")
    case True
    then have "index_records i (appendDaemonCapture i p limit db) =
        drop (length (index_records i ?db1) - limit) (index_records i ?db1)"
      using index_records_drop [OF ok1, of i "length (index_records i ?db1) - limit"]
      by (simp add: appendDaemonCapture_def Let_def deleteOldest_filter)
    then show ?thesis using assms(2) by (simp add: captured_def idx slice_last_def drop_map)
  next
    case False
    then show ?thesis using assms(2)
      by (simp add: appendDaemonCapture_def Let_def captured_def idx slice_last_def)
  qed
qed

lemma captured_append_other: "i \<noteq> j \<Longrightarrow> captured j (appendDaemonCapture i p limit db) = captured j db"
proof -
  assume ij: "i \<noteq> j"
  let ?m = "\<lparr>sd_sandbox_id = i, sd_sampled_at_unix_ms = dm_sampled_at_unix_ms p, sd_point = p\<rparr>"
  have "filter (sandboxRange j) (store_put ?m db) = filter (sandboxRange j) db"
    using ij by (auto simp: store_put_def sandboxRange_def stored_key_def intro!: filter_cong)
  then have "index_records j (store_put ?m db) = index_records j db" by (simp add: index_records_def)
  with ij show ?thesis
    by (auto simp: appendDaemonCapture_def Let_def captured_def deleteOldest_other [OF ij] index_sandbox)
qed

lemma captured_clear: "db_ok db \<Longrightarrow> captured i (clearDaemonCapture i db) = []"
  using index_records_drop [of db i "length (index_records i db)"]
  by (simp add: clearDaemonCapture_def captured_def deleteOldest_filter)

lemma captured_clear_other: "i \<noteq> j \<Longrightarrow> captured j (clearDaemonCapture i db) = captured j db"
  by (simp add: clearDaemonCapture_def captured_def deleteOldest_other index_sandbox)

lemma db_ok_append: "db_ok db \<Longrightarrow> db_ok (appendDaemonCapture i p limit db)"
  by (auto simp: appendDaemonCapture_def Let_def deleteOldest_filter intro!: db_ok_filter db_ok_put)

lemma db_ok_clear: "db_ok db \<Longrightarrow> db_ok (clearDaemonCapture i db)"
  by (simp add: clearDaemonCapture_def deleteOldest_filter db_ok_filter)

lemma captured_sorted:
  assumes "db_ok db"
  shows "sorted_wrt (\<lambda>p q. dm_sampled_at_unix_ms p < dm_sampled_at_unix_ms q) (captured i db)"
proof -
  have "sorted_wrt (\<lambda>m n. sd_sampled_at_unix_ms m < sd_sampled_at_unix_ms n) (index_records i db)"
    using assms by (auto simp: db_ok_def intro: sorted_index_records)
  moreover have "\<forall>m \<in> set (index_records i db). sd_sampled_at_unix_ms m = dm_sampled_at_unix_ms (sd_point m)"
    using assms by (simp add: db_ok_def set_index_records)
  ultimately show ?thesis
    by (auto simp: captured_def sorted_wrt_map elim: sorted_wrt_mono_rel [rotated])
qed

section \<open>The interface of the capture hook\<close>

locale capture_log =
  fixes ok :: "'db \<Rightarrow> bool" and view :: "string \<Rightarrow> 'db \<Rightarrow> DaemonMetricPoint list"
    and append :: "string \<Rightarrow> DaemonMetricPoint \<Rightarrow> nat \<Rightarrow> 'db \<Rightarrow> 'db" and clear :: "string \<Rightarrow> 'db \<Rightarrow> 'db"
    and valid_time :: "int \<Rightarrow> bool"
  assumes ok_append: "ok db \<Longrightarrow> ok (append i p limit db)"
    and ok_clear: "ok db \<Longrightarrow> ok (clear i db)"
    and view_sorted: "ok db \<Longrightarrow> sorted_wrt (\<lambda>p q. dm_sampled_at_unix_ms p < dm_sampled_at_unix_ms q) (view i db)"
    and view_append: "ok db \<Longrightarrow> 0 < limit \<Longrightarrow> valid_time (dm_sampled_at_unix_ms p) \<Longrightarrow>
      (\<forall>q \<in> set (view i db). dm_sampled_at_unix_ms q < dm_sampled_at_unix_ms p) \<Longrightarrow>
      view i (append i p limit db) = slice_last limit (view i db @ [p])"
    and view_append_other: "i \<noteq> j \<Longrightarrow> view j (append i p limit db) = view j db"
    and view_clear: "ok db \<Longrightarrow> view i (clear i db) = []"
    and view_clear_other: "i \<noteq> j \<Longrightarrow> view j (clear i db) = view j db"
begin

text \<open>
  The history a client shows, a non-empty suffix of the log, and the log move together: a sample
  newer than the shown history is newer than the whole log.
\<close>

lemma newer_than_log:
  assumes "ok db" "h = slice_last n (view i db)" "0 < n" "at_last h = Some p" "dm_sampled_at_unix_ms p < t"
  shows "\<forall>q \<in> set (view i db). dm_sampled_at_unix_ms q < t"
proof -
  obtain vs where vs: "view i db = vs @ [p]"
    using assms(2-4) by (auto elim: at_last_SomeE)
  show ?thesis using view_sorted [OF assms(1), of i] assms(5) by (auto simp: vs sorted_wrt_append)
qed

lemma append_both:
  assumes "ok db" "0 < n" "n \<le> limit" "valid_time (dm_sampled_at_unix_ms q)"
    and "h = slice_last n (view i db)"
    and "\<And>p. at_last h = Some p \<Longrightarrow> dm_sampled_at_unix_ms p < dm_sampled_at_unix_ms q"
  shows "view i (append i q limit db) = slice_last limit (view i db @ [q])"
    "slice_last n (h @ [q]) = slice_last n (view i (append i q limit db))"
proof -
  have "\<forall>r \<in> set (view i db). dm_sampled_at_unix_ms r < dm_sampled_at_unix_ms q"
  proof (cases "at_last h")
    case None
    then have "at_last (view i db) = None" using assms(2,5) by (simp del: at_last_None_iff)
    then show ?thesis by simp
  next
    case (Some p)
    then show ?thesis using newer_than_log [OF assms(1,5,2)] assms(6) by blast
  qed
  then show v: "view i (append i q limit db) = slice_last limit (view i db @ [q])"
    using assms by (intro view_append) auto
  show "slice_last n (h @ [q]) = slice_last n (view i (append i q limit db))"
    unfolding v assms(5) using assms(2,3) by (simp add: slice_last_append_snoc slice_last_slice_last)
qed

end

interpretation capture_db: capture_log db_ok captured appendDaemonCapture clearDaemonCapture
  "\<lambda>t. 0 \<le> t \<and> t \<le> MAX_SAFE_INTEGER"
  by unfold_locales
    (simp_all add: db_ok_append db_ok_clear captured_sorted captured_append captured_append_other
      captured_clear captured_clear_other)

end
