(* ===== verification/Daemon_Capture.thy ===== *)
theory Daemon_Capture
  imports Capture_Store Machine
begin

text \<open>
  The capture hook: \<^verbatim>\<open>web/src/pages/sandbox/observability/useDaemonCapture.ts\<close>.  The promise
  chain in \<^verbatim>\<open>queueRef\<close> is a list of tasks run in order; a task that awaits the database leaves a
  second task (its code after the await) at the head of the queue, so a mount can happen in between.
  A mount replaces the chain: the tasks of the old one stay pending (\<open>ch_stale\<close>) and run at any
  time.  \<^verbatim>\<open>recordSample\<close> tests the flag \<^verbatim>\<open>ready\<close> of the render it was made in, which may lag behind: it is part
  of the event.  Every database call may fail.
\<close>

definition DAEMON_VISIBLE_HISTORY_LIMIT :: nat where "DAEMON_VISIBLE_HISTORY_LIMIT = 300"

datatype capture_task =
    Load nat string
  | Record nat string DaemonProcessMetrics
  | RecordCommit nat "DaemonMetricPoint list" bool
  | Clear nat string
  | ClearCommit nat

record capture_hook =
  ch_sandbox :: string
  ch_history :: "DaemonMetricPoint list"
  ch_storedCount :: nat
  ch_ready :: bool
  ch_error :: "string option"
  ch_generation :: nat
  ch_queue :: "capture_task list"
  ch_stale :: "capture_task list"
  ch_db :: capture_db

text \<open>The database calls of one task that fail: the first (load or clear) and the append.\<close>

record db_failure =
  fail_first :: "string option"
  fail_append :: "string option"

definition reportFailure :: "nat \<Rightarrow> string \<Rightarrow> capture_hook \<Rightarrow> capture_hook" where
  "reportFailure generation failure s = (if generation \<noteq> ch_generation s then s
     else s\<lparr>ch_ready := False, ch_error := Some failure\<rparr>)"

fun run_task :: "db_failure \<Rightarrow> capture_task \<Rightarrow> capture_hook \<Rightarrow> capture_hook \<times> capture_task list" where
  "run_task f (Load generation sandboxId) s = (case fail_first f of
     Some e \<Rightarrow> (reportFailure generation e s, [])
   | None \<Rightarrow>
       (let stored = readDaemonCapture sandboxId DAEMON_HISTORY_LIMIT (ch_db s) in
        if generation \<noteq> ch_generation s then (s, [])
        else (s\<lparr>ch_history := slice_last DAEMON_VISIBLE_HISTORY_LIMIT stored,
                ch_storedCount := length stored, ch_ready := True\<rparr>, [])))"
| "run_task f (Record generation sandboxId sample) s =
     (if generation \<noteq> ch_generation s then (s, [])
      else let before = ch_history s;
               next = appendDaemonMetric before sample DAEMON_VISIBLE_HISTORY_LIMIT
           in if next = before then (s, [])
              else let restarted = (before \<noteq> [] \<and> length next = 1) in
                if restarted \<and> fail_first f \<noteq> None then (reportFailure generation (the (fail_first f)) s, [])
                else let db1 = (if restarted then clearDaemonCapture sandboxId (ch_db s) else ch_db s) in
                  (case fail_append f of
                     Some e \<Rightarrow> (reportFailure generation e (s\<lparr>ch_db := db1\<rparr>), [])
                   | None \<Rightarrow>
                       (s\<lparr>ch_db := appendDaemonCapture sandboxId (last next) DAEMON_HISTORY_LIMIT db1\<rparr>,
                        [RecordCommit generation next restarted])))"
| "run_task f (RecordCommit generation next restarted) s =
     (if generation \<noteq> ch_generation s then (s, [])
      else (s\<lparr>ch_history := next,
              ch_storedCount := (if restarted then 1 else min (ch_storedCount s + 1) DAEMON_HISTORY_LIMIT)\<rparr>, []))"
| "run_task f (Clear generation sandboxId) s = (case fail_first f of
     Some e \<Rightarrow> (reportFailure generation e s, [])
   | None \<Rightarrow> (s\<lparr>ch_db := clearDaemonCapture sandboxId (ch_db s)\<rparr>, [ClearCommit generation]))"
| "run_task f (ClearCommit generation) s =
     (if generation \<noteq> ch_generation s then (s, [])
      else (s\<lparr>ch_history := [], ch_storedCount := 0\<rparr>, []))"

datatype capture_event =
    Mount string
  | Unmount
  | RecordSample bool DaemonProcessMetrics
  | ClearCapture
  | RunTask db_failure
  | RunStale nat db_failure

fun capture_step :: "capture_hook \<Rightarrow> capture_event \<Rightarrow> capture_hook" where
  "capture_step s (Mount sandboxId) =
     s\<lparr>ch_sandbox := sandboxId, ch_generation := ch_generation s + 1, ch_history := [], ch_storedCount := 0,
       ch_ready := False, ch_error := None, ch_stale := ch_stale s @ ch_queue s,
       ch_queue := [Load (ch_generation s + 1) sandboxId]\<rparr>"
| "capture_step s Unmount = s\<lparr>ch_generation := ch_generation s + 1\<rparr>"
| "capture_step s (RecordSample ready sample) =
     (if \<not> ready \<or> \<not> dm_available sample then s
      else s\<lparr>ch_queue := ch_queue s @ [Record (ch_generation s) (ch_sandbox s) sample]\<rparr>)"
| "capture_step s ClearCapture = s\<lparr>ch_queue := ch_queue s @ [Clear (ch_generation s) (ch_sandbox s)]\<rparr>"
| "capture_step s (RunTask f) = (case ch_queue s of [] \<Rightarrow> s
     | t # ts \<Rightarrow> (case run_task f t s of (s', rest) \<Rightarrow> s'\<lparr>ch_queue := rest @ ts\<rparr>))"
| "capture_step s (RunStale k f) = (if length (ch_stale s) \<le> k then s
     else (case run_task f (ch_stale s ! k) s of (s', rest) \<Rightarrow>
       s'\<lparr>ch_stale := take k (ch_stale s) @ rest @ drop (Suc k) (ch_stale s)\<rparr>))"

definition readFullCapture :: "capture_hook \<Rightarrow> DaemonMetricPoint list" where
  "readFullCapture s = readDaemonCapture (ch_sandbox s) DAEMON_HISTORY_LIMIT (ch_db s)"

section \<open>Stale tasks\<close>

fun task_generation :: "capture_task \<Rightarrow> nat" where
  "task_generation (Load g _) = g"
| "task_generation (Record g _ _) = g"
| "task_generation (RecordCommit g _ _) = g"
| "task_generation (Clear g _) = g"
| "task_generation (ClearCommit g) = g"

lemma run_task_generation: "t \<in> set (snd (run_task f u s)) \<Longrightarrow> task_generation t = task_generation u"
  by (cases u) (auto simp: Let_def split: option.splits if_splits)

definition shown :: "capture_hook \<Rightarrow> DaemonMetricPoint list \<times> nat \<times> bool \<times> string option" where
  "shown s = (ch_history s, ch_storedCount s, ch_ready s, ch_error s)"

lemma run_task_stale_shown:
  "task_generation t \<noteq> ch_generation s \<Longrightarrow> shown (fst (run_task f t s)) = shown s"
  by (cases t) (auto simp: shown_def reportFailure_def Let_def split: option.splits if_splits)

lemma run_task_keeps:
  "ch_generation (fst (run_task f t s)) = ch_generation s" "ch_sandbox (fst (run_task f t s)) = ch_sandbox s"
  "ch_queue (fst (run_task f t s)) = ch_queue s" "ch_stale (fst (run_task f t s)) = ch_stale s"
  by (cases t; auto simp: reportFailure_def Let_def split: option.splits if_splits)+

definition stale_inv :: "capture_hook \<Rightarrow> bool" where
  "stale_inv s = ((\<forall>t \<in> set (ch_stale s). task_generation t < ch_generation s) \<and>
     (\<forall>t \<in> set (ch_queue s). task_generation t \<le> ch_generation s))"

lemma stale_inv_step: "stale_inv s \<Longrightarrow> stale_inv (capture_step s e)"
proof (cases e)
  case (RunTask f)
  assume "stale_inv s"
  note inv = this
  show ?thesis
  proof (cases "ch_queue s")
    case (Cons t ts)
    obtain s' rest where r: "run_task f t s = (s', rest)" by fastforce
    have "task_generation u \<le> ch_generation s" if "u \<in> set rest" for u
      using that run_task_generation [of u f t s] r inv Cons by (auto simp: stale_inv_def)
    moreover have "ch_generation s' = ch_generation s" "ch_stale s' = ch_stale s"
      using run_task_keeps [of f t s] r by auto
    ultimately show ?thesis using inv RunTask Cons r by (auto simp: stale_inv_def)
  qed (use RunTask inv in simp)
next
  case (RunStale k f)
  assume inv: "stale_inv s"
  show ?thesis
  proof (cases "length (ch_stale s) \<le> k")
    case False
    obtain s' rest where r: "run_task f (ch_stale s ! k) s = (s', rest)" by fastforce
    have "task_generation t < ch_generation s" if "t \<in> set rest" for t
      using that run_task_generation [of t f "ch_stale s ! k" s] r inv False by (auto simp: stale_inv_def)
    moreover have "ch_generation s' = ch_generation s" "ch_queue s' = ch_queue s"
      using run_task_keeps [of f "ch_stale s ! k" s] r by auto
    ultimately show ?thesis using inv RunStale False r
      by (auto simp: stale_inv_def dest: in_set_takeD in_set_dropD)
  qed (use RunStale inv in simp)
qed (auto simp: stale_inv_def)

interpretation capture: event_machine capture_step stale_inv
  by unfold_locales (rule stale_inv_step)

lemma stale_hidden:
  assumes "stale_inv s" "e = RunStale k f"
  shows "shown (capture_step s e) = shown s"
proof (cases "length (ch_stale s) \<le> k")
  case False
  obtain s' rest where r: "run_task f (ch_stale s ! k) s = (s', rest)" by fastforce
  have "ch_stale s ! k \<in> set (ch_stale s)" using False by simp
  with assms(1) have "task_generation (ch_stale s ! k) < ch_generation s" unfolding stale_inv_def by blast
  then have "task_generation (ch_stale s ! k) \<noteq> ch_generation s" by simp
  then have "shown s' = shown s" using run_task_stale_shown [of "ch_stale s ! k" s f] r by simp
  with False assms(2) r show ?thesis by (simp add: shown_def)
qed (use assms in simp)

section \<open>The history is a suffix of the stored capture\<close>

lemma appendDaemonMetric_changed:
  assumes "appendDaemonMetric h sample limit \<noteq> h" "2 \<le> limit" "length h \<le> limit"
  obtains q where "dm_sampled_at_unix_ms q = dm_sampled_at_unix_ms sample"
    "last (appendDaemonMetric h sample limit) = q"
    "h \<noteq> [] \<and> length (appendDaemonMetric h sample limit) = 1 \<Longrightarrow> appendDaemonMetric h sample limit = [q]"
    "\<not> (h \<noteq> [] \<and> length (appendDaemonMetric h sample limit) = 1) \<Longrightarrow>
       appendDaemonMetric h sample limit = slice_last limit (h @ [q]) \<and>
       (\<forall>p. at_last h = Some p \<longrightarrow> dm_sampled_at_unix_ms p < dm_sampled_at_unix_ms sample)"
proof (cases "at_last h")
  case None
  then have "h = []" by simp
  with assms have "appendDaemonMetric h sample limit = [deriveDaemonMetric None sample]"
    by (auto simp: appendDaemonMetric_def Let_def sameProcess_def split: if_splits)
  then show ?thesis using that [of "deriveDaemonMetric None sample"] \<open>h = []\<close> assms(2)
    by (simp add: slice_last_def)
next
  case (Some p)
  show ?thesis
  proof (cases "sameProcess (Some p) sample")
    case True
    let ?q = "deriveDaemonMetric (Some p) sample"
    have eq: "appendDaemonMetric h sample limit = slice_last limit (h @ [?q])"
      "dm_sampled_at_unix_ms p < dm_sampled_at_unix_ms sample"
      using assms Some True by (auto simp: appendDaemonMetric_def Let_def slice_last_def split: if_splits)
    have "h \<noteq> []" using Some by auto
    then have "length (appendDaemonMetric h sample limit) \<noteq> 1" using assms(2) unfolding eq(1) by (cases h) auto
    moreover have "at_last (appendDaemonMetric h sample limit) = Some ?q"
      using assms(2) unfolding eq(1) by simp
    then have "last (appendDaemonMetric h sample limit) = ?q" by (simp add: at_last_def split: if_splits)
    ultimately show ?thesis using eq Some by (intro that [of ?q]) simp_all
  next
    case False
    then have "appendDaemonMetric h sample limit = [deriveDaemonMetric None sample]"
      using assms Some by (auto simp: appendDaemonMetric_def Let_def split: if_splits)
    moreover have "h \<noteq> []" using Some by auto
    ultimately show ?thesis by (intro that [of "deriveDaemonMetric None sample"]) simp_all
  qed
qed

definition in_sync :: "DaemonMetricPoint list \<Rightarrow> nat \<Rightarrow> DaemonMetricPoint list \<Rightarrow> bool" where
  "in_sync history stored entries =
     (history = slice_last DAEMON_VISIBLE_HISTORY_LIMIT entries \<and> stored = length entries)"

text \<open>What the head of the queue says about the state; the rest are tasks not yet started.\<close>

fun head_ok :: "capture_hook \<Rightarrow> capture_task list \<Rightarrow> bool" where
  "head_ok s [] = in_sync (ch_history s) (ch_storedCount s) (captured (ch_sandbox s) (ch_db s))"
| "head_ok s [Load g i] = (g = ch_generation s \<and> i = ch_sandbox s)"
| "head_ok s [RecordCommit g next restarted] = (g = ch_generation s \<and>
     in_sync next (if restarted then 1 else min (ch_storedCount s + 1) DAEMON_HISTORY_LIMIT)
       (captured (ch_sandbox s) (ch_db s)))"
| "head_ok s [ClearCommit g] = (g = ch_generation s \<and> captured (ch_sandbox s) (ch_db s) = [])"
| "head_ok s _ = False"

fun waiting_ok :: "capture_hook \<Rightarrow> capture_task \<Rightarrow> bool" where
  "waiting_ok s (Record g i sample) = (g = ch_generation s \<and> i = ch_sandbox s \<and>
     0 \<le> dm_sampled_at_unix_ms sample \<and> dm_sampled_at_unix_ms sample \<le> MAX_SAFE_INTEGER)"
| "waiting_ok s (Clear g i) = (g = ch_generation s \<and> i = ch_sandbox s)"
| "waiting_ok s _ = False"

definition sync_inv :: "capture_hook \<Rightarrow> bool" where
  "sync_inv s = (db_ok (ch_db s) \<and> length (captured (ch_sandbox s) (ch_db s)) \<le> DAEMON_HISTORY_LIMIT \<and>
     (\<exists>started waiting. ch_queue s = started @ waiting \<and> head_ok s started \<and> (\<forall>t \<in> set waiting. waiting_ok s t)))"

fun undisturbed :: "capture_event \<Rightarrow> bool" where
  "undisturbed (RecordSample ready sample) =
     (0 \<le> dm_sampled_at_unix_ms sample \<and> dm_sampled_at_unix_ms sample \<le> MAX_SAFE_INTEGER)"
| "undisturbed ClearCapture = True"
| "undisturbed (RunTask f) = (fail_first f = None \<and> fail_append f = None)"
| "undisturbed _ = False"

lemmas limits = DAEMON_HISTORY_LIMIT_def DAEMON_VISIBLE_HISTORY_LIMIT_def

lemma sync_record:
  assumes ok: "db_ok (ch_db s)"
    and len: "length (captured (ch_sandbox s) (ch_db s)) \<le> DAEMON_HISTORY_LIMIT"
    and sync: "in_sync (ch_history s) (ch_storedCount s) (captured (ch_sandbox s) (ch_db s))"
    and time: "0 \<le> dm_sampled_at_unix_ms sample" "dm_sampled_at_unix_ms sample \<le> MAX_SAFE_INTEGER"
    and f: "fail_first f = None" "fail_append f = None"
    and r: "run_task f (Record (ch_generation s) (ch_sandbox s) sample) s = (s', rest)"
  shows "db_ok (ch_db s') \<and> length (captured (ch_sandbox s) (ch_db s')) \<le> DAEMON_HISTORY_LIMIT \<and>
    s' = s\<lparr>ch_db := ch_db s'\<rparr> \<and> head_ok s' rest"
proof -
  let ?next = "appendDaemonMetric (ch_history s) sample DAEMON_VISIBLE_HISTORY_LIMIT"
  show ?thesis
  proof (cases "?next = ch_history s")
    case True
    with r ok len sync show ?thesis by (auto simp: Let_def)
  next
    case False
    define q where "q = last ?next"
    define restarted where "restarted = (ch_history s \<noteq> [] \<and> length ?next = 1)"
    define db1 where "db1 = (if restarted then clearDaemonCapture (ch_sandbox s) (ch_db s) else ch_db s)"
    have s': "s' = s\<lparr>ch_db := appendDaemonCapture (ch_sandbox s) q DAEMON_HISTORY_LIMIT db1\<rparr>"
      and rest: "rest = [RecordCommit (ch_generation s) ?next restarted]"
      using r False f by (auto simp: Let_def restarted_def q_def db1_def)
    have "length (ch_history s) \<le> DAEMON_VISIBLE_HISTORY_LIMIT"
      using sync by (simp add: in_sync_def limits)
    then obtain q' where q': "dm_sampled_at_unix_ms q' = dm_sampled_at_unix_ms sample" "last ?next = q'"
      and res: "restarted \<Longrightarrow> ?next = [q']"
      and ext: "\<not> restarted \<Longrightarrow> ?next = slice_last DAEMON_VISIBLE_HISTORY_LIMIT (ch_history s @ [q']) \<and>
        (\<forall>p. at_last (ch_history s) = Some p \<longrightarrow> dm_sampled_at_unix_ms p < dm_sampled_at_unix_ms sample)"
      using appendDaemonMetric_changed [OF False] by (auto simp: limits restarted_def)
    have qq: "q' = q" using q' by (simp add: q_def)
    have okdb1: "db_ok db1" using ok by (simp add: db1_def db_ok_clear)
    have sync': "in_sync ?next (if restarted then 1 else min (ch_storedCount s + 1) DAEMON_HISTORY_LIMIT)
        (captured (ch_sandbox s) (appendDaemonCapture (ch_sandbox s) q DAEMON_HISTORY_LIMIT db1))"
    proof (cases restarted)
      case True
      have "captured (ch_sandbox s) db1 = []" using True ok by (simp add: db1_def captured_clear)
      then have "captured (ch_sandbox s) (appendDaemonCapture (ch_sandbox s) q DAEMON_HISTORY_LIMIT db1) =
          slice_last DAEMON_HISTORY_LIMIT ([] @ [q])"
        using okdb1 q'(1) qq time captured_append [of db1 DAEMON_HISTORY_LIMIT q "ch_sandbox s"]
        by (simp add: limits)
      with True res qq show ?thesis by (simp add: in_sync_def limits slice_last_def)
    next
      case False
      have h: "ch_history s = slice_last DAEMON_VISIBLE_HISTORY_LIMIT (captured (ch_sandbox s) db1)"
        using sync False by (simp add: in_sync_def db1_def)
      have both: "captured (ch_sandbox s) (appendDaemonCapture (ch_sandbox s) q DAEMON_HISTORY_LIMIT db1) =
            slice_last DAEMON_HISTORY_LIMIT (captured (ch_sandbox s) db1 @ [q])"
          "slice_last DAEMON_VISIBLE_HISTORY_LIMIT (ch_history s @ [q]) = slice_last DAEMON_VISIBLE_HISTORY_LIMIT
            (captured (ch_sandbox s) (appendDaemonCapture (ch_sandbox s) q DAEMON_HISTORY_LIMIT db1))"
        using capture_db.append_both [OF okdb1 _ _ _ h, of DAEMON_HISTORY_LIMIT q] ext [OF False] q' qq time
        by (auto simp: limits)
      with sync False ext [OF False] qq len show ?thesis
        by (simp add: in_sync_def db1_def min_def) (simp add: limits)
    qed
    have "length (captured (ch_sandbox s) (ch_db s')) \<le> DAEMON_HISTORY_LIMIT"
      using sync' by (auto simp: s' in_sync_def limits split: if_splits)
    with sync' okdb1 show ?thesis by (auto simp: s' rest db_ok_append)
  qed
qed

lemma waiting_ok_cong: "ch_generation s' = ch_generation s \<Longrightarrow> ch_sandbox s' = ch_sandbox s \<Longrightarrow> waiting_ok s' t = waiting_ok s t"
  by (cases t) auto

lemma sync_inv_step:
  assumes inv: "sync_inv s" and e: "undisturbed e"
  shows "sync_inv (capture_step s e)"
proof -
  from inv obtain started waiting where ok: "db_ok (ch_db s)"
    and len: "length (captured (ch_sandbox s) (ch_db s)) \<le> DAEMON_HISTORY_LIMIT"
    and q: "ch_queue s = started @ waiting" and h: "head_ok s started" and w: "\<forall>t \<in> set waiting. waiting_ok s t"
    by (auto simp: sync_inv_def)
  have enqueue: "sync_inv (s\<lparr>ch_queue := ch_queue s @ [t]\<rparr>)" if "waiting_ok s t" for t
  proof -
    have "head_ok (s\<lparr>ch_queue := ch_queue s @ [t]\<rparr>) started"
      using h by (cases "(s, started)" rule: head_ok.cases) auto
    moreover have "\<forall>u \<in> set (waiting @ [t]). waiting_ok (s\<lparr>ch_queue := ch_queue s @ [t]\<rparr>) u"
      using w that waiting_ok_cong [of "s\<lparr>ch_queue := ch_queue s @ [t]\<rparr>" s] by auto
    ultimately show ?thesis
      using ok len q unfolding sync_inv_def
      by (intro conjI exI [of _ started] exI [of _ "waiting @ [t]"]) auto
  qed
  show ?thesis
  proof (cases e)
    case (RecordSample ready sample)
    with e enqueue [of "Record (ch_generation s) (ch_sandbox s) sample"] inv show ?thesis by auto
  next
    case ClearCapture
    with enqueue [of "Clear (ch_generation s) (ch_sandbox s)"] show ?thesis by simp
  next
    case (RunTask f)
    with e have f: "fail_first f = None" "fail_append f = None" by auto
    show ?thesis
    proof (cases "ch_queue s")
      case (Cons t ts)
      obtain s' rest where r: "run_task f t s = (s', rest)" by fastforce
      have "db_ok (ch_db s') \<and> length (captured (ch_sandbox s) (ch_db s')) \<le> DAEMON_HISTORY_LIMIT \<and>
          head_ok s' rest \<and> (\<forall>u \<in> set ts. waiting_ok s u)"
      proof (cases started)
        case Nil
        with q Cons w have t: "waiting_ok s t" "\<forall>u \<in> set ts. waiting_ok s u" by auto
        show ?thesis
        proof (cases t)
          case (Record g i sample)
          with t(1) r f have "run_task f (Record (ch_generation s) (ch_sandbox s) sample) s = (s', rest)" by simp
          from sync_record [OF ok len _ _ _ f this] show ?thesis
            using h Nil t Record by auto
        next
          case (Clear g i)
          with t r f ok show ?thesis
            by (auto simp: db_ok_clear captured_clear limits)
        qed (use t in auto)
      next
        case (Cons u us)
        then have us: "us = []" "t = u" "ts = waiting"
          using h q \<open>ch_queue s = t # ts\<close> by (cases "(s, started)" rule: head_ok.cases; simp)+
        with Cons h have h': "head_ok s [t]" by simp
        show ?thesis
        proof (cases t)
          case (Load g i)
          with h' r f us ok len w show ?thesis
            by (auto simp: Let_def in_sync_def readDaemonCapture_slice limits)
        qed (use h' r us ok len w in \<open>auto simp: in_sync_def\<close>)
      qed
      moreover have "ch_generation s' = ch_generation s" "ch_sandbox s' = ch_sandbox s"
        using run_task_keeps [of f t s] r by auto
      moreover have "head_ok (s'\<lparr>ch_queue := rest @ ts\<rparr>) rest = head_ok s' rest"
        by (cases "(s', rest)" rule: head_ok.cases) auto
      ultimately show ?thesis
        using RunTask Cons r waiting_ok_cong [of "s'\<lparr>ch_queue := rest @ ts\<rparr>" s] unfolding sync_inv_def
        by (simp, intro exI [of _ rest] exI [of _ ts]) auto
    qed (use RunTask inv in simp)
  qed (use e in auto)
qed

section \<open>Properties\<close>

text \<open>
  C12: The stored capture of a sandbox is a bounded log.  Appending a point newer than the stored ones
  and reading back gives the last \<open>limit\<close> of the old points followed by the new one, reading any
  other sandbox gives what it gave before, and clearing a sandbox empties it and no other.
\<close>

theorem capture_store_log:
  assumes "db_ok db" "0 < limit" "0 \<le> dm_sampled_at_unix_ms p" "dm_sampled_at_unix_ms p \<le> MAX_SAFE_INTEGER"
    and "\<forall>q \<in> set (captured i db). dm_sampled_at_unix_ms q < dm_sampled_at_unix_ms p"
    and "i \<noteq> j" "0 < n"
  shows "readDaemonCapture i limit (appendDaemonCapture i p limit db) =
      slice_last limit (readDaemonCapture i limit db @ [p]) \<and>
    readDaemonCapture j n (appendDaemonCapture i p limit db) = readDaemonCapture j n db \<and>
    readDaemonCapture i n (clearDaemonCapture i db) = [] \<and>
    readDaemonCapture j n (clearDaemonCapture i db) = readDaemonCapture j n db \<and>
    db_ok (appendDaemonCapture i p limit db) \<and> db_ok (clearDaemonCapture i db)"
  using assms captured_append [OF assms(1-5)]
  by (simp add: readDaemonCapture_slice captured_append_other captured_clear captured_clear_other
      db_ok_append db_ok_clear slice_last_append_snoc slice_last_slice_last)

theorem capture_store_log_witness:
  "readDaemonCapture ''a'' 1 (appendDaemonCapture ''a'' (deriveDaemonMetric None (sample_metrics 5 7 1)) 1 []) =
     [deriveDaemonMetric None (sample_metrics 5 7 1)]"
  using capture_store_log [of "[]" 1 "deriveDaemonMetric None (sample_metrics 5 7 1)" "''a''" "''b''" 1]
  by (simp add: db_ok_def captured_def index_records_def sample_metrics_def MAX_SAFE_INTEGER_def
      readDaemonCapture_def slice_last_def)

text \<open>
  Work left over from an earlier mount is never shown.  In every reachable state of the hook,
  with any interleaving of mounts, samples, clears, finished and failed database calls, running a
  leftover task of an older promise chain changes neither the history nor the count, the ready flag
  or the error.
\<close>

lemma stale_capture_never_shown:
  assumes "ch_queue s0 = []" "ch_stale s0 = []"
  shows "shown (capture_step (run capture_step s0 es) (RunStale k f)) = shown (run capture_step s0 es)"
proof -
  have "stale_inv s0" using assms by (simp add: stale_inv_def)
  then have "stale_inv (run capture_step s0 es)" by (rule capture.inv_run)
  then show ?thesis by (rule stale_hidden) simp
qed

definition idle_hook :: "capture_db \<Rightarrow> capture_hook" where
  "idle_hook db = \<lparr>ch_sandbox = [], ch_history = [], ch_storedCount = 0, ch_ready = False, ch_error = None,
     ch_generation = 0, ch_queue = [], ch_stale = [], ch_db = db\<rparr>"

lemma stale_capture_never_shown_witness:
  "shown (capture_step (run capture_step (idle_hook []) [Mount ''a'', Mount ''a'']) (RunStale 0 \<lparr>fail_first = Some ''gone'', fail_append = None\<rparr>)) =
   shown (run capture_step (idle_hook []) [Mount ''a'', Mount ''a''])"
  using stale_capture_never_shown [of "idle_hook []" "[Mount ''a'', Mount ''a'']" 0 "\<lparr>fail_first = Some ''gone'', fail_append = None\<rparr>"]
  by (simp add: idle_hook_def del: capture_step.simps)



end
