(* ===== verification/Transcript_Poll.thy ===== *)
theory Transcript_Poll
  imports Machine
begin

text \<open>
  The transcript poll coordinator: \<^verbatim>\<open>web/src/pages/sandbox/terminal/TranscriptPollProvider.tsx\<close>.
  A poller is named by its key; \<open>pp_running\<close> are the pollers of the batch whose promises have not
  settled.  The batch is in flight exactly while \<^verbatim>\<open>pollingRef\<close> is set.
\<close>

definition FAST_TAIL_MS :: int where "FAST_TAIL_MS = 400"
definition SETTLED_TAIL_MS :: int where "SETTLED_TAIL_MS = 2000"
definition MAX_POLLS_PER_TICK :: nat where "MAX_POLLS_PER_TICK = 4"

record poll_provider =
  pp_pollers :: "string list"
  pp_timer :: "int option"
  pp_polling :: bool
  pp_cursor :: nat
  pp_hidden :: bool
  pp_running :: "string list"

definition poll_count :: "string list \<Rightarrow> nat" where
  "poll_count pollers = min MAX_POLLS_PER_TICK (length pollers)"

definition runPoll :: "poll_provider \<Rightarrow> poll_provider" where
  "runPoll s =
     (if pp_polling s then s
      else let pollers = pp_pollers s in
        if pollers = [] then s
        else let n = poll_count pollers;
                 start = pp_cursor s mod length pollers;
                 selected = map (\<lambda>index. pollers ! ((start + index) mod length pollers)) [0..<n]
             in s\<lparr>pp_polling := True, pp_cursor := (start + n) mod length pollers, pp_running := selected\<rparr>)"

definition syncTimer :: "bool \<Rightarrow> poll_provider \<Rightarrow> poll_provider" where
  "syncTimer reset s =
     (let s1 = (if reset then s\<lparr>pp_timer := None\<rparr> else s) in
      if pp_pollers s1 = [] then s1\<lparr>pp_timer := None\<rparr>
      else if pp_timer s1 = None
        then s1\<lparr>pp_timer := Some (if pp_hidden s1 then SETTLED_TAIL_MS else FAST_TAIL_MS)\<rparr>
        else s1)"

datatype poll_event =
    Register string
  | Unregister string
  | Timer
  | Focus
  | VisibilityChange bool
  | Batch_settled

fun poll_step :: "poll_provider \<Rightarrow> poll_event \<Rightarrow> poll_provider" where
  "poll_step s (Register key) = runPoll (syncTimer False (s\<lparr>pp_pollers := set_add key (pp_pollers s)\<rparr>))"
| "poll_step s (Unregister key) = syncTimer False (s\<lparr>pp_pollers := set_delete key (pp_pollers s)\<rparr>)"
| "poll_step s Timer = (if pp_timer s = None then s else runPoll s)"
| "poll_step s Focus = runPoll s"
| "poll_step s (VisibilityChange hidden) =
     (let s1 = syncTimer True (s\<lparr>pp_hidden := hidden\<rparr>) in if hidden then s1 else runPoll s1)"
| "poll_step s Batch_settled = s\<lparr>pp_polling := False, pp_running := []\<rparr>"

definition poll_provider_init :: "bool \<Rightarrow> poll_provider" where
  "poll_provider_init hidden = \<lparr>pp_pollers = [], pp_timer = None, pp_polling = False, pp_cursor = 0,
     pp_hidden = hidden, pp_running = []\<rparr>"

section \<open>Invariant\<close>

definition provider_inv :: "poll_provider \<Rightarrow> bool" where
  "provider_inv s = (distinct (pp_pollers s) \<and> (pp_timer s = None \<longleftrightarrow> pp_pollers s = []) \<and>
     (\<forall>ms. pp_timer s = Some ms \<longrightarrow> ms = (if pp_hidden s then SETTLED_TAIL_MS else FAST_TAIL_MS)) \<and>
     length (pp_running s) \<le> MAX_POLLS_PER_TICK \<and> distinct (pp_running s) \<and>
     (pp_running s \<noteq> [] \<longrightarrow> pp_polling s))"

lemma mod_window_inj:
  assumes "i < n" "j < n" "n \<le> (m :: nat)" "(a + i) mod m = (a + j) mod m"
  shows "i = j"
proof -
  have aux: "False" if "i < j" "j < n" "(a + i) mod m = (a + j) mod m" for i j
  proof -
    have "m dvd (a + j) - (a + i)" using that(3) by (metis mod_eq_dvd_iff_nat add_le_cancel_left less_imp_le that(1))
    then have "m \<le> j - i" using that(1) by (simp add: dvd_imp_le)
    with that(2) assms(3) show False by simp
  qed
  show ?thesis using aux [of i j] aux [of j i] assms by (cases i j rule: linorder_cases) auto
qed

lemma distinct_selection:
  assumes "distinct pollers" "n \<le> length pollers"
  shows "distinct (map (\<lambda>i. pollers ! ((start + i) mod length pollers)) [0..<n])"
  using assms mod_window_inj [of _ n _ "length pollers" start]
  by (cases "pollers = []") (auto simp: distinct_map inj_on_def nth_eq_iff_index_eq)

lemma runPoll_keeps [simp]:
  "pp_pollers (runPoll s) = pp_pollers s" "pp_timer (runPoll s) = pp_timer s" "pp_hidden (runPoll s) = pp_hidden s"
  by (simp_all add: runPoll_def Let_def)

lemma provider_inv_runPoll: "provider_inv s \<Longrightarrow> provider_inv (runPoll s)"
  using distinct_selection [of "pp_pollers s" "poll_count (pp_pollers s)"]
  by (auto simp: provider_inv_def runPoll_def Let_def poll_count_def)

lemma provider_inv_syncTimer:
  assumes "distinct (pp_pollers s)" "length (pp_running s) \<le> MAX_POLLS_PER_TICK" "distinct (pp_running s)"
    "pp_running s \<noteq> [] \<longrightarrow> pp_polling s"
    and "reset \<or> (\<forall>ms. pp_timer s = Some ms \<longrightarrow> ms = (if pp_hidden s then SETTLED_TAIL_MS else FAST_TAIL_MS))"
  shows "provider_inv (syncTimer reset s)"
  using assms by (auto simp: provider_inv_def syncTimer_def Let_def)

lemma provider_inv_step: "provider_inv s \<Longrightarrow> provider_inv (poll_step s e)"
  by (cases e)
    (auto simp: Let_def intro!: provider_inv_runPoll provider_inv_syncTimer, auto simp: provider_inv_def)

interpretation provider: guarded_machine poll_step provider_inv "\<lambda>s. length (pp_running s)" MAX_POLLS_PER_TICK
  by unfold_locales (auto simp: provider_inv_step, simp add: provider_inv_def)

section \<open>Round robin\<close>

text \<open>A number of timer ticks, each settled before the next; the batches they start.\<close>

fun poll_rounds :: "nat \<Rightarrow> poll_provider \<Rightarrow> string list" where
  "poll_rounds 0 s = []"
| "poll_rounds (Suc n) s = (let s1 = poll_step s Timer in pp_running s1 @ poll_rounds n (poll_step s1 Batch_settled))"

lemma mod_window_append:
  assumes "0 < (m :: nat)"
  shows "map (\<lambda>i. xs ! ((a + i) mod m)) [0..<n] @ map (\<lambda>i. xs ! ((a + n + i) mod m)) [0..<k] =
    map (\<lambda>i. xs ! ((a + i) mod m)) [0..<n + k]"
proof -
  have "[n..<n + k] = map (\<lambda>i. i + n) [0..<k]" by (simp add: map_add_upt add.commute)
  then have "map (\<lambda>i. xs ! ((a + n + i) mod m)) [0..<k] = map (\<lambda>i. xs ! ((a + i) mod m)) [n..<n + k]"
    by (simp add: comp_def algebra_simps)
  moreover have "[0..<n + k] = [0..<n] @ [n..<n + k]" by (rule upt_add_eq_append) simp
  ultimately show ?thesis by (simp only: map_append)
qed

lemma poll_rounds_window:
  assumes "\<not> pp_polling s" "pp_timer s \<noteq> None" "pp_pollers s \<noteq> []"
  shows "poll_rounds r s = map (\<lambda>i. pp_pollers s ! ((pp_cursor s + i) mod length (pp_pollers s)))
    [0..<r * poll_count (pp_pollers s)]"
  using assms
proof (induction r arbitrary: s)
  case (Suc r)
  let ?m = "length (pp_pollers s)" let ?n = "poll_count (pp_pollers s)"
  let ?s1 = "poll_step s Timer"
  have m: "0 < ?m" using Suc.prems by simp
  have s1: "pp_running ?s1 = map (\<lambda>i. pp_pollers s ! ((pp_cursor s + i) mod ?m)) [0..<?n]"
    "pp_pollers ?s1 = pp_pollers s" "pp_timer ?s1 = pp_timer s" "pp_cursor ?s1 = (pp_cursor s + ?n) mod ?m"
    using Suc.prems by (auto simp: runPoll_def Let_def mod_add_left_eq)
  have "poll_rounds r (poll_step ?s1 Batch_settled) =
      map (\<lambda>i. pp_pollers s ! ((pp_cursor s + ?n + i) mod ?m)) [0..<r * ?n]"
    using Suc.prems Suc.IH [of "poll_step ?s1 Batch_settled"] s1 by (simp add: mod_add_left_eq)
  then show ?case using s1(1) mod_window_append [OF m, of "pp_pollers s" "pp_cursor s" ?n "r * ?n"]
    by (simp add: Let_def)
qed simp

lemma window_covers:
  assumes "xs \<noteq> []" "length xs \<le> n"
  shows "set (map (\<lambda>i. xs ! ((a + i) mod length xs)) [0..<n]) = set xs"
proof
  show "set xs \<subseteq> set (map (\<lambda>i. xs ! ((a + i) mod length xs)) [0..<n])"
  proof
    fix x
    assume "x \<in> set xs"
    then obtain k where k: "k < length xs" "x = xs ! k" by (auto simp: in_set_conv_nth)
    let ?m = "length xs"
    let ?i = "(k + ?m - a mod ?m) mod ?m"
    have "a mod ?m < ?m" using k(1) by (intro mod_less_divisor) linarith
    have "(a + ?i) mod ?m = (a mod ?m + (k + ?m - a mod ?m)) mod ?m" by (simp add: mod_simps)
    also have "\<dots> = (k + ?m) mod ?m" using \<open>a mod ?m < ?m\<close> by (simp add: add.commute)
    finally have "(a + ?i) mod ?m = k" using k(1) by simp
    moreover have "?i < n" using k(1) assms(2) by (meson le_trans mod_less_divisor not_le order_less_le_trans zero_less_iff_neq_zero gr_zeroI less_nat_zero_code)
    ultimately show "x \<in> set (map (\<lambda>i. xs ! ((a + i) mod length xs)) [0..<n])"
      using k(2) by (auto intro!: image_eqI [of _ _ ?i])
  qed
qed (use assms in auto)

section \<open>Properties\<close>

text \<open>
  However many transcripts are expanded and whatever events arrive, at most four polls are in
  flight, all of different transcripts, and the one timer runs exactly while there is something to
  poll, with the slow interval exactly while the document is hidden.
\<close>

lemma transcript_polls_bounded:
  assumes "s = run poll_step (poll_provider_init hidden) es"
  shows "length (pp_running s) \<le> 4 \<and> distinct (pp_running s) \<and> (pp_timer s = None \<longleftrightarrow> pp_pollers s = []) \<and>
    pp_timer s \<in> {None, Some (if pp_hidden s then 2000 else 400)}"
proof -
  have init: "provider_inv (poll_provider_init hidden)" by (simp add: provider_inv_def poll_provider_init_def)
  have inv: "provider_inv s" unfolding assms using init by (rule provider.inv_run)
  have "length (pp_running s) \<le> MAX_POLLS_PER_TICK" unfolding assms using init by (rule provider.in_flight_run)
  with inv show ?thesis
    by (cases "pp_timer s") (auto simp: provider_inv_def MAX_POLLS_PER_TICK_def SETTLED_TAIL_MS_def FAST_TAIL_MS_def)
qed

lemma transcript_polls_bounded_witness:
  "length (pp_running (run poll_step (poll_provider_init False)
     [Register ''a'', Batch_settled, Register ''b'', Register ''c'', Batch_settled, Timer])) \<le> 4"
  using transcript_polls_bounded [OF refl, of False
      "[Register ''a'', Batch_settled, Register ''b'', Register ''c'', Batch_settled, Timer]"] by blast

text \<open>
  C20: Round robin is fair: with a stable set of transcripts, every one of them is polled within as
  many settled ticks as it takes to cover the set four at a time.
\<close>

theorem transcript_polls_fair:
  assumes "\<not> pp_polling s" "pp_timer s \<noteq> None" "pp_pollers s \<noteq> []"
    and "length (pp_pollers s) \<le> r * min 4 (length (pp_pollers s))"
  shows "set (poll_rounds r s) = set (pp_pollers s)"
  using assms window_covers [of "pp_pollers s" "r * poll_count (pp_pollers s)" "pp_cursor s"]
  by (simp add: poll_rounds_window poll_count_def MAX_POLLS_PER_TICK_def del: set_map)

theorem transcript_polls_fair_witness:
  "set (poll_rounds 2 \<lparr>pp_pollers = [''a'', ''b'', ''c'', ''d'', ''e''], pp_timer = Some 400, pp_polling = False,
     pp_cursor = 3, pp_hidden = False, pp_running = []\<rparr>) = {''a'', ''b'', ''c'', ''d'', ''e''}"
  using transcript_polls_fair [of "\<lparr>pp_pollers = [''a'', ''b'', ''c'', ''d'', ''e''], pp_timer = Some 400,
      pp_polling = False, pp_cursor = 3, pp_hidden = False, pp_running = []\<rparr>" 2]
  by simp

end
