(* ===== verification/Session_Sidebar.thy ===== *)
theory Session_Sidebar
  imports Rpc Machine
begin

text \<open>
  Workspace sessions: \<^verbatim>\<open>web/src/pages/sandbox/terminal/SessionSidebar.tsx\<close> and
  \<^verbatim>\<open>WorkspaceSessionActions.tsx\<close>.  The sidebar is an event machine: a click starts an operation,
  the answer of its RPC and of the refresh the handler awaits end it, and a new list of workspaces runs the effects.  The calls in
  flight and the queries the handlers invalidated are part of the state.  Rows and buttons are functions of the state; layout, icons
  and notifications are left out.
\<close>

datatype TerminalMode = Mode_session | Mode_quick | Mode_all

datatype WorkspaceSessionAction = Publish_action | Discard_action

record CreatedSession =
  cs_workspaceSessionId :: string
  cs_networkProfile :: NetworkProfile

section \<open>Problems\<close>

record protected_drop =
  pd_path :: "string option"
  pd_reason :: string
  pd_guidance :: string

record retained_problem =
  rt_title :: string
  rt_message :: string
  rt_path :: "string option"
  rt_reason :: "string option"
  rt_protectedDrop :: "protected_drop option"
  rt_activeCommandSessionIds :: "string list"
  rt_conflict :: bool

datatype WorkspaceSessionProblem =
    Retained retained_problem
  | Cleanup json
  | Failed_problem string string

fun isRecord :: "json option \<Rightarrow> bool" where
  "isRecord (Some (JObj _)) = True"
| "isRecord _ = False"

definition protectedDropGuidance :: "string \<Rightarrow> string" where
  "protectedDropGuidance reason =
     (if reason = ''unsupported_special_file'' then ''Remove or replace this unsupported special file before retrying.''
      else if reason = ''invalid_layer_path'' then ''Rename or remove this invalid LayerStack path before retrying.''
      else if reason = ''command_scratch_path'' then ''Move the change outside the command scratch path before retrying.''
      else ''Resolve this blocked change before retrying the publish.'')"

fun string_value :: "json option \<Rightarrow> string option" where
  "string_value (Some (JStr s)) = Some s"
| "string_value _ = None"

fun string_items :: "json option \<Rightarrow> string list" where
  "string_items (Some (JArr vs)) = List.map_filter (\<lambda>v. string_value (Some v)) vs"
| "string_items _ = []"

definition record_or_none :: "json option \<Rightarrow> json option" where
  "record_or_none v = (if isRecord v then v else None)"

definition publish_completed :: "json \<Rightarrow> bool" where
  "publish_completed details =
     (js_prop details ''stage'' = Some (JStr ''destroy'') \<and>
      js_prop details ''publish_completed'' = Some (JBool True) \<and>
      isRecord (js_prop details ''publish'') \<and>
      isRecord (opt_prop (js_prop details ''publish'') ''revision'') \<and>
      isRecord (opt_prop (js_prop details ''publish'') ''route_summary''))"

definition rejectionProblem :: "json option \<Rightarrow> WorkspaceSessionProblem" where
  "rejectionProblem rejection =
     (let sourceConflict = record_or_none (opt_prop rejection ''source_conflict'');
          protectedDrop = record_or_none (opt_prop rejection ''protected_drop'');
          protectedDropPath = string_value (opt_prop protectedDrop ''path'');
          protectedDropReason = string_value (opt_prop protectedDrop ''reason'');
          reason = string_value (opt_prop rejection ''reason'');
          path = (case string_value (opt_prop rejection ''path'') of Some p \<Rightarrow> Some p
            | None \<Rightarrow> (case string_value (opt_prop sourceConflict ''path'') of Some p \<Rightarrow> Some p
               | None \<Rightarrow> protectedDropPath));
          conflict = (reason = Some ''source_conflict'')
      in Retained \<lparr>rt_title = (if conflict then ''Publish conflict; session retained'' else ''Publish rejected; session retained''),
           rt_message = ''No LayerStack changes were committed. The complete unpublished delta remains available in this session.'',
           rt_path = path, rt_reason = reason,
           rt_protectedDrop = (case protectedDropReason of None \<Rightarrow> None
             | Some r \<Rightarrow> if r = [] then None
                 else Some \<lparr>pd_path = protectedDropPath, pd_reason = r, pd_guidance = protectedDropGuidance r\<rparr>),
           rt_activeCommandSessionIds = [], rt_conflict = conflict\<rparr>)"

fun closeProblem :: "thrown \<Rightarrow> WorkspaceSessionProblem" where
  "closeProblem (Thrown_rpc e) =
     (let details = err_details e in
      if \<not> isRecord (Some details) then Failed_problem ''Publish could not be completed'' (err_message e)
      else if publish_completed details then Cleanup (the (js_prop details ''publish''))
      else let activeCommandSessionIds = string_items (js_prop details ''active_command_session_ids'') in
        if activeCommandSessionIds \<noteq> []
        then Retained \<lparr>rt_title = ''Stop active commands first'',
          rt_message = ''Publishing did not start. The complete session delta was retained.'',
          rt_path = None, rt_reason = None, rt_protectedDrop = None,
          rt_activeCommandSessionIds = activeCommandSessionIds, rt_conflict = False\<rparr>
        else let rejection = record_or_none (js_prop details ''publish_rejection'');
                 retained = (js_prop details ''session_retained'' = Some (JBool True))
             in if retained \<or> rejection \<noteq> None then rejectionProblem rejection
                else Failed_problem (js_string (err_kind e)) (err_message e))"
| "closeProblem other = Failed_problem ''Publish could not be completed'' (thrown_message other)"

section \<open>The sidebar\<close>

text \<open>
  A handler that awaits an answer goes on with the props of the render it was created in, so a pending publish or destroy keeps the
  selection of the click.  After the answer the handler awaits a refresh, and the sidebar is busy until that has settled.
\<close>

record close_view =
  cl_mode :: TerminalMode
  cl_selected :: "string option"
  cl_narrow :: bool

datatype session_query = Snapshot_query | Layerstack_query | Files_query

fun query_key :: "string \<Rightarrow> session_query \<Rightarrow> string list" where
  "query_key sandboxId Snapshot_query = [''sandbox'', sandboxId, ''snapshot'']"
| "query_key sandboxId Layerstack_query = [''observability'', sandboxId, ''layerstack'']"
| "query_key sandboxId Files_query = [''files'', sandboxId]"

datatype pending_call =
    Creating_session NetworkProfile
  | Publishing string close_view
  | Destroying string bool close_view
  | Refetching string
  | Refreshing WorkspaceSessionAction string

record sidebar =
  sd_workspaces :: "WorkspaceSnapshot list"
  sd_mode :: TerminalMode
  sd_selected :: "string option"
  sd_createdSession :: "CreatedSession option"
  sd_createBusy :: bool
  sd_busySessionId :: "string option"
  sd_busyAction :: "WorkspaceSessionAction option"
  sd_discardConfirmId :: "string option"
  sd_actionProblem :: "(string \<times> WorkspaceSessionProblem) option"
  sd_closedSessionIds :: "string list"
  sd_cleanupRequiredIds :: "string list"
  sd_finalizationFailed :: "string list"
  sd_narrow :: bool
  sd_opened :: bool
  sd_calls :: "pending_call list"
  sd_invalidated :: "session_query list"

definition find_workspace :: "sidebar \<Rightarrow> string \<Rightarrow> WorkspaceSnapshot option" where
  "find_workspace s i = find (\<lambda>w. ws_workspace_id w = i) (sd_workspaces s)"

text \<open>
  The effects.  The first and the third depend on the state they change as well as on the
  workspaces, and they are idempotent, so they run after every event; the second depends on the
  workspaces alone and runs when these change.
\<close>

definition created_effect :: "sidebar \<Rightarrow> sidebar" where
  "created_effect s = s\<lparr>sd_createdSession := (case sd_createdSession s of None \<Rightarrow> None
     | Some c \<Rightarrow> if cs_workspaceSessionId c \<in> set (map ws_workspace_id (sd_workspaces s)) then None else Some c)\<rparr>"

definition failed_effect :: "sidebar \<Rightarrow> sidebar" where
  "failed_effect s =
     (let failed = map ws_workspace_id (filter (\<lambda>w. ws_finalization_state w = Finalize_failed) (sd_workspaces s))
      in s\<lparr>sd_cleanupRequiredIds := foldl (\<lambda>ids i. set_add i ids) (sd_cleanupRequiredIds s) failed,
           sd_finalizationFailed := foldl (\<lambda>ids i. set_add i ids) (sd_finalizationFailed s) failed\<rparr>)"

definition live_effect :: "sidebar \<Rightarrow> sidebar" where
  "live_effect s =
     (let live = map ws_workspace_id (sd_workspaces s)
      in s\<lparr>sd_discardConfirmId := (case sd_discardConfirmId s of None \<Rightarrow> None
             | Some i \<Rightarrow> if i \<in> set live then Some i else None),
           sd_actionProblem := (case sd_actionProblem s of None \<Rightarrow> None
             | Some (i, p) \<Rightarrow> if i \<in> set live then Some (i, p) else None)\<rparr>)"

definition sidebar_effects :: "sidebar \<Rightarrow> sidebar" where
  "sidebar_effects s = live_effect (created_effect s)"

text \<open>\<^verbatim>\<open>onSelect\<close> of the terminal tab also closes the drawer.\<close>

definition sidebar_select :: "TerminalMode \<Rightarrow> string option \<Rightarrow> sidebar \<Rightarrow> sidebar" where
  "sidebar_select mode i s = s\<lparr>sd_mode := mode, sd_selected := (if mode = Mode_session then i else None),
     sd_opened := False\<rparr>"

definition createSession :: "NetworkProfile \<Rightarrow> sidebar \<Rightarrow> sidebar" where
  "createSession profile s = (if sd_createBusy s \<or> sd_busyAction s \<noteq> None then s
     else s\<lparr>sd_createBusy := True, sd_calls := sd_calls s @ [Creating_session profile]\<rparr>)"

definition invalidate :: "session_query list \<Rightarrow> sidebar \<Rightarrow> sidebar" where
  "invalidate qs s = s\<lparr>sd_invalidated := sd_invalidated s @ qs\<rparr>"

definition refreshSnapshot :: "sidebar \<Rightarrow> sidebar" where
  "refreshSnapshot = invalidate [Snapshot_query]"

definition refreshPublishedState :: "sidebar \<Rightarrow> sidebar" where
  "refreshPublishedState = invalidate [Snapshot_query, Layerstack_query, Files_query]"

definition createSession_done :: "thrown + WorkspaceSessionCreated \<Rightarrow> sidebar \<Rightarrow> sidebar" where
  "createSession_done answer s = (case answer of
     Inl _ \<Rightarrow> s\<lparr>sd_createBusy := False\<rparr>
   | Inr out \<Rightarrow> (refreshSnapshot (sidebar_select Mode_session (Some (wc_workspace_session_id out))
       (s\<lparr>sd_createdSession := Some \<lparr>cs_workspaceSessionId = wc_workspace_session_id out,
                                  cs_networkProfile = wc_network_profile out\<rparr>\<rparr>)))\<lparr>sd_createBusy := False\<rparr>)"

definition close_view_of :: "sidebar \<Rightarrow> close_view" where
  "close_view_of s = \<lparr>cl_mode = sd_mode s, cl_selected = sd_selected s, cl_narrow = sd_narrow s\<rparr>"

definition closeSuccessfulSession :: "close_view \<Rightarrow> string \<Rightarrow> sidebar \<Rightarrow> sidebar" where
  "closeSuccessfulSession v i s =
     (let s1 = s\<lparr>sd_closedSessionIds := set_add i (sd_closedSessionIds s),
                 sd_cleanupRequiredIds := set_delete i (sd_cleanupRequiredIds s),
                 sd_discardConfirmId := None,
                 sd_actionProblem := (case sd_actionProblem s of None \<Rightarrow> None
                   | Some (j, p) \<Rightarrow> if j = i then None else Some (j, p))\<rparr>;
          s2 = (if cl_mode v = Mode_session \<and> cl_selected v = Some i then sidebar_select Mode_quick None s1 else s1)
      in if cl_narrow v then s2\<lparr>sd_opened := False\<rparr> else s2)"

definition publish_allowed :: "string \<Rightarrow> sidebar \<Rightarrow> bool" where
  "publish_allowed i s = (case find_workspace s i of None \<Rightarrow> False
     | Some target \<Rightarrow> \<not> sd_createBusy s \<and> sd_busyAction s = None \<and>
         ws_finalization_state target = Fin_active \<and> ws_active_namespace_executions target = [])"

definition publishSession :: "string \<Rightarrow> sidebar \<Rightarrow> sidebar" where
  "publishSession i s = (if \<not> publish_allowed i s then s
     else s\<lparr>sd_busySessionId := Some i, sd_busyAction := Some Publish_action, sd_discardConfirmId := None,
            sd_actionProblem := None, sd_calls := sd_calls s @ [Publishing i (close_view_of s)]\<rparr>)"

text \<open>The \<^verbatim>\<open>finally\<close> of both handlers, and what comes before it: the refresh they await.\<close>

definition action_finished :: "sidebar \<Rightarrow> sidebar" where
  "action_finished s = s\<lparr>sd_busyAction := None, sd_busySessionId := None\<rparr>"

definition await_call :: "pending_call \<Rightarrow> sidebar \<Rightarrow> sidebar" where
  "await_call c s = s\<lparr>sd_calls := c # sd_calls s\<rparr>"

definition publishSession_done :: "close_view \<Rightarrow> string \<Rightarrow> thrown + WorkspaceSessionPublished \<Rightarrow> sidebar \<Rightarrow> sidebar" where
  "publishSession_done v i answer s = (case answer of
     Inr _ \<Rightarrow> await_call (Refreshing Publish_action i) (refreshPublishedState (closeSuccessfulSession v i s))
   | Inl e \<Rightarrow> (let problem = closeProblem e; s0 = s\<lparr>sd_actionProblem := Some (i, problem)\<rparr> in
       case problem of
         Cleanup _ \<Rightarrow> await_call (Refreshing Publish_action i) (refreshPublishedState
           (s0\<lparr>sd_cleanupRequiredIds := set_add i (sd_cleanupRequiredIds s), sd_finalizationFailed := set_add i (sd_finalizationFailed s)\<rparr>))
       | Retained _ \<Rightarrow> await_call (Refetching i) s0
       | Failed_problem _ _ \<Rightarrow> action_finished s0))"

text \<open>
  After a rejection the snapshot is fetched, and invalidated when that fails.  A snapshot that was fetched replaces the cached one,
  and its workspaces arrive as those of every other snapshot do.
\<close>

definition refreshRejectedSnapshot_done :: "string \<Rightarrow> thrown option \<Rightarrow> sidebar \<Rightarrow> sidebar" where
  "refreshRejectedSnapshot_done i failure s = (case failure of None \<Rightarrow> action_finished s
     | Some _ \<Rightarrow> await_call (Refreshing Publish_action i) (refreshSnapshot s))"

definition cleanup_required :: "string \<Rightarrow> sidebar \<Rightarrow> bool" where
  "cleanup_required i s = (i \<in> set (sd_cleanupRequiredIds s) \<or>
     (case find_workspace s i of None \<Rightarrow> False | Some w \<Rightarrow> ws_finalization_state w = Finalize_failed))"

definition destroy_allowed :: "string \<Rightarrow> sidebar \<Rightarrow> bool" where
  "destroy_allowed i s = (case find_workspace s i of None \<Rightarrow> False
     | Some target \<Rightarrow> \<not> sd_createBusy s \<and> sd_busyAction s = None \<and>
         (cleanup_required i s \<or> ws_finalization_state target = Fin_active) \<and>
         ws_active_namespace_executions target = [])"

definition destroySession :: "string \<Rightarrow> sidebar \<Rightarrow> sidebar" where
  "destroySession i s = (if \<not> destroy_allowed i s then s
     else s\<lparr>sd_busySessionId := Some i, sd_busyAction := Some Discard_action, sd_actionProblem := None,
            sd_calls := sd_calls s @ [Destroying i (cleanup_required i s) (close_view_of s)]\<rparr>)"

definition destroySession_done :: "close_view \<Rightarrow> string \<Rightarrow> thrown + WorkspaceSessionDestroyed \<Rightarrow> sidebar \<Rightarrow> sidebar" where
  "destroySession_done v i answer s = (case answer of
     Inr _ \<Rightarrow> await_call (Refreshing Discard_action i) (refreshSnapshot (closeSuccessfulSession v i s))
   | Inl e \<Rightarrow> action_finished (s\<lparr>sd_actionProblem := Some (i, Failed_problem ''Session could not be closed'' (thrown_message e))\<rparr>))"

datatype call_answer =
    Created "thrown + WorkspaceSessionCreated"
  | Published "thrown + WorkspaceSessionPublished"
  | Destroyed "thrown + WorkspaceSessionDestroyed"
  | Refetched "thrown option"
  | Refreshed

datatype sidebar_event =
    Workspaces_changed "WorkspaceSnapshot list"
  | Select TerminalMode "string option"
  | Create_click NetworkProfile
  | Publish_click string
  | Discard_click string
  | Request_discard string
  | Cancel_discard
  | Open_sessions
  | Drawer_close
  | Call_answered call_answer

text \<open>The answer of the call in flight; an answer of another kind cannot arrive.\<close>

fun answer_call :: "pending_call \<Rightarrow> call_answer \<Rightarrow> sidebar \<Rightarrow> sidebar option" where
  "answer_call (Creating_session _) (Created a) s = Some (createSession_done a s)"
| "answer_call (Publishing i v) (Published a) s = Some (publishSession_done v i a s)"
| "answer_call (Destroying i _ v) (Destroyed a) s = Some (destroySession_done v i a s)"
| "answer_call (Refetching i) (Refetched a) s = Some (refreshRejectedSnapshot_done i a s)"
| "answer_call (Refreshing _ _) Refreshed s = Some (action_finished s)"
| "answer_call _ _ s = None"

fun sidebar_handle :: "sidebar \<Rightarrow> sidebar_event \<Rightarrow> sidebar" where
  "sidebar_handle s (Workspaces_changed ws) = failed_effect (s\<lparr>sd_workspaces := ws\<rparr>)"
| "sidebar_handle s (Select mode i) = sidebar_select mode i s"
| "sidebar_handle s (Create_click profile) = createSession profile s"
| "sidebar_handle s (Publish_click i) = publishSession i s"
| "sidebar_handle s (Discard_click i) = destroySession i s"
| "sidebar_handle s (Request_discard i) = s\<lparr>sd_actionProblem := None, sd_discardConfirmId := Some i\<rparr>"
| "sidebar_handle s Cancel_discard = s\<lparr>sd_discardConfirmId := None\<rparr>"
| "sidebar_handle s Open_sessions = s\<lparr>sd_opened := True\<rparr>"
| "sidebar_handle s Drawer_close = s\<lparr>sd_discardConfirmId := None, sd_opened := False\<rparr>"
| "sidebar_handle s (Call_answered a) = (case sd_calls s of [] \<Rightarrow> s
     | c # cs \<Rightarrow> (case answer_call c a (s\<lparr>sd_calls := cs\<rparr>) of None \<Rightarrow> s | Some s' \<Rightarrow> s'))"

definition sidebar_step :: "sidebar \<Rightarrow> sidebar_event \<Rightarrow> sidebar" where
  "sidebar_step s e = sidebar_effects (sidebar_handle s e)"

section \<open>Rows and buttons\<close>

record session_row =
  row_id :: string
  row_networkProfile :: NetworkProfile
  row_layerCount :: nat
  row_activeCommands :: nat
  row_finalizationState :: WorkspaceFinalizationState
  row_persisted :: bool

definition session_rows :: "sidebar \<Rightarrow> session_row list" where
  "session_rows s =
     (let persisted = map (\<lambda>w. \<lparr>row_id = ws_workspace_id w, row_networkProfile = ws_network_profile w,
              row_layerCount = ws_layer_count w, row_activeCommands = length (ws_active_namespace_executions w),
              row_finalizationState = ws_finalization_state w, row_persisted = True\<rparr>)
            (filter (\<lambda>w. ws_workspace_id w \<notin> set (sd_closedSessionIds s)) (sd_workspaces s))
      in case sd_createdSession s of
           None \<Rightarrow> persisted
         | Some c \<Rightarrow> if cs_workspaceSessionId c \<in> set (map row_id persisted) then persisted
             else persisted @ [\<lparr>row_id = cs_workspaceSessionId c, row_networkProfile = cs_networkProfile c,
               row_layerCount = 0, row_activeCommands = 0, row_finalizationState = Fin_active, row_persisted = False\<rparr>])"

definition row_cleanupRequired :: "sidebar \<Rightarrow> session_row \<Rightarrow> bool" where
  "row_cleanupRequired s row = (row_id row \<in> set (sd_cleanupRequiredIds s) \<or> row_finalizationState row = Finalize_failed)"

definition row_busyAction :: "sidebar \<Rightarrow> session_row \<Rightarrow> WorkspaceSessionAction option" where
  "row_busyAction s row = (if sd_busySessionId s = Some (row_id row) then sd_busyAction s else None)"

definition disabledReason :: "sidebar \<Rightarrow> session_row \<Rightarrow> string option" where
  "disabledReason s row =
     (if 0 < row_activeCommands row
      then Some (''Stop '' @ (if row_activeCommands row = 1 then ''the active command''
        else show_nat (row_activeCommands row) @ '' active commands'') @ '' before publishing or discarding.'')
      else if row_finalizationState row = Finalizing then Some ''This workspace session is finalizing.''
      else if sd_createBusy s then Some ''A workspace session is being created.''
      else if sd_busyAction s \<noteq> None \<and> row_busyAction s row = None
        then Some ''Another workspace session action is in progress.''
      else None)"

definition profile_string :: "NetworkProfile \<Rightarrow> string" where
  "profile_string p = (case p of Shared \<Rightarrow> ''shared'' | Isolated \<Rightarrow> ''isolated'')"

definition plural :: "nat \<Rightarrow> string \<Rightarrow> string" where
  "plural n word = show_nat n @ '' '' @ word @ (if n = 1 then [] else ''s'')"

definition middle_dot :: string where
  "middle_dot = [CHR '' '', CHR 0xB7, CHR '' '']"

definition row_description :: "sidebar \<Rightarrow> session_row \<Rightarrow> string" where
  "row_description s row = join middle_dot (filter (\<lambda>t. t \<noteq> [])
     [profile_string (row_networkProfile row), plural (row_layerCount row) ''layer'',
      if 0 < row_activeCommands row
      then show_nat (row_activeCommands row) @ '' active '' @ (if row_activeCommands row = 1 then ''command'' else ''commands'')
      else [],
      if row_finalizationState row = Finalizing then ''finalizing'' else [],
      if row_cleanupRequired s row then ''cleanup required'' else []])"

definition row_active :: "sidebar \<Rightarrow> session_row \<Rightarrow> bool" where
  "row_active s row = (sd_mode s = Mode_session \<and> sd_selected s = Some (row_id row))"

definition mutationBusy :: "sidebar \<Rightarrow> bool" where
  "mutationBusy s = (sd_createBusy s \<or> sd_busyAction s \<noteq> None)"

datatype session_button = Finish_cleanup | Keep_session | Confirm_discard | Publish_button | Discard_button

record button_view =
  bt_button :: session_button
  bt_disabled :: bool
  bt_loading :: bool
  bt_label :: string
  bt_title :: string

definition WorkspaceSessionActionButtons :: "string \<Rightarrow> bool \<Rightarrow> string option \<Rightarrow> bool \<Rightarrow> WorkspaceSessionAction option \<Rightarrow> bool \<Rightarrow> button_view list" where
  "WorkspaceSessionActionButtons workspaceSessionId cleanupRequired reason busy busyAction discardConfirmation =
     (let disabled = (busy \<or> reason \<noteq> None);
          hint = (\<lambda>text. case reason of None \<Rightarrow> text | Some r \<Rightarrow> r);
          publishHint = hint (''Publish '' @ workspaceSessionId @ '' to LayerStack and close it'');
          discardHint = hint (''Discard unpublished changes in '' @ workspaceSessionId)
      in
      if cleanupRequired then
        [\<lparr>bt_button = Finish_cleanup, bt_disabled = disabled, bt_loading = (busyAction = Some Discard_action),
          bt_label = ''Finish cleanup for workspace session '' @ workspaceSessionId,
          bt_title = hint (''Finish cleanup for '' @ workspaceSessionId)\<rparr>]
      else if discardConfirmation then
        [\<lparr>bt_button = Keep_session, bt_disabled = busy, bt_loading = False,
          bt_label = ''Keep workspace session '' @ workspaceSessionId, bt_title = ''Keep workspace session''\<rparr>,
         \<lparr>bt_button = Confirm_discard, bt_disabled = disabled, bt_loading = (busyAction = Some Discard_action),
          bt_label = ''Confirm discard and close workspace session '' @ workspaceSessionId,
          bt_title = hint ''Confirm discard and close''\<rparr>]
      else
        [\<lparr>bt_button = Publish_button, bt_disabled = disabled, bt_loading = (busyAction = Some Publish_action),
          bt_label = ''Publish and close workspace session '' @ workspaceSessionId, bt_title = publishHint\<rparr>,
         \<lparr>bt_button = Discard_button, bt_disabled = disabled, bt_loading = False,
          bt_label = ''Discard workspace session '' @ workspaceSessionId, bt_title = discardHint\<rparr>])"

definition row_buttons :: "sidebar \<Rightarrow> session_row \<Rightarrow> button_view list" where
  "row_buttons s row = (if \<not> row_persisted row then []
     else WorkspaceSessionActionButtons (row_id row) (row_cleanupRequired s row) (disabledReason s row) (mutationBusy s)
       (row_busyAction s row) (sd_discardConfirmId s = Some (row_id row)))"

text \<open>What a click on an enabled button of a row does.\<close>

fun button_event :: "session_button \<Rightarrow> string \<Rightarrow> sidebar_event" where
  "button_event Finish_cleanup i = Discard_click i"
| "button_event Keep_session i = Cancel_discard"
| "button_event Confirm_discard i = Discard_click i"
| "button_event Publish_button i = Publish_click i"
| "button_event Discard_button i = Request_discard i"

text \<open>The feedback under a row: the problem shown belongs to the row, and cleanup is announced once required.\<close>

datatype session_feedback =
    Confirm_text
  | Disabled_text string
  | Cleanup_alert "json option"
  | Retained_alert retained_problem
  | Failed_alert string string

definition WorkspaceSessionActionFeedback :: "bool \<Rightarrow> string option \<Rightarrow> bool \<Rightarrow> WorkspaceSessionProblem option \<Rightarrow> session_feedback list" where
  "WorkspaceSessionActionFeedback cleanupRequired reason discardConfirmation problem =
     (if discardConfirmation then [Confirm_text] else []) @
     (case reason of None \<Rightarrow> [] | Some r \<Rightarrow> if r = [] then [] else [Disabled_text r]) @
     (case problem of
        Some (Cleanup publish) \<Rightarrow> [Cleanup_alert (Some publish)]
      | _ \<Rightarrow> if cleanupRequired then [Cleanup_alert None] else []) @
     (case problem of
        Some (Retained r) \<Rightarrow> [Retained_alert r]
      | Some (Failed_problem t m) \<Rightarrow> [Failed_alert t m]
      | _ \<Rightarrow> [])"

definition row_feedback :: "sidebar \<Rightarrow> session_row \<Rightarrow> session_feedback list" where
  "row_feedback s row = (if \<not> row_persisted row then []
     else WorkspaceSessionActionFeedback (row_cleanupRequired s row) (disabledReason s row)
       (sd_discardConfirmId s = Some (row_id row))
       (case sd_actionProblem s of None \<Rightarrow> None
        | Some (i, p) \<Rightarrow> if i = row_id row then Some p else None))"

section \<open>One mutation at a time\<close>

fun mutation_ok :: "pending_call list \<Rightarrow> bool \<Rightarrow> WorkspaceSessionAction option \<Rightarrow> string option \<Rightarrow> bool" where
  "mutation_ok [] create action i = (\<not> create \<and> action = None \<and> i = None)"
| "mutation_ok [Creating_session _] create action i = (create \<and> action = None \<and> i = None)"
| "mutation_ok [Publishing j _] create action i = (\<not> create \<and> action = Some Publish_action \<and> i = Some j)"
| "mutation_ok [Destroying j _ _] create action i = (\<not> create \<and> action = Some Discard_action \<and> i = Some j)"
| "mutation_ok [Refetching j] create action i = (\<not> create \<and> action = Some Publish_action \<and> i = Some j)"
| "mutation_ok [Refreshing a j] create action i = (\<not> create \<and> action = Some a \<and> i = Some j)"
| "mutation_ok _ create action i = False"

definition sidebar_inv :: "sidebar \<Rightarrow> bool" where
  "sidebar_inv s = mutation_ok (sd_calls s) (sd_createBusy s) (sd_busyAction s) (sd_busySessionId s)"

lemma mutation_ok_idle: "mutation_ok cs create action i \<Longrightarrow> \<not> create \<Longrightarrow> action = None \<Longrightarrow> cs = [] \<and> i = None"
  by (induction cs create action i rule: mutation_ok.induct) auto

lemma mutation_ok_length: "mutation_ok cs create action i \<Longrightarrow> length cs \<le> 1"
  by (induction cs create action i rule: mutation_ok.induct) auto

lemma mutation_ok_busy: "mutation_ok cs create action i \<Longrightarrow> (create \<or> action \<noteq> None) \<longleftrightarrow> cs \<noteq> []"
  by (induction cs create action i rule: mutation_ok.induct) auto

lemmas sidebar_ops = createSession_def createSession_done_def publishSession_def publishSession_done_def
  destroySession_def destroySession_done_def closeSuccessfulSession_def sidebar_select_def
  refreshRejectedSnapshot_done_def refreshPublishedState_def refreshSnapshot_def invalidate_def action_finished_def await_call_def Let_def

lemma publish_allowed_idle: "publish_allowed i s \<Longrightarrow> \<not> sd_createBusy s \<and> sd_busyAction s = None"
  by (auto simp: publish_allowed_def split: option.splits)

lemma destroy_allowed_idle: "destroy_allowed i s \<Longrightarrow> \<not> sd_createBusy s \<and> sd_busyAction s = None"
  by (auto simp: destroy_allowed_def split: option.splits)

lemma answer_keeps_inv:
  assumes "sidebar_inv (s\<lparr>sd_calls := [c]\<rparr>)" "answer_call c a (s\<lparr>sd_calls := []\<rparr>) = Some s'"
  shows "sidebar_inv s'"
  using assms by (cases "(c, a, s\<lparr>sd_calls := []\<rparr>)" rule: answer_call.cases)
    (auto simp: sidebar_inv_def sidebar_ops simp del: closeProblem.simps split: sum.splits option.splits WorkspaceSessionProblem.splits)

lemma effects_keep [simp]:
  "sd_calls (sidebar_effects s) = sd_calls s" "sd_createBusy (sidebar_effects s) = sd_createBusy s"
  "sd_busyAction (sidebar_effects s) = sd_busyAction s" "sd_busySessionId (sidebar_effects s) = sd_busySessionId s"
  "sd_closedSessionIds (sidebar_effects s) = sd_closedSessionIds s" "sd_workspaces (sidebar_effects s) = sd_workspaces s"
  "sd_cleanupRequiredIds (sidebar_effects s) = sd_cleanupRequiredIds s"
  by (simp_all add: sidebar_effects_def live_effect_def created_effect_def Let_def)

lemma sidebar_inv_handle: "sidebar_inv s \<Longrightarrow> sidebar_inv (sidebar_handle s e)"
proof (cases e)
  case (Call_answered a)
  assume inv: "sidebar_inv s"
  show ?thesis
  proof (cases "sd_calls s")
    case (Cons c cs)
    then have "cs = []" using inv mutation_ok_length unfolding sidebar_inv_def by fastforce
    with Cons Call_answered inv show ?thesis
      using answer_keeps_inv [of c s a] by (auto simp: sidebar_inv_def split: option.splits)
  qed (use Call_answered inv in simp)
next
  case (Create_click p)
  assume inv: "sidebar_inv s"
  show ?thesis
  proof (cases "sd_createBusy s \<or> sd_busyAction s \<noteq> None")
    case False
    then have "sd_calls s = []" "sd_busySessionId s = None"
      using inv mutation_ok_idle unfolding sidebar_inv_def by blast+
    with False Create_click show ?thesis by (simp add: sidebar_inv_def createSession_def)
  qed (use inv Create_click in \<open>simp add: createSession_def\<close>)
next
  case (Publish_click i)
  assume inv: "sidebar_inv s"
  show ?thesis
  proof (cases "publish_allowed i s")
    case True
    then have "sd_calls s = []" "\<not> sd_createBusy s"
      using inv mutation_ok_idle publish_allowed_idle unfolding sidebar_inv_def by blast+
    with True Publish_click show ?thesis by (simp add: sidebar_inv_def publishSession_def)
  qed (use inv Publish_click in \<open>simp add: publishSession_def\<close>)
next
  case (Discard_click i)
  assume inv: "sidebar_inv s"
  show ?thesis
  proof (cases "destroy_allowed i s")
    case True
    then have "sd_calls s = []" "\<not> sd_createBusy s"
      using inv mutation_ok_idle destroy_allowed_idle unfolding sidebar_inv_def by blast+
    with True Discard_click show ?thesis by (simp add: sidebar_inv_def destroySession_def)
  qed (use inv Discard_click in \<open>simp add: destroySession_def\<close>)
qed (auto simp: sidebar_inv_def failed_effect_def sidebar_select_def Let_def)

lemma sidebar_inv_step: "sidebar_inv s \<Longrightarrow> sidebar_inv (sidebar_step s e)"
  using sidebar_inv_handle [of s e] by (simp add: sidebar_step_def sidebar_inv_def)

interpretation sidebar: guarded_machine sidebar_step sidebar_inv "\<lambda>s. length (sd_calls s)" 1
proof
  show "sidebar_inv s \<Longrightarrow> sidebar_inv (sidebar_step s e)" for s e by (rule sidebar_inv_step)
  show "sidebar_inv s \<Longrightarrow> length (sd_calls s) \<le> 1" for s
    unfolding sidebar_inv_def by (rule mutation_ok_length)
qed

definition sidebar_init :: "WorkspaceSnapshot list \<Rightarrow> sidebar" where
  "sidebar_init ws = \<lparr>sd_workspaces = ws, sd_mode = Mode_quick, sd_selected = None, sd_createdSession = None,
     sd_createBusy = False, sd_busySessionId = None, sd_busyAction = None, sd_discardConfirmId = None,
     sd_actionProblem = None, sd_closedSessionIds = [], sd_cleanupRequiredIds = [],
     sd_finalizationFailed = [], sd_narrow = False, sd_opened = False, sd_calls = [], sd_invalidated = []\<rparr>"

section \<open>Buttons and guards\<close>

lemma find_workspace_distinct:
  assumes "distinct (map ws_workspace_id (sd_workspaces s))" "w \<in> set (sd_workspaces s)"
  shows "find_workspace s (ws_workspace_id w) = Some w"
proof -
  have "find_workspace s (ws_workspace_id w) \<noteq> None"
    using assms(2) by (auto simp: find_workspace_def find_None_iff)
  then obtain v where v: "find_workspace s (ws_workspace_id w) = Some v" by blast
  have "v \<in> set (sd_workspaces s)" "ws_workspace_id v = ws_workspace_id w"
    using v by (auto simp: find_workspace_def find_Some_iff)
  moreover have "inj_on ws_workspace_id (set (sd_workspaces s))" using assms(1) by (simp add: distinct_map)
  ultimately have "v = w" using assms(2) by (meson inj_onD)
  with v show ?thesis by simp
qed

lemma persisted_row:
  assumes "row \<in> set (session_rows s)" "row_persisted row"
  obtains w where "w \<in> set (sd_workspaces s)" "ws_workspace_id w \<notin> set (sd_closedSessionIds s)"
    "row_id row = ws_workspace_id w" "row_finalizationState row = ws_finalization_state w"
    "row_activeCommands row = length (ws_active_namespace_executions w)"
  using assms by (auto simp: session_rows_def Let_def split: option.splits if_splits)

lemma closed_handle: "i \<in> set (sd_closedSessionIds s) \<Longrightarrow> i \<in> set (sd_closedSessionIds (sidebar_handle s e))"
proof (cases e)
  case (Call_answered a)
  assume "i \<in> set (sd_closedSessionIds s)"
  then have "answer_call c a (s\<lparr>sd_calls := cs\<rparr>) = Some s' \<Longrightarrow> i \<in> set (sd_closedSessionIds s')" for c cs s'
    by (cases "(c, a, s\<lparr>sd_calls := cs\<rparr>)" rule: answer_call.cases)
      (auto simp: sidebar_ops simp del: closeProblem.simps split: sum.splits option.splits WorkspaceSessionProblem.splits)
  with Call_answered \<open>i \<in> set (sd_closedSessionIds s)\<close> show ?thesis
    by (auto split: list.splits option.splits)
qed (auto simp: sidebar_ops failed_effect_def)

interpretation closed: event_machine sidebar_step "\<lambda>s. i \<in> set (sd_closedSessionIds s)" for i
  by unfold_locales (simp add: sidebar_step_def closed_handle)

section \<open>Properties\<close>

text \<open>
  C5: At most one session mutation is ever in flight: in every reachable state of the sidebar there is
  at most one pending create, publish or destroy call or refresh that follows one, and the busy flags are set exactly while there
  is one.
\<close>

theorem session_single_mutation:
  assumes "s = run sidebar_step (sidebar_init ws) es"
  shows "length (sd_calls s) \<le> 1 \<and> (mutationBusy s \<longleftrightarrow> sd_calls s \<noteq> [])"
proof -
  have init: "sidebar_inv (sidebar_init ws)" by (simp add: sidebar_inv_def sidebar_init_def)
  have "sidebar_inv s" unfolding assms using init by (rule sidebar.inv_run)
  moreover have "length (sd_calls s) \<le> 1" unfolding assms using init by (rule sidebar.in_flight_run)
  ultimately show ?thesis using mutation_ok_busy by (auto simp: sidebar_inv_def mutationBusy_def)
qed

theorem session_single_mutation_witness:
  "length (sd_calls (run sidebar_step (sidebar_init []) [Create_click Shared, Create_click Isolated])) \<le> 1"
  using session_single_mutation [OF refl, of "[]" "[Create_click Shared, Create_click Isolated]"] by blast

text \<open>
  An enabled button always acts.  In a list of workspaces with distinct ids, clicking an enabled
  Publish of a row starts a publish of that session, which is then active and without running
  commands, and clicking an enabled Finish cleanup or Confirm discard starts its destroy.
\<close>

lemma enabled_button_acts:
  assumes "distinct (map ws_workspace_id (sd_workspaces s))" "row \<in> set (session_rows s)"
    and "b \<in> set (row_buttons s row)" "\<not> bt_disabled b"
  shows "(bt_button b = Publish_button \<longrightarrow> publish_allowed (row_id row) s \<and>
      sd_calls (sidebar_step s (button_event (bt_button b) (row_id row))) = sd_calls s @ [Publishing (row_id row) (close_view_of s)]) \<and>
    (bt_button b \<in> {Finish_cleanup, Confirm_discard} \<longrightarrow> destroy_allowed (row_id row) s \<and>
      sd_calls (sidebar_step s (button_event (bt_button b) (row_id row))) =
        sd_calls s @ [Destroying (row_id row) (cleanup_required (row_id row) s) (close_view_of s)])"
proof -
  have pers: "row_persisted row" using assms(3) by (auto simp: row_buttons_def split: if_splits)
  then obtain w where w: "w \<in> set (sd_workspaces s)" "row_id row = ws_workspace_id w"
    "row_finalizationState row = ws_finalization_state w"
    "row_activeCommands row = length (ws_active_namespace_executions w)"
    using assms(2) by (elim persisted_row) auto
  have fw: "find_workspace s (row_id row) = Some w"
    using find_workspace_distinct [OF assms(1) w(1)] w(2) by simp
  have acts: "bt_button b \<in> {Publish_button, Finish_cleanup, Confirm_discard} \<Longrightarrow>
      \<not> mutationBusy s \<and> disabledReason s row = None"
    and pub: "bt_button b = Publish_button \<Longrightarrow> \<not> row_cleanupRequired s row"
    using assms(3,4) pers by (auto simp: row_buttons_def WorkspaceSessionActionButtons_def Let_def split: if_splits)
  have free: "\<not> sd_createBusy s" "sd_busyAction s = None" "ws_active_namespace_executions w = []"
    "ws_finalization_state w \<noteq> Finalizing" if "bt_button b \<in> {Publish_button, Finish_cleanup, Confirm_discard}"
    using acts [OF that] w by (auto simp: mutationBusy_def disabledReason_def split: if_splits)
  have "publish_allowed (row_id row) s" if "bt_button b = Publish_button"
    using free that pub [OF that] fw w
    by (cases "ws_finalization_state w") (auto simp: publish_allowed_def row_cleanupRequired_def)
  moreover have "destroy_allowed (row_id row) s" if "bt_button b \<in> {Finish_cleanup, Confirm_discard}"
    using free that fw by (cases "ws_finalization_state w") (auto simp: destroy_allowed_def cleanup_required_def)
  ultimately show ?thesis by (auto simp: sidebar_step_def publishSession_def destroySession_def)
qed

definition sample_workspace :: "string \<Rightarrow> WorkspaceFinalizationState \<Rightarrow> WorkspaceSnapshot" where
  "sample_workspace i st = \<lparr>ws_workspace_id = i, ws_lifecycle_state = ''ready'', ws_finalization_state = st,
     ws_network_profile = Shared, ws_base_root_hash = '''', ws_layer_count = 1, ws_namespace_fd_count = 0,
     ws_resources = \<lparr>ser_latest = None, ser_history = []\<rparr>, ws_active_namespace_executions = []\<rparr>"

lemma enabled_button_acts_witness:
  "sd_calls (sidebar_step (sidebar_init [sample_workspace ''w'' Fin_active]) (Publish_click ''w'')) =
     [Publishing ''w'' \<lparr>cl_mode = Mode_quick, cl_selected = None, cl_narrow = False\<rparr>]"
  using enabled_button_acts [of "sidebar_init [sample_workspace ''w'' Fin_active]"
      "\<lparr>row_id = ''w'', row_networkProfile = Shared, row_layerCount = 1, row_activeCommands = 0,
        row_finalizationState = Fin_active, row_persisted = True\<rparr>"
      "\<lparr>bt_button = Publish_button, bt_disabled = False, bt_loading = False,
        bt_label = ''Publish and close workspace session w'', bt_title = ''Publish w to LayerStack and close it''\<rparr>"]
  by (simp add: sidebar_init_def sample_workspace_def session_rows_def row_buttons_def row_cleanupRequired_def
      disabledReason_def mutationBusy_def row_busyAction_def WorkspaceSessionActionButtons_def close_view_of_def)

lemma publish_failed_state:
  "sd_actionProblem (publishSession_done v i (Inl e) s) = Some (i, closeProblem e)"
  "sd_closedSessionIds (publishSession_done v i (Inl e) s) = sd_closedSessionIds s"
  "sd_invalidated (publishSession_done v i (Inl e) s) = sd_invalidated s @
     (case closeProblem e of Cleanup p \<Rightarrow> [Snapshot_query, Layerstack_query, Files_query] | _ \<Rightarrow> [])"
  "closeProblem e = Cleanup p \<Longrightarrow> i \<in> set (sd_cleanupRequiredIds (publishSession_done v i (Inl e) s))"
  by (simp_all add: sidebar_ops split: WorkspaceSessionProblem.splits)



text \<open>
  A closed session stays closed.  Once a publish or destroy of a session succeeded, no later state of the sidebar shows a stored row
  for it, even if a late snapshot still lists it, and right after the success it is not blocked by a problem or a confirmation, nor
  selected when the selection is that of the click.
\<close>

lemma closed_session_never_returns:
  assumes "s' = publishSession_done v i (Inr out) s \<or> s' = destroySession_done v i (Inr out') s"
    and "row \<in> set (session_rows (run sidebar_step s' es))" "row_persisted row"
  shows "row_id row \<noteq> i \<and> (v = close_view_of s \<longrightarrow> \<not> (sd_mode s' = Mode_session \<and> sd_selected s' = Some i)) \<and>
    sd_discardConfirmId s' = None \<and> (\<forall>p. sd_actionProblem s' \<noteq> Some (i, p))"
proof -
  have "i \<in> set (sd_closedSessionIds s')" using assms(1) by (auto simp: sidebar_ops)
  then have "i \<in> set (sd_closedSessionIds (run sidebar_step s' es))" by (rule closed.inv_run)
  with assms(2,3) have "row_id row \<noteq> i" by (auto elim!: persisted_row)
  moreover have "(v = close_view_of s \<longrightarrow> \<not> (sd_mode s' = Mode_session \<and> sd_selected s' = Some i)) \<and> sd_discardConfirmId s' = None \<and>
      (\<forall>p. sd_actionProblem s' \<noteq> Some (i, p))"
    using assms(1) by (auto simp: sidebar_ops close_view_of_def split: option.splits if_splits)
  ultimately show ?thesis by blast
qed

lemma closed_session_never_returns_witness:
  "\<exists>row. row \<in> set (session_rows (run sidebar_step
       (destroySession_done \<lparr>cl_mode = Mode_quick, cl_selected = None, cl_narrow = False\<rparr> ''w''
         (Inr \<lparr>wd_workspace_session_id = ''w'', wd_evicted_upperdir_bytes = 0\<rparr>)
         (sidebar_init [sample_workspace ''w'' Fin_active, sample_workspace ''v'' Fin_active])) [])) \<and>
     row_persisted row \<and> row_id row \<noteq> ''w''"
  using closed_session_never_returns [OF disjI2 [OF refl], of _ "\<lparr>cl_mode = Mode_quick, cl_selected = None, cl_narrow = False\<rparr>" "''w''"
      "\<lparr>wd_workspace_session_id = ''w'', wd_evicted_upperdir_bytes = 0\<rparr>"
      "sidebar_init [sample_workspace ''w'' Fin_active, sample_workspace ''v'' Fin_active]" "[]"]
  by (simp add: sidebar_ops sidebar_init_def sample_workspace_def session_rows_def set_add_def)

text \<open>
  The selection the handler compares is that of the click: a user who publishes the selected session and turns to another one while
  the call runs is sent back to the quick terminal when it succeeds.
\<close>

lemma publish_leaves_new_selection:
  "(let s = run sidebar_step (sidebar_init [sample_workspace ''w'' Fin_active, sample_workspace ''v'' Fin_active])
      [Select Mode_session (Some ''w''), Publish_click ''w'', Select Mode_session (Some ''v''), Call_answered (Published (Inr out))]
    in sd_mode s = Mode_quick \<and> sd_selected s = None)"
  by (simp add: Let_def sidebar_step_def sidebar_effects_def live_effect_def created_effect_def sidebar_init_def sample_workspace_def
      publish_allowed_def find_workspace_def close_view_of_def set_add_def sidebar_ops)

text \<open>
  Every operation ends: the sidebar is free again at most three answers after the click, whatever they are.  The rank of a call is the
  number of answers it may still take.
\<close>

fun call_rank :: "pending_call \<Rightarrow> nat" where
  "call_rank (Creating_session _) = 1"
| "call_rank (Publishing _ _) = 3"
| "call_rank (Destroying _ _ _) = 2"
| "call_rank (Refetching _) = 2"
| "call_rank (Refreshing _ _) = 1"

lemma answer_lowers_rank:
  assumes "answer_call c a (s\<lparr>sd_calls := []\<rparr>) = Some s'"
  shows "sd_calls s' = [] \<or> (\<exists>c'. sd_calls s' = [c'] \<and> call_rank c' < call_rank c)"
  using assms by (cases "(c, a, s\<lparr>sd_calls := []\<rparr>)" rule: answer_call.cases)
    (auto simp: sidebar_ops simp del: closeProblem.simps split: sum.splits option.splits WorkspaceSessionProblem.splits)

definition calls_rank :: "sidebar \<Rightarrow> nat" where
  "calls_rank s = sum_list (map call_rank (sd_calls s))"

text \<open>The answers that fit: each answers the call in flight, when there is one.\<close>

fun answers_fit :: "sidebar \<Rightarrow> call_answer list \<Rightarrow> bool" where
  "answers_fit s [] = True"
| "answers_fit s (a # as) = ((case sd_calls s of [] \<Rightarrow> True | c # cs \<Rightarrow> answer_call c a (s\<lparr>sd_calls := cs\<rparr>) \<noteq> None) \<and>
     answers_fit (sidebar_step s (Call_answered a)) as)"

lemma answered_rank:
  assumes "sidebar_inv s" "answers_fit s [a]"
  shows "calls_rank (sidebar_step s (Call_answered a)) \<le> calls_rank s - 1"
proof (cases "sd_calls s")
  case (Cons c cs)
  then have "cs = []" using assms(1) mutation_ok_length unfolding sidebar_inv_def by fastforce
  with Cons assms(2) obtain s' where s': "answer_call c a (s\<lparr>sd_calls := []\<rparr>) = Some s'" by auto
  from answer_lowers_rank [OF this] show ?thesis
    using Cons \<open>cs = []\<close> s' by (auto simp: sidebar_step_def calls_rank_def)
qed (simp add: sidebar_step_def calls_rank_def)

lemma sidebar_settles:
  assumes "sidebar_inv s" "answers_fit s as" "3 \<le> length as"
  shows "\<not> mutationBusy (run sidebar_step s (map Call_answered as))"
proof -
  have "calls_rank (run sidebar_step t (map Call_answered bs)) = 0" if "sidebar_inv t" "answers_fit t bs" "calls_rank t \<le> length bs" for t bs
    using that
  proof (induction bs arbitrary: t)
    case (Cons b bs)
    then have "calls_rank (sidebar_step t (Call_answered b)) \<le> length bs" using answered_rank [of t b] by auto
    with Cons show ?case by (simp add: sidebar_inv_step)
  qed simp
  moreover have "calls_rank s \<le> 3"
  proof (cases "sd_calls s")
    case (Cons c cs)
    then have "cs = []" using assms(1) mutation_ok_length unfolding sidebar_inv_def by fastforce
    moreover have "call_rank c \<le> 3" by (cases c) simp_all
    ultimately show ?thesis using Cons by (simp add: calls_rank_def)
  qed (simp add: calls_rank_def)
  ultimately have "calls_rank (run sidebar_step s (map Call_answered as)) = 0" using assms by simp
  moreover have "call_rank c \<noteq> 0" for c by (cases c) simp_all
  ultimately have "sd_calls (run sidebar_step s (map Call_answered as)) = []"
    by (cases "sd_calls (run sidebar_step s (map Call_answered as))") (auto simp: calls_rank_def)
  moreover have "sidebar_inv (run sidebar_step s (map Call_answered as))" using assms(1) by (rule sidebar.inv_run)
  ultimately show ?thesis using mutation_ok_busy by (auto simp: sidebar_inv_def mutationBusy_def)
qed

end
