(* ===== verification/Terminal_Tab.thy ===== *)
theory Terminal_Tab
  imports Ledger Session_Sidebar
begin

text \<open>
  The terminal tab: \<^verbatim>\<open>web/src/pages/sandbox/terminal/TerminalTab.tsx\<close>.  It keeps the command ledger
  of the sandbox, reconciles it with the executions that snapshots report, probes commands that
  stopped being reported, and decides which session is selected.  An event changes the state and
  the effects then run to the next stable render: \<open>tab_effects\<close> is their result.  A new identifier
  for an entry (\<^verbatim>\<open>crypto.randomUUID\<close>) and the clock are inputs of the events that use them.
\<close>

record in_flight =
  if_workspaceId :: string
  if_command :: "string option"

record terminal_tab =
  tt_sandboxId :: string
  tt_snapshot :: "SnapshotResult option"
  tt_session :: "string option"
  tt_view :: "string option"
  tt_ledger :: "LedgerEntry list"
  tt_expanded :: "string list"
  tt_failedIds :: "string list"
  tt_optimistic :: "string list"
  tt_sessionsOpen :: bool
  tt_finalizing :: "string list"
  tt_probes :: "((string \<times> string) \<times> string) list"
  tt_hash :: "string option"
  tt_storage :: browser_storage

section \<open>Derived values\<close>

definition workspaceSnapshot :: "terminal_tab \<Rightarrow> SandboxSnapshot option" where
  "workspaceSnapshot s = Option.bind (tt_snapshot s) (\<lambda>r. find (\<lambda>x. ss_sandbox_id x = tt_sandboxId s) (snap_sandboxes r))"

definition tab_workspaces :: "terminal_tab \<Rightarrow> WorkspaceSnapshot list" where
  "tab_workspaces s = (case workspaceSnapshot s of None \<Rightarrow> [] | Some x \<Rightarrow> ss_workspaces x)"

definition find_tab_workspace :: "terminal_tab \<Rightarrow> string option \<Rightarrow> WorkspaceSnapshot option" where
  "find_tab_workspace s i = (case i of None \<Rightarrow> None | Some j \<Rightarrow> find (\<lambda>w. ws_workspace_id w = j) (tab_workspaces s))"

definition selectedSessionMissing :: "terminal_tab \<Rightarrow> bool" where
  "selectedSessionMissing s = (case tt_session s of None \<Rightarrow> False
     | Some i \<Rightarrow> workspaceSnapshot s \<noteq> None \<and> find_tab_workspace s (Some i) = None \<and> i \<notin> set (tt_optimistic s))"

definition selectedSession :: "terminal_tab \<Rightarrow> string option" where
  "selectedSession s = (if selectedSessionMissing s then None else tt_session s)"

definition tab_mode :: "terminal_tab \<Rightarrow> TerminalMode" where
  "tab_mode s = (if selectedSessionMissing s then Mode_quick
     else if truthy_id (selectedSession s) then Mode_session
     else if tt_view s = Some ''all'' then Mode_all else Mode_quick)"

definition selectedFinalizationState :: "terminal_tab \<Rightarrow> WorkspaceFinalizationState option" where
  "selectedFinalizationState s =
     (if truthy_id (selectedSession s) \<and> the (selectedSession s) \<in> set (tt_failedIds s) then Some Finalize_failed
      else map_option ws_finalization_state (find_tab_workspace s (selectedSession s)))"

definition inFlight :: "terminal_tab \<Rightarrow> (string \<times> in_flight) list" where
  "inFlight s = foldl (\<lambda>m w. foldl (\<lambda>m x. map_set (ae_namespace_execution_id x)
       \<lparr>if_workspaceId = ws_workspace_id w, if_command = ae_command x\<rparr> m) m (ws_active_namespace_executions w))
     [] (tab_workspaces s)"

definition visibleLedger :: "terminal_tab \<Rightarrow> LedgerEntry list" where
  "visibleLedger s = (case tab_mode s of
     Mode_session \<Rightarrow> filter (\<lambda>e. en_workspaceSessionId e = selectedSession s) (tt_ledger s)
   | Mode_quick \<Rightarrow> filter en_autoPublish (tt_ledger s)
   | Mode_all \<Rightarrow> tt_ledger s)"

definition historyLabel :: "terminal_tab \<Rightarrow> string" where
  "historyLabel s = (case tab_mode s of
     Mode_session \<Rightarrow> the (selectedSession s)
   | Mode_quick \<Rightarrow> ''quick run '' @ [CHR 0xB7] @ '' shared '' @ [CHR 0xB7] @ '' auto-publish''
   | Mode_all \<Rightarrow> ''all commands'')"

definition commandCountLabel :: "terminal_tab \<Rightarrow> string" where
  "commandCountLabel s = (let n = length (visibleLedger s) in show_nat n @ '' '' @ (if n = 1 then ''command'' else ''commands''))"

definition emptyLedgerText :: "terminal_tab \<Rightarrow> string" where
  "emptyLedgerText s = (case tab_mode s of
     Mode_session \<Rightarrow> ''Nothing has run in '' @ the (selectedSession s) @ '' from this browser.''
   | Mode_quick \<Rightarrow> ''Run the first one-off command below '' @ [CHR 0xE2, CHR 0x80, CHR 0x94] @ '' each command opens its own terminal.''
   | Mode_all \<Rightarrow> ''No commands have been recorded in this browser.'')"

text \<open>The bottom of the tab: a prompt, a notice, or the composer for a session or a quick run.\<close>

datatype tab_footer = Choose_context | Session_unavailable bool | Composer "string option" "WorkspaceSnapshot option"

definition tab_footer_of :: "terminal_tab \<Rightarrow> tab_footer" where
  "tab_footer_of s =
     (if tab_mode s = Mode_all then Choose_context
      else case (tab_mode s = Mode_session, selectedFinalizationState s) of
        (True, Some Finalize_failed) \<Rightarrow> Session_unavailable True
      | (True, Some Finalizing) \<Rightarrow> Session_unavailable False
      | _ \<Rightarrow> Composer (if tab_mode s = Mode_session then selectedSession s else None) (find_tab_workspace s (selectedSession s)))"

section \<open>Reconciling the ledger\<close>

definition reconcile_entry :: "(string \<times> in_flight) list \<Rightarrow> LedgerEntry \<Rightarrow> LedgerEntry" where
  "reconcile_entry flight e =
     (if \<not> truthy_id (en_commandSessionId e) then e
      else case map_of flight (the (en_commandSessionId e)) of
        None \<Rightarrow> e
      | Some x \<Rightarrow> if \<not> truthy_id (if_command x) \<or> if_command x = Some (en_cmd e) then e
                  else e\<lparr>en_cmd := the (if_command x)\<rparr>)"

text \<open>The entries of unknown executions; \<open>uuid\<close> gives the new identifier of each.\<close>

definition ledger_additions :: "(string \<Rightarrow> string) \<Rightarrow> int \<Rightarrow> (string \<times> in_flight) list \<Rightarrow> string option list \<Rightarrow> LedgerEntry list" where
  "ledger_additions uuid now flight known =
     map (\<lambda>(csid, x). entryFromSnapshot (uuid csid) now csid (if_workspaceId x) (if_command x))
       (filter (\<lambda>(csid, x). Some csid \<notin> set known) flight)"

definition reconcile :: "(string \<Rightarrow> string) \<Rightarrow> int \<Rightarrow> (string \<times> in_flight) list \<Rightarrow> LedgerEntry list \<Rightarrow> LedgerEntry list" where
  "reconcile uuid now flight ledger =
     (let reconciled = map (reconcile_entry flight) ledger;
          additions = ledger_additions uuid now flight (map en_commandSessionId reconciled)
      in if additions \<noteq> [] \<or> reconciled \<noteq> ledger then reconciled @ additions else ledger)"

section \<open>Finalization probes\<close>

text \<open>
  The running entries that are no longer reported and not being probed, in order.  A probe is the
  sandbox it asks, the entry it is for and the command session.
\<close>

fun start_probes :: "string \<Rightarrow> (string \<times> in_flight) list \<Rightarrow> LedgerEntry list \<Rightarrow>
    string list \<times> ((string \<times> string) \<times> string) list \<Rightarrow> string list \<times> ((string \<times> string) \<times> string) list" where
  "start_probes sid flight [] acc = acc"
| "start_probes sid flight (e # es) (finalizing, probes) =
     (if en_status e \<noteq> Cmd_running \<or> \<not> truthy_id (en_commandSessionId e) \<or>
         map_of flight (the (en_commandSessionId e)) \<noteq> None \<or> the (en_commandSessionId e) \<in> set finalizing
      then start_probes sid flight es (finalizing, probes)
      else start_probes sid flight es (set_add (the (en_commandSessionId e)) finalizing,
             probes @ [((sid, en_localId e), the (en_commandSessionId e))]))"

text \<open>The fields that a finished command's output sets on an entry.\<close>

definition finish_entry :: "int \<Rightarrow> CommandOutput \<Rightarrow> LedgerEntry \<Rightarrow> LedgerEntry" where
  "finish_entry now out e = e\<lparr>en_status := co_status out, en_exitCode := co_exit_code out, en_endedAt := Some now,
     en_publishRejected := (co_publish_rejected out = Some True), en_publishRejectClass := co_publish_reject_class out\<rparr>"

definition patchEntry :: "string \<Rightarrow> (LedgerEntry \<Rightarrow> LedgerEntry) \<Rightarrow> LedgerEntry list \<Rightarrow> LedgerEntry list" where
  "patchEntry localId patch ledger = map (\<lambda>e. if en_localId e = localId then patch e else e) ledger"

definition probe_answered :: "int \<Rightarrow> (string \<times> string) \<times> string \<Rightarrow> RpcError + CommandOutput \<Rightarrow> terminal_tab \<Rightarrow> terminal_tab" where
  "probe_answered now = (\<lambda>((sid, localId), csid) answer s.
     (let s1 = (case answer of
          Inl _ \<Rightarrow> s
        | Inr out \<Rightarrow> if co_status out \<noteq> Cmd_running
            then s\<lparr>tt_ledger := patchEntry localId (finish_entry now out) (tt_ledger s)\<rparr> else s)
      in s1\<lparr>tt_finalizing := set_delete csid (tt_finalizing s)\<rparr>))"

section \<open>Effects\<close>

definition save_effect :: "terminal_tab \<Rightarrow> terminal_tab" where
  "save_effect s = s\<lparr>tt_storage := saveLedger (tt_sandboxId s) (map entry_json (tt_ledger s)) (tt_storage s)\<rparr>"

definition missing_session_effect :: "terminal_tab \<Rightarrow> terminal_tab" where
  "missing_session_effect s = (if selectedSessionMissing s then s\<lparr>tt_session := None, tt_view := None\<rparr> else s)"

definition optimistic_effect :: "terminal_tab \<Rightarrow> terminal_tab" where
  "optimistic_effect s = s\<lparr>tt_optimistic := filter (\<lambda>i. i \<notin> set (map ws_workspace_id (tab_workspaces s))) (tt_optimistic s)\<rparr>"

definition reconcile_effect :: "(string \<Rightarrow> string) \<Rightarrow> int \<Rightarrow> terminal_tab \<Rightarrow> terminal_tab" where
  "reconcile_effect uuid now s = (if tt_snapshot s = None then s
     else s\<lparr>tt_ledger := reconcile uuid now (inFlight s) (tt_ledger s)\<rparr>)"

definition probe_effect :: "terminal_tab \<Rightarrow> terminal_tab" where
  "probe_effect s = (if tt_snapshot s = None then s
     else (case start_probes (tt_sandboxId s) (inFlight s) (tt_ledger s) (tt_finalizing s, tt_probes s) of
       (finalizing, probes) \<Rightarrow> s\<lparr>tt_finalizing := finalizing, tt_probes := probes\<rparr>))"

text \<open>The card that the location's hash names is expanded.\<close>

definition hash_effect :: "terminal_tab \<Rightarrow> terminal_tab" where
  "hash_effect s = (case tt_hash s of None \<Rightarrow> s
     | Some csid \<Rightarrow> (case find (\<lambda>e. en_commandSessionId e = Some csid) (tt_ledger s) of None \<Rightarrow> s
         | Some e \<Rightarrow> s\<lparr>tt_expanded := set_add (en_localId e) (tt_expanded s)\<rparr>))"

section \<open>Events\<close>

text \<open>
  A change of the sandbox comes with the snapshot that the page has at that moment, which is the old
  sandbox's while the new one's is loading.
\<close>

datatype tab_event =
    Snapshot_changed "string \<Rightarrow> string" int SnapshotResult
  | Sandbox_changed "string \<Rightarrow> string" int string "SnapshotResult option"
  | Launched string int string "string option" CommandOutput
  | Probe_answered int nat "RpcError + CommandOutput"
  | Card_update string int CommandOutput
  | Toggle_card string
  | Hash_target "string option"
  | Tab_select TerminalMode "string option"
  | Finalization_failed string
  | Sessions_open bool
  | Parent_render

definition tab_onSelect :: "TerminalMode \<Rightarrow> string option \<Rightarrow> terminal_tab \<Rightarrow> terminal_tab" where
  "tab_onSelect nextMode sessionId s =
     (if nextMode = Mode_session \<and> truthy_id sessionId
      then s\<lparr>tt_optimistic := (if find_tab_workspace s sessionId \<noteq> None then tt_optimistic s else set_add (the sessionId) (tt_optimistic s)),
             tt_session := sessionId, tt_view := None, tt_sessionsOpen := False\<rparr>
      else s\<lparr>tt_session := None, tt_view := (if nextMode = Mode_all then Some ''all'' else None), tt_sessionsOpen := False\<rparr>)"

definition onLaunched :: "string \<Rightarrow> int \<Rightarrow> string \<Rightarrow> string option \<Rightarrow> CommandOutput \<Rightarrow> terminal_tab \<Rightarrow> terminal_tab" where
  "onLaunched uuid now cmd workspaceSessionId out s =
     (let entry = entryFromExec uuid now cmd workspaceSessionId out
      in s\<lparr>tt_ledger := tt_ledger s @ [entry], tt_expanded := set_add (en_localId entry) (tt_expanded s)\<rparr>)"

text \<open>
  Another sandbox.  The effects of the first render read the ledger of the new sandbox, write the old
  ledger under the new key, and probe the old ledger's commands; the next render has what was read.
\<close>

definition sandbox_changed :: "(string \<Rightarrow> string) \<Rightarrow> int \<Rightarrow> string \<Rightarrow> SnapshotResult option \<Rightarrow> terminal_tab \<Rightarrow> terminal_tab" where
  "sandbox_changed uuid now i r s =
     (let loaded = ledger_entries (loadLedger i (tt_storage s));
          s1 = probe_effect (save_effect (s\<lparr>tt_sandboxId := i, tt_snapshot := r\<rparr>))
      in reconcile_effect uuid now (s1\<lparr>tt_ledger := loaded, tt_expanded := [], tt_optimistic := []\<rparr>))"

fun tab_handle :: "terminal_tab \<Rightarrow> tab_event \<Rightarrow> terminal_tab" where
  "tab_handle s (Snapshot_changed uuid now r) = reconcile_effect uuid now (s\<lparr>tt_snapshot := Some r\<rparr>)"
| "tab_handle s (Sandbox_changed uuid now i r) = sandbox_changed uuid now i r s"
| "tab_handle s (Launched uuid now cmd w out) = onLaunched uuid now cmd w out s"
| "tab_handle s (Probe_answered now n answer) = (if n < length (tt_probes s)
     then probe_answered now (tt_probes s ! n) answer (s\<lparr>tt_probes := take n (tt_probes s) @ drop (Suc n) (tt_probes s)\<rparr>)
     else s)"
| "tab_handle s (Card_update localId now out) = s\<lparr>tt_ledger := patchEntry localId (finish_entry now out) (tt_ledger s)\<rparr>"
| "tab_handle s (Toggle_card localId) = s\<lparr>tt_expanded := (if localId \<in> set (tt_expanded s)
     then set_delete localId (tt_expanded s) else set_add localId (tt_expanded s))\<rparr>"
| "tab_handle s (Hash_target h) = s\<lparr>tt_hash := h\<rparr>"
| "tab_handle s (Tab_select mode i) = tab_onSelect mode i s"
| "tab_handle s (Finalization_failed i) = s\<lparr>tt_failedIds := set_add i (tt_failedIds s)\<rparr>"
| "tab_handle s (Sessions_open b) = s\<lparr>tt_sessionsOpen := b\<rparr>"
| "tab_handle s Parent_render = s"

text \<open>
  Whether an event gives a new ledger array: mapping over the ledger makes one even where no entry
  changes, a failed or unfinished probe and a snapshot that reconciles to the same ledger do not.
\<close>

fun ledger_renewed :: "terminal_tab \<Rightarrow> tab_event \<Rightarrow> bool" where
  "ledger_renewed s (Snapshot_changed uuid now r) = (tt_ledger (tab_handle s (Snapshot_changed uuid now r)) \<noteq> tt_ledger s)"
| "ledger_renewed s (Sandbox_changed _ _ _ _) = True"
| "ledger_renewed s (Launched _ _ _ _ _) = True"
| "ledger_renewed s (Probe_answered _ n (Inr out)) = (n < length (tt_probes s) \<and> co_status out \<noteq> Cmd_running)"
| "ledger_renewed s (Card_update _ _ _) = True"
| "ledger_renewed s _ = False"

text \<open>Whether an event renders the tab at all; a set or flag set to what it was does not.\<close>

fun renders :: "terminal_tab \<Rightarrow> tab_event \<Rightarrow> bool" where
  "renders s (Probe_answered now n answer) = ledger_renewed s (Probe_answered now n answer)"
| "renders s (Finalization_failed i) = (i \<notin> set (tt_failedIds s))"
| "renders s (Sessions_open b) = (b \<noteq> tt_sessionsOpen s)"
| "renders s _ = True"

text \<open>
  The probes depend on the snapshot, the ledger and the executions in flight.  While the snapshot does
  not list the sandbox, the latter are computed anew in every render.
\<close>

definition probes_due :: "terminal_tab \<Rightarrow> tab_event \<Rightarrow> bool" where
  "probes_due s e = (ledger_renewed s e \<or> (case e of Snapshot_changed _ _ _ \<Rightarrow> True | _ \<Rightarrow> False) \<or>
     (renders s e \<and> workspaceSnapshot (tab_handle s e) = None))"

definition hash_due :: "terminal_tab \<Rightarrow> tab_event \<Rightarrow> bool" where
  "hash_due s e = (ledger_renewed s e \<or> (case e of Hash_target _ \<Rightarrow> True | _ \<Rightarrow> False))"

definition tab_effects :: "bool \<Rightarrow> terminal_tab \<Rightarrow> terminal_tab" where
  "tab_effects due s = (let s1 = optimistic_effect (missing_session_effect (save_effect s))
     in if due then probe_effect s1 else s1)"

definition tab_step :: "terminal_tab \<Rightarrow> tab_event \<Rightarrow> terminal_tab" where
  "tab_step s e = tab_effects (probes_due s e) (if hash_due s e then hash_effect (tab_handle s e) else tab_handle s e)"

definition tab_init :: "string \<Rightarrow> browser_storage \<Rightarrow> string option \<Rightarrow> string option \<Rightarrow> terminal_tab" where
  "tab_init i storage session view = \<lparr>tt_sandboxId = i, tt_snapshot = None, tt_session = session, tt_view = view,
     tt_ledger = ledger_entries (loadLedger i storage), tt_expanded = [], tt_failedIds = [], tt_optimistic = [],
     tt_sessionsOpen = False, tt_finalizing = [], tt_probes = [], tt_hash = None, tt_storage = storage\<rparr>"

section \<open>Laws\<close>

lemmas tab_effect_defs = tab_effects_def probe_effect_def optimistic_effect_def missing_session_effect_def save_effect_def Let_def

lemma effects_keep_ledger [simp]:
  "tt_ledger (tab_effects due s) = tt_ledger s" "tt_snapshot (tab_effects due s) = tt_snapshot s"
  "tt_sandboxId (tab_effects due s) = tt_sandboxId s"
  "tt_storage (tab_effects due s) = saveLedger (tt_sandboxId s) (map entry_json (tt_ledger s)) (tt_storage s)"
  by (auto simp: tab_effect_defs split: prod.splits)

lemma hash_effect_keeps [simp]:
  "tt_ledger (hash_effect s) = tt_ledger s" "tt_snapshot (hash_effect s) = tt_snapshot s" "tt_sandboxId (hash_effect s) = tt_sandboxId s"
  "tt_storage (hash_effect s) = tt_storage s" "tt_probes (hash_effect s) = tt_probes s" "tt_finalizing (hash_effect s) = tt_finalizing s"
  by (auto simp: hash_effect_def split: option.splits)

lemma probe_effect_keeps [simp]:
  "tt_ledger (probe_effect s) = tt_ledger s" "tt_snapshot (probe_effect s) = tt_snapshot s" "tt_sandboxId (probe_effect s) = tt_sandboxId s"
  "tt_storage (probe_effect s) = tt_storage s"
  by (auto simp: probe_effect_def split: prod.splits)

lemma inFlight_cong: "tt_snapshot s = tt_snapshot t \<Longrightarrow> tt_sandboxId s = tt_sandboxId t \<Longrightarrow> inFlight s = inFlight t"
  by (simp add: inFlight_def tab_workspaces_def workspaceSnapshot_def)

lemma distinct_inFlight: "distinct (map fst (inFlight s))"
proof -
  have inner: "distinct (map fst m) \<Longrightarrow> distinct (map fst (foldl (\<lambda>m x. map_set (f x) (g x) m) m xs))"
    for m :: "(string \<times> in_flight) list" and f g and xs :: "ActiveExecution list"
    by (induction xs arbitrary: m) (auto simp: distinct_map_set)
  have "distinct (map fst m) \<Longrightarrow> distinct (map fst (foldl (\<lambda>m w. foldl (\<lambda>m x. map_set (f x) (g w x) m) m (h w)) m ws))"
    for m :: "(string \<times> in_flight) list" and f g and h :: "WorkspaceSnapshot \<Rightarrow> ActiveExecution list" and ws
    by (induction ws arbitrary: m) (auto intro: inner)
  then show ?thesis by (simp add: inFlight_def)
qed

subsection \<open>Reconciliation\<close>

lemma reconcile_entry_keeps [simp]:
  "en_commandSessionId (reconcile_entry flight e) = en_commandSessionId e"
  "en_status (reconcile_entry flight e) = en_status e" "en_localId (reconcile_entry flight e) = en_localId e"
  "(reconcile_entry flight e)\<lparr>en_cmd := c\<rparr> = e\<lparr>en_cmd := c\<rparr>"
  by (auto simp: reconcile_entry_def split: option.splits)

lemma reconcile_entry_idem [simp]: "reconcile_entry flight (reconcile_entry flight e) = reconcile_entry flight e"
  by (auto simp: reconcile_entry_def truthy_id_def split: option.splits)

lemma reconcile_alt:
  "reconcile uuid now flight ledger = map (reconcile_entry flight) ledger @
     ledger_additions uuid now flight (map en_commandSessionId ledger)"
proof -
  have ids: "map en_commandSessionId (map (reconcile_entry flight) ledger) = map en_commandSessionId ledger" by simp
  show ?thesis unfolding reconcile_def Let_def ids by auto
qed

lemma additions_ids:
  "map en_commandSessionId (ledger_additions uuid now flight known) = map (Some \<circ> fst) (filter (\<lambda>(csid, x). Some csid \<notin> set known) flight)"
  by (auto simp: ledger_additions_def entryFromSnapshot_def)

lemma reconcile_known: "fst ` set flight \<subseteq> {i. Some i \<in> set (map en_commandSessionId (reconcile uuid now flight ledger))}"
proof
  fix i assume "i \<in> fst ` set flight"
  then show "i \<in> {i. Some i \<in> set (map en_commandSessionId (reconcile uuid now flight ledger))}"
    unfolding reconcile_alt map_append additions_ids by (auto simp: image_iff comp_def)
qed

lemma fst_image: "(a, b) \<in> set xs \<Longrightarrow> a \<in> fst ` set xs"
  by force

lemma additions_none: "fst ` set flight \<subseteq> {i. Some i \<in> set known} \<Longrightarrow> ledger_additions uuid now flight known = []"
  by (fastforce simp: ledger_additions_def filter_empty_conv)

lemma addition_reconciled:
  assumes "distinct (map fst flight)" "e \<in> set (ledger_additions uuid now flight known)"
  shows "reconcile_entry flight e = e"
proof -
  obtain csid x where x: "(csid, x) \<in> set flight" "e = entryFromSnapshot (uuid csid) now csid (if_workspaceId x) (if_command x)"
    using assms(2) by (auto simp: ledger_additions_def)
  with assms(1) have "map_of flight csid = Some x" by (simp add: map_of_eq_Some_iff)
  with x(2) show ?thesis
    by (auto simp: reconcile_entry_def entryFromSnapshot_def truthy_id_def split: option.splits)
qed

lemma reconcile_idem:
  assumes "distinct (map fst flight)"
  shows "reconcile uuid' now' flight (reconcile uuid now flight ledger) = reconcile uuid now flight ledger"
proof -
  let ?l = "reconcile uuid now flight ledger"
  have "map (reconcile_entry flight) ?l = ?l"
    unfolding reconcile_alt using addition_reconciled [OF assms] by (auto intro: map_idI)
  moreover have "ledger_additions uuid' now' flight (map en_commandSessionId ?l) = []"
    by (rule additions_none) (rule reconcile_known)
  ultimately show ?thesis by (simp add: reconcile_alt [of uuid' now'])
qed

subsection \<open>Probes\<close>

definition probe_inv :: "terminal_tab \<Rightarrow> bool" where
  "probe_inv s = (distinct (map snd (tt_probes s)) \<and> set (map snd (tt_probes s)) = set (tt_finalizing s) \<and> distinct (tt_finalizing s))"

lemma start_probes_inv:
  "distinct (map snd probes) \<Longrightarrow> set (map snd probes) = set fin \<Longrightarrow> distinct fin \<Longrightarrow>
   start_probes sid flight es (fin, probes) = (fin', probes') \<Longrightarrow>
   distinct (map snd probes') \<and> set (map snd probes') = set fin' \<and> distinct fin'"
proof (induction sid flight es "(fin, probes)" arbitrary: fin probes rule: start_probes.induct)
  case (2 sid flight e es fin probes)
  then show ?case by (cases "en_status e \<noteq> Cmd_running \<or> \<not> truthy_id (en_commandSessionId e) \<or>
      map_of flight (the (en_commandSessionId e)) \<noteq> None \<or> the (en_commandSessionId e) \<in> set fin") auto
qed auto

lemma start_probes_mono: "start_probes sid flight es (fin, probes) = (fin', probes') \<Longrightarrow> set fin \<subseteq> set fin'"
proof (induction sid flight es "(fin, probes)" arbitrary: fin probes rule: start_probes.induct)
  case (2 sid flight e es fin probes)
  then show ?case by (cases "en_status e \<noteq> Cmd_running \<or> \<not> truthy_id (en_commandSessionId e) \<or>
      map_of flight (the (en_commandSessionId e)) \<noteq> None \<or> the (en_commandSessionId e) \<in> set fin") auto
qed auto

definition stopped :: "(string \<times> in_flight) list \<Rightarrow> LedgerEntry \<Rightarrow> bool" where
  "stopped flight e = (en_status e = Cmd_running \<and> truthy_id (en_commandSessionId e) \<and>
     map_of flight (the (en_commandSessionId e)) = None)"

lemma start_probes_all:
  "start_probes sid flight es (fin, probes) = (fin', probes') \<Longrightarrow> e \<in> set es \<Longrightarrow> stopped flight e \<Longrightarrow>
   the (en_commandSessionId e) \<in> set fin'"
proof (induction sid flight es "(fin, probes)" arbitrary: fin probes rule: start_probes.induct)
  case (2 sid flight x es fin probes)
  show ?case
  proof (cases "e = x")
    case True
    with 2 show ?thesis by (auto simp: stopped_def dest!: start_probes_mono split: if_splits)
  next
    case False
    with 2 show ?thesis by (auto split: if_splits)
  qed
qed auto

lemma probe_effect_inv: "probe_inv s \<Longrightarrow> probe_inv (probe_effect s)"
proof -
  assume inv: "probe_inv s"
  obtain fin' probes' where sp: "start_probes (tt_sandboxId s) (inFlight s) (tt_ledger s) (tt_finalizing s, tt_probes s) = (fin', probes')"
    by (cases "start_probes (tt_sandboxId s) (inFlight s) (tt_ledger s) (tt_finalizing s, tt_probes s)")
  from inv have "distinct (map snd probes') \<and> set (map snd probes') = set fin' \<and> distinct fin'"
    unfolding probe_inv_def by (intro start_probes_inv [OF _ _ _ sp]) auto
  with inv sp show ?thesis by (simp add: probe_effect_def probe_inv_def)
qed

lemma effects_probe_inv: "probe_inv s \<Longrightarrow> probe_inv (tab_effects due s)"
proof -
  assume "probe_inv s"
  then have "probe_inv (optimistic_effect (missing_session_effect (save_effect s)))"
    by (simp add: probe_inv_def optimistic_effect_def missing_session_effect_def save_effect_def)
  then show ?thesis by (simp add: tab_effects_def Let_def probe_effect_inv)
qed

lemma distinct_remove_nth:
  assumes "distinct (map f xs)" "n < length xs"
  shows "distinct (map f (take n xs @ drop (Suc n) xs))"
    and "f ` set (take n xs @ drop (Suc n) xs) = f ` set xs - {f (xs ! n)}"
proof -
  have xs: "xs = take n xs @ xs ! n # drop (Suc n) xs" using assms(2) by (rule id_take_nth_drop)
  have "distinct (map f (take n xs @ xs ! n # drop (Suc n) xs))" using assms(1) xs by simp
  then show "distinct (map f (take n xs @ drop (Suc n) xs))" by (simp add: take_map drop_map)
  have "f ` set xs = f ` set (take n xs @ xs ! n # drop (Suc n) xs)" using xs by simp
  moreover have "f (xs ! n) \<notin> f ` set (take n xs @ drop (Suc n) xs)"
    using \<open>distinct (map f (take n xs @ xs ! n # drop (Suc n) xs))\<close> by auto
  ultimately show "f ` set (take n xs @ drop (Suc n) xs) = f ` set xs - {f (xs ! n)}" by auto
qed

lemma probe_answered_inv:
  assumes "probe_inv s" "n < length (tt_probes s)"
  shows "probe_inv (probe_answered now (tt_probes s ! n) answer (s\<lparr>tt_probes := take n (tt_probes s) @ drop (Suc n) (tt_probes s)\<rparr>))"
proof -
  obtain i l c where lc: "tt_probes s ! n = ((i, l), c)" by (metis prod.collapse)
  have d: "distinct (map snd (tt_probes s))" using assms(1) by (simp add: probe_inv_def)
  let ?s = "s\<lparr>tt_probes := take n (tt_probes s) @ drop (Suc n) (tt_probes s)\<rparr>"
  have "tt_probes (probe_answered now ((i, l), c) answer ?s) = take n (tt_probes s) @ drop (Suc n) (tt_probes s)"
    "tt_finalizing (probe_answered now ((i, l), c) answer ?s) = set_delete c (tt_finalizing s)"
    by (auto simp: probe_answered_def Let_def split: sum.splits)
  then show ?thesis
    using distinct_remove_nth [OF d assms(2)] assms(1) lc by (simp add: probe_inv_def image_Un)
qed

lemma handle_probe_inv: "probe_inv s \<Longrightarrow> probe_inv (tab_handle s e)"
proof (cases e)
  case (Probe_answered now n answer)
  assume "probe_inv s"
  with Probe_answered show ?thesis by (simp add: probe_answered_inv)
next
  case (Sandbox_changed uuid now i r)
  assume "probe_inv s"
  then have "probe_inv (probe_effect (save_effect (s\<lparr>tt_sandboxId := i, tt_snapshot := r\<rparr>)))"
    by (intro probe_effect_inv) (simp add: probe_inv_def save_effect_def)
  with Sandbox_changed show ?thesis by (simp add: probe_inv_def reconcile_effect_def sandbox_changed_def Let_def)
qed (simp_all add: probe_inv_def reconcile_effect_def onLaunched_def tab_onSelect_def Let_def)

lemma hash_probe_inv: "probe_inv s \<Longrightarrow> probe_inv (hash_effect s)"
  by (simp add: probe_inv_def)

interpretation probes: event_machine tab_step probe_inv
  by unfold_locales (simp add: tab_step_def effects_probe_inv handle_probe_inv hash_probe_inv)

lemma tab_step_ledger: "tt_ledger (tab_step s e) = tt_ledger (tab_handle s e)"
  by (simp add: tab_step_def)

lemma snapshot_step:
  "tt_snapshot (tab_step s (Snapshot_changed uuid now r)) = Some r"
  "tt_sandboxId (tab_step s (Snapshot_changed uuid now r)) = tt_sandboxId s"
  "tt_ledger (tab_step s (Snapshot_changed uuid now r)) =
     reconcile uuid now (inFlight (s\<lparr>tt_snapshot := Some r\<rparr>)) (tt_ledger s)"
  by (simp_all add: tab_step_def reconcile_effect_def)

lemma sandbox_step:
  "tt_snapshot (tab_step s (Sandbox_changed uuid now j r)) = r"
  "tt_sandboxId (tab_step s (Sandbox_changed uuid now j r)) = j"
  "tt_ledger (tab_step s (Sandbox_changed uuid now j r)) = (let es = ledger_entries (loadLedger j (tt_storage s))
     in if r = None then es else reconcile uuid now (inFlight (s\<lparr>tt_sandboxId := j, tt_snapshot := r\<rparr>)) es)"
  "tt_storage (tab_step s (Sandbox_changed uuid now j r)) =
     saveLedger j (map entry_json (tt_ledger (tab_step s (Sandbox_changed uuid now j r))))
       (saveLedger j (map entry_json (tt_ledger s)) (tt_storage s))"
proof -
  let ?t = "probe_effect (save_effect (s\<lparr>tt_sandboxId := j, tt_snapshot := r\<rparr>))"
  have fl: "inFlight (?t\<lparr>tt_ledger := es, tt_expanded := [], tt_optimistic := []\<rparr>) = inFlight (s\<lparr>tt_sandboxId := j, tt_snapshot := r\<rparr>)" for es
    by (rule inFlight_cong) (simp_all add: save_effect_def)
  show "tt_snapshot (tab_step s (Sandbox_changed uuid now j r)) = r" "tt_sandboxId (tab_step s (Sandbox_changed uuid now j r)) = j"
    by (simp_all add: tab_step_def sandbox_changed_def reconcile_effect_def save_effect_def Let_def)
  show "tt_ledger (tab_step s (Sandbox_changed uuid now j r)) = (let es = ledger_entries (loadLedger j (tt_storage s))
     in if r = None then es else reconcile uuid now (inFlight (s\<lparr>tt_sandboxId := j, tt_snapshot := r\<rparr>)) es)"
    by (auto simp: tab_step_def sandbox_changed_def reconcile_effect_def Let_def fl) (simp_all add: save_effect_def)
  show "tt_storage (tab_step s (Sandbox_changed uuid now j r)) =
     saveLedger j (map entry_json (tt_ledger (tab_step s (Sandbox_changed uuid now j r))))
       (saveLedger j (map entry_json (tt_ledger s)) (tt_storage s))"
    by (simp add: tab_step_def sandbox_changed_def reconcile_effect_def save_effect_def Let_def)
qed

lemma snapshot_step_inFlight: "inFlight (tab_step s (Snapshot_changed uuid now r)) = inFlight (s\<lparr>tt_snapshot := Some r\<rparr>)"
  by (rule inFlight_cong) (simp_all add: snapshot_step)

text \<open>After a new snapshot every stopped command is being probed.\<close>

lemma snapshot_step_probes:
  assumes "probe_inv s" "e \<in> set (tt_ledger (tab_step s (Snapshot_changed uuid now r)))"
    and "stopped (inFlight (tab_step s (Snapshot_changed uuid now r))) e"
  shows "the (en_commandSessionId e) \<in> snd ` set (tt_probes (tab_step s (Snapshot_changed uuid now r)))"
proof -
  let ?s = "tab_step s (Snapshot_changed uuid now r)"
  define h where "h = (if hash_due s (Snapshot_changed uuid now r) then hash_effect (tab_handle s (Snapshot_changed uuid now r))
    else tab_handle s (Snapshot_changed uuid now r))"
  define t where "t = optimistic_effect (missing_session_effect (save_effect h))"
  have keep: "tt_ledger t = tt_ledger ?s" "tt_snapshot t = Some r" "tt_sandboxId t = tt_sandboxId s"
    by (simp_all add: t_def h_def optimistic_effect_def missing_session_effect_def save_effect_def tab_step_ledger reconcile_effect_def)
  have step: "?s = probe_effect t" by (simp add: tab_step_def tab_effects_def t_def h_def probes_due_def Let_def)
  have fl: "inFlight t = inFlight ?s" by (rule inFlight_cong) (simp_all add: keep snapshot_step)
  obtain fin' probes' where sp: "start_probes (tt_sandboxId t) (inFlight t) (tt_ledger t) (tt_finalizing t, tt_probes t) = (fin', probes')"
    by (cases "start_probes (tt_sandboxId t) (inFlight t) (tt_ledger t) (tt_finalizing t, tt_probes t)")
  have "the (en_commandSessionId e) \<in> set fin'"
    using start_probes_all [OF sp, of e] assms(2,3) keep(1) fl by simp
  moreover have "tt_finalizing ?s = fin'" "tt_probes ?s = probes'"
    unfolding step using sp keep(2) by (simp_all add: probe_effect_def)
  moreover have "probe_inv ?s" using assms(1) by (rule probes.inv_step)
  ultimately show ?thesis by (simp add: probe_inv_def)
qed

lemma probe_finished:
  assumes "n < length (tt_probes s)" "co_status out \<noteq> Cmd_running"
  shows "tt_ledger (tab_handle s (Probe_answered now n (Inr out))) =
    patchEntry (snd (fst (tt_probes s ! n))) (finish_entry now out) (tt_ledger s)"
  using assms by (simp add: probe_answered_def Let_def split: prod.splits)

lemma patched_finished:
  assumes "e \<in> set (patchEntry l (finish_entry now out) es)" "en_localId e = l"
  shows "en_status e = co_status out \<and> en_exitCode e = co_exit_code out"
proof -
  obtain x where x: "e = (if en_localId x = l then finish_entry now out x else x)"
    using assms(1) unfolding patchEntry_def set_map by blast
  have "en_localId x = l" using assms(2) x by (simp add: finish_entry_def split: if_splits)
  with x show ?thesis by (simp add: finish_entry_def)
qed

section \<open>Properties\<close>

text \<open>
  C16: A snapshot reconciles the ledger without losing anything: the entries there were stay, in
  order, and differ at most in the command text, which becomes the one the daemon reports; every
  execution that the snapshot reports is in the ledger, what is appended are running entries of
  executions that were not, and the same snapshot a second time changes nothing.
\<close>

theorem terminal_reconcile:
  assumes "s' = tab_step s (Snapshot_changed uuid now r)"
  shows "map (\<lambda>e. e\<lparr>en_cmd := []\<rparr>) (take (length (tt_ledger s)) (tt_ledger s')) = map (\<lambda>e. e\<lparr>en_cmd := []\<rparr>) (tt_ledger s) \<and>
    (\<forall>csid. map_of (inFlight s') csid \<noteq> None \<longrightarrow> Some csid \<in> set (map en_commandSessionId (tt_ledger s'))) \<and>
    (\<forall>e \<in> set (drop (length (tt_ledger s)) (tt_ledger s')). en_status e = Cmd_running \<and>
       en_commandSessionId e \<notin> set (map en_commandSessionId (tt_ledger s)) \<and>
       (\<exists>csid. en_commandSessionId e = Some csid \<and> map_of (inFlight s') csid \<noteq> None)) \<and>
    tt_ledger (tab_step s' (Snapshot_changed uuid' now' r)) = tt_ledger s'"
proof -
  let ?f = "inFlight (s\<lparr>tt_snapshot := Some r\<rparr>)"
  have l: "tt_ledger s' = reconcile uuid now ?f (tt_ledger s)" and f: "inFlight s' = ?f"
    by (simp_all add: assms snapshot_step snapshot_step_inFlight)
  have "tt_ledger (tab_step s' (Snapshot_changed uuid' now' r)) = reconcile uuid' now' (inFlight (s'\<lparr>tt_snapshot := Some r\<rparr>)) (tt_ledger s')"
    by (simp add: snapshot_step)
  also have "inFlight (s'\<lparr>tt_snapshot := Some r\<rparr>) = ?f"
    by (rule inFlight_cong) (simp_all add: assms snapshot_step)
  finally have "tt_ledger (tab_step s' (Snapshot_changed uuid' now' r)) = tt_ledger s'"
    unfolding l using reconcile_idem [OF distinct_inFlight] by simp
  moreover have "\<forall>csid. map_of ?f csid \<noteq> None \<longrightarrow> Some csid \<in> set (map en_commandSessionId (tt_ledger s'))"
    using reconcile_known [of ?f uuid now "tt_ledger s"] unfolding l by (auto simp: map_of_eq_None_iff)
  moreover have "en_status e = Cmd_running \<and> en_commandSessionId e \<notin> set (map en_commandSessionId (tt_ledger s)) \<and>
      (\<exists>csid. en_commandSessionId e = Some csid \<and> map_of ?f csid \<noteq> None)"
    if "e \<in> set (drop (length (tt_ledger s)) (tt_ledger s'))" for e
  proof -
    have "e \<in> set (ledger_additions uuid now ?f (map en_commandSessionId (tt_ledger s)))"
      using that unfolding l reconcile_alt by simp
    then show ?thesis
      by (auto simp: ledger_additions_def entryFromSnapshot_def map_of_eq_None_iff intro: fst_image)
  qed
  moreover have "map (\<lambda>e. e\<lparr>en_cmd := []\<rparr>) (take (length (tt_ledger s)) (tt_ledger s')) = map (\<lambda>e. e\<lparr>en_cmd := []\<rparr>) (tt_ledger s)"
    unfolding l reconcile_alt by simp
  ultimately show ?thesis unfolding f by blast
qed

text \<open>
  C17: Commands that ended are found out, each with one request at a time.  In every reachable state no
  two probes in flight ask for the same command; right after a snapshot every entry that is running in
  the ledger but not in the snapshot is being probed; and a probe that is answered with a finished
  command ends the entry with its status and exit code.
\<close>

theorem terminal_probes:
  assumes "s = run tab_step (tab_init i storage session view) es"
  shows "distinct (map snd (tt_probes s)) \<and>
    (\<forall>e \<in> set (tt_ledger (tab_step s (Snapshot_changed uuid now r))).
       stopped (inFlight (tab_step s (Snapshot_changed uuid now r))) e \<longrightarrow>
       the (en_commandSessionId e) \<in> snd ` set (tt_probes (tab_step s (Snapshot_changed uuid now r)))) \<and>
    (n < length (tt_probes s) \<and> co_status out \<noteq> Cmd_running \<longrightarrow>
       (\<forall>e \<in> set (tt_ledger (tab_step s (Probe_answered now n (Inr out)))). en_localId e = snd (fst (tt_probes s ! n)) \<longrightarrow>
          en_status e = co_status out \<and> en_exitCode e = co_exit_code out))"
proof -
  have "probe_inv (tab_init i storage session view)" by (simp add: probe_inv_def tab_init_def)
  then have inv: "probe_inv s" unfolding assms by (rule probes.inv_run)
  then have "distinct (map snd (tt_probes s))" by (simp add: probe_inv_def)
  moreover have "en_status e = co_status out \<and> en_exitCode e = co_exit_code out"
    if "n < length (tt_probes s)" "co_status out \<noteq> Cmd_running" "en_localId e = snd (fst (tt_probes s ! n))"
      "e \<in> set (tt_ledger (tab_step s (Probe_answered now n (Inr out))))" for e
    using patched_finished [of e "snd (fst (tt_probes s ! n))" now out "tt_ledger s"] that
    unfolding tab_step_ledger probe_finished [OF that(1,2)] by blast
  moreover have "the (en_commandSessionId e) \<in> snd ` set (tt_probes (tab_step s (Snapshot_changed uuid now r)))"
    if "e \<in> set (tt_ledger (tab_step s (Snapshot_changed uuid now r)))"
      "stopped (inFlight (tab_step s (Snapshot_changed uuid now r))) e" for e
    using inv that by (rule snapshot_step_probes)
  ultimately show ?thesis by auto
qed

text \<open>
  C18: Changing to another sandbox keeps both ledgers, although the effects write the old ledger under
  the new sandbox's key on the way and may still have the old sandbox's snapshot: with working storage
  the tab then shows the stored ledger of the new sandbox, reconciled with the snapshot if there is
  one, this ledger is stored for the new sandbox, and the stored ledger of the old one is untouched.
\<close>

theorem terminal_switch_keeps_ledgers:
  assumes "bs_readable (tt_storage s)" "bs_writable (tt_storage s)" "j \<noteq> tt_sandboxId s"
    and "loadLedger j (tt_storage s) = map entry_json es" "s' = tab_step s (Sandbox_changed uuid now j r)"
  shows "tt_ledger s' = (if r = None then es else reconcile uuid now (inFlight s') es) \<and>
    loadLedger j (tt_storage s') = map entry_json (slice_last LEDGER_CAP (tt_ledger s')) \<and>
    loadLedger (tt_sandboxId s) (tt_storage s') = loadLedger (tt_sandboxId s) (tt_storage s)"
proof -
  have fl: "inFlight s' = inFlight (s\<lparr>tt_sandboxId := j, tt_snapshot := r\<rparr>)"
    unfolding assms(5) by (rule inFlight_cong) (simp_all add: sandbox_step)
  have ledger: "tt_ledger s' = (if r = None then es else reconcile uuid now (inFlight s') es)"
    using assms(4) unfolding fl unfolding assms(5) by (simp add: sandbox_step)
  let ?b = "saveLedger j (map entry_json (tt_ledger s)) (tt_storage s)"
  have st: "tt_storage s' = saveLedger j (map entry_json (tt_ledger s')) ?b"
    unfolding assms(5) by (simp only: sandbox_step)
  have rw: "bs_readable ?b" "bs_writable ?b" using assms(1,2) by (simp_all add: saveLedger_def)
  have "loadLedger j (tt_storage s') = map entry_json (slice_last LEDGER_CAP (tt_ledger s'))"
    unfolding st using saved_ledger_loads [OF rw] by simp
  moreover have "loadLedger (tt_sandboxId s) (tt_storage s') = loadLedger (tt_sandboxId s) (tt_storage s)"
    unfolding st using assms(3) by (simp add: saved_ledger_other)
  ultimately show ?thesis using ledger by blast
qed

text \<open>
  A command can appear twice in the ledger.  If a snapshot reports a command before the answer of
  its own launch arrives, the snapshot adds an entry for it and the launch appends a second one;
  nothing merges them, so two cards follow the same command.
\<close>

lemma terminal_launch_race_duplicates:
  assumes "map_of (inFlight (s\<lparr>tt_snapshot := Some r\<rparr>)) csid \<noteq> None" "co_command_session_id out = Some csid"
  shows "2 \<le> length (filter (\<lambda>e. en_commandSessionId e = Some csid)
    (tt_ledger (run tab_step s [Snapshot_changed uuid now r, Launched uuid' now' cmd w out])))"
proof -
  let ?s = "tab_step s (Snapshot_changed uuid now r)"
  have "csid \<in> fst ` set (inFlight (s\<lparr>tt_snapshot := Some r\<rparr>))" using assms(1) by (simp add: map_of_eq_None_iff)
  with reconcile_known have "Some csid \<in> set (map en_commandSessionId (tt_ledger ?s))"
    unfolding snapshot_step by blast
  then have "filter (\<lambda>e. en_commandSessionId e = Some csid) (tt_ledger ?s) \<noteq> []"
    by (auto simp: filter_empty_conv)
  then have "1 \<le> length (filter (\<lambda>e. en_commandSessionId e = Some csid) (tt_ledger ?s))"
    by (simp add: Suc_le_eq)
  then show ?thesis using assms(2) by (simp add: tab_step_ledger onLaunched_def entryFromExec_def Let_def)
qed

section \<open>Witnesses\<close>

definition sample_output :: "CommandStatus \<Rightarrow> string option \<Rightarrow> CommandOutput" where
  "sample_output st csid = \<lparr>co_status = st, co_exit_code = None, co_wall_time_seconds = 0, co_command_total_time_seconds = 0,
     co_start_offset = 0, co_end_offset = 0, co_total_lines = 0, co_original_token_count = 0, co_output = [],
     co_command_session_id = csid, co_workspace_session_id = None, co_publish_rejected = None, co_publish_reject_class = None\<rparr>"

definition sample_result :: SnapshotResult where
  "sample_result = \<lparr>snap_sandboxes = [\<lparr>ss_sandbox_id = ''sb'', ss_lifecycle_state = ''ready'', ss_availability = ''available'',
     ss_sampled_at_unix_ms = 0, ss_errors = [], ss_daemon = None, ss_resources = \<lparr>ser_latest = None, ser_history = []\<rparr>,
     ss_workspaces = [(sample_workspace ''w'' Fin_active)\<lparr>ws_active_namespace_executions :=
       [\<lparr>ae_namespace_execution_id = ''c'', ae_operation = ''exec'', ae_lifecycle_state = ''running'', ae_command = Some ''ls''\<rparr>]\<rparr>],
     ss_stack = \<lparr>st_layer_count = 0, st_layers_bytes = 0, st_active_leases = 0\<rparr>\<rparr>]\<rparr>"

definition empty_storage :: browser_storage where
  "empty_storage = \<lparr>bs_readable = True, bs_writable = True, bs_items = []\<rparr>"

definition sample_tab :: terminal_tab where
  "sample_tab = tab_init ''sb'' empty_storage None None"

lemma sample_flight: "inFlight (sample_tab\<lparr>tt_snapshot := Some sample_result\<rparr>) = [(''c'', \<lparr>if_workspaceId = ''w'', if_command = Some ''ls''\<rparr>)]"
  by (simp add: inFlight_def tab_workspaces_def workspaceSnapshot_def sample_tab_def tab_init_def sample_result_def sample_workspace_def)

theorem terminal_reconcile_witness:
  "Some ''c'' \<in> set (map en_commandSessionId (tt_ledger (tab_step sample_tab (Snapshot_changed (\<lambda>c. c) 0 sample_result))))"
  using terminal_reconcile [OF refl, of sample_tab "\<lambda>c. c" 0 sample_result]
  by (simp add: snapshot_step_inFlight sample_flight)

theorem terminal_probes_witness:
  "distinct (map snd (tt_probes (run tab_step (tab_init ''sb'' empty_storage None None) [Snapshot_changed (\<lambda>c. c) 0 sample_result])))"
  using terminal_probes [OF refl, of "''sb''" empty_storage None None "[Snapshot_changed (\<lambda>c. c) 0 sample_result]"] by blast

theorem terminal_switch_keeps_ledgers_witness:
  "tt_ledger (tab_step sample_tab (Sandbox_changed (\<lambda>c. c) 0 ''sc'' None)) = []"
  using terminal_switch_keeps_ledgers [of sample_tab "''sc''" "[]", OF _ _ _ _ refl]
  by (simp add: sample_tab_def tab_init_def empty_storage_def loadLedger_def parse_ledger_def)

lemma terminal_launch_race_duplicates_witness:
  "2 \<le> length (filter (\<lambda>e. en_commandSessionId e = Some ''c'') (tt_ledger (run tab_step sample_tab
     [Snapshot_changed (\<lambda>c. c) 0 sample_result, Launched ''u'' 0 ''ls'' (Some ''w'') (sample_output Cmd_running (Some ''c''))])))"
  by (rule terminal_launch_race_duplicates) (simp_all add: sample_flight sample_output_def)

end
