(* ===== verification/Command_Input.thy ===== *)
theory Command_Input
  imports Ledger Js_Number Machine
begin

text \<open>
  Running and feeding commands: \<^verbatim>\<open>CommandComposer.tsx\<close>, \<^verbatim>\<open>StdinBar.tsx\<close> and \<^verbatim>\<open>CommandCard.tsx\<close> of
  \<^verbatim>\<open>web/src/pages/sandbox/terminal\<close>.  The composer and the card are event machines; calls in flight
  are part of their states.
\<close>

section \<open>The composer\<close>

record exec_request =
  ex_cmd :: string
  ex_timeout_ms :: int
  ex_yield_time_ms :: int
  ex_workspace_session_id :: "string option"

record composer =
  cp_workspaceSessionId :: "string option"
  cp_cmd :: string
  cp_timeoutSeconds :: string
  cp_busy :: bool
  cp_calls :: "exec_request list"
  cp_sent :: "exec_request list"
  cp_launched :: "(string \<times> string option \<times> CommandOutput) list"
  cp_errors :: "thrown list"

definition valid_timeout :: "string \<Rightarrow> int option" where
  "valid_timeout timeoutSeconds = (case to_integer (js_Number timeoutSeconds) of
     None \<Rightarrow> None | Some timeout \<Rightarrow> if timeout < 1 \<or> 86400 < timeout then None else Some timeout)"

definition timeoutError :: "string \<Rightarrow> string option" where
  "timeoutError timeoutSeconds = (if valid_timeout timeoutSeconds = None
     then Some (''Enter 1'' @ [CHR 0xE2, CHR 0x80, CHR 0x93] @ ''86400 seconds.'') else None)"

definition submit :: "composer \<Rightarrow> composer" where
  "submit s = (let t = trim (cp_cmd s) in
     if t = [] \<or> cp_busy s \<or> timeoutError (cp_timeoutSeconds s) \<noteq> None then s
     else let request = \<lparr>ex_cmd = t, ex_timeout_ms = the (valid_timeout (cp_timeoutSeconds s)) * 1000, ex_yield_time_ms = 0,
                        ex_workspace_session_id = (if truthy_id (cp_workspaceSessionId s) then cp_workspaceSessionId s else None)\<rparr>
          in s\<lparr>cp_busy := True, cp_calls := cp_calls s @ [request], cp_sent := cp_sent s @ [request]\<rparr>)"

definition exec_args :: "exec_request \<Rightarrow> (string \<times> json) list" where
  "exec_args r = [(''cmd'', JStr (ex_cmd r)), (''timeout_ms'', JNum (ex_timeout_ms r)), (''yield_time_ms'', JNum (ex_yield_time_ms r))] @
     (case ex_workspace_session_id r of None \<Rightarrow> [] | Some w \<Rightarrow> [(''workspace_session_id'', JStr w)])"

definition submit_done :: "exec_request \<Rightarrow> thrown + CommandOutput \<Rightarrow> composer \<Rightarrow> composer" where
  "submit_done request answer s =
     (let s1 = (case answer of
          Inr out \<Rightarrow> s\<lparr>cp_cmd := [], cp_launched := cp_launched s @ [(ex_cmd request, ex_workspace_session_id request, out)]\<rparr>
        | Inl e \<Rightarrow> s\<lparr>cp_errors := cp_errors s @ [e]\<rparr>)
      in s1\<lparr>cp_busy := False\<rparr>)"

definition run_disabled :: "composer \<Rightarrow> bool" where
  "run_disabled s = (cp_busy s \<or> trim (cp_cmd s) = [] \<or> timeoutError (cp_timeoutSeconds s) \<noteq> None)"

datatype composer_event = Edit_cmd string | Edit_timeout string | Submit | Select_session "string option" | Exec_answered "thrown + CommandOutput"

fun composer_step :: "composer \<Rightarrow> composer_event \<Rightarrow> composer" where
  "composer_step s (Edit_cmd t) = s\<lparr>cp_cmd := t\<rparr>"
| "composer_step s (Edit_timeout t) = s\<lparr>cp_timeoutSeconds := t\<rparr>"
| "composer_step s Submit = submit s"
| "composer_step s (Select_session w) = s\<lparr>cp_workspaceSessionId := w\<rparr>"
| "composer_step s (Exec_answered a) = (case cp_calls s of [] \<Rightarrow> s
     | r # rs \<Rightarrow> submit_done r a (s\<lparr>cp_calls := rs\<rparr>))"

definition composer_init :: "string option \<Rightarrow> composer" where
  "composer_init w = \<lparr>cp_workspaceSessionId = w, cp_cmd = [], cp_timeoutSeconds = ''300'', cp_busy = False, cp_calls = [],
     cp_sent = [], cp_launched = [], cp_errors = []\<rparr>"

definition contextLabel :: "string option \<Rightarrow> string" where
  "contextLabel w = (if truthy_id w then ''Command in '' @ the w else ''Quick run'')"

definition contextDescription :: "string option \<Rightarrow> WorkspaceSnapshot option \<Rightarrow> string" where
  "contextDescription w workspace = (if truthy_id w
     then (case workspace of
        Some x \<Rightarrow> (case ws_network_profile x of Shared \<Rightarrow> ''shared'' | Isolated \<Rightarrow> ''isolated'') @ [CHR '' '', CHR 0xB7, CHR '' ''] @
          show_nat (ws_layer_count x) @ '' '' @ (if ws_layer_count x = 1 then ''layer'' else ''layers'')
      | None \<Rightarrow> ''retained session'')
     else ''shared '' @ [CHR 0xB7] @ '' auto-publish'')"

section \<open>Standard input and the card\<close>

definition CTRL_C :: string where "CTRL_C = [CHR 0x03]"
definition CTRL_D :: string where "CTRL_D = [CHR 0x04]"

text \<open>A write in flight: from the input line, from a control of the bar, or from the frame's shortcut.\<close>

datatype write_source = From_line | From_bar | From_frame

record command_card =
  cc_entry :: LedgerEntry
  cc_text :: string
  cc_barPending :: bool
  cc_framePending :: bool
  cc_writes :: "(write_source \<times> string) list"
  cc_nudges :: nat
  cc_errors :: "thrown list"

record key_event =
  ke_key :: string
  ke_ctrl :: bool
  ke_repeat :: bool

definition card_running :: "command_card \<Rightarrow> bool" where
  "card_running s = (en_status (cc_entry s) = Cmd_running)"

definition write_stdin :: "write_source \<Rightarrow> string \<Rightarrow> command_card \<Rightarrow> command_card" where
  "write_stdin src stdin s = s\<lparr>cc_writes := cc_writes s @ [(src, stdin)]\<rparr>"

definition submitLine :: "command_card \<Rightarrow> command_card" where
  "submitLine s = write_stdin From_line (cc_text s @ [newline]) (s\<lparr>cc_text := []\<rparr>)"

definition sendControl :: "string \<Rightarrow> command_card \<Rightarrow> command_card" where
  "sendControl control s = (if cc_barPending s then s else write_stdin From_bar control (s\<lparr>cc_barPending := True\<rparr>))"

text \<open>The input's key handler, and whether it stops the event from reaching the frame.\<close>

definition input_key :: "key_event \<Rightarrow> command_card \<Rightarrow> command_card \<times> bool" where
  "input_key ev s =
     (if ke_key ev = ''Enter'' then (submitLine s, False)
      else if ke_key ev = ''c'' \<and> ke_ctrl ev then (if ke_repeat ev then s else sendControl CTRL_C s, True)
      else if ke_key ev = ''d'' \<and> ke_ctrl ev then (if ke_repeat ev then s else sendControl CTRL_D s, True)
      else (s, False))"

definition frameKeyDown :: "bool \<Rightarrow> key_event \<Rightarrow> command_card \<Rightarrow> command_card" where
  "frameKeyDown text_selected ev s =
     (if \<not> card_running s \<or> \<not> truthy_id (en_commandSessionId (cc_entry s)) \<or> ke_repeat ev then s
      else if text_selected then s
      else if ke_ctrl ev \<and> (ke_key ev = ''c'' \<or> ke_key ev = ''d'') then
        (if cc_framePending s then s
         else write_stdin From_frame (if ke_key ev = ''c'' then CTRL_C else CTRL_D) (s\<lparr>cc_framePending := True\<rparr>))
      else s)"

text \<open>A key pressed in the input bubbles to the frame unless it was stopped there.\<close>

definition key_down :: "bool \<Rightarrow> bool \<Rightarrow> key_event \<Rightarrow> command_card \<Rightarrow> command_card" where
  "key_down in_input text_selected ev s =
     (if in_input then (case input_key ev s of (s', stopped) \<Rightarrow> if stopped then s' else frameKeyDown text_selected ev s')
      else frameKeyDown text_selected ev s)"

definition write_done :: "write_source \<Rightarrow> thrown option \<Rightarrow> command_card \<Rightarrow> command_card" where
  "write_done src failure s =
     (let s1 = (case src of From_frame \<Rightarrow> s\<lparr>cc_framePending := False\<rparr> | From_bar \<Rightarrow> s\<lparr>cc_barPending := False\<rparr> | From_line \<Rightarrow> s)
      in s1\<lparr>cc_nudges := Suc (cc_nudges s),
            cc_errors := (case failure of Some e \<Rightarrow> if src = From_frame then cc_errors s else cc_errors s @ [e] | None \<Rightarrow> cc_errors s)\<rparr>)"

text \<open>\<^verbatim>\<open>onTerminal\<close>: an output of a finished command ends a running entry.\<close>

definition onTerminal :: "int \<Rightarrow> CommandOutput \<Rightarrow> command_card \<Rightarrow> command_card" where
  "onTerminal now out s = (if card_running s \<and> co_status out \<noteq> Cmd_running
     then s\<lparr>cc_entry := (cc_entry s)\<lparr>en_status := co_status out, en_exitCode := co_exit_code out, en_endedAt := Some now,
       en_publishRejected := (co_publish_rejected out = Some True), en_publishRejectClass := co_publish_reject_class out\<rparr>\<rparr>
     else s)"

datatype card_event = Type_line string | Send_line | Send_control bool | Key_down bool bool key_event | Write_done nat "thrown option"
  | Terminal_output int CommandOutput

fun card_step :: "command_card \<Rightarrow> card_event \<Rightarrow> command_card" where
  "card_step s (Type_line t) = s\<lparr>cc_text := t\<rparr>"
| "card_step s Send_line = submitLine s"
| "card_step s (Send_control c) = sendControl (if c then CTRL_C else CTRL_D) s"
| "card_step s (Key_down in_input text_selected ev) = key_down in_input text_selected ev s"
| "card_step s (Write_done n failure) = (if n < length (cc_writes s)
     then write_done (fst (cc_writes s ! n)) failure (s\<lparr>cc_writes := take n (cc_writes s) @ drop (Suc n) (cc_writes s)\<rparr>) else s)"
| "card_step s (Terminal_output now out) = onTerminal now out s"

definition card_init :: "LedgerEntry \<Rightarrow> command_card" where
  "card_init e = \<lparr>cc_entry = e, cc_text = [], cc_barPending = False, cc_framePending = False, cc_writes = [], cc_nudges = 0, cc_errors = []\<rparr>"

text \<open>The state shown at the right of a card.\<close>

datatype card_status = Shows_running string | Shows_rejected string | Shows_status CommandStatus string

definition card_status_of :: "int \<Rightarrow> LedgerEntry \<Rightarrow> card_status" where
  "card_status_of now e =
     (if en_status e = Cmd_running
      then Shows_running (formatDuration (Fin (of_int ((case en_endedAt e of None \<Rightarrow> now | Some t \<Rightarrow> t) - en_startedAt e) / 1000)))
      else if en_publishRejected e
      then Shows_rejected (''publish rejected'' @ (if truthy_id (en_publishRejectClass e)
        then [CHR '' '', CHR 0xB7, CHR '' ''] @ the (en_publishRejectClass e) else []))
      else Shows_status (en_status e) (case en_exitCode e of
        Some c \<Rightarrow> status_string (en_status e) @ [CHR '' '', CHR 0xB7, CHR '' ''] @ ''exit '' @ show_int c
      | None \<Rightarrow> status_string (en_status e)))"

definition card_owner :: "LedgerEntry \<Rightarrow> string" where
  "card_owner e = (if en_autoPublish e then ''auto-publish''
     else case en_workspaceSessionId e of None \<Rightarrow> ''session ?'' | Some w \<Rightarrow> w)"

datatype card_body = Body_transcript string | Body_inline "string list" | Body_empty | Body_collapsed

definition card_body_of :: "bool \<Rightarrow> LedgerEntry \<Rightarrow> card_body" where
  "card_body_of expanded e =
     (if \<not> expanded then Body_collapsed
      else if truthy_id (en_commandSessionId e) then Body_transcript (the (en_commandSessionId e))
      else (let out = (case en_inlineOutput e of None \<Rightarrow> [] | Some t \<Rightarrow> t)
            in if out \<noteq> [] then Body_inline (split_on newline out) else Body_empty))"

definition card_stdin_shown :: "bool \<Rightarrow> LedgerEntry \<Rightarrow> bool" where
  "card_stdin_shown expanded e = (expanded \<and> en_status e = Cmd_running \<and> truthy_id (en_commandSessionId e))"

definition card_preview_scope :: "string list \<Rightarrow> LedgerEntry \<Rightarrow> string" where
  "card_preview_scope scopeIds e =
     (if en_autoPublish e \<or> \<not> truthy_id (en_workspaceSessionId e) then ''shared''
      else case find (\<lambda>i. i = the (en_workspaceSessionId e)) scopeIds of Some i \<Rightarrow> i | None \<Rightarrow> ''shared'')"

section \<open>Laws\<close>

definition request_ok :: "exec_request \<Rightarrow> bool" where
  "request_ok r = (ex_cmd r \<noteq> [] \<and> trim (ex_cmd r) = ex_cmd r \<and> 1000 \<le> ex_timeout_ms r \<and> ex_timeout_ms r \<le> 86400000 \<and>
     ex_timeout_ms r mod 1000 = 0 \<and> ex_workspace_session_id r \<noteq> Some [])"

lemma trim_trim [simp]: "trim (trim s) = trim s"
proof -
  have d: "dropWhile P (dropWhile P xs) = dropWhile P xs" for P and xs :: string by simp
  have "dropWhile is_space (rev (dropWhile is_space (rev xs))) = rev (dropWhile is_space (rev xs))"
    if "dropWhile is_space xs = xs" for xs
  proof (cases "rev (dropWhile is_space (rev xs))")
    case (Cons c cs)
    have "\<exists>zs. xs = rev (dropWhile is_space (rev xs)) @ zs"
      using takeWhile_dropWhile_id [of is_space "rev xs"] by (metis rev_append rev_rev_ident)
    with Cons obtain zs where "xs = c # zs" by auto
    with that have "\<not> is_space c" by (metis dropWhile_eq_Cons_conv list.inject)
    with Cons show ?thesis by simp
  next
    case Nil
    show ?thesis unfolding Nil by simp
  qed
  then show ?thesis unfolding trim_def by (simp add: d)
qed

lemma valid_timeout_bounds: "valid_timeout t = Some n \<Longrightarrow> 1 \<le> n \<and> n \<le> 86400"
  by (auto simp: valid_timeout_def split: option.splits if_splits)

definition composer_inv :: "composer \<Rightarrow> bool" where
  "composer_inv s = ((\<forall>r \<in> set (cp_sent s). request_ok r) \<and> length (cp_calls s) \<le> 1 \<and> (cp_busy s \<longleftrightarrow> cp_calls s \<noteq> []))"

lemma submit_inv:
  assumes "composer_inv s"
  shows "composer_inv (submit s)"
proof (cases "trim (cp_cmd s) = [] \<or> cp_busy s \<or> timeoutError (cp_timeoutSeconds s) \<noteq> None")
  case True
  with assms show ?thesis by (auto simp: submit_def Let_def)
next
  case False
  then obtain n where n: "valid_timeout (cp_timeoutSeconds s) = Some n" by (auto simp: timeoutError_def split: if_splits)
  from valid_timeout_bounds [OF n] False n assms show ?thesis
    by (auto simp: submit_def composer_inv_def request_ok_def truthy_id_def Let_def)
qed

lemma composer_inv_step: "composer_inv s \<Longrightarrow> composer_inv (composer_step s e)"
proof (cases e)
  case Submit
  then show "composer_inv s \<Longrightarrow> composer_inv (composer_step s e)" by (simp add: submit_inv)
qed (auto simp: composer_inv_def submit_done_def Let_def split: list.splits sum.splits)

interpretation composer: guarded_machine composer_step composer_inv "\<lambda>s. length (cp_calls s)" 1
proof
  show "composer_inv s \<Longrightarrow> composer_inv (composer_step s e)" for s e by (rule composer_inv_step)
  show "composer_inv s \<Longrightarrow> length (cp_calls s) \<le> 1" for s by (simp add: composer_inv_def)
qed

text \<open>Control writes: at most one in flight from each of the bar and the frame, as their flags say.\<close>

definition from_source :: "write_source \<Rightarrow> command_card \<Rightarrow> nat" where
  "from_source src s = length (filter (\<lambda>w. fst w = src) (cc_writes s))"

definition card_inv :: "command_card \<Rightarrow> bool" where
  "card_inv s = (from_source From_bar s = (if cc_barPending s then 1 else 0) \<and>
     from_source From_frame s = (if cc_framePending s then 1 else 0))"

lemma submitLine_inv: "card_inv s \<Longrightarrow> card_inv (submitLine s)"
  by (auto simp: card_inv_def submitLine_def write_stdin_def from_source_def split: if_splits)

lemma sendControl_inv: "card_inv s \<Longrightarrow> card_inv (sendControl c s)"
  by (auto simp: card_inv_def sendControl_def write_stdin_def from_source_def split: if_splits)

lemma frame_write_inv: "card_inv s \<Longrightarrow> \<not> cc_framePending s \<Longrightarrow> card_inv (write_stdin From_frame c (s\<lparr>cc_framePending := True\<rparr>))"
  by (auto simp: card_inv_def write_stdin_def from_source_def split: if_splits)

lemma frame_inv: "card_inv s \<Longrightarrow> card_inv (frameKeyDown sel ev s)"
  unfolding frameKeyDown_def by (simp add: frame_write_inv)

lemma input_inv: "card_inv s \<Longrightarrow> card_inv (fst (input_key ev s))"
  unfolding input_key_def by (simp add: submitLine_inv sendControl_inv)

lemma key_down_inv: "card_inv s \<Longrightarrow> card_inv (key_down i sel ev s)"
  using input_inv [of s ev] by (auto simp: key_down_def frame_inv split: prod.splits)

lemma filter_remove_nth:
  "n < length xs \<Longrightarrow> length (filter P (take n xs @ drop (Suc n) xs)) = length (filter P xs) - (if P (xs ! n) then 1 else 0)"
proof -
  assume "n < length xs"
  then have xs: "xs = take n xs @ xs ! n # drop (Suc n) xs" by (rule id_take_nth_drop)
  have "length (filter P xs) = length (filter P (take n xs @ xs ! n # drop (Suc n) xs))" using xs by simp
  then show ?thesis by simp
qed

lemma filter_nth_pos: "n < length xs \<Longrightarrow> P (xs ! n) \<Longrightarrow> 0 < length (filter P xs)"
  by (metis filter_empty_conv length_greater_0_conv nth_mem)

lemma write_done_inv:
  assumes "card_inv s" "n < length (cc_writes s)"
  shows "card_inv (write_done (fst (cc_writes s ! n)) f (s\<lparr>cc_writes := take n (cc_writes s) @ drop (Suc n) (cc_writes s)\<rparr>))"
proof -
  have rem: "length (filter P (take n (cc_writes s))) + length (filter P (drop (Suc n) (cc_writes s))) =
      length (filter P (cc_writes s)) - (if P (cc_writes s ! n) then 1 else 0)" for P
    using filter_remove_nth [OF assms(2), of P] by simp
  show ?thesis using assms(1)
    by (cases "fst (cc_writes s ! n)") (simp_all add: card_inv_def from_source_def write_done_def rem Let_def split: if_splits)
qed

lemma card_inv_step: "card_inv s \<Longrightarrow> card_inv (card_step s e)"
proof (cases e)
  case (Write_done n f)
  assume "card_inv s"
  with Write_done show ?thesis by (simp add: write_done_inv)
next
  case (Terminal_output now out)
  assume "card_inv s"
  with Terminal_output show ?thesis by (auto simp: onTerminal_def card_inv_def from_source_def split: if_splits)
next
  case (Type_line t)
  assume "card_inv s"
  with Type_line show ?thesis by (auto simp: card_inv_def from_source_def split: if_splits)
qed (simp_all add: key_down_inv submitLine_inv sendControl_inv)

interpretation card: event_machine card_step card_inv
  by unfold_locales (rule card_inv_step)

lemma frame_writes: "length (cc_writes (frameKeyDown sel ev s)) \<le> Suc (length (cc_writes s))"
  by (simp add: frameKeyDown_def write_stdin_def)

lemma input_writes: "length (cc_writes (fst (input_key ev s))) \<le> Suc (length (cc_writes s))"
  by (simp add: input_key_def submitLine_def sendControl_def write_stdin_def)

lemma input_passes:
  assumes "\<not> snd (input_key ev s)"
  shows "fst (input_key ev s) = s \<or> frameKeyDown sel ev (fst (input_key ev s)) = fst (input_key ev s)"
  using assms by (auto simp: input_key_def frameKeyDown_def split: if_splits)

lemma key_writes: "length (cc_writes (key_down i sel ev s)) \<le> Suc (length (cc_writes s))"
proof (cases "i \<and> \<not> snd (input_key ev s)")
  case True
  with input_passes [of ev s sel] input_writes [of ev s] frame_writes [of sel ev s] show ?thesis
    by (auto simp: key_down_def split: prod.splits)
next
  case False
  with input_writes [of ev s] frame_writes [of sel ev s] show ?thesis by (auto simp: key_down_def split: prod.splits)
qed

section \<open>Properties\<close>

text \<open>
  Every command that is run is well formed and alone: whatever is typed, a request has a trimmed
  command that is not empty and a timeout of a whole number of seconds from 1 to 86400, a session id
  that is not empty if any, and there is never more than one request in flight.
\<close>

lemma composer_requests:
  assumes "s = run composer_step (composer_init w) es"
  shows "length (cp_calls s) \<le> 1 \<and> (\<forall>r \<in> set (cp_sent s). ex_cmd r \<noteq> [] \<and> trim (ex_cmd r) = ex_cmd r \<and>
    1000 \<le> ex_timeout_ms r \<and> ex_timeout_ms r \<le> 86400000 \<and> ex_timeout_ms r mod 1000 = 0 \<and> ex_workspace_session_id r \<noteq> Some [])"
proof -
  have "composer_inv (composer_init w)" by (simp add: composer_inv_def composer_init_def)
  then have "composer_inv s" unfolding assms by (rule composer.inv_run)
  then show ?thesis by (auto simp: composer_inv_def request_ok_def)
qed

lemma composer_requests_witness:
  "length (cp_calls (run composer_step (composer_init None) [Edit_cmd '' ls '', Submit, Submit])) \<le> 1"
  using composer_requests [OF refl, of None "[Edit_cmd '' ls '', Submit, Submit]"] by blast

text \<open>
  One key press sends at most one write, and control characters never pile up: in every reachable
  state of a card at most one control write of the bar and one of the frame are in flight, exactly
  while their flags are set; a key pressed in the input never reaches the frame's shortcut as well.
\<close>

lemma control_writes_single:
  assumes "s = run card_step (card_init e) es"
  shows "length (filter (\<lambda>w. fst w = From_bar) (cc_writes s)) = (if cc_barPending s then 1 else 0) \<and>
    length (filter (\<lambda>w. fst w = From_frame) (cc_writes s)) = (if cc_framePending s then 1 else 0) \<and>
    length (cc_writes (card_step s (Key_down i sel ev))) \<le> length (cc_writes s) + 1"
proof -
  have "card_inv (card_init e)" by (simp add: card_inv_def card_init_def from_source_def)
  then have "card_inv s" unfolding assms by (rule card.inv_run)
  then show ?thesis using key_writes [of i sel ev s] by (simp add: card_inv_def from_source_def)
qed

lemma control_writes_single_witness:
  "length (cc_writes (card_step (card_init (sample_entry ''c'')) (Key_down True False \<lparr>ke_key = ''c'', ke_ctrl = True, ke_repeat = False\<rparr>))) \<le> 1"
  using control_writes_single [of "card_init (sample_entry ''c'')" "sample_entry ''c''" "[]" True False
      "\<lparr>ke_key = ''c'', ke_ctrl = True, ke_repeat = False\<rparr>"]
  by (simp add: card_init_def)

text \<open>A command typed while another is being started is cleared by its success.\<close>

lemma submit_clears_typing:
  "cp_cmd (composer_step (composer_step (s\<lparr>cp_calls := [r]\<rparr>) (Edit_cmd t)) (Exec_answered (Inr out))) = []"
  by (simp add: submit_done_def Let_def)

end
