(* ===== verification/Catalog.thy ===== *)
theory Catalog
  imports Rpc Js_Number
begin

text \<open>
  The operation catalog and the forms built from it: \<^verbatim>\<open>web/src/api/catalog.ts\<close>.  A form field's
  text is checked against its specification and becomes a protocol value, an omitted argument or an
  error.
\<close>

datatype ArgKind = Arg_string | Arg_integer | Arg_float | Arg_path | Arg_json_array

record ArgSpecDoc =
  as_name :: string
  as_kind :: ArgKind
  as_required :: bool
  as_help :: string
  as_default :: "string option"

record OperationSpecDoc =
  os_name :: string
  os_family :: string
  os_summary :: string
  os_description :: string
  os_args :: "ArgSpecDoc list"
  os_related :: "string list"

datatype OperationScopePolicy = Policy_system | Policy_sandbox_required | Policy_system_or_sandbox
datatype OperationScopeKind = Kind_system | Kind_sandbox
datatype OperationDomain = Domain_manager | Domain_runtime | Domain_observability
datatype OperationVisibility = Visible_public | Visible_internal

record OperationRouteDoc =
  or_operation :: string
  or_scope_policy :: OperationScopePolicy
  or_scope_kind :: OperationScopeKind
  or_execution_owner :: OperationDomain
  or_visibility :: OperationVisibility

record CatalogFamily =
  cf_id :: string
  cf_title :: string
  cf_summary :: string
  cf_description :: string

record CatalogDoc =
  cd_operation_execution_space :: OperationDomain
  cd_families :: "CatalogFamily list"
  cd_operations :: "OperationSpecDoc list"
  cd_routes :: "OperationRouteDoc list"

record Catalogs =
  cat_management :: CatalogDoc
  cat_runtime :: CatalogDoc
  cat_observability :: CatalogDoc

text \<open>\<^verbatim>\<open>fetchCatalogs\<close>: a rejected fetch, an HTTP failure, a body that is no JSON, or the body.\<close>

definition fetchCatalogs :: "fetch_outcome \<Rightarrow> string + json" where
  "fetchCatalogs response = (case response of
     FetchFails e \<Rightarrow> Inl e
   | Responded r \<Rightarrow>
       if \<not> rsp_ok r then Inl (''catalog fetch failed: HTTP '' @ show_nat (rsp_status r))
       else (case Option.bind (rsp_text r) JSON_parse of None \<Rightarrow> Inl ''SyntaxError'' | Some v \<Rightarrow> Inr v))"

definition findOperation :: "CatalogDoc option \<Rightarrow> string \<Rightarrow> OperationSpecDoc option" where
  "findOperation catalog name = Option.bind catalog (\<lambda>c. find (\<lambda>operation. os_name operation = name) (cd_operations c))"

section \<open>Arguments\<close>

datatype arg_value = Val_number jsnum | Val_json json | Val_text string

datatype parsed_arg = Omitted | Parsed arg_value | Invalid string

definition parse_kind :: "ArgSpecDoc \<Rightarrow> string \<Rightarrow> string \<Rightarrow> parsed_arg" where
  "parse_kind spec raw trimmed = (case as_kind spec of
     Arg_integer \<Rightarrow>
       if \<not> (trimmed \<noteq> [] \<and> (\<forall>c \<in> set trimmed. is_digit c)) then Invalid (as_name spec @ '' must be an unsigned integer'')
       else Parsed (Val_number (js_Number trimmed))
   | Arg_float \<Rightarrow>
       (let parsed = js_Number trimmed in
        if \<not> isFinite parsed then Invalid (as_name spec @ '' must be a finite number'')
        else Parsed (Val_number parsed))
   | Arg_json_array \<Rightarrow>
       (case JSON_parse trimmed of
          Some (JArr vs) \<Rightarrow> Parsed (Val_json (JArr vs))
        | _ \<Rightarrow> Invalid (as_name spec @ '' must be a JSON array''))
   | _ \<Rightarrow> Parsed (Val_text raw))"

definition parseArgValue :: "ArgSpecDoc \<Rightarrow> string \<Rightarrow> parsed_arg" where
  "parseArgValue spec raw =
     (let trimmed = trim raw in
      if trimmed = [] then (if as_required spec then Invalid (as_name spec @ '' is required'') else Omitted)
      else parse_kind spec raw trimmed)"

definition build_step :: "(string \<times> string) list \<Rightarrow> (string \<times> arg_value) list \<times> (string \<times> string) list
    \<Rightarrow> ArgSpecDoc \<Rightarrow> (string \<times> arg_value) list \<times> (string \<times> string) list" where
  "build_step vals = (\<lambda>(args, errors) spec.
     (case parseArgValue spec (case map_of vals (as_name spec) of None \<Rightarrow> [] | Some raw \<Rightarrow> raw) of
        Invalid message \<Rightarrow> (args, map_set (as_name spec) message errors)
      | Parsed v \<Rightarrow> (map_set (as_name spec) v args, errors)
      | Omitted \<Rightarrow> (args, errors)))"

definition buildArgs :: "ArgSpecDoc list \<Rightarrow> (string \<times> string) list \<Rightarrow> (string \<times> arg_value) list \<times> (string \<times> string) list" where
  "buildArgs specs vals = foldl (build_step vals) ([], []) specs"

section \<open>Laws\<close>

definition field_value :: "(string \<times> string) list \<Rightarrow> ArgSpecDoc \<Rightarrow> parsed_arg" where
  "field_value vals spec = parseArgValue spec (case map_of vals (as_name spec) of None \<Rightarrow> [] | Some raw \<Rightarrow> raw)"

lemma build_step_field:
  "build_step vals ae spec = (case field_value vals spec of
     Invalid m \<Rightarrow> (fst ae, map_set (as_name spec) m (snd ae))
   | Parsed v \<Rightarrow> (map_set (as_name spec) v (fst ae), snd ae)
   | Omitted \<Rightarrow> ae)"
  by (cases ae) (auto simp: build_step_def field_value_def split: parsed_arg.splits)

lemma buildArgs_snoc: "buildArgs (specs @ [spec]) vals = build_step vals (buildArgs specs vals) spec"
  by (simp add: buildArgs_def)

text \<open>With distinct names, each specification decides its own entry and nothing else does.\<close>

lemma buildArgs_lookup:
  "distinct (map as_name specs) \<Longrightarrow>
   map_of (fst (buildArgs specs vals)) n =
     (case find (\<lambda>s. as_name s = n) specs of None \<Rightarrow> None
      | Some s \<Rightarrow> (case field_value vals s of Parsed v \<Rightarrow> Some v | _ \<Rightarrow> None)) \<and>
   map_of (snd (buildArgs specs vals)) n =
     (case find (\<lambda>s. as_name s = n) specs of None \<Rightarrow> None
      | Some s \<Rightarrow> (case field_value vals s of Invalid m \<Rightarrow> Some m | _ \<Rightarrow> None))"
proof (induction specs rule: rev_induct)
  case Nil
  then show ?case by (simp add: buildArgs_def)
next
  case (snoc s specs)
  have other: "find (\<lambda>t. as_name t = as_name s) specs = None"
    using snoc.prems by (auto simp: find_None_iff image_iff)
  have app: "find P (xs @ ys) = (case find P xs of None \<Rightarrow> find P ys | Some x \<Rightarrow> Some x)" for P and xs ys :: "ArgSpecDoc list"
    by (induction xs) auto
  show ?case
    using snoc other by (cases "n = as_name s") (auto simp: buildArgs_snoc build_step_field app split: parsed_arg.splits option.splits)
qed

lemma required_field: "as_required s \<Longrightarrow> field_value vals s \<noteq> Omitted"
  by (auto simp: field_value_def parseArgValue_def parse_kind_def Let_def split: ArgKind.splits option.splits json.splits)

lemma digits_no_space: "\<forall>c \<in> set s. is_digit c \<Longrightarrow> trim s = s"
proof -
  assume d: "\<forall>c \<in> set s. is_digit c"
  have sp: "is_digit c \<Longrightarrow> \<not> is_space c" for c by (auto simp: is_digit_def is_space_def)
  have ns: "\<forall>c \<in> set s. \<not> is_space c" using d sp by blast
  have drop: "dropWhile is_space u = u" if "\<forall>c \<in> set u. \<not> is_space c" for u :: string
    using that by (cases u) auto
  have "dropWhile is_space s = s" using ns by (rule drop)
  moreover have "dropWhile is_space (rev s) = rev s" using ns by (intro drop) simp
  ultimately show ?thesis by (simp only: trim_def rev_rev_ident)
qed

lemma digit_neq: "is_digit c \<Longrightarrow> c \<notin> {CHR ''x'', CHR ''X'', CHR ''o'', CHR ''O'', CHR ''b'', CHR ''B'', CHR ''-'', CHR ''+'', CHR ''I''}"
  by (auto simp: is_digit_def)

lemma js_Number_digits:
  assumes "s \<noteq> []" "\<forall>c \<in> set s. is_digit c"
  shows "js_Number s = double_range (of_nat (digits_value s))"
proof -
  have "based_literal s = None"
  proof (cases "\<exists>z p ds. s = z # p # ds")
    case True
    then obtain z p ds where s: "s = z # p # ds" by blast
    then have "is_digit p" using assms(2) by simp
    from digit_neq [OF this] show ?thesis by (simp add: based_literal_def s)
  qed (auto simp: based_literal_def split: list.splits)
  moreover obtain c cs where c: "s = c # cs" "is_digit c" using assms by (cases s) auto
  then have "\<not> startsWith s ''-''" "\<not> startsWith s ''+''" "s \<noteq> ''Infinity''"
    using digit_neq [OF c(2)] by (auto simp: startsWith_def)
  moreover have "unsigned_decimal s = Some (of_nat (digits_value s))"
  proof -
    have all: "takeWhile is_digit s = s" "dropWhile is_digit s = []"
      using assms(2) by (simp_all add: takeWhile_eq_all_conv)
    show ?thesis unfolding unsigned_decimal_def Let_def all using assms(1)
      by (simp add: exponent_part_def scale10_def digits_rat_def digits_value_def)
  qed
  ultimately show ?thesis using assms digits_no_space [OF assms(2)] by (simp add: js_Number_def)
qed

section \<open>Properties\<close>

text \<open>
  A form is turned into arguments exactly.  With distinct field names every field is an argument,
  an error or (when it is optional and blank) omitted, never two of these; a required field is never
  omitted, an argument is the parsed text of its own field, and an integer argument is a number
  that its digits denote.
\<close>

lemma buildArgs_partition:
  assumes "distinct (map as_name specs)" "s \<in> set specs" "buildArgs specs vals = (args, errors)"
  shows "map_of args (as_name s) = (case field_value vals s of Parsed v \<Rightarrow> Some v | _ \<Rightarrow> None) \<and>
    map_of errors (as_name s) = (case field_value vals s of Invalid m \<Rightarrow> Some m | _ \<Rightarrow> None) \<and>
    (map_of args (as_name s) = None \<or> map_of errors (as_name s) = None) \<and>
    (as_required s \<longrightarrow> map_of args (as_name s) \<noteq> None \<or> map_of errors (as_name s) \<noteq> None) \<and>
    (as_kind s = Arg_integer \<longrightarrow> map_of args (as_name s) = Some v \<longrightarrow>
       (\<exists>n. v = Val_number (double_range (of_nat n))))"
proof -
  have find: "find (\<lambda>t. as_name t = as_name s) specs = Some s"
  proof -
    obtain t where t: "find (\<lambda>t. as_name t = as_name s) specs = Some t"
      using assms(2) by (cases "find (\<lambda>t. as_name t = as_name s) specs") (auto simp: find_None_iff)
    then have "t \<in> set specs" "as_name t = as_name s" by (auto simp: find_Some_iff)
    with assms(1,2) have "t = s" by (meson distinct_map inj_onD)
    with t show ?thesis by simp
  qed
  have look: "map_of args (as_name s) = (case field_value vals s of Parsed v \<Rightarrow> Some v | _ \<Rightarrow> None)"
    "map_of errors (as_name s) = (case field_value vals s of Invalid m \<Rightarrow> Some m | _ \<Rightarrow> None)"
    using buildArgs_lookup [OF assms(1), of vals "as_name s"] assms(3) find by auto
  moreover have "as_kind s = Arg_integer \<Longrightarrow> field_value vals s = Parsed v \<Longrightarrow>
      \<exists>n. v = Val_number (double_range (of_nat n))"
    by (auto simp: field_value_def parseArgValue_def parse_kind_def Let_def js_Number_digits split: if_splits option.splits)
  moreover have "as_required s \<Longrightarrow> field_value vals s \<noteq> Omitted" by (rule required_field)
  ultimately show ?thesis by (auto split: parsed_arg.splits)
qed

lemma buildArgs_partition_witness:
  "map_of (fst (buildArgs [\<lparr>as_name = ''n'', as_kind = Arg_integer, as_required = True, as_help = [], as_default = None\<rparr>] [])) ''n'' = None \<and>
   map_of (snd (buildArgs [\<lparr>as_name = ''n'', as_kind = Arg_integer, as_required = True, as_help = [], as_default = None\<rparr>] [])) ''n''
     = Some ''n is required''"
  using buildArgs_partition [of "[\<lparr>as_name = ''n'', as_kind = Arg_integer, as_required = True, as_help = [], as_default = None\<rparr>]"
      "\<lparr>as_name = ''n'', as_kind = Arg_integer, as_required = True, as_help = [], as_default = None\<rparr>" "[]"]
  by (simp add: buildArgs_def build_step_def parseArgValue_def trim_def field_value_def)

end
