(* ===== verification/Files_Api.thy ===== *)
theory Files_Api
  imports Rpc
begin

text \<open>
  The file operations of the gateway: \<^verbatim>\<open>web/src/api/files.ts\<close>.  The arguments a call sends are
  definitions of their own; the answers of \<^verbatim>\<open>file_read\<close> are the parameter \<open>read\<close> of
  \<open>fileReadToEnd\<close>, a function of the offset it is asked for.  \<open>serves_pages\<close> states what the
  gateway promises of these answers.
\<close>

section \<open>Requests\<close>

text \<open>\<^verbatim>\<open>if (session) args["workspace_session_id"] = session\<close>.\<close>

definition session_arg :: "string option \<Rightarrow> (string \<times> json) list" where
  "session_arg session = (case session of None \<Rightarrow> []
     | Some s \<Rightarrow> if s = [] then [] else [(''workspace_session_id'', JStr s)])"

definition fileUrl :: "(string \<Rightarrow> string) \<Rightarrow> string \<Rightarrow> string" where
  "fileUrl encodeURIComponent sandboxId = ''/api/sandboxes/'' @ encodeURIComponent sandboxId @ ''/files/list''"

definition fileList :: "(string \<Rightarrow> string) \<Rightarrow> (http_request \<Rightarrow> fetch_outcome) \<Rightarrow> string \<Rightarrow> string \<Rightarrow> string option \<Rightarrow> RpcError + json" where
  "fileList encodeURIComponent fetch sandboxId path session =
     postJson fetch (fileUrl encodeURIComponent sandboxId)
       ((if path \<noteq> [] then [(''path'', JStr path)] else []) @ session_arg session)"

definition optional_num :: "string \<Rightarrow> nat option \<Rightarrow> (string \<times> json) list" where
  "optional_num k v = (case v of None \<Rightarrow> [] | Some n \<Rightarrow> [(k, JNum (int n))])"

definition fileRead :: "(http_request \<Rightarrow> fetch_outcome) \<Rightarrow> string \<Rightarrow> string \<Rightarrow> string option \<Rightarrow> nat option \<Rightarrow> nat option \<Rightarrow> RpcError + json" where
  "fileRead fetch sandboxId path session offset limit =
     rpc fetch ''file_read'' (sandboxScope sandboxId)
       ([(''path'', JStr path)] @ session_arg session @ optional_num ''offset'' offset @ optional_num ''limit'' limit)"

definition fileBlame :: "(http_request \<Rightarrow> fetch_outcome) \<Rightarrow> string \<Rightarrow> string \<Rightarrow> RpcError + json" where
  "fileBlame fetch sandboxId path = rpc fetch ''file_blame'' (sandboxScope sandboxId) [(''path'', JStr path)]"

definition fileWrite :: "(http_request \<Rightarrow> fetch_outcome) \<Rightarrow> string \<Rightarrow> string \<Rightarrow> string \<Rightarrow> string option \<Rightarrow> RpcError + json" where
  "fileWrite fetch sandboxId path content session =
     rpc fetch ''file_write'' (sandboxScope sandboxId)
       ([(''path'', JStr path), (''content'', JStr content)] @ session_arg session)"

section \<open>Whole files\<close>

text \<open>
  The loop of \<^verbatim>\<open>fileReadToEnd\<close>, from the content and the offset reached.  A failed read rejects
  the whole call.
\<close>

partial_function (option) read_windows :: "(nat option \<Rightarrow> RpcError + FileReadWindow) \<Rightarrow> string \<Rightarrow> nat option \<Rightarrow> (RpcError + WholeFile) option" where
  "read_windows read content offset = (case read offset of
     Inl e \<Rightarrow> Some (Inl e)
   | Inr window \<Rightarrow>
       (let content' = (if content = [] then fw_content window else content @ [newline] @ fw_content window)
        in if fw_next_offset window = None \<or> fw_num_lines window = 0
           then Some (Inr \<lparr>wf_content = content', wf_totalLines = fw_total_lines window, wf_totalBytes = fw_total_bytes window\<rparr>)
           else read_windows read content' (fw_next_offset window)))"

definition fileReadToEnd :: "(nat option \<Rightarrow> RpcError + FileReadWindow) \<Rightarrow> (RpcError + WholeFile) option" where
  "fileReadToEnd read = read_windows read [] None"

text \<open>
  The contract of \<^verbatim>\<open>file_read\<close>: starting without an offset and following \<^verbatim>\<open>next_offset\<close>, the
  windows are consecutive pages of lines, each joined by newlines, and the last one names no next.
\<close>

fun window_of :: "FileReadWindow \<Rightarrow> string list \<Rightarrow> bool" where
  "window_of w page = (fw_content w = join [newline] page \<and> fw_num_lines w = length page)"

fun serves_pages :: "(nat option \<Rightarrow> RpcError + FileReadWindow) \<Rightarrow> nat option \<Rightarrow> string list list \<Rightarrow> bool" where
  "serves_pages read offset [] = False"
| "serves_pages read offset [p] = (case read offset of Inl _ \<Rightarrow> False
     | Inr w \<Rightarrow> window_of w p \<and> fw_next_offset w = None)"
| "serves_pages read offset (p # q # ps) = (case read offset of Inl _ \<Rightarrow> False
     | Inr w \<Rightarrow> window_of w p \<and> p \<noteq> [] \<and> fw_next_offset w \<noteq> None \<and> serves_pages read (fw_next_offset w) (q # ps))"

lemma read_windows_step:
  "read offset = Inr w \<Longrightarrow> read_windows read content offset =
     (let content' = (if content = [] then fw_content w else content @ [newline] @ fw_content w)
      in if fw_next_offset w = None \<or> fw_num_lines w = 0
         then Some (Inr \<lparr>wf_content = content', wf_totalLines = fw_total_lines w, wf_totalBytes = fw_total_bytes w\<rparr>)
         else read_windows read content' (fw_next_offset w))"
  by (subst read_windows.simps) simp

lemma join_snoc_page: "ps \<noteq> [] \<Longrightarrow> qs \<noteq> [] \<Longrightarrow> join [d] (ps @ qs) = join [d] ps @ [d] @ join [d] qs"
  by (induction ps rule: induct_list012) (auto simp: join_Cons)

lemma join_empty_iff: "join [d] ps = [] \<longleftrightarrow> ps = [] \<or> ps = [[]]"
  by (induction ps rule: induct_list012) (auto simp: join_Cons)

definition blank_page :: "string list \<Rightarrow> bool" where
  "blank_page p = (p = [[]])"

text \<open>The lines in the buffer after the pages \<open>ps\<close>, when \<open>acc\<close> are the lines before.\<close>

definition kept_lines :: "string list \<Rightarrow> string list list \<Rightarrow> string list" where
  "kept_lines acc ps = (if acc = [] then concat (dropWhile blank_page ps) else acc @ concat ps)"

lemma read_windows_pages:
  "serves_pages read offset ps \<Longrightarrow> [] \<notin> set ps \<Longrightarrow> acc = [] \<or> join [newline] acc \<noteq> [] \<Longrightarrow>
   \<exists>wf. read_windows read (join [newline] acc) offset = Some (Inr wf) \<and>
     wf_content wf = join [newline] (kept_lines acc ps)"
proof (induction read offset ps arbitrary: acc rule: serves_pages.induct)
  case (2 read offset p)
  then obtain w where w: "read offset = Inr w" "fw_content w = join [newline] p" "fw_next_offset w = None" "p \<noteq> []"
    by (auto split: sum.splits)
  show ?case using w 2(3)
    by (subst read_windows_step [of read offset w, OF w(1)])
      (auto simp: kept_lines_def Let_def join_snoc_page blank_page_def)
next
  case (3 read offset p q ps)
  then obtain w where w: "read offset = Inr w" "fw_content w = join [newline] p" "fw_next_offset w \<noteq> None"
      "fw_num_lines w \<noteq> 0" "p \<noteq> []" "serves_pages read (fw_next_offset w) (q # ps)"
    by (auto split: sum.splits)
  define acc' where "acc' = (if acc = [] then (if blank_page p then [] else p) else acc @ p)"
  have content: "(if join [newline] acc = [] then fw_content w else join [newline] acc @ [newline] @ fw_content w)
      = join [newline] acc'"
    using w(2,5) 3(4) by (auto simp: acc'_def join_snoc_page blank_page_def)
  have "acc' = [] \<or> join [newline] acc' \<noteq> []"
    using 3(4) w(5) by (auto simp: acc'_def join_empty_iff blank_page_def append_eq_Cons_conv)
  moreover have "kept_lines acc' (q # ps) = kept_lines acc (p # q # ps)"
    using w(5) by (auto simp: acc'_def kept_lines_def blank_page_def)
  ultimately show ?case
    using 3(1) [OF w(1) w(6), of acc'] 3(3) w(3,4)
    by (subst read_windows_step [of read offset w, OF w(1)]) (auto simp: Let_def content)
qed simp

section \<open>Properties\<close>

text \<open>
  C22: Reading a file to its end returns, and returns the whole file when its first page is more than
  one blank line: the content is then every line of every page, joined by newlines.  In general the
  leading pages that are a single blank line are lost, because an empty buffer is taken for a buffer
  that has no page yet; an editor that saves this content writes the file back without them.
\<close>

theorem fileReadToEnd_content:
  assumes "serves_pages read None pages" "[] \<notin> set pages"
  shows "\<exists>wf. fileReadToEnd read = Some (Inr wf) \<and>
    wf_content wf = join [newline] (concat (dropWhile (\<lambda>p. p = [[]]) pages)) \<and>
    (hd pages \<noteq> [[]] \<longrightarrow> wf_content wf = join [newline] (concat pages))"
proof -
  obtain wf where wf: "fileReadToEnd read = Some (Inr wf)" "wf_content wf = join [newline] (kept_lines [] pages)"
    using read_windows_pages [OF assms, of "[]"] by (auto simp: fileReadToEnd_def)
  have "kept_lines [] pages = concat (dropWhile (\<lambda>p. p = [[]]) pages)"
    unfolding kept_lines_def blank_page_def by simp
  with wf show ?thesis by (cases pages) auto
qed

definition sample_window :: "string \<Rightarrow> nat \<Rightarrow> nat option \<Rightarrow> FileReadWindow" where
  "sample_window content n next = \<lparr>fw_path = ''f'', fw_content = content, fw_start_line = 1, fw_num_lines = n,
     fw_total_lines = 2, fw_bytes_read = 0, fw_total_bytes = 2, fw_next_offset = next, fw_truncated = False\<rparr>"

text \<open>A file whose second line fills a window of its own: the blank first line is lost.\<close>

theorem fileReadToEnd_content_witness:
  "\<exists>wf. fileReadToEnd (\<lambda>off. Inr (if off = None then sample_window [] 1 (Some 2) else sample_window ''b'' 1 None))
     = Some (Inr wf) \<and> wf_content wf = ''b''"
  using fileReadToEnd_content [of "\<lambda>off. Inr (if off = None then sample_window [] 1 (Some 2) else sample_window ''b'' 1 None)"
      "[[[]], [''b'']]"]
  by (simp add: sample_window_def)

end
