(* ===== verification/Blame.thy ===== *)
theory Blame
  imports Api_Types "HOL-Library.Word"
begin

text \<open>
  Line owners: \<^verbatim>\<open>web/src/pages/sandbox/files/blame.ts\<close>.  The hue of an owner is a hash in 32-bit
  two's complement arithmetic (\<^verbatim>\<open>| 0\<close>); the gutter asks for the owner of an absolute line.
\<close>

record BlameOwnerInfo =
  oi_owner :: string
  oi_color :: string
  oi_hatched :: bool

definition hash_step :: "32 word \<Rightarrow> char \<Rightarrow> 32 word" where
  "hash_step hash c = hash * 31 + of_nat (of_char c)"

definition hashHue :: "string \<Rightarrow> nat" where
  "hashHue text = nat (\<bar>sint (foldl hash_step 0 text)\<bar> mod 360)"

definition ownerInfo :: "string \<Rightarrow> BlameOwnerInfo" where
  "ownerInfo owner =
     (if owner = ''original'' then \<lparr>oi_owner = owner, oi_color = ''#c8cdd6'', oi_hatched = False\<rparr>
      else if owner = ''unknown'' then \<lparr>oi_owner = owner, oi_color = ''#9aa1ac'', oi_hatched = True\<rparr>
      else \<lparr>oi_owner = owner, oi_color = ''hsl('' @ show_nat (hashHue owner) @ '' 65% 55%)'', oi_hatched = False\<rparr>)"

definition ownersOf :: "BlameRange list \<Rightarrow> string list" where
  "ownersOf ranges = set_new (map br_owner ranges)"

fun ownerAt :: "BlameRange list \<Rightarrow> int \<Rightarrow> string option" where
  "ownerAt [] absoluteLine = None"
| "ownerAt (rg # ranges) absoluteLine =
     (if br_start_line rg \<le> absoluteLine \<and> absoluteLine < br_start_line rg + br_line_count rg
      then Some (br_owner rg) else ownerAt ranges absoluteLine)"

text \<open>The marker of a document line, and the owner that a click on it reports (an empty owner is falsy).\<close>

definition lineMarker :: "BlameRange list \<Rightarrow> int \<Rightarrow> int \<Rightarrow> BlameOwnerInfo option" where
  "lineMarker ranges windowStart docLine = (case ownerAt ranges (windowStart + docLine - 1) of
     None \<Rightarrow> None | Some owner \<Rightarrow> if owner = [] then None else Some (ownerInfo owner))"

definition gutter_click :: "BlameRange list \<Rightarrow> int \<Rightarrow> int \<Rightarrow> string option" where
  "gutter_click ranges windowStart docLine = (case ownerAt ranges (windowStart + docLine - 1) of
     None \<Rightarrow> None | Some owner \<Rightarrow> if owner = [] then None else Some owner)"

section \<open>Laws\<close>

text \<open>The hash before the wrap-around: the text as a number in base 31.\<close>

definition hash_value :: "string \<Rightarrow> int" where
  "hash_value text = foldl (\<lambda>h c. h * 31 + int (of_char c)) 0 text"

lemma hash_fold:
  "foldl hash_step (of_int v) s = of_int (foldl (\<lambda>h c. h * 31 + int (of_char c)) v s)"
proof (induction s arbitrary: v)
  case (Cons c s)
  have "hash_step (of_int v) c = of_int (v * 31 + int (of_char c))" by (simp add: hash_step_def)
  then show ?case unfolding foldl_Cons by (simp only: Cons.IH)
qed simp

lemma hashHue_bound: "hashHue text < 360"
  by (simp add: hashHue_def nat_less_iff)

lemma hashHue_value: "hashHue text = nat (\<bar>signed_take_bit 31 (hash_value text)\<bar> mod 360)"
proof -
  have "foldl hash_step 0 text = of_int (hash_value text)"
    using hash_fold [of 0 "text"] by (simp add: hash_value_def)
  then show ?thesis by (simp add: hashHue_def sint_sbintrunc')
qed

lemma set_ownersOf: "set (ownersOf ranges) = br_owner ` set ranges" "distinct (ownersOf ranges)"
  by (simp_all add: ownersOf_def)

lemma ownerAt_Some: "ownerAt ranges l = Some owner \<Longrightarrow> owner \<in> set (ownersOf ranges)"
  by (induction ranges) (auto simp: set_ownersOf split: if_splits)

definition covers :: "BlameRange \<Rightarrow> int \<Rightarrow> bool" where
  "covers rg l = (br_start_line rg \<le> l \<and> l < br_start_line rg + br_line_count rg)"

lemma ownerAt_find: "ownerAt ranges l = map_option br_owner (find (\<lambda>r. covers r l) ranges)"
  by (induction ranges) (auto simp: covers_def)

lemma ownerAt_None_iff: "ownerAt ranges l = None \<longleftrightarrow> (\<forall>rg \<in> set ranges. \<not> covers rg l)"
  by (auto simp: ownerAt_find find_None_iff)

lemma ownerAt_disjoint:
  assumes "rg \<in> set ranges" "covers rg l" "\<And>r. r \<in> set ranges \<Longrightarrow> covers r l \<Longrightarrow> r = rg"
  shows "ownerAt ranges l = Some (br_owner rg)"
proof (cases "find (\<lambda>r. covers r l) ranges")
  case (Some r)
  then have "r \<in> set ranges" "covers r l" by (auto simp: find_Some_iff)
  then have "r = rg" by (rule assms(3))
  with Some show ?thesis by (simp add: ownerAt_find)
qed (use assms(1,2) in \<open>auto simp: find_None_iff\<close>)

lemma marker_click: "map_option oi_owner (lineMarker ranges start l) = gutter_click ranges start l"
  by (auto simp: lineMarker_def gutter_click_def ownerInfo_def split: option.splits)

end
