(* ===== verification/File_View.thy ===== *)
theory File_View
  imports Files_Api Blame Machine
begin

text \<open>
  The file surface: \<^verbatim>\<open>web/src/pages/sandbox/files/FileView.tsx\<close>.  The component is an event machine
  with its asynchronous calls in flight as part of the state; they may be answered in any order.
  The CodeMirror instance is its document text: \<open>None\<close> before it is created.  The effect that brings
  the editor in line with the state runs after every event; it changes nothing when nothing it
  depends on has changed.  \<open>fv_wholes\<close> records the contents that whole-file reads have returned, for
  the statements about them.  The component is mounted anew for another path or session.
\<close>

definition WINDOW_LINES :: nat where "WINDOW_LINES = 2000"
definition EDIT_SIZE_LIMIT_BYTES :: nat where "EDIT_SIZE_LIMIT_BYTES = 1024 * 1024"

datatype Mode =
    Mode_view
  | Mode_editing (md_original: string) (md_draft: string)
  | Mode_conflict (mc_draft: string) (mc_server: string) (mc_lines: nat) (mc_bytes: nat)

datatype mode_kind = Kind_view | Kind_editing | Kind_conflict

fun kind_of :: "Mode \<Rightarrow> mode_kind" where
  "kind_of Mode_view = Kind_view"
| "kind_of (Mode_editing _ _) = Kind_editing"
| "kind_of (Mode_conflict _ _ _ _) = Kind_conflict"

record LoadedText =
  lt_content :: string
  lt_startLine :: int
  lt_endLine :: int
  lt_totalLines :: int
  lt_totalBytes :: nat
  lt_nextOffset :: "nat option"
  lt_binary :: bool

record EditorMeta =
  em_startLine :: int
  em_editable :: bool
  em_blame :: "BlameRange list option"
  em_mode :: mode_kind

datatype file_call =
    Loading bool
  | Loading_more LoadedText
  | Reading_whole
  | Checking string string
  | Writing string
  | Blaming

record file_view =
  fv_blameOn :: bool
  fv_live :: bool
  fv_loaded :: "LoadedText option"
  fv_loadError :: "string option"
  fv_loading :: bool
  fv_mode :: Mode
  fv_busy :: bool
  fv_blame :: "BlameRange list option"
  fv_drawer :: bool
  fv_doc :: "string option"
  fv_meta :: "EditorMeta option"
  fv_calls :: "file_call list"
  fv_toasts :: "thrown list"
  fv_copied :: "string option"
  fv_wholes :: "string list"

section \<open>The editor effect\<close>

definition shown_blame :: "file_view \<Rightarrow> BlameRange list option" where
  "shown_blame s = (if fv_blameOn s \<and> \<not> fv_live s then fv_blame s else None)"

definition editor_document :: "file_view \<Rightarrow> LoadedText \<Rightarrow> string" where
  "editor_document s loaded = (case fv_mode s of
     Mode_view \<Rightarrow> lt_content loaded
   | Mode_editing _ draft \<Rightarrow> draft
   | Mode_conflict draft _ _ _ \<Rightarrow> draft)"

definition retain_draft :: "file_view \<Rightarrow> bool" where
  "retain_draft s = (kind_of (fv_mode s) \<noteq> Kind_view \<and>
     (case fv_meta s of None \<Rightarrow> False | Some m \<Rightarrow> em_mode m \<noteq> Kind_view))"

definition sync_editor :: "file_view \<Rightarrow> file_view" where
  "sync_editor s = (case fv_loaded s of
     None \<Rightarrow> s
   | Some loaded \<Rightarrow>
       if lt_binary loaded then s
       else (let meta = \<lparr>em_startLine = lt_startLine loaded, em_editable = (kind_of (fv_mode s) = Kind_editing),
                         em_blame = shown_blame s, em_mode = kind_of (fv_mode s)\<rparr>
             in case fv_doc s of
                  None \<Rightarrow> s\<lparr>fv_doc := Some (editor_document s loaded), fv_meta := Some meta\<rparr>
                | Some current \<Rightarrow>
                    s\<lparr>fv_doc := Some (if retain_draft s then current else editor_document s loaded),
                      fv_meta := Some meta\<rparr>))"

section \<open>Operations\<close>

definition load_start :: "bool \<Rightarrow> file_view \<Rightarrow> file_view" where
  "load_start in_save s = s\<lparr>fv_loading := True, fv_loadError := None, fv_mode := Mode_view,
     fv_calls := fv_calls s @ [Loading in_save]\<rparr>"

definition loaded_window :: "FileReadWindow \<Rightarrow> string \<Rightarrow> int \<Rightarrow> LoadedText" where
  "loaded_window window content startLine =
     \<lparr>lt_content = content, lt_startLine = startLine,
      lt_endLine = int (fw_start_line window) + int (fw_num_lines window) - 1,
      lt_totalLines = int (fw_total_lines window), lt_totalBytes = fw_total_bytes window,
      lt_nextOffset = fw_next_offset window, lt_binary = False\<rparr>"

definition binary_text :: LoadedText where
  "binary_text = \<lparr>lt_content = [], lt_startLine = 1, lt_endLine = 0, lt_totalLines = 0, lt_totalBytes = 0,
     lt_nextOffset = None, lt_binary = True\<rparr>"

fun utf8_failure :: "thrown \<Rightarrow> bool" where
  "utf8_failure (Thrown_rpc e) = str_includes (err_message e) ''UTF-8''"
| "utf8_failure _ = False"

text \<open>The end of a load; inside a save the \<^verbatim>\<open>finally\<close> of the save follows.\<close>

definition load_done :: "bool \<Rightarrow> thrown + FileReadWindow \<Rightarrow> file_view \<Rightarrow> file_view" where
  "load_done in_save answer s =
     (let s1 = (case answer of
          Inr window \<Rightarrow> s\<lparr>fv_loaded := Some (loaded_window window (fw_content window) (int (fw_start_line window)))\<rparr>
        | Inl e \<Rightarrow> if utf8_failure e then s\<lparr>fv_loaded := Some binary_text\<rparr>
                   else s\<lparr>fv_loadError := Some (thrown_message e)\<rparr>)
      in s1\<lparr>fv_loading := False, fv_busy := (if in_save then False else fv_busy s)\<rparr>)"

definition loadMore :: "file_view \<Rightarrow> file_view" where
  "loadMore s = (case fv_loaded s of
     None \<Rightarrow> s
   | Some loaded \<Rightarrow> if lt_nextOffset loaded = None then s
       else s\<lparr>fv_busy := True, fv_calls := fv_calls s @ [Loading_more loaded]\<rparr>)"

definition loadMore_done :: "LoadedText \<Rightarrow> thrown + FileReadWindow \<Rightarrow> file_view \<Rightarrow> file_view" where
  "loadMore_done loaded answer s =
     (let s1 = (case answer of
          Inr window \<Rightarrow> s\<lparr>fv_loaded := Some (loaded_window window (lt_content loaded @ [newline] @ fw_content window) (lt_startLine loaded))\<rparr>
        | Inl e \<Rightarrow> s\<lparr>fv_toasts := fv_toasts s @ [e]\<rparr>)
      in s1\<lparr>fv_busy := False\<rparr>)"

text \<open>\<^verbatim>\<open>setLoaded\<close> with the whole content and its counts.\<close>

definition set_whole :: "string \<Rightarrow> nat \<Rightarrow> nat \<Rightarrow> file_view \<Rightarrow> file_view" where
  "set_whole content totalLines totalBytes s = s\<lparr>fv_loaded := map_option (\<lambda>current. current\<lparr>lt_content := content,
     lt_endLine := int totalLines, lt_totalLines := int totalLines, lt_totalBytes := totalBytes, lt_nextOffset := None\<rparr>) (fv_loaded s)\<rparr>"

definition beginEdit :: "file_view \<Rightarrow> file_view" where
  "beginEdit s = s\<lparr>fv_busy := True, fv_calls := fv_calls s @ [Reading_whole]\<rparr>"

definition too_large :: "nat \<Rightarrow> thrown" where
  "too_large n = Thrown_error (''file is '' @ show_nat n @ '' bytes '' @ [CHR 0xE2, CHR 0x80, CHR 0x94] @
     '' over the 1 MiB edit threshold, opening read-only'')"

definition beginEdit_done :: "thrown + WholeFile \<Rightarrow> file_view \<Rightarrow> file_view" where
  "beginEdit_done answer s =
     (let s1 = (case answer of
          Inl e \<Rightarrow> s\<lparr>fv_toasts := fv_toasts s @ [e]\<rparr>
        | Inr whole \<Rightarrow>
            if EDIT_SIZE_LIMIT_BYTES < wf_totalBytes whole
            then s\<lparr>fv_toasts := fv_toasts s @ [too_large (wf_totalBytes whole)]\<rparr>
            else (set_whole (wf_content whole) (wf_totalLines whole) (wf_totalBytes whole) s)
                   \<lparr>fv_mode := Mode_editing (wf_content whole) (wf_content whole),
                    fv_wholes := fv_wholes s @ [wf_content whole]\<rparr>)
      in s1\<lparr>fv_busy := False\<rparr>)"

definition edited_text :: "file_view \<Rightarrow> string" where
  "edited_text s = (case fv_doc s of None \<Rightarrow> [] | Some d \<Rightarrow> d)"

definition save :: "file_view \<Rightarrow> file_view" where
  "save s = (case fv_mode s of
     Mode_editing original _ \<Rightarrow> s\<lparr>fv_busy := True, fv_calls := fv_calls s @ [Checking (edited_text s) original]\<rparr>
   | _ \<Rightarrow> s)"

definition save_checked :: "string \<Rightarrow> string \<Rightarrow> thrown + WholeFile \<Rightarrow> file_view \<Rightarrow> file_view" where
  "save_checked edited original answer s = (case answer of
     Inl e \<Rightarrow> s\<lparr>fv_toasts := fv_toasts s @ [e], fv_busy := False\<rparr>
   | Inr current \<Rightarrow>
       (let s1 = s\<lparr>fv_wholes := fv_wholes s @ [wf_content current]\<rparr> in
        if wf_content current \<noteq> original
        then s1\<lparr>fv_mode := Mode_conflict edited (wf_content current) (wf_totalLines current) (wf_totalBytes current), fv_busy := False\<rparr>
        else s1\<lparr>fv_calls := fv_calls s @ [Writing edited]\<rparr>))"

definition save_written :: "thrown + unit \<Rightarrow> file_view \<Rightarrow> file_view" where
  "save_written answer s = (case answer of
     Inl e \<Rightarrow> s\<lparr>fv_toasts := fv_toasts s @ [e], fv_busy := False\<rparr>
   | Inr _ \<Rightarrow> load_start True s)"

definition keepEditingLocalDraft :: "file_view \<Rightarrow> file_view" where
  "keepEditingLocalDraft s = (case fv_mode s of
     Mode_conflict draft server totalLines totalBytes \<Rightarrow>
       (set_whole server totalLines totalBytes s)\<lparr>fv_mode := Mode_editing server draft\<rparr>
   | _ \<Rightarrow> s)"

definition copyLocalDraft :: "thrown option \<Rightarrow> file_view \<Rightarrow> file_view" where
  "copyLocalDraft failure s = (case fv_mode s of
     Mode_conflict draft _ _ _ \<Rightarrow> (case failure of None \<Rightarrow> s\<lparr>fv_copied := Some draft\<rparr>
       | Some e \<Rightarrow> s\<lparr>fv_toasts := fv_toasts s @ [e]\<rparr>)
   | _ \<Rightarrow> s)"

text \<open>Where a click on an owner leads.\<close>

definition onOwnerClick :: "(string \<Rightarrow> string) \<Rightarrow> string \<Rightarrow> string \<Rightarrow> string option" where
  "onOwnerClick encodeURIComponent sandboxId owner =
     (if startsWith owner ''workspace_session:''
      then Some (''/sandboxes/'' @ encodeURIComponent sandboxId @ ''/terminal?session='' @ encodeURIComponent (drop (length ''workspace_session:'') owner))
      else if startsWith owner ''operation:''
      then Some (''/sandboxes/'' @ encodeURIComponent sandboxId @ ''/observability/traces/'' @ encodeURIComponent (drop (length ''operation:'') owner))
      else None)"

section \<open>What is rendered\<close>

datatype file_button = Load_next | Edit_button | Cancel_button | Save_button | Keep_editing | Copy_draft | Reload_server

text \<open>The buttons on screen and whether they are disabled; none before a text is loaded.\<close>

definition file_buttons :: "file_view \<Rightarrow> (file_button \<times> bool) list" where
  "file_buttons s = (case fv_loaded s of
     None \<Rightarrow> []
   | Some loaded \<Rightarrow>
       if lt_binary loaded then []
       else (case fv_mode s of
          Mode_view \<Rightarrow> (if lt_nextOffset loaded \<noteq> None then [(Load_next, fv_busy s)] else []) @ [(Edit_button, fv_busy s)]
        | Mode_editing _ _ \<Rightarrow> [(Cancel_button, fv_busy s), (Save_button, fv_busy s)]
        | Mode_conflict _ _ _ _ \<Rightarrow> [(Keep_editing, False), (Copy_draft, False), (Reload_server, False)]))"

datatype file_screen = Screen_error string | Screen_loading | Screen_binary | Screen_text LoadedText

definition file_screen_of :: "file_view \<Rightarrow> file_screen" where
  "file_screen_of s = (case fv_loaded s of
     None \<Rightarrow> (case fv_loadError s of Some e \<Rightarrow> if e = [] then Screen_loading else Screen_error e | None \<Rightarrow> Screen_loading)
   | Some loaded \<Rightarrow> if lt_binary loaded then Screen_binary else Screen_text loaded)"

definition file_caption :: "string \<Rightarrow> LoadedText \<Rightarrow> string" where
  "file_caption path loaded = path @ '' '' @ [CHR 0xB7] @ '' lines '' @ show_int (lt_startLine loaded) @
     [CHR 0xE2, CHR 0x80, CHR 0x93] @ show_int (lt_endLine loaded) @ '' of '' @ show_int (lt_totalLines loaded) @
     (if lt_nextOffset loaded \<noteq> None then '' (truncated)'' else [])"

definition blame_legend :: "file_view \<Rightarrow> string list option" where
  "blame_legend s = map_option ownersOf (shown_blame s)"

section \<open>Events\<close>

datatype file_answer =
    Window_answer "thrown + FileReadWindow"
  | Whole_answer "thrown + WholeFile"
  | Write_answer "thrown + unit"
  | Blame_answer "thrown + BlameRange list"

fun answer_file_call :: "file_call \<Rightarrow> file_answer \<Rightarrow> file_view \<Rightarrow> file_view option" where
  "answer_file_call (Loading in_save) (Window_answer a) s = Some (load_done in_save a s)"
| "answer_file_call (Loading_more loaded) (Window_answer a) s = Some (loadMore_done loaded a s)"
| "answer_file_call Reading_whole (Whole_answer a) s = Some (beginEdit_done a s)"
| "answer_file_call (Checking edited original) (Whole_answer a) s = Some (save_checked edited original a s)"
| "answer_file_call (Writing edited) (Write_answer a) s = Some (save_written a s)"
| "answer_file_call Blaming (Blame_answer a) s = Some (case a of Inr ranges \<Rightarrow> s\<lparr>fv_blame := Some ranges\<rparr>
     | Inl e \<Rightarrow> s\<lparr>fv_toasts := fv_toasts s @ [e]\<rparr>)"
| "answer_file_call _ _ s = None"

datatype file_event =
    Click file_button
  | Clipboard_failed thrown
  | Typed string
  | Drawer bool
  | Answered nat file_answer

fun click_file :: "file_button \<Rightarrow> file_view \<Rightarrow> file_view" where
  "click_file Load_next s = loadMore s"
| "click_file Edit_button s = beginEdit s"
| "click_file Cancel_button s = load_start False s"
| "click_file Save_button s = save s"
| "click_file Keep_editing s = keepEditingLocalDraft s"
| "click_file Copy_draft s = copyLocalDraft None s"
| "click_file Reload_server s = load_start False s"

text \<open>
  Only an enabled button on screen can be clicked, and the editor takes typing only while it is
  editable.
\<close>

fun file_handle :: "file_view \<Rightarrow> file_event \<Rightarrow> file_view" where
  "file_handle s (Click b) = (if (b, False) \<in> set (file_buttons s) then click_file b s else s)"
| "file_handle s (Clipboard_failed e) = (if (Copy_draft, False) \<in> set (file_buttons s) then copyLocalDraft (Some e) s else s)"
| "file_handle s (Typed d) = (case fv_meta s of None \<Rightarrow> s | Some m \<Rightarrow> if em_editable m then s\<lparr>fv_doc := Some d\<rparr> else s)"
| "file_handle s (Drawer b) = s\<lparr>fv_drawer := b\<rparr>"
| "file_handle s (Answered n a) = (if n < length (fv_calls s)
     then (let s0 = s\<lparr>fv_calls := take n (fv_calls s) @ drop (Suc n) (fv_calls s)\<rparr>
           in case answer_file_call (fv_calls s ! n) a s0 of None \<Rightarrow> s | Some s' \<Rightarrow> s')
     else s)"

definition file_step :: "file_view \<Rightarrow> file_event \<Rightarrow> file_view" where
  "file_step s e = sync_editor (file_handle s e)"

text \<open>After the first effects: a load is in flight, and blame where it is shown.\<close>

definition file_init :: "bool \<Rightarrow> bool \<Rightarrow> file_view" where
  "file_init blameOn live = \<lparr>fv_blameOn = blameOn, fv_live = live, fv_loaded = None, fv_loadError = None, fv_loading = True,
     fv_mode = Mode_view, fv_busy = False, fv_blame = None, fv_drawer = False, fv_doc = None, fv_meta = None,
     fv_calls = [Loading False] @ (if blameOn \<and> \<not> live then [Blaming] else []),
     fv_toasts = [], fv_copied = None, fv_wholes = []\<rparr>"

section \<open>Laws\<close>

lemmas file_ops = load_start_def load_done_def loadMore_def loadMore_done_def set_whole_def beginEdit_def
  beginEdit_done_def save_def save_checked_def save_written_def keepEditingLocalDraft_def copyLocalDraft_def Let_def

lemma sync_editor_keeps [simp]:
  "fv_mode (sync_editor s) = fv_mode s" "fv_calls (sync_editor s) = fv_calls s"
  "fv_loaded (sync_editor s) = fv_loaded s" "fv_busy (sync_editor s) = fv_busy s"
  "fv_wholes (sync_editor s) = fv_wholes s"
  by (auto simp: sync_editor_def Let_def split: option.splits)

lemma answer_keeps_editor:
  "answer_file_call c a s = Some s' \<Longrightarrow> fv_doc s' = fv_doc s \<and> fv_meta s' = fv_meta s"
  by (cases "(c, a, s)" rule: answer_file_call.cases) (auto simp: file_ops split: sum.splits if_splits)

lemma click_keeps_editor: "fv_doc (click_file b s) = fv_doc s \<and> fv_meta (click_file b s) = fv_meta s"
  by (cases b) (auto simp: file_ops split: option.splits Mode.splits)

lemma handle_keeps_editor:
  assumes "\<And>d. e \<noteq> Typed d"
  shows "fv_doc (file_handle s e) = fv_doc s \<and> fv_meta (file_handle s e) = fv_meta s"
proof (cases e)
  case (Answered n a)
  then show ?thesis
    by (auto simp: Let_def dest!: answer_keeps_editor split: option.splits)
qed (use assms in \<open>auto simp: click_keeps_editor copyLocalDraft_def split: Mode.splits option.splits\<close>)

text \<open>The editor shows a draft: the state is not the view mode and the editor was last synchronised in such a state.\<close>

definition draft_shown :: "file_view \<Rightarrow> bool" where
  "draft_shown s = (fv_mode s \<noteq> Mode_view \<and> (case fv_meta s of None \<Rightarrow> False | Some m \<Rightarrow> em_mode m \<noteq> Kind_view))"

lemma kind_view_iff: "kind_of m = Kind_view \<longleftrightarrow> m = Mode_view"
  by (cases m) auto

lemma sync_draft:
  assumes "draft_shown s" "fv_doc s = Some d"
  shows "fv_doc (sync_editor s) = Some d \<and> draft_shown (sync_editor s)"
  using assms by (auto simp: draft_shown_def sync_editor_def retain_draft_def kind_view_iff Let_def split: option.splits)

text \<open>The events that end a draft: leaving it, and a completed write.\<close>

fun leaves_draft :: "file_event \<Rightarrow> bool" where
  "leaves_draft (Click b) = (b = Cancel_button \<or> b = Reload_server)"
| "leaves_draft (Typed _) = True"
| "leaves_draft (Answered _ (Write_answer (Inr _))) = True"
| "leaves_draft _ = False"

lemma answer_keeps_mode:
  assumes "answer_file_call c a s = Some s'" "fv_mode s \<noteq> Mode_view" "\<And>u. a \<noteq> Write_answer (Inr u)"
  shows "fv_mode s' \<noteq> Mode_view"
  using assms by (cases "(c, a, s)" rule: answer_file_call.cases) (auto simp: file_ops split: sum.splits if_splits)

lemma handle_keeps_draft:
  assumes "fv_mode s \<noteq> Mode_view" "\<not> leaves_draft e"
  shows "fv_mode (file_handle s e) \<noteq> Mode_view"
proof (cases e)
  case (Click b)
  with assms show ?thesis by (cases b) (auto simp: file_ops split: option.splits Mode.splits)
next
  case (Answered n a)
  then have "\<And>u. a \<noteq> Write_answer (Inr u)" using assms(2) by auto
  with Answered assms(1) show ?thesis by (auto simp: Let_def dest!: answer_keeps_mode split: option.splits)
qed (use assms in \<open>auto simp: copyLocalDraft_def split: Mode.splits option.splits\<close>)

lemma draft_step:
  assumes "draft_shown s" "fv_doc s = Some d" "\<not> leaves_draft e"
  shows "draft_shown (file_step s e) \<and> fv_doc (file_step s e) = Some d"
proof -
  have "\<And>x. e \<noteq> Typed x" using assms(3) by auto
  then have "fv_doc (file_handle s e) = Some d" "fv_meta (file_handle s e) = fv_meta s"
    using handle_keeps_editor assms(2) by simp_all
  moreover have "fv_mode (file_handle s e) \<noteq> Mode_view"
    using handle_keeps_draft assms(1,3) by (simp add: draft_shown_def)
  ultimately have "draft_shown (file_handle s e)" "fv_doc (file_handle s e) = Some d"
    using assms(1) by (simp_all add: draft_shown_def)
  then show ?thesis unfolding file_step_def using sync_draft by blast
qed

text \<open>Every draft is based on a content that a read of the whole file returned.\<close>

fun mode_based :: "string list \<Rightarrow> Mode \<Rightarrow> bool" where
  "mode_based wholes Mode_view = True"
| "mode_based wholes (Mode_editing original _) = (original \<in> set wholes)"
| "mode_based wholes (Mode_conflict _ server _ _) = (server \<in> set wholes)"

fun call_based :: "string list \<Rightarrow> file_call \<Rightarrow> bool" where
  "call_based wholes (Checking _ original) = (original \<in> set wholes)"
| "call_based wholes _ = True"

definition drafts_based :: "file_view \<Rightarrow> bool" where
  "drafts_based s = (mode_based (fv_wholes s) (fv_mode s) \<and> list_all (call_based (fv_wholes s)) (fv_calls s))"

lemma mode_based_more: "mode_based ws m \<Longrightarrow> mode_based (ws @ vs) m"
  by (cases m) auto

lemma call_based_more: "list_all (call_based ws) cs \<Longrightarrow> list_all (call_based (ws @ vs)) cs"
proof -
  have "call_based ws c \<Longrightarrow> call_based (ws @ vs) c" for c by (cases c) auto
  then show "list_all (call_based ws) cs \<Longrightarrow> list_all (call_based (ws @ vs)) cs" by (auto simp: list_all_iff)
qed

lemmas based_intros = mode_based_more call_based_more

lemma answer_based:
  assumes "drafts_based s" "answer_file_call c a s = Some s'"
  shows "drafts_based s'"
  using assms by (cases "(c, a, s)" rule: answer_file_call.cases)
    (auto simp: drafts_based_def file_ops based_intros split: sum.splits if_splits)

lemma click_based: "drafts_based s \<Longrightarrow> drafts_based (click_file b s)"
  by (cases b; cases "fv_mode s") (auto simp: drafts_based_def file_ops split: option.splits)

lemma call_removed_based: "drafts_based s \<Longrightarrow> drafts_based (s\<lparr>fv_calls := take n (fv_calls s) @ drop m (fv_calls s)\<rparr>)"
  by (auto simp: drafts_based_def list_all_iff dest: in_set_takeD in_set_dropD)

lemma handle_based: "drafts_based s \<Longrightarrow> drafts_based (file_handle s e)"
proof (cases e)
  case (Answered n a)
  assume "drafts_based s"
  with Answered show ?thesis
    using answer_based [OF call_removed_based [of s n "Suc n"]] by (auto simp: Let_def split: option.splits)
next
  case (Clipboard_failed x)
  assume "drafts_based s"
  with Clipboard_failed show ?thesis
    by (cases "fv_mode s") (auto simp: copyLocalDraft_def drafts_based_def)
next
  case (Click b)
  assume "drafts_based s"
  with Click click_based show ?thesis by simp
qed (auto simp: drafts_based_def split: option.splits)

interpretation drafts: event_machine file_step drafts_based
  by unfold_locales (simp add: file_step_def drafts_based_def handle_based [unfolded drafts_based_def])

lemma init_based: "drafts_based (file_init blameOn live)"
  by (auto simp: drafts_based_def file_init_def)

text \<open>A write call starts only when a check is answered with the content the draft is based on.\<close>

lemma answer_starts_write:
  assumes "answer_file_call c a s = Some s'" "Writing edited \<in> set (fv_calls s')" "Writing edited \<notin> set (fv_calls s)"
  obtains original whole where "c = Checking edited original" "a = Whole_answer (Inr whole)" "wf_content whole = original"
  using assms by (cases "(c, a, s)" rule: answer_file_call.cases) (auto simp: file_ops split: sum.splits if_splits)

lemma click_starts_no_write: "Writing edited \<in> set (fv_calls (click_file b s)) \<Longrightarrow> Writing edited \<in> set (fv_calls s)"
  by (cases b; cases "fv_mode s") (auto simp: file_ops split: option.splits if_splits)

lemma step_starts_write:
  assumes "Writing edited \<in> set (fv_calls (file_step s e))" "Writing edited \<notin> set (fv_calls s)"
  obtains n original whole where "e = Answered n (Whole_answer (Inr whole))" "n < length (fv_calls s)"
    "fv_calls s ! n = Checking edited original" "wf_content whole = original"
proof (cases e)
  case (Answered n a)
  let ?s = "s\<lparr>fv_calls := take n (fv_calls s) @ drop (Suc n) (fv_calls s)\<rparr>"
  from Answered assms obtain s' where s': "n < length (fv_calls s)" "answer_file_call (fv_calls s ! n) a ?s = Some s'"
      "Writing edited \<in> set (fv_calls s')"
    by (auto simp: file_step_def Let_def split: if_splits option.splits)
  have "Writing edited \<notin> set (fv_calls ?s)" using assms(2) by (auto dest: in_set_takeD in_set_dropD)
  with s'(2,3) show ?thesis by (rule answer_starts_write) (use Answered s'(1) that in auto)
next
  case (Click b)
  with assms show ?thesis by (auto simp: file_step_def dest: click_starts_no_write split: if_splits)
next
  case (Clipboard_failed x)
  with assms show ?thesis
    by (cases "fv_mode s") (auto simp: file_step_def copyLocalDraft_def split: if_splits)
qed (use assms in \<open>auto simp: file_step_def split: option.splits if_splits\<close>)

section \<open>Properties\<close>

text \<open>
  C11: A draft on screen is never lost behind the user's back: as long as the user neither types, nor
  cancels, nor reloads, and no write of the file completes, every event (failed or conflicting saves,
  answers of older loads, blame) leaves the text in the editor and the draft mode as they are.
\<close>

theorem file_draft_preserved:
  assumes "draft_shown s" "fv_doc s = Some d" "\<forall>e \<in> set es. \<not> leaves_draft e"
  shows "fv_doc (run file_step s es) = Some d \<and> draft_shown (run file_step s es)"
  using assms
proof (induction es arbitrary: s)
  case (Cons e es)
  then have "draft_shown (file_step s e) \<and> fv_doc (file_step s e) = Some d" by (intro draft_step) auto
  with Cons show ?case by auto
qed simp

definition sample_whole :: "string \<Rightarrow> WholeFile" where
  "sample_whole content = \<lparr>wf_content = content, wf_totalLines = 1, wf_totalBytes = 1\<rparr>"

definition sample_editing :: file_view where
  "sample_editing = run file_step (file_init False False)
     [Answered 0 (Window_answer (Inr \<lparr>fw_path = ''f'', fw_content = ''a'', fw_start_line = 1, fw_num_lines = 1,
        fw_total_lines = 1, fw_bytes_read = 1, fw_total_bytes = 1, fw_next_offset = None, fw_truncated = False\<rparr>)),
      Click Edit_button, Answered 0 (Whole_answer (Inr (sample_whole ''a''))), Typed ''b'']"

lemmas file_eval = sample_editing_def sample_whole_def file_init_def file_step_def sync_editor_def file_ops
  loaded_window_def editor_document_def retain_draft_def shown_blame_def file_buttons_def EDIT_SIZE_LIMIT_BYTES_def
  edited_text_def draft_shown_def

theorem file_draft_preserved_witness:
  "fv_doc (run file_step sample_editing [Click Save_button, Answered 0 (Whole_answer (Inr (sample_whole ''c'')))]) = Some ''b''"
  using file_draft_preserved [of sample_editing "''b''" "[Click Save_button, Answered 0 (Whole_answer (Inr (sample_whole ''c'')))]"]
  by (simp add: file_eval)

text \<open>
  C2: A save never overwrites a change it has not seen.  Whenever a write of a text starts, a read of
  the whole file has just answered with exactly the content that the draft is based on, and that
  content is itself one that an earlier read of the whole file returned, never a truncated window;
  an answer with another content writes nothing and turns the draft into a conflict.
\<close>

theorem file_save_guarded:
  assumes "s = run file_step (file_init blameOn live) es"
  shows "(Writing edited \<in> set (fv_calls (file_step s e)) \<and> Writing edited \<notin> set (fv_calls s) \<longrightarrow>
      (\<exists>n whole. e = Answered n (Whole_answer (Inr whole)) \<and> n < length (fv_calls s) \<and>
         fv_calls s ! n = Checking edited (wf_content whole) \<and> wf_content whole \<in> set (fv_wholes s))) \<and>
    (n < length (fv_calls s) \<and> fv_calls s ! n = Checking edited original \<and> wf_content current \<noteq> original \<longrightarrow>
      fv_mode (file_step s (Answered n (Whole_answer (Inr current)))) =
        Mode_conflict edited (wf_content current) (wf_totalLines current) (wf_totalBytes current))"
proof (intro conjI impI)
  assume "Writing edited \<in> set (fv_calls (file_step s e)) \<and> Writing edited \<notin> set (fv_calls s)"
  then obtain n original whole where n: "e = Answered n (Whole_answer (Inr whole))" "n < length (fv_calls s)"
    "fv_calls s ! n = Checking edited original" "wf_content whole = original"
    by (elim conjE step_starts_write)
  have "drafts_based s" unfolding assms using init_based by (rule drafts.inv_run)
  then have "call_based (fv_wholes s) (fv_calls s ! n)" using n(2) by (simp add: drafts_based_def list_all_length)
  with n show "\<exists>n whole. e = Answered n (Whole_answer (Inr whole)) \<and> n < length (fv_calls s) \<and>
      fv_calls s ! n = Checking edited (wf_content whole) \<and> wf_content whole \<in> set (fv_wholes s)" by auto
next
  assume "n < length (fv_calls s) \<and> fv_calls s ! n = Checking edited original \<and> wf_content current \<noteq> original"
  then show "fv_mode (file_step s (Answered n (Whole_answer (Inr current)))) =
      Mode_conflict edited (wf_content current) (wf_totalLines current) (wf_totalBytes current)"
    by (simp add: file_step_def save_checked_def Let_def)
qed

theorem file_save_guarded_witness:
  "fv_mode (run file_step sample_editing [Click Save_button, Answered 0 (Whole_answer (Inr (sample_whole ''c'')))])
     = Mode_conflict ''b'' ''c'' 1 1"
proof -
  let ?s = "run file_step sample_editing [Click Save_button]"
  have "?s = run file_step (file_init False False)
     [Answered 0 (Window_answer (Inr \<lparr>fw_path = ''f'', fw_content = ''a'', fw_start_line = 1, fw_num_lines = 1,
        fw_total_lines = 1, fw_bytes_read = 1, fw_total_bytes = 1, fw_next_offset = None, fw_truncated = False\<rparr>)),
      Click Edit_button, Answered 0 (Whole_answer (Inr (sample_whole ''a''))), Typed ''b'', Click Save_button]"
    unfolding sample_editing_def by simp
  from file_save_guarded [OF this, where n = 0 and edited = "''b''" and original = "''a''" and current = "sample_whole ''c''"]
  show ?thesis by (simp add: file_eval)
qed

text \<open>
  What is typed while a save is in flight is discarded when the save succeeds: the editor stays
  editable during the save, the text sent is the one at the click, and after the write the editor
  shows the loaded content again, whatever was typed in between, without a conflict or a notice.
\<close>

lemma file_save_discards_typing:
  assumes "fv_loaded s = Some l" "\<not> lt_binary l" "fv_mode s = Mode_editing original draft" "fv_doc s = Some edited"
    and "fv_meta s = Some m" "em_mode m = Kind_editing" "em_editable m" "\<not> fv_busy s" "fv_calls s = []"
    and "wf_content current = original"
  shows "let s' = run file_step s [Click Save_button, Typed typed, Answered 0 (Whole_answer (Inr current)),
        Answered 0 (Write_answer (Inr ()))]
    in fv_doc s' = Some (lt_content l) \<and> fv_mode s' = Mode_view \<and> fv_toasts s' = fv_toasts s \<and>
       Writing edited \<in> set (fv_calls (run file_step s [Click Save_button, Typed typed, Answered 0 (Whole_answer (Inr current))]))"
  using assms by (simp add: file_eval)

lemma file_save_discards_typing_witness:
  "fv_doc (run file_step sample_editing [Click Save_button, Typed ''bx'', Answered 0 (Whole_answer (Inr (sample_whole ''a''))),
     Answered 0 (Write_answer (Inr ()))]) = Some ''a''"
  using file_save_discards_typing [of sample_editing "the (fv_loaded sample_editing)" "''a''" "''a''" "''b''"
      "the (fv_meta sample_editing)" "sample_whole ''a''" "''bx''"]
  by (simp add: file_eval)

end
