(* ===== verification/File_Tree.thy ===== *)
theory File_Tree
  imports Api_Types Js_Sort
begin

text \<open>
  The lazy file tree: \<^verbatim>\<open>web/src/pages/sandbox/files/FileTree.tsx\<close>.  A directory's listing is pending,
  failed or loaded; \<open>flattenRows\<close> gives the visible rows, and the keyboard moves the focus over
  them.  \<^verbatim>\<open>localeCompare\<close> is the parameter \<open>lc\<close>; which rows the virtualizer has on screen is the
  parameter \<open>rendered\<close>.
\<close>

record TreeEntryRow =
  te_entry :: FileListEntry
  te_path :: string
  te_parentPath :: string
  te_depth :: nat

datatype row_tone = Tone_dimmed | Tone_danger | Tone_warning

record TreeStatusRow =
  tr_key :: string
  tr_depth :: nat
  tr_message :: string
  tr_tone :: row_tone

datatype TreeRow = Entry_row TreeEntryRow | Status_row TreeStatusRow

datatype listing = Listing_pending | Listing_error string | Listing_data FileListResult

definition dirRank :: "FileListEntry \<Rightarrow> int" where
  "dirRank entry = (if fe_kind entry = Kind_directory then 0 else 1)"

definition entry_cmp :: "(string \<Rightarrow> string \<Rightarrow> int) \<Rightarrow> FileListEntry \<Rightarrow> FileListEntry \<Rightarrow> int" where
  "entry_cmp lc a b = (let d = dirRank a - dirRank b in if d \<noteq> 0 then d else lc (fe_name a) (fe_name b))"

definition child_path :: "string \<Rightarrow> string \<Rightarrow> string" where
  "child_path dirPath name = (if dirPath = [] then name else dirPath @ ''/'' @ name)"

definition status_row :: "string \<Rightarrow> nat \<Rightarrow> string \<Rightarrow> row_tone \<Rightarrow> TreeRow" where
  "status_row key depth message tone = Status_row \<lparr>tr_key = key, tr_depth = depth, tr_message = message, tr_tone = tone\<rparr>"

definition entry_row :: "string \<Rightarrow> nat \<Rightarrow> FileListEntry \<Rightarrow> TreeEntryRow" where
  "entry_row dirPath depth entry =
     \<lparr>te_entry = entry, te_path = child_path dirPath (fe_name entry), te_parentPath = dirPath, te_depth = depth\<rparr>"

definition loading_text :: string where
  "loading_text = ''loading'' @ [CHR 0xE2, CHR 0x80, CHR 0xA6]"

definition tail_rows :: "string \<Rightarrow> nat \<Rightarrow> FileListResult \<Rightarrow> TreeRow list" where
  "tail_rows dirPath depth result =
     (if fl_entries result = [] then [status_row (dirPath @ '':empty'') depth ''empty directory'' Tone_dimmed] else []) @
     (if fl_truncated result then [status_row (dirPath @ '':truncated'') depth
        ''Showing the first 2,000 entries returned by this directory.'' Tone_warning] else [])"

text \<open>
  The recursion descends into expanded directories only; the first argument bounds its depth, and
  \<open>None\<close> stands for a recursion deeper than that.
\<close>

primrec flattenRows :: "nat \<Rightarrow> (string \<Rightarrow> string \<Rightarrow> int) \<Rightarrow> string \<Rightarrow> nat \<Rightarrow> string list \<Rightarrow> (string \<Rightarrow> listing option) \<Rightarrow> TreeRow list option" where
  "flattenRows 0 lc dirPath depth expanded listingsByPath = None"
| "flattenRows (Suc n) lc dirPath depth expanded listingsByPath =
     (case listingsByPath dirPath of
        None \<Rightarrow> Some [status_row (dirPath @ '':loading'') depth loading_text Tone_dimmed]
      | Some Listing_pending \<Rightarrow> Some [status_row (dirPath @ '':loading'') depth loading_text Tone_dimmed]
      | Some (Listing_error message) \<Rightarrow> Some [status_row (dirPath @ '':error'') depth message Tone_danger]
      | Some (Listing_data result) \<Rightarrow>
          map_option (\<lambda>rowss. concat rowss @ tail_rows dirPath depth result)
            (those (map (\<lambda>entry.
               if fe_kind entry = Kind_directory \<and> child_path dirPath (fe_name entry) \<in> set expanded
               then map_option (Cons (Entry_row (entry_row dirPath depth entry)))
                      (flattenRows n lc (child_path dirPath (fe_name entry)) (Suc depth) expanded listingsByPath)
               else Some [Entry_row (entry_row dirPath depth entry)])
              (js_sort (entry_cmp lc) (fl_entries result)))))"

fun entry_of :: "TreeRow \<Rightarrow> TreeEntryRow option" where
  "entry_of (Entry_row r) = Some r"
| "entry_of (Status_row _) = None"

definition entry_rows :: "TreeRow list \<Rightarrow> TreeEntryRow list" where
  "entry_rows rows = List.map_filter entry_of rows"

fun row_key :: "TreeRow \<Rightarrow> string" where
  "row_key (Entry_row r) = te_path r"
| "row_key (Status_row r) = tr_key r"

section \<open>Focus and keyboard\<close>

record file_tree =
  ft_expanded :: "string list"
  ft_focused :: string
  ft_pending :: "string option"
  ft_typeahead :: string
  ft_selected :: "string option"

definition file_tree_init :: file_tree where
  "file_tree_init = \<lparr>ft_expanded = [[]], ft_focused = [], ft_pending = None, ft_typeahead = [], ft_selected = None\<rparr>"

text \<open>The effect of another sandbox or session.\<close>

definition tree_scope_changed :: "file_tree \<Rightarrow> file_tree" where
  "tree_scope_changed s = s\<lparr>ft_expanded := [[]], ft_focused := []\<rparr>"

definition focusPath :: "(string \<Rightarrow> bool) \<Rightarrow> TreeRow list \<Rightarrow> string \<Rightarrow> file_tree \<Rightarrow> file_tree" where
  "focusPath rendered rows path s = (if path \<notin> set (map row_key rows) then s
     else s\<lparr>ft_focused := path, ft_pending := (if rendered path then None else Some path)\<rparr>)"

definition child_focus_effect :: "(string \<Rightarrow> bool) \<Rightarrow> TreeRow list \<Rightarrow> file_tree \<Rightarrow> file_tree" where
  "child_focus_effect rendered rows s = (case ft_pending s of
     None \<Rightarrow> s
   | Some parentPath \<Rightarrow> (case find (\<lambda>r. te_parentPath r = parentPath) (entry_rows rows) of
       None \<Rightarrow> s
     | Some child \<Rightarrow> focusPath rendered rows (te_path child) (s\<lparr>ft_pending := None\<rparr>)))"

definition toggleDirectory :: "string \<Rightarrow> bool \<Rightarrow> file_tree \<Rightarrow> file_tree" where
  "toggleDirectory path focusFirstChild s =
     s\<lparr>ft_pending := (if path \<notin> set (ft_expanded s) \<and> focusFirstChild then Some path else ft_pending s),
       ft_expanded := (if path \<in> set (ft_expanded s) then set_delete path (ft_expanded s) else set_add path (ft_expanded s))\<rparr>"

definition activate :: "TreeEntryRow \<Rightarrow> file_tree \<Rightarrow> file_tree" where
  "activate row s = (let s1 = s\<lparr>ft_focused := te_path row\<rparr> in
     if fe_kind (te_entry row) = Kind_directory then toggleDirectory (te_path row) False s1
     else if fe_kind (te_entry row) = Kind_file then s1\<lparr>ft_selected := Some (te_path row)\<rparr>
     else s1)"

datatype tree_key = ArrowDown | ArrowUp | Home | End_key | ArrowRight | ArrowLeft | Enter_or_space | Char_key char | Other_key

fun index_of :: "string \<Rightarrow> TreeEntryRow list \<Rightarrow> nat option" where
  "index_of p [] = None"
| "index_of p (r # rs) = (case index_of p rs of Some i \<Rightarrow> Some (Suc i) | None \<Rightarrow> if te_path r = p then Some 0 else None)"

definition path_at :: "TreeEntryRow list \<Rightarrow> nat \<Rightarrow> string \<Rightarrow> string" where
  "path_at entries i d = (if i < length entries then te_path (entries ! i) else d)"

text \<open>The row that typed characters lead to: the first match after the current row, wrapping around.\<close>

definition typeahead_match :: "TreeEntryRow list \<Rightarrow> nat \<Rightarrow> string \<Rightarrow> TreeEntryRow option" where
  "typeahead_match entries currentIndex value =
     find (\<lambda>r. startsWith (toLowerCase (fe_name (te_entry r))) value)
       (drop (Suc currentIndex) entries @ take (Suc currentIndex) entries)"

text \<open>The path that a key moves the focus to, if it does.\<close>

definition key_target :: "TreeEntryRow list \<Rightarrow> file_tree \<Rightarrow> TreeEntryRow \<Rightarrow> tree_key \<Rightarrow> string option" where
  "key_target entries s row key =
     (let currentIndex = (case index_of (te_path row) entries of None \<Rightarrow> 0 | Some i \<Rightarrow> i) in
      case key of
        ArrowDown \<Rightarrow> Some (path_at entries (min (length entries - 1) (currentIndex + 1)) (te_path row))
      | ArrowUp \<Rightarrow> Some (path_at entries (currentIndex - 1) (te_path row))
      | Home \<Rightarrow> Some (path_at entries 0 (te_path row))
      | End_key \<Rightarrow> Some (path_at entries (length entries - 1) (te_path row))
      | ArrowRight \<Rightarrow>
          if fe_kind (te_entry row) = Kind_directory \<and> te_path row \<in> set (ft_expanded s)
          then map_option te_path (find (\<lambda>r. te_parentPath r = te_path row) entries) else None
      | ArrowLeft \<Rightarrow>
          if fe_kind (te_entry row) = Kind_directory \<and> te_path row \<in> set (ft_expanded s) then None
          else if te_parentPath row \<noteq> [] then Some (te_parentPath row) else None
      | Char_key c \<Rightarrow> map_option te_path (typeahead_match entries currentIndex (toLowerCase (ft_typeahead s @ [c])))
      | _ \<Rightarrow> None)"

definition onTreeKeyDown :: "(string \<Rightarrow> bool) \<Rightarrow> TreeRow list \<Rightarrow> TreeEntryRow \<Rightarrow> tree_key \<Rightarrow> bool \<Rightarrow> file_tree \<Rightarrow> file_tree" where
  "onTreeKeyDown rendered rows row key modifier s =
     (let entries = entry_rows rows;
          goto = (\<lambda>s'. case key_target entries s row key of None \<Rightarrow> s' | Some p \<Rightarrow> focusPath rendered rows p s')
      in case key of
           ArrowRight \<Rightarrow> if fe_kind (te_entry row) = Kind_directory \<and> te_path row \<notin> set (ft_expanded s)
             then toggleDirectory (te_path row) True s else goto s
         | ArrowLeft \<Rightarrow> if fe_kind (te_entry row) = Kind_directory \<and> te_path row \<in> set (ft_expanded s)
             then toggleDirectory (te_path row) False s else goto s
         | Enter_or_space \<Rightarrow> activate row s
         | Char_key c \<Rightarrow> if modifier then s else goto (s\<lparr>ft_typeahead := toLowerCase (ft_typeahead s @ [c])\<rparr>)
         | Other_key \<Rightarrow> s
         | _ \<Rightarrow> goto s)"

definition typeahead_expired :: "file_tree \<Rightarrow> file_tree" where
  "typeahead_expired s = s\<lparr>ft_typeahead := []\<rparr>"

text \<open>What a row shows: whether it can be activated, its level and whether Tab reaches it.\<close>

record tree_item =
  ti_disabled :: bool
  ti_level :: nat
  ti_expanded :: "bool option"
  ti_tabbable :: bool
  ti_selected :: bool

definition TreeItem :: "TreeEntryRow list \<Rightarrow> file_tree \<Rightarrow> string \<Rightarrow> TreeEntryRow \<Rightarrow> tree_item" where
  "TreeItem entries s selectedPath row =
     \<lparr>ti_disabled = (fe_kind (te_entry row) \<noteq> Kind_directory \<and> fe_kind (te_entry row) \<noteq> Kind_file),
      ti_level = te_depth row + 1,
      ti_expanded = (if fe_kind (te_entry row) = Kind_directory then Some (te_path row \<in> set (ft_expanded s)) else None),
      ti_tabbable = (ft_focused s = te_path row \<or>
        (ft_focused s = [] \<and> (case entries of [] \<Rightarrow> False | r # _ \<Rightarrow> te_path r = te_path row))),
      ti_selected = (selectedPath = te_path row)\<rparr>"

section \<open>Laws\<close>

text \<open>What the gateway promises of a listing: names are single path components, each listed once.\<close>

definition wf_listing :: "FileListResult \<Rightarrow> bool" where
  "wf_listing result = (distinct (map fe_name (fl_entries result)) \<and>
     (\<forall>e \<in> set (fl_entries result). fe_name e \<noteq> [] \<and> CHR ''/'' \<notin> set (fe_name e)))"

definition wf_listings :: "(string \<Rightarrow> listing option) \<Rightarrow> bool" where
  "wf_listings lf = (\<forall>p result. lf p = Some (Listing_data result) \<longrightarrow> wf_listing result)"

lemma those_None_iff: "those xs = None \<longleftrightarrow> None \<in> set xs"
  by (induction xs) (auto split: option.splits)

lemma those_map_Some: "those (map f xs) = Some ys \<Longrightarrow> ys = map (\<lambda>x. the (f x)) xs \<and> (\<forall>x \<in> set xs. f x \<noteq> None)"
  by (induction xs arbitrary: ys) (auto split: option.splits)

lemma length_child_path: "name \<noteq> [] \<Longrightarrow> length dir < length (child_path dir name)"
  by (simp add: child_path_def)

text \<open>The rows of one entry and of its subtree.\<close>

definition entry_block :: "nat \<Rightarrow> (string \<Rightarrow> string \<Rightarrow> int) \<Rightarrow> string \<Rightarrow> nat \<Rightarrow> string list \<Rightarrow> (string \<Rightarrow> listing option) \<Rightarrow> FileListEntry \<Rightarrow> TreeRow list option" where
  "entry_block n lc dir depth ex lf e =
     (if fe_kind e = Kind_directory \<and> child_path dir (fe_name e) \<in> set ex
      then map_option (Cons (Entry_row (entry_row dir depth e))) (flattenRows n lc (child_path dir (fe_name e)) (Suc depth) ex lf)
      else Some [Entry_row (entry_row dir depth e)])"

lemma flattenRows_data:
  "lf dir = Some (Listing_data r) \<Longrightarrow> flattenRows (Suc n) lc dir depth ex lf =
     map_option (\<lambda>rowss. concat rowss @ tail_rows dir depth r)
       (those (map (entry_block n lc dir depth ex lf) (js_sort (entry_cmp lc) (fl_entries r))))"
  by (simp add: entry_block_def [abs_def])

declare flattenRows.simps(2) [simp del]

lemma deeper_paths:
  assumes "q \<in> set ex" "length dir < length q"
  shows "card {p \<in> set ex. length q < length p} < card {p \<in> set ex. length dir < length p}"
proof (rule psubset_card_mono)
  show "{p \<in> set ex. length q < length p} \<subset> {p \<in> set ex. length dir < length p}"
    using assms by auto
qed simp

lemma flattenRows_defined:
  assumes "wf_listings lf"
  shows "card {p \<in> set ex. length dir < length p} < n \<Longrightarrow> flattenRows n lc dir depth ex lf \<noteq> None"
proof (induction n arbitrary: dir depth)
  case (Suc n)
  show ?case
  proof (cases "lf dir")
    case (Some l)
    show ?thesis
    proof (cases l)
      case (Listing_data r)
      have "entry_block n lc dir depth ex lf e \<noteq> None" if "e \<in> set (fl_entries r)" for e
      proof -
        have "fe_name e \<noteq> []" using assms that Some Listing_data by (auto simp: wf_listings_def wf_listing_def)
        from length_child_path [OF this] have len: "length dir < length (child_path dir (fe_name e))" .
        have "flattenRows n lc (child_path dir (fe_name e)) (Suc depth) ex lf \<noteq> None"
          if "child_path dir (fe_name e) \<in> set ex"
          using deeper_paths [OF that len] Suc.prems by (intro Suc.IH) simp
        then show ?thesis by (auto simp: entry_block_def)
      qed
      then have "None \<notin> set (map (entry_block n lc dir depth ex lf) (js_sort (entry_cmp lc) (fl_entries r)))"
        by fastforce
      then show ?thesis using Some Listing_data by (simp add: flattenRows_data those_None_iff)
    qed (use Some in \<open>simp_all add: flattenRows.simps\<close>)
  qed (simp add: flattenRows.simps)
qed simp

subsection \<open>Rows of a directory\<close>

lemma entry_rows_simps [simp]:
  "entry_rows [] = []" "entry_rows (Entry_row r # rows) = r # entry_rows rows" "entry_rows (Status_row t # rows) = entry_rows rows"
  "entry_rows (xs @ ys) = entry_rows xs @ entry_rows ys"
  by (simp_all add: entry_rows_def map_filter_def)

lemma entry_rows_tail [simp]: "entry_rows (tail_rows dir depth r) = []"
  by (simp add: tail_rows_def status_row_def)

text \<open>
  A law of every block extends to the rows of a directory: the common induction of the lemmas below.
\<close>

lemma flattenRows_cases:
  assumes "flattenRows (Suc n) lc dir depth ex lf = Some rows"
  obtains "entry_rows rows = []"
  | r where "lf dir = Some (Listing_data r)"
      "entry_rows rows = concat (map (\<lambda>e. entry_rows (the (entry_block n lc dir depth ex lf e))) (js_sort (entry_cmp lc) (fl_entries r)))"
      "\<And>e. e \<in> set (fl_entries r) \<Longrightarrow> entry_block n lc dir depth ex lf e \<noteq> None"
proof (cases "\<exists>r. lf dir = Some (Listing_data r)")
  case True
  then obtain r where r: "lf dir = Some (Listing_data r)" by blast
  from assms obtain rowss where rowss: "those (map (entry_block n lc dir depth ex lf) (js_sort (entry_cmp lc) (fl_entries r))) = Some rowss"
    "rows = concat rowss @ tail_rows dir depth r"
    by (auto simp: flattenRows_data [of lf, OF r])
  have conc: "entry_rows (concat xss) = concat (map entry_rows xss)" for xss by (induction xss) auto
  show ?thesis
    using those_map_Some [OF rowss(1)] rowss(2) r by (intro that(2)) (auto simp: conc comp_def)
next
  case False
  then have "entry_rows rows = []"
    using assms by (auto simp: flattenRows.simps status_row_def split: option.splits listing.splits)
  then show ?thesis by (rule that(1))
qed

lemma block_cases:
  assumes "entry_block n lc dir depth ex lf e = Some rows"
  obtains "entry_rows rows = [entry_row dir depth e]"
  | sub where "fe_kind e = Kind_directory" "child_path dir (fe_name e) \<in> set ex"
      "flattenRows n lc (child_path dir (fe_name e)) (Suc depth) ex lf = Some sub"
      "entry_rows rows = entry_row dir depth e # entry_rows sub"
  using assms by (auto simp: entry_block_def split: if_splits)

text \<open>A path below a directory.\<close>

definition below :: "string \<Rightarrow> string \<Rightarrow> bool" where
  "below dir p = (\<exists>rest. rest \<noteq> [] \<and> p = child_path dir rest)"

lemma below_child: "below (child_path dir name) p \<Longrightarrow> name \<noteq> [] \<Longrightarrow> below dir p"
  unfolding below_def child_path_def by (auto split: if_splits)

lemma rows_below:
  assumes "wf_listings lf"
  shows "flattenRows n lc dir depth ex lf = Some rows \<Longrightarrow> r \<in> set (entry_rows rows) \<Longrightarrow> below dir (te_path r)"
proof (induction n arbitrary: dir depth rows r)
  case (Suc n)
  from Suc.prems(1) show ?case
  proof (cases rule: flattenRows_cases)
    case (2 l)
    with Suc.prems(2) obtain e where e: "e \<in> set (fl_entries l)" "r \<in> set (entry_rows (the (entry_block n lc dir depth ex lf e)))"
      by auto
    obtain brows where b: "entry_block n lc dir depth ex lf e = Some brows" using 2(3) e(1) by auto
    have name: "fe_name e \<noteq> []" using assms e(1) 2(1) by (auto simp: wf_listings_def wf_listing_def)
    then have self: "below dir (te_path (entry_row dir depth e))" by (auto simp: below_def entry_row_def)
    from b show ?thesis
    proof (cases rule: block_cases)
      case (2 sub)
      show ?thesis using e(2) b 2 self Suc.IH [OF 2(3)] below_child name by auto
    qed (use e b self in auto)
  qed (use Suc.prems in auto)
qed simp

text \<open>The first path component below a directory tells the blocks of its entries apart.\<close>

definition component_at :: "string \<Rightarrow> string \<Rightarrow> string" where
  "component_at dir p = takeWhile (\<lambda>c. c \<noteq> CHR ''/'') (drop (if dir = [] then 0 else Suc (length dir)) p)"

lemma takeWhile_no_slash: "CHR ''/'' \<notin> set name \<Longrightarrow> takeWhile (\<lambda>c. c \<noteq> CHR ''/'') (name @ CHR ''/'' # rest) = name"
  by (induction name) auto

lemma component_child: "CHR ''/'' \<notin> set name \<Longrightarrow> component_at dir (child_path dir name) = name"
  by (auto simp: component_at_def child_path_def takeWhile_eq_all_conv)

lemma component_below:
  "below (child_path dir name) p \<Longrightarrow> name \<noteq> [] \<Longrightarrow> CHR ''/'' \<notin> set name \<Longrightarrow> component_at dir p = name"
  by (auto simp: below_def component_at_def child_path_def takeWhile_no_slash split: if_splits)

lemma block_component:
  assumes "wf_listings lf" "entry_block n lc dir depth ex lf e = Some rows" "r \<in> set (entry_rows rows)"
    and "fe_name e \<noteq> []" "CHR ''/'' \<notin> set (fe_name e)"
  shows "component_at dir (te_path r) = fe_name e"
  using assms(2)
proof (cases rule: block_cases)
  case 1
  with assms(3,5) show ?thesis by (auto simp: entry_row_def component_child)
next
  case (2 sub)
  have "component_at dir (te_path r) = fe_name e" if "r \<in> set (entry_rows sub)"
    using rows_below [OF assms(1) 2(3) that] assms(4,5) by (rule component_below)
  with 2 assms(3,5) show ?thesis by (auto simp: entry_row_def component_child)
qed

lemma below_neq: "below dir p \<Longrightarrow> p \<noteq> dir"
  by (auto simp: below_def child_path_def split: if_splits)

lemma distinct_blocks:
  assumes "distinct (map key es)" "\<And>e. e \<in> set es \<Longrightarrow> distinct (map pth (block e))"
    and "\<And>e r. e \<in> set es \<Longrightarrow> r \<in> set (block e) \<Longrightarrow> part (pth r) = key e"
  shows "distinct (map pth (concat (map block es)))"
  using assms
proof (induction es)
  case (Cons e es)
  have "pth ` set (block e) \<inter> pth ` set (concat (map block es)) = {}"
  proof (rule ccontr)
    assume "\<not> ?thesis"
    then obtain r f q where "r \<in> set (block e)" "f \<in> set es" "q \<in> set (block f)" "pth r = pth q" by auto
    with Cons.prems(3) [of e r] Cons.prems(3) [of f q] have "key e = key f" by simp
    with \<open>f \<in> set es\<close> Cons.prems(1) show False by auto
  qed
  moreover have "distinct (map pth (concat (map block es)))" using Cons by auto
  ultimately show ?case using Cons.prems(2) [of e] by auto
qed simp

lemma distinct_sorted_names:
  assumes "wf_listing l"
  shows "distinct (map fe_name (js_sort cmp (fl_entries l)))"
proof -
  have "mset (map fe_name (js_sort cmp (fl_entries l))) = mset (map fe_name (fl_entries l))" by simp
  with assms show ?thesis unfolding wf_listing_def using mset_eq_imp_distinct_iff by blast
qed

lemma rows_distinct:
  assumes "wf_listings lf"
  shows "flattenRows n lc dir depth ex lf = Some rows \<Longrightarrow> distinct (map te_path (entry_rows rows))"
proof (induction n arbitrary: dir depth rows)
  case (Suc n)
  from Suc.prems show ?case
  proof (cases rule: flattenRows_cases)
    case (2 l)
    have wf: "wf_listing l" using assms 2(1) by (auto simp: wf_listings_def)
    show ?thesis unfolding 2(2)
    proof (rule distinct_blocks [where key = fe_name and part = "component_at dir"])
      show "distinct (map fe_name (js_sort (entry_cmp lc) (fl_entries l)))" by (rule distinct_sorted_names [OF wf])
    next
      fix e assume e: "e \<in> set (js_sort (entry_cmp lc) (fl_entries l))"
      then obtain brows where b: "entry_block n lc dir depth ex lf e = Some brows" using 2(3) by fastforce
      have name: "fe_name e \<noteq> []" "CHR ''/'' \<notin> set (fe_name e)" using wf e by (auto simp: wf_listing_def)
      show "component_at dir (te_path r) = fe_name e" if "r \<in> set (entry_rows (the (entry_block n lc dir depth ex lf e)))" for r
        using block_component [OF assms b _ name] that b by simp
      from b show "distinct (map te_path (entry_rows (the (entry_block n lc dir depth ex lf e))))"
      proof (cases rule: block_cases)
        case (2 sub)
        have "te_path (entry_row dir depth e) \<notin> te_path ` set (entry_rows sub)"
          using rows_below [OF assms 2(3)] below_neq by (fastforce simp: entry_row_def)
        with 2 Suc.IH [OF 2(3)] b show ?thesis by simp
      qed (use b in simp)
    qed
  qed simp
qed simp

text \<open>Every row comes after the row of its parent directory, one level deeper.\<close>

fun parents_ok :: "string \<Rightarrow> nat \<Rightarrow> string list \<Rightarrow> TreeEntryRow list \<Rightarrow> TreeEntryRow list \<Rightarrow> bool" where
  "parents_ok dir depth ex known [] = True"
| "parents_ok dir depth ex known (r # rs) =
     ((te_parentPath r = dir \<and> te_depth r = depth \<or>
       (\<exists>k \<in> set known. te_path k = te_parentPath r \<and> te_depth r = Suc (te_depth k) \<and>
          fe_kind (te_entry k) = Kind_directory \<and> te_path k \<in> set ex)) \<and>
      parents_ok dir depth ex (known @ [r]) rs)"

lemma parents_ok_append:
  "parents_ok dir depth ex known (xs @ ys) \<longleftrightarrow> parents_ok dir depth ex known xs \<and> parents_ok dir depth ex (known @ xs) ys"
  by (induction xs arbitrary: known) auto

lemma parents_ok_mono: "parents_ok dir depth ex known rs \<Longrightarrow> set known \<subseteq> set known' \<Longrightarrow> parents_ok dir depth ex known' rs"
proof (induction rs arbitrary: known known')
  case (Cons r rs)
  have "parents_ok dir depth ex (known' @ [r]) rs"
    by (rule Cons.IH [of "known @ [r]"]) (use Cons.prems in auto)
  with Cons.prems show ?case by auto
qed simp

lemma parents_ok_shift:
  assumes "k \<in> set known" "te_path k = dir'" "depth' = Suc (te_depth k)" "fe_kind (te_entry k) = Kind_directory" "dir' \<in> set ex"
  shows "parents_ok dir' depth' ex known rs \<Longrightarrow> parents_ok dir depth ex known rs"
  using assms(1)
proof (induction rs arbitrary: known)
  case (Cons r rs)
  then have "parents_ok dir depth ex (known @ [r]) rs" by auto
  with Cons.prems assms(2-5) show ?case by auto
qed simp

lemma parents_ok_concat:
  "(\<And>rs. rs \<in> set rss \<Longrightarrow> parents_ok dir depth ex [] rs) \<Longrightarrow> parents_ok dir depth ex known (concat rss)"
proof (induction rss arbitrary: known)
  case (Cons rs rss)
  have "parents_ok dir depth ex known rs" by (rule parents_ok_mono [of dir depth ex "[]"]) (use Cons.prems in auto)
  with Cons show ?case by (auto simp: parents_ok_append)
qed simp

lemma rows_parents:
  "flattenRows n lc dir depth ex lf = Some rows \<Longrightarrow> parents_ok dir depth ex [] (entry_rows rows)"
proof (induction n arbitrary: dir depth rows)
  case (Suc n)
  from Suc.prems show ?case
  proof (cases rule: flattenRows_cases)
    case (2 l)
    have "parents_ok dir depth ex [] (entry_rows (the (entry_block n lc dir depth ex lf e)))"
      if "e \<in> set (fl_entries l)" for e
    proof -
      let ?r = "entry_row dir depth e"
      obtain brows where b: "entry_block n lc dir depth ex lf e = Some brows" using 2(3) \<open>e \<in> _\<close> by auto
      from b show ?thesis
      proof (cases rule: block_cases)
        case (2 sub)
        have "parents_ok (child_path dir (fe_name e)) (Suc depth) ex [?r] (entry_rows sub)"
          using Suc.IH [OF 2(3)] by (rule parents_ok_mono) simp
        then have "parents_ok dir depth ex [?r] (entry_rows sub)"
          by (rule parents_ok_shift [where k = ?r, rotated -1]) (use 2 in \<open>simp_all add: entry_row_def\<close>)
        with 2 b show ?thesis by (simp add: entry_row_def)
      qed (use b in \<open>simp add: entry_row_def\<close>)
    qed
    then show ?thesis unfolding 2(2) by (intro parents_ok_concat) auto
  qed simp
qed simp

lemma parents_ok_visible:
  "parents_ok dir depth ex known rs \<Longrightarrow> r \<in> set rs \<Longrightarrow>
   te_parentPath r = dir \<or> (\<exists>k \<in> set known \<union> set rs. te_path k = te_parentPath r)"
proof (induction rs arbitrary: known)
  case (Cons q rs)
  then show ?case by (cases "r = q") fastforce+
qed simp

lemma index_of_bound: "index_of p rs = Some i \<Longrightarrow> i < length rs"
  by (induction rs arbitrary: i) (auto split: option.splits if_splits)

lemma path_at_in: "i < length entries \<Longrightarrow> path_at entries i d \<in> te_path ` set entries"
  by (simp add: path_at_def)

lemma key_target_visible:
  assumes "row \<in> set entries" "te_parentPath row \<noteq> [] \<Longrightarrow> te_parentPath row \<in> te_path ` set entries"
    and "key_target entries s row key = Some p"
  shows "p \<in> te_path ` set entries"
proof -
  define i where "i = (case index_of (te_path row) entries of None \<Rightarrow> 0 | Some i \<Rightarrow> i)"
  have ne: "0 < length entries" using assms(1) by (cases entries) auto
  then have i: "i < length entries" by (auto simp: i_def dest: index_of_bound split: option.splits)
  have found: "find P xs = Some r \<Longrightarrow> r \<in> set xs" for P and xs :: "TreeEntryRow list" and r
    by (auto simp: find_Some_iff)
  show ?thesis
    using assms(2,3) ne i unfolding key_target_def i_def [symmetric] Let_def typeahead_match_def
    by (cases key) (auto simp: path_at_in dest!: found in_set_dropD in_set_takeD split: if_splits)
qed

section \<open>Properties\<close>

text \<open>
  C13: The tree is always drawn.  With listings whose entries are path components, each named once,
  the recursion over expanded directories ends within one level more than there are expanded paths;
  no two rows have the same path, and every row stands directly below the root or after the row of
  its parent, an expanded directory, one level deeper.
\<close>

theorem file_tree_rows:
  assumes "wf_listings lf" "length ex < n"
  shows "\<exists>rows. flattenRows n lc [] 0 ex lf = Some rows \<and> distinct (map te_path (entry_rows rows)) \<and>
    parents_ok [] 0 ex [] (entry_rows rows)"
proof -
  have "card {p \<in> set ex. length ([] :: string) < length p} \<le> length ex"
    by (rule order_trans [OF card_mono [of "set ex"]]) (auto simp: card_length)
  with assms(2) have "flattenRows n lc [] 0 ex lf \<noteq> None" by (intro flattenRows_defined assms(1)) simp
  then obtain rows where "flattenRows n lc [] 0 ex lf = Some rows" by blast
  then show ?thesis using rows_distinct [OF assms(1)] rows_parents by blast
qed

definition sample_listing :: "string \<Rightarrow> listing option" where
  "sample_listing p = (if p = [] then Some (Listing_data \<lparr>fl_path = [], fl_entries =
     [\<lparr>fe_name = ''f'', fe_kind = Kind_file, fe_size = None\<rparr>, \<lparr>fe_name = ''d'', fe_kind = Kind_directory, fe_size = None\<rparr>],
     fl_truncated = False\<rparr>) else None)"

lemma sample_listing_wf: "wf_listings sample_listing"
  by (auto simp: wf_listings_def wf_listing_def sample_listing_def)

theorem file_tree_rows_witness:
  "\<exists>rows. flattenRows 3 (\<lambda>_ _. 0) [] 0 [[], ''d''] sample_listing = Some rows \<and> distinct (map te_path (entry_rows rows))"
  using file_tree_rows [OF sample_listing_wf, of "[[], ''d'']" 3 "\<lambda>_ _. 0"] by auto

text \<open>
  The keyboard never loses the focus: from any visible row every key that moves the focus moves
  it to a row that is visible, also from a nested row to its parent and by typed characters.
\<close>

lemma file_tree_keyboard:
  assumes "flattenRows n lc [] 0 ex lf = Some rows" "row \<in> set (entry_rows rows)"
    and "key_target (entry_rows rows) s row key = Some p"
  shows "ft_focused (focusPath rendered rows p s) = p \<and> p \<in> te_path ` set (entry_rows rows)"
proof -
  have "te_parentPath row \<noteq> [] \<Longrightarrow> te_parentPath row \<in> te_path ` set (entry_rows rows)"
    using parents_ok_visible [OF rows_parents [OF assms(1)] assms(2)] by (auto simp: image_iff) metis
  from key_target_visible [OF assms(2) this assms(3)] have p: "p \<in> te_path ` set (entry_rows rows)" .
  have "p \<in> set (map row_key rows)" if "p \<in> te_path ` set (entry_rows rows)" for rows
    using that
  proof (induction rows)
    case (Cons r rows)
    then show ?case by (cases r) auto
  qed simp
  from this [OF p] p show ?thesis by (simp add: focusPath_def)
qed

lemma file_tree_keyboard_witness:
  "ft_focused (focusPath (\<lambda>_. True) (the (flattenRows 3 (\<lambda>_ _. 0) [] 0 [[]] sample_listing)) ''f'' file_tree_init) = ''f''"
  using file_tree_keyboard [of 3 "\<lambda>_ _. 0" "[[]]" sample_listing "the (flattenRows 3 (\<lambda>_ _. 0) [] 0 [[]] sample_listing)"
      "entry_row [] 0 \<lparr>fe_name = ''d'', fe_kind = Kind_directory, fe_size = None\<rparr>" file_tree_init ArrowDown "''f''" "\<lambda>_. True"]
  by (simp add: numeral_3_eq_3 flattenRows.simps sample_listing_def entry_cmp_def dirRank_def entry_row_def child_path_def
      tail_rows_def key_target_def path_at_def file_tree_init_def)

end
