(* ===== verification/Observability_Api.thy ===== *)
theory Observability_Api
  imports Rpc
begin

text \<open>
  The requests of \<^verbatim>\<open>web/src/api/observability.ts\<close>.  Answers are JSON values; \<open>fetch\<close> is the browser's
  fetch as in the RPC client.  An abort signal only cancels a request and is not modelled.
\<close>

definition fetchObservabilityView :: "(http_request \<Rightarrow> fetch_outcome) \<Rightarrow> string \<Rightarrow> string \<Rightarrow> (string \<times> json) list \<Rightarrow> RpcError + json" where
  "fetchObservabilityView fetch sandboxId operation args = rpc fetch operation (sandboxScope sandboxId) args"

definition fetchFleetSnapshot :: "(http_request \<Rightarrow> fetch_outcome) \<Rightarrow> RpcError + json" where
  "fetchFleetSnapshot fetch = rpc fetch ''snapshot'' systemScope []"

definition fetchSandboxSnapshot :: "(http_request \<Rightarrow> fetch_outcome) \<Rightarrow> string \<Rightarrow> RpcError + json" where
  "fetchSandboxSnapshot fetch sandboxId = map_sum id (\<lambda>snapshot. JObj [(''sandboxes'', JArr [snapshot])])
     (fetchObservabilityView fetch sandboxId ''snapshot'' [])"

definition fetchCgroup :: "(http_request \<Rightarrow> fetch_outcome) \<Rightarrow> string \<Rightarrow> string \<Rightarrow> int \<Rightarrow> RpcError + json" where
  "fetchCgroup fetch sandboxId scope windowMs =
     fetchObservabilityView fetch sandboxId ''cgroup'' [(''scope'', JStr scope), (''window_ms'', JNum windowMs)]"

definition fetchSandboxResources :: "(http_request \<Rightarrow> fetch_outcome) \<Rightarrow> string \<Rightarrow> int \<Rightarrow> RpcError + json" where
  "fetchSandboxResources fetch sandboxId windowMs = fetchObservabilityView fetch sandboxId ''resources'' [(''window_ms'', JNum windowMs)]"

definition fetchFleetResources :: "(http_request \<Rightarrow> fetch_outcome) \<Rightarrow> RpcError + json" where
  "fetchFleetResources fetch = rpc fetch ''resources'' systemScope []"

definition fetchTopology :: "(http_request \<Rightarrow> fetch_outcome) \<Rightarrow> string \<Rightarrow> RpcError + json" where
  "fetchTopology fetch sandboxId = fetchObservabilityView fetch sandboxId ''topology'' []"

definition fetchDaemonSelf :: "(http_request \<Rightarrow> fetch_outcome) \<Rightarrow> string \<Rightarrow> RpcError + json" where
  "fetchDaemonSelf fetch sandboxId = fetchObservabilityView fetch sandboxId ''daemon'' []"

definition fetchTrace :: "(http_request \<Rightarrow> fetch_outcome) \<Rightarrow> string \<Rightarrow> string \<Rightarrow> RpcError + json" where
  "fetchTrace fetch sandboxId traceId = fetchObservabilityView fetch sandboxId ''trace'' [(''trace_id'', JStr traceId)]"

text \<open>
  The filters of an event query; an empty name is no filter.  Numbers that are not finite are sent as
  null; \<open>show_number\<close> is the text of a number that is not whole.
\<close>

record event_filters =
  ef_name :: "string option"
  ef_sinceMs :: "jsnum option"
  ef_lastN :: "jsnum option"

fun num_json :: "(rat \<Rightarrow> string) \<Rightarrow> jsnum \<Rightarrow> json" where
  "num_json show_number (Fin q) = (if of_int (floor q) = q then JNum (floor q) else JDec (show_number q))"
| "num_json show_number _ = JNull"

definition event_args :: "(rat \<Rightarrow> string) \<Rightarrow> event_filters \<Rightarrow> (string \<times> json) list" where
  "event_args show_number filters =
     (case ef_name filters of None \<Rightarrow> [] | Some n \<Rightarrow> if n = [] then [] else [(''name'', JStr n)]) @
     (case ef_sinceMs filters of None \<Rightarrow> [] | Some t \<Rightarrow> [(''since_ms'', num_json show_number t)]) @
     (case ef_lastN filters of None \<Rightarrow> [] | Some n \<Rightarrow> [(''last_n'', num_json show_number n)])"

definition fetchEvents :: "(rat \<Rightarrow> string) \<Rightarrow> (http_request \<Rightarrow> fetch_outcome) \<Rightarrow> string \<Rightarrow> event_filters \<Rightarrow> RpcError + json" where
  "fetchEvents show_number fetch sandboxId filters =
     fetchObservabilityView fetch sandboxId ''events'' (event_args show_number filters)"

definition fetchLayerStack :: "(http_request \<Rightarrow> fetch_outcome) \<Rightarrow> string \<Rightarrow> RpcError + json" where
  "fetchLayerStack fetch sandboxId = fetchObservabilityView fetch sandboxId ''layerstack'' []"

definition fetchLayerStackWorkspace :: "(http_request \<Rightarrow> fetch_outcome) \<Rightarrow> string \<Rightarrow> string \<Rightarrow> RpcError + json" where
  "fetchLayerStackWorkspace fetch sandboxId workspaceId =
     fetchObservabilityView fetch sandboxId ''layerstack'' [(''workspace_id'', JStr workspaceId)]"

definition fetchLayerStackLayer :: "(http_request \<Rightarrow> fetch_outcome) \<Rightarrow> string \<Rightarrow> string \<Rightarrow> RpcError + json" where
  "fetchLayerStackLayer fetch sandboxId layerId =
     fetchObservabilityView fetch sandboxId ''layerstack'' [(''layer_id'', JStr layerId)]"

end
