(* ===== verification/Layer_Stack.thy ===== *)
theory Layer_Stack
  imports Api_Types Rpc Js_Number Machine
begin

text \<open>
  The layer stack view: \<^verbatim>\<open>web/src/pages/sandbox/observability/LayerStackView.tsx\<close>.  Its polls answer with
  events; the query library keeps the last answer while another key is loading, so an answer's own
  key is compared with the selection.
\<close>

section \<open>The depth trend\<close>

text \<open>\<open>depthRings\<close> is a variable of the module; \<open>recordDepth\<close> returns the ring and the updated map.\<close>

definition recordDepth :: "string \<Rightarrow> nat \<Rightarrow> (string \<times> nat list) list \<Rightarrow> nat list \<times> (string \<times> nat list) list" where
  "recordDepth sandboxId depth rings =
     (let ring = (case map_of rings sandboxId of None \<Rightarrow> [] | Some r \<Rightarrow> r) in
      if ring = [] \<or> at_last ring \<noteq> Some depth
      then (let pushed = ring @ [depth]; kept = (if 24 < length pushed then tl pushed else pushed)
            in (kept, map_set sandboxId kept rings))
      else (ring, rings))"

section \<open>Squashable layers\<close>

definition layer_free :: "StackLayer list \<Rightarrow> nat \<Rightarrow> bool" where
  "layer_free layers i = (i \<noteq> length layers - 1 \<and> ly_leased_by_workspaces (layers ! i) = 0 \<and> ly_booked_by (layers ! i) = [])"

definition flush :: "nat \<Rightarrow> nat list \<times> nat option \<Rightarrow> nat list \<times> nat option" where
  "flush end = (\<lambda>(marks, runStart).
     (case runStart of None \<Rightarrow> marks
      | Some k \<Rightarrow> if 2 \<le> int end - int k then foldl (\<lambda>m i. set_add i m) marks [k..<end] else marks, None))"

definition squash_step :: "StackLayer list \<Rightarrow> nat list \<times> nat option \<Rightarrow> nat \<Rightarrow> nat list \<times> nat option" where
  "squash_step layers = (\<lambda>(marks, runStart) i.
     (let runStart' = (if layer_free layers i \<and> runStart = None then Some i else runStart)
      in if layer_free layers i then (marks, runStart') else flush i (marks, runStart')))"

definition squashRuns :: "StackLayer list \<Rightarrow> nat list" where
  "squashRuns layers = fst (flush (length layers) (foldl (squash_step layers) ([], None) [0..<length layers]))"

section \<open>The view\<close>

definition ALL_WORKSPACES :: string where
  "ALL_WORKSPACES = ''__all__''"

record layer_view =
  lv_workspaceId :: string
  lv_selectedLayerId :: "string option"
  lv_workspaces :: "string list"
  lv_stack :: "LayerStackResult option"
  lv_stackError :: "RpcError option"
  lv_workspaceDetail :: "LayerStackWorkspaceResult option"
  lv_layerDetail :: "LayerStackLayerResult option"

definition view_layers :: "layer_view \<Rightarrow> StackLayer list" where
  "view_layers s = (case lv_stack s of None \<Rightarrow> [] | Some r \<Rightarrow> ls_layers r)"

definition maxBytes :: "StackLayer list \<Rightarrow> nat" where
  "maxBytes layers = foldl max 1 (map ly_bytes layers)"

definition selectedLayer :: "layer_view \<Rightarrow> StackLayer option" where
  "selectedLayer s = find (\<lambda>l. Some (ly_layer_id l) = lv_selectedLayerId s) (view_layers s)"

definition workspaceData :: "layer_view \<Rightarrow> LayerStackWorkspaceResult option" where
  "workspaceData s = (case lv_workspaceDetail s of None \<Rightarrow> None
     | Some d \<Rightarrow> if lw_workspace d = lv_workspaceId s then Some d else None)"

definition layerData :: "layer_view \<Rightarrow> LayerStackLayerResult option" where
  "layerData s = (case lv_layerDetail s of None \<Rightarrow> None
     | Some d \<Rightarrow> if Some (ll_layer_id d) = lv_selectedLayerId s then Some d else None)"

text \<open>The two queries of details and whether they are enabled.\<close>

definition workspace_query :: "layer_view \<Rightarrow> string option" where
  "workspace_query s = (if lv_workspaceId s \<noteq> ALL_WORKSPACES then Some (lv_workspaceId s) else None)"

definition layer_query :: "layer_view \<Rightarrow> string option" where
  "layer_query s = lv_selectedLayerId s"

definition workspace_effect :: "layer_view \<Rightarrow> layer_view" where
  "workspace_effect s = (if lv_workspaceId s \<noteq> ALL_WORKSPACES \<and> lv_workspaceId s \<notin> set (lv_workspaces s)
     then s\<lparr>lv_workspaceId := ALL_WORKSPACES\<rparr> else s)"

definition layer_effect :: "layer_view \<Rightarrow> layer_view" where
  "layer_effect s = (case view_layers s of
     [] \<Rightarrow> s\<lparr>lv_selectedLayerId := None\<rparr>
   | l # ls \<Rightarrow> if lv_selectedLayerId s = None \<or> lv_selectedLayerId s = Some [] \<or>
         lv_selectedLayerId s \<notin> Some ` ly_layer_id ` set (l # ls)
       then s\<lparr>lv_selectedLayerId := Some (ly_layer_id l)\<rparr> else s)"

datatype layer_event = Stack_answered LayerStackResult | Stack_failed RpcError | Workspaces_changed "string list"
  | Choose_workspace "string option" | Choose_layer string
  | Workspace_answered LayerStackWorkspaceResult | Layer_answered LayerStackLayerResult

fun layer_handle :: "layer_view \<Rightarrow> layer_event \<Rightarrow> layer_view" where
  "layer_handle s (Stack_answered r) = s\<lparr>lv_stack := Some r, lv_stackError := None\<rparr>"
| "layer_handle s (Stack_failed e) = s\<lparr>lv_stackError := Some e\<rparr>"
| "layer_handle s (Workspaces_changed ws) = s\<lparr>lv_workspaces := ws\<rparr>"
| "layer_handle s (Choose_workspace w) = s\<lparr>lv_workspaceId := (case w of None \<Rightarrow> ALL_WORKSPACES | Some i \<Rightarrow> i)\<rparr>"
| "layer_handle s (Choose_layer i) = s\<lparr>lv_selectedLayerId := Some i\<rparr>"
| "layer_handle s (Workspace_answered d) = s\<lparr>lv_workspaceDetail := Some d\<rparr>"
| "layer_handle s (Layer_answered d) = s\<lparr>lv_layerDetail := Some d\<rparr>"

definition layer_step :: "layer_view \<Rightarrow> layer_event \<Rightarrow> layer_view" where
  "layer_step s e = layer_effect (workspace_effect (layer_handle s e))"

definition layer_init :: "string list \<Rightarrow> layer_view" where
  "layer_init ws = \<lparr>lv_workspaceId = ALL_WORKSPACES, lv_selectedLayerId = None, lv_workspaces = ws, lv_stack = None,
     lv_stackError = None, lv_workspaceDetail = None, lv_layerDetail = None\<rparr>"

text \<open>Without a confirmed stack an error replaces the view; otherwise it is a notice above it.\<close>

datatype stack_notice = Stack_unavailable string | Stack_stale string | Stack_current

definition stack_notice_of :: "layer_view \<Rightarrow> stack_notice" where
  "stack_notice_of s = (case lv_stackError s of None \<Rightarrow> Stack_current
     | Some e \<Rightarrow> if lv_stack s = None then Stack_unavailable (err_message e) else Stack_stale (err_message e))"

section \<open>Rows and panels\<close>

record layer_row =
  lr_label :: string
  lr_width :: rat
  lr_leases :: string
  lr_tooltip :: string
  lr_leased :: bool
  lr_squashable :: bool
  lr_selected :: bool

definition LayerRow :: "layer_view \<Rightarrow> nat \<Rightarrow> layer_row" where
  "LayerRow s i = (let layers = view_layers s; l = layers ! i; total_layers = length layers; booked = ly_booked_by l in
     \<lparr>lr_label = (if i = total_layers - 1 then ''base'' else ''L'' @ show_nat (total_layers - i - 1)),
      lr_width = max (of_nat (ly_bytes l) / of_nat (maxBytes layers) * 100) 2,
      lr_leases = show_nat (ly_leased_by_workspaces l) @ '' leases'' @
        (if booked \<noteq> [] then '' +'' @ show_nat (length booked) @ ''b'' else []),
      lr_tooltip = show_nat (ly_leased_by_workspaces l) @ '' workspace lease(s)'' @
        (if booked \<noteq> [] then [CHR '' '', CHR 0xB7, CHR '' ''] @ ''booked by '' @ join '', '' booked else []),
      lr_leased = (0 < ly_leased_by_workspaces l \<or> booked \<noteq> []),
      lr_squashable = (i \<in> set (squashRuns layers)),
      lr_selected = (Some (ly_layer_id l) = lv_selectedLayerId s)\<rparr>)"

definition layer_rows :: "layer_view \<Rightarrow> layer_row list" where
  "layer_rows s = map (LayerRow s) [0..<length (view_layers s)]"

fun entryKindLabel :: "LayerStackLayerEntryKind \<Rightarrow> string" where
  "entryKindLabel Le_directory = ''dir''"
| "entryKindLabel Le_opaque_dir = ''opaque''"
| "entryKindLabel Le_symlink = ''link''"
| "entryKindLabel Le_file = ''file''"
| "entryKindLabel Le_delete = ''delete''"

fun entryKindColor :: "LayerStackLayerEntryKind \<Rightarrow> string" where
  "entryKindColor Le_delete = ''red''"
| "entryKindColor Le_directory = ''blue''"
| "entryKindColor Le_opaque_dir = ''yellow''"
| "entryKindColor _ = ''gray''"

datatype 'a panel = Panel_error string | Panel_loading | Panel_data 'a | Panel_empty

definition panel_of :: "'a option \<Rightarrow> RpcError option \<Rightarrow> bool \<Rightarrow> 'a panel" where
  "panel_of d err fetching = (case d of Some x \<Rightarrow> Panel_data x
     | None \<Rightarrow> (case err of Some e \<Rightarrow> Panel_error (err_message e) | None \<Rightarrow> if fetching then Panel_loading else Panel_empty))"

definition LayerDeltaPanel :: "layer_view \<Rightarrow> RpcError option \<Rightarrow> bool \<Rightarrow> LayerStackLayerResult panel" where
  "LayerDeltaPanel s err fetching = panel_of (layerData s) err fetching"

text \<open>The lines of a layer's changes; the note says that the gateway cut the list.\<close>

definition LayerEntryList :: "LayerStackLayerResult \<Rightarrow> (string \<times> string) list \<times> string option" where
  "LayerEntryList d = (if ll_entries d = [] then ([], Some ''no changed paths'')
     else (map (\<lambda>e. (entryKindLabel (le_kind e), le_path e)) (ll_entries d),
       if ll_truncated d then Some ''Showing the first 500 entries returned by the backend.'' else None))"

definition WorkspacePanel :: "layer_view \<Rightarrow> RpcError option \<Rightarrow> bool \<Rightarrow> string + LayerStackWorkspaceResult panel" where
  "WorkspacePanel s err fetching = (if lv_workspaceId s = ALL_WORKSPACES
     then Inl (let n = length (lv_workspaces s) in show_nat n @ '' live workspace'' @ (if n = 1 then [] else ''s''))
     else Inr (panel_of (workspaceData s) err fetching))"

section \<open>The squashable runs\<close>

definition in_run :: "StackLayer list \<Rightarrow> nat \<Rightarrow> bool" where
  "in_run layers i = (layer_free layers i \<and> ((0 < i \<and> layer_free layers (i - 1)) \<or> (Suc i < length layers \<and> layer_free layers (Suc i))))"

text \<open>After the indices below \<open>n\<close>: the open run, and the marks of the closed ones.\<close>

definition run_open :: "StackLayer list \<Rightarrow> nat \<Rightarrow> nat option \<Rightarrow> bool" where
  "run_open layers n start = (case start of
     None \<Rightarrow> n = 0 \<or> \<not> layer_free layers (n - 1)
   | Some k \<Rightarrow> k < n \<and> (\<forall>i. k \<le> i \<and> i < n \<longrightarrow> layer_free layers i) \<and> (k = 0 \<or> \<not> layer_free layers (k - 1)))"

definition squash_inv :: "StackLayer list \<Rightarrow> nat \<Rightarrow> nat list \<times> nat option \<Rightarrow> bool" where
  "squash_inv layers n = (\<lambda>(marks, start). run_open layers n start \<and>
     set marks = {i. i < (case start of None \<Rightarrow> n | Some k \<Rightarrow> k) \<and> in_run layers i})"

lemma set_flush: "set (fst (flush n (marks, start))) =
    set marks \<union> (case start of None \<Rightarrow> {} | Some k \<Rightarrow> if k + 2 \<le> n then {k..<n} else {})"
  by (auto simp: flush_def set_foldl_set_add split: option.splits)

lemma flush_inv:
  assumes "squash_inv layers n (marks, start)" "n = length layers \<or> \<not> layer_free layers n" "n \<le> length layers"
  shows "set (fst (flush n (marks, start))) = {i. i < n \<and> in_run layers i}"
proof (cases start)
  case None
  with assms(1) show ?thesis by (simp add: set_flush squash_inv_def)
next
  case (Some k)
  then have run: "k < n" "\<forall>i. k \<le> i \<and> i < n \<longrightarrow> layer_free layers i" "k = 0 \<or> \<not> layer_free layers (k - 1)"
    and marks: "set marks = {i. i < k \<and> in_run layers i}"
    using assms(1) by (auto simp: squash_inv_def run_open_def)
  have "in_run layers i \<longleftrightarrow> k + 2 \<le> n" if "k \<le> i" "i < n" for i
  proof
    assume r: "in_run layers i"
    show "k + 2 \<le> n"
    proof (rule ccontr)
      assume "\<not> k + 2 \<le> n"
      with that run(1) have "i = k" "n = Suc k" by auto
      with r run(3) assms(2) show False by (auto simp: in_run_def)
    qed
  next
    assume n: "k + 2 \<le> n"
    show "in_run layers i"
    proof (cases "i = k")
      case True
      with n that run(2) assms(3) show ?thesis by (simp add: in_run_def)
    next
      case False
      with that have "k \<le> i - 1" "i - 1 < n" "0 < i" by auto
      with that run(2) show ?thesis unfolding in_run_def by blast
    qed
  qed
  with marks run(1) Some show ?thesis by (auto simp: set_flush)
qed

lemma squash_step_inv:
  assumes "squash_inv layers n (marks, start)" "n < length layers"
  shows "squash_inv layers (Suc n) (squash_step layers (marks, start) n)"
proof (cases "layer_free layers n")
  case True
  show ?thesis
  proof (cases start)
    case None
    with True have step: "squash_step layers (marks, start) n = (marks, Some n)" by (simp add: squash_step_def)
    have "\<forall>i. n \<le> i \<and> i < Suc n \<longrightarrow> layer_free layers i" using True by (auto simp: less_Suc_eq)
    with None assms(1) show ?thesis unfolding step by (simp add: squash_inv_def run_open_def)
  next
    case (Some k)
    with True have step: "squash_step layers (marks, start) n = (marks, Some k)" by (simp add: squash_step_def)
    have "\<forall>i. k \<le> i \<and> i < n \<longrightarrow> layer_free layers i" using Some assms(1) by (simp add: squash_inv_def run_open_def)
    then have "\<forall>i. k \<le> i \<and> i < Suc n \<longrightarrow> layer_free layers i" using True by (auto simp: less_Suc_eq)
    with Some assms(1) show ?thesis unfolding step by (simp add: squash_inv_def run_open_def)
  qed
next
  case False
  with flush_inv [OF assms(1)] assms(2) have "set (fst (flush n (marks, start))) = {i. i < n \<and> in_run layers i}" by simp
  also have "\<dots> = {i. i < Suc n \<and> in_run layers i}" using False by (auto simp: in_run_def less_Suc_eq)
  finally show ?thesis using False by (cases start) (simp_all add: squash_step_def squash_inv_def run_open_def flush_def Let_def)
qed

lemma squash_loop_inv: "n \<le> length layers \<Longrightarrow> squash_inv layers n (foldl (squash_step layers) ([], None) [0..<n])"
proof (induction n)
  case 0
  show ?case by (simp add: squash_inv_def run_open_def)
next
  case (Suc n)
  then show ?case using squash_step_inv by (cases "foldl (squash_step layers) ([], None) [0..<n]") auto
qed

lemma set_squashRuns: "set (squashRuns layers) = {i. i < length layers \<and> in_run layers i}"
proof -
  obtain m t where mt: "foldl (squash_step layers) ([], None) [0..<length layers] = (m, t)" by fastforce
  show ?thesis unfolding squashRuns_def mt using squash_loop_inv [of "length layers" layers] mt by (intro flush_inv) auto
qed

section \<open>The depth ring\<close>

definition ring_of :: "(string \<times> nat list) list \<Rightarrow> string \<Rightarrow> nat list" where
  "ring_of rings i = (case map_of rings i of None \<Rightarrow> [] | Some r \<Rightarrow> r)"

lemma remdups_adj_snoc: "remdups_adj (xs @ [x]) = (if xs \<noteq> [] \<and> last xs = x then remdups_adj xs else remdups_adj xs @ [x])"
  by (induction xs rule: remdups_adj.induct) auto

lemma recordDepth_ring:
  "ring_of (snd (recordDepth i d rings)) j = (if j = i then fst (recordDepth i d rings) else ring_of rings j)"
  by (auto simp: recordDepth_def ring_of_def Let_def split: option.splits)

lemma slice_last_push:
  "slice_last 24 (xs @ [x]) = (let p = slice_last 24 xs @ [x] in if 24 < length p then tl p else p)"
proof (cases "24 \<le> length xs")
  case True
  then have n: "Suc (length xs - 24) = length xs - 23" by simp
  from True show ?thesis by (simp add: slice_last_def Let_def tl_drop drop_Suc [symmetric] n)
qed (simp add: slice_last_def Let_def)

lemma recordDepth_history:
  assumes "ring_of rings i = slice_last 24 (remdups_adj ds)"
  shows "fst (recordDepth i d rings) = slice_last 24 (remdups_adj (ds @ [d]))"
proof -
  have ring: "(case map_of rings i of None \<Rightarrow> [] | Some r \<Rightarrow> r) = slice_last 24 (remdups_adj ds)"
    using assms by (simp add: ring_of_def)
  have l: "at_last (slice_last 24 (remdups_adj ds)) = (if ds = [] then None else Some (last ds))"
    by (subst at_last_slice_last) (simp_all add: at_last_def)
  then have e: "slice_last 24 (remdups_adj ds) = [] \<longleftrightarrow> ds = []" by (metis at_last_None_iff option.distinct(1))
  show ?thesis
  proof (cases "ds \<noteq> [] \<and> last ds = d")
    case True
    then show ?thesis by (simp add: recordDepth_def ring l e remdups_adj_snoc Let_def)
  next
    case False
    have "slice_last 24 (remdups_adj ds @ [d]) = (let p = slice_last 24 (remdups_adj ds) @ [d] in if 24 < length p then tl p else p)"
      by (rule slice_last_push)
    with False show ?thesis by (auto simp: recordDepth_def ring l e remdups_adj_snoc Let_def)
  qed
qed

section \<open>The selection\<close>

definition selection_ok :: "layer_view \<Rightarrow> bool" where
  "selection_ok s = ((lv_workspaceId s = ALL_WORKSPACES \<or> lv_workspaceId s \<in> set (lv_workspaces s)) \<and>
     (if view_layers s = [] then lv_selectedLayerId s = None
      else lv_selectedLayerId s \<in> Some ` ly_layer_id ` set (view_layers s)))"

lemma effects_select: "selection_ok (layer_effect (workspace_effect s))"
proof -
  have w: "lv_workspaceId (workspace_effect s) = ALL_WORKSPACES \<or> lv_workspaceId (workspace_effect s) \<in> set (lv_workspaces (workspace_effect s))"
    by (auto simp: workspace_effect_def)
  have keep: "lv_workspaceId (layer_effect t) = lv_workspaceId t" "lv_workspaces (layer_effect t) = lv_workspaces t"
    "view_layers (layer_effect t) = view_layers t" for t
    by (auto simp: layer_effect_def view_layers_def split: list.splits)
  have "if view_layers t = [] then lv_selectedLayerId (layer_effect t) = None
      else lv_selectedLayerId (layer_effect t) \<in> Some ` ly_layer_id ` set (view_layers t)" for t
    by (auto simp: layer_effect_def split: list.splits)
  with w show ?thesis by (simp add: selection_ok_def keep)
qed

lemma init_select: "selection_ok (layer_init ws)"
  by (simp add: selection_ok_def layer_init_def view_layers_def)

interpretation layer_selection: event_machine layer_step selection_ok
  by unfold_locales (simp add: layer_step_def effects_select)

lemma maxBytes_bounds: "1 \<le> maxBytes ls \<and> (\<forall>l \<in> set ls. ly_bytes l \<le> maxBytes ls)"
proof -
  have "a \<le> foldl max a xs \<and> (\<forall>x \<in> set xs. x \<le> foldl max a xs)" for a :: nat and xs
  proof (induction xs arbitrary: a)
    case (Cons x xs)
    from Cons.IH [of "max a x"] show ?case by auto
  qed simp
  from this [of 1 "map ly_bytes ls"] show ?thesis by (simp add: maxBytes_def)
qed

section \<open>Properties\<close>

text \<open>
  The marks for squashing are exact: a layer is marked if and only if it is free and stands in a
  run of at least two free layers, where a layer is free when it is not the base and has neither a
  lease nor a booking.  So a marked layer is never the base and never in use.
\<close>

lemma squashRuns_exact:
  "set (squashRuns layers) = {i. i < length layers \<and> layer_free layers i \<and>
     ((0 < i \<and> layer_free layers (i - 1)) \<or> (Suc i < length layers \<and> layer_free layers (Suc i)))}"
  by (auto simp: set_squashRuns in_run_def)

text \<open>
  What the layer view shows belongs to what is selected.  In every reachable state the selected
  workspace is one of the snapshot's or none, the selected layer is a layer of the stack and there is
  one unless the stack is empty; the details shown are those of the selection although the last
  answer may belong to another; and each bar takes from 2 to 100 percent.
\<close>

lemma layer_view_consistent:
  assumes "s = run layer_step (layer_init ws) es"
  shows "(lv_workspaceId s = ALL_WORKSPACES \<or> lv_workspaceId s \<in> set (lv_workspaces s)) \<and>
    (view_layers s = [] \<longleftrightarrow> selectedLayer s = None) \<and>
    (\<forall>d. layerData s = Some d \<longrightarrow> (\<exists>l \<in> set (view_layers s). ly_layer_id l = ll_layer_id d \<and> lv_selectedLayerId s = Some (ll_layer_id d))) \<and>
    (\<forall>d. workspaceData s = Some d \<longrightarrow> lw_workspace d = lv_workspaceId s) \<and>
    (\<forall>r \<in> set (layer_rows s). 2 \<le> lr_width r \<and> lr_width r \<le> 100)"
proof -
  have ok: "selection_ok s" unfolding assms by (rule layer_selection.inv_run [OF init_select])
  have "(view_layers s = [] \<longleftrightarrow> selectedLayer s = None)"
    using ok by (auto simp: selection_ok_def selectedLayer_def find_None_iff split: if_splits)
  moreover have "\<exists>l \<in> set (view_layers s). ly_layer_id l = ll_layer_id d \<and> lv_selectedLayerId s = Some (ll_layer_id d)" if "layerData s = Some d" for d
    using ok that by (auto simp: layerData_def selection_ok_def split: option.splits if_splits)
  moreover have "lw_workspace d = lv_workspaceId s" if "workspaceData s = Some d" for d
    using that by (auto simp: workspaceData_def split: option.splits if_splits)
  moreover have "2 \<le> lr_width r \<and> lr_width r \<le> 100" if r: "r \<in> set (layer_rows s)" for r
  proof -
    obtain i where i: "i < length (view_layers s)" "r = LayerRow s i" using r by (auto simp: layer_rows_def)
    let ?b = "ly_bytes (view_layers s ! i)" and ?m = "maxBytes (view_layers s)"
    have "?b \<le> ?m" "1 \<le> ?m" using maxBytes_bounds [of "view_layers s"] i(1) by auto
    then have "of_nat ?b / of_nat ?m \<le> (1 :: rat)" by simp
    then have "of_nat ?b / of_nat ?m * 100 \<le> (1 :: rat) * 100" by (rule mult_right_mono) simp
    then show ?thesis by (simp add: i(2) LayerRow_def Let_def)
  qed
  ultimately show ?thesis using ok by (simp add: selection_ok_def)
qed

definition sample_stack :: LayerStackResult where
  "sample_stack = \<lparr>ls_manifest_version = 1, ls_root_hash = ''h'', ls_active_lease_count = 0, ls_total_bytes = 0,
     ls_layers = [\<lparr>ly_layer_id = ''a'', ly_bytes = 1, ly_leased_by_workspaces = 0, ly_booked_by = []\<rparr>]\<rparr>"

lemma layer_view_consistent_witness:
  "selectedLayer (run layer_step (layer_init []) [Stack_answered sample_stack]) \<noteq> None"
  using layer_view_consistent [OF refl, of "[]" "[Stack_answered sample_stack]"]
  by (simp add: layer_step_def layer_init_def workspace_effect_def layer_effect_def view_layers_def sample_stack_def)

text \<open>
  The depth trend is the last 24 changes of the depth: with a ring that holds the changes so far,
  recording one more depth gives the changes with it, and leaves other sandboxes' rings alone.
\<close>

lemma recordDepth_trend:
  assumes "ring_of rings i = slice_last 24 (remdups_adj ds)"
  shows "ring_of (snd (recordDepth i d rings)) i = slice_last 24 (remdups_adj (ds @ [d]))"
    and "j \<noteq> i \<Longrightarrow> ring_of (snd (recordDepth i d rings)) j = ring_of rings j"
  using recordDepth_history [OF assms] by (simp_all add: recordDepth_ring)

end
