(* ===== verification/Dashboard.thy ===== *)
theory Dashboard
  imports Clusters Machine Js_Number
begin

text \<open>
  The dashboard: \<^verbatim>\<open>DashboardPage.tsx\<close>, \<^verbatim>\<open>DashboardSummary.tsx\<close>, \<^verbatim>\<open>DashboardShellContext.ts\<close> of
  \<^verbatim>\<open>web/src/pages/dashboard\<close> and \<^verbatim>\<open>SandboxCard.tsx\<close>, \<^verbatim>\<open>FleetSummaryBar.tsx\<close> of \<^verbatim>\<open>web/src/pages/fleet\<close>.  It composes
  the fleet read model with the clusters.  What the polls report at a render (data, error, pending,
  fetching) arrives as an event and is not constrained.  The fleet's order is kept in a reference
  that is read when the source list changes and written after the render.
\<close>

record 'a poll_result =
  po_data :: "'a option"
  po_error :: "RpcError option"
  po_pending :: bool
  po_fetching :: bool

datatype DashboardConnectionState = Connecting | Connected | Stale | Disconnected

datatype DashboardView = View_sandbox | View_cluster

datatype gateway_start = Start_idle | Start_pending | Start_failed string

record dashboard =
  db_list :: "SandboxList poll_result"
  db_fast :: "SandboxList poll_result"
  db_clusters :: "SandboxClusterRecord list poll_result"
  db_storage :: local_storage
  db_snapshot :: "SnapshotResult option"
  db_usage :: "(string \<times> SandboxCurrentUsage) list"
  db_createLogs :: "string list option"
  db_q :: "string option"
  db_view :: "string option"
  db_fleet :: "SandboxList option"
  db_previousOrder :: "string list"
  db_connection :: DashboardConnectionState
  db_collapsed :: "string list"
  db_gateway :: gateway_start

definition UNKNOWN :: string where
  "UNKNOWN = [CHR 0xE2, CHR 0x80, CHR 0x94]"

definition ellipsis :: string where
  "ellipsis = [CHR 0xE2, CHR 0x80, CHR 0xA6]"

definition connection_label :: "DashboardConnectionState \<Rightarrow> string" where
  "connection_label c = (case c of Connecting \<Rightarrow> ''Connecting to gateway'' | Connected \<Rightarrow> ''Connected''
     | Stale \<Rightarrow> ''Connected '' @ [CHR 0xB7] @ '' showing stale data'' | Disconnected \<Rightarrow> ''Gateway disconnected'')"

definition connectionFor :: "SandboxList option \<Rightarrow> RpcError option \<Rightarrow> DashboardConnectionState" where
  "connectionFor fleet err = (if err \<noteq> None then (if fleet \<noteq> None then Stale else Disconnected)
     else if fleet \<noteq> None then Connected else Connecting)"

section \<open>Derived values\<close>

definition db_filter :: "dashboard \<Rightarrow> string" where
  "db_filter s = (case db_q s of None \<Rightarrow> [] | Some q \<Rightarrow> q)"

definition activeView :: "dashboard \<Rightarrow> DashboardView" where
  "activeView s = (if db_view s = Some ''cluster'' then View_cluster else View_sandbox)"

definition lifecycleActive :: "dashboard \<Rightarrow> bool" where
  "lifecycleActive s = hasFleetActivity (po_data (db_list s)) (db_snapshot s) (db_createLogs s)"

definition clusterRegistry :: "dashboard \<Rightarrow> SandboxClusterRecord list" where
  "clusterRegistry s = (case po_data (db_clusters s) of None \<Rightarrow> readSandboxClusters (db_storage s) | Some cs \<Rightarrow> cs)"

definition sourceFleet :: "dashboard \<Rightarrow> SandboxList option" where
  "sourceFleet s = currentFleetList (po_data (db_list s)) (po_data (db_fast s)) (lifecycleActive s)"

definition db_records :: "dashboard \<Rightarrow> SandboxRecord list" where
  "db_records s = list_records (db_fleet s)"

definition db_presentation :: "dashboard \<Rightarrow> ResolvedSandboxCluster list \<times> SandboxRecord list" where
  "db_presentation s = resolveSandboxClusters (db_records s) (clusterRegistry s)"

definition visibleSandboxes :: "dashboard \<Rightarrow> SandboxRecord list" where
  "visibleSandboxes s = filterFleetRecords (db_records s) (db_filter s) (db_snapshot s)"

definition clusterIdsBySandbox :: "dashboard \<Rightarrow> (string \<times> string) list" where
  "clusterIdsBySandbox s = map_new (concat (map (\<lambda>c. map (\<lambda>m. (rec_id m, cl_id c)) (cl_members c)) (fst (db_presentation s))))"

definition cluster_matches :: "string \<Rightarrow> ResolvedSandboxCluster \<Rightarrow> bool" where
  "cluster_matches needle c = (\<exists>v \<in> set [cl_id c, cl_workspaceRoot c]. str_includes (toLowerCase v) needle)"

definition found_members :: "string \<Rightarrow> SnapshotResult option \<Rightarrow> ResolvedSandboxCluster \<Rightarrow> SandboxRecord list" where
  "found_members q snapshot c = (let needle = toLowerCase (trim q) in
     if needle = [] \<or> cluster_matches needle c then cl_members c else filterFleetRecords (cl_members c) q snapshot)"

definition visibleClusters :: "dashboard \<Rightarrow> (ResolvedSandboxCluster \<times> SandboxRecord list) list" where
  "visibleClusters s = concat (map (\<lambda>c. let members = found_members (db_filter s) (db_snapshot s) c
     in if members \<noteq> [] then [(c, members)] else []) (fst (db_presentation s)))"

definition fleetError :: "dashboard \<Rightarrow> RpcError option" where
  "fleetError s = (if lifecycleActive s then (case po_error (db_fast s) of None \<Rightarrow> po_error (db_list s) | Some e \<Rightarrow> Some e)
     else po_error (db_list s))"

definition isInitialLoading :: "dashboard \<Rightarrow> bool" where
  "isInitialLoading s = (po_pending (db_list s) \<and> db_fleet s = None)"

definition isClusterRegistryLoading :: "dashboard \<Rightarrow> bool" where
  "isClusterRegistryLoading s = (activeView s = View_cluster \<and> po_pending (db_clusters s))"

definition showCreationCard :: "dashboard \<Rightarrow> bool" where
  "showCreationCard s = (activeView s = View_sandbox \<and> db_createLogs s \<noteq> None \<and>
     \<not> (\<exists>r \<in> set (db_records s). rec_state r = Creating))"

definition isViewEmpty :: "dashboard \<Rightarrow> bool" where
  "isViewEmpty s = (if activeView s = View_sandbox then visibleSandboxes s = [] \<and> \<not> showCreationCard s
     else visibleClusters s = [])"

definition emptyTitle :: "dashboard \<Rightarrow> string" where
  "emptyTitle s = (if db_records s = [] then ''No sandboxes yet'' else if db_filter s \<noteq> [] then ''No matches''
     else if activeView s = View_cluster then ''No clusters'' else ''No sandboxes'')"

definition emptyCopy :: "dashboard \<Rightarrow> string" where
  "emptyCopy s = (if db_records s = [] then ''Create your first sandbox to begin an isolated workspace.''
     else if db_filter s \<noteq> []
       then ''No '' @ (if activeView s = View_cluster then ''sandbox cluster'' else ''sandbox'') @ '' matches '' @
         [CHR 0xE2, CHR 0x80, CHR 0x9C] @ db_filter s @ [CHR 0xE2, CHR 0x80, CHR 0x9D] @ ''. Try another ID, state, or workspace.''
     else if activeView s = View_cluster
       then ''Use Create sandbox and choose Cluster to create one or more sandboxes as a cluster.''
     else ''Create a sandbox to begin an isolated workspace.'')"

section \<open>Cards\<close>

datatype card_button = Button_disabled string | Button_link string string bool | Button_none

record sandbox_card =
  sc_id :: string
  sc_clusterLink :: "string option"
  sc_status :: SandboxStatusPresentation
  sc_workspace :: string
  sc_resources :: "(string \<times> string) list"
  sc_logs :: "string list option"
  sc_note :: "string option"
  sc_button :: card_button

definition formatCpu :: "rat option \<Rightarrow> string" where
  "formatCpu v = (case v of None \<Rightarrow> UNKNOWN | Some q \<Rightarrow> toFixed (if q < 1 then 2 else 1) q @ ''%'')"

definition count_text :: "nat option \<Rightarrow> string" where
  "count_text n = (case n of None \<Rightarrow> UNKNOWN | Some k \<Rightarrow> show_nat k)"

definition memory_text :: "(rat \<Rightarrow> string) \<Rightarrow> rat option \<Rightarrow> string" where
  "memory_text show_number m = (case m of None \<Rightarrow> UNKNOWN | Some q \<Rightarrow> formatBytes show_number (Fin q))"

fun progressLabel :: "SandboxState \<Rightarrow> string option" where
  "progressLabel Creating = Some (''Creating'' @ ellipsis)"
| "progressLabel Stopping = Some (''Stopping'' @ ellipsis)"
| "progressLabel _ = None"

definition card_button_of :: "(string \<Rightarrow> string) \<Rightarrow> SandboxCardViewModel \<Rightarrow> card_button" where
  "card_button_of encodeURIComponent v = (case progressLabel (card_lifecycleState v) of Some l \<Rightarrow> Button_disabled l
     | None \<Rightarrow> (case card_primaryAction v of None \<Rightarrow> Button_none
         | Some a \<Rightarrow> if act_disabled a then Button_disabled (act_label a)
             else Button_link (act_label a) (''/sandboxes/'' @ encodeURIComponent (card_id v)) (act_kind a = Open_action)))"

definition SandboxCard :: "(rat \<Rightarrow> string) \<Rightarrow> (string \<Rightarrow> string) \<Rightarrow> string option \<Rightarrow> string list option \<Rightarrow> SandboxRecord
    \<Rightarrow> SandboxSnapshot option \<Rightarrow> SandboxCurrentUsage option \<Rightarrow> sandbox_card" where
  "SandboxCard show_number encodeURIComponent clusterId createLogs r snapshot usage =
     (let v = sandboxCardViewModel r snapshot usage in
      \<lparr>sc_id = rec_id r,
       sc_clusterLink = (case clusterId of None \<Rightarrow> None | Some c \<Rightarrow> if c = [] then None else Some c),
       sc_status = card_status v,
       sc_workspace = (if card_workspaceRoot v = [] then UNKNOWN else card_workspaceRoot v),
       sc_resources = [(''CPU'', formatCpu (card_cpuPercent v)), (''MEM'', memory_text show_number (card_memoryBytes v)),
         (''SESSIONS'', count_text (card_sessions v)), (''ACTIVE CMDS'', count_text (card_activeCommands v))],
       sc_logs = (if card_lifecycleState v = Creating then Some (case createLogs of None \<Rightarrow> [] | Some ls \<Rightarrow> ls) else None),
       sc_note = (if card_lifecycleState v = Failed then Some ''Sandbox failed to reach ready. Inspect its record for details.'' else None),
       sc_button = card_button_of encodeURIComponent v\<rparr>)"

definition card_of :: "(rat \<Rightarrow> string) \<Rightarrow> (string \<Rightarrow> string) \<Rightarrow> dashboard \<Rightarrow> string option \<Rightarrow> SandboxRecord \<Rightarrow> sandbox_card" where
  "card_of show_number encodeURIComponent s clusterId r = SandboxCard show_number encodeURIComponent clusterId
     (if rec_state r = Creating then db_createLogs s else None) r
     (map_of (snapshotsBySandbox (db_snapshot s)) (rec_id r)) (map_of (db_usage s) (rec_id r))"

section \<open>Cluster collections and the page\<close>

definition readyCount :: "ResolvedSandboxCluster \<Rightarrow> nat" where
  "readyCount c = length (filter (\<lambda>m. rec_state m = Ready) (cl_members c))"

definition readyLabel :: "ResolvedSandboxCluster \<Rightarrow> string" where
  "readyLabel c = (if readyCount c = length (cl_members c) then show_nat (readyCount c) @ '' ready''
     else show_nat (readyCount c) @ '' of '' @ show_nat (length (cl_members c)) @ '' ready'')"

record cluster_collection =
  co_id :: string
  co_count :: string
  co_workspace :: string
  co_ready :: string
  co_cards :: "sandbox_card list option"

definition SandboxClusterCollection :: "(rat \<Rightarrow> string) \<Rightarrow> (string \<Rightarrow> string) \<Rightarrow> dashboard
    \<Rightarrow> ResolvedSandboxCluster \<times> SandboxRecord list \<Rightarrow> cluster_collection" where
  "SandboxClusterCollection show_number encodeURIComponent s = (\<lambda>(c, members).
     \<lparr>co_id = cl_id c,
      co_count = show_nat (length (cl_members c)) @ '' '' @ (if length (cl_members c) = 1 then ''sandbox'' else ''sandboxes''),
      co_workspace = (if cl_workspaceRoot c = [] then UNKNOWN else cl_workspaceRoot c),
      co_ready = readyLabel c,
      co_cards = (if cl_id c \<in> set (db_collapsed s) then None else Some (map (card_of show_number encodeURIComponent s None) members))\<rparr>)"

datatype dashboard_screen = Screen_loading string | Screen_gateway_down string gateway_start | Screen_empty string string
  | Screen_sandboxes "sandbox_card list" "string option" | Screen_clusters "cluster_collection list"

definition creation_log :: "string list \<Rightarrow> string" where
  "creation_log ls = (if ls = [] then ''Starting'' @ ellipsis else join [CHR 0x0A] ls)"

definition dashboard_screen_of :: "(rat \<Rightarrow> string) \<Rightarrow> (string \<Rightarrow> string) \<Rightarrow> dashboard \<Rightarrow> dashboard_screen" where
  "dashboard_screen_of show_number encodeURIComponent s =
     (if isInitialLoading s \<or> isClusterRegistryLoading s
        then Screen_loading (if isClusterRegistryLoading s then ''Loading sandbox clusters'' else ''Loading sandboxes'')
      else case (fleetError s, db_fleet s) of
        (Some e, None) \<Rightarrow> Screen_gateway_down (err_message e @ '' '' @ UNKNOWN @
          '' check that the sandbox gateway is running. The console will retry automatically.'') (db_gateway s)
      | _ \<Rightarrow>
        if isViewEmpty s \<and> db_fleet s \<noteq> None then Screen_empty (emptyTitle s) (emptyCopy s)
        else if activeView s = View_sandbox
          then Screen_sandboxes (map (\<lambda>r. card_of show_number encodeURIComponent s (map_of (clusterIdsBySandbox s) (rec_id r)) r) (visibleSandboxes s))
            (if showCreationCard s then map_option creation_log (db_createLogs s) else None)
        else Screen_clusters (map (SandboxClusterCollection show_number encodeURIComponent s) (visibleClusters s)))"

definition refresh_alert :: "dashboard \<Rightarrow> string option" where
  "refresh_alert s = (case (fleetError s, db_fleet s) of
     (Some e, Some _) \<Rightarrow> Some (''Showing the last confirmed sandbox data. '' @ err_message e @ '' '' @ UNKNOWN @ '' retrying automatically.'')
   | _ \<Rightarrow> None)"

definition refreshing :: "dashboard \<Rightarrow> bool" where
  "refreshing s = ((po_fetching (db_list s) \<or> po_fetching (db_fast s)) \<and> db_fleet s \<noteq> None)"

definition view_counts :: "dashboard \<Rightarrow> nat \<times> nat" where
  "view_counts s = (length (db_records s), length (fst (db_presentation s)))"

text \<open>The summary above the cards, and the older summary bar.\<close>

definition DashboardSummary :: "(rat \<Rightarrow> string) \<Rightarrow> SandboxList option \<Rightarrow> SnapshotResult option
    \<Rightarrow> (string \<times> SandboxCurrentUsage) list \<Rightarrow> (string \<times> string) list" where
  "DashboardSummary show_number fleet snapshot usage =
     (let summary = dashboardSummary fleet snapshot usage in
      [(''Total Sandboxes'', count_text (fsum_total summary)), (''Ready'', count_text (fsum_ready summary)),
       (''Active Commands'', count_text (fsum_activeCommands summary)),
       (''Avg Memory'', memory_text show_number (fsum_averageMemoryBytes summary))])"

definition byState :: "SandboxRecord list \<Rightarrow> (string \<times> nat) list" where
  "byState records = foldl (\<lambda>m r. map_set (state_name (rec_state r))
     ((case map_of m (state_name (rec_state r)) of None \<Rightarrow> 0 | Some n \<Rightarrow> n) + 1) m) [] records"

definition fleet_memory :: "(string \<times> SandboxCurrentUsage) list \<Rightarrow> SandboxRecord list \<Rightarrow> rat option" where
  "fleet_memory usage records = foldl (\<lambda>acc r. case Option.bind (map_of usage (rec_id r)) us_memoryBytes of
     Some m \<Rightarrow> Some ((case acc of None \<Rightarrow> 0 | Some t \<Rightarrow> t) + m) | None \<Rightarrow> acc) None records"

definition FleetSummaryBar :: "SandboxList option \<Rightarrow> SnapshotResult option \<Rightarrow> (string \<times> SandboxCurrentUsage) list \<Rightarrow> string list" where
  "FleetSummaryBar fleet snapshot usage =
     (let records = list_records fleet;
          executions = sum_list (map inFlightCount (case snapshot of None \<Rightarrow> [] | Some r \<Rightarrow> snap_sandboxes r))
      in [''Fleet: '' @ show_nat (length records) @ (if length records = 1 then '' sandbox'' else '' sandboxes'')] @
         map (\<lambda>(st, n). show_nat n @ '' '' @ st) (byState records) @
         [show_nat executions @ '' running '' @ (if executions = 1 then ''command'' else ''commands''),
          [CHR 0xCE, CHR 0xA3] @ '' mem '' @ (case fleet_memory usage records of
             None \<Rightarrow> [CHR 0xE2, CHR 0x80, CHR 0x93] | Some m \<Rightarrow> formatMegabytes (Fin m))])"

section \<open>Events\<close>

datatype dashboard_event = List_result "SandboxList poll_result" | Fast_result "SandboxList poll_result"
  | Clusters_result "SandboxClusterRecord list poll_result" | Snapshot_result "SnapshotResult option"
  | Usage_result "(string \<times> SandboxCurrentUsage) list" | Create_stream "string list option" | Storage_change local_storage
  | Update_filter string | Update_view DashboardView | Follow_cluster string | Toggle_cluster string
  | Gateway_click | Gateway_fails string

definition updateFilter :: "string \<Rightarrow> dashboard \<Rightarrow> dashboard" where
  "updateFilter v s = s\<lparr>db_q := (if v \<noteq> [] then Some v else None)\<rparr>"

definition updateView :: "DashboardView \<Rightarrow> dashboard \<Rightarrow> dashboard" where
  "updateView v s = s\<lparr>db_view := (if v = View_cluster then Some ''cluster'' else None)\<rparr>"

text \<open>The badge of a card is a link to the cluster view, filtered by the cluster's id.\<close>

definition follow_cluster :: "string \<Rightarrow> dashboard \<Rightarrow> dashboard" where
  "follow_cluster c s = s\<lparr>db_view := Some ''cluster'', db_q := Some c\<rparr>"

definition toggle_cluster :: "string \<Rightarrow> dashboard \<Rightarrow> dashboard" where
  "toggle_cluster c s = s\<lparr>db_collapsed := (if c \<in> set (db_collapsed s) then set_delete c (db_collapsed s) else set_add c (db_collapsed s))\<rparr>"

fun dashboard_handle :: "dashboard \<Rightarrow> dashboard_event \<Rightarrow> dashboard" where
  "dashboard_handle s (List_result p) = s\<lparr>db_list := p\<rparr>"
| "dashboard_handle s (Fast_result p) = s\<lparr>db_fast := p\<rparr>"
| "dashboard_handle s (Clusters_result p) = s\<lparr>db_clusters := p\<rparr>"
| "dashboard_handle s (Snapshot_result p) = s\<lparr>db_snapshot := p\<rparr>"
| "dashboard_handle s (Usage_result u) = s\<lparr>db_usage := u\<rparr>"
| "dashboard_handle s (Create_stream ls) = s\<lparr>db_createLogs := ls\<rparr>"
| "dashboard_handle s (Storage_change st) = s\<lparr>db_storage := st\<rparr>"
| "dashboard_handle s (Update_filter v) = updateFilter v s"
| "dashboard_handle s (Update_view v) = updateView v s"
| "dashboard_handle s (Follow_cluster c) = follow_cluster c s"
| "dashboard_handle s (Toggle_cluster c) = (if c \<in> set (map (cl_id \<circ> fst) (visibleClusters s)) then toggle_cluster c s else s)"
| "dashboard_handle s Gateway_click = (if db_gateway s = Start_pending then s else s\<lparr>db_gateway := Start_pending\<rparr>)"
| "dashboard_handle s (Gateway_fails m) = (if db_gateway s = Start_pending then s\<lparr>db_gateway := Start_failed m\<rparr> else s)"

text \<open>
  The render and its effects: the memo of the fleet is computed again when the source list changes;
  the order and the connection are written afterwards.  A collection that is not rendered loses its state.
\<close>

definition memo_fleet :: "dashboard \<Rightarrow> dashboard \<Rightarrow> dashboard" where
  "memo_fleet s t = (if sourceFleet t = sourceFleet s then t
     else t\<lparr>db_fleet := stabilizeFleetList (sourceFleet t) (db_previousOrder t)\<rparr>)"

definition dashboard_effects :: "dashboard \<Rightarrow> dashboard" where
  "dashboard_effects t = t\<lparr>db_previousOrder := map rec_id (list_records (db_fleet t)),
     db_connection := connectionFor (db_fleet t) (fleetError t),
     db_collapsed := (if activeView t = View_cluster \<and> \<not> isInitialLoading t \<and> \<not> isClusterRegistryLoading t
       then filter (\<lambda>c. c \<in> set (map (cl_id \<circ> fst) (visibleClusters t))) (db_collapsed t) else [])\<rparr>"

definition dashboard_step :: "dashboard \<Rightarrow> dashboard_event \<Rightarrow> dashboard" where
  "dashboard_step s e = dashboard_effects (memo_fleet s (dashboard_handle s e))"

definition no_result :: "'a poll_result" where
  "no_result = \<lparr>po_data = None, po_error = None, po_pending = True, po_fetching = True\<rparr>"

definition dashboard_init :: "local_storage \<Rightarrow> string option \<Rightarrow> string option \<Rightarrow> dashboard" where
  "dashboard_init storage q v = \<lparr>db_list = no_result, db_fast = no_result, db_clusters = no_result, db_storage = storage, db_snapshot = None,
     db_usage = [], db_createLogs = None, db_q = q, db_view = v, db_fleet = None, db_previousOrder = [], db_connection = Connecting,
     db_collapsed = [], db_gateway = Start_idle\<rparr>"

text \<open>The shortcut that moves the focus to the search field.\<close>

definition slash_focuses :: "string \<Rightarrow> bool \<Rightarrow> (string \<times> bool) option \<Rightarrow> bool" where
  "slash_focuses key modifier target = (key = ''/'' \<and> \<not> modifier \<and>
     (case target of None \<Rightarrow> True | Some (tag, editable) \<Rightarrow> \<not> (tag = ''INPUT'' \<or> tag = ''TEXTAREA'' \<or> editable)))"

section \<open>The order of the cards over a run\<close>

text \<open>The manager lists each sandbox once.\<close>

definition listed_once :: "SandboxList option \<Rightarrow> bool" where
  "listed_once l = distinct (map rec_id (list_records l))"

fun lists_once :: "dashboard_event \<Rightarrow> bool" where
  "lists_once (List_result p) = listed_once (po_data p)"
| "lists_once (Fast_result p) = listed_once (po_data p)"
| "lists_once _ = True"

definition card_ids :: "dashboard \<Rightarrow> string list" where
  "card_ids s = map rec_id (db_records s)"

definition dashboard_inv :: "dashboard \<Rightarrow> bool" where
  "dashboard_inv s = (listed_once (po_data (db_list s)) \<and> listed_once (po_data (db_fast s)) \<and>
     mset (db_records s) = mset (list_records (sourceFleet s)) \<and> db_previousOrder s = card_ids s \<and>
     db_connection s = connectionFor (db_fleet s) (fleetError s))"

lemma source_listed_once:
  "listed_once (po_data (db_list s)) \<Longrightarrow> listed_once (po_data (db_fast s)) \<Longrightarrow> listed_once (sourceFleet s)"
  by (auto simp: sourceFleet_def currentFleetList_def split: option.splits)

lemma distinct_mset_ids: "mset rs = mset rs' \<Longrightarrow> distinct (map rec_id rs) = distinct (map rec_id rs')"
  by (metis mset_map distinct_count_atmost_1 mset_eq_setD)

lemma inv_distinct: "dashboard_inv s \<Longrightarrow> distinct (card_ids s)"
  using source_listed_once [of s] distinct_mset_ids [of "db_records s" "list_records (sourceFleet s)"]
  by (simp add: dashboard_inv_def card_ids_def listed_once_def)

lemma handle_listed_once:
  assumes "dashboard_inv s" "lists_once e"
  shows "listed_once (po_data (db_list (dashboard_handle s e)))" "listed_once (po_data (db_fast (dashboard_handle s e)))"
    "db_fleet (dashboard_handle s e) = db_fleet s" "db_previousOrder (dashboard_handle s e) = card_ids s"
  using assms by (cases e; simp add: dashboard_inv_def updateFilter_def updateView_def follow_cluster_def toggle_cluster_def)+

lemma dashboard_effects_keep [simp]:
  "sourceFleet (dashboard_effects t) = sourceFleet t" "db_fleet (dashboard_effects t) = db_fleet t"
  "db_records (dashboard_effects t) = db_records t" "fleetError (dashboard_effects t) = fleetError t"
  "po_data (db_list (dashboard_effects t)) = po_data (db_list t)" "po_data (db_fast (dashboard_effects t)) = po_data (db_fast t)"
  by (simp_all add: dashboard_effects_def sourceFleet_def lifecycleActive_def db_records_def fleetError_def split: option.split)

lemma memo_keep [simp]:
  "sourceFleet (memo_fleet s t) = sourceFleet t"
  "po_data (db_list (memo_fleet s t)) = po_data (db_list t)" "po_data (db_fast (memo_fleet s t)) = po_data (db_fast t)"
  by (simp_all add: memo_fleet_def sourceFleet_def lifecycleActive_def)

lemma stabilized_records:
  assumes "listed_once l" "distinct order"
  shows "mset (list_records (stabilizeFleetList l order)) = mset (list_records l) \<and>
    map rec_id (list_records (stabilizeFleetList l order)) =
      filter (\<lambda>i. i \<in> set (map rec_id (list_records l))) order @ filter (\<lambda>i. i \<notin> set order) (map rec_id (list_records l))"
proof (cases l)
  case None
  then show ?thesis by (simp add: stabilizeFleetList_def list_records_def)
next
  case (Some l')
  then obtain m where m: "stabilizeFleetList (Some l') order = Some m" by (cases "order = []") (auto simp: stabilizeFleetList_def)
  with Some assms stabilizeFleetList_order [OF _ assms(2) m] show ?thesis by (simp add: listed_once_def list_records_def)
qed

text \<open>A render puts the records of the source list in the order of the cards before it, new ones last.\<close>

lemma render_order:
  assumes inv: "dashboard_inv s" and e: "lists_once e" and t: "t = dashboard_step s e"
  shows "mset (db_records t) = mset (list_records (sourceFleet t)) \<and>
    card_ids t = filter (\<lambda>i. i \<in> set (card_ids t)) (card_ids s) @ filter (\<lambda>i. i \<notin> set (card_ids s)) (card_ids t)"
proof -
  define u where "u = dashboard_handle s e"
  note u = handle_listed_once [OF inv e, folded u_def]
  have once: "listed_once (sourceFleet u)" using u(1,2) by (rule source_listed_once)
  have tu: "t = dashboard_effects (memo_fleet s u)" by (simp add: t dashboard_step_def u_def)
  show ?thesis
  proof (cases "sourceFleet u = sourceFleet s")
    case True
    then have "memo_fleet s u = u" by (simp add: memo_fleet_def)
    moreover have "db_records u = db_records s" by (simp add: db_records_def u(3))
    ultimately have r: "db_records t = db_records s" "sourceFleet t = sourceFleet s" by (simp_all add: tu True)
    then have "mset (db_records t) = mset (list_records (sourceFleet t))" using inv by (simp add: dashboard_inv_def)
    moreover have "card_ids t = card_ids s" by (simp add: card_ids_def r)
    ultimately show ?thesis by simp
  next
    case False
    then have r: "db_records t = list_records (stabilizeFleetList (sourceFleet u) (card_ids s))" "sourceFleet t = sourceFleet u"
      by (simp_all add: tu memo_fleet_def u(4) db_records_def) (simp add: sourceFleet_def lifecycleActive_def)
    let ?ids = "map rec_id (list_records (sourceFleet u))"
    have st: "mset (db_records t) = mset (list_records (sourceFleet t))"
      "card_ids t = filter (\<lambda>i. i \<in> set ?ids) (card_ids s) @ filter (\<lambda>i. i \<notin> set (card_ids s)) ?ids"
      using stabilized_records [OF once inv_distinct [OF inv]] by (simp_all add: r card_ids_def)
    have ids: "set (card_ids t) = set ?ids" unfolding st(2) by auto
    have "filter (\<lambda>i. i \<notin> set (card_ids s)) (card_ids t) = filter (\<lambda>i. i \<notin> set (card_ids s)) ?ids"
      unfolding st(2) by (simp add: filter_empty_conv)
    with st ids show ?thesis by simp
  qed
qed

interpretation dashboard: environment_machine dashboard_step dashboard_inv lists_once
proof
  fix s e
  assume inv: "dashboard_inv s" and e: "lists_once e"
  let ?t = "dashboard_step s e"
  have "db_previousOrder ?t = card_ids ?t" "db_connection ?t = connectionFor (db_fleet ?t) (fleetError ?t)"
    unfolding dashboard_step_def by (simp_all add: card_ids_def db_records_def) (simp_all add: dashboard_effects_def)
  moreover have "listed_once (po_data (db_list ?t))" "listed_once (po_data (db_fast ?t))"
    using handle_listed_once [OF inv e] by (simp_all add: dashboard_step_def)
  ultimately show "dashboard_inv ?t" using render_order [OF inv e refl] by (simp add: dashboard_inv_def)
qed

lemma dashboard_init_inv: "dashboard_inv (dashboard_init storage q v)"
  by (simp add: dashboard_inv_def dashboard_init_def listed_once_def list_records_def db_records_def card_ids_def sourceFleet_def
      lifecycleActive_def no_result_def currentFleetList_def connectionFor_def fleetError_def)

section \<open>Cards and clusters\<close>

lemma presentation_members:
  assumes "distinct (card_ids s)"
  shows "distinct (map rec_id (concat (map cl_members (fst (db_presentation s)))))"
    and "\<forall>c \<in> set (fst (db_presentation s)). set (cl_members c) \<subseteq> set (db_records s)"
proof -
  define st where "st = foldl (resolve_step (map_new (map (\<lambda>r. (rec_id r, r)) (db_records s))))
    \<lparr>rz_clusters = [], rz_clusteredIds = []\<rparr> (clusterRegistry s)"
  have "resolution_inv (db_records s) (clusterRegistry s) st"
    unfolding st_def using assms by (intro resolve_inv) (simp add: card_ids_def)
  moreover have "fst (db_presentation s) = rz_clusters st"
    by (simp add: db_presentation_def resolveSandboxClusters_def st_def Let_def)
  ultimately show "distinct (map rec_id (concat (map cl_members (fst (db_presentation s)))))"
    and "\<forall>c \<in> set (fst (db_presentation s)). set (cl_members c) \<subseteq> set (db_records s)"
    by (auto simp: resolution_inv_def resolved_members_def)
qed

lemma badge_members:
  assumes "distinct (card_ids s)" "r \<in> set (db_records s)" "map_of (clusterIdsBySandbox s) (rec_id r) = Some c"
  obtains cl where "cl \<in> set (fst (db_presentation s))" "cl_id cl = c" "r \<in> set (cl_members cl)"
proof -
  let ?kvs = "concat (map (\<lambda>c. map (\<lambda>m. (rec_id m, cl_id c)) (cl_members c)) (fst (db_presentation s)))"
  have "map_of (rev ?kvs) (rec_id r) = Some c" using assms(3) by (simp only: clusterIdsBySandbox_def map_of_map_new)
  then have "(rec_id r, c) \<in> set ?kvs" by (auto dest!: map_of_SomeD)
  then obtain cl m where cl: "cl \<in> set (fst (db_presentation s))" "m \<in> set (cl_members cl)" "rec_id m = rec_id r" "cl_id cl = c" by auto
  with presentation_members(2) [OF assms(1)] have "m \<in> set (db_records s)" by auto
  with assms(1,2) cl(3) have "m = r" by (auto simp: card_ids_def distinct_map inj_on_def)
  with cl that show thesis by blast
qed

lemma visible_iff:
  "(cl, ms) \<in> set (visibleClusters s) \<longleftrightarrow>
     cl \<in> set (fst (db_presentation s)) \<and> ms = found_members (db_filter s) (db_snapshot s) cl \<and> ms \<noteq> []"
  by (auto simp: visibleClusters_def Let_def split: if_splits)

lemma found_subset: "set (found_members q snapshot c) \<subseteq> set (cl_members c)"
  by (auto simp: found_members_def filterFleetRecords_def Let_def)

lemma found_member:
  assumes "r \<in> set (filterFleetRecords records q snapshot)" "r \<in> set (cl_members c)"
  shows "r \<in> set (found_members q snapshot c)"
  using assms by (auto simp: found_members_def filterFleetRecords_def Let_def split: if_splits)

lemma sublist_trim: "sublist (trim s) s"
proof -
  let ?t = "dropWhile is_space s"
  have "prefix (rev (dropWhile is_space (rev ?t))) ?t"
    using suffix_dropWhile [of is_space "rev ?t"] by (simp add: suffix_to_prefix)
  then have "sublist (rev (dropWhile is_space (rev ?t))) ?t" by (rule prefix_imp_sublist)
  also have "sublist ?t s" by (rule suffix_imp_sublist [OF suffix_dropWhile])
  finally show ?thesis by (simp add: trim_def)
qed

lemma cluster_matches_own_id: "found_members (cl_id c) snapshot c = cl_members c"
proof -
  have "sublist (toLowerCase (trim (cl_id c))) (toLowerCase (cl_id c))"
    unfolding toLowerCase_def by (rule map_mono_sublist [OF sublist_trim])
  then show ?thesis by (simp add: found_members_def cluster_matches_def includes_sublist Let_def)
qed

lemma follow_step [simp]:
  "db_records (dashboard_step s (Follow_cluster c)) = db_records s" "db_filter (dashboard_step s (Follow_cluster c)) = c"
  "clusterRegistry (dashboard_step s (Follow_cluster c)) = clusterRegistry s" "activeView (dashboard_step s (Follow_cluster c)) = View_cluster"
proof -
  have "memo_fleet s (follow_cluster c s) = follow_cluster c s"
    by (simp add: memo_fleet_def sourceFleet_def lifecycleActive_def follow_cluster_def)
  then have t: "dashboard_step s (Follow_cluster c) = dashboard_effects (follow_cluster c s)" by (simp add: dashboard_step_def)
  show "db_records (dashboard_step s (Follow_cluster c)) = db_records s"
    unfolding t by (simp add: db_records_def) (simp add: follow_cluster_def)
  show "db_filter (dashboard_step s (Follow_cluster c)) = c" "clusterRegistry (dashboard_step s (Follow_cluster c)) = clusterRegistry s"
    "activeView (dashboard_step s (Follow_cluster c)) = View_cluster"
    unfolding t by (simp_all add: dashboard_effects_def follow_cluster_def db_filter_def clusterRegistry_def activeView_def split: option.split)
qed

section \<open>Properties\<close>

text \<open>
  C9: The dashboard never reorders what is on it.  In every reachable state, for any answers of the
  polls that list each sandbox once, the cards are the records of the current list, each once; after
  any further event the cards that stay keep their order and the new ones follow them; the shell is
  told the connection that the list and its error mean.
\<close>

theorem dashboard_order:
  assumes "\<forall>e \<in> set es. lists_once e" "lists_once e"
    and "s = run dashboard_step (dashboard_init storage q v) es" "t = dashboard_step s e"
  shows "mset (db_records t) = mset (list_records (sourceFleet t)) \<and> distinct (card_ids t) \<and>
    card_ids t = filter (\<lambda>i. i \<in> set (card_ids t)) (card_ids s) @ filter (\<lambda>i. i \<notin> set (card_ids s)) (card_ids t) \<and>
    db_connection t = connectionFor (db_fleet t) (fleetError t)"
proof -
  have s: "dashboard_inv s" unfolding assms(3) using dashboard_init_inv assms(1) by (rule dashboard.inv_possible_run)
  then have "dashboard_inv t" unfolding assms(4) using assms(2) by (rule dashboard.inv_possible_step)
  then show ?thesis using render_order [OF s assms(2,4)] inv_distinct [of t] by (simp add: dashboard_inv_def)
qed

text \<open>
  C10: The two views of the dashboard agree.  A card that the search finds and that wears a cluster's
  badge is found in the cluster view too, under that cluster; following the badge shows the cluster
  with all its members; and a collection shows only members of its cluster, never none.
\<close>

theorem dashboard_clusters_agree:
  assumes "\<forall>e \<in> set es. lists_once e" "s = run dashboard_step (dashboard_init storage q v) es"
    and "r \<in> set (visibleSandboxes s)" "map_of (clusterIdsBySandbox s) (rec_id r) = Some c"
  shows "(\<exists>(cl, ms) \<in> set (visibleClusters s). cl_id cl = c \<and> r \<in> set ms) \<and>
    (\<exists>(cl, ms) \<in> set (visibleClusters (dashboard_step s (Follow_cluster c))). cl_id cl = c \<and> ms = cl_members cl \<and> r \<in> set ms) \<and>
    activeView (dashboard_step s (Follow_cluster c)) = View_cluster \<and>
    (\<forall>(cl, ms) \<in> set (visibleClusters s). ms \<noteq> [] \<and> set ms \<subseteq> set (cl_members cl) \<and> set (cl_members cl) \<subseteq> set (db_records s))"
proof -
  have "dashboard_inv s" unfolding assms(2) using dashboard_init_inv assms(1) by (rule dashboard.inv_possible_run)
  then have d: "distinct (card_ids s)" by (rule inv_distinct)
  have r: "r \<in> set (filterFleetRecords (db_records s) (db_filter s) (db_snapshot s))" "r \<in> set (db_records s)"
    using assms(3) by (auto simp: visibleSandboxes_def filterFleetRecords_def Let_def split: if_splits)
  obtain cl where cl: "cl \<in> set (fst (db_presentation s))" "cl_id cl = c" "r \<in> set (cl_members cl)"
    using badge_members [OF d r(2) assms(4)] by blast
  have found: "r \<in> set (found_members (db_filter s) (db_snapshot s) cl)" using r(1) cl(3) by (rule found_member)
  then have "(cl, found_members (db_filter s) (db_snapshot s) cl) \<in> set (visibleClusters s)" using cl(1) by (auto simp: visible_iff)
  moreover have "(cl, cl_members cl) \<in> set (visibleClusters (dashboard_step s (Follow_cluster c)))"
    using cl cluster_matches_own_id [of cl] by (auto simp: visible_iff db_presentation_def)
  moreover have "ms \<noteq> [] \<and> set ms \<subseteq> set (cl_members k) \<and> set (cl_members k) \<subseteq> set (db_records s)"
    if "(k, ms) \<in> set (visibleClusters s)" for k ms
    using that presentation_members(2) [OF d] found_subset by (auto simp: visible_iff)
  ultimately show ?thesis using found cl(2,3) by (fastforce simp del: visible_iff)
qed

definition sample_answer :: "'a \<Rightarrow> 'a poll_result" where
  "sample_answer d = \<lparr>po_data = Some d, po_error = None, po_pending = False, po_fetching = False\<rparr>"

definition sample_list :: "string list \<Rightarrow> SandboxList" where
  "sample_list ids = \<lparr>sl_sandboxes = map (\<lambda>i. sample_record i Ready None) ids\<rparr>"

definition sample_events :: "dashboard_event list" where
  "sample_events = [List_result (sample_answer (sample_list [''b'', ''a''])), Clusters_result (sample_answer [sample_cluster ''x'' [''a'']])]"

definition sample_board :: dashboard where
  "sample_board = run dashboard_step (dashboard_init \<lparr>st_readable = True, st_writable = True, st_item = None\<rparr> None None) sample_events"

lemma sample_possible: "\<forall>e \<in> set sample_events. lists_once e"
  by (simp add: sample_events_def sample_answer_def sample_list_def listed_once_def list_records_def sample_record_def)

lemma sample_idle: "hasFleetActivity (Some (sample_list ids)) None None = False"
  by (auto simp: hasFleetActivity_def sample_list_def list_records_def sample_record_def Let_def)

lemma sample_board_fields:
  "db_records sample_board = sl_sandboxes (sample_list [''b'', ''a''])" "db_filter sample_board = []"
  "clusterRegistry sample_board = [sample_cluster ''x'' [''a'']]" "db_snapshot sample_board = None" "db_createLogs sample_board = None"
proof -
  show "db_records sample_board = sl_sandboxes (sample_list [''b'', ''a''])"
    by (simp add: sample_board_def sample_events_def dashboard_step_def memo_fleet_def dashboard_effects_def db_records_def sourceFleet_def
        lifecycleActive_def currentFleetList_def sample_answer_def dashboard_init_def no_result_def sample_idle stabilizeFleetList_def
        hasFleetActivity_def list_records_def)
  show "db_filter sample_board = []" "clusterRegistry sample_board = [sample_cluster ''x'' [''a'']]" "db_snapshot sample_board = None" "db_createLogs sample_board = None"
    by (simp_all add: sample_board_def sample_events_def dashboard_step_def memo_fleet_def dashboard_effects_def db_filter_def clusterRegistry_def
        sample_answer_def dashboard_init_def split: option.split)
qed

theorem dashboard_order_witness:
  "mset (db_records (dashboard_step sample_board (List_result (sample_answer (sample_list [''a'', ''c'', ''b'']))))) =
     mset (sl_sandboxes (sample_list [''a'', ''c'', ''b'']))"
proof -
  let ?t = "dashboard_step sample_board (List_result (sample_answer (sample_list [''a'', ''c'', ''b''])))"
  have "sourceFleet ?t = Some (sample_list [''a'', ''c'', ''b''])"
    unfolding dashboard_step_def dashboard_effects_keep memo_keep
    by (simp add: sourceFleet_def lifecycleActive_def currentFleetList_def sample_answer_def sample_board_fields sample_idle)
  moreover have "lists_once (List_result (sample_answer (sample_list [''a'', ''c'', ''b''])))"
    by (simp add: sample_answer_def sample_list_def listed_once_def list_records_def sample_record_def)
  ultimately show ?thesis
    using dashboard_order [OF sample_possible _ sample_board_def refl] by (simp add: list_records_def)
qed

theorem dashboard_clusters_agree_witness:
  "\<exists>(cl, ms) \<in> set (visibleClusters (dashboard_step sample_board (Follow_cluster ''x''))). cl_id cl = ''x'' \<and> ms = cl_members cl"
proof -
  have "sample_record ''a'' Ready None \<in> set (visibleSandboxes sample_board)"
    by (simp add: visibleSandboxes_def filterFleetRecords_def sample_board_fields trim_def sample_list_def)
  moreover have "map_of (clusterIdsBySandbox sample_board) (rec_id (sample_record ''a'' Ready None)) = Some ''x''"
    by (simp add: clusterIdsBySandbox_def db_presentation_def resolveSandboxClusters_def resolve_step_def sample_board_fields sample_list_def
        sample_cluster_def sample_record_def map_new_def List.map_filter_def set_new_def set_add_def SandboxClusterRecord.defs)
  ultimately show ?thesis
    using conjunct1 [OF conjunct2 [OF dashboard_clusters_agree [OF sample_possible sample_board_def]]] by blast
qed

end
