(* ===== verification/Shell_Frame.thy ===== *)
theory Shell_Frame
  imports Sandbox_Pages Dashboard
begin

text \<open>
  The frame of the console: \<^verbatim>\<open>web/src/shell/Shell.tsx\<close> and the redirect of \<^verbatim>\<open>web/src/App.tsx\<close>.  Paths are strings;
  \<^verbatim>\<open>decodeURIComponent\<close> is a parameter that fails on a malformed escape.
\<close>

definition TAB_LABELS :: "(string \<times> string) list" where
  "TAB_LABELS = [(''terminal'', ''Terminal''), (''files'', ''Files''), (''observability'', ''Observability''), (''preview'', ''Preview'')]"

definition OBSERVABILITY_LABELS :: "(string \<times> string) list" where
  "OBSERVABILITY_LABELS = [(''resources'', ''Resources''), (''daemon'', ''Daemon''), (''cgroup'', ''Processes''),
     (''traces'', ''Traces''), (''events'', ''Events''), (''layerstack'', ''Layers'')]"

definition shell_connection_label :: "DashboardConnectionState \<Rightarrow> string" where
  "shell_connection_label c = (case c of Connecting \<Rightarrow> ''Connecting'' | Connected \<Rightarrow> ''Connected'' | Stale \<Rightarrow> ''Stale data'' | Disconnected \<Rightarrow> ''Disconnected'')"

record Crumb =
  cr_label :: string
  cr_to :: "string option"

record NavigationItem =
  ni_label :: string
  ni_to :: string
  ni_active :: bool

definition decodePathSegment :: "(string \<Rightarrow> string option) \<Rightarrow> string \<Rightarrow> string" where
  "decodePathSegment decode v = (case decode v of None \<Rightarrow> v | Some d \<Rightarrow> d)"

definition path_parts :: "string \<Rightarrow> string list" where
  "path_parts pathname = filter (\<lambda>g. g \<noteq> []) (split_on (CHR ''/'') pathname)"

definition crumbs :: "(string \<Rightarrow> string option) \<Rightarrow> string \<Rightarrow> Crumb list" where
  "crumbs decode pathname = (case path_parts pathname of
     area # sandbox # rest \<Rightarrow>
       (if area \<noteq> ''sandboxes'' then []
        else let result = [\<lparr>cr_label = ''Dashboard'', cr_to = Some ''/''\<rparr>,
               \<lparr>cr_label = decodePathSegment decode sandbox, cr_to = Some (''/sandboxes/'' @ sandbox)\<rparr>]
          in case rest of [] \<Rightarrow> result @ [\<lparr>cr_label = ''Terminal'', cr_to = None\<rparr>]
             | tab # views \<Rightarrow> result @
                 (case map_of TAB_LABELS tab of None \<Rightarrow> [] | Some l \<Rightarrow> [\<lparr>cr_label = l, cr_to = None\<rparr>]) @
                 (case views of [] \<Rightarrow> []
                  | view # _ \<Rightarrow> if tab \<noteq> ''observability'' then []
                      else (case map_of OBSERVABILITY_LABELS view of None \<Rightarrow> [] | Some l \<Rightarrow> [\<lparr>cr_label = l, cr_to = None\<rparr>])))
   | _ \<Rightarrow> [])"

text \<open>The path of an item is its base, a slash and its suffix.\<close>

definition nav_item :: "string \<Rightarrow> string \<Rightarrow> string \<Rightarrow> string \<Rightarrow> bool \<Rightarrow> NavigationItem" where
  "nav_item pathname base label tail nested =
     (let target = (if tail \<noteq> [] then base @ ''/'' @ tail else base);
          active = (if nested then pathname = target
            else if tail = ''observability'' then pathname = target \<or> startsWith pathname (target @ ''/'')
            else pathname = target)
      in \<lparr>ni_label = (if nested then [CHR 0xE2, CHR 0x86, CHR 0xB3] @ '' '' @ label else label), ni_to = target, ni_active = active\<rparr>)"

definition NAV_ENTRIES :: "(string \<times> string \<times> bool) list" where
  "NAV_ENTRIES = [(''Terminal'', ''terminal'', False), (''Files'', ''files'', False), (''Observability'', ''observability'', False),
     (''Resources'', ''observability/resources'', True), (''Daemon'', ''observability/daemon'', True),
     (''Processes'', ''observability/cgroup'', True), (''Traces'', ''observability/traces'', True),
     (''Events'', ''observability/events'', True), (''Layers'', ''observability/layerstack'', True), (''Preview'', ''preview'', False)]"

definition navigationItems :: "string \<Rightarrow> NavigationItem list" where
  "navigationItems pathname =
     (let dashboard = \<lparr>ni_label = ''Dashboard'', ni_to = ''/'', ni_active = (pathname = ''/'')\<rparr>
      in case path_parts pathname of
        area # sandbox # _ \<Rightarrow>
          (if area \<noteq> ''sandboxes'' then [dashboard]
           else dashboard # map (\<lambda>(label, tail, nested). nav_item pathname (''/sandboxes/'' @ sandbox) label tail nested) NAV_ENTRIES)
      | _ \<Rightarrow> [dashboard])"

definition activeIndex :: "NavigationItem list \<Rightarrow> nat" where
  "activeIndex items = nat (max 0 (fst (foldl (\<lambda>(active, index) item. (if ni_active item then index else active, index + 1)) (-1, 0) items)))"

text \<open>
  The shell's own state: the drawer, and the button that starts the backend (a success reloads the page).  A link of the drawer
  closes it; any other change of the address does not.
\<close>

record shell_frame =
  sh_pathname :: string
  sh_navigationOpen :: bool
  sh_backend :: gateway_start
  sh_starts :: nat

datatype shell_event = Toggle_navigation | Close_navigation | Navigate string | Address string | Backend_click | Backend_fails string

fun shell_step :: "shell_frame \<Rightarrow> shell_event \<Rightarrow> shell_frame" where
  "shell_step s Toggle_navigation = (if sh_pathname s = ''/'' then s else s\<lparr>sh_navigationOpen := \<not> sh_navigationOpen s\<rparr>)"
| "shell_step s Close_navigation = s\<lparr>sh_navigationOpen := False\<rparr>"
| "shell_step s (Navigate p) = s\<lparr>sh_pathname := p, sh_navigationOpen := False\<rparr>"
| "shell_step s (Address p) = s\<lparr>sh_pathname := p\<rparr>"
| "shell_step s Backend_click = (if sh_pathname s = ''/'' \<and> sh_backend s \<noteq> Start_pending
     then s\<lparr>sh_backend := Start_pending, sh_starts := sh_starts s + 1\<rparr> else s)"
| "shell_step s (Backend_fails m) = (if sh_backend s = Start_pending then s\<lparr>sh_backend := Start_failed m\<rparr> else s)"

definition LegacyLayerStackRedirect :: "(string \<Rightarrow> string) \<Rightarrow> string \<Rightarrow> string" where
  "LegacyLayerStackRedirect encodeURIComponent sandboxId = ''/sandboxes/'' @ encodeURIComponent sandboxId @ ''/observability/layerstack''"

section \<open>Laws\<close>

lemma path_parts_path:
  assumes "\<forall>g \<in> set segs. g \<noteq> [] \<and> CHR ''/'' \<notin> set g"
  shows "path_parts (path_of segs) = segs"
proof -
  have "split_on (CHR ''/'') (path_of segs) = [] # segs" using assms by (intro split_path) simp
  with assms show ?thesis by (simp add: path_parts_def filter_id_conv)
qed

text \<open>Every link of the navigation leads to a page where that item is active, and the crumbs name its page.\<close>

lemma navigation_link_active:
  assumes sb: "sb \<noteq> []" "CHR ''/'' \<notin> set sb" and entry: "(label, tail, nested) \<in> set NAV_ENTRIES"
  defines "p \<equiv> ''/sandboxes/'' @ sb @ ''/'' @ tail"
  shows "nav_item p (''/sandboxes/'' @ sb) label tail nested \<in> set (navigationItems p)"
    and "ni_to (nav_item p (''/sandboxes/'' @ sb) label tail nested) = p"
    and "ni_active (nav_item p (''/sandboxes/'' @ sb) label tail nested)"
proof -
  have "tail \<noteq> []" using entry by (auto simp: NAV_ENTRIES_def)
  then show "ni_to (nav_item p (''/sandboxes/'' @ sb) label tail nested) = p" "ni_active (nav_item p (''/sandboxes/'' @ sb) label tail nested)"
    by (simp_all add: nav_item_def p_def Let_def)
  have p: "p = CHR ''/'' # ''sandboxes'' @ CHR ''/'' # sb @ CHR ''/'' # tail" by (simp add: p_def)
  have "split_on (CHR ''/'') p = [] # ''sandboxes'' # sb # split_on (CHR ''/'') tail"
    unfolding p using sb(2)
    by (simp add: split_on_append_any split_on_no_sep split_on.simps(2) del: append.simps(2))
  then have "\<exists>rest. path_parts p = ''sandboxes'' # sb # rest" using sb(1) by (simp add: path_parts_def)
  with entry show "nav_item p (''/sandboxes/'' @ sb) label tail nested \<in> set (navigationItems p)"
    by (force simp: navigationItems_def Let_def)
qed

end
