(* ===== verification/View.thy ===== *)
theory View
  imports Machine Js_Number
begin

text \<open>
  What a component renders, as a tree: text, and elements with the attributes that carry data (names, titles, states, addresses,
  geometry computed from data), the handlers that send events to the component's machine, and children.  Attributes that only
  lay out or colour the page are left out.  An event reaches the handlers of the enclosing elements too, as further events.  A drawer is drawn while it is open.  The locale \<open>rendered\<close> is what a page promises of
  the clicks it offers, and gives what holds after any number of them.
\<close>

text \<open>A handler sends one event, the event of a text the user enters, or that of an option chosen (or taken back) in a list.\<close>

datatype 'e handler = Send 'e | Send_text "string \<Rightarrow> 'e" | Send_choice "string list" "string option \<Rightarrow> 'e"

datatype 'e view = Txt string | El string "(string \<times> string) list" "(string \<times> 'e handler) list" "'e view list"

fun sends :: "'e handler \<Rightarrow> 'e set" where
  "sends (Send e) = {e}"
| "sends (Send_text f) = range f"
| "sends (Send_choice opts f) = f ` insert None (Some ` set opts)"

definition attr_on :: "string \<Rightarrow> (string \<times> string) list \<Rightarrow> bool" where
  "attr_on k as = (map_of as k = Some ''true'')"

text \<open>The events a user can send: those of the handlers of elements that are not disabled.\<close>

fun offered :: "'e view \<Rightarrow> 'e set" where
  "offered (Txt s) = {}"
| "offered (El t as hs vs) = (if attr_on ''disabled'' as then {} else \<Union>(sends ` snd ` set hs)) \<union> \<Union>(set (map offered vs))"

fun view_text :: "'e view \<Rightarrow> string" where
  "view_text (Txt s) = s"
| "view_text (El t as hs vs) = concat (map view_text vs)"

text \<open>The values of an attribute over the whole view, in document order.\<close>

fun attr_values :: "string \<Rightarrow> 'e view \<Rightarrow> string list" where
  "attr_values k (Txt s) = []"
| "attr_values k (El t as hs vs) = (case map_of as k of None \<Rightarrow> [] | Some v \<Rightarrow> [v]) @ concat (map (attr_values k) vs)"

definition flag :: "string \<Rightarrow> bool \<Rightarrow> (string \<times> string) list" where
  "flag k b = (if b then [(k, ''true'')] else [])"

definition attr_bool :: "string \<Rightarrow> bool \<Rightarrow> (string \<times> string) list" where
  "attr_bool k b = [(k, if b then ''true'' else ''false'')]"

definition show_when :: "bool \<Rightarrow> 'e view \<Rightarrow> 'e view list" where
  "show_when b v = (if b then [v] else [])"

text \<open>Elements without attributes or handlers, and the ellipsis and the dash of the texts.\<close>

definition box :: "string \<Rightarrow> 'e view list \<Rightarrow> 'e view" where
  "box t vs = El t [] [] vs"

definition caption :: "string \<Rightarrow> 'e view" where
  "caption s = El ''text'' [] [] [Txt s]"

definition ellipsis :: string where "ellipsis = [CHR 0xE2, CHR 0x80, CHR 0xA6]"

definition em_dash :: string where "em_dash = '' '' @ [CHR 0xE2, CHR 0x80, CHR 0x94] @ '' ''"

text \<open>What a page takes from the browser: the text of a number, its locale forms, a time of day, and the encoding of a path segment.\<close>

record page_env =
  en_number :: "rat \<Rightarrow> string"
  en_locale :: "int \<Rightarrow> string"
  en_decimals :: "rat \<Rightarrow> string"
  en_compact :: "rat \<Rightarrow> string"
  en_time :: "int \<Rightarrow> string"
  en_encode :: "string \<Rightarrow> string"

definition formatTimestamp :: "page_env \<Rightarrow> int \<Rightarrow> string" where
  "formatTimestamp env unixMs = en_time env unixMs"

fun number_text :: "page_env \<Rightarrow> jsnum \<Rightarrow> string" where
  "number_text env (Fin q) = en_number env q"
| "number_text env PosInf = ''Infinity''"
| "number_text env NegInf = ''-Infinity''"
| "number_text env NaN = ''NaN''"

lemma flag_simps [simp]: "map_of (flag k b) j = (if b \<and> k = j then Some ''true'' else None)" "flag k False = []"
  by (simp_all add: flag_def)

lemma show_when_simps [simp]: "show_when True v = [v]" "show_when False v = []"
  "set (show_when b v) = (if b then {v} else {})"
  by (simp_all add: show_when_def)

lemma attr_bool_simps [simp]: "map_of (attr_bool k b) j = (if k = j then Some (if b then ''true'' else ''false'') else None)"
  by (simp add: attr_bool_def)

lemma box_simps [simp]: "offered (box t vs) = \<Union>(set (map offered vs))" "view_text (box t vs) = concat (map view_text vs)"
  "attr_values k (box t vs) = concat (map (attr_values k) vs)"
  by (simp_all add: box_def)

lemma caption_simps [simp]: "offered (caption s) = {}" "view_text (caption s) = s" "attr_values k (caption s) = []"
  by (simp_all add: caption_def)

lemma attr_on_simps [simp]: "attr_on k [] = False" "attr_on k ((j, v) # as) = (if j = k then v = ''true'' else attr_on k as)"
  "attr_on k (flag j b @ as) = ((k = j \<and> b) \<or> attr_on k as)" "attr_on k (flag j b) = (k = j \<and> b)"
  "attr_on k (attr_bool j b @ as) = (if k = j then b else attr_on k as)" "attr_on k (attr_bool j b) = (k = j \<and> b)"
  by (auto simp: attr_on_def map_add_def split: option.splits)

text \<open>A component inside another: its events are events of the outer one.\<close>

lemma sends_map [simp]: "sends (map_handler f h) = f ` sends h"
  by (cases h) (auto simp: image_image image_comp)

lemma offered_map_view: "offered (map_view f v) = f ` offered v"
proof (induction v)
  case (El t as hs vs)
  then show ?case by (auto simp: image_UN image_Un image_image)
qed simp

section \<open>Clicks\<close>

text \<open>A run in which every event is one that the view of the moment offers.\<close>

fun clicks :: "('s \<Rightarrow> 'e view) \<Rightarrow> ('s \<Rightarrow> 'e \<Rightarrow> 's) \<Rightarrow> 's \<Rightarrow> 'e list \<Rightarrow> bool" where
  "clicks draw step s [] = True"
| "clicks draw step s (e # es) = (e \<in> offered (draw s) \<and> clicks draw step (step s e) es)"

locale rendered =
  fixes draw :: "'s \<Rightarrow> 'e view" and step :: "'s \<Rightarrow> 'e \<Rightarrow> 's" and promise :: "'s \<Rightarrow> 's \<Rightarrow> bool"
  assumes promise_refl: "promise s s"
    and promise_trans: "promise s t \<Longrightarrow> promise t u \<Longrightarrow> promise s u"
    and promise_offered: "e \<in> offered (draw s) \<Longrightarrow> promise s (step s e)"
begin

lemma promise_clicks: "clicks draw step s es \<Longrightarrow> promise s (run step s es)"
  by (induction es arbitrary: s) (auto intro: promise_refl promise_trans promise_offered)

end

end
