(* ===== verification/Shell_View.thy ===== *)
theory Shell_View
  imports Shell_Frame View
begin

text \<open>
  What the frame of the console renders: \<^verbatim>\<open>web/src/shell/Shell.tsx\<close>, with the names of \<^verbatim>\<open>web/src/config/brand.ts\<close> and the page
  for unknown addresses, \<^verbatim>\<open>web/src/pages/NotFound.tsx\<close>.  The page of the address is a machine of its own, drawn in the outlet.
\<close>

section \<open>Names\<close>

definition PRODUCT_NAME :: string where "PRODUCT_NAME = ''Ephemeral Sandbox''"
definition MASCOT_PNG_URL :: string where "MASCOT_PNG_URL = ''/brand/ephemeral-sandbox-mascot-b9408770.png''"
definition MASCOT_WEBP_URL :: string where "MASCOT_WEBP_URL = ''/brand/ephemeral-sandbox-mascot-b9408770.webp''"

definition connection_text :: "DashboardConnectionState \<Rightarrow> string" where
  "connection_text c = (case c of Connecting \<Rightarrow> ''connecting'' | Connected \<Rightarrow> ''connected'' | Stale \<Rightarrow> ''stale'' | Disconnected \<Rightarrow> ''disconnected'')"

section \<open>The header\<close>

definition brand_link :: "shell_event view" where
  "brand_link = El ''a'' [(''aria-label'', PRODUCT_NAME @ '' dashboard''), (''to'', ''/'')] [(''click'', Send (Address ''/''))]
     [box ''picture'' [El ''source'' [(''srcSet'', MASCOT_WEBP_URL)] [] [], El ''img'' [(''src'', MASCOT_PNG_URL)] [] []], caption PRODUCT_NAME]"

definition console_pill :: "DashboardConnectionState \<Rightarrow> shell_event view" where
  "console_pill c = El ''status'' [(''aria-label'', ''Console '' @ shell_connection_label c)] []
     [El ''dot'' [(''data-connection'', connection_text c)] [] [], Txt ''Console'', Txt (em_dash @ shell_connection_label c)]"

definition crumb_view :: "Crumb \<Rightarrow> shell_event view" where
  "crumb_view c = (case cr_to c of Some to \<Rightarrow> El ''a'' [(''to'', to)] [(''click'', Send (Address to))] [Txt (cr_label c)] | None \<Rightarrow> caption (cr_label c))"

definition shell_header :: "(string \<Rightarrow> string option) \<Rightarrow> DashboardConnectionState \<Rightarrow> shell_frame \<Rightarrow> shell_event view" where
  "shell_header decode connection s = (let isDashboard = (sh_pathname s = ''/''); trail = crumbs decode (sh_pathname s) in
     box ''header''
       (show_when (\<not> isDashboard) (El ''burger'' [(''aria-label'', if sh_navigationOpen s then ''Close navigation'' else ''Open navigation'')]
          [(''click'', Send Toggle_navigation)] []) @
        [brand_link] @
        show_when isDashboard (console_pill connection) @
        show_when (\<not> isDashboard \<and> trail \<noteq> []) (El ''nav'' (flag ''data-console-breadcrumbs'' True) [] (map crumb_view trail))))"

section \<open>The drawer and the backend button\<close>

definition nav_button :: "nat \<Rightarrow> nat \<times> NavigationItem \<Rightarrow> shell_event view" where
  "nav_button active = (\<lambda>(index, item). El ''a'' (flag ''data-shell-active-navigation'' (index = active) @
     [(''to'', ni_to item), (''variant'', if ni_active item then ''filled'' else ''subtle'')])
     [(''click'', Send (Navigate (ni_to item)))] [Txt (ni_label item)])"

definition shell_drawer :: "shell_frame \<Rightarrow> shell_event view list" where
  "shell_drawer s = (let items = navigationItems (sh_pathname s) in
     show_when (sh_navigationOpen s) (El ''drawer'' [(''title'', ''Navigation'')] [(''close'', Send Close_navigation)]
       [El ''nav'' [(''aria-label'', ''Primary navigation'')] [] (map (nav_button (activeIndex items)) (List.enumerate 0 items))]))"

text \<open>A button that is loading is disabled.\<close>

definition backend_control :: "gateway_start \<Rightarrow> shell_event view" where
  "backend_control b = El ''box'' (flag ''data-backend-control'' True) []
     ((case b of Start_failed m \<Rightarrow> [caption m] | _ \<Rightarrow> []) @
      [El ''button'' (flag ''disabled'' (b = Start_pending) @ [(''title'', ''Start backend and reload console'')])
         [(''click'', Send Backend_click)] [Txt ''Start/reload backend'']])"

definition Shell :: "(string \<Rightarrow> string option) \<Rightarrow> DashboardConnectionState \<Rightarrow> shell_frame \<Rightarrow> shell_event view" where
  "Shell decode connection s = (let isDashboard = (sh_pathname s = ''/'') in
     El ''shell'' (flag ''data-console-shell'' True @ flag ''data-dashboard-shell'' isDashboard) []
       ([El ''a'' [(''href'', ''#main-content'')] [] [Txt ''Skip to main content''], shell_header decode connection s] @
        shell_drawer s @
        [El ''main'' [(''id'', ''main-content'')] [] [El ''outlet'' [(''path'', sh_pathname s)] [] []]] @
        show_when isDashboard (backend_control (sh_backend s))))"

definition NotFound :: "shell_event view" where
  "NotFound = box ''stack'' [caption ''Nothing here'', caption (''This route doesn'' @ [CHR 39] @ ''t exist.''),
     El ''a'' [(''to'', ''/'')] [(''click'', Send (Address ''/''))] [Txt ''Back to the Fleet Board'']]"

section \<open>Laws\<close>

lemma activeIndex_less: "items \<noteq> [] \<Longrightarrow> activeIndex items < length items"
proof -
  assume ne: "items \<noteq> []"
  have "snd (foldl (\<lambda>(active, index) item. (if ni_active item then index else active, index + 1)) (-1, 0) xs) = int (length xs) \<and>
      fst (foldl (\<lambda>(active, index) item. (if ni_active item then index else active, index + 1)) (-1 :: int, 0 :: int) xs) < int (length xs)" for xs
    by (induction xs rule: rev_induct) (auto split: prod.splits)
  then have "fst (foldl (\<lambda>(active, index) item. (if ni_active item then index else active, index + 1)) (-1 :: int, 0 :: int) items) < int (length items)" by blast
  moreover have "0 < int (length items)" using ne by simp
  ultimately show ?thesis unfolding activeIndex_def by linarith
qed

text \<open>While the drawer is open exactly one of its links is the one that takes the focus.\<close>

lemma one_focused_link:
  assumes "sh_navigationOpen s"
  shows "concat (map (attr_values ''data-shell-active-navigation'') (shell_drawer s)) = [''true'']"
proof -
  define items where "items = navigationItems (sh_pathname s)"
  have ne: "items \<noteq> []" by (auto simp: items_def navigationItems_def Let_def split: list.splits)
  have one: "concat (map (attr_values ''data-shell-active-navigation'' \<circ> nav_button k) (List.enumerate n xs)) =
      (if n \<le> k \<and> k < n + length xs then [''true''] else [])" for k n xs
    by (induction xs arbitrary: n) (auto simp: nav_button_def flag_def)
  show ?thesis using assms one [of "activeIndex items" 0 items] activeIndex_less [OF ne]
    by (simp add: shell_drawer_def items_def Let_def map_map [symmetric] del: map_map)
qed

section \<open>What the frame offers\<close>

lemma offered_crumb [simp]: "offered (crumb_view c) = Address ` set_option (cr_to c)"
  by (simp add: crumb_view_def split: option.splits)

lemma offered_shell_header:
  "offered (shell_header decode connection s) = insert (Address ''/'') (if sh_pathname s = ''/'' then {}
     else insert Toggle_navigation (\<Union>c \<in> set (crumbs decode (sh_pathname s)). Address ` set_option (cr_to c)))"
  by (auto simp: shell_header_def brand_link_def console_pill_def Let_def)

lemma offered_drawer:
  "\<Union>(offered ` set (shell_drawer s)) = (if sh_navigationOpen s then insert Close_navigation (Navigate ` ni_to ` set (navigationItems (sh_pathname s))) else {})"
proof -
  have "\<Union>(offered ` set (map (nav_button k) (List.enumerate n xs))) = Navigate ` ni_to ` set xs" for k n xs
    by (induction xs arbitrary: n) (auto simp: nav_button_def)
  then show ?thesis by (simp add: shell_drawer_def Let_def)
qed

lemma offered_backend: "offered (backend_control b) = (if b = Start_pending then {} else {Backend_click})"
  by (cases b) (auto simp: backend_control_def)

lemma offered_Shell:
  "offered (Shell decode connection s) = offered (shell_header decode connection s) \<union> \<Union>(offered ` set (shell_drawer s)) \<union>
     (if sh_pathname s = ''/'' then offered (backend_control (sh_backend s)) else {})"
  by (auto simp: Shell_def Let_def)

text \<open>Clicks on the frame start the backend at most once while a start is pending, and never report a failure of their own.\<close>

definition starts_once :: "shell_frame \<Rightarrow> shell_frame \<Rightarrow> bool" where
  "starts_once s t = ((sh_backend s = Start_pending \<longrightarrow> sh_backend t = Start_pending \<and> sh_starts t = sh_starts s) \<and>
     sh_starts s \<le> sh_starts t \<and> sh_starts t \<le> Suc (sh_starts s) \<and>
     (sh_starts t = sh_starts s \<longrightarrow> sh_backend t = sh_backend s) \<and> (sh_starts t \<noteq> sh_starts s \<longrightarrow> sh_backend t = Start_pending))"

interpretation shell_frame: rendered "Shell decode connection" shell_step starts_once
proof
  fix s e assume "e \<in> offered (Shell decode connection s)"
  then have "\<forall>m. e \<noteq> Backend_fails m"
    by (auto simp: offered_Shell offered_shell_header offered_drawer offered_backend split: if_splits)
  then show "starts_once s (shell_step s e)" by (cases e) (auto simp: starts_once_def)
qed (auto simp: starts_once_def)

end
