(* ===== verification/Fleet_Actions.thy ===== *)
theory Fleet_Actions
  imports Clusters Machine Js_Number
begin

text \<open>
  Actions on sandboxes and small displays: \<^verbatim>\<open>DestroyAction.tsx\<close>, \<^verbatim>\<open>SquashDialog.tsx\<close>,
  \<^verbatim>\<open>RemoveClusterAction.tsx\<close>, \<^verbatim>\<open>ErrorToast.tsx\<close>, \<^verbatim>\<open>HealthDot.tsx\<close>, \<^verbatim>\<open>StateBadge.tsx\<close>, \<^verbatim>\<open>ResourceSparkline.tsx\<close> and
  \<^verbatim>\<open>StreamLogPane.tsx\<close> of \<^verbatim>\<open>web/src/components\<close>.  An action is an event machine with its calls in flight; a
  disabled or loading button and a closed dialog take no click.  The refresh that destroying and removing await after their answer changes nothing the
  component shows, so the event of the answer is the end of both.
\<close>

section \<open>Error notifications\<close>

record ErrorNotification =
  en_kind :: json
  en_message :: string
  en_details :: "string option"

definition toErrorNotification :: "thrown \<Rightarrow> ErrorNotification" where
  "toErrorNotification e = (case e of
     Thrown_rpc r \<Rightarrow> (let details = JSON_stringify (nullish (Some (err_details r)) (JObj [])) in
       \<lparr>en_kind = (if err_transport r then JStr (js_string (err_kind r) @ '' (transport)'') else err_kind r),
        en_message = err_message r, en_details = (if details = ''{}'' then None else Some details)\<rparr>)
   | Thrown_error m \<Rightarrow> \<lparr>en_kind = JStr ''client_error'', en_message = m, en_details = None\<rparr>
   | Thrown_value v \<Rightarrow> \<lparr>en_kind = JStr ''client_error'', en_message = v, en_details = None\<rparr>)"

text \<open>The notifications shown, each under a fresh number.\<close>

record toasts =
  to_next :: nat
  to_shown :: "(string \<times> ErrorNotification) list"

definition showNormalizedError :: "thrown \<Rightarrow> toasts \<Rightarrow> toasts" where
  "showNormalizedError e ts = ts\<lparr>to_next := to_next ts + 1, to_shown := to_shown ts @ [(''error-'' @ show_nat (to_next ts), toErrorNotification e)]\<rparr>"

section \<open>Destroying a sandbox\<close>

text \<open>A call remembers the path of the render it was started from; the user may have moved on since.\<close>

record destroy_action =
  da_busy :: bool
  da_calls :: "string list"
  da_pathname :: string
  da_toasts :: toasts

datatype destroy_event = Destroy_click | Destroy_done "thrown option" | Move_to string

definition destroy :: "destroy_action \<Rightarrow> destroy_action" where
  "destroy s = (if da_busy s then s else s\<lparr>da_busy := True, da_calls := da_calls s @ [da_pathname s]\<rparr>)"

definition destroy_done :: "string \<Rightarrow> thrown option \<Rightarrow> destroy_action \<Rightarrow> destroy_action" where
  "destroy_done started failure s = (let s1 = (case failure of
       None \<Rightarrow> if started \<noteq> ''/'' then s\<lparr>da_pathname := ''/''\<rparr> else s
     | Some e \<Rightarrow> s\<lparr>da_toasts := showNormalizedError e (da_toasts s)\<rparr>)
     in s1\<lparr>da_busy := False\<rparr>)"

fun destroy_step :: "destroy_action \<Rightarrow> destroy_event \<Rightarrow> destroy_action" where
  "destroy_step s Destroy_click = destroy s"
| "destroy_step s (Destroy_done failure) = (case da_calls s of [] \<Rightarrow> s
     | started # calls \<Rightarrow> destroy_done started failure (s\<lparr>da_calls := calls\<rparr>))"
| "destroy_step s (Move_to p) = s\<lparr>da_pathname := p\<rparr>"

section \<open>Squashing the layer stack\<close>

record squash_dialog =
  sq_open :: bool
  sq_busy :: bool
  sq_logs :: "string list"
  sq_result :: "json option"
  sq_calls :: nat
  sq_toasts :: toasts

datatype squash_event = Squash_trigger | Squash_close | Squash_run | Squash_line string | Squash_done "thrown + json"

definition openDialog :: "squash_dialog \<Rightarrow> squash_dialog" where
  "openDialog s = (if sq_busy s then s else s\<lparr>sq_logs := [], sq_result := None, sq_open := True\<rparr>)"

definition run_squash :: "squash_dialog \<Rightarrow> squash_dialog" where
  "run_squash s = s\<lparr>sq_busy := True, sq_logs := [], sq_result := None, sq_calls := sq_calls s + 1\<rparr>"

definition squash_done :: "thrown + json \<Rightarrow> squash_dialog \<Rightarrow> squash_dialog" where
  "squash_done outcome s = (let s1 = (case outcome of
       Inr v \<Rightarrow> s\<lparr>sq_result := Some v\<rparr>
     | Inl e \<Rightarrow> s\<lparr>sq_toasts := showNormalizedError e (sq_toasts s), sq_open := False\<rparr>)
     in s1\<lparr>sq_busy := False, sq_calls := sq_calls s - 1\<rparr>)"

fun squash_dialog_step :: "squash_dialog \<Rightarrow> squash_event \<Rightarrow> squash_dialog" where
  "squash_dialog_step s Squash_trigger = openDialog s"
| "squash_dialog_step s Squash_close = (if sq_busy s then s else s\<lparr>sq_open := False\<rparr>)"
| "squash_dialog_step s Squash_run = (if sq_open s \<and> \<not> sq_busy s then run_squash s else s)"
| "squash_dialog_step s (Squash_line l) = (if sq_calls s = 0 then s else s\<lparr>sq_logs := sq_logs s @ [l]\<rparr>)"
| "squash_dialog_step s (Squash_done outcome) = (if sq_calls s = 0 then s else squash_done outcome s)"

definition squash_button :: "squash_dialog \<Rightarrow> string" where
  "squash_button s = (if sq_busy s then ''Squashing'' @ [CHR 0xE2, CHR 0x80, CHR 0xA6] else ''Squash'')"

text \<open>What the pane of progress lines shows, and whether it is there.\<close>

definition StreamLogPane :: "string list \<Rightarrow> string list" where
  "StreamLogPane lines = (if lines = [] then [''waiting for progress'' @ [CHR 0xE2, CHR 0x80, CHR 0xA6]] else lines)"

definition squash_pane :: "squash_dialog \<Rightarrow> string list option" where
  "squash_pane s = (if sq_busy s \<or> sq_logs s \<noteq> [] then Some (StreamLogPane (sq_logs s)) else None)"

text \<open>The dialog as it is seen: the pane and the result, while it is open.\<close>

definition squash_shown :: "squash_dialog \<Rightarrow> (string list option \<times> json option) option" where
  "squash_shown s = (if sq_open s then Some (squash_pane s, Option.bind (sq_result s) (\<lambda>v. if truthy v then Some v else None)) else None)"

definition squash_stack_note :: "nat option \<Rightarrow> string" where
  "squash_stack_note layerCount = (case layerCount of None \<Rightarrow> [] | Some n \<Rightarrow> '' Current stack: '' @ show_nat n @ '' layers.'')"

section \<open>Removing a cluster\<close>

record remove_action =
  ra_open :: bool
  ra_busy :: bool
  ra_calls :: nat
  ra_storage :: local_storage
  ra_notices :: "string list"
  ra_toasts :: toasts

datatype remove_event = Remove_open | Remove_close | Remove_click | Remove_answer fetch_outcome

definition removal_done :: "string \<Rightarrow> nat \<Rightarrow> fetch_outcome \<Rightarrow> remove_action \<Rightarrow> remove_action" where
  "removal_done clusterId memberCount outcome s =
     (let s1 = (case removeSandboxCluster clusterId outcome (ra_storage s) of
          Inr storage \<Rightarrow> s\<lparr>ra_storage := storage, ra_open := False,
            ra_notices := ra_notices s @ [show_nat memberCount @ '' sandboxes are still running as individuals.'']\<rparr>
        | Inl m \<Rightarrow> s\<lparr>ra_toasts := showNormalizedError (Thrown_error m) (ra_toasts s)\<rparr>)
      in s1\<lparr>ra_busy := False, ra_calls := ra_calls s - 1\<rparr>)"

fun remove_step :: "string \<Rightarrow> nat \<Rightarrow> remove_action \<Rightarrow> remove_event \<Rightarrow> remove_action" where
  "remove_step i n s Remove_open = s\<lparr>ra_open := True\<rparr>"
| "remove_step i n s Remove_close = (if ra_busy s then s else s\<lparr>ra_open := False\<rparr>)"
| "remove_step i n s Remove_click = (if ra_open s \<and> \<not> ra_busy s then s\<lparr>ra_busy := True, ra_calls := ra_calls s + 1\<rparr> else s)"
| "remove_step i n s (Remove_answer outcome) = (if ra_calls s = 0 then s else removal_done i n outcome s)"

section \<open>Displays\<close>

definition HealthDot :: "Endpoint option \<Rightarrow> string \<times> string" where
  "HealthDot endpoint = (if endpoint \<noteq> None then (''daemon_http endpoint registered'', ''http ready'')
     else (''daemon_http endpoint unavailable'', ''http unavailable''))"

datatype Tone = Tone_ok | Tone_run | Tone_warn | Tone_idle | Tone_danger

fun toneColors :: "Tone \<Rightarrow> string" where
  "toneColors Tone_ok = ''success''"
| "toneColors Tone_run = ''eyeBlue''"
| "toneColors Tone_warn = ''warning''"
| "toneColors Tone_idle = ''warm''"
| "toneColors Tone_danger = ''danger''"

fun sandboxTones :: "SandboxState \<Rightarrow> Tone" where
  "sandboxTones Ready = Tone_ok"
| "sandboxTones Creating = Tone_run"
| "sandboxTones Stopping = Tone_warn"
| "sandboxTones Stopped = Tone_idle"
| "sandboxTones Failed = Tone_danger"

fun commandTones :: "CommandStatus \<Rightarrow> Tone" where
  "commandTones Cmd_running = Tone_run"
| "commandTones Cmd_ok = Tone_ok"
| "commandTones Cmd_error = Tone_danger"
| "commandTones Cmd_timed_out = Tone_warn"
| "commandTones Cmd_cancelled = Tone_idle"

definition StateBadge :: "SandboxState + CommandStatus + Tone \<Rightarrow> string" where
  "StateBadge st = toneColors (case st of Inl s \<Rightarrow> sandboxTones s | Inr (Inl c) \<Rightarrow> commandTones c | Inr (Inr t) \<Rightarrow> t)"

text \<open>The points of a sparkline, before they are rounded to one decimal and joined.\<close>

definition sparkline_y :: "rat list \<Rightarrow> rat \<Rightarrow> rat \<Rightarrow> rat" where
  "sparkline_y values height v = (let low = Min (set values); high = Max (set values);
       spread = (if high - low = 0 then 1 else high - low)
     in height - 2 - (v - low) / spread * (height - 4))"

definition sparkline_x :: "rat list \<Rightarrow> rat \<Rightarrow> nat \<Rightarrow> rat" where
  "sparkline_x values width i = 1 + of_nat i * ((width - 2) / of_nat (length values - 1))"

definition sparkline_coords :: "rat list \<Rightarrow> rat \<Rightarrow> rat \<Rightarrow> (rat \<times> rat) list" where
  "sparkline_coords values width height =
     map (\<lambda>(i, v). (sparkline_x values width i, sparkline_y values height v)) (zip [0..<length values] values)"

definition sparklinePoints :: "rat list \<Rightarrow> rat \<Rightarrow> rat \<Rightarrow> string option" where
  "sparklinePoints values width height = (if length values < 2 then None
     else Some (join '' '' (map (\<lambda>(x, y). toFixed 1 x @ '','' @ toFixed 1 y) (sparkline_coords values width height))))"

section \<open>Laws\<close>

definition destroy_inv :: "destroy_action \<Rightarrow> bool" where
  "destroy_inv s = (length (da_calls s) \<le> 1 \<and> (da_busy s \<longleftrightarrow> da_calls s \<noteq> []))"

interpretation destroying: guarded_machine destroy_step destroy_inv "\<lambda>s. length (da_calls s)" 1
proof
  show "destroy_inv s \<Longrightarrow> destroy_inv (destroy_step s e)" for s e
    by (cases e) (auto simp: destroy_inv_def destroy_def destroy_done_def Let_def split: list.splits option.splits)
qed (simp add: destroy_inv_def)

text \<open>
  A destruction started on a sandbox's page returns to the dashboard when it ends, from wherever the
  user is by then.
\<close>

lemma destroy_leaves_other_page:
  "da_pathname (run destroy_step \<lparr>da_busy = False, da_calls = [], da_pathname = ''/sandboxes/a'', da_toasts = ts\<rparr>
     [Destroy_click, Move_to ''/sandboxes/b/files'', Destroy_done None]) = ''/''"
  by (simp add: destroy_def destroy_done_def)

definition remove_inv :: "remove_action \<Rightarrow> bool" where
  "remove_inv s = (ra_calls s \<le> 1 \<and> (ra_busy s \<longleftrightarrow> ra_calls s = 1) \<and> (ra_busy s \<longrightarrow> ra_open s))"

interpretation removing: guarded_machine "remove_step i n" remove_inv ra_calls 1 for i n
proof
  show "remove_inv s \<Longrightarrow> remove_inv (remove_step i n s e)" for s e
    by (cases e) (auto simp: remove_inv_def removal_done_def Let_def split: sum.splits)
qed (simp add: remove_inv_def)

text \<open>The dialog closes by an answer exactly when the registry confirmed the removal, and the stored registry changes only then.\<close>

lemma removal_answer:
  assumes "ra_calls s = 1" "ra_open s"
  shows "case removeSandboxCluster i outcome (ra_storage s) of
     Inr storage \<Rightarrow> \<not> ra_open (remove_step i n s (Remove_answer outcome)) \<and> ra_storage (remove_step i n s (Remove_answer outcome)) = storage
   | Inl _ \<Rightarrow> ra_open (remove_step i n s (Remove_answer outcome)) \<and> ra_storage (remove_step i n s (Remove_answer outcome)) = ra_storage s"
  using assms by (auto simp: removal_done_def Let_def split: sum.splits)

text \<open>A sparkline stays inside its box.\<close>

lemma sparkline_within:
  assumes "(x, y) \<in> set (sparkline_coords values width height)" "2 \<le> length values" "2 \<le> width" "4 \<le> height"
  shows "1 \<le> x \<and> x \<le> width - 1 \<and> 2 \<le> y \<and> y \<le> height - 2"
proof -
  obtain i where i: "i < length values" "x = sparkline_x values width i" "y = sparkline_y values height (values ! i)"
    using assms(1) by (auto simp: sparkline_coords_def in_set_zip)
  let ?n = "of_nat (length values - 1) :: rat"
  have n: "0 < ?n" "of_nat i \<le> ?n" using assms(2) i(1) by simp_all
  then have "of_nat i / ?n * (width - 2) \<le> 1 * (width - 2)" using assms(3) by (intro mult_right_mono) simp_all
  then have "of_nat i * ((width - 2) / ?n) \<le> width - 2" by simp
  then have x: "1 \<le> x \<and> x \<le> width - 1" using n assms(3) by (simp add: i(2) sparkline_x_def)
  let ?low = "Min (set values)" and ?high = "Max (set values)"
  define s where "s = (if ?high - ?low = 0 then 1 else ?high - ?low)"
  have v: "?low \<le> values ! i" "values ! i \<le> ?high" using i(1) by simp_all
  then have "0 \<le> (values ! i - ?low) / s" "(values ! i - ?low) / s \<le> 1" by (auto simp: s_def divide_simps)
  then have "0 \<le> (values ! i - ?low) / s * (height - 4)" "(values ! i - ?low) / s * (height - 4) \<le> 1 * (height - 4)"
    using assms(4) by (intro mult_nonneg_nonneg mult_right_mono; simp)+
  then show ?thesis using x by (simp add: i(3) sparkline_y_def s_def Let_def)
qed

section \<open>The squash dialog as phases\<close>

datatype squash_phase = Phase_closed | Phase_ready | Phase_running "string list" | Phase_finished "string list" json

fun phase_step :: "squash_phase \<Rightarrow> squash_event \<Rightarrow> squash_phase" where
  "phase_step Phase_closed Squash_trigger = Phase_ready"
| "phase_step Phase_ready Squash_close = Phase_closed"
| "phase_step Phase_ready Squash_run = Phase_running []"
| "phase_step (Phase_running ls) (Squash_line l) = Phase_running (ls @ [l])"
| "phase_step (Phase_running ls) (Squash_done (Inr v)) = Phase_finished ls v"
| "phase_step (Phase_running ls) (Squash_done (Inl e)) = Phase_closed"
| "phase_step (Phase_finished ls v) Squash_close = Phase_closed"
| "phase_step (Phase_finished ls v) Squash_run = Phase_running []"
| "phase_step (Phase_finished ls v) Squash_trigger = Phase_ready"
| "phase_step p e = p"

definition phase_of :: "squash_dialog \<Rightarrow> squash_phase" where
  "phase_of s = (if sq_busy s then Phase_running (sq_logs s) else if \<not> sq_open s then Phase_closed
     else case sq_result s of None \<Rightarrow> Phase_ready | Some v \<Rightarrow> Phase_finished (sq_logs s) v)"

definition squash_dialog_inv :: "squash_dialog \<Rightarrow> bool" where
  "squash_dialog_inv s = (sq_calls s = (if sq_busy s then 1 else 0) \<and> (sq_busy s \<longrightarrow> sq_open s \<and> sq_result s = None) \<and>
     (sq_open s \<and> \<not> sq_busy s \<and> sq_result s = None \<longrightarrow> sq_logs s = []))"

lemmas squash_defs = squash_dialog_inv_def openDialog_def run_squash_def squash_done_def phase_of_def Let_def

interpretation squashing: guarded_machine squash_dialog_step squash_dialog_inv sq_calls 1
proof
  show "squash_dialog_inv s \<Longrightarrow> squash_dialog_inv (squash_dialog_step s e)" for s e
    by (cases e) (auto simp: squash_defs split: sum.splits)
qed (simp add: squash_dialog_inv_def)

lemma phase_simulates: "squash_dialog_inv s \<Longrightarrow> phase_of (squash_dialog_step s e) = phase_step (phase_of s) e"
  by (cases e) (auto simp: squash_defs split: sum.splits option.splits)

definition squash_init :: "toasts \<Rightarrow> squash_dialog" where
  "squash_init ts = \<lparr>sq_open = False, sq_busy = False, sq_logs = [], sq_result = None, sq_calls = 0, sq_toasts = ts\<rparr>"

lemma squash_init_inv: "squash_dialog_inv (squash_init ts)"
  by (simp add: squash_dialog_inv_def squash_init_def)

lemma phase_run: "squash_dialog_inv s \<Longrightarrow> phase_of (run squash_dialog_step s es) = run phase_step (phase_of s) es"
  by (induction es arbitrary: s) (simp_all add: phase_simulates squashing.inv_step)

section \<open>Properties\<close>

text \<open>
  The squash dialog is a machine of four phases.  For every sequence of clicks, lines and answers
  its flags, lines and result are those of a dialog that is closed, ready, running or finished: at most one squash is
  in flight, exactly while it runs; what is shown are the lines of that run only, in order, and the
  result of the run that ended last; nothing closes the dialog while it runs but a failure.
\<close>

lemma squash_dialog_phases:
  "phase_of (run squash_dialog_step (squash_init ts) es) = run phase_step Phase_closed es \<and>
   sq_calls (run squash_dialog_step (squash_init ts) es) = (case run phase_step Phase_closed es of Phase_running _ \<Rightarrow> 1 | _ \<Rightarrow> 0) \<and>
   squash_shown (run squash_dialog_step (squash_init ts) es) =
     (case run phase_step Phase_closed es of Phase_closed \<Rightarrow> None | Phase_ready \<Rightarrow> Some (None, None)
      | Phase_running ls \<Rightarrow> Some (Some (StreamLogPane ls), None)
      | Phase_finished ls v \<Rightarrow> Some (if ls = [] then None else Some ls, if truthy v then Some v else None))"
proof -
  let ?s = "run squash_dialog_step (squash_init ts) es"
  have "phase_of (squash_init ts) = Phase_closed" by (simp add: phase_of_def squash_init_def)
  with phase_run [OF squash_init_inv, of ts es] have p: "phase_of ?s = run phase_step Phase_closed es" by simp
  have "squash_dialog_inv ?s" by (rule squashing.inv_run [OF squash_init_inv])
  then show ?thesis unfolding p [symmetric]
    by (auto simp: squash_dialog_inv_def phase_of_def squash_shown_def squash_pane_def StreamLogPane_def split: option.splits)
qed

end
