(* ===== verification/Actions_View.thy ===== *)
theory Actions_View
  imports Fleet_Actions View
begin

text \<open>
  What the actions and small displays of \<^verbatim>\<open>web/src/components\<close> render, over the machines of \<open>Fleet_Actions\<close>: the destroy
  button, the squash dialog, the removal of a cluster, error notifications, the log pane, badges and sparklines.  A dialog that is closed is
  not drawn; one that is busy takes no click outside it and no Escape.
\<close>

section \<open>Buttons and dialogs\<close>

definition DestroyAction :: "string \<Rightarrow> string option \<Rightarrow> destroy_action \<Rightarrow> destroy_event view" where
  "DestroyAction sandboxId label_text s = (let name = ''Destroy '' @ sandboxId in
     case label_text of
       Some (c # l) \<Rightarrow> El ''button'' ([(''aria-label'', name)] @ flag ''disabled'' (da_busy s)) [(''click'', Send Destroy_click)] [box ''Trash2'' [], Txt (c # l)]
     | _ \<Rightarrow> El ''button'' ([(''aria-label'', name), (''title'', name)] @ flag ''disabled'' (da_busy s)) [(''click'', Send Destroy_click)] [box ''Trash2'' []])"

definition log_pane :: "string list \<Rightarrow> 'e view" where
  "log_pane lines = box ''pane'' (map caption (StreamLogPane lines))"

text \<open>The overlay, the cross and Escape of a dialog, while they are let through.\<close>

definition dismissals :: "bool \<Rightarrow> 'e \<Rightarrow> (string \<times> 'e handler) list" where
  "dismissals busy e = [(''close'', Send e)] @ (if busy then [] else [(''outside'', Send e), (''escape'', Send e)])"

definition squash_text :: "string \<Rightarrow> nat option \<Rightarrow> string" where
  "squash_text sandboxId layerCount = ''Squashes every squashable block of '' @ sandboxId @
     [CHR 0x27] @ ''s published layers and live-remounts its sessions.'' @ squash_stack_note layerCount"

definition squash_modal :: "string \<Rightarrow> nat option \<Rightarrow> squash_dialog \<Rightarrow> squash_event view" where
  "squash_modal sandboxId layerCount s = El ''modal'' [(''title'', ''Squash layer stack'')] (dismissals (sq_busy s) Squash_close)
     ([caption (squash_text sandboxId layerCount)] @
      show_when (sq_busy s \<or> sq_logs s \<noteq> []) (log_pane (sq_logs s)) @
      (case sq_result s of None \<Rightarrow> [] | Some v \<Rightarrow> show_when (truthy v) (box ''code'' [Txt (JSON_stringify v)])) @
      [box ''group'' [El ''button'' (flag ''disabled'' (sq_busy s)) [(''click'', Send Squash_close)] [Txt ''Close''],
         El ''button'' (flag ''disabled'' (sq_busy s)) [(''click'', Send Squash_run)] [Txt (squash_button s)]]])"

definition SquashDialog :: "squash_event view \<Rightarrow> string \<Rightarrow> nat option \<Rightarrow> squash_dialog \<Rightarrow> squash_event view" where
  "SquashDialog trigger sandboxId layerCount s = box ''fragment'' (trigger # show_when (sq_open s) (squash_modal sandboxId layerCount s))"

definition remove_modal :: "string \<Rightarrow> nat \<Rightarrow> remove_action \<Rightarrow> remove_event view" where
  "remove_modal clusterId memberCount s = El ''modal'' [(''title'', ''Remove sandbox cluster'')] (if ra_busy s then [] else dismissals False Remove_close)
     [El ''button'' ([(''aria-label'', ''Close remove cluster dialog'')] @ flag ''disabled'' (ra_busy s)) [(''click'', Send Remove_close)] [],
      caption (''This dissolves '' @ clusterId @ ''. Its '' @ show_nat memberCount @ '' sandboxes stay running and return to the Sandbox view.''),
      box ''group'' [El ''button'' (flag ''disabled'' (ra_busy s)) [(''click'', Send Remove_close)] [Txt ''Cancel''],
        El ''button'' (flag ''disabled'' (ra_busy s)) [(''click'', Send Remove_click)] [Txt ''Remove cluster'']]]"

definition RemoveClusterAction :: "string \<Rightarrow> nat \<Rightarrow> remove_action \<Rightarrow> remove_event view" where
  "RemoveClusterAction clusterId memberCount s = box ''fragment''
     (El ''button'' [(''aria-label'', ''Remove cluster '' @ clusterId)] [(''click'', Send Remove_open)] [box ''Unlink'' [], Txt ''Remove''] #
      show_when (ra_open s) (remove_modal clusterId memberCount s))"

section \<open>Displays\<close>

definition notification_view :: "string \<times> ErrorNotification \<Rightarrow> 'e view" where
  "notification_view = (\<lambda>(i, n). El ''notification'' [(''id'', i), (''title'', js_string (en_kind n))] []
     (caption (en_message n) # (case en_details n of None \<Rightarrow> [] | Some d \<Rightarrow> show_when (d \<noteq> []) (box ''code'' [Txt d]))))"

fun badge_text :: "SandboxState + CommandStatus + Tone \<Rightarrow> string" where
  "badge_text (Inl s) = state_name s"
| "badge_text (Inr (Inl Cmd_running)) = ''running''"
| "badge_text (Inr (Inl Cmd_ok)) = ''ok''"
| "badge_text (Inr (Inl Cmd_error)) = ''error''"
| "badge_text (Inr (Inl Cmd_timed_out)) = ''timed_out''"
| "badge_text (Inr (Inl Cmd_cancelled)) = ''cancelled''"
| "badge_text (Inr (Inr Tone_ok)) = ''ok''"
| "badge_text (Inr (Inr Tone_run)) = ''run''"
| "badge_text (Inr (Inr Tone_warn)) = ''warn''"
| "badge_text (Inr (Inr Tone_idle)) = ''idle''"
| "badge_text (Inr (Inr Tone_danger)) = ''danger''"

definition badge_view :: "SandboxState + CommandStatus + Tone \<Rightarrow> string option \<Rightarrow> 'e view" where
  "badge_view st label_text = El ''badge'' [(''color'', StateBadge st)] [] [Txt (case label_text of None \<Rightarrow> badge_text st | Some l \<Rightarrow> l)]"

definition health_view :: "bool \<Rightarrow> Endpoint option \<Rightarrow> 'e view" where
  "health_view showLabel endpoint = (let (title, short) = HealthDot endpoint in
     El ''tooltip'' [(''label'', title)] [] (El ''img'' [(''aria-label'', title)] [] [] # show_when showLabel (caption short)))"

definition ResourceSparkline :: "(rat \<Rightarrow> string) \<Rightarrow> rat list \<Rightarrow> rat \<Rightarrow> rat \<Rightarrow> string option \<Rightarrow> 'e view" where
  "ResourceSparkline show_number values width height label_text = El ''svg''
     ([(''width'', show_number width), (''height'', show_number height),
       (''viewBox'', ''0 0 '' @ show_number width @ '' '' @ show_number height)] @
      (case label_text of None \<Rightarrow> [] | Some l \<Rightarrow> [(''aria-label'', l)])) []
     [case sparklinePoints values width height of
        Some points \<Rightarrow> El ''polyline'' [(''points'', points)] [] []
      | None \<Rightarrow> El ''line'' [(''x1'', ''1''), (''y1'', show_number (height - 2)), (''x2'', show_number (width - 1)), (''y2'', show_number (height - 2))] [] []]"

section \<open>What the actions offer\<close>

lemma offered_displays [simp]:
  "offered (log_pane ls) = {}" "offered (notification_view n) = {}" "offered (badge_view st l) = {}" "offered (health_view b ep) = {}"
  "offered (ResourceSparkline show_number values width height l) = {}"
  by (auto simp: log_pane_def notification_view_def badge_view_def health_view_def ResourceSparkline_def Let_def split: option.splits prod.splits)

lemma offered_DestroyAction: "offered (DestroyAction i l s) = (if da_busy s then {} else {Destroy_click})"
  by (simp add: DestroyAction_def Let_def attr_on_def split: option.split list.split)

lemma offered_RemoveClusterAction:
  "offered (RemoveClusterAction i n s) = insert Remove_open (if ra_open s \<and> \<not> ra_busy s then {Remove_close, Remove_click} else {})"
  by (auto simp: RemoveClusterAction_def remove_modal_def dismissals_def)

lemma offered_SquashDialog:
  "offered (SquashDialog trigger i n s) = offered trigger \<union>
     (if sq_open s then insert Squash_close (if sq_busy s then {} else {Squash_run}) else {})"
  by (auto simp: SquashDialog_def squash_modal_def dismissals_def split: option.splits)

text \<open>
  A click an action offers starts at most one call, and none while one is in flight: the guards of the handlers that a disabled button
  makes redundant are redundant.
\<close>

lemma offered_squash_run: "Squash_run \<in> offered (SquashDialog (caption t) i n s) \<Longrightarrow> squash_dialog_step s Squash_run = run_squash s"
  by (auto simp: offered_SquashDialog split: if_splits)

lemma offered_remove_click: "Remove_click \<in> offered (RemoveClusterAction i n s) \<Longrightarrow> remove_step i n s Remove_click = s\<lparr>ra_busy := True, ra_calls := ra_calls s + 1\<rparr>"
  by (auto simp: offered_RemoveClusterAction split: if_splits)

interpretation destroy_button: rendered "DestroyAction i l" destroy_step "\<lambda>s t. da_pathname t = da_pathname s \<and> length (da_calls s) \<le> length (da_calls t) \<and>
    (da_busy s \<longrightarrow> t = s)"
  by unfold_locales (auto simp: offered_DestroyAction destroy_def split: if_splits)

lemma destroyed_once:
  assumes "clicks (DestroyAction i l) destroy_step s (e # es)"
  shows "es = [] \<and> da_calls (run destroy_step s (e # es)) = da_calls s @ [da_pathname s]"
  using assms by (cases es) (auto simp: offered_DestroyAction destroy_def split: if_splits)

text \<open>The dialog of a removal shows the cluster it dissolves; the user gets there in one click, and nothing is removed before the second.\<close>

lemma removal_takes_two:
  assumes "\<not> ra_open s" "clicks (RemoveClusterAction i n) (remove_step i n) s es" "ra_calls s < ra_calls (run (remove_step i n) s es)"
  shows "2 \<le> length es"
proof (cases es)
  case (Cons e rest)
  with assms(1,2) have "e = Remove_open" by (auto simp: offered_RemoveClusterAction)
  with Cons assms(3) show ?thesis by (cases rest) auto
qed (use assms(3) in simp)

end
