(* ===== verification/Dashboard_View.thy ===== *)
theory Dashboard_View
  imports Shell_View Actions_View
begin

text \<open>
  What the dashboard of \<^verbatim>\<open>web/src/pages/dashboard\<close> and the cards of \<^verbatim>\<open>web/src/pages/fleet/SandboxCard.tsx\<close> render, over the machine of
  \<open>Dashboard\<close>.  The create dialog, the destroy button of a card and the removal of a cluster are components of their own with their own machines: here
  they are elements with the properties they get.  The current year and the text of numbers are the browser's.
\<close>

section \<open>Cards\<close>

definition DashboardMetricCard :: "bool \<Rightarrow> string \<times> string \<Rightarrow> 'e view" where
  "DashboardMetricCard loading = (\<lambda>(name, v). El ''div'' (flag ''data-dashboard-metric'' True) []
     [caption name, if loading then box ''skeleton'' [] else caption v])"

definition summary_view :: "(rat \<Rightarrow> string) \<Rightarrow> dashboard \<Rightarrow> 'e view" where
  "summary_view show_number s = El ''section'' [(''aria-label'', ''Sandbox summary'')] []
     (map (DashboardMetricCard (isInitialLoading s)) (DashboardSummary show_number (db_fleet s) (db_snapshot s) (db_usage s)))"

definition cluster_badge :: "string \<Rightarrow> dashboard_event view" where
  "cluster_badge c = El ''a'' [(''aria-label'', ''View cluster '' @ c), (''title'', ''View cluster '' @ c)] [(''click'', Send (Follow_cluster c))] [Txt c]"

fun card_button_view :: "card_button \<Rightarrow> 'e view" where
  "card_button_view (Button_disabled l) = El ''button'' [(''disabled'', ''true'')] [] [Txt l]"
| "card_button_view (Button_link l to filled) = El ''a'' [(''to'', to)] [] [Txt l]"
| "card_button_view Button_none = box ''span'' []"

definition ResourceMetric :: "string \<times> string \<Rightarrow> 'e view" where
  "ResourceMetric = (\<lambda>(name, v). box ''div'' [caption name, caption v])"

text \<open>A card; its mark carries the id of the sandbox that labels it.\<close>

definition card_view :: "sandbox_card \<Rightarrow> dashboard_event view" where
  "card_view k = El ''article'' [(''data-fleet-card'', sc_id k)] []
     ([box ''header'' ([El ''span'' [(''title'', sc_id k)] [] [Txt (sc_id k)]] @
         (case sc_clusterLink k of None \<Rightarrow> [] | Some c \<Rightarrow> [cluster_badge c]) @
         [El ''span'' (flag ''data-pulse'' (pr_pulse (sc_status k))) [] [Txt (pr_label (sc_status k))]]),
       box ''div'' [caption ''Workspace'', caption (sc_workspace k)],
       box ''div'' (map ResourceMetric (sc_resources k))] @
      (case sc_logs k of None \<Rightarrow> [] | Some ls \<Rightarrow> [log_pane ls]) @
      (case sc_note k of None \<Rightarrow> [] | Some n \<Rightarrow> [caption n]) @
      [box ''footer'' [card_button_view (sc_button k), El ''DestroyAction'' [(''sandboxId'', sc_id k)] [] []]])"

section \<open>Clusters\<close>

definition collection_header :: "dashboard \<Rightarrow> ResolvedSandboxCluster \<Rightarrow> cluster_collection \<Rightarrow> dashboard_event view" where
  "collection_header s c k = (let collapsed = cl_id c \<in> set (db_collapsed s) in box ''header''
     [caption (co_id k), caption ''Cluster'', caption (co_count k),
      El ''div'' [(''title'', cl_workspaceRoot c)] [] [caption ''Workspace'', Txt (co_workspace k)],
      El ''span'' (flag ''data-complete'' (readyCount c = length (cl_members c))) [] [Txt (co_ready k)],
      El ''RemoveClusterAction'' [(''clusterId'', cl_id c), (''memberCount'', show_nat (length (cl_members c)))] [] [],
      El ''button'' (attr_bool ''aria-expanded'' (\<not> collapsed) @ [(''aria-label'', (if collapsed then ''Expand '' else ''Collapse '') @ cl_id c),
          (''title'', if collapsed then ''Expand cluster'' else ''Collapse cluster'')] @ flag ''data-collapsed'' collapsed)
        [(''click'', Send (Toggle_cluster (cl_id c)))] []])"

definition collection_view :: "(rat \<Rightarrow> string) \<Rightarrow> (string \<Rightarrow> string) \<Rightarrow> dashboard \<Rightarrow> ResolvedSandboxCluster \<times> SandboxRecord list \<Rightarrow> dashboard_event view" where
  "collection_view show_number encode s = (\<lambda>(c, members). let k = SandboxClusterCollection show_number encode s (c, members) in
     El ''article'' [(''aria-label'', ''Sandbox cluster '' @ cl_id c), (''data-sandbox-cluster-id'', cl_id c)] []
       (collection_header s c k # (case co_cards k of None \<Rightarrow> [] | Some cards \<Rightarrow> [box ''div'' (map card_view cards)])))"

section \<open>The page\<close>

definition LoadingCards :: "string \<Rightarrow> 'e view" where
  "LoadingCards name = El ''div'' [(''aria-label'', name)] [] (caption (name @ View.ellipsis) # replicate 3 (box ''skeleton'' []))"

definition switch_button :: "dashboard \<Rightarrow> DashboardView \<Rightarrow> string \<Rightarrow> nat \<Rightarrow> dashboard_event view" where
  "switch_button s v name n = El ''button'' (attr_bool ''aria-pressed'' (activeView s = v)) [(''click'', Send (Update_view v))] [Txt name, caption (show_nat n)]"

definition collection_toolbar :: "dashboard \<Rightarrow> dashboard_event view" where
  "collection_toolbar s = box ''toolbar''
     [El ''group'' [(''aria-label'', ''Sandbox collection view'')] []
        [switch_button s View_sandbox ''Sandbox'' (fst (view_counts s)), switch_button s View_cluster ''Cluster'' (snd (view_counts s))],
      El ''input'' [(''aria-label'', ''Search sandboxes''), (''value'', db_filter s)] [(''change'', Send_text Update_filter)] []]"

definition gateway_panel :: "string \<Rightarrow> gateway_start \<Rightarrow> dashboard_event view" where
  "gateway_panel message g = box ''center'' ([caption ''Gateway unavailable'', caption message,
     El ''button'' (flag ''disabled'' (g = Start_pending)) [(''click'', Send Gateway_click)] [Txt ''Start/reload backend'']] @
     (case g of Start_failed m \<Rightarrow> [caption m] | _ \<Rightarrow> []))"

fun screen_view :: "(rat \<Rightarrow> string) \<Rightarrow> (string \<Rightarrow> string) \<Rightarrow> dashboard \<Rightarrow> dashboard_screen \<Rightarrow> dashboard_event view" where
  "screen_view show_number encode s (Screen_loading name) = LoadingCards name"
| "screen_view show_number encode s (Screen_gateway_down message g) = gateway_panel message g"
| "screen_view show_number encode s (Screen_empty title copy) = El ''center'' (flag ''data-fleet-empty'' True) [] [caption title, caption copy]"
| "screen_view show_number encode s (Screen_sandboxes cards creation) = box ''div''
     [box ''div'' [caption ''Sandbox / state'', caption ''Workspace'', caption ''Runtime'', caption ''Actions''],
      box ''div'' (map card_view cards @
        (case creation of None \<Rightarrow> [] | Some l \<Rightarrow> [El ''article'' (flag ''data-fleet-creation-card'' True) [] [caption ''Creating sandbox'', caption l]]))]"
| "screen_view show_number encode s (Screen_clusters collections) = box ''div'' (map (collection_view show_number encode s) (visibleClusters s))"

fun connection_state :: "DashboardConnectionState \<Rightarrow> string" where
  "connection_state Connecting = ''connecting''"
| "connection_state Connected = ''connected''"
| "connection_state Stale = ''stale''"
| "connection_state Disconnected = ''disconnected''"

definition dashboard_footer :: "nat \<Rightarrow> dashboard \<Rightarrow> 'e view" where
  "dashboard_footer year s = (let connection = connectionFor (db_fleet s) (fleetError s) in
     box ''footer'' [caption ([CHR 0xA9] @ '' '' @ show_nat year @ '' '' @ PRODUCT_NAME @ ''.''),
       El ''span'' [(''data-connection-state'', connection_state connection)] [] [Txt (connection_label connection)]])"

definition DashboardPage :: "(rat \<Rightarrow> string) \<Rightarrow> (string \<Rightarrow> string) \<Rightarrow> nat \<Rightarrow> dashboard \<Rightarrow> dashboard_event view" where
  "DashboardPage show_number encode year s = box ''page''
     [summary_view show_number s,
      El ''section'' [(''aria-labelledby'', ''dashboard-title'')] []
        ([box ''h1'' [Txt ''Your sandboxes''], El ''CreateSandboxModal'' [] [] [], collection_toolbar s] @
         (case refresh_alert s of None \<Rightarrow> [] | Some m \<Rightarrow> [El ''alert'' [(''title'', ''Sandbox refresh failed'')] [] [Txt m]]) @
         [screen_view show_number encode s (dashboard_screen_of show_number encode s)] @
         show_when (refreshing s) (caption (''Refreshing confirmed data'' @ View.ellipsis))),
      dashboard_footer year s]"

section \<open>What the page offers\<close>

lemma offered_leaves [simp]: "offered (DashboardMetricCard b m) = {}" "offered (summary_view show_number s) = {}" "offered (LoadingCards n) = {}"
  "offered (dashboard_footer year s) = {}" "offered (card_button_view a) = {}" "offered (ResourceMetric m) = {}"
  by (cases a; auto simp: DashboardMetricCard_def summary_view_def LoadingCards_def dashboard_footer_def ResourceMetric_def Let_def split: prod.splits)+

lemma offered_card [simp]: "offered (card_view k) = (case sc_clusterLink k of None \<Rightarrow> {} | Some c \<Rightarrow> {Follow_cluster c})"
  by (auto simp: card_view_def cluster_badge_def split: option.splits)

lemma no_badge [simp]: "sc_clusterLink (card_of show_number encode s None r) = None"
  by (simp add: card_of_def SandboxCard_def Let_def)

lemma card_badge: "sc_clusterLink (card_of show_number encode s (Some c) r) = (if c = [] then None else Some c)"
  by (simp add: card_of_def SandboxCard_def Let_def)

lemma card_sc_id [simp]: "sc_id (card_of show_number encode s c r) = rec_id r"
  by (simp add: card_of_def SandboxCard_def Let_def)

lemma offered_collection [simp]: "offered (collection_view show_number encode s cm) = {Toggle_cluster (cl_id (fst cm))}"
  by (auto simp: collection_view_def collection_header_def SandboxClusterCollection_def Let_def split: prod.splits)

lemma offered_toolbar_board [simp]: "offered (collection_toolbar s) = {Update_view View_sandbox, Update_view View_cluster} \<union> range Update_filter"
  by (auto simp: collection_toolbar_def switch_button_def)

lemma offered_gateway [simp]: "offered (gateway_panel m g) = (if g = Start_pending then {} else {Gateway_click})"
  by (auto simp: gateway_panel_def split: gateway_start.splits)

lemma offered_screen:
  assumes "e \<in> offered (screen_view show_number encode s (dashboard_screen_of show_number encode s))"
  shows "e = Gateway_click \<or> (\<exists>c \<in> set (map (cl_id \<circ> fst) (visibleClusters s)). e = Toggle_cluster c) \<or>
    (\<exists>r \<in> set (visibleSandboxes s). \<exists>c. map_of (clusterIdsBySandbox s) (rec_id r) = Some c \<and> e = Follow_cluster c)"
proof -
  have "\<exists>r \<in> set (visibleSandboxes s). \<exists>c. map_of (clusterIdsBySandbox s) (rec_id r) = Some c \<and> e = Follow_cluster c"
    if r: "r \<in> set (visibleSandboxes s)" "e \<in> offered (card_view (card_of show_number encode s (map_of (clusterIdsBySandbox s) (rec_id r)) r))" for r
  proof (cases "map_of (clusterIdsBySandbox s) (rec_id r)")
    case (Some c)
    with r show ?thesis by (cases "c = []") (auto simp: card_badge)
  qed (use r in simp)
  then show ?thesis using assms unfolding dashboard_screen_of_def by (auto split: if_splits option.splits)
qed

lemma offered_DashboardPage:
  assumes "e \<in> offered (DashboardPage show_number encode year s)"
  obtains v where "e = Update_view v" | q where "e = Update_filter q" | "e = Gateway_click"
    | c where "e = Toggle_cluster c" "c \<in> set (map (cl_id \<circ> fst) (visibleClusters s))"
    | r c where "r \<in> set (visibleSandboxes s)" "map_of (clusterIdsBySandbox s) (rec_id r) = Some c" "e = Follow_cluster c"
  using assms unfolding DashboardPage_def by (auto dest!: offered_screen split: option.splits if_splits)

section \<open>Clicks keep the fleet\<close>

text \<open>What the polls and the browser's storage report; a click changes the address, the open collections and the start of the gateway only.\<close>

definition same_fleet :: "dashboard \<Rightarrow> dashboard \<Rightarrow> bool" where
  "same_fleet s t = (db_list t = db_list s \<and> db_fast t = db_fast s \<and> db_clusters t = db_clusters s \<and> db_storage t = db_storage s \<and>
     db_snapshot t = db_snapshot s \<and> db_usage t = db_usage s \<and> db_createLogs t = db_createLogs s \<and> db_fleet t = db_fleet s)"

lemma same_fleet_derived:
  assumes "same_fleet s t"
  shows "sourceFleet t = sourceFleet s" "db_records t = db_records s" "db_presentation t = db_presentation s" "fleetError t = fleetError s"
    "clusterIdsBySandbox t = clusterIdsBySandbox s" "isInitialLoading t = isInitialLoading s"
  using assms by (simp_all add: same_fleet_def sourceFleet_def lifecycleActive_def db_records_def db_presentation_def clusterRegistry_def
      clusterIdsBySandbox_def fleetError_def isInitialLoading_def
      cong: option.case_cong)

lemma handle_same_fleet:
  assumes "same_fleet s (dashboard_handle s e)"
  shows "same_fleet s (dashboard_step s e)"
proof -
  have "memo_fleet s (dashboard_handle s e) = dashboard_handle s e"
    using same_fleet_derived(1) [OF assms] by (simp add: memo_fleet_def)
  then show ?thesis using assms by (simp add: dashboard_step_def dashboard_effects_def same_fleet_def)
qed

interpretation dashboard_page: rendered "DashboardPage show_number encode year" dashboard_step same_fleet
proof
  show "same_fleet s s" for s by (simp add: same_fleet_def)
  show "same_fleet s t \<Longrightarrow> same_fleet t u \<Longrightarrow> same_fleet s u" for s t u by (simp add: same_fleet_def)
  show "same_fleet s (dashboard_step s e)" if "e \<in> offered (DashboardPage show_number encode year s)" for e s
    using that by (rule offered_DashboardPage; intro handle_same_fleet)
      (simp_all add: same_fleet_def updateView_def updateFilter_def toggle_cluster_def follow_cluster_def)
qed

section \<open>The cards on the page\<close>

definition board_ready :: "dashboard \<Rightarrow> bool" where
  "board_ready s = (\<not> isInitialLoading s \<and> \<not> isClusterRegistryLoading s \<and> db_fleet s \<noteq> None)"

definition shown_cards :: "(rat \<Rightarrow> string) \<Rightarrow> (string \<Rightarrow> string) \<Rightarrow> nat \<Rightarrow> dashboard \<Rightarrow> string list" where
  "shown_cards show_number encode year s = attr_values ''data-fleet-card'' (DashboardPage show_number encode year s)"

lemma cards_of_leaves [simp]:
  "attr_values ''data-fleet-card'' (DashboardMetricCard b m) = []" "attr_values ''data-fleet-card'' (summary_view show_number s) = []"
  "attr_values ''data-fleet-card'' (dashboard_footer year s) = []" "attr_values ''data-fleet-card'' (collection_toolbar s) = []"
  "attr_values ''data-fleet-card'' (ResourceMetric m) = []" "attr_values ''data-fleet-card'' (card_button_view a) = []"
  "attr_values ''data-fleet-card'' (log_pane ls) = []" "attr_values ''data-fleet-card'' (cluster_badge c) = []"
  by (cases a; auto simp: DashboardMetricCard_def summary_view_def dashboard_footer_def collection_toolbar_def switch_button_def
      ResourceMetric_def log_pane_def cluster_badge_def Let_def comp_def split: prod.splits)+

lemma cards_of_card [simp]: "attr_values ''data-fleet-card'' (card_view k) = [sc_id k]"
  by (auto simp: card_view_def comp_def)

lemma cards_of_collection:
  "attr_values ''data-fleet-card'' (collection_view show_number encode s cm) = (if cl_id (fst cm) \<in> set (db_collapsed s) then [] else map rec_id (snd cm))"
  by (simp add: collection_view_def collection_header_def SandboxClusterCollection_def Let_def comp_def map_add_def split: prod.splits)

lemma cards_of_page:
  "shown_cards show_number encode year s =
     attr_values ''data-fleet-card'' (screen_view show_number encode s (dashboard_screen_of show_number encode s))"
  by (simp add: shown_cards_def DashboardPage_def split: option.splits)

lemma shown_sandboxes:
  assumes "board_ready s" "activeView s = View_sandbox"
  shows "shown_cards show_number encode year s = map rec_id (visibleSandboxes s)"
  using assms unfolding cards_of_page
  by (auto simp: dashboard_screen_of_def board_ready_def isViewEmpty_def comp_def split: option.splits)

lemma shown_members:
  assumes "board_ready s" "activeView s = View_cluster"
  shows "shown_cards show_number encode year s =
    concat (map (\<lambda>(c, members). if cl_id c \<in> set (db_collapsed s) then [] else map rec_id members) (visibleClusters s))"
  using assms unfolding cards_of_page
  by (auto simp: dashboard_screen_of_def board_ready_def isViewEmpty_def comp_def cards_of_collection case_prod_unfold split: option.splits)

lemma uncollapsed_in_sandbox_view:
  assumes "s = run dashboard_step (dashboard_init storage q v) es" "activeView s = View_sandbox"
  shows "db_collapsed s = []"
proof (cases es rule: rev_cases)
  case (snoc ds e)
  let ?t = "memo_fleet (run dashboard_step (dashboard_init storage q v) ds) (dashboard_handle (run dashboard_step (dashboard_init storage q v) ds) e)"
  have s: "s = dashboard_effects ?t" using assms(1) by (simp add: snoc run_snoc dashboard_step_def)
  then have "activeView s = activeView ?t" by (simp add: activeView_def dashboard_effects_def)
  with assms(2) show ?thesis unfolding s by (simp add: dashboard_effects_def)
qed (use assms(1) in \<open>simp add: dashboard_init_def\<close>)

text \<open>
  A badge leads to its cluster.  On a loaded page that shows the card of a sandbox in a cluster, the card offers the link to the cluster,
  and the page after that click shows the cards of all the cluster's members, that sandbox's among them.
\<close>

lemma badge_leads_to_cluster:
  assumes possible: "\<forall>e \<in> set es. lists_once e" "s = run dashboard_step (dashboard_init storage q v) es"
    and page: "board_ready s" "activeView s = View_sandbox" "\<not> po_pending (db_clusters s)"
    and card: "r \<in> set (visibleSandboxes s)" "map_of (clusterIdsBySandbox s) (rec_id r) = Some c" "c \<noteq> []"
    and t: "t = dashboard_step s (Follow_cluster c)"
  shows "rec_id r \<in> set (shown_cards show_number encode year s) \<and> Follow_cluster c \<in> offered (DashboardPage show_number encode year s) \<and>
    (\<exists>cl \<in> set (fst (db_presentation t)). cl_id cl = c \<and> r \<in> set (cl_members cl) \<and>
      set (map rec_id (cl_members cl)) \<subseteq> set (shown_cards show_number encode year t))"
proof -
  have shown: "rec_id r \<in> set (shown_cards show_number encode year s)" using card(1) by (simp add: shown_sandboxes [OF page(1,2)])
  have "dashboard_inv s" unfolding possible(2) using dashboard_init_inv possible(1) by (rule dashboard.inv_possible_run)
  then have d: "distinct (card_ids s)" by (rule inv_distinct)
  have "r \<in> set (db_records s)" using card(1) by (auto simp: visibleSandboxes_def filterFleetRecords_def Let_def split: if_splits)
  then obtain cl where cl: "cl \<in> set (fst (db_presentation s))" "cl_id cl = c" "r \<in> set (cl_members cl)"
    using badge_members [OF d _ card(2)] by blast
  have link: "Follow_cluster c \<in> offered (card_view (card_of show_number encode s (map_of (clusterIdsBySandbox s) (rec_id r)) r))"
    using card(2,3) by (simp add: card_badge)
  have "\<not> isViewEmpty s" using card(1) page(2) by (auto simp: isViewEmpty_def)
  then have offer: "Follow_cluster c \<in> offered (DashboardPage show_number encode year s)"
    using page(1,2) link card(1) unfolding DashboardPage_def dashboard_screen_of_def board_ready_def by (auto split: option.splits)
  have "same_fleet s t" unfolding t by (rule dashboard_page.promise_offered [OF offer])
  note same = same_fleet_derived [OF this] this [unfolded same_fleet_def]
  have view: "activeView t = View_cluster" "db_filter t = c" by (simp_all add: t)
  then have ready: "board_ready t" using page(1,3) same by (simp add: board_ready_def isClusterRegistryLoading_def)
  have "db_collapsed t = []" using uncollapsed_in_sandbox_view [OF possible(2) page(2)]
    by (simp add: t dashboard_step_def dashboard_effects_def memo_fleet_def follow_cluster_def)
  moreover have "(cl, cl_members cl) \<in> set (visibleClusters t)"
    using cl cluster_matches_own_id [of cl] by (auto simp: visible_iff view same(3))
  ultimately have "set (map rec_id (cl_members cl)) \<subseteq> set (shown_cards show_number encode year t)"
    by (force simp: shown_members [OF ready view(1)])
  then show ?thesis using shown offer cl same(3) by auto
qed

end
