(* ===== verification/Create_Sandbox.thy ===== *)
theory Create_Sandbox
  imports Catalog Clusters Machine
begin

text \<open>
  Creating sandboxes: \<^verbatim>\<open>CreateSandboxModal.tsx\<close> and \<^verbatim>\<open>WorkspacePicker.tsx\<close> of \<^verbatim>\<open>web/src/pages/fleet\<close> and
  \<^verbatim>\<open>web/src/api/hostResources.ts\<close>.  The dialog and the picker are event machines; a form that is not
  shown takes no events.  The stream of \<^verbatim>\<open>create_sandbox\<close> is seen through its log lines and its result.
\<close>

section \<open>Host resources\<close>

record directory =
  di_name :: string
  di_path :: string

record DirectoryListing =
  dl_path :: "string option"
  dl_parent :: "string option"
  dl_truncated :: bool
  dl_directories :: "directory list"

definition listDockerImages :: "(http_request \<Rightarrow> fetch_outcome) \<Rightarrow> RpcError + json option" where
  "listDockerImages fetch = map_sum id (\<lambda>v. js_prop v ''images'') (rpc fetch ''list_docker_images'' systemScope [])"

definition listWorkspaceDirectories :: "(http_request \<Rightarrow> fetch_outcome) \<Rightarrow> string option \<Rightarrow> RpcError + json" where
  "listWorkspaceDirectories fetch path = rpc fetch ''list_workspace_directories'' systemScope
     (case path of None \<Rightarrow> [] | Some p \<Rightarrow> [(''path'', JStr p)])"

section \<open>The dialog\<close>

datatype CreationMode = Create_sandbox | Create_cluster

record create_request =
  cq_mode :: CreationMode
  cq_spec :: OperationSpecDoc
  cq_args :: "(string \<times> arg_value) list"

record create_modal =
  cm_open :: bool
  cm_mode :: CreationMode
  cm_pickerOpen :: bool
  cm_busy :: bool
  cm_values :: "(string \<times> string) list"
  cm_errors :: "(string \<times> string) list"
  cm_spec :: "OperationSpecDoc option"
  cm_calls :: "create_request list"
  cm_sent :: "create_request list"
  cm_logs :: "string list option"
  cm_storage :: local_storage
  cm_shown :: "thrown list"

definition defaultValues :: "OperationSpecDoc option \<Rightarrow> (string \<times> string) list" where
  "defaultValues spec = foldl (\<lambda>m a. case as_default a of None \<Rightarrow> m | Some v \<Rightarrow> map_set (as_name a) v m) []
     (case spec of None \<Rightarrow> [] | Some s \<Rightarrow> os_args s)"

text \<open>\<^verbatim>\<open>{ ...a, ...b }\<close>.\<close>

definition spread :: "(string \<times> 'v) list \<Rightarrow> (string \<times> 'v) list \<Rightarrow> (string \<times> 'v) list" where
  "spread a b = foldl (\<lambda>m (k, v). map_set k v m) a b"

definition values_effect :: "create_modal \<Rightarrow> create_modal" where
  "values_effect s = (if \<not> cm_open s \<or> cm_spec s = None then s
     else s\<lparr>cm_values := spread (defaultValues (cm_spec s)) (cm_values s)\<rparr>)"

definition count_ok :: "arg_value option \<Rightarrow> bool" where
  "count_ok v = (case v of Some (Val_number n) \<Rightarrow> (case n of Fin q \<Rightarrow> 1 \<le> q | PosInf \<Rightarrow> True | NegInf \<Rightarrow> False | NaN \<Rightarrow> True) | _ \<Rightarrow> False)"

definition submit_create :: "create_modal \<Rightarrow> create_modal" where
  "submit_create s = (case cm_spec s of None \<Rightarrow> s
     | Some spec \<Rightarrow>
        (let submissionValues = (if cm_mode s = Create_sandbox then map_set ''count'' ''1'' (cm_values s) else cm_values s);
             (args, errors) = buildArgs (os_args spec) submissionValues;
             errors' = (if cm_mode s = Create_cluster \<and> \<not> count_ok (map_of args ''count'')
                        then map_set ''count'' ''count must be an integer of 1 or more'' errors else errors);
             request = \<lparr>cq_mode = cm_mode s, cq_spec = spec, cq_args = args\<rparr>
         in if errors' \<noteq> [] then s\<lparr>cm_errors := errors'\<rparr>
            else s\<lparr>cm_errors := errors', cm_busy := True, cm_logs := Some [], cm_open := False,
                   cm_calls := cm_calls s @ [request], cm_sent := cm_sent s @ [request]\<rparr>))"

text \<open>The end of the stream: a result is registered, which may reject it as malformed or fail to post.\<close>

definition create_done :: "create_request \<Rightarrow> string \<Rightarrow> thrown + json \<Rightarrow> thrown option \<Rightarrow> create_modal \<Rightarrow> create_modal" where
  "create_done request now result post_failure s =
     (let s1 = (case result of
          Inl e \<Rightarrow> s\<lparr>cm_shown := cm_shown s @ [e]\<rparr>
        | Inr created \<Rightarrow>
            (case registerSandboxCluster created now (cq_mode request = Create_cluster) (cm_storage s) of
               None \<Rightarrow> s\<lparr>cm_shown := cm_shown s @ [Thrown_error ''TypeError'']\<rparr>
             | Some (_, storage', posted) \<Rightarrow>
                 (case post_failure of
                    Some e \<Rightarrow> if posted = [] then s\<lparr>cm_storage := storage'\<rparr>
                      else s\<lparr>cm_storage := storage', cm_shown := cm_shown s @ [e]\<rparr>
                  | None \<Rightarrow> s\<lparr>cm_storage := storage'\<rparr>)))
      in s1\<lparr>cm_busy := False, cm_logs := None, cm_values := defaultValues (Some (cq_spec request))\<rparr>)"

definition openModal :: "create_modal \<Rightarrow> create_modal" where
  "openModal s = s\<lparr>cm_mode := Create_sandbox, cm_open := True, cm_pickerOpen := False, cm_errors := [],
     cm_values := defaultValues (cm_spec s)\<rparr>"

definition choose_mode :: "CreationMode \<Rightarrow> create_modal \<Rightarrow> create_modal" where
  "choose_mode m s = s\<lparr>cm_mode := m, cm_errors := [],
     cm_values := (if m = Create_cluster
       then map_set ''count'' (case map_of (cm_values s) ''count'' of None \<Rightarrow> ''1'' | Some c \<Rightarrow> if trim c \<noteq> [] then c else ''1'') (cm_values s)
       else cm_values s)\<rparr>"

datatype create_event = Catalog_arrives OperationSpecDoc | Open_create | Close_create | Choose_mode CreationMode
  | Edit_field string string | Picker_open bool | Submit_create | Create_line string
  | Create_done string "thrown + json" "thrown option"

text \<open>The button is disabled while a creation runs; the form's events need the form.\<close>

fun create_handle :: "create_modal \<Rightarrow> create_event \<Rightarrow> create_modal" where
  "create_handle s (Catalog_arrives spec) = s\<lparr>cm_spec := Some spec\<rparr>"
| "create_handle s Open_create = (if cm_busy s then s else openModal s)"
| "create_handle s Close_create = s\<lparr>cm_open := False\<rparr>"
| "create_handle s (Choose_mode m) = (if cm_open s then choose_mode m s else s)"
| "create_handle s (Edit_field n v) = (if cm_open s then s\<lparr>cm_values := map_set n v (cm_values s)\<rparr> else s)"
| "create_handle s (Picker_open b) = s\<lparr>cm_pickerOpen := b\<rparr>"
| "create_handle s Submit_create = (if cm_open s then submit_create s else s)"
| "create_handle s (Create_line l) = (if cm_calls s = [] then s
     else s\<lparr>cm_logs := Some ((case cm_logs s of None \<Rightarrow> [] | Some ls \<Rightarrow> ls) @ [l])\<rparr>)"
| "create_handle s (Create_done now result failure) = (case cm_calls s of [] \<Rightarrow> s
     | r # rs \<Rightarrow> create_done r now result failure (s\<lparr>cm_calls := rs\<rparr>))"

definition create_step :: "create_modal \<Rightarrow> create_event \<Rightarrow> create_modal" where
  "create_step s e = (let t = create_handle s e in
     if cm_open t \<noteq> cm_open s \<or> cm_spec t \<noteq> cm_spec s then values_effect t else t)"

definition create_init :: "local_storage \<Rightarrow> create_modal" where
  "create_init storage = \<lparr>cm_open = False, cm_mode = Create_sandbox, cm_pickerOpen = False, cm_busy = False, cm_values = [], cm_errors = [],
     cm_spec = None, cm_calls = [], cm_sent = [], cm_logs = None, cm_storage = storage, cm_shown = []\<rparr>"

text \<open>The fields of the form, and what stands under each.\<close>

definition shown_fields :: "create_modal \<Rightarrow> ArgSpecDoc list" where
  "shown_fields s = (case cm_spec s of None \<Rightarrow> []
     | Some spec \<Rightarrow> filter (\<lambda>a. cm_mode s = Create_cluster \<or> as_name a \<noteq> ''count'') (os_args spec))"

definition field_error :: "create_modal \<Rightarrow> RpcError option \<Rightarrow> string list option \<Rightarrow> ArgSpecDoc \<Rightarrow> string option" where
  "field_error s images_error images a = (case map_of (cm_errors s) (as_name a) of
     Some e \<Rightarrow> Some e
   | None \<Rightarrow> (if as_name a \<noteq> ''image'' then None
       else case images_error of Some e \<Rightarrow> Some (err_message e)
         | None \<Rightarrow> if images = Some [] then Some ''No Docker images are available.'' else None))"

definition field_required :: "create_modal \<Rightarrow> ArgSpecDoc \<Rightarrow> bool" where
  "field_required s a = (as_required a \<or> (cm_mode s = Create_cluster \<and> as_name a = ''count''))"

definition field_help :: "ArgSpecDoc \<Rightarrow> string" where
  "field_help a = (if as_name a = ''count'' then ''1 or more sandboxes'' else as_help a)"

section \<open>The folder picker\<close>

definition MAX_VISIBLE_COLUMNS :: nat where "MAX_VISIBLE_COLUMNS = 3"

definition folderName :: "string option \<Rightarrow> string" where
  "folderName path = (case path of None \<Rightarrow> ''Locations''
     | Some p \<Rightarrow> (case at_last (filter (\<lambda>x. x \<noteq> []) (concat (map (split_on (CHR 0x5C)) (split_on (CHR ''/'') p)))) of
         None \<Rightarrow> p | Some g \<Rightarrow> g))"

definition directory_matches :: "string \<Rightarrow> directory \<Rightarrow> bool" where
  "directory_matches needle d = (str_includes (toLowerCase (di_name d)) needle \<or> str_includes (toLowerCase (di_path d)) needle)"

definition filteredDirectories :: "bool \<Rightarrow> string \<Rightarrow> directory list \<Rightarrow> directory list" where
  "filteredDirectories active search dirs = (let needle = (if active then toLowerCase (trim search) else []) in
     if needle = [] then dirs else filter (directory_matches needle) dirs)"

record picker =
  wp_open :: bool
  wp_columnPaths :: "string option list"
  wp_selectedPath :: "string option"
  wp_search :: string
  wp_searchOpen :: bool
  wp_chosen :: "string list"

definition navigateTo :: "directory \<Rightarrow> nat \<Rightarrow> picker \<Rightarrow> picker" where
  "navigateTo d columnIndex s = s\<lparr>wp_columnPaths := slice_last MAX_VISIBLE_COLUMNS (take (columnIndex + 1) (wp_columnPaths s) @ [Some (di_path d)]),
     wp_selectedPath := Some (di_path d), wp_search := []\<rparr>"

definition showRoots :: "picker \<Rightarrow> picker" where
  "showRoots s = s\<lparr>wp_columnPaths := [None], wp_selectedPath := None, wp_search := []\<rparr>"

definition navigateUp :: "DirectoryListing option \<Rightarrow> picker \<Rightarrow> picker" where
  "navigateUp listing s = (case listing of None \<Rightarrow> s
     | Some l \<Rightarrow> if wp_selectedPath s = None then s
         else s\<lparr>wp_columnPaths := [dl_parent l], wp_selectedPath := dl_parent l, wp_search := []\<rparr>)"

definition open_picker :: "string \<Rightarrow> picker \<Rightarrow> picker" where
  "open_picker v s = (let initialPath = (if v = [] then None else Some v)
     in s\<lparr>wp_columnPaths := [initialPath], wp_selectedPath := initialPath, wp_search := [], wp_searchOpen := False, wp_open := True\<rparr>)"

definition search_enter :: "directory list \<Rightarrow> picker \<Rightarrow> picker" where
  "search_enter dirs s = (let needle = toLowerCase (trim (wp_search s)) in
     case find (\<lambda>d. needle = [] \<or> directory_matches needle d) dirs of
       None \<Rightarrow> s | Some d \<Rightarrow> navigateTo d (length (wp_columnPaths s) - 1) s)"

definition use_folder :: "picker \<Rightarrow> picker" where
  "use_folder s = (case wp_selectedPath s of None \<Rightarrow> s
     | Some p \<Rightarrow> s\<lparr>wp_chosen := wp_chosen s @ [p], wp_open := False\<rparr>)"

text \<open>
  Listings come from the gateway: \<open>ls\<close> gives the listing of a location.  A click selects a folder
  shown in a column by its position.
\<close>

datatype picker_event = Picker_trigger string | Picker_escape | Picker_click nat nat | Picker_roots | Picker_up
  | Picker_search string | Picker_toggle_search | Picker_enter | Picker_use | Picker_close

definition column_dirs :: "(string option \<Rightarrow> DirectoryListing option) \<Rightarrow> picker \<Rightarrow> nat \<Rightarrow> directory list" where
  "column_dirs ls s i = filteredDirectories (i = length (wp_columnPaths s) - 1) (wp_search s)
     (case ls (wp_columnPaths s ! i) of None \<Rightarrow> [] | Some l \<Rightarrow> dl_directories l)"

fun picker_step :: "(string option \<Rightarrow> DirectoryListing option) \<Rightarrow> picker \<Rightarrow> picker_event \<Rightarrow> picker" where
  "picker_step ls s (Picker_trigger v) = open_picker v s"
| "picker_step ls s Picker_escape = s\<lparr>wp_open := False\<rparr>"
| "picker_step ls s (Picker_click i k) =
     (if wp_open s \<and> i < length (wp_columnPaths s) \<and> k < length (column_dirs ls s i)
      then navigateTo (column_dirs ls s i ! k) i s else s)"
| "picker_step ls s Picker_roots = (if wp_open s then showRoots s else s)"
| "picker_step ls s Picker_up = (if wp_open s then navigateUp (ls (wp_selectedPath s)) s else s)"
| "picker_step ls s (Picker_search t) = s\<lparr>wp_search := t\<rparr>"
| "picker_step ls s Picker_toggle_search = s\<lparr>wp_searchOpen := \<not> wp_searchOpen s\<rparr>"
| "picker_step ls s Picker_enter = (if wp_open s
     then search_enter (case ls (wp_selectedPath s) of None \<Rightarrow> [] | Some l \<Rightarrow> dl_directories l) s else s)"
| "picker_step ls s Picker_use = (if wp_open s then use_folder s else s)"
| "picker_step ls s Picker_close = s\<lparr>wp_open := False\<rparr>"

definition picker_init :: picker where
  "picker_init = \<lparr>wp_open = False, wp_columnPaths = [None], wp_selectedPath = None, wp_search = [], wp_searchOpen = False, wp_chosen = []\<rparr>"

section \<open>Requests\<close>

definition request_good :: "create_request \<Rightarrow> bool" where
  "request_good r = ((cq_mode r = Create_cluster \<longrightarrow> count_ok (map_of (cq_args r) ''count'')) \<and>
     (distinct (map as_name (os_args (cq_spec r))) \<longrightarrow>
       (\<forall>a \<in> set (os_args (cq_spec r)). (as_required a \<longrightarrow> map_of (cq_args r) (as_name a) \<noteq> None) \<and>
         (cq_mode r = Create_sandbox \<and> as_name a = ''count'' \<and> as_kind a = Arg_integer \<longrightarrow>
            map_of (cq_args r) ''count'' = Some (Val_number (Fin 1))))))"

lemma one_value: "map_of vals (as_name a) = Some ''1'' \<Longrightarrow> as_kind a = Arg_integer \<Longrightarrow> field_value vals a = Parsed (Val_number (Fin 1))"
proof -
  assume v: "map_of vals (as_name a) = Some ''1''" "as_kind a = Arg_integer"
  have "js_Number ''1'' = double_range (of_nat (digits_value ''1''))" by (rule js_Number_digits) (simp_all add: is_digit_def)
  also have "\<dots> = Fin 1" by (simp add: digits_value_def double_range_def max_double_bound_def)
  finally show ?thesis using v by (simp add: field_value_def parseArgValue_def parse_kind_def trim_def is_space_def is_digit_def Let_def)
qed

lemma find_named:
  assumes "distinct (map as_name specs)" "a \<in> set specs"
  shows "find (\<lambda>s. as_name s = as_name a) specs = Some a"
  using assms by (induction specs) (auto simp: image_iff)

lemma built_good:
  assumes b: "buildArgs specs vals = (args, [])" and d: "distinct (map as_name specs)" and a: "a \<in> set specs"
  shows "as_required a \<Longrightarrow> map_of args (as_name a) \<noteq> None"
    and "field_value vals a = Parsed v \<Longrightarrow> map_of args (as_name a) = Some v"
proof -
  have l: "map_of args (as_name a) = (case field_value vals a of Parsed v \<Rightarrow> Some v | _ \<Rightarrow> None)"
      "(case field_value vals a of Invalid m \<Rightarrow> Some m | _ \<Rightarrow> None) = None"
    using buildArgs_lookup [OF d, of vals "as_name a"] b find_named [OF d a] by auto
  show "field_value vals a = Parsed v \<Longrightarrow> map_of args (as_name a) = Some v" using l by simp
  assume "as_required a"
  then show "map_of args (as_name a) \<noteq> None" using l required_field [of a vals] by (cases "field_value vals a") auto
qed

definition create_inv :: "create_modal \<Rightarrow> bool" where
  "create_inv s = ((\<forall>r \<in> set (cm_sent s). request_good r) \<and> length (cm_calls s) \<le> 1 \<and> (cm_busy s \<longleftrightarrow> cm_calls s \<noteq> []) \<and>
     (cm_open s \<longrightarrow> \<not> cm_busy s) \<and> (cm_logs s \<noteq> None \<longleftrightarrow> cm_busy s))"

lemma submit_create_inv:
  assumes inv: "create_inv s" and shown: "cm_open s"
  shows "create_inv (submit_create s)"
proof (cases "cm_spec s")
  case None
  with inv show ?thesis by (simp add: submit_create_def)
next
  case (Some spec)
  define vals where "vals = (if cm_mode s = Create_sandbox then map_set ''count'' ''1'' (cm_values s) else cm_values s)"
  obtain args errors where b: "buildArgs (os_args spec) vals = (args, errors)" by fastforce
  define errors' where "errors' = (if cm_mode s = Create_cluster \<and> \<not> count_ok (map_of args ''count'')
    then map_set ''count'' ''count must be an integer of 1 or more'' errors else errors)"
  define r where "r = \<lparr>cq_mode = cm_mode s, cq_spec = spec, cq_args = args\<rparr>"
  have sub: "submit_create s = (if errors' \<noteq> [] then s\<lparr>cm_errors := errors'\<rparr>
      else s\<lparr>cm_errors := errors', cm_busy := True, cm_logs := Some [], cm_open := False, cm_calls := cm_calls s @ [r], cm_sent := cm_sent s @ [r]\<rparr>)"
    by (simp add: submit_create_def Some vals_def [symmetric] b errors'_def [symmetric] r_def [symmetric] Let_def)
  show ?thesis
  proof (cases "errors' = []")
    case False
    with inv show ?thesis by (auto simp: sub create_inv_def)
  next
    case True
    have "map_set k v m \<noteq> []" for k :: string and v :: string and m by (cases m) (auto split: if_splits)
    with True have none: "errors = []" and count: "cm_mode s = Create_cluster \<longrightarrow> count_ok (map_of args ''count'')"
      by (auto simp: errors'_def split: if_splits)
    note good = built_good [OF b [unfolded none]]
    have one: "map_of args ''count'' = Some (Val_number (Fin 1))"
      if "distinct (map as_name (os_args spec))" "a \<in> set (os_args spec)" "cm_mode s = Create_sandbox"
        "as_name a = ''count''" "as_kind a = Arg_integer" for a
    proof -
      have "map_of vals (as_name a) = Some ''1''" using that(3, 4) by (simp add: vals_def)
      then have "field_value vals a = Parsed (Val_number (Fin 1))" using that(5) by (rule one_value)
      from good(2) [OF that(1, 2) this] show ?thesis by (simp add: that(4))
    qed
    have "request_good r"
      unfolding request_good_def r_def using count good(1) one by simp
    moreover have "cm_calls s = []" "\<not> cm_busy s" using inv shown by (auto simp: create_inv_def)
    ultimately show ?thesis using inv True by (simp add: sub create_inv_def)
  qed
qed

lemma create_done_inv:
  assumes "create_inv s" "cm_calls s = r # rs"
  shows "create_inv (create_done r now result failure (s\<lparr>cm_calls := rs\<rparr>))"
  using assms by (auto simp: create_done_def create_inv_def Let_def split: sum.splits option.splits)

lemma values_effect_inv: "create_inv s \<Longrightarrow> create_inv (values_effect s)"
  by (auto simp: values_effect_def create_inv_def)

lemma create_handle_inv: "create_inv s \<Longrightarrow> create_inv (create_handle s e)"
proof (cases e)
  case Submit_create
  assume "create_inv s"
  with Submit_create show ?thesis by (simp add: submit_create_inv)
next
  case (Create_done now result failure)
  assume "create_inv s"
  with Create_done show ?thesis by (simp add: create_done_inv split: list.splits)
qed (auto simp: create_inv_def openModal_def choose_mode_def)

interpretation create: guarded_machine create_step create_inv "\<lambda>s. length (cm_calls s)" 1
proof
  show "create_inv s \<Longrightarrow> create_inv (create_step s e)" for s e
    by (simp add: create_step_def create_handle_inv values_effect_inv Let_def)
  show "create_inv s \<Longrightarrow> length (cm_calls s) \<le> 1" for s by (simp add: create_inv_def)
qed

section \<open>Columns\<close>

definition dirs_of :: "(string option \<Rightarrow> DirectoryListing option) \<Rightarrow> string option \<Rightarrow> string list" where
  "dirs_of ls p = (case ls p of None \<Rightarrow> [] | Some l \<Rightarrow> map di_path (dl_directories l))"

definition chain :: "(string option \<Rightarrow> DirectoryListing option) \<Rightarrow> string option list \<Rightarrow> bool" where
  "chain ls cols = (\<forall>i. Suc i < length cols \<longrightarrow> (\<exists>p \<in> set (dirs_of ls (cols ! i)). cols ! Suc i = Some p))"

definition picker_inv :: "(string option \<Rightarrow> DirectoryListing option) \<Rightarrow> picker \<Rightarrow> bool" where
  "picker_inv ls s = (wp_columnPaths s \<noteq> [] \<and> length (wp_columnPaths s) \<le> MAX_VISIBLE_COLUMNS \<and>
     last (wp_columnPaths s) = wp_selectedPath s \<and> chain ls (wp_columnPaths s))"

lemma chain_single [simp]: "chain ls [p]"
  by (simp add: chain_def)

lemma chain_drop: "chain ls cols \<Longrightarrow> chain ls (drop n cols)"
  by (auto simp: chain_def)

lemma chain_slice: "chain ls cols \<Longrightarrow> chain ls (slice_last n cols)"
  by (simp add: slice_last_def chain_drop)

lemma chain_push:
  assumes "chain ls cols" "i < length cols" "p \<in> set (dirs_of ls (cols ! i))"
  shows "chain ls (take (Suc i) cols @ [Some p])"
  using assms by (auto simp: chain_def nth_append less_Suc_eq)

lemma navigateTo_inv:
  assumes "picker_inv ls s" "i < length (wp_columnPaths s)" "di_path d \<in> set (dirs_of ls (wp_columnPaths s ! i))"
  shows "picker_inv ls (navigateTo d i s)"
proof -
  let ?cols = "take (Suc i) (wp_columnPaths s) @ [Some (di_path d)]"
  have "chain ls ?cols" using assms by (intro chain_push) (simp_all add: picker_inv_def)
  then have "chain ls (slice_last MAX_VISIBLE_COLUMNS ?cols)" by (rule chain_slice)
  moreover have "last (slice_last 3 ?cols) = Some (di_path d)"
    using at_last_slice_last [of 3 ?cols] by (simp add: at_last_def split: if_splits)
  moreover have "slice_last 3 ?cols \<noteq> []" using at_last_slice_last [of 3 ?cols] by (auto simp: at_last_def)
  ultimately show ?thesis by (simp add: picker_inv_def navigateTo_def MAX_VISIBLE_COLUMNS_def)
qed

lemma filtered_subset: "set (filteredDirectories active search dirs) \<subseteq> set dirs"
  by (auto simp: filteredDirectories_def Let_def)

lemma column_dirs_listed: "d \<in> set (column_dirs ls s i) \<Longrightarrow> di_path d \<in> set (dirs_of ls (wp_columnPaths s ! i))"
  using filtered_subset by (fastforce simp: column_dirs_def dirs_of_def split: option.splits)

lemma search_enter_inv:
  assumes inv: "picker_inv ls s"
  shows "picker_inv ls (search_enter (case ls (wp_selectedPath s) of None \<Rightarrow> [] | Some l \<Rightarrow> dl_directories l) s)"
proof -
  let ?dirs = "case ls (wp_selectedPath s) of None \<Rightarrow> [] | Some l \<Rightarrow> dl_directories l"
  have last: "wp_columnPaths s ! (length (wp_columnPaths s) - 1) = wp_selectedPath s"
    using inv last_conv_nth [of "wp_columnPaths s"] by (simp add: picker_inv_def)
  have "picker_inv ls (navigateTo d (length (wp_columnPaths s) - 1) s)" if "d \<in> set ?dirs" for d
    using that inv last by (intro navigateTo_inv) (auto simp: picker_inv_def dirs_of_def split: option.splits)
  then show ?thesis using inv by (auto simp: search_enter_def find_Some_iff Let_def split: option.splits)
qed

lemma picker_step_inv: "picker_inv ls s \<Longrightarrow> picker_inv ls (picker_step ls s e)"
proof (cases e)
  case (Picker_click i k)
  assume inv: "picker_inv ls s"
  have "picker_inv ls (navigateTo (column_dirs ls s i ! k) i s)" if "i < length (wp_columnPaths s)" "k < length (column_dirs ls s i)"
    using inv that(1) column_dirs_listed [OF nth_mem [OF that(2)]] by (rule navigateTo_inv)
  with inv Picker_click show ?thesis by simp
next
  case Picker_enter
  assume "picker_inv ls s"
  with Picker_enter show ?thesis by (simp add: search_enter_inv)
qed (auto simp: picker_inv_def open_picker_def showRoots_def navigateUp_def use_folder_def MAX_VISIBLE_COLUMNS_def Let_def split: option.splits)

interpretation picker_columns: event_machine "picker_step ls" "picker_inv ls" for ls
  by unfold_locales (rule picker_step_inv)

section \<open>Properties\<close>

text \<open>
  C28: Creation requests are well formed and alone.  Whatever happens in the dialog, at most one
  creation runs, the dialog is closed and its progress card shown exactly meanwhile; a cluster is
  requested with a count of at least one, a single sandbox with the count one if the catalog has that
  argument, and every required argument is set.
\<close>

theorem create_requests:
  assumes "s = run create_step (create_init storage) es" "r \<in> set (cm_sent s)"
  shows "length (cm_calls s) \<le> 1 \<and> (cm_busy s \<longleftrightarrow> cm_calls s \<noteq> []) \<and> (cm_logs s \<noteq> None \<longleftrightarrow> cm_busy s) \<and> (cm_busy s \<longrightarrow> \<not> cm_open s) \<and>
    (cq_mode r = Create_cluster \<longrightarrow> count_ok (map_of (cq_args r) ''count'')) \<and>
    (distinct (map as_name (os_args (cq_spec r))) \<longrightarrow>
      (\<forall>a \<in> set (os_args (cq_spec r)). (as_required a \<longrightarrow> map_of (cq_args r) (as_name a) \<noteq> None) \<and>
        (cq_mode r = Create_sandbox \<and> as_name a = ''count'' \<and> as_kind a = Arg_integer \<longrightarrow>
           map_of (cq_args r) ''count'' = Some (Val_number (Fin 1)))))"
proof -
  have "create_inv (create_init storage)" by (simp add: create_inv_def create_init_def)
  then have "create_inv s" unfolding assms(1) by (rule create.inv_run)
  then show ?thesis using assms(2) by (auto simp: create_inv_def request_good_def)
qed

text \<open>
  The columns of the folder picker are a path.  In every reachable state there are one to three
  columns, the last is the selected folder, and each is a folder listed in the one before it; so what
  is used is a folder that was opened or listed.
\<close>

lemma picker_columns_path:
  assumes "s = run (picker_step ls) picker_init es"
  shows "1 \<le> length (wp_columnPaths s) \<and> length (wp_columnPaths s) \<le> 3 \<and> last (wp_columnPaths s) = wp_selectedPath s \<and>
    (\<forall>i. Suc i < length (wp_columnPaths s) \<longrightarrow>
      (\<exists>p \<in> set (dirs_of ls (wp_columnPaths s ! i)). wp_columnPaths s ! Suc i = Some p))"
proof -
  have "picker_inv ls picker_init" by (simp add: picker_inv_def picker_init_def MAX_VISIBLE_COLUMNS_def)
  then have "picker_inv ls s" unfolding assms by (rule picker_columns.inv_run)
  then show ?thesis by (simp add: picker_inv_def chain_def MAX_VISIBLE_COLUMNS_def Suc_le_eq)
qed

definition sample_listing :: "string option \<Rightarrow> DirectoryListing option" where
  "sample_listing p = Some \<lparr>dl_path = p, dl_parent = None, dl_truncated = False, dl_directories = [\<lparr>di_name = ''a'', di_path = ''/a''\<rparr>]\<rparr>"

lemma sample_columns:
  "run (picker_step sample_listing) picker_init [Picker_trigger [], Picker_click 0 0] =
     \<lparr>wp_open = True, wp_columnPaths = [None, Some ''/a''], wp_selectedPath = Some ''/a'', wp_search = [], wp_searchOpen = False, wp_chosen = []\<rparr>"
proof -
  have "toLowerCase (trim []) = []" by (simp add: toLowerCase_def trim_def)
  then show ?thesis
    by (simp add: open_picker_def picker_init_def column_dirs_def filteredDirectories_def navigateTo_def sample_listing_def
        slice_last_def MAX_VISIBLE_COLUMNS_def Let_def)
qed

lemma picker_columns_path_witness:
  "last (wp_columnPaths (run (picker_step sample_listing) picker_init [Picker_trigger [], Picker_click 0 0])) = Some ''/a''"
  using picker_columns_path [OF refl, of sample_listing "[Picker_trigger [], Picker_click 0 0]"] unfolding sample_columns by simp

definition sample_spec :: OperationSpecDoc where
  "sample_spec = \<lparr>os_name = ''create_sandbox'', os_family = [], os_summary = [], os_description = [],
     os_args = [\<lparr>as_name = ''count'', as_kind = Arg_integer, as_required = False, as_help = [], as_default = None\<rparr>], os_related = []\<rparr>"

definition sample_creation :: create_modal where
  "sample_creation = run create_step (create_init \<lparr>st_readable = True, st_writable = True, st_item = None\<rparr>)
     [Catalog_arrives sample_spec, Open_create, Submit_create]"

theorem create_requests_witness:
  "map (\<lambda>r. map_of (cq_args r) ''count'') (cm_sent sample_creation) = [Some (Val_number (Fin 1))]"
proof -
  have sent: "map cq_mode (cm_sent sample_creation) = [Create_sandbox] \<and> map cq_spec (cm_sent sample_creation) = [sample_spec]"
    by (simp add: sample_creation_def sample_spec_def create_step_def create_init_def openModal_def values_effect_def defaultValues_def spread_def
        submit_create_def buildArgs_def build_step_field one_value Let_def)
  then obtain r where r: "cm_sent sample_creation = [r]" "cq_mode r = Create_sandbox" "cq_spec r = sample_spec" by auto
  have member: "r \<in> set (cm_sent sample_creation)" by (simp add: r(1))
  from create_requests [OF sample_creation_def member] r show ?thesis by (simp add: sample_spec_def)
qed

end
