(* ===== verification/Picker_View.thy ===== *)
theory Picker_View
  imports Create_Sandbox View
begin

text \<open>
  What the folder picker of \<^verbatim>\<open>web/src/pages/fleet/WorkspacePicker.tsx\<close> renders, over the machine of \<open>Create_Sandbox\<close>.  The
  query of a location (pending, its failure, its listing) and the rows that the virtualizer of a column shows are inputs; scrolling and
  focus are the browser's.
\<close>

record listing_query =
  lq_pending :: bool
  lq_error :: "string option"
  lq_data :: "DirectoryListing option"

definition listings :: "(string option \<Rightarrow> listing_query) \<Rightarrow> string option \<Rightarrow> DirectoryListing option" where
  "listings queries path = lq_data (queries path)"

section \<open>Columns\<close>

text \<open>A folder of a column: \<open>(index, start, size)\<close> is the virtualizer's.\<close>

definition folder_option :: "nat \<Rightarrow> directory list \<Rightarrow> string option \<Rightarrow> nat \<times> nat \<times> nat \<Rightarrow> picker_event view" where
  "folder_option column dirs selectedPath = (\<lambda>(index, start, sz). let d = dirs ! index; selected = (selectedPath = Some (di_path d)) in
     El ''option'' (attr_bool ''aria-selected'' selected @ [(''height'', show_nat sz), (''transform'', ''translateY('' @ show_nat start @ ''px)'')])
       [(''click'', Send (Picker_click column index))] [box ''Folder'' [], caption (di_name d), box ''ChevronRight'' []])"

definition column_label :: "string option \<Rightarrow> string" where
  "column_label path = ''Folders in '' @ (case path of None \<Rightarrow> ''available locations'' | Some p \<Rightarrow> p)"

definition title_of :: "string option \<Rightarrow> (string \<times> string) list" where
  "title_of path = (case path of None \<Rightarrow> [] | Some p \<Rightarrow> [(''title'', p)])"

definition DirectoryColumn :: "nat \<Rightarrow> (nat \<times> nat \<times> nat) list \<Rightarrow> bool \<Rightarrow> string option \<Rightarrow> string \<Rightarrow> string option \<Rightarrow> listing_query \<Rightarrow> picker_event view" where
  "DirectoryColumn column virtual active path search selectedPath query =
     (let directories = (case lq_data query of None \<Rightarrow> [] | Some l \<Rightarrow> dl_directories l); shown = filteredDirectories active search directories in
      El ''group'' ([(''aria-label'', column_label path)] @ flag ''data-workspace-column-active'' active) []
        ([box ''heading'' [box (if path = None then ''HardDrive'' else ''FolderOpen'') [], El ''text'' (title_of path) [] [Txt (folderName path)]]] @
         show_when (lq_pending query) (caption (''Loading folders'' @ ellipsis)) @
         (case lq_error query of None \<Rightarrow> [] | Some m \<Rightarrow> [El ''alert'' [(''title'', ''Folder listing unavailable'')] [] [Txt m]]) @
         show_when (lq_data query \<noteq> None) (El ''listbox'' [(''aria-label'', column_label path)] []
           (if shown = [] then [caption (if directories = [] then ''No folders inside'' else ''No folders match this search'')]
            else map (folder_option column shown selectedPath) virtual)) @
         show_when (case lq_data query of None \<Rightarrow> False | Some l \<Rightarrow> dl_truncated l)
           (caption ''Showing the first 500 child folders returned by the server.'')))"

section \<open>The picker\<close>

definition picker_toolbar :: "(string option \<Rightarrow> listing_query) \<Rightarrow> picker \<Rightarrow> picker_event view" where
  "picker_toolbar queries s = box ''group''
     [El ''button'' (flag ''disabled'' (wp_selectedPath s = None \<or> lq_pending (queries (wp_selectedPath s)))) [(''click'', Send Picker_up)] [Txt ''Up''],
      El ''button'' (flag ''disabled'' (wp_selectedPath s = None)) [(''click'', Send Picker_roots)] [Txt ''Roots''],
      El ''text'' (title_of (wp_selectedPath s)) [] [Txt (folderName (wp_selectedPath s))],
      El ''button'' (attr_bool ''aria-pressed'' (wp_searchOpen s)) [(''click'', Send Picker_toggle_search)] [Txt ''Search child folders'']]"

definition picker_columns :: "(nat \<Rightarrow> (nat \<times> nat \<times> nat) list) \<Rightarrow> (string option \<Rightarrow> listing_query) \<Rightarrow> picker \<Rightarrow> picker_event view list" where
  "picker_columns virtual queries s = (let paths = wp_columnPaths s in
     map (\<lambda>i. DirectoryColumn i (virtual i) (i = length paths - 1) (paths ! i) (wp_search s)
       (if i + 1 < length paths then paths ! (i + 1) else None) (queries (paths ! i))) [0..<length paths])"

definition picker_modal :: "(nat \<Rightarrow> (nat \<times> nat \<times> nat) list) \<Rightarrow> (string option \<Rightarrow> listing_query) \<Rightarrow> picker \<Rightarrow> picker_event view" where
  "picker_modal virtual queries s = El ''modal'' [(''title'', ''Select workspace folder'')] [(''close'', Send Picker_close), (''escape'', Send Picker_escape)]
     ([picker_toolbar queries s] @
      show_when (wp_searchOpen s) (El ''input'' [(''aria-label'', ''Search child folders''), (''value'', wp_search s)]
        [(''change'', Send_text Picker_search), (''enter'', Send Picker_enter)] []) @
      [box ''columns'' (picker_columns virtual queries s),
       box ''group'' [caption ''Selected folder'', El ''text'' (title_of (wp_selectedPath s)) []
         [Txt (case wp_selectedPath s of None \<Rightarrow> ''None selected'' | Some p \<Rightarrow> p)]],
       box ''group'' [El ''button'' [] [(''click'', Send Picker_close)] [Txt ''Cancel''],
         El ''button'' (flag ''disabled'' (wp_selectedPath s = None)) [(''click'', Send Picker_use)] [Txt ''Use this folder'']]])"

definition WorkspacePicker :: "(nat \<Rightarrow> (nat \<times> nat \<times> nat) list) \<Rightarrow> (string option \<Rightarrow> listing_query) \<Rightarrow> string \<Rightarrow> picker \<Rightarrow> picker_event view" where
  "WorkspacePicker virtual queries v s = box ''fragment''
     (El ''button'' [] [(''click'', Send (Picker_trigger v))] [Txt (if v \<noteq> [] then v else ''Select a folder'' @ ellipsis)] #
      show_when (wp_open s) (picker_modal virtual queries s))"

section \<open>What the picker offers\<close>

lemma offered_option [simp]: "offered (folder_option column dirs sel item) = {Picker_click column (fst item)}"
  by (simp add: folder_option_def Let_def split: prod.splits)

lemma offered_column:
  "offered (DirectoryColumn column virtual active path search sel query) =
     (if filteredDirectories active search (case lq_data query of None \<Rightarrow> [] | Some l \<Rightarrow> dl_directories l) = [] then {}
      else Picker_click column ` fst ` set virtual)"
  by (auto simp: DirectoryColumn_def filteredDirectories_def Let_def split: option.splits if_splits)

lemma offered_columns:
  "\<Union>(offered ` set (picker_columns virtual queries s)) =
     {Picker_click i k | i k. i < length (wp_columnPaths s) \<and> column_dirs (listings queries) s i \<noteq> [] \<and> k \<in> fst ` set (virtual i)}"
proof -
  have union: "(\<Union>i \<in> {0..<n} \<inter> {i. P i}. Picker_click i ` G i) = {Picker_click i k | i k. i < n \<and> P i \<and> k \<in> G i}" for n P G
    by auto
  show ?thesis unfolding picker_columns_def Let_def
    by (simp add: offered_column column_dirs_def listings_def union [where G = "\<lambda>i. fst ` set (virtual i)"])
qed

lemma offered_toolbar: "offered (picker_toolbar queries s) = {Picker_toggle_search} \<union> (if wp_selectedPath s = None then {} else {Picker_roots}) \<union>
    (if wp_selectedPath s = None \<or> lq_pending (queries (wp_selectedPath s)) then {} else {Picker_up})"
  by (auto simp: picker_toolbar_def attr_on_def)

lemma offered_modal:
  "offered (picker_modal virtual queries s) = {Picker_close, Picker_escape} \<union> offered (picker_toolbar queries s) \<union>
     (if wp_searchOpen s then insert Picker_enter (range Picker_search) else {}) \<union> \<Union>(offered ` set (picker_columns virtual queries s)) \<union>
     (if wp_selectedPath s = None then {} else {Picker_use})"
  by (auto simp: picker_modal_def)

lemma offered_WorkspacePicker:
  "offered (WorkspacePicker virtual queries v s) = insert (Picker_trigger v) (if wp_open s then offered (picker_modal virtual queries s) else {})"
  by (simp add: WorkspacePicker_def)

text \<open>
  Every folder that a column shows can be taken in two clicks: its row, then the button, after which the form has its path and the picker
  is closed.
\<close>

lemma folder_taken_in_two:
  assumes "wp_open s" "i < length (wp_columnPaths s)" "k < length (column_dirs (listings queries) s i)" "k \<in> fst ` set (virtual i)"
  defines "es \<equiv> [Picker_click i k, Picker_use]" and "t \<equiv> run (picker_step (listings queries)) s [Picker_click i k, Picker_use]"
  shows "clicks (WorkspacePicker virtual queries v) (picker_step (listings queries)) s es \<and>
    wp_chosen t = wp_chosen s @ [di_path (column_dirs (listings queries) s i ! k)] \<and> \<not> wp_open t"
proof -
  let ?u = "navigateTo (column_dirs (listings queries) s i ! k) i s"
  have u: "picker_step (listings queries) s (Picker_click i k) = ?u" using assms(1-3) by simp
  have "wp_open ?u" "wp_selectedPath ?u = Some (di_path (column_dirs (listings queries) s i ! k))" "wp_chosen ?u = wp_chosen s"
    using assms(1) by (simp_all add: navigateTo_def)
  moreover have "column_dirs (listings queries) s i \<noteq> []" using assms(3) by auto
  ultimately show ?thesis using assms(1,2,4) unfolding es_def t_def clicks.simps run.simps u
    by (simp add: offered_WorkspacePicker offered_modal offered_columns use_folder_def)
qed

text \<open>
  Hiding the search leaves its text: the last column stays filtered with no field on the page that shows or clears it.
\<close>

lemma hidden_search_filters:
  fixes t :: string
  assumes "wp_open s" "\<not> wp_searchOpen s" "es = [Picker_toggle_search, Picker_search t, Picker_toggle_search]"
    and "s' = run (picker_step (listings queries)) s es"
  shows "clicks (WorkspacePicker virtual queries v) (picker_step (listings queries)) s es \<and>
    (\<forall>r. Picker_search r \<notin> offered (WorkspacePicker virtual queries v s')) \<and>
    column_dirs (listings queries) s' (length (wp_columnPaths s) - 1) =
      filteredDirectories True t (case listings queries (wp_columnPaths s ! (length (wp_columnPaths s) - 1)) of None \<Rightarrow> [] | Some l \<Rightarrow> dl_directories l)"
  using assms(1,2) unfolding assms(3,4)
  by (auto simp: offered_WorkspacePicker offered_modal offered_toolbar offered_columns column_dirs_def split: if_splits)

end
