(* ===== verification/Create_View.thy ===== *)
theory Create_View
  imports Picker_View
begin

text \<open>
  What the dialog of \<^verbatim>\<open>web/src/pages/fleet/CreateSandboxModal.tsx\<close> renders, over the machine of \<open>Create_Sandbox\<close>.  The query of the
  Docker images is an input; the folder picker is a component of its own that reports whether it is open and the folder taken.
\<close>

record images_query =
  iq_pending :: bool
  iq_error :: "RpcError option"
  iq_data :: "string list option"

definition mode_string :: "CreationMode \<Rightarrow> string" where
  "mode_string m = (case m of Create_sandbox \<Rightarrow> ''sandbox'' | Create_cluster \<Rightarrow> ''cluster'')"

definition choose_creation :: "string option \<Rightarrow> create_event" where
  "choose_creation v = Choose_mode (if v = Some ''cluster'' then Create_cluster else Create_sandbox)"

definition field_value_shown :: "create_modal \<Rightarrow> ArgSpecDoc \<Rightarrow> string" where
  "field_value_shown s a = (case map_of (cm_values s) (as_name a) of None \<Rightarrow> [] | Some v \<Rightarrow> v)"

definition image_field :: "images_query \<Rightarrow> create_modal \<Rightarrow> ArgSpecDoc \<Rightarrow> create_event view" where
  "image_field q s a = (let images = (case iq_data q of None \<Rightarrow> [] | Some is \<Rightarrow> is) in
     El ''select'' ([(''value'', field_value_shown s a),
         (''placeholder'', if iq_pending q then ''Loading Docker images'' @ ellipsis else ''Select a Docker image'')] @
         flag ''disabled'' (iq_pending q \<or> iq_error q \<noteq> None \<or> images = []))
       [(''change'', Send_choice images (\<lambda>v. Edit_field (as_name a) (case v of None \<Rightarrow> [] | Some t \<Rightarrow> t)))]
       (map (\<lambda>i. El ''option'' [(''value'', i)] [] [Txt i]) images))"

definition folder_field :: "create_modal \<Rightarrow> ArgSpecDoc \<Rightarrow> create_event view" where
  "folder_field s a = El ''picker'' [(''value'', field_value_shown s a)]
     [(''open'', Send (Picker_open True)), (''close'', Send (Picker_open False)), (''change'', Send_text (Edit_field (as_name a)))] []"

definition text_field :: "create_modal \<Rightarrow> ArgSpecDoc \<Rightarrow> create_event view" where
  "text_field s a = El ''input'' ((if as_name a = ''count'' then [(''type'', ''number''), (''min'', ''1''), (''step'', ''1'')] else []) @
     [(''value'', field_value_shown s a), (''placeholder'', as_help a)]) [(''change'', Send_text (Edit_field (as_name a)))] []"

definition create_field :: "images_query \<Rightarrow> create_modal \<Rightarrow> ArgSpecDoc \<Rightarrow> create_event view" where
  "create_field q s a = (let error = field_error s (iq_error q) (iq_data q) a in
     El ''field'' ([(''id'', ''create-'' @ as_name a), (''label'', as_name a)] @ flag ''required'' (field_required s a) @
         (case error of None \<Rightarrow> [(''description'', field_help a)] | Some m \<Rightarrow> [(''error'', m)])) []
       [if as_name a = ''image'' then image_field q s a else if as_name a = ''workspace_root'' then folder_field s a else text_field s a])"

text \<open>Escape does not close the dialog while the picker is open over it; the other ways do.\<close>

definition create_dialog :: "images_query \<Rightarrow> create_modal \<Rightarrow> create_event view" where
  "create_dialog q s = El ''modal'' [(''title'', ''Create sandbox'')]
       ([(''close'', Send Close_create)] @ (if cm_pickerOpen s then [] else [(''escape'', Send Close_create)]))
     [caption (case cm_spec s of None \<Rightarrow> ''Create a host-side sandbox record and runtime sandbox.'' | Some spec \<Rightarrow> os_summary spec),
      El ''form'' [] [(''submit'', Send Submit_create)]
        ([El ''segments'' [(''aria-label'', ''Creation mode''), (''value'', mode_string (cm_mode s))]
            [(''change'', Send_choice [''sandbox'', ''cluster''] choose_creation)] [caption ''Sandbox'', caption ''Cluster'']] @
         map (create_field q s) (shown_fields s) @
         [El ''button'' [] [(''click'', Send Close_create)] [Txt ''Cancel''],
          El ''submit'' (flag ''disabled'' (cm_spec s = None)) [(''click'', Send Submit_create)]
            [Txt (if cm_mode s = Create_sandbox then ''Create sandbox'' else ''Create cluster'')]])]"

definition CreateSandboxModal :: "images_query \<Rightarrow> create_modal \<Rightarrow> create_event view" where
  "CreateSandboxModal q s = box ''fragment''
     (El ''button'' ([(''aria-label'', ''Create sandbox'')] @ flag ''disabled'' (cm_busy s)) [(''click'', Send Open_create)]
        [Txt (if cm_busy s then ''Creating'' @ ellipsis else ''Create sandbox'')] #
      show_when (cm_open s) (create_dialog q s))"

section \<open>What the dialog offers\<close>

lemma offered_field: "e \<in> offered (create_field q s a) \<Longrightarrow> (\<exists>v. e = Edit_field (as_name a) v) \<or> (\<exists>b. e = Picker_open b)"
  by (auto simp: create_field_def image_field_def folder_field_def text_field_def Let_def split: if_splits option.splits)

text \<open>While a creation runs the page offers nothing, and an open dialog offers no answers and no log lines.\<close>

lemma offered_create:
  assumes "e \<in> offered (CreateSandboxModal q s)"
  shows "(\<not> cm_busy s \<and> e = Open_create) \<or> (cm_open s \<and> (e = Close_create \<or> e = Submit_create \<or> (\<exists>m. e = Choose_mode m) \<or>
    (\<exists>n v. e = Edit_field n v) \<or> (\<exists>b. e = Picker_open b)))"
  using assms by (auto simp: CreateSandboxModal_def create_dialog_def choose_creation_def dest!: offered_field split: if_splits)

lemma busy_create_offers_nothing:
  assumes "create_inv s" "cm_busy s"
  shows "offered (CreateSandboxModal q s) = {}"
  using offered_create [of _ q s] assms by (auto simp: create_inv_def)

end
