(* ===== verification/Process_Estimates.thy ===== *)
theory Process_Estimates
  imports Api_Types
begin

text \<open>
  Resource estimates of workspaces from two process topologies:
  \<^verbatim>\<open>web/src/pages/sandbox/observability/processEstimates.ts\<close>.  The map of the previous topology is an
  association list with the string keys of the source.
\<close>

record WorkspaceResourceEstimate =
  we_residentMemoryBytes :: "int option"
  we_cpuPercent :: "rat option"

definition isNonNegativeNumber :: "int option \<Rightarrow> bool" where
  "isNonNegativeNumber v = (case v of None \<Rightarrow> False | Some n \<Rightarrow> 0 \<le> n)"

definition processIdentity :: "WorkspaceProcess \<Rightarrow> string option" where
  "processIdentity p = (if isNonNegativeNumber (pr_start_time_ticks p)
     then Some (show_int (pr_pid p) @ '':'' @ show_int (the (pr_start_time_ticks p))) else None)"

definition indexProcesses :: "WorkspaceProcessTopology \<Rightarrow> (string \<times> int) list" where
  "indexProcesses topology = foldl (\<lambda>m w. foldl (\<lambda>m p.
       case processIdentity p of
         None \<Rightarrow> m
       | Some key \<Rightarrow> if isNonNegativeNumber (pr_cpu_time_us p)
           then map_set (wps_workspace_id w @ '':'' @ key) (the (pr_cpu_time_us p)) m else m)
     m (wps_processes w)) [] (tp_workspaces topology)"

record estimate_sums =
  es_memory :: int
  es_hasMemory :: bool
  es_cpuDelta :: int
  es_hasCpu :: bool

definition estimate_memory :: "WorkspaceProcess \<Rightarrow> estimate_sums \<Rightarrow> estimate_sums" where
  "estimate_memory p a = (if isNonNegativeNumber (pr_resident_memory_bytes p)
     then a\<lparr>es_memory := es_memory a + the (pr_resident_memory_bytes p), es_hasMemory := True\<rparr> else a)"

definition estimate_cpu :: "(string \<times> int) list option \<Rightarrow> int option \<Rightarrow> string \<Rightarrow> WorkspaceProcess \<Rightarrow> estimate_sums \<Rightarrow> estimate_sums" where
  "estimate_cpu previous elapsedMs w p a =
     (case (previous, elapsedMs) of
        (Some prev, Some ms) \<Rightarrow>
          if ms \<le> 0 then a
          else (case processIdentity p of
             None \<Rightarrow> a
           | Some key \<Rightarrow> if \<not> isNonNegativeNumber (pr_cpu_time_us p) then a
               else (case map_of prev (w @ '':'' @ key) of
                  None \<Rightarrow> a
                | Some before \<Rightarrow> if the (pr_cpu_time_us p) < before then a
                    else a\<lparr>es_cpuDelta := es_cpuDelta a + (the (pr_cpu_time_us p) - before), es_hasCpu := True\<rparr>))
      | _ \<Rightarrow> a)"

definition workspace_estimate :: "(string \<times> int) list option \<Rightarrow> int option \<Rightarrow> WorkspaceProcesses \<Rightarrow> WorkspaceResourceEstimate" where
  "workspace_estimate previous elapsedMs w =
     (let a = foldl (\<lambda>a p. estimate_cpu previous elapsedMs (wps_workspace_id w) p (estimate_memory p a))
                \<lparr>es_memory = 0, es_hasMemory = False, es_cpuDelta = 0, es_hasCpu = False\<rparr> (wps_processes w)
      in \<lparr>we_residentMemoryBytes = (if es_hasMemory a then Some (es_memory a) else None),
          we_cpuPercent = (case elapsedMs of
             Some ms \<Rightarrow> if es_hasCpu a then Some (of_int (es_cpuDelta a) / of_int (ms * 1000) * 100) else None
           | None \<Rightarrow> None)\<rparr>)"

definition estimateWorkspaceResources :: "WorkspaceProcessTopology option \<Rightarrow> WorkspaceProcessTopology \<Rightarrow> int option
    \<Rightarrow> (string \<times> WorkspaceResourceEstimate) list" where
  "estimateWorkspaceResources previous current elapsedMs =
     foldl (\<lambda>m w. map_set (wps_workspace_id w) (workspace_estimate (map_option indexProcesses previous) elapsedMs w) m)
       [] (tp_workspaces current)"

section \<open>Reference definitions\<close>

text \<open>
  The same process in the previous topology: same workspace, same pid, same start time.  Its last
  CPU time there is compared with; strings play no part.
\<close>

definition same_process :: "WorkspaceProcess \<Rightarrow> WorkspaceProcess \<Rightarrow> bool" where
  "same_process p q = (pr_pid q = pr_pid p \<and> pr_start_time_ticks q = pr_start_time_ticks p \<and>
     isNonNegativeNumber (pr_start_time_ticks p))"

definition prior_times :: "WorkspaceProcessTopology \<Rightarrow> string \<Rightarrow> WorkspaceProcess \<Rightarrow> int list" where
  "prior_times previous i p = map (the \<circ> pr_cpu_time_us)
     (filter (\<lambda>q. same_process p q \<and> isNonNegativeNumber (pr_cpu_time_us q))
       (concat (map wps_processes (filter (\<lambda>w. wps_workspace_id w = i) (tp_workspaces previous)))))"

definition cpu_delta :: "WorkspaceProcessTopology \<Rightarrow> string \<Rightarrow> WorkspaceProcess \<Rightarrow> int option" where
  "cpu_delta previous i p = (case (at_last (prior_times previous i p), pr_cpu_time_us p) of
     (Some before, Some after) \<Rightarrow> if before \<le> after then Some (after - before) else None | _ \<Rightarrow> None)"

section \<open>Keys\<close>

lemma show_int_no_colon: "CHR '':'' \<notin> set (show_int i)"
proof -
  have "CHR '':'' \<notin> set (show_nat n)" for n
    using show_nat_digits [of n] by (auto simp: is_digit_def)
  then show ?thesis by (simp add: show_int_def)
qed

lemma cut_at_colon:
  assumes "a @ '':'' @ b = a' @ '':'' @ b'" "CHR '':'' \<notin> set b" "CHR '':'' \<notin> set b'"
  shows "a = a' \<and> b = b'"
  using assms by (auto simp: append_eq_append_conv2 Cons_eq_append_conv append_eq_Cons_conv)

text \<open>The string keys are injective: the colon never occurs in a number, whatever the workspace is called.\<close>

lemma key_inject:
  assumes "processIdentity p = Some k" "processIdentity q = Some l"
  shows "v @ '':'' @ k = w @ '':'' @ l \<longleftrightarrow> v = w \<and> same_process p q"
proof
  assume eq: "v @ '':'' @ k = w @ '':'' @ l"
  let ?t = "\<lambda>p. show_int (the (pr_start_time_ticks p))"
  have kl: "k = show_int (pr_pid p) @ '':'' @ ?t p" "l = show_int (pr_pid q) @ '':'' @ ?t q"
    and n: "isNonNegativeNumber (pr_start_time_ticks p)" "isNonNegativeNumber (pr_start_time_ticks q)"
    using assms by (auto simp: processIdentity_def split: if_splits)
  have "(v @ '':'' @ show_int (pr_pid p)) @ '':'' @ ?t p = (w @ '':'' @ show_int (pr_pid q)) @ '':'' @ ?t q"
    using eq kl by simp
  then have "v @ '':'' @ show_int (pr_pid p) = w @ '':'' @ show_int (pr_pid q)" "?t p = ?t q"
    using cut_at_colon show_int_no_colon by blast+
  moreover from this(1) have "v = w" "show_int (pr_pid p) = show_int (pr_pid q)"
    using cut_at_colon show_int_no_colon by blast+
  ultimately show "v = w \<and> same_process p q"
    using n by (auto simp: same_process_def isNonNegativeNumber_def split: option.splits)
next
  assume "v = w \<and> same_process p q"
  with assms show "v @ '':'' @ k = w @ '':'' @ l" by (auto simp: same_process_def processIdentity_def split: if_splits)
qed

text \<open>The entries that the index is built from, in order.\<close>

definition process_entries :: "string \<Rightarrow> WorkspaceProcess list \<Rightarrow> (string \<times> int) list" where
  "process_entries i ps = map (\<lambda>p. (i @ '':'' @ the (processIdentity p), the (pr_cpu_time_us p)))
     (filter (\<lambda>p. processIdentity p \<noteq> None \<and> isNonNegativeNumber (pr_cpu_time_us p)) ps)"

lemma foldl_process_entries:
  "foldl (\<lambda>m p. case processIdentity p of None \<Rightarrow> m
      | Some key \<Rightarrow> if isNonNegativeNumber (pr_cpu_time_us p) then map_set (i @ '':'' @ key) (the (pr_cpu_time_us p)) m else m) m ps =
   foldl (\<lambda>m (k, v). map_set k v m) m (process_entries i ps)"
  by (induction ps arbitrary: m) (auto simp: process_entries_def split: option.splits)

lemma indexProcesses_entries:
  "map_of (indexProcesses topology) =
     map_of (rev (concat (map (\<lambda>w. process_entries (wps_workspace_id w) (wps_processes w)) (tp_workspaces topology))))"
proof -
  have "foldl (\<lambda>m w. foldl (\<lambda>m (k, v). map_set k v m) m (f w)) m ws = foldl (\<lambda>m (k, v). map_set k v m) m (concat (map f ws))"
    for f :: "WorkspaceProcesses \<Rightarrow> (string \<times> int) list" and m ws
    by (induction ws arbitrary: m) auto
  then show ?thesis unfolding indexProcesses_def foldl_process_entries
    by (simp add: map_of_foldl_map_set)
qed

lemma map_of_rev_last: "map_of (rev xs) k = at_last (map snd (filter (\<lambda>x. fst x = k) xs))"
  by (induction xs rule: rev_induct) auto

lemma entries_for_key:
  assumes "processIdentity p = Some k"
  shows "map snd (filter (\<lambda>x. fst x = j @ '':'' @ k) (process_entries i ps)) =
    (if i = j then map (the \<circ> pr_cpu_time_us) (filter (\<lambda>q. same_process p q \<and> isNonNegativeNumber (pr_cpu_time_us q)) ps) else [])"
proof (induction ps)
  case (Cons q ps)
  have "same_process p q \<Longrightarrow> processIdentity q \<noteq> None" by (auto simp: same_process_def processIdentity_def)
  moreover have "i @ '':'' @ the (processIdentity q) = j @ '':'' @ k \<longleftrightarrow> i = j \<and> same_process p q" if "processIdentity q \<noteq> None"
    using key_inject [OF assms, of q "the (processIdentity q)" j i] that by (metis option.collapse)
  ultimately show ?case using Cons by (auto simp: process_entries_def)
qed (simp add: process_entries_def)

lemma indexProcesses_lookup:
  assumes "processIdentity p = Some k"
  shows "map_of (indexProcesses topology) (i @ '':'' @ k) = at_last (prior_times topology i p)"
proof -
  have "map snd (filter (\<lambda>x. fst x = i @ '':'' @ k) (concat (map (\<lambda>w. process_entries (wps_workspace_id w) (wps_processes w)) ws))) =
      map (the \<circ> pr_cpu_time_us) (filter (\<lambda>q. same_process p q \<and> isNonNegativeNumber (pr_cpu_time_us q))
       (concat (map wps_processes (filter (\<lambda>w. wps_workspace_id w = i) ws))))" for ws
    using entries_for_key [OF assms] by (induction ws) simp_all
  then show ?thesis unfolding indexProcesses_entries map_of_rev_last prior_times_def by (rule arg_cong)
qed

section \<open>Sums\<close>

lemma cpu_delta_nonneg: "cpu_delta prev i p = Some d \<Longrightarrow> 0 \<le> d \<and> isNonNegativeNumber (pr_cpu_time_us p)"
proof -
  assume d: "cpu_delta prev i p = Some d"
  then obtain before now where b: "at_last (prior_times prev i p) = Some before" "pr_cpu_time_us p = Some now" "before \<le> now" "d = now - before"
    by (auto simp: cpu_delta_def split: option.splits if_splits)
  then have "before \<in> set (prior_times prev i p)" by (auto elim: at_last_SomeE)
  then have "0 \<le> before" by (auto simp: prior_times_def isNonNegativeNumber_def split: option.splits)
  with b show ?thesis by (simp add: isNonNegativeNumber_def)
qed

lemma estimate_cpu_delta:
  "estimate_cpu (Some (indexProcesses prev)) (Some ms) i p a =
     (if 0 < ms then (case cpu_delta prev i p of None \<Rightarrow> a
        | Some d \<Rightarrow> a\<lparr>es_cpuDelta := es_cpuDelta a + d, es_hasCpu := True\<rparr>) else a)"
proof (cases "processIdentity p")
  case None
  then have "prior_times prev i p = []"
    by (auto simp: prior_times_def filter_empty_conv same_process_def processIdentity_def split: if_splits)
  with None show ?thesis by (simp add: estimate_cpu_def cpu_delta_def)
next
  case (Some k)
  show ?thesis
    using cpu_delta_nonneg [of prev i p]
    by (auto simp: estimate_cpu_def Some indexProcesses_lookup [OF Some, simplified] cpu_delta_def isNonNegativeNumber_def split: option.splits)
qed

definition known_memory :: "WorkspaceProcess list \<Rightarrow> int list" where
  "known_memory ps = map (the \<circ> pr_resident_memory_bytes) (filter (isNonNegativeNumber \<circ> pr_resident_memory_bytes) ps)"

definition cpu_deltas :: "WorkspaceProcessTopology option \<Rightarrow> int option \<Rightarrow> string \<Rightarrow> WorkspaceProcess list \<Rightarrow> int list" where
  "cpu_deltas previous elapsedMs i ps = (case (previous, elapsedMs) of
     (Some prev, Some ms) \<Rightarrow> if 0 < ms then List.map_filter (cpu_delta prev i) ps else [] | _ \<Rightarrow> [])"

lemma estimate_step:
  "estimate_cpu (map_option indexProcesses previous) elapsedMs i p (estimate_memory p a) =
   a\<lparr>es_memory := es_memory a + sum_list (known_memory [p]), es_hasMemory := (es_hasMemory a \<or> known_memory [p] \<noteq> []),
     es_cpuDelta := es_cpuDelta a + sum_list (cpu_deltas previous elapsedMs i [p]),
     es_hasCpu := (es_hasCpu a \<or> cpu_deltas previous elapsedMs i [p] \<noteq> [])\<rparr>"
proof (cases "\<exists>prev ms. previous = Some prev \<and> elapsedMs = Some ms")
  case True
  then show ?thesis
    by (auto simp: estimate_cpu_delta estimate_memory_def known_memory_def cpu_deltas_def List.map_filter_def split: option.splits)
next
  case False
  then show ?thesis
    by (auto simp: estimate_cpu_def estimate_memory_def known_memory_def cpu_deltas_def split: option.splits)
qed

lemma known_memory_simps:
  "known_memory [] = []" "known_memory (p # ps) = known_memory [p] @ known_memory ps"
  by (simp_all add: known_memory_def)

lemma cpu_deltas_simps:
  "cpu_deltas previous elapsedMs i [] = []"
  "cpu_deltas previous elapsedMs i (p # ps) = cpu_deltas previous elapsedMs i [p] @ cpu_deltas previous elapsedMs i ps"
  by (auto simp: cpu_deltas_def List.map_filter_def split: option.splits)

lemma estimate_sums_fold:
  "foldl (\<lambda>a p. estimate_cpu (map_option indexProcesses previous) elapsedMs i p (estimate_memory p a)) a ps =
   a\<lparr>es_memory := es_memory a + sum_list (known_memory ps), es_hasMemory := (es_hasMemory a \<or> known_memory ps \<noteq> []),
     es_cpuDelta := es_cpuDelta a + sum_list (cpu_deltas previous elapsedMs i ps),
     es_hasCpu := (es_hasCpu a \<or> cpu_deltas previous elapsedMs i ps \<noteq> [])\<rparr>"
proof (induction ps arbitrary: a)
  case Nil
  show ?case by (simp add: known_memory_simps cpu_deltas_simps(1))
next
  case (Cons p ps)
  show ?case
    unfolding foldl_Cons Cons.IH estimate_step [of previous elapsedMs i p a] cpu_deltas_simps(2) [of previous elapsedMs i p ps] known_memory_simps(2) [of p ps]
    by (simp add: ac_simps)
qed

lemma workspace_estimate_sums:
  "workspace_estimate (map_option indexProcesses previous) elapsedMs w =
     \<lparr>we_residentMemoryBytes = (let known = known_memory (wps_processes w) in if known = [] then None else Some (sum_list known)),
      we_cpuPercent = (let ds = cpu_deltas previous elapsedMs (wps_workspace_id w) (wps_processes w)
        in if ds = [] then None else Some (of_int (sum_list ds) / of_int (the elapsedMs * 1000) * 100))\<rparr>"
  unfolding workspace_estimate_def estimate_sums_fold Let_def
  by (auto simp: cpu_deltas_def split: option.splits)

lemma estimates_lookup:
  assumes "distinct (map wps_workspace_id ws)" "w \<in> set ws"
  shows "map_of (foldl (\<lambda>m w. map_set (wps_workspace_id w) (f w) m) [] ws) (wps_workspace_id w) = Some (f w)"
proof -
  have "foldl (\<lambda>m w. map_set (wps_workspace_id w) (f w) m) m ws = foldl (\<lambda>m (k, v). map_set k v m) m (map (\<lambda>w. (wps_workspace_id w, f w)) ws)" for m
    by (induction ws arbitrary: m) auto
  then show ?thesis using assms
    by (force simp: map_of_foldl_map_set map_of_rev_distinct comp_def intro: map_of_is_SomeI)
qed

section \<open>Properties\<close>

text \<open>
  C24: The estimates are what the two topologies determine, and the string keys never confuse processes.
  A workspace's memory is the sum of the known resident sizes of its processes, unknown if there is
  none; its CPU share is the CPU time that the processes of the same workspace, pid and start time
  gained since the previous topology, over the elapsed time, unknown without such a process or
  without a positive elapsed time.  It is never negative.
\<close>

theorem estimateWorkspaceResources_exact:
  assumes "distinct (map wps_workspace_id (tp_workspaces current))" "w \<in> set (tp_workspaces current)"
    and "ds = cpu_deltas previous elapsedMs (wps_workspace_id w) (wps_processes w)" "known = known_memory (wps_processes w)"
  shows "\<exists>e. map_of (estimateWorkspaceResources previous current elapsedMs) (wps_workspace_id w) = Some e \<and>
    we_residentMemoryBytes e = (if known = [] then None else Some (sum_list known)) \<and>
    we_cpuPercent e = (if ds = [] then None else Some (of_int (sum_list ds) / of_int (the elapsedMs * 1000) * 100)) \<and>
    (\<forall>c. we_cpuPercent e = Some c \<longrightarrow> 0 \<le> c)"
proof -
  have "\<forall>d \<in> set ds. 0 \<le> d" and pos: "ds \<noteq> [] \<longrightarrow> 0 < the elapsedMs"
    unfolding assms(3) cpu_deltas_def
    by (auto simp: List.map_filter_def dest: cpu_delta_nonneg split: option.splits if_splits)
  then have nonneg: "0 \<le> sum_list ds" by (simp add: sum_list_nonneg)
  from pos nonneg have "ds \<noteq> [] \<longrightarrow> (0 :: rat) \<le> of_int (sum_list ds) / of_int (the elapsedMs * 1000) * 100"
    by (auto intro!: mult_nonneg_nonneg divide_nonneg_nonneg)
  then show ?thesis
    unfolding estimateWorkspaceResources_def estimates_lookup [OF assms(1,2)] workspace_estimate_sums assms(3,4) [symmetric] Let_def
    by auto
qed

definition sample_process :: "int \<Rightarrow> WorkspaceProcess" where
  "sample_process cpu = \<lparr>pr_pid = 7, pr_namespace_pid = 1, pr_parent_pid = 0, pr_name = ''sh'', pr_state = ''S'', pr_kind = Process,
     pr_cgroup_memberships = [], pr_resident_memory_bytes = Some 4096, pr_cpu_time_us = Some cpu, pr_start_time_ticks = Some 5\<rparr>"

definition sample_topology :: "int \<Rightarrow> WorkspaceProcessTopology" where
  "sample_topology cpu = \<lparr>tp_available = True, tp_source = None, tp_error = None, tp_truncated = False, tp_warnings = [],
     tp_workspaces = [\<lparr>wps_workspace_id = ''w'', wps_state = Wp_active, wps_holder_pid = 7, wps_pid_namespace = None,
       wps_mount_namespace = None, wps_processes = [sample_process cpu]\<rparr>], tp_daemon = None\<rparr>"

lemma sample_estimate_facts:
  "cpu_deltas (Some (sample_topology 1000)) (Some 10) (wps_workspace_id (hd (tp_workspaces (sample_topology 6000))))
     (wps_processes (hd (tp_workspaces (sample_topology 6000)))) = [5000]"
  "known_memory (wps_processes (hd (tp_workspaces (sample_topology 6000)))) = [4096]"
  by code_simp+

theorem estimateWorkspaceResources_exact_witness:
  "\<exists>e. map_of (estimateWorkspaceResources (Some (sample_topology 1000)) (sample_topology 6000) (Some 10)) ''w'' = Some e \<and>
     we_cpuPercent e = Some 50 \<and> we_residentMemoryBytes e = Some 4096"
  using estimateWorkspaceResources_exact [of "sample_topology 6000" "hd (tp_workspaces (sample_topology 6000))" _ "Some (sample_topology 1000)" "Some 10", OF _ _ refl refl]
  unfolding sample_estimate_facts by (auto simp: sample_topology_def)

end
