(* ===== verification/Resource_Views.thy ===== *)
theory Resource_Views
  imports Resources Process_Estimates Observability_Api Js_Number Machine
begin

text \<open>
  The resource charts and the process topology:
  \<^verbatim>\<open>ResourcesView.tsx\<close> and \<^verbatim>\<open>CgroupView.tsx\<close> of \<^verbatim>\<open>web/src/pages/sandbox/observability\<close>.  Numbers come
  from JSON and are finite; drawing them is the chart library's.
\<close>

section \<open>Charts\<close>

definition WINDOWS :: "(string \<times> int) list" where
  "WINDOWS = [(''60s'', 60000), (''300s'', 300000), (''600s (max)'', 600000)]"

definition finite_num :: "jsnum option \<Rightarrow> rat option" where
  "finite_num v = (case v of Some (Fin q) \<Rightarrow> Some q | _ \<Rightarrow> None)"

definition chart_cpu :: "ResourceSample \<Rightarrow> rat option" where
  "chart_cpu sample = (case finite_num (map_of (rs_deltas sample) ''cpu_usec'') of None \<Rightarrow> None
     | Some delta \<Rightarrow> (let period = (case finite_num (rs_sample_delta_ms sample) of None \<Rightarrow> 1000 | Some p \<Rightarrow> p)
         in if 0 < period then Some (delta / (period * 1000)) else None))"

definition chart_memory :: "ResourceSample \<Rightarrow> rat option" where
  "chart_memory sample = map_option (\<lambda>m. m / 1000000) (finite_num (metric_num (map_of (rs_metrics sample) ''mem_cur'')))"

definition chart_io :: "ResourceSample \<Rightarrow> rat option" where
  "chart_io sample = (case (finite_num (map_of (rs_deltas sample) ''io_rbytes''), finite_num (map_of (rs_deltas sample) ''io_wbytes'')) of
     (None, None) \<Rightarrow> None
   | (r, w) \<Rightarrow> Some ((case r of None \<Rightarrow> 0 | Some x \<Rightarrow> x) + (case w of None \<Rightarrow> 0 | Some x \<Rightarrow> x)))"

definition chart_disk :: "ResourceSample \<Rightarrow> rat option" where
  "chart_disk sample = finite_num (metric_num (map_of (rs_metrics sample) ''disk_bytes''))"

definition RESOURCE_CHARTS :: "(string \<times> (ResourceSample \<Rightarrow> rat option)) list" where
  "RESOURCE_CHARTS = [(''CPU ('' @ [CHR 0xCE, CHR 0x94] @ '' cpu_usec / s)'', chart_cpu), (''Memory (MB)'', chart_memory),
     (''IO ('' @ [CHR 0xCE, CHR 0x94] @ '' read+write bytes)'', chart_io), (''Disk upperdir (bytes)'', chart_disk)]"

text \<open>The points of a chart: samples without a value are skipped, not drawn as zero.\<close>

fun chart_data :: "(ResourceSample \<Rightarrow> rat option) \<Rightarrow> ResourceSample list \<Rightarrow> jsnum list \<times> rat list" where
  "chart_data value [] = ([], [])"
| "chart_data value (sample # samples) = (case chart_data value samples of (xs, ys) \<Rightarrow>
     (case value sample of None \<Rightarrow> (xs, ys)
      | Some y \<Rightarrow> ((case rs_ts sample of Fin t \<Rightarrow> Fin (t / 1000) | t \<Rightarrow> t) # xs, y # ys)))"

definition chart_hasData :: "(ResourceSample \<Rightarrow> rat option) \<Rightarrow> ResourceSample list \<Rightarrow> bool" where
  "chart_hasData value samples = (1 < length (fst (chart_data value samples)))"

record chart_summary =
  cs_latest :: rat
  cs_min :: rat
  cs_max :: rat

definition summary_of :: "(ResourceSample \<Rightarrow> rat option) \<Rightarrow> ResourceSample list \<Rightarrow> chart_summary option" where
  "summary_of value samples = (case List.map_filter value samples of [] \<Rightarrow> None
     | v # vs \<Rightarrow> Some \<lparr>cs_latest = last (v # vs), cs_min = foldl min v vs, cs_max = foldl max v vs\<rparr>)"

text \<open>The request of the page: the daemon's store for the sandbox, the cgroup route for a workspace.\<close>

record resource_params =
  rp_scope :: "string option"
  rp_window :: "string option"

definition resource_scope :: "resource_params \<Rightarrow> string" where
  "resource_scope p = (case rp_scope p of None \<Rightarrow> ''sandbox'' | Some s \<Rightarrow> s)"

definition resource_windowMs :: "resource_params \<Rightarrow> jsnum" where
  "resource_windowMs p = (case rp_window p of None \<Rightarrow> Fin 60000 | Some w \<Rightarrow> js_Number w)"

definition resource_request :: "(rat \<Rightarrow> string) \<Rightarrow> resource_params \<Rightarrow> string \<times> (string \<times> json) list" where
  "resource_request show_number p = (let window = (''window_ms'', num_json show_number (resource_windowMs p)) in
     if resource_scope p = ''sandbox'' then (''resources'', [window])
     else (''cgroup'', [(''scope'', JStr (resource_scope p)), window]))"

definition resource_apply :: "string option \<Rightarrow> int option \<Rightarrow> resource_params \<Rightarrow> resource_params" where
  "resource_apply scope window p =
     p\<lparr>rp_scope := (case scope of None \<Rightarrow> rp_scope p | Some s \<Rightarrow> Some s),
       rp_window := (case window of None \<Rightarrow> rp_window p | Some w \<Rightarrow> Some (show_int w))\<rparr>"

definition cgroup_unavailable :: "string \<Rightarrow> ResourceSample list \<Rightarrow> bool" where
  "cgroup_unavailable scope samples = (scope \<noteq> ''sandbox'' \<and> samples \<noteq> [] \<and>
     list_all (\<lambda>s. map_of (rs_metrics s) ''cgroup_available'' = Some (MBool False)) samples)"

section \<open>Process topology\<close>

record topology_memory =
  tm_sandboxId :: string
  tm_topology :: WorkspaceProcessTopology
  tm_observedAt :: int

record cgroup_view =
  cv_sandboxId :: string
  cv_previous :: "topology_memory option"
  cv_estimates :: "(string \<times> WorkspaceResourceEstimate) list"

definition estimate_effect :: "int \<Rightarrow> WorkspaceProcessTopology option \<Rightarrow> bool \<Rightarrow> cgroup_view \<Rightarrow> cgroup_view" where
  "estimate_effect observedAt topology isPlaceholder s = (case topology of None \<Rightarrow> s
     | Some t \<Rightarrow> if \<not> tp_available t \<or> isPlaceholder then s
         else let previous = (case cv_previous s of None \<Rightarrow> None
                | Some m \<Rightarrow> if tm_sandboxId m = cv_sandboxId s then Some m else None)
              in s\<lparr>cv_estimates := estimateWorkspaceResources (map_option tm_topology previous) t
                     (map_option (\<lambda>m. observedAt - tm_observedAt m) previous),
                   cv_previous := Some \<lparr>tm_sandboxId = cv_sandboxId s, tm_topology = t, tm_observedAt = observedAt\<rparr>\<rparr>)"

text \<open>
  A change of the sandbox clears the estimates and looks at the topology that the query has then; an
  answer, or the end of a placeholder, is looked at when it comes.
\<close>

datatype cgroup_event = Cgroup_sandbox string int "WorkspaceProcessTopology option" bool
  | Cgroup_data int "WorkspaceProcessTopology option" bool

fun cgroup_step :: "cgroup_view \<Rightarrow> cgroup_event \<Rightarrow> cgroup_view" where
  "cgroup_step s (Cgroup_sandbox i now t placeholder) = estimate_effect now t placeholder (s\<lparr>cv_sandboxId := i, cv_estimates := []\<rparr>)"
| "cgroup_step s (Cgroup_data now t placeholder) = estimate_effect now t placeholder s"

definition cgroup_init :: "string \<Rightarrow> cgroup_view" where
  "cgroup_init i = \<lparr>cv_sandboxId = i, cv_previous = None, cv_estimates = []\<rparr>"

fun workspaceColor :: "WorkspaceProcessesState \<Rightarrow> string" where
  "workspaceColor Wp_active = ''success''"
| "workspaceColor _ = ''neutral''"

fun formatKind :: "ProcessKind \<Rightarrow> string" where
  "formatKind Namespace_init = ''namespace init''"
| "formatKind Process = ''process''"

definition formatSource :: "string option \<Rightarrow> string" where
  "formatSource source = (if source = Some ''proc_namespaces'' then ''proc namespaces'' else ''unknown source'')"

definition formatCpuEstimate :: "rat option \<Rightarrow> string" where
  "formatCpuEstimate cpuPercent = (case cpuPercent of None \<Rightarrow> ''Waiting for next refresh'' | Some c \<Rightarrow> toFixed 1 c @ ''%'')"

datatype topology_panel = Topology_pending | Topology_available WorkspaceProcessTopology | Topology_missing string

definition ProcessTopologyPanel :: "WorkspaceProcessTopology option \<Rightarrow> bool \<Rightarrow> topology_panel" where
  "ProcessTopologyPanel topology pending = (if pending then Topology_pending
     else case topology of
       None \<Rightarrow> Topology_missing ''Topology was not reported by this daemon.''
     | Some t \<Rightarrow> if tp_available t then Topology_available t
         else Topology_missing (case tp_error t of None \<Rightarrow> ''Topology was not reported by this daemon.'' | Some e \<Rightarrow> e))"

definition topology_badge :: "WorkspaceProcessTopology option \<Rightarrow> bool \<Rightarrow> string" where
  "topology_badge topology pending = (case topology of
     Some t \<Rightarrow> if tp_available t then formatSource (tp_source t) else if pending then ''loading'' else ''unavailable''
   | None \<Rightarrow> if pending then ''loading'' else ''unavailable'')"

text \<open>The alerts above the workspaces.\<close>

definition AvailableTopology :: "WorkspaceProcessTopology \<Rightarrow> (string \<times> string list) list" where
  "AvailableTopology t =
     (if tp_truncated t then [(''Process list truncated'', [''The backend returned the first 512 matching processes.''])] else []) @
     (if tp_warnings t \<noteq> [] then [(''Partial collection warnings'', tp_warnings t)] else [])"

record workspace_card =
  wk_color :: string
  wk_fields :: "(string \<times> string) list"
  wk_rss :: string
  wk_cpu :: string
  wk_partial :: bool
  wk_idle :: bool
  wk_rows :: "string list list"

definition Memberships :: "WorkspaceProcess \<Rightarrow> string list" where
  "Memberships p = (if pr_cgroup_memberships p \<noteq> [] then pr_cgroup_memberships p else [''Not reported''])"

definition ProcessRow :: "WorkspaceProcess \<Rightarrow> string list" where
  "ProcessRow p = [pr_name p, show_int (pr_pid p), show_int (pr_namespace_pid p), pr_state p, formatKind (pr_kind p)] @ Memberships p"

definition or_unavailable :: "string option \<Rightarrow> string" where
  "or_unavailable v = (case v of None \<Rightarrow> ''unavailable'' | Some t \<Rightarrow> t)"

definition WorkspaceCard :: "(rat \<Rightarrow> string) \<Rightarrow> (string \<times> WorkspaceResourceEstimate) list \<Rightarrow> WorkspaceProcesses \<Rightarrow> workspace_card" where
  "WorkspaceCard show_number estimates w = (let estimate = map_of estimates (wps_workspace_id w) in
     \<lparr>wk_color = workspaceColor (wps_state w),
      wk_fields = [(''Holder PID'', show_int (wps_holder_pid w)), (''PID namespace'', or_unavailable (wps_pid_namespace w)),
        (''Mount namespace'', or_unavailable (wps_mount_namespace w))],
      wk_rss = (case Option.bind estimate we_residentMemoryBytes of None \<Rightarrow> ''Unavailable''
        | Some b \<Rightarrow> formatBytes show_number (Fin (of_int b))),
      wk_cpu = formatCpuEstimate (Option.bind estimate we_cpuPercent),
      wk_partial = (wps_state w = Wp_partial),
      wk_idle = (\<not> list_ex (\<lambda>p. pr_kind p = Process) (wps_processes w)),
      wk_rows = map ProcessRow (wps_processes w)\<rparr>)"

section \<open>Laws of charts\<close>

lemma chart_data_values: "snd (chart_data value samples) = List.map_filter value samples"
  by (induction samples) (auto simp: List.map_filter_def split: prod.splits option.splits)

lemma chart_data_aligned: "length (fst (chart_data value samples)) = length (snd (chart_data value samples))"
  by (induction samples) (auto split: prod.splits option.splits)

lemma foldl_min_bound: "foldl min v vs \<in> insert v (set vs) \<and> (\<forall>x \<in> insert v (set vs). foldl min v vs \<le> x)" for v :: rat
proof (induction vs arbitrary: v)
  case (Cons x xs)
  from Cons.IH [of "min v x"] show ?case by (auto simp: min_def split: if_splits)
qed simp

lemma foldl_max_bound: "foldl max v vs \<in> insert v (set vs) \<and> (\<forall>x \<in> insert v (set vs). x \<le> foldl max v vs)" for v :: rat
proof (induction vs arbitrary: v)
  case (Cons x xs)
  from Cons.IH [of "max v x"] show ?case by (auto simp: max_def split: if_splits)
qed simp

text \<open>
  The numbers under a chart are those of the points drawn: the last, the least and the greatest, and
  there are some exactly if a point is drawn.
\<close>

lemma summary_of_points:
  assumes "ys = snd (chart_data value samples)"
  shows "summary_of value samples = None \<longleftrightarrow> ys = []"
    and "summary_of value samples = Some c \<Longrightarrow> cs_latest c = last ys \<and> cs_min c \<in> set ys \<and> cs_max c \<in> set ys \<and>
      (\<forall>y \<in> set ys. cs_min c \<le> y \<and> y \<le> cs_max c)"
proof -
  have ys: "ys = List.map_filter value samples" by (simp add: assms chart_data_values)
  show "summary_of value samples = None \<longleftrightarrow> ys = []" by (auto simp: summary_of_def ys split: list.splits)
  assume "summary_of value samples = Some c"
  then obtain v vs where "ys = v # vs" "c = \<lparr>cs_latest = last (v # vs), cs_min = foldl min v vs, cs_max = foldl max v vs\<rparr>"
    by (auto simp: summary_of_def ys split: list.splits)
  with foldl_min_bound [of v vs] foldl_max_bound [of v vs] show "cs_latest c = last ys \<and> cs_min c \<in> set ys \<and> cs_max c \<in> set ys \<and>
      (\<forall>y \<in> set ys. cs_min c \<le> y \<and> y \<le> cs_max c)" by simp
qed

section \<open>Laws of the topology view\<close>

definition observation_of :: "string \<Rightarrow> topology_memory option \<Rightarrow> topology_memory \<Rightarrow> (string \<times> WorkspaceResourceEstimate) list \<Rightarrow> bool" where
  "observation_of i before m es = (tm_sandboxId m = i \<and> (\<forall>b. before = Some b \<longrightarrow> tm_sandboxId b = i) \<and>
     es = estimateWorkspaceResources (map_option tm_topology before) (tm_topology m) (map_option (\<lambda>b. tm_observedAt m - tm_observedAt b) before))"

definition cgroup_inv :: "cgroup_view \<Rightarrow> bool" where
  "cgroup_inv s = (cv_estimates s = [] \<or> (\<exists>m before. cv_previous s = Some m \<and> observation_of (cv_sandboxId s) before m (cv_estimates s)))"

lemma estimate_effect_inv:
  assumes "cgroup_inv s"
  shows "cgroup_inv (estimate_effect now t placeholder s)"
proof (cases "\<exists>x. t = Some x \<and> tp_available x \<and> \<not> placeholder")
  case True
  then obtain x where x: "t = Some x" "tp_available x" "\<not> placeholder" by blast
  define before where "before = (case cv_previous s of None \<Rightarrow> None | Some m \<Rightarrow> if tm_sandboxId m = cv_sandboxId s then Some m else None)"
  let ?s = "estimate_effect now t placeholder s" and ?m = "\<lparr>tm_sandboxId = cv_sandboxId s, tm_topology = x, tm_observedAt = now\<rparr>"
  have "\<forall>b. before = Some b \<longrightarrow> tm_sandboxId b = cv_sandboxId s" by (auto simp: before_def split: option.splits if_splits)
  then have "observation_of (cv_sandboxId ?s) before ?m (cv_estimates ?s)" and "cv_previous ?s = Some ?m"
    using x by (simp_all add: estimate_effect_def observation_of_def before_def [symmetric])
  then show ?thesis unfolding cgroup_inv_def by blast
next
  case False
  then have "estimate_effect now t placeholder s = s" by (auto simp: estimate_effect_def split: option.splits)
  with assms show ?thesis by simp
qed

interpretation cgroup: event_machine cgroup_step cgroup_inv
proof
  fix s e assume "cgroup_inv s"
  then show "cgroup_inv (cgroup_step s e)"
    by (cases e) (simp_all add: estimate_effect_inv cgroup_inv_def [of "s\<lparr>cv_sandboxId := _, cv_estimates := []\<rparr>"])
qed

section \<open>Properties\<close>

text \<open>
  Estimates never mix sandboxes.  In every reachable state of the process view the estimates shown
  are none, or those of a topology of the current sandbox, against an earlier topology of the same
  sandbox with the time between the two, or against none; a topology kept from another sandbox while
  the next one loads is never used.
\<close>

lemma cgroup_estimates_same_sandbox:
  assumes "s = run cgroup_step (cgroup_init i) es"
  shows "cv_estimates s = [] \<or> (\<exists>(m :: topology_memory) (before :: topology_memory option). tm_sandboxId m = cv_sandboxId s \<and>
    (\<forall>b. before = Some b \<longrightarrow> tm_sandboxId b = cv_sandboxId s) \<and>
    cv_estimates s = estimateWorkspaceResources (map_option tm_topology before) (tm_topology m)
      (map_option (\<lambda>b. tm_observedAt m - tm_observedAt b) before))"
proof -
  have "cgroup_inv (cgroup_init i)" by (simp add: cgroup_inv_def cgroup_init_def)
  then have "cgroup_inv s" unfolding assms by (rule cgroup.inv_run)
  then show ?thesis unfolding cgroup_inv_def observation_of_def by blast
qed

lemma sample_estimates: "cv_estimates (run cgroup_step (cgroup_init ''a'') [Cgroup_data 0 (Some (sample_topology 5)) False]) \<noteq> []"
  by (simp add: estimate_effect_def cgroup_init_def estimateWorkspaceResources_def sample_topology_def)

lemma cgroup_estimates_same_sandbox_witness:
  "\<exists>(m :: topology_memory) (before :: topology_memory option). tm_sandboxId m = ''a'' \<and>
     cv_estimates (run cgroup_step (cgroup_init ''a'') [Cgroup_data 0 (Some (sample_topology 5)) False]) =
       estimateWorkspaceResources (map_option tm_topology before) (tm_topology m) (map_option (\<lambda>b. tm_observedAt m - tm_observedAt b) before)"
proof -
  have "cv_sandboxId (run cgroup_step (cgroup_init ''a'') [Cgroup_data 0 (Some (sample_topology 5)) False]) = ''a''"
    by (simp add: estimate_effect_def cgroup_init_def sample_topology_def)
  with cgroup_estimates_same_sandbox [OF refl, of "''a''" "[Cgroup_data 0 (Some (sample_topology 5)) False]"] sample_estimates
  show ?thesis by metis
qed

end
