(* ===== verification/Topology_View.thy ===== *)
theory Topology_View
  imports Resource_Views Poll View
begin

text \<open>
  What the process view of \<^verbatim>\<open>web/src/pages/sandbox/observability/CgroupView.tsx\<close> renders, over the estimates of
  \<open>Resource_Views\<close>.  The query (its failure, its topology, whether it may be and is being refreshed) is an input; the table and the
  cards for narrow windows are both rendered, and one of them is hidden by its style.
\<close>

record topology_query =
  tq_error :: "string option"
  tq_data :: "WorkspaceProcessTopology option option"
  tq_canRefresh :: bool
  tq_fetching :: bool

datatype topology_event = Refresh_topology

definition TopologyField :: "string \<times> string \<Rightarrow> 'e view" where
  "TopologyField = (\<lambda>(l, v). box ''dl'' [box ''dt'' [Txt l], box ''dd'' [Txt v]])"

definition Memberships_view :: "WorkspaceProcess \<Rightarrow> 'e view" where
  "Memberships_view p = (if pr_cgroup_memberships p \<noteq> [] then box ''stack'' (map (\<lambda>m. box ''code'' [Txt m]) (pr_cgroup_memberships p))
     else caption ''Not reported'')"

definition ProcessRow_view :: "WorkspaceProcess \<Rightarrow> 'e view" where
  "ProcessRow_view p = El ''tr'' [(''data-process-pid'', show_int (pr_pid p))] []
     (map (\<lambda>t. box ''td'' [Txt t]) [pr_name p, show_int (pr_pid p), show_int (pr_namespace_pid p), pr_state p, formatKind (pr_kind p)] @
      [box ''td'' [Memberships_view p]])"

definition ProcessCard :: "WorkspaceProcess \<Rightarrow> 'e view" where
  "ProcessCard p = El ''paper'' [(''data-process-pid'', show_int (pr_pid p))] []
     [caption (pr_name p), box ''grid'' (map TopologyField [(''PID'', show_int (pr_pid p)), (''Namespace PID'', show_int (pr_namespace_pid p)),
        (''State'', pr_state p), (''Kind'', formatKind (pr_kind p))]),
      box ''box'' [caption ''Cgroup membership'', Memberships_view p]]"

fun workspace_state_text :: "WorkspaceProcessesState \<Rightarrow> string" where
  "workspace_state_text Wp_active = ''active''"
| "workspace_state_text Wp_partial = ''partial''"
| "workspace_state_text _ = ''idle''"

definition WorkspaceCard_view :: "page_env \<Rightarrow> (string \<times> WorkspaceResourceEstimate) list \<Rightarrow> WorkspaceProcesses \<Rightarrow> 'e view" where
  "WorkspaceCard_view env estimates w = (let c = WorkspaceCard (en_number env) estimates w in
     El ''article'' [(''data-workspace-id'', wps_workspace_id w)] []
       ([box ''group'' [box ''h3'' [Txt (wps_workspace_id w)], El ''badge'' [(''color'', wk_color c)] [] [Txt (workspace_state_text (wps_state w))]],
         box ''grid'' (map TopologyField (wk_fields c)),
         box ''grid'' [box ''paper'' [caption ''RSS (estimated)'', caption (wk_rss c)], box ''paper'' [caption ''CPU (estimated)'', caption (wk_cpu c)]],
         caption ''Live procfs estimates. RSS can count shared pages more than once; CPU can miss processes that start and exit between refreshes.''] @
        show_when (wk_partial c) (El ''alert'' [(''title'', ''Workspace topology is partial'')] []
          [Txt ''Some namespace or process metadata could not be read during this refresh.'']) @
        show_when (wk_idle c) (caption ''No workload processes. The namespace init process is idle.'') @
        (if wps_processes w = [] then []
         else [El ''table'' [(''aria-label'', ''Processes in '' @ wps_workspace_id w)] []
                 (box ''tr'' (map (\<lambda>h. box ''th'' [Txt h]) [''Name'', ''PID'', ''Namespace PID'', ''State'', ''Kind'', ''Cgroup membership'']) #
                  map ProcessRow_view (wps_processes w)),
               box ''stack'' (map ProcessCard (wps_processes w))])))"

definition AvailableTopology_view :: "page_env \<Rightarrow> (string \<times> WorkspaceResourceEstimate) list \<Rightarrow> WorkspaceProcessTopology \<Rightarrow> 'e view" where
  "AvailableTopology_view env estimates t = box ''stack''
     (map (\<lambda>(title, ls). El ''alert'' [(''title'', title)] [] (map caption ls)) (AvailableTopology t) @
      (if tp_workspaces t = [] then [caption ''No active workspaces. Process topology is available.'']
       else map (WorkspaceCard_view env estimates) (tp_workspaces t)))"

definition topology_now :: "topology_query \<Rightarrow> WorkspaceProcessTopology option" where
  "topology_now q = Option.bind (tq_data q) id"

definition topology_pending :: "topology_query \<Rightarrow> bool" where
  "topology_pending q = (tq_data q = None \<and> tq_error q = None)"

definition ProcessTopologyPanel_view :: "page_env \<Rightarrow> topology_query \<Rightarrow> (string \<times> WorkspaceResourceEstimate) list \<Rightarrow> topology_event view" where
  "ProcessTopologyPanel_view env q estimates = (let topology = topology_now q; pending = topology_pending q in
     El ''section'' [(''aria-labelledby'', ''process-topology-title'')] []
       [box ''group'' [caption ''Workspace process topology'', caption ''Processes assigned by PID and mount namespace identity'',
          caption (topology_badge topology pending),
          El ''button'' ([(''aria-label'', ''Refresh process topology'')] @ flag ''disabled'' (\<not> tq_canRefresh q \<or> tq_fetching q))
            [(''click'', Send Refresh_topology)] [Txt ''Refresh''],
          caption (if topologyHasActivity topology then ''auto-refresh active'' else ''refreshes on activity'')],
        case ProcessTopologyPanel topology pending of
          Topology_pending \<Rightarrow> caption (''Loading process topology'' @ ellipsis)
        | Topology_available t \<Rightarrow> AvailableTopology_view env estimates t
        | Topology_missing m \<Rightarrow> El ''alert'' [(''title'', ''Process topology unavailable'')] [] [Txt (m @ '' Refresh directly or wait for new manager activity.'')]])"

definition CgroupView :: "page_env \<Rightarrow> topology_query \<Rightarrow> cgroup_view \<Rightarrow> topology_event view" where
  "CgroupView env q s = El ''stack'' (flag ''data-process-topology'' True) []
     ((case tq_error q of None \<Rightarrow> []
       | Some m \<Rightarrow> [El ''alert'' [(''title'', if tq_data q \<noteq> None then ''Process topology refresh failed'' else ''Process topology unavailable'')] []
           [Txt (m @ em_dash @ ''refresh directly or wait for new manager activity.'')]]) @
      [ProcessTopologyPanel_view env q (cv_estimates s)])"

section \<open>Laws\<close>

lemma offered_topology_parts [simp]: "offered (TopologyField p) = {}" "offered (Memberships_view w) = {}" "offered (ProcessRow_view w) = {}" "offered (ProcessCard w) = {}"
  by (auto simp: TopologyField_def Memberships_view_def ProcessRow_view_def ProcessCard_def split: prod.splits)

lemma offered_WorkspaceCard [simp]: "offered (WorkspaceCard_view env estimates w) = {}"
  by (auto simp: WorkspaceCard_view_def Let_def split: if_splits)

lemma offered_AvailableTopology [simp]: "offered (AvailableTopology_view env estimates t) = {}"
  by (auto simp: AvailableTopology_view_def split: prod.splits if_splits)

text \<open>The one thing to click is the refresh, and not while it runs or may not run.\<close>

lemma offered_CgroupView: "offered (CgroupView env q s) = (if tq_canRefresh q \<and> \<not> tq_fetching q then {Refresh_topology} else {})"
proof -
  define body :: "topology_event view" where "body = (case ProcessTopologyPanel (topology_now q) (topology_pending q) of
      Topology_pending \<Rightarrow> caption (''Loading process topology'' @ ellipsis) | Topology_available t \<Rightarrow> AvailableTopology_view env (cv_estimates s) t
    | Topology_missing m \<Rightarrow> El ''alert'' [(''title'', ''Process topology unavailable'')] [] [Txt (m @ '' Refresh directly or wait for new manager activity.'')])"
  have "offered body = {}" by (simp add: body_def split: topology_panel.splits)
  then show ?thesis unfolding CgroupView_def ProcessTopologyPanel_view_def Let_def body_def [symmetric]
    by (cases "tq_error q") simp_all
qed

text \<open>Every process of every workspace has a row, and a card, and no other process has.\<close>

lemma pids_of_parts [simp]: "attr_values ''data-process-pid'' (ProcessRow_view p) = [show_int (pr_pid p)]"
    "attr_values ''data-process-pid'' (ProcessCard p) = [show_int (pr_pid p)]" "attr_values ''data-process-pid'' (TopologyField f) = []"
  by (auto simp: ProcessRow_view_def ProcessCard_def TopologyField_def Memberships_view_def split: prod.splits)

lemma pids_of_lists:
  "concat (map (attr_values ''data-process-pid'') (map ProcessRow_view ps)) = map (show_int \<circ> pr_pid) ps"
  "concat (map (attr_values ''data-process-pid'') (map ProcessCard ps)) = map (show_int \<circ> pr_pid) ps"
  "concat (map (attr_values ''data-process-pid'') (map TopologyField fs)) = []"
  by (induction ps) (induction fs, simp_all)

lemma pids_of_card:
  "attr_values ''data-process-pid'' (WorkspaceCard_view env estimates w) =
     map (show_int \<circ> pr_pid) (wps_processes w) @ map (show_int \<circ> pr_pid) (wps_processes w)"
  by (simp add: WorkspaceCard_view_def show_when_def pids_of_lists Let_def del: map_map)

lemma pids_of_topology:
  assumes "tp_workspaces t \<noteq> []"
  shows "set (attr_values ''data-process-pid'' (AvailableTopology_view env estimates t)) = (\<Union>w \<in> set (tp_workspaces t). show_int ` pr_pid ` set (wps_processes w))"
proof -
  have "attr_values ''data-process-pid'' (El ''alert'' [(''title'', fst a)] [] (map caption (snd a))) = []" for a :: "string \<times> string list"
    by (induction "snd a") auto
  then show ?thesis using assms by (auto simp: AvailableTopology_view_def pids_of_card split_def)
qed

end
