(* ===== verification/Layers_View.thy ===== *)
theory Layers_View
  imports Layer_Stack Actions_View
begin

text \<open>
  What the layer stack of \<^verbatim>\<open>LayerStackView.tsx\<close> renders, over the machine of \<open>Layer_Stack\<close> and the squash dialog in it.  The errors of the
  detail polls and whether they are fetching are inputs, and so is the trend that \<^verbatim>\<open>recordDepth\<close> returned at the render.
\<close>

section \<open>Rows and panels\<close>

datatype layers_page_event = On_layers layer_event | On_squash squash_event

definition row_button :: "page_env \<Rightarrow> layer_view \<Rightarrow> nat \<Rightarrow> layers_page_event view" where
  "row_button env s i = (let l = view_layers s ! i; r = LayerRow s i in
     box ''li'' [El ''button'' (attr_bool ''aria-pressed'' (lr_selected r) @ [(''data-layer-row'', ly_layer_id l)]) [(''click'', Send (On_layers (Choose_layer (ly_layer_id l))))]
       ([caption (lr_label r), El ''text'' [(''title'', ly_layer_id l)] [] [Txt (ly_layer_id l)],
         El ''bar'' [(''title'', show_nat (ly_bytes l) @ '' bytes''), (''width'', en_number env (lr_width r) @ ''%'')] [] [],
         caption (formatBytes (en_number env) (Fin (of_nat (ly_bytes l)))),
         El ''tooltip'' [(''label'', lr_tooltip r)] [] [caption (lr_leases r)]] @
        show_when (lr_squashable r) (box ''badge'' [Txt ''squashable'']))])"

definition entry_view :: "LayerStackLayerEntry \<Rightarrow> 'e view" where
  "entry_view e = box ''li'' [El ''badge'' [(''color'', entryKindColor (le_kind e))] [] [Txt (entryKindLabel (le_kind e))],
     El ''text'' [(''title'', le_path e)] [] [Txt (le_path e)]]"

definition entry_list_view :: "LayerStackLayerResult \<Rightarrow> 'e view" where
  "entry_list_view d = (if ll_entries d = [] then caption ''no changed paths''
     else box ''stack'' (El ''ul'' [(''aria-label'', ''Layer entries'')] [] (map entry_view (ll_entries d)) #
       show_when (ll_truncated d) (caption ''Showing the first 500 entries returned by the backend.'')))"

fun panel_view :: "string \<Rightarrow> ('a \<Rightarrow> 'e view) \<Rightarrow> 'a panel \<Rightarrow> 'e view" where
  "panel_view none draw (Panel_error m) = box ''alert'' [Txt m]"
| "panel_view none draw Panel_loading = caption (''loading'' @ ellipsis)"
| "panel_view none draw (Panel_data d) = draw d"
| "panel_view none draw Panel_empty = caption none"

definition delta_view :: "page_env \<Rightarrow> layer_view \<Rightarrow> RpcError option \<Rightarrow> bool \<Rightarrow> 'e view" where
  "delta_view env s err fetching = box ''paper'' ([caption ''Changed paths''] @
     (case selectedLayer s of None \<Rightarrow> [] | Some l \<Rightarrow> [caption (shortHash (ly_layer_id l) 10), caption (formatBytes (en_number env) (Fin (of_nat (ly_bytes l))))]) @
     [panel_view ''no layer selected'' entry_list_view (LayerDeltaPanel s err fetching)])"

definition mounts_view :: "page_env \<Rightarrow> LayerStackWorkspaceResult \<Rightarrow> 'e view" where
  "mounts_view env d = box ''stack'' [caption (lw_workspace d),
     caption (formatBytes (en_number env) (Fin (of_nat (case lw_upper_bytes d of None \<Rightarrow> 0 | Some n \<Rightarrow> n))) @ '' upper''),
     El ''ul'' [(''aria-label'', ''Workspace mount list'')] [] (map (\<lambda>m. box ''li'' [El ''text'' [(''title'', lm_layer_id m)] [] [Txt (lm_layer_id m)],
       caption (''shared with '' @ show_nat (length (lm_shared_with m)))]) (lw_mounts d))]"

definition workspace_view :: "page_env \<Rightarrow> layer_view \<Rightarrow> RpcError option \<Rightarrow> bool \<Rightarrow> 'e view" where
  "workspace_view env s err fetching = box ''paper'' [caption ''Workspace mounts'',
     (case WorkspacePanel s err fetching of Inl t \<Rightarrow> caption t | Inr p \<Rightarrow> panel_view ''no workspace selected'' (mounts_view env) p)]"

section \<open>The page\<close>

definition workspace_choices :: "layer_view \<Rightarrow> (string \<times> string) list" where
  "workspace_choices s = (ALL_WORKSPACES, ''all workspaces'') # map (\<lambda>i. (i, ''workspace '' @ [CHR 0xB7] @ '' '' @ i)) (lv_workspaces s)"

definition stack_summary :: "page_env \<Rightarrow> layer_view \<Rightarrow> 'e view list" where
  "stack_summary env s = map caption
     [''manifest v '' @ (case lv_stack s of None \<Rightarrow> ''...'' | Some r \<Rightarrow> show_nat (ls_manifest_version r)),
      (case lv_stack s of None \<Rightarrow> ''...'' | Some r \<Rightarrow> shortHash (ls_root_hash r) 12),
      show_nat (length (view_layers s)) @ '' layers '' @ [CHR 0xB7] @ '' '' @ formatBytes (en_number env) (Fin (of_nat (case lv_stack s of None \<Rightarrow> 0 | Some r \<Rightarrow> ls_total_bytes r))),
      show_nat (case lv_stack s of None \<Rightarrow> 0 | Some r \<Rightarrow> ls_active_lease_count r) @ '' active leases'']"

definition squash_trigger :: "nat \<Rightarrow> squash_event view" where
  "squash_trigger n = El ''button'' [] [(''click'', Send Squash_trigger)] [Txt (''Squash ('' @ show_nat n @ '')'')]"

definition stack_header :: "page_env \<Rightarrow> string \<Rightarrow> layer_view \<Rightarrow> squash_dialog \<Rightarrow> layers_page_event view" where
  "stack_header env sandboxId s q = (let n = length (view_layers s) in box ''group'' (stack_summary env s @
     [El ''select'' [(''label'', ''Workspace''), (''value'', lv_workspaceId s)] [(''change'', Send_choice (map fst (workspace_choices s)) (On_layers \<circ> Choose_workspace))]
        (map (\<lambda>(i, l). El ''option'' [(''value'', i)] [] [Txt l]) (workspace_choices s)),
      map_view On_squash (SquashDialog (squash_trigger n) sandboxId (Some n) q)]))"

definition layer_list :: "page_env \<Rightarrow> layer_view \<Rightarrow> layers_page_event view" where
  "layer_list env s = box ''paper'' [if view_layers s = [] then caption ''no layers yet''
     else box ''ul'' (map (row_button env s) [0..<length (view_layers s)])]"

record detail_polls =
  dp_layerError :: "RpcError option"
  dp_layerFetching :: bool
  dp_workspaceError :: "RpcError option"
  dp_workspaceFetching :: bool

definition depth_panel :: "page_env \<Rightarrow> nat list \<Rightarrow> layer_view \<Rightarrow> 'e view" where
  "depth_panel env trend s = box ''paper'' [caption ''Stack depth'',
     ResourceSparkline (en_number env) (map of_nat trend) 220 36 (Some ''stack depth''),
     caption (show_nat (length (view_layers s)) @ '' now '' @ [CHR 0xB7] @ '' trend accumulates while this view polls'')]"

definition LayerStackView :: "page_env \<Rightarrow> string \<Rightarrow> nat list \<Rightarrow> detail_polls \<Rightarrow> layer_view \<times> squash_dialog \<Rightarrow> layers_page_event view" where
  "LayerStackView env sandboxId trend polls st = (let s = fst st in case stack_notice_of s of
     Stack_unavailable m \<Rightarrow> El ''alert'' [(''title'', ''Layer stack unavailable'')] [] [Txt m]
   | notice \<Rightarrow> box ''stack''
       ([stack_header env sandboxId s (snd st)] @
        (case notice of Stack_stale m \<Rightarrow> [El ''alert'' [(''title'', ''Showing the last confirmed stack'')] [] [Txt m]] | _ \<Rightarrow> []) @
        [layer_list env s, delta_view env s (dp_layerError polls) (dp_layerFetching polls),
         workspace_view env s (dp_workspaceError polls) (dp_workspaceFetching polls), depth_panel env trend s,
         El ''alert'' [(''title'', ''Squashable layers'')] []
           [Txt ''Contiguous published layers with no live leases or bookings are marked. The base layer stays.'']]))"

fun layers_page_step :: "layer_view \<times> squash_dialog \<Rightarrow> layers_page_event \<Rightarrow> layer_view \<times> squash_dialog" where
  "layers_page_step (s, q) (On_layers e) = (layer_step s e, q)"
| "layers_page_step (s, q) (On_squash e) = (s, squash_dialog_step q e)"

section \<open>What the page offers\<close>

lemma offered_panels [simp]:
  "offered (entry_view e) = {}" "offered (entry_list_view d) = {}" "offered (mounts_view env w) = {}" "offered (depth_panel env trend s) = {}"
  by (auto simp: entry_view_def entry_list_view_def mounts_view_def depth_panel_def)

lemma offered_panel: "(\<And>d. offered (draw d) = {}) \<Longrightarrow> offered (panel_view none draw p) = {}"
  by (cases p) simp_all

lemma offered_details [simp]: "offered (delta_view env s err b) = {}" "offered (workspace_view env s err b) = {}"
  "\<Union>(offered ` set (stack_summary env s)) = {}"
  by (auto simp: delta_view_def workspace_view_def stack_summary_def offered_panel split: option.splits sum.splits)

lemma offered_row_button [simp]: "offered (row_button env s i) = {On_layers (Choose_layer (ly_layer_id (view_layers s ! i)))}"
  by (auto simp: row_button_def attr_on_def attr_bool_def Let_def)

lemma offered_layer_list: "offered (layer_list env s) = (On_layers \<circ> Choose_layer \<circ> ly_layer_id) ` set (view_layers s)"
proof -
  have "(\<lambda>i. f (xs ! i)) ` {0..<length xs} = f ` set xs" for f :: "StackLayer \<Rightarrow> layers_page_event" and xs
    by (simp add: set_conv_nth setcompr_eq_image image_image atLeast0LessThan lessThan_def)
  from this [of "On_layers \<circ> Choose_layer \<circ> ly_layer_id"] show ?thesis by (simp add: layer_list_def image_image comp_def UNION_singleton_eq_range)
qed

lemma offered_stack_header: "offered (stack_header env i s q) =
    (On_layers \<circ> Choose_workspace) ` insert None (Some ` insert ALL_WORKSPACES (set (lv_workspaces s))) \<union>
    On_squash ` insert Squash_trigger (if sq_open q then insert Squash_close (if sq_busy q then {} else {Squash_run}) else {})"
  by (simp add: stack_header_def workspace_choices_def squash_trigger_def offered_map_view offered_SquashDialog Let_def image_image comp_def case_prod_unfold)

lemma offered_LayerStackView:
  "offered (LayerStackView env i trend polls (s, q)) = (case stack_notice_of s of Stack_unavailable m \<Rightarrow> {}
     | _ \<Rightarrow> offered (stack_header env i s q) \<union> offered (layer_list env s))"
  by (simp add: LayerStackView_def split: stack_notice.split)

text \<open>
  Clicks never ask for the details of a layer or a workspace that is not listed, and never send a squash while one runs.
\<close>

definition asks_listed :: "layer_view \<times> squash_dialog \<Rightarrow> layer_view \<times> squash_dialog \<Rightarrow> bool" where
  "asks_listed st st' = (view_layers (fst st') = view_layers (fst st) \<and> lv_workspaces (fst st') = lv_workspaces (fst st) \<and>
     (selection_ok (fst st) \<longrightarrow> selection_ok (fst st')) \<and> (squash_dialog_inv (snd st) \<longrightarrow> squash_dialog_inv (snd st')))"

lemma layer_effects_keep: "view_layers (layer_effect (workspace_effect s)) = view_layers s" "lv_workspaces (layer_effect (workspace_effect s)) = lv_workspaces s"
  by (auto simp: layer_effect_def workspace_effect_def view_layers_def split: list.splits)

lemma layer_click_keeps: "view_layers (layer_step s (Choose_layer l)) = view_layers s" "lv_workspaces (layer_step s (Choose_layer l)) = lv_workspaces s"
  "view_layers (layer_step s (Choose_workspace w)) = view_layers s" "lv_workspaces (layer_step s (Choose_workspace w)) = lv_workspaces s"
  by (simp_all add: layer_step_def layer_effects_keep) (simp_all add: view_layers_def)

interpretation layers_page: rendered "LayerStackView env i trend polls" layers_page_step asks_listed
proof
  show "asks_listed st st" for st by (simp add: asks_listed_def)
  show "asks_listed r t" if "asks_listed r s" "asks_listed s t" for r s t using that by (simp add: asks_listed_def)
  show "asks_listed st (layers_page_step st e)" if "e \<in> offered (LayerStackView env i trend polls st)" for e st
  proof (cases st)
    case (Pair s q)
    have "selection_ok (layer_step s x)" for x by (simp add: layer_step_def effects_select)
    then show ?thesis using that squashing.inv_step [of q] layer_click_keeps unfolding Pair offered_LayerStackView offered_stack_header offered_layer_list
      by (auto simp: asks_listed_def simp del: squash_dialog_step.simps split: stack_notice.splits if_splits)
  qed
qed

text \<open>Every layer on the page can be chosen in one click, and its changes are what the detail poll asks for next.\<close>

lemma layer_chosen_in_one:
  assumes "\<forall>m. stack_notice_of s \<noteq> Stack_unavailable m" "l \<in> set (view_layers s)" "ly_layer_id l \<noteq> []"
  shows "On_layers (Choose_layer (ly_layer_id l)) \<in> offered (LayerStackView env i trend polls (s, q)) \<and>
    layer_query (layer_step s (Choose_layer (ly_layer_id l))) = Some (ly_layer_id l)"
proof -
  have "view_layers (workspace_effect (s\<lparr>lv_selectedLayerId := Some (ly_layer_id l)\<rparr>)) = view_layers s"
    by (simp add: workspace_effect_def view_layers_def)
  moreover have "lv_selectedLayerId (workspace_effect (s\<lparr>lv_selectedLayerId := Some (ly_layer_id l)\<rparr>)) = Some (ly_layer_id l)"
    by (simp add: workspace_effect_def)
  ultimately have "layer_query (layer_step s (Choose_layer (ly_layer_id l))) = Some (ly_layer_id l)"
    using assms(2,3) by (auto simp: layer_step_def layer_query_def layer_effect_def split: list.splits)
  then show ?thesis using assms unfolding offered_LayerStackView offered_layer_list by (auto split: stack_notice.splits)
qed

end
