(* ===== verification/File_Tree_View.thy ===== *)
theory File_Tree_View
  imports File_Tree View
begin

text \<open>
  What the file tree of \<^verbatim>\<open>web/src/pages/sandbox/files/FileTree.tsx\<close> renders, and the element that has the browser's focus.
  The rows that the virtualizer shows are an input.  A key reaches the handler of the row whose button has the focus; a button
  that is disabled cannot take it.
\<close>

section \<open>Rows\<close>

datatype tree_event = Tree_activate TreeEntryRow | Tree_key TreeEntryRow string

fun NodeIcon :: "FileEntryKind \<Rightarrow> string" where
  "NodeIcon Kind_directory = ''Folder''"
| "NodeIcon Kind_file = ''File''"
| "NodeIcon Kind_symlink = ''FileSymlink''"
| "NodeIcon Kind_other = ''HelpCircle''"

definition TreeItem_view :: "page_env \<Rightarrow> TreeEntryRow list \<Rightarrow> file_tree \<Rightarrow> string \<Rightarrow> TreeEntryRow \<Rightarrow> tree_event view" where
  "TreeItem_view env entries s selectedPath row = (let t = TreeItem entries s selectedPath row in
     El ''treeitem'' ((case ti_expanded t of None \<Rightarrow> [] | Some b \<Rightarrow> attr_bool ''aria-expanded'' b) @
         [(''aria-level'', show_nat (ti_level t))] @ attr_bool ''aria-selected'' (ti_selected t) @ flag ''disabled'' (ti_disabled t) @
         [(''paddingLeft'', show_nat (te_depth row * 14 + 8) @ ''px''), (''tabIndex'', if ti_tabbable t then ''0'' else ''-1''), (''title'', te_path row)])
       [(''click'', Send (Tree_activate row)), (''keydown'', Send_text (Tree_key row))]
       ([box (case ti_expanded t of None \<Rightarrow> ''box'' | Some b \<Rightarrow> if b then ''ChevronDown'' else ''ChevronRight'') [],
         box (NodeIcon (fe_kind (te_entry row))) [], caption (fe_name (te_entry row))] @
        (case fe_size (te_entry row) of None \<Rightarrow> [] | Some n \<Rightarrow> [caption (formatBytes (en_number env) (Fin (of_nat n)))])))"

definition TreeStatus :: "TreeStatusRow \<Rightarrow> 'e view" where
  "TreeStatus row = El ''text'' [(''color'', case tr_tone row of Tone_danger \<Rightarrow> ''danger.7'' | Tone_warning \<Rightarrow> ''warning.8'' | Tone_dimmed \<Rightarrow> ''dimmed''),
     (''paddingLeft'', show_nat (tr_depth row * 14 + 8))] [] [Txt (tr_message row)]"

definition row_view :: "page_env \<Rightarrow> TreeRow list \<Rightarrow> file_tree \<Rightarrow> string \<Rightarrow> nat \<times> nat \<Rightarrow> tree_event view" where
  "row_view env rows s selectedPath = (\<lambda>(index, start). El ''box'' [(''transform'', ''translateY('' @ show_nat start @ ''px)'')] []
     [case rows ! index of Entry_row r \<Rightarrow> TreeItem_view env (entry_rows rows) s selectedPath r | Status_row r \<Rightarrow> TreeStatus r])"

definition root_truncated :: "(string \<Rightarrow> listing option) \<Rightarrow> bool" where
  "root_truncated listingsByPath = (case listingsByPath [] of Some (Listing_data r) \<Rightarrow> fl_truncated r | _ \<Rightarrow> False)"

definition FileTree :: "page_env \<Rightarrow> (nat \<times> nat) list \<Rightarrow> (string \<Rightarrow> listing option) \<Rightarrow> TreeRow list \<Rightarrow> string \<Rightarrow> file_tree \<Rightarrow> tree_event view" where
  "FileTree env virtual listingsByPath rows selectedPath s = (if rows = [] then El ''loader'' [(''aria-label'', ''Loading files'')] [] []
     else El ''box'' (flag ''data-files-tree'' True) []
       (show_when (root_truncated listingsByPath) (caption ''Showing the first 2,000 entries returned by this directory.'') @
        [El ''tree'' [(''aria-label'', ''File tree'')] [] (map (row_view env rows s selectedPath) virtual)]))"

section \<open>The focus of the browser\<close>

record tree_focus =
  tf_tree :: file_tree
  tf_dom :: string

definition actionable :: "TreeEntryRow \<Rightarrow> bool" where
  "actionable row = (fe_kind (te_entry row) = Kind_directory \<or> fe_kind (te_entry row) = Kind_file)"

text \<open>\<^verbatim>\<open>element.focus()\<close> for the row of a path: it moves the focus when the row is on screen and its button is enabled.\<close>

definition dom_focus :: "(string \<Rightarrow> bool) \<Rightarrow> TreeRow list \<Rightarrow> string \<Rightarrow> string \<Rightarrow> string" where
  "dom_focus on_screen rows path current = (case find (\<lambda>r. te_path r = path) (entry_rows rows) of
     None \<Rightarrow> current | Some r \<Rightarrow> if on_screen path \<and> actionable r then path else current)"

text \<open>A key that moves the focus, pressed in the row that has it.\<close>

definition press_key :: "(string \<Rightarrow> bool) \<Rightarrow> TreeRow list \<Rightarrow> tree_key \<Rightarrow> tree_focus \<Rightarrow> tree_focus" where
  "press_key on_screen rows key f = (case find (\<lambda>r. te_path r = tf_dom f) (entry_rows rows) of
     None \<Rightarrow> f
   | Some row \<Rightarrow> \<lparr>tf_tree = onTreeKeyDown on_screen rows row key False (tf_tree f),
       tf_dom = (case key_target (entry_rows rows) (tf_tree f) row key of None \<Rightarrow> tf_dom f
         | Some p \<Rightarrow> dom_focus on_screen rows p (tf_dom f))\<rparr>)"

section \<open>Laws\<close>

lemma offered_tree_row:
  "offered (TreeItem_view env entries s selectedPath row) = (if actionable row then insert (Tree_activate row) (range (Tree_key row)) else {})"
proof -
  have "attr_on ''disabled'' ((case ti_expanded (TreeItem entries s selectedPath row) of None \<Rightarrow> [] | Some b \<Rightarrow> attr_bool ''aria-expanded'' b) @
        [(''aria-level'', l)] @ attr_bool ''aria-selected'' sel @ flag ''disabled'' d @ [(''paddingLeft'', pl), (''tabIndex'', ti), (''title'', tl)]) \<longleftrightarrow> d"
    for l sel d pl ti tl
    by (auto simp: attr_on_def attr_bool_def flag_def map_add_def split: option.splits)
  then show ?thesis
    by (auto simp: TreeItem_view_def actionable_def Let_def split: option.splits) (auto simp: TreeItem_def)
qed

lemma index_of_distinct:
  "distinct (map te_path rs) \<Longrightarrow> i < length rs \<Longrightarrow> index_of (te_path (rs ! i)) rs = Some i"
proof (induction rs arbitrary: i)
  case (Cons r rs)
  have none: "index_of p rs = None" if "p \<notin> te_path ` set rs" for p
    using that by (induction rs) auto
  show ?case
  proof (cases i)
    case 0
    with Cons.prems none [of "te_path r"] show ?thesis by simp
  next
    case (Suc j)
    with Cons show ?thesis by simp
  qed
qed simp

lemma find_distinct:
  "distinct (map te_path rs) \<Longrightarrow> i < length rs \<Longrightarrow> find (\<lambda>r. te_path r = te_path (rs ! i)) rs = Some (rs ! i)"
  by (induction rs arbitrary: i) (auto simp: nth_Cons split: nat.splits)

lemma press_down:
  assumes "distinct (map te_path (entry_rows rows))" "Suc i < length (entry_rows rows)" "tf_dom f = te_path (entry_rows rows ! i)"
  shows "tf_dom (press_key on_screen rows ArrowDown f) =
    (if on_screen (te_path (entry_rows rows ! Suc i)) \<and> actionable (entry_rows rows ! Suc i) then te_path (entry_rows rows ! Suc i) else tf_dom f)"
proof -
  let ?es = "entry_rows rows"
  have row: "find (\<lambda>r. te_path r = tf_dom f) ?es = Some (?es ! i)" unfolding assms(3) using assms(1,2) by (intro find_distinct) simp_all
  have "key_target ?es (tf_tree f) (?es ! i) ArrowDown = Some (te_path (?es ! Suc i))"
    using index_of_distinct [OF assms(1), of i] assms(2) by (simp add: key_target_def path_at_def)
  moreover have "dom_focus on_screen rows (te_path (?es ! Suc i)) c = (if on_screen (te_path (?es ! Suc i)) \<and> actionable (?es ! Suc i) then te_path (?es ! Suc i) else c)" for c
    using find_distinct [OF assms(1,2)] by (simp add: dom_focus_def)
  ultimately show ?thesis by (simp add: press_key_def row)
qed

text \<open>
  The arrow stops above an entry that is neither a file nor a directory: its button is disabled and takes no focus, so the key is
  pressed in the same row again, however often; whatever follows is out of reach of the arrow.
\<close>

lemma arrow_stops_at_link:
  assumes "distinct (map te_path (entry_rows rows))" "Suc i < length (entry_rows rows)" "tf_dom f = te_path (entry_rows rows ! i)"
    and "\<not> actionable (entry_rows rows ! Suc i)"
  shows "tf_dom (run (\<lambda>g key. press_key on_screen rows key g) f (replicate n ArrowDown)) = tf_dom f"
  using assms(3)
proof (induction n arbitrary: f)
  case (Suc n)
  then have "tf_dom (press_key on_screen rows ArrowDown f) = tf_dom f" using press_down [OF assms(1,2) Suc.prems] assms(4) by simp
  with Suc show ?case by simp
qed simp

end
