(* ===== verification/Files_View.thy ===== *)
theory Files_View
  imports Sandbox_Pages File_View View
begin

text \<open>
  The files page of a sandbox: what \<^verbatim>\<open>FilesTab.tsx\<close> and \<^verbatim>\<open>FileView.tsx\<close> of \<^verbatim>\<open>web/src/pages/sandbox/files\<close> render, and the two together.  The page
  mounts a file surface for the path and session of the address; another key mounts a new one, and the calls of the one that is
  left go on without it.  The file tree is an element with the properties it gets; its width makes the page narrow.
\<close>

section \<open>The file surface\<close>

datatype surface_event = On_file file_event | Owner_click string

definition BlameLegend :: "string list \<Rightarrow> surface_event view" where
  "BlameLegend owners = box ''group'' (caption ''Blame'' # map (\<lambda>owner. El ''button'' [(''color'', oi_color (ownerInfo owner)), (''title'', owner)]
     [(''click'', Send (Owner_click owner))] [caption owner]) owners)"

definition blame_chip :: "LoadedText \<Rightarrow> BlameRange list \<Rightarrow> nat \<Rightarrow> surface_event view list" where
  "blame_chip loaded ranges docLine = (case lineMarker ranges (lt_startLine loaded) (int docLine) of None \<Rightarrow> []
     | Some info \<Rightarrow> [El ''chip'' ([(''title'', oi_owner info), (''color'', oi_color info)] @ flag ''hatched'' (oi_hatched info))
         (case gutter_click ranges (lt_startLine loaded) (int docLine) of None \<Rightarrow> [] | Some owner \<Rightarrow> [(''click'', Send (Owner_click owner))]) []])"

text \<open>The editor widget: its document, the numbers beside its lines, the chips of the gutter, and typing while it is editable.\<close>

definition editor_view :: "string \<Rightarrow> LoadedText \<Rightarrow> file_view \<Rightarrow> surface_event view" where
  "editor_view path loaded s = (case fv_meta s of None \<Rightarrow> box ''host'' []
     | Some m \<Rightarrow> (let doc = edited_text s; lines = [1..<Suc (length (split_on newline doc))] in
         El ''editor'' ([(''aria-label'', ''File contents for '' @ path)] @ flag ''disabled'' (\<not> em_editable m)) [(''input'', Send_text (On_file \<circ> Typed))]
           (map (\<lambda>i. caption (show_int (int i + em_startLine m - 1))) lines @
            (case em_blame m of None \<Rightarrow> [] | Some ranges \<Rightarrow> concat (map (blame_chip loaded ranges) lines)) @ [Txt doc])))"

fun button_label :: "bool \<Rightarrow> file_button \<Rightarrow> string" where
  "button_label busy Load_next = ''Load next '' @ show_nat WINDOW_LINES"
| "button_label busy Edit_button = ''Edit''"
| "button_label busy Cancel_button = ''Cancel''"
| "button_label busy Save_button = (if busy then ''Saving'' @ ellipsis else ''Save'')"
| "button_label busy Keep_editing = ''Keep editing local draft''"
| "button_label busy Copy_draft = ''Copy local draft''"
| "button_label busy Reload_server = ''Reload server version''"

definition file_button_view :: "file_view \<Rightarrow> file_button \<times> bool \<Rightarrow> surface_event view" where
  "file_button_view s = (\<lambda>(b, off). El ''button'' (flag ''disabled'' off) [(''click'', Send (On_file (Click b)))] [Txt (button_label (fv_busy s) b)])"

text \<open>The buttons of a conflict stand in its alert, the others in the toolbar.\<close>

definition conflict_alert :: "file_view \<Rightarrow> surface_event view list" where
  "conflict_alert s = (case fv_mode s of Mode_conflict _ _ _ _ \<Rightarrow> [El ''alert'' [(''title'', ''Concurrent file change'')] []
     (caption ''Local draft preserved. The file changed while you were editing, so saving would overwrite another change.'' #
      map (file_button_view s) (file_buttons s))] | _ \<Rightarrow> [])"

definition file_toolbar :: "bool \<Rightarrow> string \<Rightarrow> LoadedText \<Rightarrow> file_view \<Rightarrow> surface_event view" where
  "file_toolbar narrow path loaded s = box ''toolbar'' (caption (file_caption path loaded) #
     (case fv_mode s of Mode_conflict _ _ _ _ \<Rightarrow> [] | _ \<Rightarrow> map (file_button_view s) (file_buttons s)) @
     show_when (narrow \<and> blame_legend s \<noteq> None) (El ''button'' [] [(''click'', Send (On_file (Drawer True)))] [Txt ''Blame legend'']))"

definition legend_panel :: "bool \<Rightarrow> file_view \<Rightarrow> surface_event view list" where
  "legend_panel narrow s = (case blame_legend s of None \<Rightarrow> []
     | Some owners \<Rightarrow> if \<not> narrow then [box ''section'' [BlameLegend owners]]
         else show_when (fv_drawer s) (El ''drawer'' [(''title'', ''Blame legend'')] [(''close'', Send (On_file (Drawer False)))] [BlameLegend owners]))"

definition FileView :: "bool \<Rightarrow> string \<Rightarrow> file_view \<Rightarrow> surface_event view" where
  "FileView narrow path s = (case file_screen_of s of
     Screen_error m \<Rightarrow> El ''alert'' [(''title'', ''File unavailable'')] [] [Txt m]
   | File_View.Screen_loading \<Rightarrow> El ''loader'' [(''aria-label'', ''Loading file'')] [] []
   | Screen_binary \<Rightarrow> box ''paper'' [caption ''Binary (non-UTF-8) file'', caption ''File operations are UTF-8-text-only in v0.'']
   | Screen_text loaded \<Rightarrow> box ''flex''
       ([file_toolbar narrow path loaded s] @
        (case fv_loadError s of None \<Rightarrow> [] | Some m \<Rightarrow> show_when (m \<noteq> []) (El ''alert'' [(''title'', ''File reload failed'')] [] [Txt m])) @
        conflict_alert s @ legend_panel narrow s @
        [editor_view path loaded s] @ show_when (fv_loading s) (El ''loader'' [(''aria-label'', ''Loading file'')] [] [])))"

section \<open>The page\<close>

datatype files_page_event = On_tab files_event | On_surface surface_event | Left_answer nat file_event

definition FileNavigator :: "files_tab \<Rightarrow> files_page_event view" where
  "FileNavigator s = box ''stack''
     [El ''select'' [(''aria-label'', ''File scope''), (''value'', case files_session s of None \<Rightarrow> PUBLISHED | Some i \<Rightarrow> i)]
        [(''change'', Send_choice (PUBLISHED # fileWorkspaces s) (On_tab \<circ> Files_scope))]
        (El ''option'' [(''value'', PUBLISHED)] [] [Txt ''published snapshot''] #
         map (\<lambda>i. El ''option'' [(''value'', i)] [] [Txt (''live '' @ [CHR 0xB7] @ '' '' @ i)]) (fileWorkspaces s)),
      El ''FileTree'' [(''selectedPath'', files_path s), (''session'', case files_session s of None \<Rightarrow> [] | Some i \<Rightarrow> i)]
        [(''select'', Send_text (On_tab \<circ> Files_select))] []]"

definition navigator_view :: "bool \<Rightarrow> files_tab \<Rightarrow> files_page_event view list" where
  "navigator_view narrow s = (if \<not> narrow then [box ''aside'' [FileNavigator s]]
     else show_when (ft_navigatorOpen s) (El ''drawer'' [(''title'', ''File navigator'')] [(''close'', Send (On_tab (Navigator_open False)))] [FileNavigator s]))"

definition files_toolbar :: "bool \<Rightarrow> files_tab \<Rightarrow> files_page_event view" where
  "files_toolbar narrow s = box ''header''
     (show_when narrow (El ''button'' [(''aria-label'', ''Open file navigator'')] [(''click'', Send (On_tab (Navigator_open True)))] [Txt ''Files'']) @
      [box ''breadcrumbs'' (map caption (files_crumbs s))])"

definition pick_a_file :: "bool \<Rightarrow> 'e view" where
  "pick_a_file live = box ''center'' [caption ''Pick a file'',
     caption (''Browse the '' @ (if live then ''live session workspace'' else ''published snapshot'') @
       '' from the file navigator. Published files show blame automatically.'')]"

definition surface_key :: "files_tab \<Rightarrow> string option" where
  "surface_key s = (case files_screen_of s of Pick_a_file _ \<Rightarrow> None | Open_file _ _ _ key \<Rightarrow> Some key)"

text \<open>A surface with the path and session it was mounted for, which its requests name.\<close>

record surface =
  su_key :: string
  su_path :: string
  su_session :: "string option"
  su_file :: file_view

record files_page =
  fg_tab :: files_tab
  fg_surface :: "surface option"
  fg_left :: "surface list"
  fg_address :: "string option"

definition mount :: "files_tab \<Rightarrow> surface option" where
  "mount s = (case files_screen_of s of Pick_a_file _ \<Rightarrow> None
     | Open_file path session blame key \<Rightarrow> Some \<lparr>su_key = key, su_path = path, su_session = session, su_file = file_init blame (session \<noteq> None)\<rparr>)"

text \<open>
  A render of the tab keeps the surface of the same key and replaces any other.  Should another path or session have the same key, the
  surface that stays loads them, and drops the blame it was waiting for.
\<close>

definition new_props :: "bool \<Rightarrow> bool \<Rightarrow> file_view \<Rightarrow> file_view" where
  "new_props blame live v = sync_editor ((load_start False v)\<lparr>fv_blameOn := blame, fv_live := live, fv_blame := None,
     fv_calls := filter (\<lambda>c. c \<noteq> Blaming) (fv_calls (load_start False v)) @ (if blame \<and> \<not> live then [Blaming] else [])\<rparr>)"

definition keep_surface :: "files_tab \<Rightarrow> surface \<Rightarrow> surface" where
  "keep_surface s u = (if su_path u = files_path s \<and> su_session u = files_session s then u
     else u\<lparr>su_path := files_path s, su_session := files_session s,
       su_file := new_props (files_session s = None) (files_session s \<noteq> None) (su_file u)\<rparr>)"

definition remount :: "files_page \<Rightarrow> files_page" where
  "remount g = (if map_option su_key (fg_surface g) = surface_key (fg_tab g)
     then g\<lparr>fg_surface := map_option (keep_surface (fg_tab g)) (fg_surface g)\<rparr>
     else g\<lparr>fg_surface := mount (fg_tab g), fg_left := fg_left g @ (case fg_surface g of None \<Rightarrow> [] | Some u \<Rightarrow> [u])\<rparr>)"

definition surface_step :: "surface \<Rightarrow> file_event \<Rightarrow> surface" where
  "surface_step u e = u\<lparr>su_file := file_step (su_file u) e\<rparr>"

text \<open>What a surface that is left still gets: the answers of its calls.\<close>

fun is_answer :: "file_event \<Rightarrow> bool" where
  "is_answer (Answered n a) = True"
| "is_answer _ = False"

fun files_page_step :: "(string \<Rightarrow> string) \<Rightarrow> string \<Rightarrow> files_page \<Rightarrow> files_page_event \<Rightarrow> files_page" where
  "files_page_step encode sandboxId g (On_tab e) = remount (g\<lparr>fg_tab := files_step (fg_tab g) e\<rparr>)"
| "files_page_step encode sandboxId g (On_surface (On_file e)) = g\<lparr>fg_surface := map_option (\<lambda>u. surface_step u e) (fg_surface g)\<rparr>"
| "files_page_step encode sandboxId g (On_surface (Owner_click owner)) = (case onOwnerClick encode sandboxId owner of None \<Rightarrow> g | Some a \<Rightarrow> g\<lparr>fg_address := Some a\<rparr>)"
| "files_page_step encode sandboxId g (Left_answer k e) = (if k < length (fg_left g) \<and> is_answer e
     then g\<lparr>fg_left := (fg_left g)[k := surface_step (fg_left g ! k) e]\<rparr> else g)"

definition files_page_init :: "string option \<Rightarrow> string option \<Rightarrow> SnapshotResult option \<Rightarrow> files_page" where
  "files_page_init p i r = \<lparr>fg_tab = files_init p i r, fg_surface = mount (files_init p i r), fg_left = [], fg_address = None\<rparr>"

definition FilesTab :: "bool \<Rightarrow> files_page \<Rightarrow> files_page_event view" where
  "FilesTab narrow g = box ''flex'' (navigator_view narrow (fg_tab g) @ [files_toolbar narrow (fg_tab g)] @
     (case files_screen_of (fg_tab g) of Pick_a_file live \<Rightarrow> [pick_a_file live]
      | Open_file path _ _ _ \<Rightarrow> (case fg_surface g of None \<Rightarrow> [] | Some u \<Rightarrow> [map_view On_surface (FileView narrow path (su_file u))])))"

section \<open>What the page offers\<close>

lemma offered_legend [simp]: "offered (BlameLegend owners) = Owner_click ` set owners"
  by (auto simp: BlameLegend_def)

lemma chip_owner: "gutter_click ranges w l = Some owner \<Longrightarrow> owner \<in> set (ownersOf ranges)"
  by (auto simp: gutter_click_def dest!: ownerAt_Some split: option.splits if_splits)

lemma offered_chips: "v \<in> set (blame_chip loaded ranges l) \<Longrightarrow> e \<in> offered v \<Longrightarrow> \<exists>owner \<in> set (ownersOf ranges). e = Owner_click owner"
  by (auto simp: blame_chip_def dest!: chip_owner split: option.splits if_splits)

lemma offered_editor:
  assumes "e \<in> offered (editor_view path loaded s)"
  obtains t where "e = On_file (Typed t)" | owner where "e = Owner_click owner"
proof -
  have "e \<in> offered (editor_view path loaded s) \<Longrightarrow> (\<exists>t. e = On_file (Typed t)) \<or> (\<exists>owner. e = Owner_click owner)"
    unfolding editor_view_def by (auto simp: Let_def dest: offered_chips split: option.splits if_splits)
  with assms that show thesis by blast
qed

lemma offered_file_button: "offered (file_button_view s bo) = (if snd bo then {} else {On_file (Click (fst bo))})"
  by (auto simp: file_button_view_def split: prod.splits)

definition surface_offers :: "file_view \<Rightarrow> surface_event \<Rightarrow> bool" where
  "surface_offers s e = ((\<exists>b. e = On_file (Click b) \<and> (b, False) \<in> set (file_buttons s)) \<or> (\<exists>t. e = On_file (Typed t)) \<or> (\<exists>b. e = On_file (Drawer b)) \<or>
     (\<exists>owner. e = Owner_click owner))"

lemma offered_file_parts:
  "e \<in> offered (file_toolbar narrow path loaded s) \<Longrightarrow> surface_offers s e"
  "v \<in> set (conflict_alert s) \<Longrightarrow> e \<in> offered v \<Longrightarrow> surface_offers s e"
  "v \<in> set (legend_panel narrow s) \<Longrightarrow> e \<in> offered v \<Longrightarrow> surface_offers s e"
  "e \<in> offered (editor_view path loaded s) \<Longrightarrow> surface_offers s e"
proof -
  show "e \<in> offered (file_toolbar narrow path loaded s) \<Longrightarrow> surface_offers s e"
    unfolding file_toolbar_def by (cases "fv_mode s") (auto simp: offered_file_button surface_offers_def split: if_splits)
  show "v \<in> set (conflict_alert s) \<Longrightarrow> e \<in> offered v \<Longrightarrow> surface_offers s e"
    unfolding conflict_alert_def by (cases "fv_mode s") (auto simp: offered_file_button surface_offers_def split: if_splits)
  show "v \<in> set (legend_panel narrow s) \<Longrightarrow> e \<in> offered v \<Longrightarrow> surface_offers s e"
    unfolding legend_panel_def by (auto simp: surface_offers_def split: option.splits if_splits)
  show "e \<in> offered (editor_view path loaded s) \<Longrightarrow> surface_offers s e"
    by (erule offered_editor) (simp_all add: surface_offers_def)
qed

lemma offered_FileView: "e \<in> offered (FileView narrow path s) \<Longrightarrow> surface_offers s e"
  unfolding FileView_def by (auto intro: offered_file_parts split: file_screen.splits option.splits if_splits)

section \<open>The surface on the page\<close>

text \<open>Session ids as the daemon makes them: they hold no colon and are not the word for the published files.\<close>

definition plain_snapshot :: "SnapshotResult option \<Rightarrow> bool" where
  "plain_snapshot r = (\<forall>w \<in> set (snapshot_workspaces r). CHR '':'' \<notin> set (ws_workspace_id w) \<and> ws_workspace_id w \<noteq> ''published'')"

fun plain_ids :: "files_page_event \<Rightarrow> bool" where
  "plain_ids (On_tab (Files_snapshot r)) = plain_snapshot r"
| "plain_ids _ = True"

definition surface_for :: "files_tab \<Rightarrow> surface \<Rightarrow> bool" where
  "surface_for s u = (files_path s \<noteq> [] \<and> surface_key s = Some (su_key u) \<and> su_path u = files_path s \<and> su_session u = files_session s \<and>
     fv_blameOn (su_file u) = (su_session u = None) \<and> fv_live (su_file u) = (su_session u \<noteq> None))"

definition files_page_inv :: "files_page \<Rightarrow> bool" where
  "files_page_inv g = (plain_snapshot (ft_snapshot (fg_tab g)) \<and>
     (case fg_surface g of None \<Rightarrow> files_path (fg_tab g) = [] | Some u \<Rightarrow> surface_for (fg_tab g) u \<and> drafts_based (su_file u)) \<and>
     (\<forall>u \<in> set (fg_left g). drafts_based (su_file u)))"

lemma split_at_colon:
  assumes "a @ '':'' @ p = b @ '':'' @ q" "CHR '':'' \<notin> set a" "CHR '':'' \<notin> set b"
  shows "a = b \<and> p = q"
proof -
  have cut: "takeWhile (\<lambda>c. c \<noteq> CHR '':'') (x @ '':'' @ r) = x" if "CHR '':'' \<notin> set x" for x r
    using that by (induction x) auto
  from cut [of a p] cut [of b q] assms show ?thesis by simp
qed

definition session_word :: "string option \<Rightarrow> string" where
  "session_word session = (case session of None \<Rightarrow> ''published'' | Some i \<Rightarrow> i)"

lemma surface_key_eq: "surface_key s = (if files_path s = [] then None else Some (session_word (files_session s) @ '':'' @ files_path s))"
  by (simp add: surface_key_def files_screen_of_def session_word_def)

lemma plain_session:
  assumes "plain_snapshot (ft_snapshot s)" "files_session s = Some i"
  shows "CHR '':'' \<notin> set i \<and> i \<noteq> ''published''"
  using assms files_session_active [OF assms(2)] by (auto simp: plain_snapshot_def fileWorkspaces_def)

lemma same_key:
  assumes "plain_snapshot (ft_snapshot s)" "plain_snapshot (ft_snapshot t)" "surface_key s = Some k" "surface_key t = Some k"
  shows "files_path s = files_path t \<and> files_session s = files_session t"
proof -
  have word: "CHR '':'' \<notin> set (session_word (files_session x))" if "plain_snapshot (ft_snapshot x)" for x
    using plain_session [OF that] by (auto simp: session_word_def split: option.split)
  have "session_word (files_session s) @ '':'' @ files_path s = session_word (files_session t) @ '':'' @ files_path t"
    using assms(3,4) by (simp add: surface_key_eq split: if_splits)
  from split_at_colon [OF this word [OF assms(1)] word [OF assms(2)]]
  show ?thesis using plain_session [OF assms(1)] plain_session [OF assms(2)] by (auto simp: session_word_def split: option.splits)
qed

lemma files_step_snapshot: "ft_snapshot (files_step s e) = (case e of Files_snapshot r \<Rightarrow> r | _ \<Rightarrow> ft_snapshot s)"
  by (cases e) (simp_all add: files_step_def session_effect_def files_apply_path_def files_apply_session_def)

lemma files_init_snapshot: "ft_snapshot (files_init p i r) = r"
  by (simp add: files_init_def session_effect_def)

lemma mount_for:
  "case mount s of None \<Rightarrow> files_path s = [] | Some u \<Rightarrow> surface_for s u \<and> drafts_based (su_file u)"
  by (simp add: mount_def files_screen_of_def surface_for_def surface_key_def init_based) (simp add: file_init_def)

lemma file_step_props [simp]: "fv_blameOn (file_step v e) = fv_blameOn v" "fv_live (file_step v e) = fv_live v"
proof -
  have sync: "fv_blameOn (sync_editor w) = fv_blameOn w" "fv_live (sync_editor w) = fv_live w" for w
    by (auto simp: sync_editor_def Let_def split: option.splits)
  have call: "answer_file_call c a w = Some w' \<Longrightarrow> fv_blameOn w' = fv_blameOn w \<and> fv_live w' = fv_live w" for c a w w'
    by (cases "(c, a, w)" rule: answer_file_call.cases) (auto simp: file_ops split: sum.splits if_splits)
  have click: "fv_blameOn (click_file b w) = fv_blameOn w" "fv_live (click_file b w) = fv_live w" for b w
    by (cases b; auto simp: file_ops split: option.splits Mode.splits)+
  have "fv_blameOn (file_handle v e) = fv_blameOn v \<and> fv_live (file_handle v e) = fv_live v"
    by (cases e) (auto simp: click copyLocalDraft_def Let_def dest!: call split: option.splits Mode.splits)
  then show "fv_blameOn (file_step v e) = fv_blameOn v" "fv_live (file_step v e) = fv_live v" by (simp_all add: file_step_def sync)
qed

lemma surface_step_for: "surface_for s u \<Longrightarrow> surface_for s (surface_step u e)"
  by (simp add: surface_for_def surface_step_def)

lemma surface_step_based: "drafts_based (su_file u) \<Longrightarrow> drafts_based (su_file (surface_step u e))"
  by (simp add: surface_step_def drafts.inv_step)

lemma remount_inv:
  assumes old: "case fg_surface g of None \<Rightarrow> files_path s = [] | Some u \<Rightarrow> surface_for s u \<and> drafts_based (su_file u)"
    and plain: "plain_snapshot (ft_snapshot s)" "plain_snapshot (ft_snapshot (fg_tab g))"
    and left: "\<forall>u \<in> set (fg_left g). drafts_based (su_file u)"
  shows "files_page_inv (remount g)"
proof (cases "map_option su_key (fg_surface g) = surface_key (fg_tab g)")
  case True
  show ?thesis
  proof (cases "fg_surface g")
    case None
    with True have "files_path (fg_tab g) = []" by (simp add: surface_key_eq split: if_splits)
    with None True plain left show ?thesis by (simp add: files_page_inv_def remount_def)
  next
    case (Some u)
    have u: "surface_for s u" "drafts_based (su_file u)" using old by (simp_all add: Some)
    have "files_path (fg_tab g) = files_path s \<and> files_session (fg_tab g) = files_session s"
      using True u(1) Some plain by (intro same_key [of _ _ "su_key u"]) (simp_all add: surface_for_def)
    with u(1) have "surface_for (fg_tab g) u" "keep_surface (fg_tab g) u = u"
      using True Some by (simp_all add: surface_for_def keep_surface_def)
    with True Some u(2) plain(2) left show ?thesis by (simp add: files_page_inv_def remount_def)
  qed
next
  case False
  then show ?thesis using mount_for [of "fg_tab g"] old plain(2) left
    by (auto simp: files_page_inv_def remount_def split: option.splits)
qed

interpretation files_page: environment_machine "files_page_step encode i" files_page_inv plain_ids
proof
  fix g e
  assume inv: "files_page_inv g" and e: "plain_ids e"
  show "files_page_inv (files_page_step encode i g e)"
  proof (cases e)
    case (On_tab t)
    have "plain_snapshot (ft_snapshot (files_step (fg_tab g) t))" using inv e On_tab
      by (cases t) (simp_all add: files_step_snapshot files_page_inv_def)
    with inv have "files_page_inv (remount (g\<lparr>fg_tab := files_step (fg_tab g) t\<rparr>))"
      unfolding files_page_inv_def [of g] by (intro remount_inv [where s = "fg_tab g"]) simp_all
    with On_tab show ?thesis by simp
  next
    case (On_surface u)
    with inv show ?thesis
      by (cases u) (auto simp: files_page_inv_def surface_step_for surface_step_based split: option.splits)
  next
    case (Left_answer k t)
    with inv show ?thesis
      by (auto simp: files_page_inv_def dest!: set_update_subset_insert [THEN subsetD] intro: surface_step_based split: option.splits)
  qed
qed

lemma files_page_init_inv: "plain_snapshot r \<Longrightarrow> files_page_inv (files_page_init p i r)"
  using mount_for [of "files_init p i r"] 
  by (simp add: files_page_inv_def files_page_init_def files_init_snapshot split: option.splits)

text \<open>What ends a draft on the page: the events that end it in its surface.\<close>

fun page_leaves_draft :: "files_page_event \<Rightarrow> bool" where
  "page_leaves_draft (On_surface (On_file e)) = leaves_draft e"
| "page_leaves_draft _ = False"

lemma page_draft_step:
  assumes inv: "files_page_inv g" and u: "fg_surface g = Some u" "draft_shown (su_file u)" "fv_doc (su_file u) = Some d"
    and e: "plain_ids e" "\<not> page_leaves_draft e" "surface_key (fg_tab (files_page_step encode i g e)) = surface_key (fg_tab g)"
  shows "\<exists>v. fg_surface (files_page_step encode i g e) = Some v \<and> su_path v = su_path u \<and> su_session v = su_session u \<and> fv_doc (su_file v) = Some d"
proof (cases e)
  case (On_tab t)
  let ?s = "files_step (fg_tab g) t"
  have for_u: "surface_for (fg_tab g) u" using inv u(1) by (simp add: files_page_inv_def)
  have plain: "plain_snapshot (ft_snapshot ?s)" "plain_snapshot (ft_snapshot (fg_tab g))" using inv e(1) On_tab
    by (cases t; simp add: files_step_snapshot files_page_inv_def)+
  have tab: "fg_tab (files_page_step encode i g e) = ?s" by (simp add: On_tab remount_def)
  have key: "surface_key ?s = Some (su_key u)" using e(3) for_u by (simp add: tab surface_for_def)
  have "files_path ?s = files_path (fg_tab g) \<and> files_session ?s = files_session (fg_tab g)"
    using for_u key by (intro same_key [OF plain, of "su_key u"]) (simp_all add: surface_for_def)
  then have "keep_surface ?s u = u" using for_u by (simp add: keep_surface_def surface_for_def)
  then show ?thesis using u(1,3) key by (simp add: On_tab remount_def)
next
  case (On_surface x)
  then show ?thesis using u e(2) draft_step [OF u(2,3)]
    by (cases x) (auto simp: surface_step_def split: option.splits)
next
  case (Left_answer k t)
  then show ?thesis using u by simp
qed

text \<open>
  The owners beside the lines are asked for once: whatever is loaded, edited and written after the answer, the ranges stay, also over the
  lines of a text that was saved since.
\<close>

lemma blame_step:
  assumes "Blaming \<notin> set (fv_calls v)"
  shows "Blaming \<notin> set (fv_calls (file_step v e)) \<and> fv_blame (file_step v e) = fv_blame v"
proof -
  have sync: "fv_blame (sync_editor w) = fv_blame w" for w
    by (auto simp: sync_editor_def Let_def split: option.splits)
  have call: "answer_file_call c a w = Some w' \<Longrightarrow> c \<noteq> Blaming \<Longrightarrow> Blaming \<notin> set (fv_calls w) \<Longrightarrow> Blaming \<notin> set (fv_calls w') \<and> fv_blame w' = fv_blame w"
    for c a w w'
    by (cases "(c, a, w)" rule: answer_file_call.cases) (auto simp: file_ops split: sum.splits if_splits)
  have click: "Blaming \<notin> set (fv_calls w) \<Longrightarrow> Blaming \<notin> set (fv_calls (click_file b w)) \<and> fv_blame (click_file b w) = fv_blame w" for b w
    by (cases b) (auto simp: file_ops split: option.splits Mode.splits)
  have "Blaming \<notin> set (fv_calls (file_handle v e)) \<and> fv_blame (file_handle v e) = fv_blame v"
  proof (cases e)
    case (Answered n a)
    let ?w = "v\<lparr>fv_calls := take n (fv_calls v) @ drop (Suc n) (fv_calls v)\<rparr>"
    have "Blaming \<notin> set (fv_calls ?w)" using assms by (auto dest: in_set_takeD in_set_dropD)
    moreover have "n < length (fv_calls v) \<Longrightarrow> fv_calls v ! n \<noteq> Blaming" using assms by (metis nth_mem)
    ultimately show ?thesis using assms call [of "fv_calls v ! n" a ?w] Answered by (auto simp: Let_def split: option.splits)
  qed (use assms click in \<open>auto simp: copyLocalDraft_def split: option.splits Mode.splits\<close>)
  then show ?thesis by (simp add: file_step_def sync)
qed

lemma blame_stays: "Blaming \<notin> set (fv_calls v) \<Longrightarrow> fv_blame (run file_step v es) = fv_blame v"
  by (induction es arbitrary: v) (simp_all add: blame_step)

section \<open>Properties\<close>

text \<open>
  C27: The files page shows the file of its address and nothing else, and keeps its draft.  Over any sequence of snapshots, choices of
  files and scopes, edits and answers, whichever surfaces were left with calls in flight: a file is on screen exactly if the address names a path, and the surface on
  screen reads and writes that path, in the published view or in a session that the snapshot lists as active; a draft in it survives every further event but
  typing, leaving it, a completed write and a change of file or scope; and every surface, also one left during a save, only
  checks against contents that a read of the whole file returned.
\<close>

theorem files_page_current:
  assumes "\<forall>e \<in> set es. plain_ids e" "plain_snapshot r" "g = run (files_page_step encode sandboxId) (files_page_init p i r) es"
  shows "(case fg_surface g of None \<Rightarrow> files_path (fg_tab g) = []
     | Some u \<Rightarrow> files_path (fg_tab g) \<noteq> [] \<and> su_path u = files_path (fg_tab g) \<and> su_session u = files_session (fg_tab g) \<and>
        (\<forall>j. su_session u = Some j \<longrightarrow> (\<exists>w \<in> set (snapshot_workspaces (ft_snapshot (fg_tab g))). ws_workspace_id w = j \<and> ws_finalization_state w = Fin_active)) \<and>
        (\<forall>d e. draft_shown (su_file u) \<and> fv_doc (su_file u) = Some d \<and> plain_ids e \<and> \<not> page_leaves_draft e \<and>
           surface_key (fg_tab (files_page_step encode sandboxId g e)) = surface_key (fg_tab g) \<longrightarrow>
           (\<exists>v. fg_surface (files_page_step encode sandboxId g e) = Some v \<and> su_path v = su_path u \<and> su_session v = su_session u \<and> fv_doc (su_file v) = Some d))) \<and>
    (\<forall>u \<in> set (fg_left g) \<union> set_option (fg_surface g). drafts_based (su_file u))"
proof -
  have inv: "files_page_inv g" unfolding assms(3) using files_page_init_inv [OF assms(2)] assms(1) by (rule files_page.inv_possible_run)
  have "\<exists>w \<in> set (snapshot_workspaces (ft_snapshot (fg_tab g))). ws_workspace_id w = j \<and> ws_finalization_state w = Fin_active"
    if "files_session (fg_tab g) = Some j" for j
    using files_session_active [OF that] by (auto simp: fileWorkspaces_def)
  then show ?thesis using inv page_draft_step [OF inv]
    by (auto simp: files_page_inv_def surface_for_def split: option.splits)
qed

definition sample_files :: files_page where
  "sample_files = files_page_init (Some ''f'') None None"

theorem files_page_current_witness:
  "\<exists>u. fg_surface (run (files_page_step id ''s'') sample_files [On_tab (Files_select ''g'')]) = Some u \<and> su_path u = ''g''"
proof -
  let ?g = "run (files_page_step id ''s'') sample_files [On_tab (Files_select ''g'')]"
  have "files_path (fg_tab ?g) = ''g''"
    by (simp add: sample_files_def files_page_init_def remount_def files_step_def files_apply_path_def session_effect_def files_path_def)
  then show ?thesis
    using files_page_current [of "[On_tab (Files_select ''g'')]" None ?g id "''s''" "Some ''f''" None]
    by (auto simp: plain_snapshot_def snapshot_workspaces_def sample_files_def split: option.splits)
qed

end
