(* ===== verification/Sessions_View.thy ===== *)
theory Sessions_View
  imports Session_Sidebar View
begin

text \<open>
  What the sidebar of the workspace sessions renders: \<^verbatim>\<open>SessionSidebar.tsx\<close> and \<^verbatim>\<open>WorkspaceSessionActions.tsx\<close> of
  \<^verbatim>\<open>web/src/pages/sandbox/terminal\<close>, over the machine of \<open>Session_Sidebar\<close>.  The menu of the new session is drawn open; a
  button that is loading is disabled.
\<close>

section \<open>The actions of a row\<close>

definition action_button :: "string \<Rightarrow> button_view \<Rightarrow> sidebar_event view" where
  "action_button i b = El ''button'' ([(''aria-label'', bt_label b)] @ flag ''disabled'' (bt_disabled b \<or> bt_loading b) @ [(''title'', bt_title b)])
     [(''click'', Send (button_event (bt_button b) i))] []"

text \<open>A value of an answer as the page shows it.\<close>

fun react_text :: "json option \<Rightarrow> string" where
  "react_text (Some (JStr t)) = t"
| "react_text (Some (JNum n)) = show_int n"
| "react_text (Some (JDec t)) = t"
| "react_text _ = []"

definition js_truthy :: "json option \<Rightarrow> bool" where
  "js_truthy v = (case v of None \<Rightarrow> False | Some JNull \<Rightarrow> False | Some (JBool b) \<Rightarrow> b | Some (JNum n) \<Rightarrow> n \<noteq> 0 | Some (JStr t) \<Rightarrow> t \<noteq> [] | _ \<Rightarrow> True)"

definition cleanup_text :: "json \<Rightarrow> string" where
  "cleanup_text publish = (let revision = js_prop publish ''revision''; layers = opt_prop revision ''layer_count'' in
     (if js_truthy (js_prop publish ''no_op'') then ''No layer was committed'' else ''Committed'') @ '' at manifest v'' @
     react_text (opt_prop revision ''manifest_version'') @ middle_dot @ react_text layers @ '' '' @
     (if layers = Some (JNum 1) then ''layer'' else ''layers'') @ ''.'')"

definition drop_view :: "string option \<Rightarrow> protected_drop \<Rightarrow> 'e view" where
  "drop_view path d = box ''stack'' [box ''text'' ([Txt ''Blocked change''] @
     (case pd_path d of Some p \<Rightarrow> if p \<noteq> [] \<and> path \<noteq> Some p then [Txt '' at '', box ''code'' [Txt p]] else [] | None \<Rightarrow> []) @
     [Txt '': '', box ''code'' [Txt (pd_reason d)]]), caption (pd_guidance d)]"

definition retained_view :: "retained_problem \<Rightarrow> 'e view" where
  "retained_view r = (let path = (case rt_path r of Some p \<Rightarrow> p | None \<Rightarrow> []); reason = (case rt_reason r of Some t \<Rightarrow> t | None \<Rightarrow> []) in
     El ''alert'' [(''title'', rt_title r)] []
       ([caption (rt_message r)] @
        show_when (path \<noteq> [] \<or> reason \<noteq> []) (box ''text'' ((if path \<noteq> [] then [Txt ''Path: '', box ''code'' [Txt path]] else []) @
          (if path \<noteq> [] \<and> reason \<noteq> [] then [Txt middle_dot] else []) @ (if reason \<noteq> [] then [Txt ''Reason: '', box ''code'' [Txt reason]] else []))) @
        (case rt_protectedDrop r of None \<Rightarrow> [] | Some d \<Rightarrow> [drop_view (rt_path r) d]) @
        show_when (rt_activeCommandSessionIds r \<noteq> []) (box ''text'' [Txt ''Active commands: '', box ''code'' [Txt (join '', '' (rt_activeCommandSessionIds r))]]) @
        show_when (rt_conflict r) (caption ''Inspect or edit the retained session, then retry publishing. You can also discard it from this row.'')))"

fun feedback_view :: "session_feedback \<Rightarrow> 'e view" where
  "feedback_view Confirm_text = caption ''Discard unpublished changes? Select the red trash again to close without publishing.''"
| "feedback_view (Disabled_text t) = caption t"
| "feedback_view (Cleanup_alert publish) = El ''alert'' [(''title'', ''Published; cleanup required'')] []
     ([caption ''LayerStack publication completed, but the session could not be closed. Commands, files, and publishing stay disabled until cleanup finishes.''] @
      (case publish of None \<Rightarrow> [] | Some p \<Rightarrow> [caption (cleanup_text p)]) @
      [caption ''Use Finish cleanup to close the finalized session.''])"
| "feedback_view (Retained_alert r) = retained_view r"
| "feedback_view (Failed_alert t m) = El ''alert'' [(''title'', t)] [] [Txt m]"

section \<open>The list\<close>

definition session_row_view :: "sidebar \<Rightarrow> session_row \<Rightarrow> sidebar_event view" where
  "session_row_view s row = El ''stack'' [(''data-workspace-session-row'', row_id row)] []
     (El ''navlink'' (attr_bool ''active'' (row_active s row) @ [(''aria-label'', ''Use workspace session '' @ row_id row),
        (''description'', row_description s row), (''title'', row_id row)]) [(''click'', Send (Select Mode_session (Some (row_id row))))] [Txt (row_id row)] #
      map (action_button (row_id row)) (row_buttons s row) @ map feedback_view (row_feedback s row))"

definition profile_item :: "sidebar \<Rightarrow> NetworkProfile \<Rightarrow> string \<Rightarrow> string \<Rightarrow> sidebar_event view" where
  "profile_item s profile title detail = El ''menuitem'' (flag ''disabled'' (mutationBusy s)) [(''click'', Send (Create_click profile))]
     [caption title, caption detail]"

definition new_session_menu :: "sidebar \<Rightarrow> sidebar_event view" where
  "new_session_menu s = El ''menu'' ([(''aria-label'', ''New workspace session'')] @ flag ''disabled'' (sd_busyAction s \<noteq> None \<or> sd_createBusy s)) []
     [caption ''Network profile'', profile_item s Shared ''Shared session'' (''Sandbox network'' @ middle_dot @ ''retains changes''),
      profile_item s Isolated ''Isolated session'' (''No external network'' @ middle_dot @ ''retains changes'')]"

definition mode_link :: "bool \<Rightarrow> string \<Rightarrow> string \<Rightarrow> TerminalMode \<Rightarrow> sidebar_event view" where
  "mode_link active lab description mode = El ''navlink'' (attr_bool ''active'' active @ [(''description'', description)])
     [(''click'', Send (Select mode None))] [Txt lab]"

definition SessionList :: "sidebar \<Rightarrow> sidebar_event view" where
  "SessionList s = box ''stack''
     ([box ''group'' (show_when (\<not> sd_narrow s) (caption ''Workspace sessions'') @ [new_session_menu s])] @
      map (session_row_view s) (session_rows s) @
      show_when (session_rows s = []) (caption ''No live sessions. Create one when commands need to share private changes.'') @
      [caption ''Run once'', mode_link (sd_mode s = Mode_quick) ''Quick run'' (''shared'' @ middle_dot @ ''auto-publish'') Mode_quick,
       caption ''History'', mode_link (sd_mode s = Mode_all) ''All commands'' ''unfiltered ledger'' Mode_all])"

definition SessionSidebar :: "sidebar \<Rightarrow> sidebar_event view" where
  "SessionSidebar s = (if sd_narrow s
     then box ''fragment'' (show_when (sd_opened s) (El ''drawer'' [(''title'', ''Workspace sessions'')] [(''close'', Send Drawer_close)] [SessionList s]))
     else El ''aside'' (flag ''data-terminal-session-rail'' True) [] [SessionList s])"

section \<open>What the sidebar offers\<close>

lemma offered_action: "offered (action_button i b) = (if bt_disabled b \<or> bt_loading b then {} else {button_event (bt_button b) i})"
  by (auto simp: action_button_def)

lemma offered_drop [simp]: "offered (drop_view path d) = {}"
  by (cases "pd_path d") (auto simp: drop_view_def)

lemma offered_retained [simp]: "offered (retained_view r) = {}"
  by (cases "rt_protectedDrop r") (auto simp: retained_view_def Let_def)

lemma offered_feedback [simp]: "offered (feedback_view f) = {}"
proof (cases f)
  case (Cleanup_alert p)
  then show ?thesis by (cases p) simp_all
qed simp_all

lemma offered_session_row: "offered (session_row_view s row) = insert (Select Mode_session (Some (row_id row)))
    (\<Union>b \<in> set (row_buttons s row). offered (action_button (row_id row) b))"
  by (auto simp: session_row_view_def attr_on_def attr_bool_def)

lemma offered_menu: "offered (new_session_menu s) = (if mutationBusy s then {} else {Create_click Shared, Create_click Isolated})"
  by (auto simp: new_session_menu_def profile_item_def)

lemma offered_SessionList: "offered (SessionList s) = {Select Mode_quick None, Select Mode_all None} \<union> offered (new_session_menu s) \<union>
    (\<Union>row \<in> set (session_rows s). offered (session_row_view s row))"
  by (auto simp: SessionList_def mode_link_def attr_on_def attr_bool_def)

lemma offered_SessionSidebar: "offered (SessionSidebar s) = (if sd_narrow s \<and> \<not> sd_opened s then {}
    else (if sd_narrow s then {Drawer_close} else {}) \<union> offered (SessionList s))"
  by (auto simp: SessionSidebar_def)

lemma offered_button:
  assumes "e \<in> offered (SessionSidebar s)"
  shows "(\<exists>mode i. e = Select mode i) \<or> e = Drawer_close \<or> (\<not> mutationBusy s \<and> (\<exists>p. e = Create_click p)) \<or>
    (\<exists>row \<in> set (session_rows s). \<exists>b \<in> set (row_buttons s row). \<not> bt_disabled b \<and> e = button_event (bt_button b) (row_id row))"
  using assms unfolding offered_SessionSidebar offered_SessionList offered_menu offered_session_row offered_action
  by (auto split: if_splits)

text \<open>
  Unpublished changes are not discarded with one click: the sidebar offers to discard a session only after it asked for a
  confirmation for that session, or when the session is published and waits for its cleanup.
\<close>

lemma discard_confirmed:
  assumes "Discard_click i \<in> offered (SessionSidebar s)"
  shows "sd_discardConfirmId s = Some i \<or> i \<in> set (sd_cleanupRequiredIds s) \<or>
    (\<exists>w \<in> set (sd_workspaces s). ws_workspace_id w = i \<and> ws_finalization_state w = Finalize_failed)"
proof -
  obtain row b where r: "row \<in> set (session_rows s)" "b \<in> set (row_buttons s row)" "Discard_click i = button_event (bt_button b) (row_id row)"
    using offered_button [OF assms] by auto
  then have i: "i = row_id row" "bt_button b \<in> {Finish_cleanup, Confirm_discard}" by (cases "bt_button b"; simp)+
  then have "row_cleanupRequired s row \<or> sd_discardConfirmId s = Some i" and pers: "row_persisted row"
    using r(2) by (auto simp: row_buttons_def WorkspaceSessionActionButtons_def Let_def split: if_splits)
  moreover obtain w where "w \<in> set (sd_workspaces s)" "row_id row = ws_workspace_id w" "row_finalizationState row = ws_finalization_state w"
    using r(1) pers by (elim persisted_row) auto
  ultimately show ?thesis using i(1) by (auto simp: row_cleanupRequired_def)
qed

text \<open>While an operation runs, clicks start no other.\<close>

definition starts_nothing :: "sidebar \<Rightarrow> sidebar \<Rightarrow> bool" where
  "starts_nothing s t = (mutationBusy s \<longrightarrow> mutationBusy t \<and> sd_calls t = sd_calls s)"

lemma busy_offers_nothing:
  assumes "mutationBusy s" "e \<in> offered (SessionSidebar s)"
  shows "(\<exists>mode i. e = Select mode i) \<or> e = Drawer_close"
proof -
  have "bt_disabled b" if "b \<in> set (row_buttons s row)" for b row
    using that assms(1) by (auto simp: row_buttons_def WorkspaceSessionActionButtons_def Let_def split: if_splits)
  with offered_button [OF assms(2)] assms(1) show ?thesis by auto
qed

interpretation session_list: rendered SessionSidebar sidebar_step starts_nothing
proof
  fix s e assume e: "e \<in> offered (SessionSidebar s)"
  show "starts_nothing s (sidebar_step s e)" unfolding starts_nothing_def
  proof (intro impI)
    assume busy: "mutationBusy s"
    from busy_offers_nothing [OF busy e] busy show "mutationBusy (sidebar_step s e) \<and> sd_calls (sidebar_step s e) = sd_calls s"
      by (auto simp: sidebar_step_def sidebar_select_def mutationBusy_def)
  qed
qed (auto simp: starts_nothing_def)

end
