(* ===== verification/Sandbox_View.thy ===== *)
theory Sandbox_View
  imports Sandbox_Pages Actions_View
begin

text \<open>
  What the frame of a sandbox's page and its preview tab render: \<^verbatim>\<open>SandboxDetail.tsx\<close>, \<^verbatim>\<open>SandboxHeader.tsx\<close>,
  \<^verbatim>\<open>ObservabilityTab.tsx\<close>, \<^verbatim>\<open>PortPreview.tsx\<close> and \<^verbatim>\<open>PreviewTab.tsx\<close>, over the machines of \<open>Sandbox_Pages\<close>.  An event of the frame is the
  address it navigates to; the page of the route is an element of its own.
\<close>

section \<open>The launcher of previews\<close>

definition preview_options :: "preview_scope list \<Rightarrow> 'e view list" where
  "preview_options scopes = map (\<lambda>e. El ''option'' [(''value'', sc_id e)] [] [Txt (sc_label e)]) scopes"

definition PortPreview :: "preview_scope list \<Rightarrow> string \<Rightarrow> port_preview \<Rightarrow> launcher_event view" where
  "PortPreview scopes defaultScope s = El ''popover'' [] [(''outside'', Send (Launcher_toggle False))]
     (El ''button'' [(''title'', ''Open a served port in the Preview tab'')] [(''click'', Send (Launcher_toggle (\<not> pp_open s)))] [Txt ''Preview''] #
      show_when (pp_open s) (box ''dropdown''
        ([caption ''scope'', El ''select'' [(''value'', pp_scope s)] [(''change'', Send_choice (map sc_id scopes) (Launcher_scope defaultScope))] (preview_options scopes),
          caption ''port'',
          El ''form'' [] [(''submit'', Send Launcher_submit)] [El ''input'' [(''value'', pp_port s), (''placeholder'', ''5173'')] [(''change'', Send_text Launcher_port)] []]] @
         show_when (isolated_hint scopes (pp_scope s))
           (caption (''Isolated session: the server must bind 0.0.0.0 or the workspace IP'' @ em_dash @ ''127.0.0.1 is not reachable.'')) @
         [El ''button'' (flag ''disabled'' (\<not> portValid (pp_port s))) [(''click'', Send Launcher_submit)] [Txt ''Open preview'']])))"

section \<open>The preview tab\<close>

datatype preview_page_event = On_preview preview_event | Open_tab string

definition preview_scope_options :: "preview_scope list \<Rightarrow> string \<Rightarrow> (string \<times> string) list" where
  "preview_scope_options scopes scope = map (\<lambda>e. (sc_id e, sc_label e)) scopes @
     (if scope \<in> sc_id ` set scopes \<or> scope = ''shared'' then [] else [(scope, ''isolated '' @ [CHR 0xB7] @ '' '' @ scope)])"

definition preview_controls :: "preview_scope list \<Rightarrow> string option \<Rightarrow> preview_tab \<Rightarrow> preview_page_event view" where
  "preview_controls scopes url s = box ''flex''
     [caption ''scope'',
      El ''select'' [(''value'', pv_scope_of s)] [(''change'', Send_choice (map fst (preview_scope_options scopes (pv_scope_of s))) (On_preview \<circ> Pv_scope))]
        (map (\<lambda>(i, l). El ''option'' [(''value'', i)] [] [Txt l]) (preview_scope_options scopes (pv_scope_of s))),
      caption ''port'',
      El ''form'' [] [(''submit'', Send (On_preview Pv_port_submit))] [El ''input'' [(''id'', ''preview-port''), (''value'', pv_portDraft s)] [(''change'', Send_text (On_preview \<circ> Pv_port_draft))] []],
      caption ''path'',
      El ''form'' [] [(''submit'', Send (On_preview Pv_path_submit))] [El ''input'' [(''id'', ''preview-path''), (''value'', pv_pathDraft s)] [(''change'', Send_text (On_preview \<circ> Pv_path_draft))] []],
      El ''button'' (flag ''disabled'' (url = None) @ [(''title'', ''refresh'')]) [(''click'', Send (On_preview Pv_reload))] [],
      El ''button'' (flag ''disabled'' (url = None) @ [(''title'', ''open in a new tab'')])
        (case url of None \<Rightarrow> [] | Some u \<Rightarrow> [(''click'', Send (Open_tab u))]) [Txt ''tab'']]"

definition preview_frame :: "string \<Rightarrow> string \<Rightarrow> preview_tab \<Rightarrow> preview_page_event view list" where
  "preview_frame sandboxId url s =
     show_when (pv_isLoading s) (caption (''Loading preview'' @ ellipsis)) @
     [El ''iframe'' [(''key'', url @ ''-'' @ show_nat (pv_reloadKey s)), (''src'', url), (''sandbox'', ''allow-scripts''), (''allow'', []),
        (''referrerPolicy'', ''no-referrer''), (''title'', ''preview of '' @ sandboxId @ '' port '' @ pv_port_of s)]
        [(''load'', Send (On_preview Pv_loaded))] []]"

definition no_preview :: "string \<Rightarrow> 'e view" where
  "no_preview sandboxId = box ''paper'' [caption ''Pick a port to preview'',
     caption (''Anything serving HTTP inside the sandbox renders here through /s/'' @ sandboxId @ ''/'' @ ellipsis @ em_dash @
       ''start a server in the Terminal tab, then enter its port above.'')]"

definition PreviewTab :: "(string \<Rightarrow> string) \<Rightarrow> string \<Rightarrow> preview_scope list \<Rightarrow> preview_tab \<Rightarrow> preview_page_event view" where
  "PreviewTab encode sandboxId scopes s = (let url = previewUrl encode sandboxId s in box ''box''
     ([preview_controls scopes url s] @
      show_when (pv_scope_of s \<noteq> ''shared'')
        (caption (''Isolated session: the server must bind 0.0.0.0 or the workspace IP'' @ em_dash @ ''127.0.0.1 is not reachable from outside the namespace.'')) @
      [El ''box'' (attr_bool ''aria-busy'' (pv_isLoading s)) [] (case url of None \<Rightarrow> [no_preview sandboxId] | Some u \<Rightarrow> preview_frame sandboxId u s)]))"

definition preview_page_step :: "(string \<Rightarrow> string) \<Rightarrow> string \<Rightarrow> preview_tab \<times> string list \<Rightarrow> preview_page_event \<Rightarrow> preview_tab \<times> string list" where
  "preview_page_step encode sandboxId st e = (case e of On_preview p \<Rightarrow> (preview_step encode sandboxId (fst st) p, snd st)
     | Open_tab u \<Rightarrow> (fst st, snd st @ [u]))"

section \<open>The frame\<close>

definition endpoint_text :: "string \<Rightarrow> string \<Rightarrow> Endpoint \<Rightarrow> 'e view" where
  "endpoint_text name title ep = El ''text'' [(''title'', title)] [] [Txt (name @ '' '' @ ep_host ep @ '':'' @ show_int (ep_port ep))]"

definition header_layers :: "SnapshotResult option \<Rightarrow> nat option" where
  "header_layers snapshot = (case snapshot of None \<Rightarrow> None | Some r \<Rightarrow> (case snap_sandboxes r of [] \<Rightarrow> None | s # _ \<Rightarrow> Some (st_layer_count (ss_stack s))))"

definition record_line :: "SandboxRecord \<Rightarrow> 'e view list" where
  "record_line r = [badge_view (Inl (rec_state r)) None] @ show_when (rec_state r = Ready) (health_view True (rec_daemon_http r)) @
     [El ''text'' [(''title'', ''workspace bind root'')] [] [Txt (rec_workspace_root r)]] @
     (case rec_daemon r of None \<Rightarrow> [] | Some ep \<Rightarrow> [endpoint_text ''rpc'' ''daemon RPC endpoint'' ep]) @
     (case rec_daemon_http r of None \<Rightarrow> [] | Some ep \<Rightarrow> [endpoint_text ''http'' ''daemon_http endpoint'' ep]) @
     (case rec_shared_base r of None \<Rightarrow> []
      | Some b \<Rightarrow> [El ''tooltip'' [(''label'', ''shared read-only base '' @ [CHR 0xB7] @ '' root '' @ sb_root_hash b)] []
          [box ''badge'' [Txt (''base '' @ shortHash (sb_root_hash b) 8)]]])"

definition header_view :: "string \<Rightarrow> SandboxRecord option \<Rightarrow> SnapshotResult option \<Rightarrow> 'e view" where
  "header_view sandboxId rec snapshot = box ''header''
     ([caption sandboxId] @ (case rec of None \<Rightarrow> [] | Some r \<Rightarrow> record_line r) @
      [box ''group'' ((case rec of None \<Rightarrow> [] | Some r \<Rightarrow> if rec_state r \<noteq> Ready then [] else
          [El ''PortPreview'' [(''sandboxId'', sandboxId)] [] (preview_options (previewScopes snapshot)),
           El ''SquashDialog'' ([(''sandboxId'', sandboxId)] @ (case header_layers snapshot of None \<Rightarrow> [] | Some n \<Rightarrow> [(''layerCount'', show_nat n)])) [] [Txt ''Squash'']]) @
        [El ''DestroyAction'' [(''sandboxId'', sandboxId)] [] []])])"

definition SANDBOX_TABS :: "(string \<times> string) list" where
  "SANDBOX_TABS = [(''terminal'', ''Terminal''), (''files'', ''Files''), (''observability'', ''Observability''), (''preview'', ''Preview'')]"

definition tab_view :: "string \<Rightarrow> string \<Rightarrow> string \<times> string \<Rightarrow> string view" where
  "tab_view current base = (\<lambda>(tab, name). El ''tab'' ([(''value'', tab)] @ attr_bool ''aria-selected'' (current = tab))
     [(''click'', Send (base @ ''/'' @ tab))] [Txt name])"

definition SandboxDetail :: "(string \<Rightarrow> string) \<Rightarrow> string \<Rightarrow> string \<Rightarrow> SandboxRecord option \<Rightarrow> SnapshotResult option \<Rightarrow> string view" where
  "SandboxDetail encode sandboxId pathname rec snapshot = (let base = base_path encode sandboxId in box ''box''
     ([header_view sandboxId rec snapshot] @
      (case rec of None \<Rightarrow> [] | Some r \<Rightarrow> show_when (rec_state r \<noteq> Ready)
        (El ''alert'' [(''title'', ''Sandbox '' @ state_name (rec_state r))] [] [Txt ''Daemon-backed tools are unavailable until this sandbox is ready.''])) @
      [El ''tablist'' [(''aria-label'', ''Sandbox navigation'')] [] (map (tab_view (currentTab pathname base) base) SANDBOX_TABS), box ''Outlet'' []]))"

text \<open>The navigation of the observability pages is relative to their parent route.\<close>

definition ObservabilityTab :: "(string \<Rightarrow> string) \<Rightarrow> string \<Rightarrow> string \<Rightarrow> string view" where
  "ObservabilityTab encode sandboxId pathname = (let base = base_path encode sandboxId @ ''/observability'' in box ''box''
     [El ''tablist'' [(''aria-label'', ''Observability navigation'')] [] (map (tab_view (currentView pathname) base) VIEWS), box ''Outlet'' []])"

section \<open>What the pages offer\<close>

lemma offered_frame_parts [simp]: "offered (endpoint_text a b ep) = {}" "\<Union>(offered ` set (record_line r)) = {}" "\<Union>(offered ` set (preview_options scopes)) = {}"
  "offered (no_preview i) = {}"
  by (auto simp: endpoint_text_def record_line_def preview_options_def no_preview_def split: option.splits if_splits)

lemma offered_header_view [simp]: "offered (header_view i rec snapshot) = {}"
  by (cases rec; cases "header_layers snapshot") (simp_all add: header_view_def)

lemma offered_tab [simp]: "offered (tab_view current base t) = {base @ ''/'' @ fst t}"
  by (auto simp: tab_view_def attr_on_def attr_bool_def split: prod.splits)

lemma offered_SandboxDetail: "offered (SandboxDetail encode i pathname rec snapshot) = (\<lambda>tab. base_path encode i @ ''/'' @ tab) ` set TABS"
  by (cases rec) (simp_all add: SandboxDetail_def SANDBOX_TABS_def TABS_def Let_def insert_commute)

lemma offered_ObservabilityTab: "offered (ObservabilityTab encode i pathname) = (\<lambda>v. base_path encode i @ ''/observability/'' @ v) ` fst ` set VIEWS"
  by (simp add: ObservabilityTab_def VIEWS_def Let_def insert_commute)

text \<open>A tab that is clicked is the one that is selected afterwards, and the only one.\<close>

lemma clicked_tab_selected:
  assumes "tab \<in> set TABS"
  shows "currentTab (base_path encode i @ ''/'' @ tab) (base_path encode i) = tab"
proof -
  have "tab = ''terminal'' \<or> tab = ''files'' \<or> tab = ''observability'' \<or> tab = ''preview''" using assms by (simp add: TABS_def)
  then show ?thesis by (elim disjE) (simp_all add: currentTab_def TABS_def startsWith_prefix)
qed

section \<open>Previews on the page\<close>

lemma offered_PortPreview:
  "offered (PortPreview scopes d s) = {Launcher_toggle False, Launcher_toggle (\<not> pp_open s)} \<union> (if pp_open s then
     insert Launcher_submit (range Launcher_port) \<union> Launcher_scope d ` insert None (Some ` sc_id ` set scopes) else {})"
  by (simp add: PortPreview_def image_image) auto

definition opens_previews :: "(string \<Rightarrow> string) \<Rightarrow> string \<Rightarrow> preview_tab \<times> string list \<Rightarrow> preview_tab \<times> string list \<Rightarrow> bool" where
  "opens_previews encode i st st' = (\<exists>us. snd st' = snd st @ us \<and> (\<forall>u \<in> set us. \<exists>s. previewUrl encode i s = Some u))"

lemma offered_PreviewTab: "Open_tab u \<in> offered (PreviewTab encode i scopes s) \<Longrightarrow> previewUrl encode i s = Some u"
  by (auto simp: PreviewTab_def preview_controls_def preview_frame_def Let_def split: option.splits if_splits)

text \<open>Clicks on the tab open only preview addresses outside it.\<close>

interpretation preview_page: rendered "\<lambda>st. PreviewTab encode i scopes (fst st)" "preview_page_step encode i" "opens_previews encode i"
proof
  show "opens_previews encode i st st" for st by (simp add: opens_previews_def)
  show "opens_previews encode i r t" if "opens_previews encode i r s" "opens_previews encode i s t" for r s t
    using that by (auto simp: opens_previews_def)
  show "opens_previews encode i st (preview_page_step encode i st e)" if "e \<in> offered (PreviewTab encode i scopes (fst st))" for e st
    using that by (cases e) (auto simp: preview_page_step_def opens_previews_def dest: offered_PreviewTab)
qed

text \<open>
  The page embeds at most one frame, for the address of the moment, and a document in it may run scripts but has no access to the
  console's origin.
\<close>

lemma preview_frame_isolated:
  "attr_values ''src'' (PreviewTab encode i scopes s) = (case previewUrl encode i s of None \<Rightarrow> [] | Some u \<Rightarrow> [u])"
  "attr_values ''sandbox'' (PreviewTab encode i scopes s) = (case previewUrl encode i s of None \<Rightarrow> [] | Some u \<Rightarrow> [''allow-scripts''])"
  by (cases "previewUrl encode i s"; simp add: PreviewTab_def preview_controls_def preview_frame_def no_preview_def attr_bool_def Let_def comp_def
      case_prod_unfold map_add_def)+

end
