(* ===== verification/Terminal_View.thy ===== *)
theory Terminal_View
  imports Terminal_Tab Command_Input Transcript_View Sessions_View Sandbox_View
begin

text \<open>
  What the terminal tab renders: \<^verbatim>\<open>TerminalTab.tsx\<close>, \<^verbatim>\<open>CommandCard.tsx\<close>, \<^verbatim>\<open>TranscriptViewer.tsx\<close>, \<^verbatim>\<open>StdinBar.tsx\<close> and
  \<^verbatim>\<open>CommandComposer.tsx\<close> of \<^verbatim>\<open>web/src/pages/sandbox/terminal\<close>; and the tab together with its composer, which is mounted while commands can be
  run.  The lines that the virtualizer of a transcript shows and the clock are inputs.
\<close>

section \<open>Transcripts and input\<close>

definition TranscriptViewer :: "(nat \<times> nat) list \<Rightarrow> nat \<Rightarrow> transcript_view \<Rightarrow> transcript_event view" where
  "TranscriptViewer virtual total_size s = El ''pane'' (flag ''data-terminal-transcript'' True) [(''scroll'', Send (Tv_scroll True))]
     (show_when (stale_alert s) (El ''alert'' [(''title'', ''Transcript refresh delayed'')] [] [Txt ''Showing the last fetched output while the connection recovers.'']) @
      [El ''box'' [(''height'', show_nat total_size @ ''px'')] [] (map (\<lambda>(index, start). El ''text''
         [(''data-index'', show_nat index), (''transform'', ''translateY('' @ show_nat start @ ''px)'')] [] [Txt (line_text s index)]) virtual)] @
      (case empty_note s of None \<Rightarrow> [] | Some n \<Rightarrow> [caption n]) @
      [caption (transcript_footer s)])"

definition StdinBar :: "command_card \<Rightarrow> card_event view" where
  "StdinBar s = El ''form'' (flag ''data-terminal-stdin'' True) [(''submit'', Send Send_line)]
     [caption ''stdin'',
      El ''input'' [(''aria-label'', ''Standard input''), (''value'', cc_text s), (''placeholder'', ''type a line, Enter sends it'')]
        [(''change'', Send_text Type_line), (''enter'', Send (Key_down True False \<lparr>ke_key = ''Enter'', ke_ctrl = False, ke_repeat = False\<rparr>)),
         (''ctrl'', Send_text (\<lambda>k. Key_down True False \<lparr>ke_key = k, ke_ctrl = True, ke_repeat = False\<rparr>))] [],
      El ''button'' [(''aria-label'', ''Send line'')] [(''click'', Send Send_line)] [],
      El ''button'' [(''aria-label'', ''Send Ctrl-C'')] [(''click'', Send (Send_control True))] [Txt ''^C''],
      El ''button'' [(''aria-label'', ''Send Ctrl-D'')] [(''click'', Send (Send_control False))] [Txt ''^D'']]"

definition InlineTranscript :: "string \<Rightarrow> 'e view" where
  "InlineTranscript output = El ''box'' (flag ''data-terminal-inline-transcript'' True) []
     (if output \<noteq> [] then map caption (split_on newline output) else [caption ''no output''])"

section \<open>A card\<close>

datatype card_page_event = Card_toggle | On_card card_event | On_transcript transcript_event

fun card_status_view :: "card_status \<Rightarrow> 'e view" where
  "card_status_view (Shows_running d) = box ''group'' [box ''loader'' [], caption d]"
| "card_status_view (Shows_rejected l) = badge_view (Inr (Inr Tone_danger)) (Some l)"
| "card_status_view (Shows_status st l) = badge_view (Inr (Inl st)) (Some l)"

definition card_id :: "string \<Rightarrow> LedgerEntry \<Rightarrow> (string \<times> string) list" where
  "card_id k e = (if truthy_id (en_commandSessionId e) then [(''id'', k @ the (en_commandSessionId e))] else [])"

definition card_header :: "int \<Rightarrow> bool \<Rightarrow> LedgerEntry \<Rightarrow> card_page_event view" where
  "card_header now expanded e = El ''button'' (attr_bool ''aria-expanded'' expanded @
       [(''aria-label'', (if expanded then ''Collapse'' else ''Expand'') @ '' command '' @ en_cmd e)])
     [(''click'', Send Card_toggle)]
     [box (if expanded then ''ChevronDown'' else ''ChevronRight'') [], caption ''$'', caption (en_cmd e),
      El ''text'' [(''title'', ''owning workspace session'')] [] [Txt (card_owner e)], card_status_view (card_status_of now e)]"

definition card_frame :: "(nat \<times> nat) list \<Rightarrow> nat \<Rightarrow> preview_scope list \<Rightarrow> transcript_view option \<Rightarrow> command_card \<Rightarrow> card_page_event view" where
  "card_frame virtual total_size scopes transcript s = (let e = cc_entry s in El ''frame'' (card_id ''terminal-'' e)
     [(''keydown'', Send_text (\<lambda>k. On_card (Key_down False False \<lparr>ke_key = k, ke_ctrl = True, ke_repeat = False\<rparr>)))]
     (show_when (card_running s) (El ''PortPreview'' [(''defaultScope'', card_preview_scope (map sc_id scopes) e)] [] (preview_options scopes)) @
      (case card_body_of True e of
         Body_transcript csid \<Rightarrow> (case transcript of None \<Rightarrow> [] | Some v \<Rightarrow> [map_view On_transcript (TranscriptViewer virtual total_size v)])
       | _ \<Rightarrow> [InlineTranscript (case en_inlineOutput e of None \<Rightarrow> [] | Some t \<Rightarrow> t)]) @
      show_when (card_stdin_shown True e) (map_view On_card (StdinBar s))))"

definition CommandCard :: "(nat \<times> nat) list \<Rightarrow> nat \<Rightarrow> preview_scope list \<Rightarrow> int \<Rightarrow> bool \<Rightarrow> transcript_view option \<Rightarrow> command_card \<Rightarrow> card_page_event view" where
  "CommandCard virtual total_size scopes now expanded transcript s = El ''article'' (card_id ''cmd-'' (cc_entry s)) []
     (card_header now expanded (cc_entry s) # show_when expanded (card_frame virtual total_size scopes transcript s))"

section \<open>The composer\<close>

definition composer_placeholder :: "composer \<Rightarrow> string" where
  "composer_placeholder s = (if truthy_id (cp_workspaceSessionId s) then ''Run in '' @ the (cp_workspaceSessionId s) @ ellipsis else ''Run once and publish'' @ ellipsis)"

definition CommandComposer :: "WorkspaceSnapshot option \<Rightarrow> composer \<Rightarrow> composer_event view" where
  "CommandComposer workspace s = El ''form'' (flag ''data-terminal-composer'' True) [(''submit'', Send Submit)]
     [caption (contextLabel (cp_workspaceSessionId s)), box ''badge'' [Txt (contextDescription (cp_workspaceSessionId s) workspace)], caption ''Enter to run'',
      El ''input'' [(''aria-label'', ''Command''), (''value'', cp_cmd s), (''placeholder'', composer_placeholder s)] [(''change'', Send_text Edit_cmd)] [],
      El ''input'' ([(''aria-label'', ''Timeout in seconds''), (''value'', cp_timeoutSeconds s)] @
          (case timeoutError (cp_timeoutSeconds s) of None \<Rightarrow> [] | Some m \<Rightarrow> [(''error'', m)])) [(''change'', Send_text Edit_timeout)] [],
      El ''button'' (flag ''disabled'' (run_disabled s)) [(''click'', Send Submit)] [Txt ''Run'']]"

section \<open>The page\<close>

text \<open>
  The tab with its composer.  The composer stays mounted from session to session and loses what was typed when the footer shows something
  else; a command that is being started then still returns and is listed.
\<close>

record terminal_page =
  tp_tab :: terminal_tab
  tp_composer :: "composer option"
  tp_left :: "composer list"

datatype terminal_page_event = On_terminal tab_event | On_composer composer_event | Exec_returns string int "thrown + CommandOutput"
  | Left_returns nat string int "thrown + CommandOutput"

definition mount_composer :: "terminal_page \<Rightarrow> terminal_page" where
  "mount_composer p = (case (tab_footer_of (tp_tab p), tp_composer p) of
     (Composer w _, None) \<Rightarrow> p\<lparr>tp_composer := Some (composer_init w)\<rparr>
   | (Composer w _, Some c) \<Rightarrow> p\<lparr>tp_composer := Some (composer_step c (Select_session w))\<rparr>
   | (_, None) \<Rightarrow> p
   | (_, Some c) \<Rightarrow> p\<lparr>tp_composer := None, tp_left := tp_left p @ [c]\<rparr>)"

definition launch_of :: "composer \<Rightarrow> string \<Rightarrow> int \<Rightarrow> thrown + CommandOutput \<Rightarrow> tab_event option" where
  "launch_of c uuid now answer = (case (cp_calls c, answer) of
     (r # _, Inr out) \<Rightarrow> Some (Launched uuid now (ex_cmd r) (ex_workspace_session_id r) out) | _ \<Rightarrow> None)"

definition deliver :: "tab_event option \<Rightarrow> terminal_page \<Rightarrow> terminal_page" where
  "deliver e p = (case e of None \<Rightarrow> p | Some ev \<Rightarrow> mount_composer (p\<lparr>tp_tab := tab_step (tp_tab p) ev\<rparr>))"

fun is_typing :: "composer_event \<Rightarrow> bool" where
  "is_typing (Edit_cmd _) = True"
| "is_typing (Edit_timeout _) = True"
| "is_typing Submit = True"
| "is_typing _ = False"

fun terminal_page_step :: "terminal_page \<Rightarrow> terminal_page_event \<Rightarrow> terminal_page" where
  "terminal_page_step p (On_terminal e) = mount_composer (p\<lparr>tp_tab := tab_step (tp_tab p) e\<rparr>)"
| "terminal_page_step p (On_composer e) = (if is_typing e then p\<lparr>tp_composer := map_option (\<lambda>c. composer_step c e) (tp_composer p)\<rparr> else p)"
| "terminal_page_step p (Exec_returns uuid now answer) = (case tp_composer p of None \<Rightarrow> p
     | Some c \<Rightarrow> deliver (launch_of c uuid now answer) (p\<lparr>tp_composer := Some (composer_step c (Exec_answered answer))\<rparr>))"
| "terminal_page_step p (Left_returns k uuid now answer) = (if k < length (tp_left p)
     then deliver (launch_of (tp_left p ! k) uuid now answer) (p\<lparr>tp_left := (tp_left p)[k := composer_step (tp_left p ! k) (Exec_answered answer)]\<rparr>) else p)"

definition terminal_page_init :: "string \<Rightarrow> browser_storage \<Rightarrow> string option \<Rightarrow> string option \<Rightarrow> terminal_page" where
  "terminal_page_init i storage session view = mount_composer \<lparr>tp_tab = tab_init i storage session view, tp_composer = None, tp_left = []\<rparr>"

datatype terminal_ui = Page_ui terminal_page_event | Sidebar_ui sidebar_event | Card_ui string card_page_event

definition terminal_footer_view :: "terminal_page \<Rightarrow> terminal_ui view" where
  "terminal_footer_view p = (case tab_footer_of (tp_tab p) of
     Choose_context \<Rightarrow> caption ''Choose a workspace session or Quick run to run a command.''
   | Session_unavailable failed \<Rightarrow> El ''alert'' [(''title'', if failed then ''Published; cleanup required'' else ''Workspace session is finalizing'')] []
       [Txt (if failed then ''Commands, files, and publishing are disabled. Use Finish cleanup beside the workspace session to close it.''
             else ''Commands are disabled while this workspace session is finalizing.'')]
   | Composer w workspace \<Rightarrow> (case tp_composer p of None \<Rightarrow> box ''fragment'' []
       | Some c \<Rightarrow> map_view (Page_ui \<circ> On_composer) (CommandComposer workspace c)))"

definition terminal_header :: "bool \<Rightarrow> terminal_tab \<Rightarrow> terminal_ui view" where
  "terminal_header narrow s = box ''header''
     (show_when narrow (El ''button'' [(''aria-label'', ''Open sessions'')] [(''click'', Send (Page_ui (On_terminal (Sessions_open True))))] [Txt ''Sessions'']) @
      [box ''h2'' [Txt ''Terminal ledger''], caption (''history: '' @ historyLabel s), caption (commandCountLabel s)])"

text \<open>A card on the page: its machine is its own, its toggle is the tab's.\<close>

definition ledger_view :: "(string \<Rightarrow> card_page_event view) \<Rightarrow> terminal_tab \<Rightarrow> terminal_ui view" where
  "ledger_view cards s = (if visibleLedger s = [] then box ''center'' [box ''h3'' [Txt ''No commands yet''], caption (emptyLedgerText s)]
     else box ''stack'' (map (\<lambda>e. map_view (Card_ui (en_localId e)) (cards (en_localId e))) (visibleLedger s)))"

definition TerminalTab :: "bool \<Rightarrow> sidebar \<Rightarrow> (string \<Rightarrow> card_page_event view) \<Rightarrow> terminal_page \<Rightarrow> terminal_ui view" where
  "TerminalTab narrow sidebar cards p = box ''flex''
     [map_view Sidebar_ui (SessionSidebar sidebar), terminal_header narrow (tp_tab p), ledger_view cards (tp_tab p), terminal_footer_view p]"

section \<open>What the page offers\<close>

lemma offered_Composer: "offered (CommandComposer workspace c) = insert Submit (range Edit_cmd \<union> range Edit_timeout)"
  by (auto simp: CommandComposer_def attr_on_def map_add_def split: option.splits)

lemma offered_footer: "offered (terminal_footer_view p) = (case (tab_footer_of (tp_tab p), tp_composer p) of
    (Composer w ws, Some c) \<Rightarrow> (Page_ui \<circ> On_composer) ` insert Submit (range Edit_cmd \<union> range Edit_timeout) | _ \<Rightarrow> {})"
  by (simp add: terminal_footer_view_def offered_map_view offered_Composer split: tab_footer.splits option.splits)

text \<open>Only an expanded card of a running command with a session takes input.\<close>

lemma stdin_needs_running:
  assumes "On_card Send_line \<in> offered (CommandCard virtual total_size scopes now expanded transcript s)"
  shows "expanded \<and> card_running s \<and> truthy_id (en_commandSessionId (cc_entry s))"
proof -
  have header: "offered (card_header now expanded (cc_entry s)) = {Card_toggle}"
    by (cases "card_status_of now (cc_entry s)") (auto simp: card_header_def attr_on_def attr_bool_def)
  have "offered (InlineTranscript t) = ({} :: card_page_event set)" for t by (auto simp: InlineTranscript_def)
  then have "card_stdin_shown True (cc_entry s)" if "On_card Send_line \<in> offered (card_frame virtual total_size scopes transcript s)"
    using that unfolding card_frame_def
    by (auto simp: offered_map_view preview_options_def Let_def split: card_body.splits option.splits if_splits)
  with assms header show ?thesis
    by (auto simp: CommandCard_def card_stdin_shown_def card_running_def split: if_splits)
qed

section \<open>Commands of the page\<close>

definition composers :: "terminal_page \<Rightarrow> composer set" where
  "composers p = set (tp_left p) \<union> set_option (tp_composer p)"

text \<open>The composer on screen runs commands where the footer says.\<close>

definition terminal_page_inv :: "terminal_page \<Rightarrow> bool" where
  "terminal_page_inv p = ((\<forall>c \<in> composers p. composer_inv c) \<and>
     (\<forall>c. tp_composer p = Some c \<longrightarrow> (\<exists>w ws. tab_footer_of (tp_tab p) = Composer w ws \<and> cp_workspaceSessionId c = w)))"

lemma composer_step_session:
  "cp_workspaceSessionId (composer_step c e) = (case e of Select_session w \<Rightarrow> w | _ \<Rightarrow> cp_workspaceSessionId c)"
  by (cases e) (auto simp: submit_def submit_done_def Let_def split: list.splits sum.splits)

lemma composer_init_ok: "composer_inv (composer_init w)" "cp_workspaceSessionId (composer_init w) = w"
  by (simp_all add: composer_inv_def composer_init_def)

lemma mount_inv:
  assumes "\<forall>c \<in> composers p. composer_inv c"
  shows "terminal_page_inv (mount_composer p)"
proof (cases "tab_footer_of (tp_tab p)")
  case (Composer w ws)
  then show ?thesis using assms composer_inv_step [of _ "Select_session w"]
    by (cases "tp_composer p") (auto simp: mount_composer_def terminal_page_inv_def composers_def composer_init_ok)
qed (use assms in \<open>cases "tp_composer p"; auto simp: mount_composer_def terminal_page_inv_def composers_def\<close>)+

lemma deliver_inv:
  assumes "terminal_page_inv p"
  shows "terminal_page_inv (deliver ev p)"
proof (cases ev)
  case (Some e)
  have "\<forall>c \<in> composers (p\<lparr>tp_tab := tab_step (tp_tab p) e\<rparr>). composer_inv c" using assms by (simp add: terminal_page_inv_def composers_def)
  then show ?thesis using mount_inv by (simp add: deliver_def Some)
qed (use assms in \<open>simp add: deliver_def\<close>)

interpretation terminal_page: event_machine terminal_page_step terminal_page_inv
proof
  fix p e
  assume inv: "terminal_page_inv p"
  have all: "\<forall>c \<in> composers p. composer_inv c" using inv by (simp add: terminal_page_inv_def)
  show "terminal_page_inv (terminal_page_step p e)"
  proof (cases e)
    case (On_terminal t)
    have "\<forall>c \<in> composers (p\<lparr>tp_tab := tab_step (tp_tab p) t\<rparr>). composer_inv c" using all by (simp add: composers_def)
    then show ?thesis using mount_inv by (simp add: On_terminal)
  next
    case (On_composer t)
    with inv show ?thesis using composer_inv_step [of _ t] composer_step_session [of _ t]
      by (cases t) (auto simp: terminal_page_inv_def composers_def)
  next
    case (Exec_returns uuid now answer)
    show ?thesis
    proof (cases "tp_composer p")
      case (Some c)
      let ?q = "p\<lparr>tp_composer := Some (composer_step c (Exec_answered answer))\<rparr>"
      have c: "composer_inv (composer_step c (Exec_answered answer))" using all Some by (intro composer_inv_step) (simp add: composers_def)
      then have "terminal_page_inv ?q"
        using inv Some by (auto simp: terminal_page_inv_def composers_def composer_step_session simp del: composer_step.simps)
      then show ?thesis using deliver_inv [of ?q] by (simp add: Exec_returns Some del: composer_step.simps)
    qed (use Exec_returns inv in simp)
  next
    case (Left_returns k uuid now answer)
    show ?thesis
    proof (cases "k < length (tp_left p)")
      case True
      let ?q = "p\<lparr>tp_left := (tp_left p)[k := composer_step (tp_left p ! k) (Exec_answered answer)]\<rparr>"
      have c: "composer_inv (composer_step (tp_left p ! k) (Exec_answered answer))" using all True by (intro composer_inv_step) (simp add: composers_def)
      have "terminal_page_inv ?q"
        using inv c set_update_subset_insert [of "tp_left p" k] by (auto simp: terminal_page_inv_def composers_def simp del: composer_step.simps)
      then show ?thesis using deliver_inv [of ?q] True by (simp add: Left_returns del: composer_step.simps)
    qed (use Left_returns inv in simp)
  qed
qed

lemma terminal_page_init_inv: "terminal_page_inv (terminal_page_init i storage session view)"
  unfolding terminal_page_init_def by (rule mount_inv) (simp add: composers_def)

lemma footer_composer:
  assumes "tab_footer_of s = Composer w ws"
  shows "w = (if tab_mode s = Mode_session then selectedSession s else None) \<and> tab_mode s \<noteq> Mode_all \<and>
    (tab_mode s = Mode_session \<longrightarrow> selectedFinalizationState s \<noteq> Some Finalizing \<and> selectedFinalizationState s \<noteq> Some Finalize_failed)"
  using assms by (auto simp: tab_footer_of_def split: if_splits option.splits WorkspaceFinalizationState.splits)

lemma launch_step:
  assumes "launch_of c uuid now (Inr out) = Some ev" "cp_calls c = r # rs"
  shows "tt_ledger (tab_step s ev) = tt_ledger s @ [entryFromExec uuid now (ex_cmd r) (ex_workspace_session_id r) out] \<and>
    uuid \<in> set (tt_expanded (tab_step s ev)) \<and> tt_sandboxId (tab_step s ev) = tt_sandboxId s"
proof -
  have ev: "ev = Launched uuid now (ex_cmd r) (ex_workspace_session_id r) out" using assms by (simp add: launch_of_def)
  have hash: "set (tt_expanded t) \<subseteq> set (tt_expanded (hash_effect t))" for t by (auto simp: hash_effect_def split: option.splits)
  have effects: "tt_expanded (tab_effects due t) = tt_expanded t" for due t by (auto simp: tab_effect_defs split: prod.splits)
  let ?t = "onLaunched uuid now (ex_cmd r) (ex_workspace_session_id r) out s"
  have t: "uuid \<in> set (tt_expanded ?t)" "tt_sandboxId ?t = tt_sandboxId s"
      "tt_ledger ?t = tt_ledger s @ [entryFromExec uuid now (ex_cmd r) (ex_workspace_session_id r) out]"
    by (simp_all add: onLaunched_def Let_def) (simp add: entryFromExec_def)
  then have "uuid \<in> set (tt_expanded (hash_effect ?t))" using hash by blast
  then show ?thesis using t by (simp add: ev tab_step_def effects)
qed

lemma mount_tab [simp]: "tp_tab (mount_composer p) = tp_tab p"
  by (auto simp: mount_composer_def split: tab_footer.splits option.splits)

lemma returned_launch:
  assumes "cp_calls c = r # rs" "q = deliver (launch_of c uuid now (Inr out)) p"
  shows "tt_ledger (tp_tab q) = tt_ledger (tp_tab p) @ [entryFromExec uuid now (ex_cmd r) (ex_workspace_session_id r) out] \<and>
    uuid \<in> set (tt_expanded (tp_tab q)) \<and> tt_sandboxId (tp_tab q) = tt_sandboxId (tp_tab p)"
proof -
  obtain ev where ev: "launch_of c uuid now (Inr out) = Some ev" using assms(1) by (simp add: launch_of_def)
  then show ?thesis using launch_step [OF ev assms(1)] by (simp add: assms(2) deliver_def)
qed

text \<open>
  A command that is still being started when the page turns to another sandbox is listed under that one: the callback appends to the
  ledger of the moment.
\<close>

lemma launch_listed_elsewhere:
  assumes "tp_composer p = Some c" "cp_calls c = [r]" "q = terminal_page_step p (On_terminal (Sandbox_changed ids t j snapshot))"
  shows "\<exists>e \<in> {Exec_returns uuid now (Inr out), Left_returns (length (tp_left p)) uuid now (Inr out)}.
    tt_sandboxId (tp_tab (terminal_page_step q e)) = j \<and>
    entryFromExec uuid now (ex_cmd r) (ex_workspace_session_id r) out \<in> set (tt_ledger (tp_tab (terminal_page_step q e)))"
proof -
  let ?s = "tab_step (tp_tab p) (Sandbox_changed ids t j snapshot)"
  have j: "tt_sandboxId ?s = j" by (simp add: tab_step_def sandbox_changed_def reconcile_effect_def save_effect_def Let_def)
  have q: "q = mount_composer (p\<lparr>tp_tab := ?s\<rparr>)" using assms(3) by simp
  show ?thesis
  proof (cases "tab_footer_of ?s")
    case (Composer w ws)
    let ?c = "composer_step c (Select_session w)"
    have "tp_composer q = Some ?c" "tp_tab q = ?s" by (simp_all add: q mount_composer_def Composer assms(1))
    moreover have "cp_calls ?c = r # []" by (simp add: assms(2))
    ultimately show ?thesis using returned_launch [OF \<open>cp_calls ?c = r # []\<close> refl, of uuid now out] j
      by (auto simp del: composer_step.simps)
  next
    case Choose_context
    then have "tp_left q = tp_left p @ [c]" "tp_tab q = ?s" by (simp_all add: q mount_composer_def assms(1))
    then show ?thesis using returned_launch [OF assms(2) refl, of uuid now out] j by (auto simp del: composer_step.simps)
  next
    case (Session_unavailable b)
    then have "tp_left q = tp_left p @ [c]" "tp_tab q = ?s" by (simp_all add: q mount_composer_def assms(1))
    then show ?thesis using returned_launch [OF assms(2) refl, of uuid now out] j by (auto simp del: composer_step.simps)
  qed
qed

section \<open>Properties\<close>

text \<open>
  C19: Commands run where the page says and are listed when they start.  Over any sequence of snapshots, selections, typing and
  answers: every composer, also one that left the screen, has at most one request in flight, and each of its requests has a trimmed
  command that is not empty and a timeout of 1 to 86400 whole seconds; the composer on screen sends its next request for the session that is selected, never for one
  that is known to be finalizing, and without a session only in the quick mode; and when the answer of a request arrives, whether its composer is still there
  or not, the command is appended to the ledger under its session and its card is open.
\<close>

theorem terminal_page_commands:
  assumes "p = run terminal_page_step (terminal_page_init i storage session view) es"
  shows "(\<forall>c \<in> composers p. length (cp_calls c) \<le> 1 \<and> (\<forall>r \<in> set (cp_sent c). ex_cmd r \<noteq> [] \<and> trim (ex_cmd r) = ex_cmd r \<and>
      1000 \<le> ex_timeout_ms r \<and> ex_timeout_ms r \<le> 86400000 \<and> ex_timeout_ms r mod 1000 = 0)) \<and>
    (\<forall>c r. tp_composer p = Some c \<and> cp_sent (submit c) = cp_sent c @ [r] \<longrightarrow>
      (case ex_workspace_session_id r of None \<Rightarrow> tab_mode (tp_tab p) = Mode_quick
       | Some j \<Rightarrow> selectedSession (tp_tab p) = Some j \<and> selectedFinalizationState (tp_tab p) \<notin> {Some Finalizing, Some Finalize_failed})) \<and>
    (\<forall>c r rs uuid now out e. cp_calls c = r # rs \<and> (tp_composer p = Some c \<and> e = Exec_returns uuid now (Inr out) \<or>
        (\<exists>k < length (tp_left p). tp_left p ! k = c \<and> e = Left_returns k uuid now (Inr out))) \<longrightarrow>
      tt_ledger (tp_tab (terminal_page_step p e)) = tt_ledger (tp_tab p) @ [entryFromExec uuid now (ex_cmd r) (ex_workspace_session_id r) out] \<and>
      uuid \<in> set (tt_expanded (tp_tab (terminal_page_step p e))))"
proof (intro conjI allI impI)
  have inv: "terminal_page_inv p" unfolding assms by (rule terminal_page.inv_run [OF terminal_page_init_inv])
  then show "\<forall>c \<in> composers p. length (cp_calls c) \<le> 1 \<and> (\<forall>r \<in> set (cp_sent c). ex_cmd r \<noteq> [] \<and> trim (ex_cmd r) = ex_cmd r \<and>
      1000 \<le> ex_timeout_ms r \<and> ex_timeout_ms r \<le> 86400000 \<and> ex_timeout_ms r mod 1000 = 0)"
    by (auto simp: terminal_page_inv_def composer_inv_def request_ok_def)
  fix c r
  assume c: "tp_composer p = Some c \<and> cp_sent (submit c) = cp_sent c @ [r]"
  obtain w ws where f: "tab_footer_of (tp_tab p) = Composer w ws" "cp_workspaceSessionId c = w"
    using inv c by (auto simp: terminal_page_inv_def)
  have r: "ex_workspace_session_id r = (if truthy_id w then w else None)" using c f(2) by (auto simp: submit_def Let_def split: if_splits)
  show "case ex_workspace_session_id r of None \<Rightarrow> tab_mode (tp_tab p) = Mode_quick
     | Some j \<Rightarrow> selectedSession (tp_tab p) = Some j \<and> selectedFinalizationState (tp_tab p) \<notin> {Some Finalizing, Some Finalize_failed}"
    using footer_composer [OF f(1)] r by (cases "tab_mode (tp_tab p)") (auto simp: tab_mode_def truthy_id_def split: if_splits option.splits)
next
  fix c r rs uuid now out e
  assume c: "cp_calls c = r # rs \<and> (tp_composer p = Some c \<and> e = Exec_returns uuid now (Inr out) \<or>
    (\<exists>k < length (tp_left p). tp_left p ! k = c \<and> e = Left_returns k uuid now (Inr out)))"
  then show "tt_ledger (tp_tab (terminal_page_step p e)) = tt_ledger (tp_tab p) @ [entryFromExec uuid now (ex_cmd r) (ex_workspace_session_id r) out]"
    "uuid \<in> set (tt_expanded (tp_tab (terminal_page_step p e)))"
    using returned_launch [of c r rs _ uuid now out] by (auto simp del: composer_step.simps)
qed

definition empty_browser :: browser_storage where
  "empty_browser = \<lparr>bs_readable = True, bs_writable = True, bs_items = []\<rparr>"

definition sample_terminal :: "terminal_page_event list" where
  "sample_terminal = [On_composer (Edit_cmd '' ls ''), On_composer Submit]"

lemma default_timeout: "valid_timeout ''300'' = Some 300"
  by (simp add: valid_timeout_def js_Number_def trim_def is_space_def is_digit_def startsWith_def based_literal_def unsigned_decimal_def digits_rat_def digits_value_def exponent_part_def scale10_def double_range_def max_double_bound_def)

lemma trim_ls: "trim '' ls '' = ''ls''"
  by code_simp

lemma sample_terminal_sends:
  "map_option (map ex_cmd \<circ> cp_calls) (tp_composer (run terminal_page_step (terminal_page_init ''a'' empty_browser None None) sample_terminal)) = Some [''ls'']"
  by (simp add: sample_terminal_def terminal_page_init_def mount_composer_def tab_footer_of_def tab_mode_def tab_init_def selectedSession_def
      composer_init_def submit_def timeoutError_def default_timeout trim_ls truthy_id_def Let_def)

theorem terminal_page_commands_witness:
  "\<exists>c r. tp_composer (run terminal_page_step (terminal_page_init ''a'' empty_browser None None) sample_terminal) = Some c \<and> cp_calls c = [r] \<and>
     ex_cmd r = ''ls'' \<and>
     tt_ledger (tp_tab (terminal_page_step (run terminal_page_step (terminal_page_init ''a'' empty_browser None None) sample_terminal)
       (Exec_returns ''u'' 0 (Inr (sample_output Cmd_running (Some ''c'')))))) =
     tt_ledger (tp_tab (run terminal_page_step (terminal_page_init ''a'' empty_browser None None) sample_terminal)) @
       [entryFromExec ''u'' 0 ''ls'' (ex_workspace_session_id r) (sample_output Cmd_running (Some ''c''))]"
proof -
  let ?p = "run terminal_page_step (terminal_page_init ''a'' empty_browser None None) sample_terminal"
  obtain c r where c: "tp_composer ?p = Some c" "cp_calls c = [r]" "ex_cmd r = ''ls''" using sample_terminal_sends by auto
  from terminal_page_commands [OF refl, of "''a''" empty_browser None None sample_terminal] c(1,2)
  have "tt_ledger (tp_tab (terminal_page_step ?p (Exec_returns ''u'' 0 (Inr (sample_output Cmd_running (Some ''c'')))))) =
    tt_ledger (tp_tab ?p) @ [entryFromExec ''u'' 0 (ex_cmd r) (ex_workspace_session_id r) (sample_output Cmd_running (Some ''c''))]" by blast
  with c show ?thesis by auto
qed

end
