(* ===== verification/Traces.thy ===== *)
theory Traces
  imports Observability_Api Js_Sort Js_Number Api_Types
begin

text \<open>
  The trace waterfall: \<^verbatim>\<open>web/src/pages/sandbox/observability/TracesView.tsx\<close>.  Which rows the
  virtualizer shows, the locale's number format and \<^verbatim>\<open>encodeURIComponent\<close> are parameters.
\<close>

section \<open>Trace discovery\<close>

record known_trace =
  kt_id :: string
  kt_ts :: int

definition discover :: "known_trace list \<times> string list \<Rightarrow> TraceEvent \<Rightarrow> known_trace list \<times> string list" where
  "discover = (\<lambda>(ordered, seen) event. if te_trace event \<in> set seen then (ordered, seen)
     else (ordered @ [\<lparr>kt_id = te_trace event, kt_ts = te_ts event\<rparr>], set_add (te_trace event) seen))"

definition newest_first :: "known_trace \<Rightarrow> known_trace \<Rightarrow> int" where
  "newest_first a b = kt_ts b - kt_ts a"

definition knownTraces :: "TraceEvent list \<Rightarrow> known_trace list" where
  "knownTraces events = js_sort newest_first (fst (foldl discover ([], []) events))"

definition trace_path :: "(string \<Rightarrow> string) \<Rightarrow> string \<Rightarrow> string" where
  "trace_path encodeURIComponent i = (if i = ''last'' then ''../traces'' else ''../traces/'' @ encodeURIComponent i)"

definition selectedTrace :: "string option \<Rightarrow> string" where
  "selectedTrace param = (case param of None \<Rightarrow> ''last'' | Some i \<Rightarrow> i)"

datatype trace_screen = Trace_unavailable string | Trace_waterfall string "TraceNode list" | Trace_loading

definition trace_screen_of :: "RpcError option \<Rightarrow> TraceResult option \<Rightarrow> trace_screen" where
  "trace_screen_of err result = (case err of
     Some e \<Rightarrow> Trace_unavailable (err_message e)
   | None \<Rightarrow> (case result of Some r \<Rightarrow> Trace_waterfall (tr_trace r) (tr_spans r) | None \<Rightarrow> Trace_loading))"

text \<open>The picker: a row for the last trace and one for each known trace; whether the row is the selected one.\<close>

definition picker_rows :: "string \<Rightarrow> known_trace list \<Rightarrow> (string \<times> bool) list" where
  "picker_rows selected known = (''last'', selected = ''last'') # map (\<lambda>k. (kt_id k, selected = kt_id k)) known"

section \<open>The waterfall\<close>

record FlatSpan =
  fl_depth :: nat
  fl_node :: TraceNode

text \<open>The loop with its explicit stack; the top of the stack is the end of the array.\<close>

definition stack_size :: "FlatSpan list \<Rightarrow> nat" where
  "stack_size stack = sum_list (map (\<lambda>r. size (fl_node r)) stack)"

lemma stack_size_pop:
  assumes "stack \<noteq> []" and that: "\<And>c. fl_node (f c) = c"
  shows "stack_size (butlast stack @ map f (rev (tn_children (fl_node (last stack))))) < stack_size stack"
proof -
  have "sum_list (map size (tn_children n)) < size n" for n
    by (cases n) (auto simp: size_list_conv_sum_list)
  then show ?thesis
    using assms(1) by (cases stack rule: rev_exhaust) (simp_all add: stack_size_def comp_def that rev_map [symmetric])
qed

function flatten_loop :: "FlatSpan list \<Rightarrow> FlatSpan list \<Rightarrow> FlatSpan list" where
  "flatten_loop stack flattened =
     (if stack = [] then flattened
      else let row = last stack
           in flatten_loop (butlast stack @ map (\<lambda>c. \<lparr>fl_depth = fl_depth row + 1, fl_node = c\<rparr>) (rev (tn_children (fl_node row))))
                (flattened @ [row]))"
  by auto
termination
  by (relation "measure (\<lambda>(stack, _). stack_size stack)") (auto intro: stack_size_pop)

declare flatten_loop.simps [simp del]

definition flatten :: "TraceNode list \<Rightarrow> FlatSpan list" where
  "flatten nodes = flatten_loop (map (\<lambda>n. \<lparr>fl_depth = 0, fl_node = n\<rparr>) (rev nodes)) []"

definition span_duration :: "TraceNode \<Rightarrow> rat" where
  "span_duration n = (case sp_dur_ms (tn_span n) of None \<Rightarrow> 0 | Some d \<Rightarrow> d)"

definition totalMs :: "FlatSpan list \<Rightarrow> rat" where
  "totalMs rows = foldl max 1 (map (\<lambda>r. tn_offset_ms (fl_node r) + span_duration (fl_node r)) rows)"

definition toggle_span :: "string \<Rightarrow> string list \<Rightarrow> string list" where
  "toggle_span i opened = (if i \<in> set opened then set_delete i opened else set_add i opened)"

definition renderedRows :: "nat list \<Rightarrow> FlatSpan list \<Rightarrow> nat list" where
  "renderedRows virtual rows = (if virtual \<noteq> [] then virtual else [0..<min (length rows) 20])"

definition waterfall_caption :: "(nat \<Rightarrow> string) \<Rightarrow> FlatSpan list \<Rightarrow> string" where
  "waterfall_caption toLocaleString rows =
     ''total '' @ toFixed 0 (totalMs rows) @ ''ms '' @ [CHR 0xB7] @ '' '' @ toLocaleString (length rows) @ '' spans''"

section \<open>Rows\<close>

definition STATUS_COLORS :: "(string \<times> string) list" where
  "STATUS_COLORS = [(''completed'', ''var(--mantine-color-success-6)''), (''error'', ''var(--mantine-color-danger-6)''),
     (''cancelled'', ''var(--mantine-color-neutral-6)''), (''timed_out'', ''var(--mantine-color-warning-6)'')]"

definition status_color :: "string \<Rightarrow> string" where
  "status_color st = (case map_of STATUS_COLORS st of Some c \<Rightarrow> c | None \<Rightarrow> ''var(--mantine-color-neutral-6)'')"

definition bar_left :: "rat \<Rightarrow> FlatSpan \<Rightarrow> rat" where
  "bar_left total_ms row = (tn_offset_ms (fl_node row) / total_ms) * 100"

definition bar_width :: "rat \<Rightarrow> FlatSpan \<Rightarrow> rat" where
  "bar_width total_ms row = max ((span_duration (fl_node row) / total_ms) * 100) (1 / 2)"

definition flag_left :: "rat \<Rightarrow> TraceEventNode \<Rightarrow> rat" where
  "flag_left total_ms e = min (max ((ten_offset_ms e / total_ms) * 100) 0) 99"

definition bar_title :: "FlatSpan \<Rightarrow> string" where
  "bar_title row = sp_name (tn_span (fl_node row)) @ [CHR '' '', CHR 0xB7, CHR '' ''] @ toFixed 1 (span_duration (fl_node row)) @ ''ms'' @
     [CHR '' '', CHR 0xB7, CHR '' ''] @ sp_status (tn_span (fl_node row))"

text \<open>An attribute's text, and the attributes shown under an open row.\<close>

definition SpanAttr :: "json \<Rightarrow> string" where
  "SpanAttr v = (case v of JStr s \<Rightarrow> s | _ \<Rightarrow> JSON_stringify v)"

definition shown_attrs :: "string list \<Rightarrow> FlatSpan \<Rightarrow> (string \<times> string) list" where
  "shown_attrs opened row = (let span = tn_span (fl_node row) in
     if sp_span span \<in> set opened then map (\<lambda>(n, v). (n, SpanAttr v)) (sp_attrs span) else [])"

definition traceLink :: "(string \<Rightarrow> string) \<Rightarrow> string \<Rightarrow> string \<Rightarrow> string" where
  "traceLink encodeURIComponent sandboxId traceId =
     ''/sandboxes/'' @ encodeURIComponent sandboxId @ ''/observability/traces/'' @ encodeURIComponent traceId"

definition TraceCell :: "string \<Rightarrow> string" where
  "TraceCell traceId = (if 12 < length traceId then take 12 traceId @ [CHR 0xE2, CHR 0x80, CHR 0xA6] else traceId)"

section \<open>The order of the rows\<close>

text \<open>The reference: every node before its children, which follow in order one level deeper.\<close>

fun preorder :: "nat \<Rightarrow> TraceNode \<Rightarrow> FlatSpan list" where
  "preorder d (TraceNode sp off cs evs) =
     \<lparr>fl_depth = d, fl_node = TraceNode sp off cs evs\<rparr> # concat (map (preorder (Suc d)) cs)"

lemma preorder_node: "preorder d n = \<lparr>fl_depth = d, fl_node = n\<rparr> # concat (map (preorder (Suc d)) (tn_children n))"
  by (cases n) simp

lemma flatten_loop_preorder:
  "flatten_loop stack flattened = flattened @ concat (map (\<lambda>r. preorder (fl_depth r) (fl_node r)) (rev stack))"
proof (induction stack flattened rule: flatten_loop.induct)
  case (1 stack flattened)
  show ?case
  proof (cases stack rule: rev_cases)
    case Nil
    then show ?thesis by (simp add: flatten_loop.simps)
  next
    case (snoc rest row)
    have kids: "preorder (fl_depth row) (fl_node row) = row # concat (map (preorder (Suc (fl_depth row))) (tn_children (fl_node row)))"
      by (subst preorder_node) simp
    from snoc 1 show ?thesis
      by (subst flatten_loop.simps) (simp add: rev_map comp_def kids)
  qed
qed

lemma flatten_preorder: "flatten nodes = concat (map (preorder 0) nodes)"
  by (simp add: flatten_def flatten_loop_preorder rev_map comp_def)

fun spans_of :: "TraceNode \<Rightarrow> TraceSpan list" where
  "spans_of (TraceNode sp off cs evs) = sp # concat (map spans_of cs)"

lemma preorder_spans: "map (tn_span \<circ> fl_node) (preorder d n) = spans_of n"
proof (induction n arbitrary: d rule: spans_of.induct)
  case (1 sp off cs evs)
  have "map (tn_span \<circ> fl_node) (concat (map (preorder (Suc d)) cs)) = concat (map spans_of cs)"
    using 1 by (simp add: map_concat comp_def cong: map_cong)
  then show ?case by (simp add: comp_def)
qed

section \<open>Scale\<close>

lemma percent_sum: "a + b \<le> 1 \<Longrightarrow> a * 100 + b * 100 \<le> 100" for a b :: rat
  by linarith

lemma foldl_max: "a \<le> foldl max a xs \<and> (\<forall>x \<in> set xs. x \<le> foldl max a xs)" for a :: rat
proof (induction xs arbitrary: a)
  case (Cons x xs)
  from Cons.IH [of "max a x"] show ?case by (auto intro: order_trans)
qed simp

lemma totalMs_bounds: "1 \<le> totalMs rows" "r \<in> set rows \<Longrightarrow> tn_offset_ms (fl_node r) + span_duration (fl_node r) \<le> totalMs rows"
  using foldl_max [of 1 "map (\<lambda>r. tn_offset_ms (fl_node r) + span_duration (fl_node r)) rows"] by (auto simp: totalMs_def)

section \<open>Discovery\<close>

interpretation newest: key_comparator newest_first "\<lambda>k. - kt_ts k"
  by unfold_locales (auto simp: newest_first_def)

definition discovered :: "TraceEvent list \<Rightarrow> known_trace list \<Rightarrow> bool" where
  "discovered events ks = (distinct (map kt_id ks) \<and> kt_id ` set ks = te_trace ` set events \<and>
     (\<forall>k \<in> set ks. \<exists>e. find (\<lambda>e. te_trace e = kt_id k) events = Some e \<and> kt_ts k = te_ts e))"

lemma find_snoc: "find P (xs @ [x]) = (case find P xs of Some y \<Rightarrow> Some y | None \<Rightarrow> if P x then Some x else None)"
  by (induction xs) auto

lemma discover_events:
  "discovered events (fst (foldl discover ([], []) events)) \<and> set (snd (foldl discover ([], []) events)) = te_trace ` set events"
proof (induction events rule: rev_induct)
  case Nil
  show ?case by (simp add: discovered_def)
next
  case (snoc e events)
  obtain ks seen where ks: "foldl discover ([], []) events = (ks, seen)" by fastforce
  have fresh: "find (\<lambda>x. te_trace x = te_trace e) events = None" if "te_trace e \<notin> te_trace ` set events"
    using that unfolding find_None_iff by (metis imageI)
  from snoc ks fresh show ?case
    by (auto simp: discover_def discovered_def find_snoc split: option.splits)
qed

section \<open>Properties\<close>

definition sample_node :: TraceNode where
  "sample_node = TraceNode \<lparr>sp_ts = 0, sp_trace = ''t'', sp_span = ''s'', sp_name = ''n'', sp_dur_ms = Some 5, sp_status = ''completed'', sp_attrs = []\<rparr> 2 [] []"

text \<open>
  C25: The waterfall shows every span of the trace exactly once, in the order of the tree: the loop
  with its explicit stack ends, its rows are the preorder of the roots with the depth of each node,
  and the spans read off the rows are the spans of the trace.
\<close>

theorem flatten_is_preorder:
  "flatten nodes = concat (map (preorder 0) nodes) \<and> map (tn_span \<circ> fl_node) (flatten nodes) = concat (map spans_of nodes)"
  by (simp add: flatten_preorder map_concat comp_def preorder_spans [unfolded comp_def])

text \<open>
  Bars stay inside the waterfall.  For spans with offsets and durations that are not negative, the
  scale is positive, a bar starts at 0 percent or later and its true extent ends at 100 percent or
  earlier; its drawn width is at least half a percent; and a flag is drawn between 0 and 99 percent
  whatever its event's offset is.
\<close>

lemma waterfall_bars_fit:
  assumes "row \<in> set rows" "0 \<le> tn_offset_ms (fl_node row)" "0 \<le> span_duration (fl_node row)"
  shows "0 \<le> bar_left (totalMs rows) row \<and>
    bar_left (totalMs rows) row + span_duration (fl_node row) / totalMs rows * 100 \<le> 100 \<and>
    1 / 2 \<le> bar_width (totalMs rows) row \<and> bar_width (totalMs rows) row \<le> 100 \<and>
    0 \<le> flag_left (totalMs rows) e \<and> flag_left (totalMs rows) e \<le> 99"
proof -
  let ?t = "totalMs rows" and ?o = "tn_offset_ms (fl_node row)" and ?d = "span_duration (fl_node row)"
  have t: "0 < ?t" "?o + ?d \<le> ?t" using totalMs_bounds(1) [of rows] totalMs_bounds(2) [OF assms(1)] by auto
  then have "?o / ?t + ?d / ?t \<le> 1" by (simp flip: add_divide_distrib)
  then have e: "?o / ?t * 100 + ?d / ?t * 100 \<le> 100" by (rule percent_sum)
  have l: "0 \<le> ?o / ?t * 100" using t(1) assms(2) by simp
  have w: "?d / ?t * 100 \<le> 100" using e l by linarith
  show ?thesis unfolding bar_left_def bar_width_def flag_left_def using e l w by simp
qed

lemma waterfall_bars_fit_witness:
  "bar_width (totalMs [\<lparr>fl_depth = 0, fl_node = sample_node\<rparr>]) \<lparr>fl_depth = 0, fl_node = sample_node\<rparr> \<le> 100"
  using waterfall_bars_fit [of "\<lparr>fl_depth = 0, fl_node = sample_node\<rparr>" "[\<lparr>fl_depth = 0, fl_node = sample_node\<rparr>]" undefined]
  by (simp add: sample_node_def span_duration_def)

text \<open>
  The picker lists every trace of the recent events exactly once, newest first, each with the time
  of the first event listed for it.
\<close>

lemma knownTraces_complete:
  "distinct (map kt_id (knownTraces events)) \<and> kt_id ` set (knownTraces events) = te_trace ` set events \<and>
   sorted_wrt (\<lambda>a b. kt_ts b \<le> kt_ts a) (knownTraces events) \<and>
   (\<forall>k. k \<in> set (knownTraces events) \<longrightarrow> (\<exists>e. find (\<lambda>e. te_trace e = kt_id k) events = Some e \<and> kt_ts k = te_ts e))"
proof -
  let ?ks = "fst (foldl discover ([], []) events)"
  have d: "discovered events ?ks" using discover_events by blast
  have "mset (map kt_id (knownTraces events)) = mset (map kt_id ?ks)" by (simp add: knownTraces_def)
  then have "distinct (map kt_id (knownTraces events)) = distinct (map kt_id ?ks)" by (metis distinct_count_atmost_1 set_mset_mset)
  moreover have "sorted_wrt (\<lambda>a b. kt_ts b \<le> kt_ts a) (knownTraces events)"
    using newest.sorted_js_sort [of ?ks] by (simp add: knownTraces_def newest_first_def)
  ultimately show ?thesis using d by (simp add: knownTraces_def discovered_def)
qed

lemma knownTraces_complete_witness:
  "kt_id ` set (knownTraces [\<lparr>te_ts = 1, te_trace = ''t'', te_parent = None, te_name = ''n'', te_attrs = []\<rparr>]) = {''t''}"
  using knownTraces_complete [of "[\<lparr>te_ts = 1, te_trace = ''t'', te_parent = None, te_name = ''n'', te_attrs = []\<rparr>]"] by simp

end
