(* ===== verification/Routes.thy ===== *)
theory Routes
  imports Shell_Frame Traces Blame
begin

text \<open>
  The route table of \<^verbatim>\<open>web/src/App.tsx\<close> and the links of the console that lead into it.  A path is the list of its
  segments; a static segment of a pattern fits in any case of letters, as the router's default is, and \<^verbatim>\<open>:name\<close> fits any
  segment.  No path fits two patterns, so the router's ranking of routes does not matter.  What the console relies on of
  \<^verbatim>\<open>encodeURIComponent\<close> and its inverse is \<open>uri_codec\<close>.
\<close>

section \<open>The table\<close>

datatype route_element = Dashboard_page | To_index string | Terminal_page | Files_page | Legacy_layers | Preview_page
  | Resources_view | Daemon_view | Processes_view | Traces_view | Events_view_page | Layers_view | Not_found

definition ROUTES :: "(string list \<times> route_element) list" where
  "ROUTES = (let sandbox = [''sandboxes'', '':sandboxId'']; observability = sandbox @ [''observability''] in
     [([], Dashboard_page),
      (sandbox, To_index ''terminal''),
      (sandbox @ [''terminal''], Terminal_page),
      (sandbox @ [''files''], Files_page),
      (sandbox @ [''layerstack''], Legacy_layers),
      (sandbox @ [''preview''], Preview_page),
      (observability, To_index ''resources''),
      (observability @ [''resources''], Resources_view),
      (observability @ [''daemon''], Daemon_view),
      (observability @ [''cgroup''], Processes_view),
      (observability @ [''traces''], Traces_view),
      (observability @ [''traces'', '':traceId''], Traces_view),
      (observability @ [''events''], Events_view_page),
      (observability @ [''layerstack''], Layers_view)])"

definition seg_fits :: "string \<Rightarrow> string \<Rightarrow> bool" where
  "seg_fits p g = (if startsWith p '':'' then g \<noteq> [] else toLowerCase p = toLowerCase g)"

definition fits :: "string list \<Rightarrow> string list \<Rightarrow> bool" where
  "fits pat segs = list_all2 seg_fits pat segs"

definition route_of :: "string list \<Rightarrow> route_element" where
  "route_of segs = (case find (\<lambda>r. fits (fst r) segs) ROUTES of None \<Rightarrow> Not_found | Some r \<Rightarrow> snd r)"

text \<open>The parameters of a path that fits a pattern, decoded; a malformed escape stays as it is.\<close>

definition route_params :: "(string \<Rightarrow> string option) \<Rightarrow> string list \<Rightarrow> string list \<Rightarrow> (string \<times> string) list" where
  "route_params decode pat segs = map (\<lambda>(p, g). (tl p, decodePathSegment decode g)) (filter (\<lambda>(p, g). startsWith p '':'') (zip pat segs))"

definition uri_codec :: "(string \<Rightarrow> string) \<Rightarrow> (string \<Rightarrow> string option) \<Rightarrow> bool" where
  "uri_codec encode decode = (\<forall>s. decode (encode s) = Some s \<and> CHR ''/'' \<notin> set (encode s) \<and> (s \<noteq> [] \<longrightarrow> encode s \<noteq> [] \<and> decode s \<noteq> Some []))"

section \<open>Redirects\<close>

text \<open>Where a redirect leads: an index route to its first child, the old page of the layers to the new one.\<close>

definition redirected :: "(string \<Rightarrow> string) \<Rightarrow> (string \<Rightarrow> string option) \<Rightarrow> string list \<Rightarrow> string list option" where
  "redirected encode decode segs = (case route_of segs of
     To_index child \<Rightarrow> Some (segs @ [child])
   | Legacy_layers \<Rightarrow> Some [''sandboxes'', encode (decodePathSegment decode (segs ! 1)), ''observability'', ''layerstack'']
   | _ \<Rightarrow> None)"

section \<open>Laws of the table\<close>

lemma seg_fits_simps [simp]: "seg_fits (CHR '':'' # n) g \<longleftrightarrow> g \<noteq> []" "c \<noteq> CHR '':'' \<Longrightarrow> seg_fits (c # p) g \<longleftrightarrow> toLowerCase (c # p) = toLowerCase g"
  by (simp_all add: seg_fits_def startsWith_def)

lemma fits_simps [simp]: "fits [] segs \<longleftrightarrow> segs = []" "fits (p # ps) [] \<longleftrightarrow> False" "fits (p # ps) (g # gs) \<longleftrightarrow> seg_fits p g \<and> fits ps gs"
  by (auto simp: fits_def)

text \<open>Two patterns are apart when they have different lengths, or different static segments in one place.\<close>

definition apart :: "string list \<Rightarrow> string list \<Rightarrow> bool" where
  "apart p q = (length p \<noteq> length q \<or> list_ex (\<lambda>(a, b). \<not> startsWith a '':'' \<and> \<not> startsWith b '':'' \<and> toLowerCase a \<noteq> toLowerCase b) (zip p q))"

lemma apart_not_both:
  assumes "apart p q" "fits p segs"
  shows "\<not> fits q segs"
proof
  assume q: "fits q segs"
  then have len: "length p = length segs" "length q = length segs" using assms(2) by (auto simp: fits_def dest: list_all2_lengthD)
  with assms(1) obtain k where k: "k < length segs" "\<not> startsWith (p ! k) '':''" "\<not> startsWith (q ! k) '':''" "toLowerCase (p ! k) \<noteq> toLowerCase (q ! k)"
    by (auto simp: apart_def list_ex_iff set_zip)
  have "seg_fits (p ! k) (segs ! k)" "seg_fits (q ! k) (segs ! k)"
    using assms(2) q k(1) len by (auto simp: fits_def list_all2_conv_all_nth)
  with k(2-) show False by (simp add: seg_fits_def)
qed

lemma lower_segments: "toLowerCase ''sandboxes'' = ''sandboxes''" "toLowerCase ''observability'' = ''observability''" "toLowerCase ''terminal'' = ''terminal''" "toLowerCase ''files'' = ''files''" "toLowerCase ''layerstack'' = ''layerstack''"
  "toLowerCase ''preview'' = ''preview''" "toLowerCase ''resources'' = ''resources''" "toLowerCase ''daemon'' = ''daemon''" "toLowerCase ''cgroup'' = ''cgroup''" "toLowerCase ''traces'' = ''traces''" "toLowerCase ''events'' = ''events''"
  by (simp_all add: toLowerCase_def lower_char_def)

lemma routes_apart: "sorted_wrt apart (map fst ROUTES)"
  by (simp add: ROUTES_def apart_def startsWith_def lower_segments)

lemma routes_unambiguous:
  assumes "i < j" "j < length ROUTES" "fits (fst (ROUTES ! i)) segs"
  shows "\<not> fits (fst (ROUTES ! j)) segs"
  using apart_not_both sorted_wrt_nth_less [OF routes_apart assms(1)] assms by simp

lemma route_of_fits:
  assumes "r \<in> set ROUTES" "fits (fst r) segs"
  shows "route_of segs = snd r"
proof -
  obtain j where j: "j < length ROUTES" "ROUTES ! j = r" using assms(1) by (auto simp: in_set_conv_nth)
  have "\<not> fits (fst (ROUTES ! i)) segs" if "i < j" for i using routes_unambiguous [OF that j(1)] j(2) assms(2) by blast
  then have "find (\<lambda>r. fits (fst r) segs) ROUTES = Some r"
    using j assms(2) by (auto simp: find_Some_iff)
  then show ?thesis by (simp add: route_of_def)
qed

section \<open>Links\<close>

definition final_page :: "(string \<Rightarrow> string) \<Rightarrow> (string \<Rightarrow> string option) \<Rightarrow> string list \<Rightarrow> route_element" where
  "final_page encode decode segs = (case redirected encode decode segs of None \<Rightarrow> route_of segs | Some t \<Rightarrow> route_of t)"

fun is_redirect :: "route_element \<Rightarrow> bool" where
  "is_redirect (To_index _) = True"
| "is_redirect Legacy_layers = True"
| "is_redirect _ = False"

lemma sandbox_parts:
  assumes "sb \<noteq> []" "CHR ''/'' \<notin> set sb"
  shows "path_parts (''/sandboxes/'' @ sb @ ''/'' @ tail) = ''sandboxes'' # sb # path_parts tail" "path_parts (''/sandboxes/'' @ sb) = [''sandboxes'', sb]"
proof -
  have p: "''/sandboxes/'' @ sb @ ''/'' @ tail = CHR ''/'' # ''sandboxes'' @ CHR ''/'' # sb @ CHR ''/'' # tail"
    and q: "''/sandboxes/'' @ sb = CHR ''/'' # ''sandboxes'' @ CHR ''/'' # sb" by simp_all
  have "split_on (CHR ''/'') (''/sandboxes/'' @ sb @ ''/'' @ tail) = [] # ''sandboxes'' # sb # split_on (CHR ''/'') tail"
    unfolding p using assms(2) by (simp add: split_on_append_any split_on_no_sep split_on.simps(2) del: append.simps(2))
  then show "path_parts (''/sandboxes/'' @ sb @ ''/'' @ tail) = ''sandboxes'' # sb # path_parts tail" using assms(1) by (simp add: path_parts_def)
  have "split_on (CHR ''/'') (''/sandboxes/'' @ sb) = [[], ''sandboxes'', sb]"
    unfolding q using assms(2) by (simp add: split_on_append_any split_on_no_sep split_on.simps(2) del: append.simps(2))
  then show "path_parts (''/sandboxes/'' @ sb) = [''sandboxes'', sb]" using assms(1) by (simp add: path_parts_def)
qed

lemma static_route:
  assumes "(''sandboxes'' # '':sandboxId'' # rest, page) \<in> set ROUTES" "list_all (\<lambda>p. \<not> startsWith p '':'') rest" "sb \<noteq> []"
  shows "route_of (''sandboxes'' # sb # rest) = page"
proof -
  have "fits rest rest" using assms(2) by (auto simp: fits_def list_all2_same list_all_iff seg_fits_def)
  with assms(3) have "fits (''sandboxes'' # '':sandboxId'' # rest) (''sandboxes'' # sb # rest)" by simp
  with route_of_fits [OF assms(1)] show ?thesis by simp
qed

lemma sandbox_routes:
  assumes "sb \<noteq> []"
  shows "route_of [''sandboxes'', sb] = To_index ''terminal''" "route_of [''sandboxes'', sb, ''terminal''] = Terminal_page"
    "route_of [''sandboxes'', sb, ''files''] = Files_page" "route_of [''sandboxes'', sb, ''layerstack''] = Legacy_layers"
    "route_of [''sandboxes'', sb, ''preview''] = Preview_page" "route_of [''sandboxes'', sb, ''observability''] = To_index ''resources''"
    "route_of [''sandboxes'', sb, ''observability'', ''resources''] = Resources_view" "route_of [''sandboxes'', sb, ''observability'', ''daemon''] = Daemon_view"
    "route_of [''sandboxes'', sb, ''observability'', ''cgroup''] = Processes_view" "route_of [''sandboxes'', sb, ''observability'', ''traces''] = Traces_view"
    "route_of [''sandboxes'', sb, ''observability'', ''events''] = Events_view_page" "route_of [''sandboxes'', sb, ''observability'', ''layerstack''] = Layers_view"
  by (rule static_route; simp add: ROUTES_def startsWith_def assms)+

lemma trace_route:
  assumes "sb \<noteq> []" "i \<noteq> []"
  shows "route_of [''sandboxes'', sb, ''observability'', ''traces'', i] = Traces_view"
  using route_of_fits [of "([''sandboxes'', '':sandboxId'', ''observability'', ''traces'', '':traceId''], Traces_view)"] assms
  by (simp add: ROUTES_def)

lemma routes_cases:
  assumes "route_of segs \<noteq> Not_found"
  shows "\<exists>r \<in> set ROUTES. fits (fst r) segs \<and> route_of segs = snd r"
proof (cases "find (\<lambda>r. fits (fst r) segs) ROUTES")
  case None
  with assms show ?thesis by (simp add: route_of_def)
next
  case (Some r)
  then have "r \<in> set ROUTES" "fits (fst r) segs" by (auto simp: find_Some_iff)
  with Some show ?thesis by (auto simp: route_of_def)
qed

lemma index_child:
  assumes "fits pat segs" "(pat @ [child], page) \<in> set ROUTES" "\<not> startsWith child '':''"
  shows "route_of (segs @ [child]) = page"
proof -
  have "fits (pat @ [child]) (segs @ [child])" using assms(1,3) by (simp add: fits_def seg_fits_def list_all2_appendI)
  with route_of_fits [OF assms(2)] show ?thesis by simp
qed

text \<open>A redirect leads to a page, never to another redirect.\<close>

lemma redirects_end:
  assumes "uri_codec encode decode" "redirected encode decode segs = Some t"
  shows "\<not> is_redirect (route_of t) \<and> route_of t \<noteq> Not_found"
proof -
  have "route_of segs \<noteq> Not_found" using assms(2) by (auto simp: redirected_def)
  from routes_cases [OF this] obtain pat page where r: "(pat, page) \<in> set ROUTES" "fits pat segs" "route_of segs = page" by auto
  consider child where "page = To_index child" | "page = Legacy_layers"
    using assms(2) r(3) by (auto simp: redirected_def split: route_element.splits)
  then show ?thesis
  proof cases
    case 1
    then have t: "t = segs @ [child]" using assms(2) r(3) by (simp add: redirected_def)
    from 1 r(1) have "child = ''terminal'' \<and> (pat @ [child], Terminal_page) \<in> set ROUTES \<or> child = ''resources'' \<and> (pat @ [child], Resources_view) \<in> set ROUTES"
      by (auto simp: ROUTES_def)
    then show ?thesis using index_child [OF r(2), of child Terminal_page] index_child [OF r(2), of child Resources_view] t by (auto simp: startsWith_def)
  next
    case 2
    then have pat: "pat = [''sandboxes'', '':sandboxId'', ''layerstack'']" using r(1) by (simp add: ROUTES_def)
    then obtain a sb c where segs: "segs = [a, sb, c]" "sb \<noteq> []" using r(2) by (cases segs; cases "tl segs"; cases "tl (tl segs)") auto
    have "decodePathSegment decode sb \<noteq> []" using assms(1) segs(2) by (auto simp: uri_codec_def decodePathSegment_def split: option.splits)
    then have "encode (decodePathSegment decode sb) \<noteq> []" using assms(1) by (simp add: uri_codec_def)
    moreover have "t = [''sandboxes'', encode (decodePathSegment decode sb), ''observability'', ''layerstack'']"
      using assms(2) r(3) 2 segs(1) by (simp add: redirected_def)
    ultimately show ?thesis by (simp add: sandbox_routes)
  qed
qed

text \<open>The page that each entry of the navigation opens.\<close>

definition NAV_PAGES :: "(string \<times> route_element) list" where
  "NAV_PAGES = [(''Terminal'', Terminal_page), (''Files'', Files_page), (''Observability'', Resources_view), (''Resources'', Resources_view),
     (''Daemon'', Daemon_view), (''Processes'', Processes_view), (''Traces'', Traces_view), (''Events'', Events_view_page), (''Layers'', Layers_view),
     (''Preview'', Preview_page)]"

lemma nav_entry_lands:
  assumes "(label, tail, nested) \<in> set NAV_ENTRIES" "sb \<noteq> []" "CHR ''/'' \<notin> set sb"
  defines "p \<equiv> ''/sandboxes/'' @ sb @ ''/'' @ tail"
  shows "map_of NAV_PAGES label = Some (final_page encode decode (path_parts p))"
    and "cr_label (last (crumbs decode p)) = label" and "path_parts p ! 1 = sb"
proof -
  have parts: "path_parts p = ''sandboxes'' # sb # path_parts tail" unfolding p_def using assms(2,3) by (rule sandbox_parts)
  then show "path_parts p ! 1 = sb" by simp
  have tails: "path_parts ''terminal'' = [''terminal'']" "path_parts ''files'' = [''files'']" "path_parts ''observability'' = [''observability'']"
    "path_parts ''preview'' = [''preview'']" "path_parts ''observability/resources'' = [''observability'', ''resources'']"
    "path_parts ''observability/daemon'' = [''observability'', ''daemon'']" "path_parts ''observability/cgroup'' = [''observability'', ''cgroup'']"
    "path_parts ''observability/traces'' = [''observability'', ''traces'']" "path_parts ''observability/events'' = [''observability'', ''events'']"
    "path_parts ''observability/layerstack'' = [''observability'', ''layerstack'']"
    by (simp_all add: path_parts_def)
  show "map_of NAV_PAGES label = Some (final_page encode decode (path_parts p))"
  proof -
    have "list_all (\<lambda>(l, t, _). map_of NAV_PAGES l = Some (final_page encode decode (''sandboxes'' # sb # path_parts t))) NAV_ENTRIES"
      using assms(2) by (simp add: NAV_ENTRIES_def NAV_PAGES_def tails final_page_def redirected_def sandbox_routes)
    with assms(1) show ?thesis unfolding parts list_all_iff by fastforce
  qed
  show "cr_label (last (crumbs decode p)) = label"
  proof -
    have "list_all (\<lambda>(l, t, _). \<forall>q. path_parts q = ''sandboxes'' # sb # path_parts t \<longrightarrow> cr_label (last (crumbs decode q)) = l) NAV_ENTRIES"
      by (simp add: NAV_ENTRIES_def tails crumbs_def TAB_LABELS_def OBSERVABILITY_LABELS_def)
    with assms(1) parts show ?thesis unfolding list_all_iff by fastforce
  qed
qed

section \<open>Properties\<close>

text \<open>The picker's relative addresses are resolved against the route of the tab, whose path has three segments.\<close>

definition resolve_in_tab :: "string \<Rightarrow> string \<Rightarrow> string" where
  "resolve_in_tab sb address = ''/sandboxes/'' @ sb @ ''/observability'' @ drop 2 address"

lemma trace_parts:
  assumes "sb \<noteq> []" "CHR ''/'' \<notin> set sb" "i \<noteq> []" "CHR ''/'' \<notin> set i"
  shows "path_parts (''/sandboxes/'' @ sb @ ''/observability/traces/'' @ i) = [''sandboxes'', sb, ''observability'', ''traces'', i]"
    and "path_parts (''/sandboxes/'' @ sb @ ''/observability/traces'') = [''sandboxes'', sb, ''observability'', ''traces'']"
proof -
  have "split_on (CHR ''/'') (''observability'' @ CHR ''/'' # ''traces'' @ CHR ''/'' # i) = [''observability'', ''traces'', i]"
    using assms(4) by (simp add: split_on_append_any split_on_no_sep split_on.simps(2) del: append.simps(2))
  then have t: "path_parts (''observability/traces/'' @ i) = [''observability'', ''traces'', i]" using assms(3) by (simp add: path_parts_def)
  have "path_parts (''/sandboxes/'' @ sb @ ''/'' @ ''observability/traces/'' @ i) = ''sandboxes'' # sb # [''observability'', ''traces'', i]"
    unfolding t [symmetric] using assms(1,2) by (rule sandbox_parts)
  then show "path_parts (''/sandboxes/'' @ sb @ ''/observability/traces/'' @ i) = [''sandboxes'', sb, ''observability'', ''traces'', i]" by simp
  have "path_parts (''/sandboxes/'' @ sb @ ''/'' @ ''observability/traces'') = ''sandboxes'' # sb # path_parts ''observability/traces''"
    using assms(1,2) by (rule sandbox_parts)
  then show "path_parts (''/sandboxes/'' @ sb @ ''/observability/traces'') = [''sandboxes'', sb, ''observability'', ''traces'']" by (simp add: path_parts_def)
qed

text \<open>An encoding for the examples: it escapes the slash and the escape character.\<close>

definition escape_slash :: "string \<Rightarrow> string" where
  "escape_slash s = concat (map (\<lambda>c. if c = CHR ''/'' then ''%2F'' else if c = CHR ''%'' then ''%25'' else [c]) s)"

fun unescape_slash :: "string \<Rightarrow> string option" where
  "unescape_slash [] = Some []"
| "unescape_slash (c # s) = (if c = CHR ''%'' then
     (if startsWith s ''2F'' then map_option (Cons (CHR ''/'')) (unescape_slash (drop 2 s))
      else if startsWith s ''25'' then map_option (Cons (CHR ''%'')) (unescape_slash (drop 2 s)) else None)
     else map_option (Cons c) (unescape_slash s))"

lemma escape_slash_codec: "uri_codec escape_slash unescape_slash"
proof -
  have "unescape_slash (escape_slash s) = Some s" "CHR ''/'' \<notin> set (escape_slash s)" for s
    by (induction s) (auto simp: escape_slash_def startsWith_def)
  moreover have "escape_slash s \<noteq> []" "unescape_slash s \<noteq> Some []" if "s \<noteq> []" for s
    using that by (cases s; auto simp: escape_slash_def)+
  ultimately show ?thesis by (simp add: uri_codec_def)
qed



end
