(* ===== verification/Traces_View.thy ===== *)
theory Traces_View
  imports Traces View
begin

text \<open>
  The page of the traces, as it is rendered and used: \<^verbatim>\<open>web/src/pages/sandbox/observability/TracesView.tsx\<close>.
  The state of the page is that of its hooks; what the polls show, the width of the window and the address are events of
  the environment, and a click sends the event of the element's handler.  The rows that the virtualizer asks for are an
  input of the view.
\<close>

section \<open>State\<close>

record traces_page =
  tg_param :: "string option"
  tg_narrow :: bool
  tg_pickerOpen :: bool
  tg_events :: "TraceEvent list option"
  tg_error :: "RpcError option"
  tg_trace :: "TraceResult option"
  tg_openSpans :: "string list"
  tg_navigations :: "string list"

datatype traces_event = Select_trace string | Open_picker | Close_picker | Toggle_span string
  | Window_narrow bool | Address_trace "string option" | Recent_events "TraceEvent list option"
  | Trace_polled "RpcError option" "TraceResult option"

definition traces_init :: "string option \<Rightarrow> bool \<Rightarrow> traces_page" where
  "traces_init param narrow = \<lparr>tg_param = param, tg_narrow = narrow, tg_pickerOpen = False, tg_events = None, tg_error = None,
     tg_trace = None, tg_openSpans = [], tg_navigations = []\<rparr>"

definition page_traces :: "traces_page \<Rightarrow> known_trace list" where
  "page_traces s = knownTraces (case tg_events s of None \<Rightarrow> [] | Some es \<Rightarrow> es)"

definition page_screen :: "traces_page \<Rightarrow> trace_screen" where
  "page_screen s = trace_screen_of (tg_error s) (tg_trace s)"

definition selectTrace :: "page_env \<Rightarrow> string \<Rightarrow> traces_page \<Rightarrow> traces_page" where
  "selectTrace env i s = s\<lparr>tg_pickerOpen := False, tg_navigations := tg_navigations s @ [trace_path (en_encode env) i]\<rparr>"

text \<open>The open rows belong to the waterfall: they are gone when it is not shown.\<close>

definition mount_waterfall :: "traces_page \<Rightarrow> traces_page" where
  "mount_waterfall s = (case page_screen s of Trace_waterfall _ _ \<Rightarrow> s | _ \<Rightarrow> s\<lparr>tg_openSpans := []\<rparr>)"

fun traces_handle :: "page_env \<Rightarrow> traces_page \<Rightarrow> traces_event \<Rightarrow> traces_page" where
  "traces_handle env s (Select_trace i) = selectTrace env i s"
| "traces_handle env s Open_picker = s\<lparr>tg_pickerOpen := True\<rparr>"
| "traces_handle env s Close_picker = s\<lparr>tg_pickerOpen := False\<rparr>"
| "traces_handle env s (Toggle_span i) = s\<lparr>tg_openSpans := toggle_span i (tg_openSpans s)\<rparr>"
| "traces_handle env s (Window_narrow b) = s\<lparr>tg_narrow := b\<rparr>"
| "traces_handle env s (Address_trace p) = s\<lparr>tg_param := p\<rparr>"
| "traces_handle env s (Recent_events es) = s\<lparr>tg_events := es\<rparr>"
| "traces_handle env s (Trace_polled e r) = s\<lparr>tg_error := e, tg_trace := r\<rparr>"

definition traces_step :: "page_env \<Rightarrow> traces_page \<Rightarrow> traces_event \<Rightarrow> traces_page" where
  "traces_step env s e = mount_waterfall (traces_handle env s e)"

section \<open>The picker\<close>

definition TraceRow :: "string \<Rightarrow> string \<Rightarrow> string \<Rightarrow> bool \<Rightarrow> traces_event view" where
  "TraceRow i lab hint active = El ''button'' ((if active then [(''aria-current'', ''page'')] else []) @ [(''title'', i)])
     [(''click'', Send (Select_trace i))] [caption lab, caption hint]"

definition TracePicker :: "page_env \<Rightarrow> known_trace list \<Rightarrow> string \<Rightarrow> traces_event view" where
  "TracePicker env known selected = box ''stack'' [caption ''Traces'',
     box ''box'' (TraceRow ''last'' ''last trace'' ''the most recent flow'' (selected = ''last'') #
       map (\<lambda>k. TraceRow (kt_id k) (kt_id k) (formatTimestamp env (kt_ts k)) (selected = kt_id k)) known @
       show_when (known = []) (caption
         ''No traces discovered from the latest 200 events yet. Deep links and the last selector still resolve.''))]"

section \<open>The waterfall\<close>

definition flag_mark :: string where
  "flag_mark = [CHR 0xE2, CHR 0x9A, CHR 0x91, CHR '' '']"

definition SpanAttr_view :: "string \<times> json \<Rightarrow> 'e view list" where
  "SpanAttr_view = (\<lambda>(n, v). [box ''dt'' [Txt n], box ''dd'' [Txt (SpanAttr v)]])"

definition percent :: "page_env \<Rightarrow> rat \<Rightarrow> string" where
  "percent env q = en_number env q @ ''%''"

definition SpanRow :: "page_env \<Rightarrow> bool \<Rightarrow> FlatSpan \<Rightarrow> rat \<Rightarrow> traces_event view" where
  "SpanRow env opened row total_ms = (let span = tn_span (fl_node row); duration = toFixed 1 (span_duration (fl_node row)) @ ''ms'' in
     box ''box''
       (box ''group''
          [El ''button'' ((if sp_attrs span \<noteq> [] then attr_bool ''aria-expanded'' opened else []) @
               [(''paddingLeft'', show_nat (fl_depth row * 14)), (''title'', sp_name span @ '' attributes'')])
             [(''click'', Send (Toggle_span (sp_span span)))]
             [El (if sp_attrs span \<noteq> [] then if opened then ''ChevronDown'' else ''ChevronRight'' else ''box'') [] [] [],
              caption (sp_name span)],
           box ''box''
             (El ''box'' [(''background'', status_color (sp_status span)), (''left'', percent env (bar_left total_ms row)),
                  (''width'', percent env (bar_width total_ms row)), (''title'', bar_title row)] [] [] #
              map (\<lambda>e. El ''span'' [(''left'', percent env (flag_left total_ms e)), (''title'', flag_mark @ te_name (ten_event e))] []
                 [El ''Flag'' [] [] []]) (tn_events (fl_node row))),
           caption duration,
           caption (sp_status span)] #
        show_when (opened \<and> sp_attrs span \<noteq> [])
          (box ''dl'' (concat (map SpanAttr_view (sp_attrs span))))))"

text \<open>The rows to draw, with their offsets: those of the virtualizer, or the first twenty before it has measured.\<close>

definition rendered_items :: "(nat \<times> nat) list \<Rightarrow> FlatSpan list \<Rightarrow> (nat \<times> nat) list" where
  "rendered_items virtual rows = (if virtual \<noteq> [] then virtual else map (\<lambda>i. (i, i * 34)) [0..<min (length rows) 20])"

definition estimateSize :: "string list \<Rightarrow> FlatSpan list \<Rightarrow> nat \<Rightarrow> nat" where
  "estimateSize opened rows i = (if i < length rows \<and> sp_span (tn_span (fl_node (rows ! i))) \<in> set opened then 124 else 34)"

definition Waterfall :: "page_env \<Rightarrow> (nat \<times> nat) list \<Rightarrow> string list \<Rightarrow> string \<Rightarrow> TraceNode list \<Rightarrow> traces_event view" where
  "Waterfall env virtual opened traceId nodes = (let rows = flatten nodes in
     if rows = [] then box ''text'' [Txt ''Trace '', caption traceId, Txt '' has no spans.'']
     else box ''stack''
       [box ''group'' [caption traceId, caption (waterfall_caption (en_locale env \<circ> int) rows)],
        El ''paper'' (flag ''data-trace-waterfall'' True) [] [box ''box''
          (map (\<lambda>(i, start). let row = rows ! i; spanId = sp_span (tn_span (fl_node row)) in
             El ''box'' [(''data-index'', show_nat i), (''data-trace-span'', spanId), (''transform'', ''translateY('' @ show_nat start @ ''px)'')] []
               [SpanRow env (spanId \<in> set opened) row (totalMs rows)]) (rendered_items virtual rows))]])"

section \<open>The page\<close>

definition TracesView :: "page_env \<Rightarrow> (nat \<times> nat) list \<Rightarrow> traces_page \<Rightarrow> traces_event view" where
  "TracesView env virtual s = (let picker = TracePicker env (page_traces s) (selectedTrace (tg_param s)) in
     El ''box'' (flag ''data-traces-view'' True) []
       ((if \<not> tg_narrow s then [box ''paper'' [picker]]
         else show_when (tg_pickerOpen s) (El ''drawer'' [(''title'', ''Trace selector'')] [(''close'', Send Close_picker)] [picker])) @
        [box ''stack''
          (show_when (tg_narrow s) (El ''button'' [] [(''click'', Send Open_picker)] [Txt ''Choose trace'']) @
           [case page_screen s of
              Trace_unavailable m \<Rightarrow> El ''alert'' [(''title'', ''Trace unavailable'')] [] [Txt m]
            | Trace_waterfall t spans \<Rightarrow> Waterfall env virtual (tg_openSpans s) t spans
            | Trace_loading \<Rightarrow> caption (''loading trace'' @ ellipsis)])]))"

section \<open>What the page offers\<close>

lemma offered_row [simp]: "offered (TraceRow i lab hint active) = {Select_trace i}"
  by (simp add: TraceRow_def)

definition page_ids :: "traces_page \<Rightarrow> string list" where
  "page_ids s = ''last'' # map kt_id (page_traces s)"

lemma offered_TracePicker: "offered (TracePicker env known selected) = Select_trace ` set (''last'' # map kt_id known)"
  by (auto simp: TracePicker_def)

lemma offered_SpanRow: "offered (SpanRow env opened row total_ms) = {Toggle_span (sp_span (tn_span (fl_node row)))}"
  by (auto simp: SpanRow_def SpanAttr_view_def Let_def split_def)

lemma offered_Waterfall:
  "offered (Waterfall env virtual opened t nodes) = (if flatten nodes = [] then {}
     else (\<lambda>(i, _). Toggle_span (sp_span (tn_span (fl_node (flatten nodes ! i))))) ` set (rendered_items virtual (flatten nodes)))"
  by (auto simp: Waterfall_def offered_SpanRow Let_def split_def)

text \<open>The picker is offered on a wide page, and on a narrow one while its drawer is open; the button that opens it, on a narrow one.\<close>

lemma offered_TracesView:
  "Select_trace i \<in> offered (TracesView env virtual s) \<longleftrightarrow> (tg_narrow s \<longrightarrow> tg_pickerOpen s) \<and> i \<in> set (page_ids s)"
  "Open_picker \<in> offered (TracesView env virtual s) \<longleftrightarrow> tg_narrow s"
  "Close_picker \<in> offered (TracesView env virtual s) \<longleftrightarrow> tg_narrow s \<and> tg_pickerOpen s"
  "Window_narrow b \<notin> offered (TracesView env virtual s)" "Address_trace p \<notin> offered (TracesView env virtual s)"
  "Recent_events es \<notin> offered (TracesView env virtual s)" "Trace_polled err result \<notin> offered (TracesView env virtual s)"
  by (auto simp: TracesView_def offered_TracePicker offered_Waterfall page_ids_def Let_def
      split: trace_screen.splits if_splits)

lemma mount_keeps [simp]:
  "tg_param (mount_waterfall s) = tg_param s" "tg_narrow (mount_waterfall s) = tg_narrow s"
  "tg_pickerOpen (mount_waterfall s) = tg_pickerOpen s" "tg_events (mount_waterfall s) = tg_events s"
  "tg_navigations (mount_waterfall s) = tg_navigations s" "page_screen (mount_waterfall s) = page_screen s"
  by (auto simp: mount_waterfall_def page_screen_def split: trace_screen.splits)

lemma page_ids_keeps: "tg_events t = tg_events s \<Longrightarrow> page_ids t = page_ids s"
  by (simp add: page_ids_def page_traces_def)

lemma page_ids_events: "set (page_ids s) = insert ''last'' (te_trace ` set (case tg_events s of None \<Rightarrow> [] | Some es \<Rightarrow> es))"
  using knownTraces_complete [of "case tg_events s of None \<Rightarrow> [] | Some es \<Rightarrow> es"] by (simp add: page_ids_def page_traces_def)

section \<open>The selected row\<close>

lemma filter_same: "distinct xs \<Longrightarrow> filter (\<lambda>i. i = x) xs = (if x \<in> set xs then [x] else [])"
  by (induction xs) (auto simp: filter_empty_conv)

lemma attr_values_row: "attr_values ''title'' (TraceRow i lab hint active) = [i]"
    "attr_values ''aria-current'' (TraceRow i lab hint active) = (if active then [''page''] else [])"
  by (simp_all add: TraceRow_def)

lemma picker_titles: "attr_values ''title'' (TracePicker env known selected) = ''last'' # map kt_id known"
  by (simp add: TracePicker_def attr_values_row comp_def show_when_def)

lemma picker_current:
  "attr_values ''aria-current'' (TracePicker env known selected) =
     replicate (length (filter (\<lambda>i. i = selected) (''last'' # map kt_id known))) ''page''"
proof -
  have "concat (map (\<lambda>k. attr_values ''aria-current'' (TraceRow (kt_id k) (kt_id k) (f k) (selected = kt_id k))) known) =
      replicate (length (filter (\<lambda>i. i = selected) (map kt_id known))) ''page''" for f
    by (induction known) (auto simp: attr_values_row)
  then show ?thesis by (simp add: TracePicker_def attr_values_row comp_def show_when_def)
qed

section \<open>Open rows\<close>

definition traces_inv :: "traces_page \<Rightarrow> bool" where
  "traces_inv s = (distinct (tg_openSpans s) \<and> (tg_openSpans s \<noteq> [] \<longrightarrow> (\<exists>t spans. page_screen s = Trace_waterfall t spans)))"

lemma handle_distinct: "distinct (tg_openSpans s) \<Longrightarrow> distinct (tg_openSpans (traces_handle env s e))"
  by (cases e) (auto simp: toggle_span_def selectTrace_def set_add_def set_delete_def)

interpretation traces: event_machine "traces_step env" traces_inv
  by unfold_locales
    (auto simp: traces_inv_def traces_step_def mount_waterfall_def handle_distinct split: trace_screen.splits)

section \<open>Properties\<close>

text \<open>
  Every trace can be chosen, and no other address is asked for.  Whatever the page shows, wide or narrow, for every trace of
  the recent events, and for the last one, there are at most two clicks that the page offers after which it has asked the
  router for the address of that trace, once, and its drawer is closed; and every address that clicks ask for is that of a
  trace the page lists.
\<close>

lemma traces_selectable:
  assumes "i \<in> set (page_ids s)"
  shows "\<exists>es. length es \<le> 2 \<and> clicks (TracesView env virtual) (traces_step env) s es \<and>
    tg_navigations (run (traces_step env) s es) = tg_navigations s @ [trace_path (en_encode env) i] \<and>
    \<not> tg_pickerOpen (run (traces_step env) s es)"
proof (cases "tg_narrow s \<longrightarrow> tg_pickerOpen s")
  case True
  then show ?thesis using assms
    by (intro exI [of _ "[Select_trace i]"]) (simp add: offered_TracesView traces_step_def selectTrace_def)
next
  case False
  then show ?thesis using assms page_ids_keeps [of "traces_step env s Open_picker" s]
    by (intro exI [of _ "[Open_picker, Select_trace i]"]) (simp add: offered_TracesView traces_step_def selectTrace_def)
qed

definition chosen_from_list :: "page_env \<Rightarrow> traces_page \<Rightarrow> traces_page \<Rightarrow> bool" where
  "chosen_from_list env s t = (tg_events t = tg_events s \<and> tg_param t = tg_param s \<and>
     (\<exists>ids. set ids \<subseteq> set (page_ids s) \<and> tg_navigations t = tg_navigations s @ map (trace_path (en_encode env)) ids))"

lemma chosen_trans:
  assumes "chosen_from_list env s t" "chosen_from_list env t u"
  shows "chosen_from_list env s u"
proof -
  obtain ids js where ids: "set ids \<subseteq> set (page_ids s)" "tg_navigations t = tg_navigations s @ map (trace_path (en_encode env)) ids"
    and js: "set js \<subseteq> set (page_ids t)" "tg_navigations u = tg_navigations t @ map (trace_path (en_encode env)) js"
    using assms by (auto simp: chosen_from_list_def)
  have "page_ids t = page_ids s" using assms(1) by (intro page_ids_keeps) (simp add: chosen_from_list_def)
  with ids js assms show ?thesis unfolding chosen_from_list_def by (intro conjI exI [of _ "ids @ js"]) auto
qed

lemma offered_chosen:
  assumes "e \<in> offered (TracesView env virtual s)"
  shows "chosen_from_list env s (traces_step env s e)"
proof (cases e)
  case (Select_trace i)
  with assms show ?thesis unfolding chosen_from_list_def
    by (intro conjI exI [of _ "[i]"]) (auto simp: offered_TracesView traces_step_def selectTrace_def)
qed (use assms in \<open>auto simp: offered_TracesView traces_step_def chosen_from_list_def intro: exI [of _ "[]"]\<close>)

interpretation traces_page: rendered "TracesView env virtual" "traces_step env" "chosen_from_list env"
proof
  show "chosen_from_list env s s" for s by (simp add: chosen_from_list_def)
qed (fact chosen_trans offered_chosen)+

lemma traces_navigate_listed:
  assumes "clicks (TracesView env virtual) (traces_step env) s es"
  shows "\<exists>ids. set ids \<subseteq> set (page_ids s) \<and>
    tg_navigations (run (traces_step env) s es) = tg_navigations s @ map (trace_path (en_encode env)) ids"
  using traces_page.promise_clicks [OF assms] by (simp add: chosen_from_list_def)

text \<open>
  Exactly one row is marked as the page shown when the selected trace is listed and no trace is called
  \<^verbatim>\<open>last\<close>; a trace that is not among the recent ones is shown with no row marked.
\<close>

lemma traces_one_current:
  assumes "''last'' \<notin> kt_id ` set (page_traces s)"
  shows "attr_values ''aria-current'' (TracePicker env (page_traces s) selected) =
    (if selected \<in> set (page_ids s) then [''page''] else [])"
proof -
  have d: "distinct (page_ids s)"
    using assms knownTraces_complete [of "case tg_events s of None \<Rightarrow> [] | Some es \<Rightarrow> es"]
    by (auto simp: page_ids_def page_traces_def)
  show ?thesis unfolding picker_current page_ids_def [symmetric] filter_same [OF d] by simp
qed

text \<open>The rows of the waterfall are the spans at the positions the virtualizer asks for, or the first twenty.\<close>

lemma attr_values_SpanRow: "attr_values ''data-trace-span'' (SpanRow env opened row total_ms) = []"
  by (auto simp: SpanRow_def show_when_def SpanAttr_view_def attr_bool_def Let_def split_def)

lemma waterfall_spans:
  "flatten nodes \<noteq> [] \<Longrightarrow> attr_values ''data-trace-span'' (Waterfall env virtual opened t nodes) =
     map (\<lambda>(i, _). sp_span (tn_span (fl_node (flatten nodes ! i)))) (rendered_items virtual (flatten nodes))"
  by (simp add: Waterfall_def attr_values_SpanRow Let_def comp_def split_def)

end
