(* ===== verification/Events_View.thy ===== *)
theory Events_View
  imports Traces Machine "HOL-Library.List_Lexorder" "HOL-Library.Char_ord"
begin

text \<open>
  The event table: \<^verbatim>\<open>web/src/pages/sandbox/observability/EventsView.tsx\<close>.  The view is an event machine
  whose every step ends with a render, which reads and fills the cache of sorted lists.  The identity
  of a data array is a version number; without data every render has a new empty array.  The sorting
  that the table library asks for, the clock and the locale are inputs.
\<close>

section \<open>Filters\<close>

definition SINCE_CHOICES :: "(string \<times> int) list" where
  "SINCE_CHOICES = [(''any time'', 0), (''last 5m'', 5 * 60000), (''last 15m'', 15 * 60000), (''last 1h'', 60 * 60000)]"

definition VIRTUALIZE_AT :: nat where
  "VIRTUALIZE_AT = 200"

text \<open>The search parameters of the page, as the address has them.\<close>

record event_params =
  pa_name :: "string option"
  pa_since :: "string option"
  pa_last :: "string option"

definition params_name :: "event_params \<Rightarrow> string" where
  "params_name p = (case pa_name p of None \<Rightarrow> [] | Some n \<Rightarrow> n)"

definition params_sinceMs :: "event_params \<Rightarrow> jsnum" where
  "params_sinceMs p = (case pa_since p of None \<Rightarrow> Fin 0 | Some t \<Rightarrow> js_Number t)"

definition params_lastN :: "event_params \<Rightarrow> jsnum" where
  "params_lastN p = (case pa_last p of None \<Rightarrow> Fin 200 | Some t \<Rightarrow> js_Number t)"

definition event_query :: "int \<Rightarrow> event_params \<Rightarrow> event_filters" where
  "event_query now p =
     \<lparr>ef_name = (if params_name p \<noteq> [] then Some (params_name p) else None),
      ef_sinceMs = (case params_sinceMs p of
         Fin q \<Rightarrow> if 0 < q then Some (Fin (of_int now - q)) else None
       | PosInf \<Rightarrow> Some NegInf | _ \<Rightarrow> None),
      ef_lastN = Some (params_lastN p)\<rparr>"

definition apply_name :: "string \<Rightarrow> event_params \<Rightarrow> event_params" where
  "apply_name n p = p\<lparr>pa_name := (if n \<noteq> [] then Some n else None)\<rparr>"

definition apply_since :: "int \<Rightarrow> event_params \<Rightarrow> event_params" where
  "apply_since n p = p\<lparr>pa_since := (if 0 < n then Some (show_int n) else None)\<rparr>"

text \<open>The last-N input; \<open>show_number\<close> is the text of a number.\<close>

definition edit_last :: "(rat \<Rightarrow> string) \<Rightarrow> string \<Rightarrow> event_params \<Rightarrow> event_params" where
  "edit_last show_number t p = (case js_Number t of
     Fin q \<Rightarrow> if 0 < q then p\<lparr>pa_last := Some (show_number q)\<rparr> else p | _ \<Rightarrow> p)"

section \<open>Sorting\<close>

definition eventKey :: "TraceEvent \<Rightarrow> string" where
  "eventKey e = te_trace e @ ''-'' @ show_int (te_ts e) @ ''-'' @ te_name e"

type_synonym SortingState = "(string \<times> bool) list"

definition sortKey :: "SortingState \<Rightarrow> string" where
  "sortKey sorting = (case sorting of [] \<Rightarrow> ''none''
     | (i, desc) # _ \<Rightarrow> i @ '':'' @ (if desc then ''desc'' else ''asc''))"

definition three_way :: "'a :: linorder \<Rightarrow> 'a \<Rightarrow> int" where
  "three_way a b = (if a = b then 0 else if b < a then 1 else -1)"

definition compareEvents :: "string \<Rightarrow> TraceEvent \<Rightarrow> TraceEvent \<Rightarrow> int" where
  "compareEvents column l r = (if column = ''ts'' then three_way (te_ts l) (te_ts r)
     else if column = ''name'' then three_way (te_name l) (te_name r)
     else three_way (te_trace l) (te_trace r))"

section \<open>The view\<close>

record sort_cache =
  sc_data :: "nat option"
  sc_values :: "(string \<times> TraceEvent list) list"

record events_view =
  ev_params :: event_params
  ev_tail :: bool
  ev_expanded :: "string option"
  ev_selected :: "string option"
  ev_sorting :: SortingState
  ev_data :: "(nat \<times> TraceEvent list) option"
  ev_error :: "RpcError option"
  ev_cache :: "sort_cache option"
  ev_rows :: "TraceEvent list"

definition eventData :: "events_view \<Rightarrow> nat option \<times> TraceEvent list" where
  "eventData s = (case ev_data s of None \<Rightarrow> (None, []) | Some (v, es) \<Rightarrow> (Some v, es))"

definition current_cache :: "events_view \<Rightarrow> sort_cache" where
  "current_cache s = (let (v, es) = eventData s; fresh = \<lparr>sc_data = v, sc_values = [(''none'', es)]\<rparr>
     in case ev_cache s of None \<Rightarrow> fresh | Some c \<Rightarrow> if v \<noteq> None \<and> sc_data c = v then c else fresh)"

definition sort_events :: "string \<Rightarrow> TraceEvent list \<Rightarrow> TraceEvent list" where
  "sort_events key es = (let parts = split_on (CHR '':'') key; xs = js_sort (compareEvents (hd parts)) es
     in if tl parts \<noteq> [] \<and> hd (tl parts) = ''desc'' then rev xs else xs)"

definition render :: "events_view \<Rightarrow> events_view" where
  "render s = (let c = current_cache s; key = sortKey (ev_sorting s) in
     case map_of (sc_values c) key of
       Some es \<Rightarrow> s\<lparr>ev_cache := Some c, ev_rows := es\<rparr>
     | None \<Rightarrow> (let es = sort_events key (snd (eventData s))
         in s\<lparr>ev_cache := Some (c\<lparr>sc_values := map_set key es (sc_values c)\<rparr>), ev_rows := es\<rparr>))"

datatype view_event = Events_fetched "TraceEvent list" | Events_failed RpcError | Sort_changed SortingState
  | Toggle_tail | Toggle_attrs string | Select_row string | Row_key string string
  | Filter_name string | Filter_since int | Filter_last "rat \<Rightarrow> string" string

fun view_handle :: "events_view \<Rightarrow> view_event \<Rightarrow> events_view" where
  "view_handle s (Events_fetched es) = s\<lparr>ev_data := Some (case ev_data s of None \<Rightarrow> 0 | Some (v, _) \<Rightarrow> Suc v, es), ev_error := None\<rparr>"
| "view_handle s (Events_failed e) = s\<lparr>ev_error := Some e\<rparr>"
| "view_handle s (Sort_changed sorting) = s\<lparr>ev_sorting := sorting\<rparr>"
| "view_handle s Toggle_tail = s\<lparr>ev_tail := \<not> ev_tail s\<rparr>"
| "view_handle s (Toggle_attrs key) = s\<lparr>ev_expanded := (if ev_expanded s = Some key then None else Some key)\<rparr>"
| "view_handle s (Select_row i) = s\<lparr>ev_selected := Some i\<rparr>"
| "view_handle s (Row_key key i) = (if key = ''Enter'' \<or> key = '' '' then s\<lparr>ev_selected := Some i\<rparr> else s)"
| "view_handle s (Filter_name n) = s\<lparr>ev_params := apply_name n (ev_params s)\<rparr>"
| "view_handle s (Filter_since n) = s\<lparr>ev_params := apply_since n (ev_params s)\<rparr>"
| "view_handle s (Filter_last show_number t) = s\<lparr>ev_params := edit_last show_number t (ev_params s)\<rparr>"

definition view_step :: "events_view \<Rightarrow> view_event \<Rightarrow> events_view" where
  "view_step s e = render (view_handle s e)"

definition view_init :: "event_params \<Rightarrow> events_view" where
  "view_init p = \<lparr>ev_params = p, ev_tail = True, ev_expanded = None, ev_selected = None, ev_sorting = [(''ts'', True)],
     ev_data = None, ev_error = None, ev_cache = None, ev_rows = []\<rparr>"

text \<open>Polling is on, and fast, exactly while the tail is live.\<close>

definition events_poll :: "events_view \<Rightarrow> bool \<times> bool" where
  "events_poll s = (ev_tail s, ev_tail s)"

definition events_alert :: "events_view \<Rightarrow> (string \<times> string) option" where
  "events_alert s = map_option (\<lambda>e. (if ev_data s \<noteq> None then ''Refresh paused on last confirmed events'' else ''Events unavailable'',
     err_message e)) (ev_error s)"

definition visible_rows :: "nat list \<Rightarrow> events_view \<Rightarrow> TraceEvent list" where
  "visible_rows virtual s = (if VIRTUALIZE_AT < length (ev_rows s)
     then map (\<lambda>i. ev_rows s ! i) (filter (\<lambda>i. i < length (ev_rows s)) virtual) else ev_rows s)"

section \<open>Comparing\<close>

lemma three_way_le: "three_way a b \<le> 0 \<longleftrightarrow> a \<le> b" "0 \<le> three_way a b \<longleftrightarrow> b \<le> a"
  by (auto simp: three_way_def)

interpretation by_ts: key_comparator "compareEvents ''ts''" te_ts
  by unfold_locales (simp_all add: compareEvents_def three_way_le)

interpretation by_name: key_comparator "compareEvents ''name''" te_name
  by unfold_locales (simp_all add: compareEvents_def three_way_le)

interpretation by_trace: key_comparator "compareEvents ''trace''" te_trace
  by unfold_locales (simp_all add: compareEvents_def three_way_le)

definition sortable :: "string list" where
  "sortable = [''ts'', ''name'', ''trace'']"

definition legal :: "SortingState \<Rightarrow> bool" where
  "legal sorting = (\<forall>x \<in> set sorting. fst x \<in> set sortable)"

fun legal_event :: "view_event \<Rightarrow> bool" where
  "legal_event (Sort_changed sorting) = legal sorting"
| "legal_event _ = True"

lemma column_sorted:
  assumes "column \<in> set sortable"
  shows "sorted_wrt (\<lambda>x y. compareEvents column x y \<le> 0) (js_sort (compareEvents column) es)"
  using assms by_ts.sorted_js_sort by_name.sorted_js_sort by_trace.sorted_js_sort by (auto simp: sortable_def)

text \<open>What the table should show, without keys and caches.\<close>

definition events_in_order :: "SortingState \<Rightarrow> TraceEvent list \<Rightarrow> TraceEvent list" where
  "events_in_order sorting es = (case sorting of [] \<Rightarrow> es
     | (column, desc) # _ \<Rightarrow> (if desc then rev else id) (js_sort (compareEvents column) es))"

lemma sort_events_column:
  assumes "column \<in> set sortable"
  shows "sort_events (column @ '':'' @ (if desc then ''desc'' else ''asc'')) es = events_in_order ((column, desc) # rest) es"
  using assms by (auto simp: sort_events_def events_in_order_def sortable_def Let_def)

lemma sortKey_inject:
  assumes "legal a" "legal b" "sortKey a = sortKey b"
  shows "events_in_order a es = events_in_order b es"
proof (cases a; cases b)
  fix x xs y ys assume ab: "a = x # xs" "b = y # ys"
  obtain c d where x: "x = (c, d)" by fastforce
  obtain c' d' where y: "y = (c', d')" by fastforce
  have "c \<in> set sortable" "c' \<in> set sortable" using assms(1,2) ab x y by (auto simp: legal_def)
  with assms(3) ab x y show ?thesis
    by (auto simp: sortKey_def events_in_order_def sortable_def split: if_splits)
qed (use assms in \<open>auto simp: sortKey_def legal_def sortable_def split: if_splits\<close>)

section \<open>The cache\<close>

definition cache_ok :: "TraceEvent list \<Rightarrow> sort_cache \<Rightarrow> bool" where
  "cache_ok es c = (map_of (sc_values c) ''none'' = Some es \<and>
     (\<forall>sorting xs. legal sorting \<longrightarrow> map_of (sc_values c) (sortKey sorting) = Some xs \<longrightarrow> xs = events_in_order sorting es))"

definition view_inv :: "events_view \<Rightarrow> bool" where
  "view_inv s = (legal (ev_sorting s) \<and>
     (\<forall>c. ev_cache s = Some c \<longrightarrow> (case ev_data s of
        None \<Rightarrow> sc_data c = None
      | Some (v, es) \<Rightarrow> (\<forall>w. sc_data c = Some w \<longrightarrow> w \<le> v \<and> (w = v \<longrightarrow> cache_ok es c)))))"

lemma sortKey_none: "legal sorting \<Longrightarrow> sortKey sorting = ''none'' \<longleftrightarrow> sorting = []"
  by (cases sorting) (auto simp: sortKey_def legal_def sortable_def split: if_splits)

lemma cache_ok_fresh: "cache_ok es \<lparr>sc_data = v, sc_values = [(''none'', es)]\<rparr>"
  by (auto simp: cache_ok_def sortKey_none events_in_order_def)

lemma cache_ok_add:
  assumes "cache_ok es c" "legal sorting" "map_of (sc_values c) (sortKey sorting) = None"
  shows "cache_ok es (c\<lparr>sc_values := map_set (sortKey sorting) (events_in_order sorting es) (sc_values c)\<rparr>)"
proof -
  let ?k = "sortKey sorting"
  have "?k \<noteq> ''none''" using assms(1,3) by (auto simp: cache_ok_def)
  moreover have "xs = events_in_order t es"
    if "legal t" "map_of (map_set ?k (events_in_order sorting es) (sc_values c)) (sortKey t) = Some xs" for t xs
  proof (cases "sortKey t = ?k")
    case True
    with that(2) sortKey_inject [OF assms(2) that(1)] show ?thesis by simp
  next
    case False
    with that assms(1) show ?thesis by (simp add: cache_ok_def)
  qed
  ultimately show ?thesis using assms(1) by (simp add: cache_ok_def)
qed

lemma sort_events_key:
  assumes "legal sorting" "sorting \<noteq> []"
  shows "sort_events (sortKey sorting) es = events_in_order sorting es"
  using assms sort_events_column by (cases sorting) (auto simp: sortKey_def legal_def)

lemma current_cache_ok: "view_inv s \<Longrightarrow> cache_ok (snd (eventData s)) (current_cache s)"
  by (auto simp: view_inv_def current_cache_def eventData_def cache_ok_fresh Let_def split: option.splits prod.splits)

lemma current_cache_data: "sc_data (current_cache s) = fst (eventData s)"
  by (auto simp: current_cache_def Let_def split: option.splits prod.splits)

lemma render_inv:
  assumes "view_inv s"
  shows "view_inv (render s) \<and> ev_rows (render s) = events_in_order (ev_sorting s) (snd (eventData s))"
proof -
  let ?c = "current_cache s" and ?k = "sortKey (ev_sorting s)" and ?es = "snd (eventData s)"
  have legal: "legal (ev_sorting s)" using assms by (simp add: view_inv_def)
  have ok: "cache_ok ?es ?c" using assms by (rule current_cache_ok)
  have inv: "view_inv (s\<lparr>ev_cache := Some c, ev_rows := es\<rparr>)" if "cache_ok ?es c" "sc_data c = fst (eventData s)" for c es
    using legal that by (auto simp: view_inv_def eventData_def split: option.splits)
  show ?thesis
  proof (cases "map_of (sc_values ?c) ?k")
    case (Some es)
    with ok legal have "es = events_in_order (ev_sorting s) ?es" by (auto simp: cache_ok_def)
    with Some inv [OF ok current_cache_data] show ?thesis by (simp add: render_def Let_def)
  next
    case None
    then have "ev_sorting s \<noteq> []" using ok by (auto simp: cache_ok_def sortKey_def)
    with None inv [OF cache_ok_add [OF ok legal None]] legal show ?thesis
      by (simp add: render_def sort_events_key current_cache_data Let_def)
  qed
qed

lemma handle_inv: "view_inv s \<Longrightarrow> legal_event e \<Longrightarrow> view_inv (view_handle s e)"
  by (cases e) (auto simp: view_inv_def split: option.splits prod.splits)

interpretation event_table: environment_machine view_step view_inv legal_event
  by unfold_locales (simp add: view_step_def render_inv handle_inv)

lemma view_init_inv: "view_inv (view_init p)"
  by (simp add: view_inv_def view_init_def legal_def sortable_def)

lemma render_keeps [simp]:
  "ev_sorting (render u) = ev_sorting u" "ev_data (render u) = ev_data u" "eventData (render u) = eventData u"
  by (auto simp: render_def eventData_def Let_def split: option.splits)

lemma in_order_spec:
  assumes "legal sorting"
  shows "mset (events_in_order sorting es) = mset es"
    and "sorting = (column, desc) # rest \<Longrightarrow> sorted_wrt (\<lambda>x y. if desc then compareEvents column y x \<le> 0 else compareEvents column x y \<le> 0)
      (events_in_order sorting es)"
proof -
  show "mset (events_in_order sorting es) = mset es" by (auto simp: events_in_order_def split: list.splits)
  assume "sorting = (column, desc) # rest"
  moreover from this assms column_sorted [of column es] have "sorted_wrt (\<lambda>x y. compareEvents column x y \<le> 0) (js_sort (compareEvents column) es)"
    by (simp add: legal_def)
  ultimately show "sorted_wrt (\<lambda>x y. if desc then compareEvents column y x \<le> 0 else compareEvents column x y \<le> 0)
      (events_in_order sorting es)"
    by (simp add: events_in_order_def sorted_wrt_rev)
qed

section \<open>Properties\<close>

text \<open>
  C26: The cache of sorted lists is invisible.  After any sequence of answers, sort requests and
  clicks, the rows of the table are the events of the last answer sorted for the current column and
  direction, as if they were sorted anew in every render: all of them, and in order.
\<close>

theorem events_table_sorted:
  assumes "\<forall>e \<in> set es. legal_event e" "es \<noteq> []" "s = run view_step (view_init p) es"
  shows "ev_rows s = events_in_order (ev_sorting s) (snd (eventData s)) \<and>
    mset (ev_rows s) = mset (snd (eventData s)) \<and>
    (\<forall>column desc rest. ev_sorting s = (column, desc) # rest \<longrightarrow>
       sorted_wrt (\<lambda>x y. if desc then compareEvents column y x \<le> 0 else compareEvents column x y \<le> 0) (ev_rows s))"
proof -
  obtain fs e where es: "es = fs @ [e]" using assms(2) by (cases es rule: rev_cases) auto
  let ?t = "view_handle (run view_step (view_init p) fs) e"
  have t: "view_inv ?t" using assms(1) es by (intro handle_inv event_table.inv_possible_run view_init_inv) auto
  have s: "s = render ?t" by (simp add: assms(3) es run_snoc view_step_def)
  have rows: "ev_rows s = events_in_order (ev_sorting s) (snd (eventData s))"
    unfolding s render_keeps using render_inv [OF t] by simp
  have "legal (ev_sorting s)" unfolding s render_keeps using t by (simp add: view_inv_def)
  from in_order_spec [OF this] rows show ?thesis by simp
qed

definition sample_event :: "int \<Rightarrow> TraceEvent" where
  "sample_event t = \<lparr>te_ts = t, te_trace = ''t'', te_parent = None, te_name = ''n'', te_attrs = []\<rparr>"

theorem events_table_sorted_witness:
  "mset (ev_rows (run view_step (view_init \<lparr>pa_name = None, pa_since = None, pa_last = None\<rparr>)
     [Events_fetched [sample_event 1, sample_event 2], Sort_changed [(''name'', False)]])) = {#sample_event 1, sample_event 2#}"
  using conjunct1 [OF conjunct2 [OF events_table_sorted [OF _ _ refl, of "[Events_fetched [sample_event 1, sample_event 2], Sort_changed [(''name'', False)]]"
      "\<lparr>pa_name = None, pa_since = None, pa_last = None\<rparr>"]]]
  by (simp add: legal_def sortable_def view_step_def eventData_def view_init_def)

end
