(* ===== verification/Events_Page.thy ===== *)
theory Events_Page
  imports Events_View View
begin

text \<open>
  What the event table of \<^verbatim>\<open>EventsView.tsx\<close> renders, over the machine of \<open>Events_View\<close>.  The sorting that a click on a header
  asks for (\<open>toggle\<close>), the rows that the virtualizer wants with their extents, and its total height are the libraries'.
\<close>

section \<open>Columns\<close>

text \<open>The columns with an accessor can be sorted.\<close>

definition event_columns :: "(string \<times> string \<times> bool) list" where
  "event_columns = [(''ts'', ''timestamp'', True), (''name'', ''name'', True), (''trace'', ''trace'', True), (''attrs'', ''attributes'', False)]"

definition sort_mark :: "SortingState \<Rightarrow> string \<Rightarrow> string" where
  "sort_mark sorting column = (case map_of sorting column of None \<Rightarrow> []
     | Some desc \<Rightarrow> '' '' @ [CHR 0xE2, CHR 0x86, if desc then CHR 0x93 else CHR 0x91])"

definition event_header :: "(string \<Rightarrow> SortingState \<Rightarrow> SortingState) \<Rightarrow> SortingState \<Rightarrow> string \<times> string \<times> bool \<Rightarrow> view_event view" where
  "event_header toggle sorting = (\<lambda>(column, header, canSort).
     box ''th'' [if canSort then El ''button'' [] [(''click'', Send (Sort_changed (toggle column sorting)))]
         [Txt header, Txt (sort_mark sorting column)]
       else Txt header])"

definition TraceCell_view :: "page_env \<Rightarrow> string \<Rightarrow> string \<Rightarrow> 'e view" where
  "TraceCell_view env sandboxId traceId = El ''a'' [(''to'', traceLink (en_encode env) sandboxId traceId), (''title'', traceId)] []
     [Txt (TraceCell traceId)]"

definition event_cells :: "page_env \<Rightarrow> string \<Rightarrow> string option \<Rightarrow> TraceEvent \<Rightarrow> view_event view list" where
  "event_cells env sandboxId expanded e = (let key = eventKey e; isOpen = (expanded = Some key) in
     map (\<lambda>c. box ''td'' [c])
       [caption (formatTimestamp env (te_ts e)), caption (te_name e), TraceCell_view env sandboxId (te_trace e),
        El ''button'' (attr_bool ''aria-expanded'' isOpen @ [(''title'', ''Toggle full attributes'')])
          [(''click'', Send (Toggle_attrs key))] [Txt (JSON_stringify (JObj (te_attrs e)))]])"

definition event_row :: "page_env \<Rightarrow> string \<Rightarrow> events_view \<Rightarrow> TraceEvent \<Rightarrow> view_event view" where
  "event_row env sandboxId s e = (let i = eventKey e in
     El ''tr'' (attr_bool ''aria-selected'' (ev_selected s = Some i) @ [(''data-event-row'', i)])
       [(''click'', Send (Select_row i)), (''keydown'', Send_text (\<lambda>key. Row_key key i))]
       (event_cells env sandboxId (ev_expanded s) e))"

section \<open>The page\<close>

text \<open>An option of the list is the text of its number of milliseconds; taking the choice back means any time.\<close>

definition choose_since :: "string option \<Rightarrow> view_event" where
  "choose_since v = Filter_since (case v of None \<Rightarrow> 0 | Some t \<Rightarrow> (case to_integer (js_Number t) of None \<Rightarrow> 0 | Some n \<Rightarrow> n))"

definition event_filter_bar :: "page_env \<Rightarrow> events_view \<Rightarrow> view_event view" where
  "event_filter_bar env s = box ''group''
     [El ''input'' [(''label'', ''Name''), (''defaultValue'', params_name (ev_params s))] [(''enter'', Send_text Filter_name)] [],
      El ''select'' [(''label'', ''Since''), (''value'', number_text env (params_sinceMs (ev_params s)))]
        [(''change'', Send_choice (map (show_int \<circ> snd) SINCE_CHOICES) choose_since)]
        (map (\<lambda>(l, ms). El ''option'' [(''value'', show_int ms)] [] [Txt l]) SINCE_CHOICES),
      El ''input'' [(''label'', ''Last N''), (''value'', number_text env (params_lastN (ev_params s)))]
        [(''change'', Send_text (Filter_last (en_number env)))] [],
      El ''button'' ([(''aria-label'', if ev_tail s then ''tail'' else ''resume tail'')] @ attr_bool ''aria-pressed'' (ev_tail s) @
          [(''data-event-tail-state'', if ev_tail s then ''live'' else ''paused'')])
        [(''click'', Send Toggle_tail)] [Txt (if ev_tail s then ''Live tail'' else ''Paused'')]]"

definition paddingTop :: "(nat \<times> nat \<times> nat) list \<Rightarrow> nat" where
  "paddingTop virtualRows = (case virtualRows of [] \<Rightarrow> 0 | (_, start, _) # _ \<Rightarrow> start)"

definition paddingBottom :: "bool \<Rightarrow> nat \<Rightarrow> (nat \<times> nat \<times> nat) list \<Rightarrow> int" where
  "paddingBottom shouldVirtualize total_size virtualRows = (if shouldVirtualize
     then int total_size - (case at_last virtualRows of None \<Rightarrow> 0 | Some (_, _, finish) \<Rightarrow> int finish) else 0)"

definition padding_row :: "int \<Rightarrow> 'e view list" where
  "padding_row h = show_when (0 < h) (box ''tr'' [El ''td'' [(''colSpan'', ''4''), (''height'', show_int h)] [] []])"

definition event_grid :: "(string \<Rightarrow> SortingState \<Rightarrow> SortingState) \<Rightarrow> page_env \<Rightarrow> string \<Rightarrow> (nat \<times> nat \<times> nat) list \<Rightarrow> nat \<Rightarrow> events_view \<Rightarrow> view_event view" where
  "event_grid toggle env sandboxId items total_size s =
     (let shouldVirtualize = VIRTUALIZE_AT < length (ev_rows s); virtualRows = (if shouldVirtualize then items else []) in
      box ''table''
        [box ''thead'' [box ''tr'' (map (event_header toggle (ev_sorting s)) event_columns)],
         box ''tbody'' (padding_row (int (paddingTop virtualRows)) @
           map (event_row env sandboxId s) (visible_rows (map fst virtualRows) s) @
           padding_row (paddingBottom shouldVirtualize total_size virtualRows))])"

definition EventsView :: "(string \<Rightarrow> SortingState \<Rightarrow> SortingState) \<Rightarrow> page_env \<Rightarrow> string \<Rightarrow> (nat \<times> nat \<times> nat) list \<Rightarrow> nat \<Rightarrow> events_view \<Rightarrow> view_event view" where
  "EventsView toggle env sandboxId items total_size s = El ''box'' (flag ''data-events-view'' True) []
     [event_filter_bar env s,
      box ''box''
        ((case events_alert s of None \<Rightarrow> [] | Some (title, m) \<Rightarrow> [El ''alert'' [(''title'', title)] [] [Txt m]]) @
         [if ev_rows s = [] then box ''paper'' [caption ''No events'',
            caption ''Nothing matches these filters yet. Domain facts (leases, publishes) appear here as they happen.'']
          else event_grid toggle env sandboxId items total_size s])]"

section \<open>Keys\<close>

text \<open>
  A key pressed in a cell reaches the handler of its row, which takes Enter and the space bar for itself; the browser activates
  the focused link or button only when no handler has prevented that.
\<close>

definition row_keydown :: "string \<Rightarrow> string \<Rightarrow> events_view \<Rightarrow> events_view \<times> bool" where
  "row_keydown key i s = (if key = ''Enter'' \<or> key = '' '' then (s\<lparr>ev_selected := Some i\<rparr>, True) else (s, False))"

definition key_in_cell :: "(events_view \<Rightarrow> events_view) \<Rightarrow> string \<Rightarrow> string \<Rightarrow> events_view \<Rightarrow> events_view" where
  "key_in_cell activate key i s = (let (t, prevented) = row_keydown key i s
     in if (key = ''Enter'' \<or> key = '' '') \<and> \<not> prevented then activate t else t)"

lemma row_keydown_handles: "fst (row_keydown key i s) = view_handle s (Row_key key i)"
  by (simp add: row_keydown_def)

text \<open>So no key activates the link to the trace or the button of the attributes.\<close>

lemma keys_never_activate: "key_in_cell activate key i s = view_handle s (Row_key key i)"
  by (simp add: key_in_cell_def row_keydown_def)

section \<open>What the page offers\<close>

text \<open>The table library sorts by the column clicked, and by columns it sorted by before.\<close>

definition sorts_column :: "(string \<Rightarrow> SortingState \<Rightarrow> SortingState) \<Rightarrow> bool" where
  "sorts_column toggle = (\<forall>column sorting. fst ` set (toggle column sorting) \<subseteq> insert column (fst ` set sorting))"

lemma offered_event_row:
  "offered (event_row env sandboxId s e) =
     {Select_row (eventKey e), Toggle_attrs (eventKey e)} \<union> range (\<lambda>key. Row_key key (eventKey e))"
  by (auto simp: event_row_def event_cells_def TraceCell_view_def Let_def)

lemma offered_header:
  "x \<in> offered (event_header toggle sorting c) \<longleftrightarrow> snd (snd c) \<and> x = Sort_changed (toggle (fst c) sorting)"
  by (auto simp: event_header_def split: prod.splits)

lemma offered_filter_bar: "e \<in> offered (event_filter_bar env s) \<Longrightarrow> e = Toggle_tail \<or> (\<exists>n. e = Filter_name n) \<or> (\<exists>n. e = Filter_since n) \<or>
    (\<exists>t. e = Filter_last (en_number env) t)"
  by (auto simp: event_filter_bar_def choose_since_def)

lemma offered_padding [simp]: "\<Union>(offered ` set (padding_row h)) = {}"
  by (simp add: padding_row_def)

lemma offered_grid:
  assumes "e \<in> offered (event_grid toggle env sandboxId items total_size s)"
  shows "(\<exists>c \<in> set sortable. e = Sort_changed (toggle c (ev_sorting s))) \<or> (\<exists>i. e = Select_row i \<or> e = Toggle_attrs i \<or> (\<exists>k. e = Row_key k i))"
proof -
  have split_all: "\<Union>(offered ` set (padding_row g @ map f rs @ padding_row h)) = (\<Union>r \<in> set rs. offered (f r))"
    for g h rs and f :: "TraceEvent \<Rightarrow> view_event view"
    using offered_padding [of g] offered_padding [of h] by simp
  have "(\<exists>c \<in> set event_columns. e \<in> offered (event_header toggle (ev_sorting s) c)) \<or>
      (\<exists>r. e \<in> offered (event_row env sandboxId s r))"
    using assms unfolding event_grid_def Let_def box_simps list.map set_map list.set split_all by auto
  then show ?thesis by (auto simp: offered_header offered_event_row event_columns_def sortable_def)
qed

lemma offered_EventsView:
  assumes "e \<in> offered (EventsView toggle env sandboxId items total_size s)"
  shows "e \<in> offered (event_filter_bar env s) \<or> e \<in> offered (event_grid toggle env sandboxId items total_size s)"
proof -
  define alerts :: "view_event view list" where "alerts = (case events_alert s of None \<Rightarrow> [] | Some (title, m) \<Rightarrow> [El ''alert'' [(''title'', title)] [] [Txt m]])"
  have "\<Union>(offered ` set alerts) = {}" by (auto simp: alerts_def split: option.splits)
  with assms show ?thesis unfolding EventsView_def alerts_def [symmetric] by (auto split: if_splits)
qed

text \<open>What the user can send: no data and no failure; and no column but those that can be sorted.\<close>

lemma offered_legal:
  assumes "e \<in> offered (EventsView toggle env sandboxId items total_size s)" "sorts_column toggle" "legal (ev_sorting s)"
  shows "legal_event e \<and> (\<nexists>es. e = Events_fetched es)"
proof -
  have toggled: "legal (toggle c (ev_sorting s))" if "c \<in> set sortable" for c
  proof -
    have "fst ` set (toggle c (ev_sorting s)) \<subseteq> insert c (fst ` set (ev_sorting s))" using assms(2) by (simp add: sorts_column_def)
    moreover have "insert c (fst ` set (ev_sorting s)) \<subseteq> set sortable" using that assms(3) by (auto simp: legal_def)
    ultimately show ?thesis unfolding legal_def image_subset_iff by blast
  qed
  from offered_EventsView [OF assms(1)] show ?thesis
  proof
    assume "e \<in> offered (event_filter_bar env s)"
    from offered_filter_bar [OF this] show ?thesis by auto
  next
    assume "e \<in> offered (event_grid toggle env sandboxId items total_size s)"
    from offered_grid [OF this] toggled show ?thesis by auto
  qed
qed

lemma other_keeps_data: "(\<nexists>es. e = Events_fetched es) \<Longrightarrow> ev_data (view_step s e) = ev_data s"
  by (cases e) (simp_all add: view_step_def)

text \<open>The rows are those of the data, in the order the headers show.\<close>

definition table_sorted :: "events_view \<Rightarrow> bool" where
  "table_sorted s = (view_inv s \<and> ev_rows s = events_in_order (ev_sorting s) (snd (eventData s)))"

lemma step_table_sorted: "view_inv s \<Longrightarrow> legal_event e \<Longrightarrow> table_sorted (view_step s e)"
  using render_inv [OF handle_inv] by (simp add: table_sorted_def view_step_def)

definition keeps_table :: "(string \<Rightarrow> SortingState \<Rightarrow> SortingState) \<Rightarrow> events_view \<Rightarrow> events_view \<Rightarrow> bool" where
  "keeps_table toggle s t = (sorts_column toggle \<longrightarrow> table_sorted s \<longrightarrow> table_sorted t \<and> ev_data t = ev_data s)"

interpretation events_page: rendered "EventsView toggle env sandboxId items total_size" view_step "keeps_table toggle"
proof
  fix s e assume e: "e \<in> offered (EventsView toggle env sandboxId items total_size s)"
  show "keeps_table toggle s (view_step s e)" unfolding keeps_table_def
  proof (intro impI)
    assume toggle: "sorts_column toggle" and s: "table_sorted s"
    then have "view_inv s" by (simp add: table_sorted_def)
    with offered_legal [OF e toggle] show "table_sorted (view_step s e) \<and> ev_data (view_step s e) = ev_data s"
      by (simp add: step_table_sorted other_keeps_data view_inv_def [of s])
  qed
qed (auto simp: keeps_table_def)

text \<open>
  With a table library that sorts by the columns clicked, whatever the user does on the page after an answer has come, the rows
  are the events of that answer in the order the headers show.
\<close>

lemma clicked_table_sorted:
  assumes "sorts_column toggle" "\<forall>e \<in> set es. legal_event e" "es \<noteq> []"
    and s: "s = run view_step (view_init p) es" and "clicks (EventsView toggle env sandboxId items total_size) view_step s cs"
  shows "ev_rows (run view_step s cs) = events_in_order (ev_sorting (run view_step s cs)) (snd (eventData s))"
proof -
  obtain fs e where es: "es = fs @ [e]" using assms(3) by (cases es rule: rev_cases) auto
  have "view_inv (run view_step (view_init p) fs)" by (intro event_table.inv_possible_run view_init_inv) (use assms(2) es in auto)
  then have "table_sorted s" using step_table_sorted assms(2) by (simp add: s es run_snoc)
  with events_page.promise_clicks [OF assms(5)] assms(1) show ?thesis
    by (simp add: keeps_table_def table_sorted_def eventData_def)
qed

section \<open>Rows\<close>

lemma event_row_attrs: "attr_values ''data-event-row'' (event_row env sandboxId s e) = [eventKey e]"
  "attr_values ''aria-selected'' (event_row env sandboxId s e) = [if ev_selected s = Some (eventKey e) then ''true'' else ''false'']"
  by (simp_all add: event_row_def event_cells_def TraceCell_view_def attr_bool_def Let_def)

text \<open>A click selects the events with the key of its row: one row, unless two events of a trace have one name and time.\<close>

lemma clicked_row_selected:
  "attr_values ''aria-selected'' (event_row env sandboxId (view_step s (Select_row (eventKey e))) e') = [''true''] \<longleftrightarrow> eventKey e' = eventKey e"
proof -
  have "ev_selected (render u) = ev_selected u" for u by (auto simp: render_def Let_def split: option.splits)
  then show ?thesis by (auto simp: event_row_attrs view_step_def)
qed

end
