(* ===== verification/Plots.thy ===== *)
theory Plots
  imports Machine
begin

text \<open>
  A chart of the library inside a component: the two effects of \<^verbatim>\<open>ChartPane\<close> in \<^verbatim>\<open>ResourcesView.tsx\<close> and of
  \<^verbatim>\<open>DaemonChart\<close> in \<^verbatim>\<open>DaemonCharts.tsx\<close>.  The first makes a plot in the host when there is data to draw and destroys it when
  there is none any more or the component leaves; it runs when that changes.  The second gives the plot new data.
  The locale \<open>plot_owner\<close> says what such a component promises.
\<close>

record 'd plot_host =
  ph_ran :: "bool option"
  ph_plot :: "'d option"
  ph_created :: nat
  ph_destroyed :: nat

datatype 'd plot_event = Plot_render 'd bool | Plot_unmount

definition plot_fresh :: "'d plot_host" where
  "plot_fresh = \<lparr>ph_ran = None, ph_plot = None, ph_created = 0, ph_destroyed = 0\<rparr>"

definition plot_cleanup :: "'d plot_host \<Rightarrow> 'd plot_host" where
  "plot_cleanup h = (case ph_plot h of None \<Rightarrow> h | Some _ \<Rightarrow> h\<lparr>ph_plot := None, ph_destroyed := Suc (ph_destroyed h)\<rparr>)"

text \<open>The host element is rendered exactly when there is data, so it is there when the effect looks for it.\<close>

definition plot_create :: "'d \<Rightarrow> bool \<Rightarrow> 'd plot_host \<Rightarrow> 'd plot_host" where
  "plot_create data hasData h = (if ph_ran h = Some hasData then h
     else let clean = plot_cleanup h in
       (if hasData then clean\<lparr>ph_plot := Some data, ph_created := Suc (ph_created clean)\<rparr> else clean)\<lparr>ph_ran := Some hasData\<rparr>)"

definition plot_setData :: "'d \<Rightarrow> bool \<Rightarrow> 'd plot_host \<Rightarrow> 'd plot_host" where
  "plot_setData data hasData h = (if hasData then h\<lparr>ph_plot := map_option (\<lambda>_. data) (ph_plot h)\<rparr> else h)"

fun plot_step :: "'d plot_host \<Rightarrow> 'd plot_event \<Rightarrow> 'd plot_host" where
  "plot_step h (Plot_render data hasData) = plot_setData data hasData (plot_create data hasData h)"
| "plot_step h Plot_unmount = (plot_cleanup h)\<lparr>ph_ran := None\<rparr>"

section \<open>What a component with a plot promises\<close>

definition plot_inv :: "'d plot_host \<Rightarrow> bool" where
  "plot_inv h = ((ph_plot h \<noteq> None) = (ph_ran h = Some True) \<and>
     ph_created h = ph_destroyed h + (if ph_plot h = None then 0 else 1))"

locale plot_owner = event_machine step "\<lambda>s. plot_inv (host s)"
  for step :: "'s \<Rightarrow> 'e \<Rightarrow> 's" and host :: "'s \<Rightarrow> 'd plot_host" +
  fixes drawn :: "'s \<Rightarrow> 'd option"
  assumes shows_data: "plot_inv (host s) \<Longrightarrow> ph_plot (host (step s e)) = drawn (step s e)"
begin

lemma shows_current:
  assumes "plot_inv (host s)" "es \<noteq> []"
  shows "ph_plot (host (run step s es)) = drawn (run step s es)"
proof -
  obtain fs e where es: "es = fs @ [e]" using assms(2) by (cases es rule: rev_cases) auto
  show ?thesis using shows_data [OF inv_run [OF assms(1)], of fs e] by (simp add: es run_snoc)
qed

lemma none_left_behind:
  "plot_inv (host s) \<Longrightarrow> ph_created (host (run step s es)) = ph_destroyed (host (run step s es)) + (if ph_plot (host (run step s es)) = None then 0 else 1)"
  using inv_run [of s es] by (simp add: plot_inv_def)

end

lemma plot_fresh_inv: "plot_inv plot_fresh"
  by (simp add: plot_inv_def plot_fresh_def)

lemma plot_step_inv: "plot_inv h \<Longrightarrow> plot_inv (plot_step h e)"
  by (cases e) (auto simp: plot_inv_def plot_create_def plot_setData_def plot_cleanup_def Let_def split: option.splits)

lemma plot_step_shows:
  assumes "plot_inv h"
  shows "ph_plot (plot_step h (Plot_render data hasData)) = (if hasData then Some data else None)" "ph_plot (plot_step h Plot_unmount) = None"
  using assms by (auto simp: plot_inv_def plot_create_def plot_setData_def plot_cleanup_def Let_def split: option.splits)

end
