(* ===== verification/Resources_Page.thy ===== *)
theory Resources_Page
  imports Resource_Views Plots View Catalog
begin

text \<open>
  The page of the resource charts, as it is rendered and used: \<^verbatim>\<open>web/src/pages/sandbox/observability/ResourcesView.tsx\<close>.
  The address, the workspaces of the snapshot and what the poll shows are events of the environment; every event ends with a
  render, in which the four charts look at the samples.
\<close>

section \<open>State\<close>

record ResourceSeriesResult =
  rz_series :: "ResourceSample list"
  rz_source :: "string option"
  rz_availability :: "string option"
  rz_errors :: "string list option"

type_synonym plot_points = "jsnum list \<times> rat list"

record resources_page =
  rg_params :: resource_params
  rg_workspaces :: "string list"
  rg_data :: "ResourceSeriesResult option"
  rg_error :: "string option"
  rg_plots :: "string \<Rightarrow> plot_points plot_host"

definition page_samples :: "resources_page \<Rightarrow> ResourceSample list" where
  "page_samples s = (case rg_data s of None \<Rightarrow> [] | Some d \<Rightarrow> rz_series d)"

datatype resources_event = Set_scope string | Set_window int | Series_polled "string option" "ResourceSeriesResult option"
  | Snapshot_workspaces "string list" | Address_resources resource_params | Leave_resources

fun resources_handle :: "resources_page \<Rightarrow> resources_event \<Rightarrow> resources_page" where
  "resources_handle s (Set_scope scope) = s\<lparr>rg_params := resource_apply (Some scope) None (rg_params s)\<rparr>"
| "resources_handle s (Set_window w) = s\<lparr>rg_params := resource_apply None (Some w) (rg_params s)\<rparr>"
| "resources_handle s (Series_polled err data) = s\<lparr>rg_error := err, rg_data := data\<rparr>"
| "resources_handle s (Snapshot_workspaces ws) = s\<lparr>rg_workspaces := ws\<rparr>"
| "resources_handle s (Address_resources p) = s\<lparr>rg_params := p\<rparr>"
| "resources_handle s Leave_resources = s\<lparr>rg_data := None, rg_error := None\<rparr>"

text \<open>A chart is given its points; leaving the page unmounts it, and what the poll showed goes with the page.\<close>

definition ChartPane_effects :: "resources_event \<Rightarrow> (ResourceSample \<Rightarrow> rat option) \<Rightarrow> ResourceSample list \<Rightarrow> plot_points plot_host \<Rightarrow> plot_points plot_host" where
  "ChartPane_effects e value samples h =
     plot_step h (if e = Leave_resources then Plot_unmount else Plot_render (chart_data value samples) (chart_hasData value samples))"

definition resources_step :: "resources_page \<Rightarrow> resources_event \<Rightarrow> resources_page" where
  "resources_step s e = (let t = resources_handle s e in
     t\<lparr>rg_plots := (\<lambda>title. case map_of RESOURCE_CHARTS title of None \<Rightarrow> plot_fresh
        | Some value \<Rightarrow> ChartPane_effects e value (page_samples t) (rg_plots t title))\<rparr>)"

definition resources_init :: "resource_params \<Rightarrow> resources_page" where
  "resources_init p = \<lparr>rg_params = p, rg_workspaces = [], rg_data = None, rg_error = None, rg_plots = (\<lambda>_. plot_fresh)\<rparr>"

section \<open>The view\<close>

definition Metric :: "page_env \<Rightarrow> string \<Rightarrow> rat \<Rightarrow> 'e view" where
  "Metric env lab value = box ''box'' [box ''dt'' [Txt lab], box ''dd'' [Txt (en_decimals env value)]]"

definition ChartPane :: "page_env \<Rightarrow> ResourceSample list \<Rightarrow> string \<times> (ResourceSample \<Rightarrow> rat option) \<Rightarrow> 'e view" where
  "ChartPane env samples = (\<lambda>(title, value). box ''section''
     ([box ''h3'' [Txt title], box ''box'' (if chart_hasData value samples then [] else [Txt ''no samples in this window''])] @
      (case summary_of value samples of None \<Rightarrow> []
       | Some c \<Rightarrow> [El ''dl'' [(''aria-label'', title @ '' numerical summary'')] []
           [Metric env ''Latest'' (cs_latest c), Metric env ''Minimum'' (cs_min c), Metric env ''Maximum'' (cs_max c)]])))"

definition metric_text :: "page_env \<Rightarrow> metric option \<Rightarrow> string" where
  "metric_text env m = (case m of None \<Rightarrow> [] | Some (MNum n) \<Rightarrow> number_text env n
     | Some (MBool b) \<Rightarrow> (if b then ''true'' else ''false'') | Some (MStr t) \<Rightarrow> t)"

definition scope_options :: "resources_page \<Rightarrow> (string \<times> string) list" where
  "scope_options s = (''sandbox'', ''sandbox'') # map (\<lambda>w. (w, ''workspace '' @ [CHR 0xB7] @ '' '' @ w)) (rg_workspaces s)"

definition choose_scope :: "string option \<Rightarrow> resources_event" where
  "choose_scope v = Set_scope (case v of None \<Rightarrow> ''sandbox'' | Some t \<Rightarrow> t)"

definition choose_window :: "string option \<Rightarrow> resources_event" where
  "choose_window v = Set_window (case v of None \<Rightarrow> 60000 | Some t \<Rightarrow> (case to_integer (js_Number t) of None \<Rightarrow> 60000 | Some n \<Rightarrow> n))"

definition option_views :: "(string \<times> string) list \<Rightarrow> 'e view list" where
  "option_views opts = map (\<lambda>(v, l). El ''option'' [(''value'', v)] [] [Txt l]) opts"

definition resource_alerts :: "page_env \<Rightarrow> resources_page \<Rightarrow> (string \<times> string) list" where
  "resource_alerts env s = (let scope = resource_scope (rg_params s); samples = page_samples s in
     (case (rg_error s, rg_data s) of (Some m, None) \<Rightarrow> [(''Resource metrics unavailable'', m @ em_dash @ ''retrying automatically.'')] | _ \<Rightarrow> []) @
     (if cgroup_unavailable scope samples then [(''cgroup metrics unavailable'', ''cgroup metrics are unavailable in this container ('' @
        metric_text env (Option.bind (at_last samples) (\<lambda>x. map_of (rs_metrics x) ''cgroup_error'')) @ '')'' @ em_dash @
        ''disk metrics still render for workspace scopes.'')] else []) @
     (case rg_data s of None \<Rightarrow> []
      | Some d \<Rightarrow> if scope = ''sandbox'' \<and> rz_availability d = Some ''partial''
          then [(''Resource metrics partially available'', join ''; '' (case rz_errors d of None \<Rightarrow> [] | Some es \<Rightarrow> es))] else []))"

definition ResourcesView :: "page_env \<Rightarrow> resources_page \<Rightarrow> resources_event view" where
  "ResourcesView env s = (let samples = page_samples s; windows = map (\<lambda>(l, ms). (show_int ms, l)) WINDOWS in
     El ''stack'' (flag ''data-resources-view'' True) []
       ([box ''group''
          [El ''select'' [(''label'', ''Scope''), (''value'', resource_scope (rg_params s))]
             [(''change'', Send_choice (map fst (scope_options s)) choose_scope)] (option_views (scope_options s)),
           El ''select'' [(''label'', ''Window''), (''value'', number_text env (resource_windowMs (rg_params s)))]
             [(''change'', Send_choice (map fst windows) choose_window)] (option_views windows),
           caption (''auto-refresh '' @ [CHR 0xB7] @ '' '' @ show_nat (length samples) @ '' samples'' @
             (if Option.bind (rg_data s) rz_source = Some ''daemon_disk'' then '' '' @ [CHR 0xB7] @ '' daemon disk'' else []))]] @
        map (\<lambda>(title, m). El ''alert'' [(''title'', title)] [] [Txt m]) (resource_alerts env s) @
        [box ''grid'' (map (ChartPane env samples) RESOURCE_CHARTS)]))"

section \<open>Charts follow the samples\<close>

definition chart_drawn :: "string \<Rightarrow> resources_page \<Rightarrow> plot_points option" where
  "chart_drawn title s = (case map_of RESOURCE_CHARTS title of None \<Rightarrow> None
     | Some value \<Rightarrow> if chart_hasData value (page_samples s) then Some (chart_data value (page_samples s)) else None)"

lemma page_samples_plots [simp]: "page_samples (s\<lparr>rg_plots := f\<rparr>) = page_samples s"
  by (simp add: page_samples_def)

lemma leave_no_samples: "\<not> chart_hasData value (page_samples (resources_handle s Leave_resources))"
  by (simp add: page_samples_def chart_hasData_def)

lemma handle_plots [simp]: "rg_plots (resources_handle s e) = rg_plots s"
  by (cases e) simp_all

interpretation resource_plot: plot_owner resources_step "\<lambda>s. rg_plots s title" "chart_drawn title"
proof
  fix s :: resources_page and e assume inv: "plot_inv (rg_plots s title)"
  then show "plot_inv (rg_plots (resources_step s e) title)"
    by (auto simp: resources_step_def ChartPane_effects_def plot_step_inv plot_fresh_inv Let_def simp del: plot_step.simps split: option.splits)
  show "ph_plot (rg_plots (resources_step s e) title) = chart_drawn title (resources_step s e)"
    using plot_step_shows [OF inv] leave_no_samples
    by (auto simp: resources_step_def ChartPane_effects_def chart_drawn_def plot_fresh_def Let_def simp del: plot_step.simps resources_handle.simps split: option.splits)
qed

text \<open>
  After any events the plot of every chart shows the points of the samples shown, or there is none when there are not two points;
  and every plot ever made but the one shown is destroyed.
\<close>

lemma resource_charts_current:
  assumes "s = run resources_step (resources_init p) es" "es \<noteq> []" "map_of RESOURCE_CHARTS title = Some value"
  shows "ph_plot (rg_plots s title) = (if chart_hasData value (page_samples s) then Some (chart_data value (page_samples s)) else None) \<and>
    ph_created (rg_plots s title) = ph_destroyed (rg_plots s title) + (if chart_hasData value (page_samples s) then 1 else 0)"
proof -
  have init: "plot_inv (rg_plots (resources_init p) title)" by (simp add: resources_init_def plot_fresh_inv)
  have "ph_plot (rg_plots s title) = chart_drawn title s" unfolding assms(1) by (rule resource_plot.shows_current [OF init assms(2)])
  with resource_plot.none_left_behind [OF init, of es] assms(1,3) show ?thesis by (simp add: chart_drawn_def)
qed

section \<open>Choices\<close>

definition window_texts :: "string list" where
  "window_texts = map (\<lambda>(l, ms). show_int ms) WINDOWS"

lemma js_Number_show_nat: "of_nat n < max_double_bound \<Longrightarrow> js_Number (show_nat n) = Fin (of_nat n)"
  by (simp add: js_Number_digits show_nat_digits double_range_def)

lemma js_Number_window: "(l, ms) \<in> set WINDOWS \<Longrightarrow> js_Number (show_int ms) = Fin (of_int ms)"
proof -
  assume "(l, ms) \<in> set WINDOWS"
  then have "0 \<le> ms" "of_nat (nat ms) < max_double_bound" by (auto simp: WINDOWS_def max_double_bound_def)
  then show ?thesis by (simp add: show_int_def js_Number_show_nat)
qed

lemma choose_window_offered:
  assumes "v \<in> insert None (Some ` set window_texts)"
  shows "\<exists>l ms. (l, ms) \<in> set WINDOWS \<and> choose_window v = Set_window ms"
proof (cases v)
  case None
  then show ?thesis by (auto simp: choose_window_def WINDOWS_def)
next
  case (Some t)
  with assms obtain l ms where ms: "(l, ms) \<in> set WINDOWS" "t = show_int ms" by (auto simp: window_texts_def)
  with Some js_Number_window have "choose_window v = Set_window ms" by (simp add: choose_window_def)
  with ms show ?thesis by blast
qed

lemma offered_ChartPane [simp]: "offered (ChartPane env samples c) = {}"
  by (auto simp: ChartPane_def Metric_def split: prod.splits option.splits)

lemma offered_ResourcesView:
  assumes "e \<in> offered (ResourcesView env s)"
  shows "(\<exists>v \<in> set (map fst (scope_options s)). e = Set_scope v) \<or> (\<exists>l ms. (l, ms) \<in> set WINDOWS \<and> e = Set_window ms)"
proof -
  have opts: "\<Union>(offered ` set (option_views os)) = {}" for os :: "(string \<times> string) list"
    by (auto simp: option_views_def)
  have texts: "map fst (map (\<lambda>(l, ms). (show_int ms, l)) WINDOWS) = window_texts" by (simp add: window_texts_def split_def)
  from assms have "e \<in> choose_scope ` insert None (Some ` set (map fst (scope_options s))) \<or> e \<in> choose_window ` insert None (Some ` set window_texts)"
    unfolding ResourcesView_def Let_def texts by (auto simp: opts split: prod.splits)
  then show ?thesis
    using choose_window_offered by (auto simp: choose_scope_def scope_options_def)
qed

text \<open>Clicks keep the samples and the workspaces, and choose among the scopes and windows listed.\<close>

definition chooses_listed :: "resources_page \<Rightarrow> resources_page \<Rightarrow> bool" where
  "chooses_listed s t = (rg_data t = rg_data s \<and> rg_workspaces t = rg_workspaces s \<and>
     (rp_scope (rg_params t) = rp_scope (rg_params s) \<or> resource_scope (rg_params t) \<in> set (map fst (scope_options s))) \<and>
     (rp_window (rg_params t) = rp_window (rg_params s) \<or> (\<exists>l ms. (l, ms) \<in> set WINDOWS \<and> resource_windowMs (rg_params t) = Fin (of_int ms))))"

lemma chooses_listed_trans: "chooses_listed s t \<Longrightarrow> chooses_listed t u \<Longrightarrow> chooses_listed s u"
  by (auto simp: chooses_listed_def scope_options_def resource_scope_def resource_windowMs_def)

lemma resources_step_params [simp]: "rg_params (resources_step s e) = rg_params (resources_handle s e)"
    "rg_data (resources_step s e) = rg_data (resources_handle s e)" "rg_workspaces (resources_step s e) = rg_workspaces (resources_handle s e)"
  by (simp_all add: resources_step_def Let_def)

interpretation resources_page: rendered "ResourcesView env" resources_step chooses_listed
proof
  fix s e assume "e \<in> offered (ResourcesView env s)"
  from offered_ResourcesView [OF this] consider v where "v \<in> set (map fst (scope_options s))" "e = Set_scope v"
    | l ms where "(l, ms) \<in> set WINDOWS" "e = Set_window ms" by blast
  then show "chooses_listed s (resources_step s e)"
  proof cases
    case 1
    then show ?thesis by (simp add: chooses_listed_def resource_apply_def resource_scope_def)
  next
    case 2
    then have "resource_windowMs (rg_params (resources_step s e)) = Fin (of_int ms)"
      using js_Number_window by (simp add: resource_apply_def resource_windowMs_def)
    with 2 show ?thesis by (auto simp: chooses_listed_def resource_apply_def)
  qed
qed (simp add: chooses_listed_def, rule chooses_listed_trans)

text \<open>
  From an address that names no window, every request that clicks lead to asks for at most ten minutes, of the sandbox or of a
  workspace of the snapshot, unless the address named another scope.
\<close>

lemma clicked_windows_bounded:
  assumes "clicks (ResourcesView env) resources_step s es" "rp_window (rg_params s) = None" "rp_scope (rg_params s) = None"
  shows "\<exists>ms. resource_windowMs (rg_params (run resources_step s es)) = Fin (of_int ms) \<and> 60000 \<le> ms \<and> ms \<le> 600000 \<and>
    resource_scope (rg_params (run resources_step s es)) \<in> insert ''sandbox'' (set (rg_workspaces s))"
proof -
  let ?p = "rg_params (run resources_step s es)"
  from resources_page.promise_clicks [OF assms(1)] have "rp_window ?p = None \<or> (\<exists>l ms. (l, ms) \<in> set WINDOWS \<and> resource_windowMs ?p = Fin (of_int ms))"
    and scope: "rp_scope ?p = None \<or> resource_scope ?p \<in> set (map fst (scope_options s))"
    using assms(2,3) by (auto simp: chooses_listed_def)
  then have "\<exists>ms. resource_windowMs ?p = Fin (of_int ms) \<and> 60000 \<le> ms \<and> ms \<le> 600000"
    by (auto simp: resource_windowMs_def WINDOWS_def intro: exI [of _ 60000])
  with scope show ?thesis by (auto simp: scope_options_def resource_scope_def)
qed

end
