(* ===== verification/Daemon_View.thy ===== *)
theory Daemon_View
  imports Daemon_Capture Resources Js_Number
begin

text \<open>
  The daemon page: \<^verbatim>\<open>DaemonView.tsx\<close> and \<^verbatim>\<open>DaemonCharts.tsx\<close> of \<^verbatim>\<open>web/src/pages/sandbox/observability\<close>,
  over the capture hook.  Number formats of the locale and \<^verbatim>\<open>${n}\<close> of a fraction are parameters;
  drawing is the chart library's.
\<close>

section \<open>The page\<close>

datatype CaptureCadence = Standard | Close

definition RESOURCE_WINDOW_MS :: int where "RESOURCE_WINDOW_MS = 60000"
definition IDLE_MEMORY_TARGET_BYTES :: int where "IDLE_MEMORY_TARGET_BYTES = 2 * 1024 * 1024"

record daemon_page =
  dv_capturing :: bool
  dv_cadence :: CaptureCadence
  dv_hook :: capture_hook

definition daemon_enabled :: "daemon_page \<Rightarrow> bool" where
  "daemon_enabled s = (dv_capturing s \<and> ch_ready (dv_hook s) \<and> ch_error (dv_hook s) = None)"

definition daemon_poll_mode :: "daemon_page \<Rightarrow> PollMode" where
  "daemon_poll_mode s = (if dv_cadence s = Close then Fast else Slow)"

definition capture_badge :: "daemon_page \<Rightarrow> string" where
  "capture_badge s = (if dv_capturing s then ''capturing'' else ''paused'')"

text \<open>Whether a step of the hook sets a new error; a task does not read the error that is there.\<close>

fun reports :: "capture_hook \<Rightarrow> capture_event \<Rightarrow> bool" where
  "reports s (RunTask f) = (case ch_queue s of [] \<Rightarrow> False
     | t # _ \<Rightarrow> ch_error (fst (run_task f t (s\<lparr>ch_error := None\<rparr>))) \<noteq> None)"
| "reports s (RunStale k f) = (k < length (ch_stale s) \<and>
     ch_error (fst (run_task f (ch_stale s ! k) (s\<lparr>ch_error := None\<rparr>))) \<noteq> None)"
| "reports s _ = False"

text \<open>
  Events: another sandbox, a step of the hook, the buttons, and an answer of the poll; an answer kept
  from another key is a placeholder and is not recorded.
\<close>

datatype page_event = Page_sandbox string | Hook_event capture_event | Toggle_capturing | Set_cadence CaptureCadence
  | Daemon_answered "DaemonProcessMetrics option" bool

fun page_step :: "daemon_page \<Rightarrow> page_event \<Rightarrow> daemon_page" where
  "page_step s (Page_sandbox i) = s\<lparr>dv_hook := capture_step (dv_hook s) (Mount i), dv_capturing := True\<rparr>"
| "page_step s (Hook_event e) = s\<lparr>dv_hook := capture_step (dv_hook s) e,
     dv_capturing := (if reports (dv_hook s) e then False else dv_capturing s)\<rparr>"
| "page_step s Toggle_capturing = s\<lparr>dv_capturing := \<not> dv_capturing s\<rparr>"
| "page_step s (Set_cadence c) = s\<lparr>dv_cadence := c\<rparr>"
| "page_step s (Daemon_answered daemon placeholder) = (case daemon of None \<Rightarrow> s
     | Some d \<Rightarrow> if placeholder then s
         else s\<lparr>dv_hook := capture_step (dv_hook s) (RecordSample (ch_ready (dv_hook s)) d)\<rparr>)"

definition page_init :: "capture_hook \<Rightarrow> daemon_page" where
  "page_init h = \<lparr>dv_capturing = True, dv_cadence = Standard, dv_hook = h\<rparr>"

definition bufferDurationMs :: "DaemonMetricPoint list \<Rightarrow> int" where
  "bufferDurationMs history = (if length history < 2 then 0
     else dm_sampled_at_unix_ms (last history) - dm_sampled_at_unix_ms (hd history))"

definition clear_disabled :: "daemon_page \<Rightarrow> bool" where
  "clear_disabled s = (ch_storedCount (dv_hook s) = 0)"

text \<open>The notices under the header, in order.\<close>

definition daemon_alerts :: "daemon_page \<Rightarrow> string option \<Rightarrow> (DaemonProcessMetrics option) option \<Rightarrow> (string \<times> string) list" where
  "daemon_alerts s err data =
     (case ch_error (dv_hook s) of None \<Rightarrow> []
      | Some e \<Rightarrow> [(''Disk capture unavailable'', e @ ''. Capture has stopped instead of retaining history in memory.'')]) @
     (case err of None \<Rightarrow> []
      | Some e \<Rightarrow> [(if data \<noteq> None then ''Daemon refresh failed'' else ''Daemon metrics unavailable'',
          e @ '' '' @ [CHR 0xE2, CHR 0x80, CHR 0x94] @ '' '' @
          (if dv_capturing s then ''retrying automatically.'' else ''resume capture to retry.''))]) @
     (if err = None \<and> (data = None \<or> \<not> ch_ready (dv_hook s))
      then [(''Starting daemon capture'', (if ch_ready (dv_hook s) then ''Waiting for the first process and container sample'' else ''Opening the disk-backed capture store'') @
        [CHR 0xE2, CHR 0x80, CHR 0xA6])] else []) @
     (if data = Some None then [(''Daemon self-metrics are not supported by this backend'',
        ''The container metrics are available, but this backend does not yet expose the bounded daemon self-metrics operation. Rebuild and restart the gateway and sandbox daemon.'')] else []) @
     (case data of Some (Some d) \<Rightarrow> if dm_available d then []
        else [(''Daemon procfs collection failed'', case dm_error d of Some e \<Rightarrow> e | None \<Rightarrow> ''The daemon did not report a collection error.'')]
      | _ \<Rightarrow> [])"

section \<open>Figures\<close>

record daemon_activity =
  da_label :: string
  da_color :: string
  da_targetEligible :: bool

definition daemonActivity :: "'a DaemonProcessMetrics_scheme \<Rightarrow> daemon_activity" where
  "daemonActivity daemon =
     (let activeCommands = (case dm_active_commands daemon of None \<Rightarrow> 0 | Some n \<Rightarrow> n);
          openWorkspaces = (case dm_open_workspaces daemon of None \<Rightarrow> 0 | Some n \<Rightarrow> n)
      in if 0 < activeCommands then \<lparr>da_label = show_int activeCommands @ '' active commands'', da_color = ''blue'', da_targetEligible = False\<rparr>
         else if 0 < openWorkspaces then \<lparr>da_label = show_int openWorkspaces @ '' idle namespaces'', da_color = ''yellow'', da_targetEligible = False\<rparr>
         else \<lparr>da_label = ''no managed namespaces'', da_color = ''success'', da_targetEligible = True\<rparr>)"

definition latestContainerMemory :: "ResourceSample list \<Rightarrow> jsnum option" where
  "latestContainerMemory series = metric_num (Option.bind (at_last series) (\<lambda>s. map_of (rs_metrics s) ''mem_cur''))"

definition bytes_text :: "(rat \<Rightarrow> string) \<Rightarrow> int \<Rightarrow> string" where
  "bytes_text show_number n = formatBytes show_number (Fin (of_int n))"

definition budgetValue :: "(rat \<Rightarrow> string) \<Rightarrow> bool \<Rightarrow> int option \<Rightarrow> string" where
  "budgetValue show_number targetEligible excess = (if \<not> targetEligible then ''Not evaluated''
     else case excess of None \<Rightarrow> ''Unavailable''
       | Some e \<Rightarrow> if e \<le> 0 then ''Within target'' else ''+'' @ bytes_text show_number e)"

definition formatNullableBytes :: "(rat \<Rightarrow> string) \<Rightarrow> int option \<Rightarrow> string" where
  "formatNullableBytes show_number v = (case v of None \<Rightarrow> ''Unavailable'' | Some n \<Rightarrow> bytes_text show_number n)"

definition formatNullableCount :: "(int \<Rightarrow> string) \<Rightarrow> int option \<Rightarrow> string" where
  "formatNullableCount toLocaleString v = (case v of None \<Rightarrow> ''Unavailable'' | Some n \<Rightarrow> toLocaleString n)"

definition formatPercent :: "rat option \<Rightarrow> string" where
  "formatPercent v = (case v of None \<Rightarrow> ''Waiting'' | Some q \<Rightarrow> toFixed 1 q @ ''%'')"

definition formatMicroseconds :: "(rat \<Rightarrow> string) \<Rightarrow> int option \<Rightarrow> string" where
  "formatMicroseconds two_digits v = (case v of None \<Rightarrow> ''Unavailable'' | Some n \<Rightarrow> two_digits (of_int n / 1000000) @ ''s'')"

definition formatSpan :: "int \<Rightarrow> string" where
  "formatSpan ms = (if ms < 1000 then show_int ms @ '' ms''
     else if ms < 60000 then show_int (math_round (of_int ms / 1000)) @ '' s''
     else toFixed 1 (of_int ms / 60000) @ '' min'')"

text \<open>The memory outside the daemon and the distance from the idle target.\<close>

definition memory_gap :: "jsnum option \<Rightarrow> DaemonMetricPoint \<Rightarrow> rat option" where
  "memory_gap containerMemory current = (case (containerMemory, dm_resident_memory_bytes current) of
     (Some (Fin c), Some resident) \<Rightarrow> Some (max (c - of_int resident) 0) | _ \<Rightarrow> None)"

definition target_excess :: "DaemonMetricPoint \<Rightarrow> int option" where
  "target_excess current = map_option (\<lambda>b. b - IDLE_MEMORY_TARGET_BYTES)
     (case dm_proportional_set_size_bytes current of Some b \<Rightarrow> Some b | None \<Rightarrow> dm_resident_memory_bytes current)"

text \<open>The cards: label and value; \<open>n\<close> and \<open>cnt\<close> are the number formats.\<close>

definition SummaryGrid :: "(rat \<Rightarrow> string) \<Rightarrow> (int \<Rightarrow> string) \<Rightarrow> DaemonMetricPoint \<Rightarrow> jsnum option \<Rightarrow> bool \<Rightarrow> (string \<times> string) list" where
  "SummaryGrid n cnt current containerMemory targetEligible =
     [(''Container memory'', case containerMemory of None \<Rightarrow> ''Unavailable'' | Some m \<Rightarrow> formatBytes n m),
      (''Daemon RSS'', formatNullableBytes n (dm_resident_memory_bytes current)),
      (''Daemon PSS'', formatNullableBytes n (dm_proportional_set_size_bytes current)),
      (''Daemon USS'', formatNullableBytes n (dm_unique_set_size_bytes current)),
      (''CPU'', formatPercent (dp_cpu_percent current)),
      (''Threads'', formatNullableCount cnt (dm_thread_count current)),
      (''Open FDs'', formatNullableCount cnt (dm_file_descriptor_count current)),
      (''Idle 2 MiB target'', budgetValue n targetEligible (target_excess current))]"

definition target_alarm :: "DaemonMetricPoint \<Rightarrow> bool \<Rightarrow> bool" where
  "target_alarm current targetEligible = (targetEligible \<and> (case target_excess current of None \<Rightarrow> False | Some e \<Rightarrow> 0 < e))"

definition middot :: string where "middot = [CHR '' '', CHR 0xB7, CHR '' '']"

definition DaemonDiagnostics :: "(rat \<Rightarrow> string) \<Rightarrow> (int \<Rightarrow> string) \<Rightarrow> (rat \<Rightarrow> string) \<Rightarrow> DaemonMetricPoint \<Rightarrow> (string \<times> string) list" where
  "DaemonDiagnostics n cnt two_digits current =
     [(''Process'', (case dm_name current of None \<Rightarrow> ''unknown'' | Some x \<Rightarrow> x) @ middot @ ''PID '' @ show_int (dm_pid current)),
      (''Virtual memory'', formatNullableBytes n (dm_virtual_memory_bytes current)),
      (''Data mappings'', formatNullableBytes n (dm_data_memory_bytes current)),
      (''Peak RSS'', formatNullableBytes n (dm_peak_resident_memory_bytes current)),
      (''CPU time'', formatMicroseconds two_digits (dm_cpu_time_us current)),
      (''Physical I/O'', formatNullableBytes n (dm_io_read_bytes current) @ '' read'' @ middot @ formatNullableBytes n (dm_io_write_bytes current) @ '' written''),
      (''I/O syscalls'', formatNullableCount cnt (dm_read_syscalls current) @ '' read'' @ middot @ formatNullableCount cnt (dm_write_syscalls current) @ '' write''),
      (''Context switches'', formatNullableCount cnt (dm_voluntary_context_switches current) @ '' voluntary'' @ middot @
         formatNullableCount cnt (dm_involuntary_context_switches current) @ '' involuntary'')]"

definition warnings_badge :: "DaemonMetricPoint \<Rightarrow> string" where
  "warnings_badge current = (if dm_warnings current \<noteq> [] then show_nat (length (dm_warnings current)) @ '' warnings'' else ''complete sample'')"

definition capture_filename :: "string \<Rightarrow> string \<Rightarrow> string" where
  "capture_filename sandboxId exportedAt = ''daemon-capture-'' @ sandboxId @ ''-'' @
     map (\<lambda>c. if c = CHR '':'' then CHR ''-'' else c) exportedAt @ ''.json''"

section \<open>Charts\<close>

record chart_series =
  se_label :: string
  se_value :: "DaemonMetricPoint \<Rightarrow> rat option"
  se_format :: "rat \<Rightarrow> string"

definition gauge :: "(DaemonMetricPoint \<Rightarrow> int option) \<Rightarrow> DaemonMetricPoint \<Rightarrow> rat option" where
  "gauge f p = map_option of_int (f p)"

text \<open>\<open>formatCompact\<close> is the locale's short number format, \<open>n\<close> the text of a number.\<close>

definition byte_series :: "(rat \<Rightarrow> string) \<Rightarrow> string \<Rightarrow> (DaemonMetricPoint \<Rightarrow> int option) \<Rightarrow> chart_series" where
  "byte_series n label f = \<lparr>se_label = label, se_value = gauge f, se_format = (\<lambda>q. formatBytes n (Fin q))\<rparr>"

definition DAEMON_CHARTS :: "(rat \<Rightarrow> string) \<Rightarrow> (rat \<Rightarrow> string) \<Rightarrow> (string \<times> chart_series list) list" where
  "DAEMON_CHARTS n formatCompact =
     [(''Memory footprint'', [byte_series n ''RSS'' dm_resident_memory_bytes, byte_series n ''PSS'' dm_proportional_set_size_bytes,
         byte_series n ''USS'' dm_unique_set_size_bytes]),
      (''Resident composition'', [byte_series n ''Anonymous'' dm_anonymous_memory_bytes, byte_series n ''File'' dm_file_memory_bytes,
         byte_series n ''Shared'' dm_shared_memory_bytes, byte_series n ''Swap'' dm_swap_bytes]),
      (''CPU'', [\<lparr>se_label = ''CPU'', se_value = dp_cpu_percent, se_format = (\<lambda>q. toFixed 1 q @ ''%'')\<rparr>]),
      (''Storage I/O'', [\<lparr>se_label = ''Read'', se_value = dp_io_read_bytes_per_second, se_format = (\<lambda>q. formatBytes n (Fin q) @ ''/s'')\<rparr>,
         \<lparr>se_label = ''Write'', se_value = dp_io_write_bytes_per_second, se_format = (\<lambda>q. formatBytes n (Fin q) @ ''/s'')\<rparr>]),
      (''Runtime handles'', [\<lparr>se_label = ''Threads'', se_value = gauge dm_thread_count, se_format = formatCompact\<rparr>,
         \<lparr>se_label = ''FDs'', se_value = gauge dm_file_descriptor_count, se_format = formatCompact\<rparr>]),
      (''Context switching'', [\<lparr>se_label = ''Switches'', se_value = dp_context_switches_per_second, se_format = (\<lambda>q. formatCompact q @ ''/s'')\<rparr>])]"

definition daemon_chart_data :: "chart_series list \<Rightarrow> DaemonMetricPoint list \<Rightarrow> rat list \<times> rat option list list" where
  "daemon_chart_data series history =
     (map (\<lambda>p. of_int (dm_sampled_at_unix_ms p) / 1000) history, map (\<lambda>c. map (se_value c) history) series)"

definition daemon_chart_hasData :: "chart_series list \<Rightarrow> DaemonMetricPoint list \<Rightarrow> bool" where
  "daemon_chart_hasData series history =
     (1 < length history \<and> list_ex (list_ex (\<lambda>v. v \<noteq> None)) (snd (daemon_chart_data series history)))"

text \<open>The loop from the end of the history to the first value.\<close>

definition latestValue :: "DaemonMetricPoint list \<Rightarrow> (DaemonMetricPoint \<Rightarrow> rat option) \<Rightarrow> rat option" where
  "latestValue history value = first_some value (rev history)"

definition chart_legend :: "chart_series list \<Rightarrow> DaemonMetricPoint list \<Rightarrow> (string \<times> string) list" where
  "chart_legend series history = map (\<lambda>c. (se_label c, case latestValue history (se_value c) of
     None \<Rightarrow> ''Unavailable'' | Some q \<Rightarrow> se_format c q)) series"

section \<open>Laws\<close>

lemma chart_aligned: "vs \<in> set (snd (daemon_chart_data series history)) \<Longrightarrow> length vs = length (fst (daemon_chart_data series history))"
  by (auto simp: daemon_chart_data_def)

lemma memory_gap_nonneg: "memory_gap c p = Some g \<Longrightarrow> 0 \<le> g"
  by (auto simp: memory_gap_def split: option.splits jsnum.splits)

lemma alarm_iff_budget:
  "target_alarm p eligible \<longleftrightarrow> budgetValue n eligible (target_excess p) \<notin> {''Not evaluated'', ''Unavailable'', ''Within target''}"
  by (auto simp: target_alarm_def budgetValue_def split: option.splits)

text \<open>
  A failure of the store stops the capture; resuming it then changes the badge only: it says
  capturing while the poll stays off.
\<close>

lemma failure_stops: "reports (dv_hook s) e \<Longrightarrow> \<not> dv_capturing (page_step s (Hook_event e))"
  by simp

lemma resume_without_store:
  assumes "ch_error (dv_hook s) \<noteq> None" "\<not> dv_capturing s"
  shows "capture_badge (page_step s Toggle_capturing) = ''capturing'' \<and> \<not> daemon_enabled (page_step s Toggle_capturing)"
  using assms by (simp add: capture_badge_def daemon_enabled_def)

end
