(* ===== verification/Daemon_Page.thy ===== *)
theory Daemon_Page
  imports Daemon_View Plots View Json_Pretty
begin

text \<open>
  The daemon page as it is rendered and used: \<^verbatim>\<open>DaemonView.tsx\<close> and \<^verbatim>\<open>DaemonCharts.tsx\<close> of
  \<^verbatim>\<open>web/src/pages/sandbox/observability\<close>, over the page and hook of \<open>Daemon_View\<close>.  What the poll shows is an event; an
  export waits for the queue of the capture, which is done at some later moment, and then reads the store.  The JSON of a sample is
  that of the object it is, a parameter.
\<close>

section \<open>State\<close>

type_synonym daemon_points = "rat list \<times> rat option list list"

record daemon_screen =
  ds_page :: daemon_page
  ds_error :: "string option"
  ds_data :: "(DaemonProcessMetrics option \<times> ResourceSample list) option"
  ds_exports :: "(nat \<times> string) list"
  ds_files :: "(string \<times> string) list"
  ds_plots :: "string \<Rightarrow> daemon_points plot_host"

datatype screen_event = On_page page_event | Daemon_polled "DaemonProcessMetrics option" "ResourceSample list" bool
  | Daemon_failed string | Export_click | Export_read nat string "string option"

abbreviation screen_hook :: "daemon_screen \<Rightarrow> capture_hook" where
  "screen_hook s \<equiv> dv_hook (ds_page s)"

definition export_document :: "(DaemonMetricPoint \<Rightarrow> json) \<Rightarrow> string \<Rightarrow> string \<Rightarrow> DaemonMetricPoint list \<Rightarrow> json" where
  "export_document point_json sandboxId exportedAt history =
     JObj [(''sandbox_id'', JStr sandboxId), (''exported_at'', JStr exportedAt), (''samples'', JArr (map point_json history))]"

text \<open>The file that the link downloads: its name and its text.\<close>

definition exportCapture :: "(DaemonMetricPoint \<Rightarrow> json) \<Rightarrow> string \<Rightarrow> string \<Rightarrow> DaemonMetricPoint list \<Rightarrow> string \<times> string" where
  "exportCapture point_json sandboxId exportedAt history =
     (capture_filename sandboxId exportedAt, JSON_pretty (export_document point_json sandboxId exportedAt history))"

text \<open>The capture is read for the sandbox of the click; a failure is reported to the generation of the click.\<close>

definition export_settled :: "(DaemonMetricPoint \<Rightarrow> json) \<Rightarrow> nat \<times> string \<Rightarrow> string \<Rightarrow> string option \<Rightarrow> daemon_screen \<Rightarrow> daemon_screen" where
  "export_settled point_json request exportedAt failure s = (let (generation, sandboxId) = request in
     case failure of
       Some m \<Rightarrow> s\<lparr>ds_page := (ds_page s)\<lparr>dv_hook := reportFailure generation m (screen_hook s),
          dv_capturing := (dv_capturing (ds_page s) \<and> generation \<noteq> ch_generation (screen_hook s))\<rparr>\<rparr>
     | None \<Rightarrow> s\<lparr>ds_files := ds_files s @ [exportCapture point_json sandboxId exportedAt
          (readDaemonCapture sandboxId DAEMON_HISTORY_LIMIT (ch_db (screen_hook s)))]\<rparr>)"

fun screen_handle :: "(DaemonMetricPoint \<Rightarrow> json) \<Rightarrow> daemon_screen \<Rightarrow> screen_event \<Rightarrow> daemon_screen" where
  "screen_handle point_json s (On_page e) = s\<lparr>ds_page := page_step (ds_page s) e\<rparr>"
| "screen_handle point_json s (Daemon_polled d series placeholder) =
     s\<lparr>ds_error := None, ds_data := Some (d, series), ds_page := page_step (ds_page s) (Daemon_answered d placeholder)\<rparr>"
| "screen_handle point_json s (Daemon_failed m) = s\<lparr>ds_error := Some m\<rparr>"
| "screen_handle point_json s Export_click =
     s\<lparr>ds_exports := ds_exports s @ [(ch_generation (screen_hook s), ch_sandbox (screen_hook s))]\<rparr>"
| "screen_handle point_json s (Export_read k exportedAt failure) = (if length (ds_exports s) \<le> k then s
     else export_settled point_json (ds_exports s ! k) exportedAt failure
       (s\<lparr>ds_exports := take k (ds_exports s) @ drop (Suc k) (ds_exports s)\<rparr>))"

section \<open>Charts\<close>

definition DAEMON_SUBTITLES :: "string list" where
  "DAEMON_SUBTITLES =
     [''RSS is resident pages; PSS shares mapped pages proportionally; USS is private memory'',
      ''Kernel-reported RSS categories plus swapped anonymous pages'',
      ''One process core equals 100%; derived from cumulative user + system CPU time'',
      ''Physical read and write bytes per second reported by procfs'',
      ''Thread and open file descriptor counts; upward drift is a strong leak signal'',
      ''Voluntary and involuntary process switches combined per second'']"

definition page_charts :: "page_env \<Rightarrow> (string \<times> chart_series list) list" where
  "page_charts env = DAEMON_CHARTS (en_number env) (en_compact env)"

text \<open>The charts are mounted while there is a current sample.\<close>

definition DaemonChart_effects :: "chart_series list \<Rightarrow> DaemonMetricPoint list \<Rightarrow> daemon_points plot_host \<Rightarrow> daemon_points plot_host" where
  "DaemonChart_effects series history h = plot_step h (if history = [] then Plot_unmount
     else Plot_render (daemon_chart_data series history) (daemon_chart_hasData series history))"

definition screen_step :: "page_env \<Rightarrow> (DaemonMetricPoint \<Rightarrow> json) \<Rightarrow> daemon_screen \<Rightarrow> screen_event \<Rightarrow> daemon_screen" where
  "screen_step env point_json s e = (let t = screen_handle point_json s e in
     t\<lparr>ds_plots := (\<lambda>title. case map_of (page_charts env) title of None \<Rightarrow> plot_fresh
        | Some series \<Rightarrow> DaemonChart_effects series (ch_history (screen_hook t)) (ds_plots t title))\<rparr>)"

definition screen_init :: "capture_hook \<Rightarrow> daemon_screen" where
  "screen_init h = \<lparr>ds_page = page_init h, ds_error = None, ds_data = None, ds_exports = [], ds_files = [], ds_plots = (\<lambda>_. plot_fresh)\<rparr>"

definition DaemonChart :: "DaemonMetricPoint list \<Rightarrow> string \<Rightarrow> string \<times> chart_series list \<Rightarrow> 'e view" where
  "DaemonChart history subtitle = (\<lambda>(title, series). El ''section'' [(''aria-label'', title)] []
     ([caption title, caption subtitle,
       box ''box'' (if daemon_chart_hasData series history then [] else [caption (''Waiting for a second sample'' @ ellipsis)]),
       box ''stack'' (map (\<lambda>(l, v). box ''group'' [caption l, caption v]) (chart_legend series history))]))"

definition DaemonHistoryCharts :: "page_env \<Rightarrow> DaemonMetricPoint list \<Rightarrow> 'e view" where
  "DaemonHistoryCharts env history = El ''grid'' (flag ''data-daemon-history-charts'' True) []
     (map2 (DaemonChart history) DAEMON_SUBTITLES (page_charts env))"

section \<open>Figures\<close>

definition CaptureFact :: "string \<times> string \<Rightarrow> 'e view" where
  "CaptureFact = (\<lambda>(l, v). box ''dl'' [box ''dt'' [Txt l], box ''dd'' [Txt v]])"

definition MetricCard :: "string \<Rightarrow> string \<Rightarrow> string \<Rightarrow> string \<Rightarrow> 'e view" where
  "MetricCard l v detail color = El ''dl'' [(''borderTopColor'', ''var(--mantine-color-'' @ color @ ''-6)'')] []
     [box ''dt'' [Txt l], box ''dd'' [Txt v], caption detail]"

definition card_details :: "page_env \<Rightarrow> DaemonMetricPoint \<Rightarrow> jsnum option \<Rightarrow> bool \<Rightarrow> string list" where
  "card_details env current containerMemory targetEligible =
     [case memory_gap containerMemory current of None \<Rightarrow> ''Manager cgroup total'' | Some gap \<Rightarrow> formatBytes (en_number env) (Fin gap) @ '' outside daemon RSS'',
      ''Resident pages mapped by the process'', ''Shared pages divided proportionally'', ''Private clean + dirty pages'',
      ''100% equals one fully used core'',
      ''State '' @ (case dm_state current of None \<Rightarrow> ''unavailable'' | Some st \<Rightarrow> st),
      ''Swap '' @ formatNullableBytes (en_number env) (dm_swap_bytes current),
      if targetEligible then ''Compared using PSS, then RSS'' else ''Evaluated only with no managed namespaces'']"

definition SummaryGrid_view :: "page_env \<Rightarrow> DaemonMetricPoint \<Rightarrow> jsnum option \<Rightarrow> bool \<Rightarrow> 'e view" where
  "SummaryGrid_view env current containerMemory targetEligible = El ''grid'' (flag ''data-daemon-summary'' True) []
     (map2 (\<lambda>(l, v) (detail, color). MetricCard l v detail color)
       (SummaryGrid (en_number env) (en_locale env) current containerMemory targetEligible)
       (zip (card_details env current containerMemory targetEligible)
         (replicate 7 ''eyeBlue'' @ [if target_alarm current targetEligible then ''danger'' else ''success''])))"

definition DIAGNOSTIC_MEANINGS :: "string list" where
  "DIAGNOSTIC_MEANINGS =
     [''Identity and host PID inside the sandbox container'', ''Mapped address space; not physical memory usage'',
      ''Writable data, heap, and anonymous mappings'', ''High-water resident set since process start'',
      ''Cumulative user + system CPU'', ''Cumulative storage bytes'', ''Cumulative syscall count'', ''Cumulative scheduler switches'']"

definition DaemonDiagnostics_view :: "page_env \<Rightarrow> DaemonMetricPoint \<Rightarrow> 'e view" where
  "DaemonDiagnostics_view env current = El ''section'' [(''aria-labelledby'', ''daemon-diagnostics-title'')] []
     ([box ''group'' [caption ''Raw process diagnostics'', caption ''Current counters retained in exported captures for offline comparison'',
         caption (warnings_badge current)],
       box ''table'' (box ''tr'' (map (\<lambda>h. box ''th'' [Txt h]) [''Metric'', ''Current'', ''Interpretation'']) #
         map2 (\<lambda>(metric, v) meaning. box ''tr'' (map (\<lambda>t. box ''td'' [Txt t]) [metric, v, meaning]))
           (DaemonDiagnostics (en_number env) (en_locale env) (en_decimals env) current) DIAGNOSTIC_MEANINGS),
       box ''box'' (caption ''Daemon cgroup membership'' #
         (if dm_cgroup_memberships current \<noteq> [] then map (\<lambda>m. box ''code'' [Txt m]) (dm_cgroup_memberships current) else [caption ''Not reported''])),
       box ''box'' (caption ''Collection warnings'' #
         (if dm_warnings current \<noteq> [] then map caption (dm_warnings current) else [caption ''None'']))] @
      show_when (dm_open_workspaces current = None \<or> dm_open_workspaces current = Some 0)
        (caption ''No managed namespace exists. Any gap between container memory and daemon RSS can be page cache, kernel memory, or an unmanaged process such as a direct container exec.''))"

section \<open>The page\<close>

definition capture_facts :: "page_env \<Rightarrow> daemon_screen \<Rightarrow> (string \<times> string) list" where
  "capture_facts env s = (let h = screen_hook s; current = at_last (ch_history h) in
     [(''Sample interval'', if dv_cadence (ds_page s) = Close then ''400 ms'' else ''2 s''),
      (''Captured on disk'', show_nat (ch_storedCount h) @ '' / '' @ show_nat DAEMON_HISTORY_LIMIT),
      (''Rendered window'', show_nat (length (ch_history h)) @ '' / '' @ show_nat DAEMON_VISIBLE_HISTORY_LIMIT),
      (''Buffer span'', formatSpan (bufferDurationMs (ch_history h))),
      (''Last sample'', case current of None \<Rightarrow> ''Waiting'' | Some p \<Rightarrow> formatTimestamp env (dm_sampled_at_unix_ms p)),
      (''PID'', case current of None \<Rightarrow> ''Unknown'' | Some p \<Rightarrow> show_int (dm_pid p))])"

definition choose_cadence :: "string option \<Rightarrow> screen_event" where
  "choose_cadence v = On_page (Set_cadence (if v = Some ''close'' then Close else Standard))"

definition screen_activity :: "daemon_screen \<Rightarrow> daemon_activity option" where
  "screen_activity s = map_option daemonActivity (Option.bind (ds_data s) fst)"

definition capture_buttons :: "daemon_screen \<Rightarrow> screen_event view list" where
  "capture_buttons s = (let capturing = dv_capturing (ds_page s); none = clear_disabled (ds_page s) in
     [El ''button'' [(''leftSection'', if capturing then ''Pause'' else ''Play'')] [(''click'', Send (On_page Toggle_capturing))]
        [Txt (if capturing then ''Pause'' else ''Resume'')],
      El ''button'' (flag ''disabled'' none) [(''click'', Send (On_page (Hook_event ClearCapture)))] [Txt ''Clear''],
      El ''button'' (flag ''disabled'' none) [(''click'', Send Export_click)] [Txt ''Export JSON'']])"

definition DaemonView :: "page_env \<Rightarrow> daemon_screen \<Rightarrow> screen_event view" where
  "DaemonView env s = (let page = ds_page s; h = screen_hook s in
     El ''stack'' (flag ''data-daemon-view'' True) []
       ([box ''section''
          [box ''group'' ([caption ''Daemon diagnostic capture'', caption (capture_badge page)] @
             (case screen_activity s of None \<Rightarrow> [] | Some a \<Rightarrow> [El ''badge'' [(''color'', da_color a)] [] [Txt (da_label a)]]) @
             [caption ''Process-level procfs metrics correlated with manager-owned container memory'']),
           box ''group'' (El ''segments'' [(''aria-label'', ''Capture cadence''), (''value'', if dv_cadence page = Close then ''close'' else ''standard'')]
              [(''change'', Send_choice [''standard'', ''close''] choose_cadence)] [caption ''2 s'', caption ''400 ms''] # capture_buttons s),
           box ''group'' (map CaptureFact (capture_facts env s))],
         El ''alert'' [(''title'', ''Disk-backed diagnostic mode'')] []
           [Txt ''This tab contacts the daemon and reads procfs at the selected cadence. History is capped in browser IndexedDB; only the visible chart window is materialized while this tab is open. No history is retained by the daemon.'']] @
        map (\<lambda>(title, m). El ''alert'' [(''title'', title)] [] [Txt m]) (daemon_alerts page (ds_error s) (map_option fst (ds_data s))) @
        (case at_last (ch_history h) of None \<Rightarrow> []
         | Some current \<Rightarrow>
             [SummaryGrid_view env current (latestContainerMemory (case ds_data s of None \<Rightarrow> [] | Some (_, series) \<Rightarrow> series))
                (case screen_activity s of None \<Rightarrow> False | Some a \<Rightarrow> da_targetEligible a),
              DaemonHistoryCharts env (ch_history h),
              DaemonDiagnostics_view env current])))"

section \<open>Charts follow the history\<close>

definition daemon_drawn :: "page_env \<Rightarrow> string \<Rightarrow> daemon_screen \<Rightarrow> daemon_points option" where
  "daemon_drawn env title s = (case map_of (page_charts env) title of None \<Rightarrow> None
     | Some series \<Rightarrow> let history = ch_history (screen_hook s) in
         if daemon_chart_hasData series history then Some (daemon_chart_data series history) else None)"

lemma export_keeps: "ds_plots (export_settled point_json r when f s) = ds_plots s" "ds_exports (export_settled point_json r when f s) = ds_exports s"
  by (simp_all add: export_settled_def split: option.splits prod.splits)

lemma screen_handle_plots [simp]: "ds_plots (screen_handle point_json s e) = ds_plots s"
  by (cases e) (simp_all add: export_keeps)

lemma screen_step_keeps [simp]: "ds_page (screen_step env point_json s e) = ds_page (screen_handle point_json s e)"
  "ds_files (screen_step env point_json s e) = ds_files (screen_handle point_json s e)"
  "ds_exports (screen_step env point_json s e) = ds_exports (screen_handle point_json s e)"
  by (simp_all add: screen_step_def Let_def)

lemma no_history_no_data [simp]: "\<not> daemon_chart_hasData series []"
  by (simp add: daemon_chart_hasData_def)

interpretation daemon_plot: plot_owner "screen_step env point_json" "\<lambda>s. ds_plots s title" "daemon_drawn env title"
proof
  fix s :: daemon_screen and e assume inv: "plot_inv (ds_plots s title)"
  then show "plot_inv (ds_plots (screen_step env point_json s e) title)"
    by (auto simp: screen_step_def DaemonChart_effects_def plot_step_inv plot_fresh_inv Let_def simp del: plot_step.simps split: option.splits)
  show "ph_plot (ds_plots (screen_step env point_json s e) title) = daemon_drawn env title (screen_step env point_json s e)"
    using plot_step_shows [OF inv]
    by (auto simp: screen_step_def DaemonChart_effects_def daemon_drawn_def plot_fresh_def Let_def simp del: plot_step.simps screen_handle.simps split: option.splits)
qed

text \<open>After any events a chart shows the history shown, or nothing when it has no two points with a value; no plot is left behind.\<close>

lemma daemon_charts_current:
  assumes "s = run (screen_step env point_json) (screen_init h) es" "es \<noteq> []" "map_of (page_charts env) title = Some series"
  defines "history \<equiv> ch_history (screen_hook s)"
  shows "ph_plot (ds_plots s title) = (if daemon_chart_hasData series history then Some (daemon_chart_data series history) else None) \<and>
    ph_created (ds_plots s title) = ph_destroyed (ds_plots s title) + (if daemon_chart_hasData series history then 1 else 0)"
proof -
  have init: "plot_inv (ds_plots (screen_init h) title)" by (simp add: screen_init_def plot_fresh_inv)
  have "ph_plot (ds_plots s title) = daemon_drawn env title s" unfolding assms(1) by (rule daemon_plot.shows_current [OF init assms(2)])
  with daemon_plot.none_left_behind [OF init, of env point_json es] assms(1,3) show ?thesis
    by (simp add: daemon_drawn_def history_def Let_def)
qed

section \<open>What the page offers\<close>

lemma offered_figures [simp]: "offered (CaptureFact p) = {}" "offered (MetricCard l v d c) = {}" "offered (DaemonChart history subtitle chart) = {}"
  by (auto simp: CaptureFact_def MetricCard_def DaemonChart_def split: prod.splits)

lemma offered_parts [simp]: "offered (DaemonHistoryCharts env history) = {}" "offered (SummaryGrid_view env current c el) = {}"
    "offered (DaemonDiagnostics_view env current) = {}"
  by (auto simp: DaemonHistoryCharts_def SummaryGrid_view_def DaemonDiagnostics_view_def set_zip split: prod.splits if_splits)

lemma offered_DaemonView:
  "offered (DaemonView env s) = {On_page Toggle_capturing, On_page (Set_cadence Standard), On_page (Set_cadence Close)} \<union>
     (if clear_disabled (ds_page s) then {} else {On_page (Hook_event ClearCapture), Export_click})"
proof -
  define badges :: "screen_event view list" where "badges = (case screen_activity s of None \<Rightarrow> [] | Some a \<Rightarrow> [El ''badge'' [(''color'', da_color a)] [] [Txt (da_label a)]])"
  have badges: "\<Union>(offered ` set badges) = {}" by (cases "screen_activity s") (simp_all add: badges_def)
  show ?thesis unfolding DaemonView_def Let_def badges_def [symmetric]
    using badges by (auto simp: capture_buttons_def choose_cadence_def Let_def split: prod.splits option.splits)
qed

text \<open>No click changes the history, the store or the files: it is only asked for.\<close>

definition asks_only :: "daemon_screen \<Rightarrow> daemon_screen \<Rightarrow> bool" where
  "asks_only s t = (ch_history (screen_hook t) = ch_history (screen_hook s) \<and> ch_db (screen_hook t) = ch_db (screen_hook s) \<and>
     ch_sandbox (screen_hook t) = ch_sandbox (screen_hook s) \<and> ds_files t = ds_files s)"

interpretation daemon_page: rendered "DaemonView env" "screen_step env point_json" asks_only
  by unfold_locales (auto simp: asks_only_def offered_DaemonView split: if_splits)

section \<open>Exports\<close>

text \<open>
  An exported file reads back as the document of the store of the sandbox whose page had the click, whatever page is open when the
  read ends (for samples whose figures are whole numbers; the text of a fraction is the browser's).
\<close>

lemma export_reads_back:
  assumes "k < length (ds_exports s)" "ds_exports s ! k = (generation, sandboxId)"
    and "\<forall>p \<in> set (readDaemonCapture sandboxId DAEMON_HISTORY_LIMIT (ch_db (screen_hook s))). json_plain (point_json p)"
  shows "\<exists>name document. ds_files (screen_step env point_json s (Export_read k exportedAt None)) = ds_files s @ [(name, document)] \<and>
    name = capture_filename sandboxId exportedAt \<and>
    JSON_parse document = Some (export_document point_json sandboxId exportedAt (readDaemonCapture sandboxId DAEMON_HISTORY_LIMIT (ch_db (screen_hook s))))"
proof -
  let ?d = "export_document point_json sandboxId exportedAt (readDaemonCapture sandboxId DAEMON_HISTORY_LIMIT (ch_db (screen_hook s)))"
  have "json_plain ?d" using assms(3) by (simp add: export_document_def list_all_iff)
  then have "JSON_parse (JSON_pretty ?d) = Some ?d" using JSON_pretty_roundtrip [of ?d "[]"] by simp
  then show ?thesis using assms(1,2) by (simp add: export_settled_def exportCapture_def)
qed

end
