(* ===== verification/Spec2Isabelle.thy ===== *)
theory Spec2Isabelle
  imports Asset_Script Server_Registry Server_Router Server_Proxy Server_Rpc Server_Assets Transcript_View Rpc Poll Resources Fleet Clusters Daemon_Capture Terminal_Text Ledger Transcript_Poll Session_Sidebar Terminal_Tab Command_Input
    Js_Number Catalog File_View File_Tree Observability_Api Layer_Stack
    Sandbox_Pages Dashboard_View Create_View Topology_View Layers_View File_Tree_View Files_View Terminal_View Shell_View Routes Traces_View Events_Page Resources_Page Daemon_Page
begin

text \<open>
  A verification library for the Ephemeral Sandbox Console, the web console of a fleet of sandboxes
  (\<^verbatim>\<open>src/web\<close>), and of the server in front of it (\<^verbatim>\<open>src/server/src\<close>).

  \<^bold>\<open>The program.\<close>  The console is a React application.  \<^verbatim>\<open>api/\<close> speaks to a gateway: requests and an event stream
  (\<^verbatim>\<open>rpc.ts\<close>), the files, catalog, observability and host resource calls.  \<^verbatim>\<open>core/\<close> and \<^verbatim>\<open>lib/\<close> hold the
  read models: the fleet list and its cards (\<^verbatim>\<open>fleet.ts\<close>), activity and status, resources, sandbox clusters kept in the
  browser and on the server, daemon metrics and their capture in IndexedDB, text and number formats.  \<^verbatim>\<open>poll/\<close> decides
  when to ask: intervals that decay, and gates that leave an idle sandbox alone.  \<^verbatim>\<open>pages/\<close> and \<^verbatim>\<open>components/\<close>
  show it: the dashboard, the page of a sandbox with its terminal, files, preview and observability tabs, and the actions.
  A page asks through \<^verbatim>\<open>poll/\<close>, the answer passes through the read models, and the user's
  actions become requests of \<^verbatim>\<open>api/\<close>; what must survive a reload is in the browser's storage.  The server, in Rust, serves the
  built application, passes calls on to the gateway, keeps the registry of clusters in a file, proxies the previews of a sandbox's
  ports and, in the desktop edition, admits only its own window.  \<^verbatim>\<open>web/scripts/assets.mjs\<close> generates the images, fonts and icons and verifies them and the
  built bundle against a manifest.

  \<^bold>\<open>How it is modelled.\<close>  A pure function is a HOL function of the same name.  A hook or component is an event machine:
  its state is a record (the fields are the component's \<^verbatim>\<open>useState\<close> and \<^verbatim>\<open>useRef\<close> cells and the requests in
  flight), an event is a user action, an answer or an effect of the renderer, and one step function gives the next
  state, so that a run is a list of events and every interleaving of answers and clicks is one (theory \<^verbatim>\<open>Machine\<close>).  What every
  page, dialog and part of the frame renders is a tree of elements with the events their handlers send (theory \<^verbatim>\<open>View\<close>), with loading buttons disabled and closed dialogs
  absent.  Pages that mount other machines are composed of them, and a part that leaves the screen with calls in flight is kept until they are answered.  An \<^verbatim>\<open>await\<close> ends a
  step: the rest of the handler is the step of the answer.  Effects that only depend on the state run after every event.  Exceptions are values
  of a sum type (\<^verbatim>\<open>RpcError\<close>, \<^verbatim>\<open>thrown\<close>, \<^verbatim>\<open>rejection\<close>), absent values are options, objects and maps are
  association lists with the laws of JavaScript's \<^verbatim>\<open>Map\<close> and \<^verbatim>\<open>Set\<close> (theory \<^verbatim>\<open>Prelude\<close>).  Text is a list of
  bytes-wide characters, with characters beyond Latin-1 as their UTF-8 bytes; numbers that the code tests for finiteness are
  \<^verbatim>\<open>jsnum\<close> over the rationals, counts and timestamps are naturals and integers.  What is not in the repository is a
  parameter: the gateway's answers, TanStack Query's results and schedule, the virtualizer's window, the editor widget, URI encoding and
  locale formats, the hash, image and icon tools of the asset script, the operation contract of the server; what a theorem needs of it is a
  hypothesis with a witness.  Files are a tree (theory \<^verbatim>\<open>Node_Paths\<close>), steps that may fail are sequenced with \<^verbatim>\<open>then_do\<close> (theory
  \<^verbatim>\<open>Results\<close>); a server's request is one step, since a handler holds its lock to the end.

  \<^bold>\<open>Theories.\<close>
  \<^item> Foundations: \<^verbatim>\<open>Prelude\<close> (arrays, maps, strings), \<^verbatim>\<open>Js_Sort\<close> (the stable sort and comparator locales),
    \<^verbatim>\<open>Js_Number\<close> (number parsing and the formats of \<^verbatim>\<open>lib/format.ts\<close>), \<^verbatim>\<open>Json\<close> (values, printing,
    parsing and their round trip), \<^verbatim>\<open>Json_Pretty\<close> (indented JSON and its round trip), \<^verbatim>\<open>Results\<close>, \<^verbatim>\<open>Node_Paths\<close> (Node's paths and files), \<^verbatim>\<open>Machine\<close> (runs and the machine locales), \<^verbatim>\<open>Storage\<close> (stored lists as a locale),
    \<^verbatim>\<open>View\<close> (what a component renders and which events it offers), \<^verbatim>\<open>Plots\<close> (a chart of the library inside a component).
  \<^item> API: \<^verbatim>\<open>Api_Types\<close> (\<^verbatim>\<open>api/types.ts\<close> and the answers of \<^verbatim>\<open>api/observability.ts\<close>), \<^verbatim>\<open>Rpc\<close> (\<^verbatim>\<open>rpc.ts\<close>, \<^verbatim>\<open>http.ts\<close>,
    \<^verbatim>\<open>gateway.ts\<close> and the writer of \<^verbatim>\<open>server/src/rpc.rs\<close>), \<^verbatim>\<open>Observability_Api\<close>, \<^verbatim>\<open>Files_Api\<close> (\<^verbatim>\<open>files.ts\<close>), \<^verbatim>\<open>Catalog\<close> (\<^verbatim>\<open>catalog.ts\<close>).
  \<^item> Read models: \<^verbatim>\<open>Activity\<close> (\<^verbatim>\<open>activity.ts\<close>, \<^verbatim>\<open>status.ts\<close>), \<^verbatim>\<open>Resources\<close>, \<^verbatim>\<open>Fleet\<close>, \<^verbatim>\<open>Clusters\<close>,
    \<^verbatim>\<open>Daemon_Metrics\<close>, \<^verbatim>\<open>Capture_Store\<close> (\<^verbatim>\<open>daemonCaptureStore.ts\<close>), \<^verbatim>\<open>Terminal_Text\<close>.
  \<^item> Polling: \<^verbatim>\<open>Poll\<close> (\<^verbatim>\<open>usePoll.ts\<close>, \<^verbatim>\<open>useSandboxSnapshot.ts\<close>, \<^verbatim>\<open>useFleetSnapshots.ts\<close>, \<^verbatim>\<open>useProcessTopology.ts\<close>).
  \<^item> Dashboard: \<^verbatim>\<open>Dashboard\<close> (\<^verbatim>\<open>DashboardPage.tsx\<close>, \<^verbatim>\<open>DashboardSummary.tsx\<close>, \<^verbatim>\<open>SandboxCard.tsx\<close>, \<^verbatim>\<open>FleetSummaryBar.tsx\<close>),
    \<^verbatim>\<open>Create_Sandbox\<close> (\<^verbatim>\<open>CreateSandboxModal.tsx\<close>, \<^verbatim>\<open>WorkspacePicker.tsx\<close>, \<^verbatim>\<open>hostResources.ts\<close>), \<^verbatim>\<open>Fleet_Actions\<close>
    (\<^verbatim>\<open>DestroyAction.tsx\<close>, \<^verbatim>\<open>SquashDialog.tsx\<close>, \<^verbatim>\<open>RemoveClusterAction.tsx\<close>, notifications, badges, sparklines), \<^verbatim>\<open>Shell_Frame\<close> and \<^verbatim>\<open>Shell_View\<close> (\<^verbatim>\<open>Shell.tsx\<close>),
    \<^verbatim>\<open>Routes\<close> (the route table of \<^verbatim>\<open>App.tsx\<close> and the links into it);
    \<^verbatim>\<open>Actions_View\<close>, \<^verbatim>\<open>Dashboard_View\<close>, \<^verbatim>\<open>Create_View\<close> and \<^verbatim>\<open>Picker_View\<close> are what they render.
  \<^item> Terminal: \<^verbatim>\<open>Ledger\<close> (\<^verbatim>\<open>ledger.ts\<close>), \<^verbatim>\<open>Transcript_Poll\<close> (\<^verbatim>\<open>TranscriptPollProvider.tsx\<close>), \<^verbatim>\<open>Transcript_View\<close> (\<^verbatim>\<open>TranscriptViewer.tsx\<close>), \<^verbatim>\<open>Terminal_Tab\<close>,
    \<^verbatim>\<open>Session_Sidebar\<close> (with \<^verbatim>\<open>WorkspaceSessionActions.tsx\<close>), \<^verbatim>\<open>Command_Input\<close> (\<^verbatim>\<open>CommandComposer.tsx\<close>, \<^verbatim>\<open>StdinBar.tsx\<close>, \<^verbatim>\<open>CommandCard.tsx\<close>);
    \<^verbatim>\<open>Sessions_View\<close> renders the sidebar and \<^verbatim>\<open>Terminal_View\<close> the page, composed of the tab, its composer and its cards.
  \<^item> Files: \<^verbatim>\<open>File_View\<close> and \<^verbatim>\<open>Blame\<close>, \<^verbatim>\<open>File_Tree\<close>; \<^verbatim>\<open>Sandbox_Pages\<close> (the frame of a sandbox's page, \<^verbatim>\<open>FilesTab.tsx\<close>, \<^verbatim>\<open>PreviewTab.tsx\<close>, \<^verbatim>\<open>PortPreview.tsx\<close>);
    \<^verbatim>\<open>File_Tree_View\<close> renders the navigator, \<^verbatim>\<open>Files_View\<close> the files page, composed of the tab and the file surfaces it mounts and leaves, and
    \<^verbatim>\<open>Sandbox_View\<close> the frame of the sandbox and its previews.
  \<^item> Observability: \<^verbatim>\<open>Process_Estimates\<close>, \<^verbatim>\<open>Resource_Views\<close> (\<^verbatim>\<open>ResourcesView.tsx\<close>, \<^verbatim>\<open>CgroupView.tsx\<close>), \<^verbatim>\<open>Daemon_Capture\<close>
    (\<^verbatim>\<open>useDaemonCapture.ts\<close>), \<^verbatim>\<open>Daemon_View\<close> (\<^verbatim>\<open>DaemonView.tsx\<close>, \<^verbatim>\<open>DaemonCharts.tsx\<close>), \<^verbatim>\<open>Traces\<close>, \<^verbatim>\<open>Events_View\<close>, \<^verbatim>\<open>Layer_Stack\<close>;
    \<^verbatim>\<open>Traces_View\<close>, \<^verbatim>\<open>Events_Page\<close>, \<^verbatim>\<open>Resources_Page\<close>, \<^verbatim>\<open>Topology_View\<close>, \<^verbatim>\<open>Layers_View\<close> and \<^verbatim>\<open>Daemon_Page\<close> are the pages as they are rendered
    and used.
  \<^item> Build: \<^verbatim>\<open>Asset_Script\<close> (\<^verbatim>\<open>assets.mjs\<close>: generation, manifest, verification of the repository and of the bundle).
  \<^item> Server: \<^verbatim>\<open>Server_Http\<close> (headers, requests, \<^verbatim>\<open>response.rs\<close>), \<^verbatim>\<open>Server_Registry\<close> (\<^verbatim>\<open>sandbox_clusters.rs\<close>), \<^verbatim>\<open>Server_Auth\<close> (\<^verbatim>\<open>auth.rs\<close>),
    \<^verbatim>\<open>Server_Router\<close> (\<^verbatim>\<open>router.rs\<close>, \<^verbatim>\<open>daemon_api.rs\<close>), \<^verbatim>\<open>Server_Proxy\<close> (\<^verbatim>\<open>proxy.rs\<close>, \<^verbatim>\<open>endpoint.rs\<close>), \<^verbatim>\<open>Server_Rpc\<close> (\<^verbatim>\<open>rpc.rs\<close>), \<^verbatim>\<open>Server_Assets\<close> (\<^verbatim>\<open>assets.rs\<close>).

  \<^bold>\<open>What the theorems show.\<close>
  \<^item> Protocol: the stream client reads exactly what the server's writer sent, for every chunking; which failures reject a call and how;
    whole files are read except leading pages of one blank line; a call passes through browser and server unchanged.
  \<^item> Requests: an idle sandbox is asked at most once per revision; process topology is not asked again without a new revision; at most four transcripts
    are polled at a time and each within a bounded number of ticks, and a viewer that asks catches up with every line; at most one session mutation with its refresh, one command per
    composer, one creation and one squash is in flight, a session mutation ends with its answers, and every command and creation request is well formed.
  \<^item> Data kept: the draft of a file changes only by typing, leaving or a completed write, and a write starts only over the content the
    draft is based on; the ledger's round trip, its reconciliation with snapshots and its survival of a change of sandbox; the IndexedDB capture refines a
    bounded log and what the daemon page shows is its tail.
  \<^item> Displays: the cards keep their order over any run and are the records of the list; the two views of the dashboard agree; resolved clusters
    partition the fleet, and a created cluster shows on the dashboard; the tree's rows, the waterfall's preorder, the sorted events, the squashable runs and the
    process estimates are what reference definitions say; selections refer to what is listed, and a failed publication is
    reported, and caches invalidated, by what the server committed.
  \<^item> Pages: every link of the console leads to the page it names, with its sandbox and trace, and redirects end; every listed trace can be chosen in two
    clicks and nothing else is asked for; clicks keep the event table sorted and choose only windows and scopes that are listed; the charts show the samples
    shown and leave no plot behind; an exported capture reads back; the files page shows the file of its address, through the published view or an active
    session, and keeps its draft; a command runs in the session the terminal page says and is listed when it is answered; a cluster's badge leads to its cluster;
    discarding, destroying and removing take a confirmation; the frame of a preview is isolated.
  \<^item> Server: the registry refines a list of clusters that survives restarts, and a cluster one browser registers is listed by all; the desktop
    server admits only requests with its host, token and origin and hands the token out once; previews carry no credential in or out, their
    redirects stay under the selected port and the tab's address is routed to it; static files come from the assets directory only.
  \<^item> Build: a repository and a bundle that verify are what their manifests say, file by file and typed; a manifest just written verifies.

  \<^bold>\<open>Interfaces.\<close>  \<^verbatim>\<open>environment_machine\<close>, \<^verbatim>\<open>event_machine\<close> and \<^verbatim>\<open>guarded_machine\<close> (what a step keeps and how much is in flight) are interpreted on
  the machines of the components, \<^verbatim>\<open>comparator\<close> and \<^verbatim>\<open>key_comparator\<close> on the program's comparison functions,
  \<^verbatim>\<open>stored_list\<close> on the registries kept as JSON text; the server's registry is an \<^verbatim>\<open>environment_machine\<close> whose environment lets file operations
  succeed; the properties follow from their facts.  \<^verbatim>\<open>rendered\<close> (what the clicks a page offers may do) is interpreted on
  the pages, dialogs and the frame, the machine locales on the composed files and terminal pages too, \<^verbatim>\<open>plot_owner\<close> on the two pages with charts.

  \<^bold>\<open>Termination and fuel.\<close>  Loops over data are recursive functions with measures (the JSON printer, the SSE reader, the explicit stack of
  \<^verbatim>\<open>flatten\<close>, \<^verbatim>\<open>flattenRows\<close> over expanded directories, the cursors of the capture).  The paging loops ask a server and may not
  end: they take fuel, and the theorems show that a number of rounds given by the length of the file or output suffices, and one
  case in which none does.

  \<^bold>\<open>Defects found\<close> (each with a lemma): the paging loop of a transcript diverges on a page of one blank line; the whole-file
  read drops leading blank pages; text typed during a save or a command's start is lost; a snapshot before a launch's
  answer lists the command twice; the greedy pattern for terminal commands swallows a hyperlink's text; the cluster registry's
  one-time migration runs on every listing; 119.5 seconds show as 1m 60s; a sandbox named like a view takes its highlight; a
  session that stops being active drops a draft; dot segments leave the preview's prefix; resuming a capture without a store shows it capturing; a
  destruction that ends takes the user from another page; a failed removal of a cluster, asked for again, succeeds without being written and
  comes undone at the next start of the server; a relative redirect of a preview asked for without a trailing slash leaves its port; the rows of
  the event table take Enter and the space bar from the links and buttons in them; the arrow keys of the file tree stop at rows that are links; a search
  that is hidden again still filters the folder picker; a command answered after the tab turned to another sandbox is listed there; the blame of a file stays
  that of the content before a save; publishing a session sends a user who turned to another one back to the quick terminal.

  \<^bold>\<open>Not modelled.\<close>  Layout, styling and focus (\<^verbatim>\<open>*.css\<close>, \<^verbatim>\<open>theme.ts\<close>, which is a table of colours and default props); the entry points and providers
  (\<^verbatim>\<open>main.tsx\<close>, \<^verbatim>\<open>AppProviders.tsx\<close>), which only wire libraries; the notifications of the session sidebar; the canvas of the charts and the scrolling
  positions of transcripts, which belong to the browser; the scheduler and cache of TanStack Query; the server's process (\<^verbatim>\<open>main.rs\<close>, \<^verbatim>\<open>server.rs\<close>,
  \<^verbatim>\<open>config.rs\<close>, \<^verbatim>\<open>gateway_control.rs\<close>) and the desktop shell, which are platform I/O; the tests.
\<close>

section \<open>From the create dialog to the dashboard\<close>

text \<open>A registry that ends with a cluster none of the others overlaps.\<close>

definition newest_cluster :: "SandboxClusterRecord \<Rightarrow> SandboxClusterRecord list \<Rightarrow> bool" where
  "newest_cluster c registry = (\<exists>others. registry = others @ [c] \<and> (\<forall>d \<in> set others. cluster_apart d c))"

lemma merge_newest: "newest_cluster c ys \<Longrightarrow> newest_cluster c (mergeSandboxClusters xs ys)"
  by (auto simp: newest_cluster_def mergeSandboxClusters_snoc)

lemma listed_newest:
  "newest_cluster c (readSandboxClusters storage) \<Longrightarrow> newest_cluster c (fst (listSandboxClusters storage outcome))"
  by (auto simp: listSandboxClusters_def merge_newest Let_def split: fetch_outcome.splits option.splits json.splits)

lemma newest_resolved:
  assumes new: "newest_cluster c registry" and d: "distinct (map rec_id records)"
    and r: "r \<in> set records" "rec_id r \<in> set (cl_memberIds c)"
  shows "\<exists>cl \<in> set (fst (resolveSandboxClusters records registry)). cl_id cl = cl_id c \<and> r \<in> set (cl_members cl)"
proof -
  obtain others where o: "registry = others @ [c]" "\<forall>d \<in> set others. cluster_apart d c"
    using new by (auto simp: newest_cluster_def)
  let ?m = "map_new (map (\<lambda>r. (rec_id r, r)) records)"
  define st where "st = foldl (resolve_step ?m) \<lparr>rz_clusters = [], rz_clusteredIds = []\<rparr> others"
  have "resolution_inv records others st" unfolding st_def using d by (rule resolve_inv)
  then have free: "rec_id r \<notin> set (rz_clusteredIds st)"
    using o(2) r(2) d r(1) by (auto simp: resolution_inv_def cluster_apart_def distinct_map inj_on_def)
  let ?members = "filter (\<lambda>r. rec_id r \<notin> set (rz_clusteredIds st)) (List.map_filter (map_of ?m) (set_new (cl_memberIds c)))"
  have mem: "r \<in> set ?members" using r free by (auto simp: set_map_filter map_of_records [OF d])
  then have "?members \<noteq> []" by (metis empty_iff list.set(1))
  then have "rz_clusters (resolve_step ?m st c) = rz_clusters st @ [SandboxClusterRecord.extend c \<lparr>cl_members = ?members\<rparr>]"
    by (simp add: resolve_step_def Let_def)
  then have "SandboxClusterRecord.extend c \<lparr>cl_members = ?members\<rparr> \<in> set (fst (resolveSandboxClusters records registry))"
    by (simp add: resolveSandboxClusters_def o(1) st_def Let_def)
  then show ?thesis using mem by (intro bexI [of _ "SandboxClusterRecord.extend c \<lparr>cl_members = ?members\<rparr>"]) (simp_all add: SandboxClusterRecord.defs)
qed

lemma badge_of_member:
  assumes "distinct (card_ids s)" "cl \<in> set (fst (db_presentation s))" "r \<in> set (cl_members cl)"
  shows "map_of (clusterIdsBySandbox s) (rec_id r) = Some (cl_id cl)"
proof -
  let ?kvs = "concat (map (\<lambda>c. map (\<lambda>m. (rec_id m, cl_id c)) (cl_members c)) (fst (db_presentation s)))"
  have "map fst ?kvs = map rec_id (concat (map cl_members (fst (db_presentation s))))"
    by (simp add: map_concat comp_def)
  then have "distinct (map fst ?kvs)" using presentation_members(1) [OF assms(1)] by simp
  then have "map_of (map_new ?kvs) = map_of ?kvs" by (rule map_of_map_new_distinct)
  moreover have "(rec_id r, cl_id cl) \<in> set ?kvs" using assms(2,3) by auto
  ultimately show ?thesis using \<open>distinct (map fst ?kvs)\<close> by (simp only: clusterIdsBySandbox_def map_of_eq_Some_iff)
qed

lemma creation_storage:
  assumes "cm_calls m = request # calls"
    and "registerSandboxCluster created now (cq_mode request = Create_cluster) (cm_storage m) = Some (c, storage, posted)"
  shows "cm_storage (create_step m (Create_done now (Inr created) failure)) = storage"
  using assms by (auto simp: create_step_def create_done_def values_effect_def Let_def split: option.splits if_splits)

section \<open>Properties\<close>

text \<open>
  C15: A created cluster shows on the dashboard.  When the stream of a creation ends with records that
  make a cluster, then on any later dashboard of this browser, with the server's registry not yet
  listed or listed with any answer, failures included, every created sandbox in the list wears the
  badge of the new cluster, also when older clusters named its id.
\<close>

theorem created_cluster_shown:
  assumes "\<forall>e \<in> set es. lists_once e" "s = run dashboard_step (dashboard_init storage q v) es"
    and "cm_calls m = request # calls" "st_readable (cm_storage m)" "st_writable (cm_storage m)"
    and "registerSandboxCluster created now (cq_mode request = Create_cluster) (cm_storage m) = Some (Some c, written, posted)"
    and "browser = cm_storage (create_step m (Create_done now (Inr created) failure))"
    and "db_storage s = browser"
    and "po_data (db_clusters s) = None \<or> po_data (db_clusters s) = Some (fst (listSandboxClusters browser outcome))"
    and "r \<in> set (db_records s)" "rec_id r \<in> set (cl_memberIds c)"
  shows "map_of (clusterIdsBySandbox s) (rec_id r) = Some (cl_id c)"
proof -
  have "dashboard_inv s" unfolding assms(2) using dashboard_init_inv assms(1) by (rule dashboard.inv_possible_run)
  then have d: "distinct (card_ids s)" by (rule inv_distinct)
  have b: "browser = written" unfolding assms(7) using assms(3,6) by (rule creation_storage)
  have "newest_cluster c (readSandboxClusters browser)"
    using registerSandboxCluster_stored [OF assms(6,4,5)] unfolding b newest_cluster_def by auto
  then have "newest_cluster c (clusterRegistry s)"
    using assms(8,9) listed_newest [of c browser outcome] by (auto simp: clusterRegistry_def)
  from newest_resolved [OF this, of "db_records s" r] d assms(10,11)
  obtain cl where "cl \<in> set (fst (db_presentation s))" "cl_id cl = cl_id c" "r \<in> set (cl_members cl)"
    by (auto simp: db_presentation_def card_ids_def)
  with badge_of_member [OF d] show ?thesis by metis
qed

definition empty_storage :: local_storage where
  "empty_storage = \<lparr>st_readable = True, st_writable = True, st_item = None\<rparr>"

definition sample_created :: json where
  "sample_created = JObj [(''id'', JStr ''eos-a1-x''), (''workspace_root'', JStr ''/w''), (''state'', JStr ''ready'')]"

definition sample_creating :: create_modal where
  "sample_creating = (create_init empty_storage)\<lparr>cm_busy := True, cm_calls := [\<lparr>cq_mode = Create_cluster, cq_spec = sample_spec, cq_args = []\<rparr>]\<rparr>"

definition sample_browser :: local_storage where
  "sample_browser = cm_storage (create_step sample_creating (Create_done ''t'' (Inr sample_created) None))"

definition sample_page :: dashboard where
  "sample_page = run dashboard_step (dashboard_init empty_storage None None)
     [Storage_change sample_browser, List_result (sample_answer (sample_list [''eos-a1-x'']))]"

lemma sample_page_fields:
  "db_storage sample_page = sample_browser" "po_data (db_clusters sample_page) = None"
  "db_records sample_page = [sample_record ''eos-a1-x'' Ready None]"
proof -
  show "db_storage sample_page = sample_browser" "po_data (db_clusters sample_page) = None"
    by (simp_all add: sample_page_def dashboard_step_def memo_fleet_def dashboard_effects_def dashboard_init_def no_result_def)
  show "db_records sample_page = [sample_record ''eos-a1-x'' Ready None]"
    by (simp add: sample_page_def dashboard_step_def memo_fleet_def dashboard_effects_def db_records_def sourceFleet_def
        lifecycleActive_def currentFleetList_def sample_answer_def dashboard_init_def no_result_def sample_idle stabilizeFleetList_def
        hasFleetActivity_def list_records_def sample_list_def sample_record_def Let_def set_new_def)
qed

theorem created_cluster_shown_witness:
  "map_of (clusterIdsBySandbox sample_page) ''eos-a1-x'' = Some ''cluster-a1''"
proof -
  let ?c = "\<lparr>cl_id = ''cluster-a1'', cl_memberIds = [''eos-a1-x''], cl_workspaceRoot = ''/w'', cl_createdAt = ''t''\<rparr>"
  let ?r = "\<lparr>cq_mode = Create_cluster, cq_spec = sample_spec, cq_args = []\<rparr>"
  have "clusterFromCreateResult sample_created ''t'' True = Some (Some ?c)"
    by (simp add: sample_created_def clusterFromCreateResult_def recordsFromCreateResult_def obj_get_def
        isSandboxRecord_def clusterSuffix_def startsWith_def)
  then have reg: "registerSandboxCluster sample_created ''t'' (cq_mode ?r = Create_cluster) (cm_storage sample_creating) =
      Some (Some ?c, writeSandboxClusters (mergeSandboxClusters (readSandboxClusters empty_storage) [?c]) empty_storage, [?c])"
    by (simp add: registerSandboxCluster_def sample_creating_def create_init_def)
  have possible: "\<forall>e \<in> set [Storage_change sample_browser, List_result (sample_answer (sample_list [''eos-a1-x'']))]. lists_once e"
    by (simp add: sample_answer_def sample_list_def listed_once_def list_records_def)
  have "map_of (clusterIdsBySandbox sample_page) (rec_id (sample_record ''eos-a1-x'' Ready None)) = Some (cl_id ?c)"
    using created_cluster_shown [OF possible sample_page_def _ _ _ reg sample_browser_def sample_page_fields(1) disjI1 [OF sample_page_fields(2)]]
    by (simp add: sample_page_fields(3) sample_creating_def create_init_def empty_storage_def sample_record_def)
  then show ?thesis by (simp add: sample_record_def)
qed

end
